(* ===== verification/Prelude.thy ===== *)
theory Prelude
  imports Main "HOL-Library.Word" "HOL-Library.Monad_Syntax" "HOL-Library.List_Lexorder"
begin

text \<open>
  Shared vocabulary of the development.

  Machine integers of the Rust sources are words of the same width; the crates are
  compiled in the release profile, so \<open>+\<close>, \<open>-\<close> and \<open>*\<close> wrap around.  A Rust function
  that can panic (an \<open>unwrap\<close> on nothing, a division by zero, a failed assertion) returns
  \<open>None\<close> in its outermost option: \<open>'a panics\<close> is the type of such results.  Errors
  that are values of the program (\<open>Result\<close>) are a sum with the error on the left.

  The second half holds the byte encodings of fixed-width integers, with their round
  trips and the fact that the big-endian encoding is monotone for the byte-wise
  lexicographic order, and the decimal rendering of numbers used in messages.
\<close>

type_synonym u8 = "8 word"
type_synonym u32 = "32 word"
type_synonym i32 = "32 word"
type_synonym u64 = "64 word"
type_synonym i64 = "64 word"
type_synonym u128 = "128 word"
type_synonym bytes = "8 word list"
type_synonym digest32 = "256 word"

type_synonym 'a panics = "'a option"

named_theorems codec_simps \<open>encoders and decoders\<close>
named_theorems word_nat \<open>reading word operations as operations on natural numbers\<close>

section \<open>Saturating and checked arithmetic\<close>

definition saturating_sub :: "'a::len word \<Rightarrow> 'a word \<Rightarrow> 'a word" where
  "saturating_sub a b = (if b \<le> a then a - b else 0)"

definition checked_div :: "'a::len word \<Rightarrow> 'a word \<Rightarrow> 'a word panics" where
  "checked_div a b = (if b = 0 then None else Some (a div b))"

lemma unat_saturating_sub [word_nat]: "unat (saturating_sub a b) = unat a - unat b"
  by (auto simp: saturating_sub_def unat_sub word_le_nat_alt)

lemma saturating_sub_zero [simp]: "saturating_sub a 0 = a"
  by (simp add: saturating_sub_def)

lemma saturating_sub_le: "saturating_sub a b \<le> a"
  by (simp add: word_le_nat_alt word_nat)

lemma saturating_sub_pos_add: "0 < saturating_sub a b \<Longrightarrow> saturating_sub a b + b = a"
  by (auto simp: saturating_sub_def split: if_splits)

lemma checked_div_Some: "checked_div a b = Some q \<longleftrightarrow> b \<noteq> 0 \<and> q = a div b"
  by (auto simp: checked_div_def)

lemma checked_div_eq [simp]: "b \<noteq> 0 \<Longrightarrow> checked_div a b = Some (a div b)"
  by (simp add: checked_div_def)

lemma checked_div_zero [simp]: "checked_div a 0 = None"
  by (simp add: checked_div_def)

lemma unat_div_word [word_nat]: "unat (a div b) = unat a div unat b"
  by (rule unat_div)

lemma unat_add_exact: "unat a + unat b < 2 ^ LENGTH('a) \<Longrightarrow> unat ((a::'a::len word) + b) = unat a + unat b"
  by (simp add: unat_add_lem)

lemma unat_mult_exact: "unat a * unat b < 2 ^ LENGTH('a) \<Longrightarrow> unat ((a::'a::len word) * b) = unat a * unat b"
  by (simp add: unat_mult_lem)

lemma unat_sub_exact: "unat b \<le> unat a \<Longrightarrow> unat (a - b) = unat a - unat b"
  by (simp add: unat_sub word_le_nat_alt)

lemma unat_lt: "unat (w :: 'a::len word) < 2 ^ LENGTH('a)"
  by (rule unsigned_less)

lemma unat_ucast_up: "LENGTH('a::len) \<le> LENGTH('b::len) \<Longrightarrow> unat (ucast (w::'a word) :: 'b word) = unat w"
  by (simp add: unsigned_ucast_eq take_bit_nat_eq_self order_less_le_trans [OF unat_lt])

lemma unat_u32_u64 [word_nat]: "unat (ucast (w::u32) :: u64) = unat w"
  by (rule unat_ucast_up) simp

lemma unat_u64_u128 [word_nat]: "unat (ucast (w::u64) :: u128) = unat w"
  by (rule unat_ucast_up) simp

lemma unat_u32_u128 [word_nat]: "unat (ucast (w::u32) :: u128) = unat w"
  by (rule unat_ucast_up) simp

lemma unat_pos: "w \<noteq> 0 \<Longrightarrow> 0 < unat w"
  by (simp add: unat_gt_0)

lemma unat_of_nat_exact: "n < 2 ^ LENGTH('a) \<Longrightarrow> unat (of_nat n :: 'a::len word) = n"
  by (simp add: unsigned_of_nat take_bit_nat_eq_self)

lemma unat_of_nat_u64: "n < 2 ^ 64 \<Longrightarrow> unat (of_nat n :: u64) = n"
  by (rule unat_of_nat_exact) simp

lemma unat_mult_u128: "unat a * unat b < 2 ^ 128 \<Longrightarrow> unat (a * b :: u128) = unat a * unat b"
  by (rule unat_mult_exact) simp

lemma unat_mult_u64: "unat a * unat b < 2 ^ 64 \<Longrightarrow> unat (a * b :: u64) = unat a * unat b"
  by (rule unat_mult_exact) simp

lemma unat_add_u64: "unat a + unat b < 2 ^ 64 \<Longrightarrow> unat (a + b :: u64) = unat a + unat b"
  by (rule unat_add_exact) simp

lemma unat_u64_lt: "unat (w::u64) < 2 ^ 64"
  using unat_lt [of w] by simp

lemma unat_u32_lt: "unat (w::u32) < 2 ^ 32"
  using unat_lt [of w] by simp

section \<open>Big-endian and little-endian bytes of a number\<close>

primrec be_nat :: "nat \<Rightarrow> nat \<Rightarrow> bytes" where
  "be_nat 0 k = []"
| "be_nat (Suc n) k = be_nat n (k div 256) @ [word_of_nat k]"

definition nat_be :: "bytes \<Rightarrow> nat" where
  "nat_be bs = foldl (\<lambda>a b. a * 256 + unat b) 0 bs"

lemma length_be_nat [simp]: "length (be_nat n k) = n"
  by (induction n arbitrary: k) auto

lemma nat_be_snoc: "nat_be (bs @ [b]) = nat_be bs * 256 + unat b"
  by (simp add: nat_be_def)

lemma unat_word_of_nat_8: "unat (word_of_nat k :: 8 word) = k mod 256"
  by (simp add: unat_of_nat)

lemma nat_be_be_nat: "nat_be (be_nat n k) = k mod 256 ^ n"
proof (induction n arbitrary: k)
  case 0
  then show ?case by (simp add: nat_be_def)
next
  case (Suc n)
  have "nat_be (be_nat (Suc n) k) = (k div 256 mod 256 ^ n) * 256 + k mod 256"
    by (simp add: nat_be_snoc Suc unat_word_of_nat_8)
  also have "\<dots> = k mod 256 ^ Suc n"
    by (simp add: mod_mult2_eq)
  finally show ?case .
qed

lemma word8_low: "(word_of_nat (m * 256 + unat c) :: 8 word) = c"
proof -
  have "unat (word_of_nat (m * 256 + unat c) :: 8 word) = unat c"
    using unat_lt [of c] by (simp add: unat_word_of_nat_8 del: of_nat_add of_nat_mult)
  then show ?thesis by (rule unsigned_word_eqI)
qed

lemma be_nat_nat_be: "length bs = n \<Longrightarrow> be_nat n (nat_be bs) = bs"
proof (induction n arbitrary: bs)
  case 0
  then show ?case by simp
next
  case (Suc n)
  then obtain cs c where "bs = cs @ [c]" "length cs = n"
    by (metis length_Suc_conv_rev)
  then show ?case using Suc.IH [of cs] unat_lt [of c]
    by (simp add: nat_be_snoc word8_low del: of_nat_add of_nat_mult)
qed

lemma nat_be_lt: "nat_be bs < 256 ^ length bs"
proof (induction bs rule: rev_induct)
  case Nil
  then show ?case by (simp add: nat_be_def)
next
  case (snoc b bs)
  have "unat b < 256" using unat_lt [of b] by simp
  with snoc show ?case by (simp add: nat_be_snoc)
qed

definition to_be_bytes :: "nat \<Rightarrow> 'a::len word \<Rightarrow> bytes" where
  "to_be_bytes n w = be_nat n (unat w)"

definition from_be_bytes :: "bytes \<Rightarrow> 'a::len word" where
  "from_be_bytes bs = word_of_nat (nat_be bs)"

definition to_le_bytes :: "nat \<Rightarrow> 'a::len word \<Rightarrow> bytes" where
  "to_le_bytes n w = rev (to_be_bytes n w)"

definition from_le_bytes :: "bytes \<Rightarrow> 'a::len word" where
  "from_le_bytes bs = from_be_bytes (rev bs)"

lemma length_to_be_bytes [simp]: "length (to_be_bytes n w) = n"
  by (simp add: to_be_bytes_def)

lemma length_to_le_bytes [simp]: "length (to_le_bytes n w) = n"
  by (simp add: to_le_bytes_def)

lemma from_to_be_bytes [codec_simps]:
  assumes "LENGTH('a) = 8 * n"
  shows "from_be_bytes (to_be_bytes n (w :: 'a::len word)) = w"
proof -
  have "unat w < 256 ^ n"
    using unat_lt [of w] assms by (simp add: power_mult)
  then show ?thesis
    by (simp add: from_be_bytes_def to_be_bytes_def nat_be_be_nat)
qed

lemma from_to_le_bytes [codec_simps]:
  "LENGTH('a) = 8 * n \<Longrightarrow> from_le_bytes (to_le_bytes n (w :: 'a::len word)) = w"
  by (simp add: from_le_bytes_def to_le_bytes_def from_to_be_bytes)

lemma to_be_bytes_inject:
  "LENGTH('a) = 8 * n \<Longrightarrow> to_be_bytes n (v :: 'a::len word) = to_be_bytes n w \<longleftrightarrow> v = w"
  by (metis from_to_be_bytes)

lemma to_le_bytes_inject:
  "LENGTH('a) = 8 * n \<Longrightarrow> to_le_bytes n (v :: 'a::len word) = to_le_bytes n w \<longleftrightarrow> v = w"
  by (metis from_to_le_bytes)

text \<open>The big-endian encoding turns the order of numbers into the order of keys.\<close>

lemma append_less_same_length:
  fixes xs ys :: "'a::linorder list"
  assumes "length xs = length ys"
  shows "xs @ us < ys @ vs \<longleftrightarrow> xs < ys \<or> xs = ys \<and> us < vs"
  using assms by (induction xs ys rule: list_induct2) auto

lemma word8_of_nat_less: "(word_of_nat (a mod 256) :: 8 word) < word_of_nat (b mod 256) \<longleftrightarrow> a mod 256 < b mod 256"
  by (simp add: word_less_nat_alt unat_of_nat)

lemma div_mod_less_iff:
  "(a::nat) < b \<longleftrightarrow> a div 256 < b div 256 \<or> a div 256 = b div 256 \<and> a mod 256 < b mod 256"
proof -
  have "a = 256 * (a div 256) + a mod 256" "b = 256 * (b div 256) + b mod 256" by simp_all
  moreover have "a mod 256 < 256" "b mod 256 < 256" by simp_all
  ultimately show ?thesis by linarith
qed

lemma be_nat_less:
  "a < 256 ^ n \<Longrightarrow> b < 256 ^ n \<Longrightarrow> be_nat n a < be_nat n b \<longleftrightarrow> a < b"
proof (induction n arbitrary: a b)
  case 0
  then show ?case by simp
next
  case (Suc n)
  then have "a div 256 < 256 ^ n" "b div 256 < 256 ^ n"
    by (auto simp: less_mult_imp_div_less mult.commute)
  with Suc.IH have IH: "be_nat n (a div 256) < be_nat n (b div 256) \<longleftrightarrow> a div 256 < b div 256"
    and IHeq: "be_nat n (a div 256) = be_nat n (b div 256) \<longleftrightarrow> a div 256 = b div 256"
    by (auto) (metis mod_less nat_be_be_nat)
  have low: "(word_of_nat a :: 8 word) < word_of_nat b \<longleftrightarrow> a mod 256 < b mod 256"
    by (simp add: word_less_nat_alt unat_of_nat)
  have "a < b \<longleftrightarrow> a div 256 < b div 256 \<or> a div 256 = b div 256 \<and> a mod 256 < b mod 256"
    by (rule div_mod_less_iff)
  then show ?case by (simp add: append_less_same_length IH IHeq low)
qed

lemma to_be_bytes_less:
  "LENGTH('a) = 8 * n \<Longrightarrow> to_be_bytes n (v :: 'a::len word) < to_be_bytes n w \<longleftrightarrow> v < w"
  using unat_lt [of v] unat_lt [of w]
  by (simp add: to_be_bytes_def be_nat_less power_mult word_less_nat_alt)

section \<open>Decimal rendering\<close>

definition digit_char :: "nat \<Rightarrow> char" where
  "digit_char d = char_of (48 + d)"

fun show_nat :: "nat \<Rightarrow> string" where
  "show_nat n = (if n < 10 then [digit_char n] else show_nat (n div 10) @ [digit_char (n mod 10)])"

declare show_nat.simps [simp del]

definition digit_val :: "char \<Rightarrow> nat option" where
  "digit_val c = (let k = of_char c :: nat in if 48 \<le> k \<and> k \<le> 57 then Some (k - 48) else None)"

lemma digit_val_char [simp]: "d < 10 \<Longrightarrow> digit_val (digit_char d) = Some d"
  by (simp add: digit_val_def digit_char_def)

section \<open>Lists and options\<close>

lemma map_le_None: "m \<subseteq>\<^sub>m n \<Longrightarrow> n x = None \<Longrightarrow> m x = None"
  by (cases "m x") (auto simp: map_le_def dest: bspec)

lemma mem_map_filter: "y \<in> set (List.map_filter f xs) \<longleftrightarrow> (\<exists>x \<in> set xs. f x = Some y)"
  by (force simp: List.map_filter_def)

lemma those_map_Some [simp]: "those (map Some xs) = Some xs"
  by (induction xs) auto

lemma those_SomeD: "those xs = Some ys \<Longrightarrow> xs = map Some ys"
  by (induction xs arbitrary: ys) (auto split: option.splits)

lemma those_eq_Some: "those xs = Some ys \<longleftrightarrow> xs = map Some ys"
  using those_SomeD by auto

lemma sum_list_word_of_nat: "word_of_nat (sum_list ns) = (sum_list (map word_of_nat ns) :: 'a::len word)"
  by (induction ns) auto

lemma unat_sum_list_exact:
  "sum_list (map unat ws) < 2 ^ LENGTH('a) \<Longrightarrow> unat (sum_list (ws :: 'a::len word list)) = sum_list (map unat ws)"
proof (induction ws)
  case Nil
  then show ?case by simp
next
  case (Cons w ws)
  then show ?case by (simp add: unat_add_exact)
qed

end
