(* ===== verification/Ergo.thy ===== *)
theory Ergo
  imports Prelude
begin

text \<open>
  Chain data of the \<open>ergo_lib\<close> crate as the sources use it, and the functions of that
  crate the sources call, which are parameters: the fields of the record \<open>ergo_lib\<close>.
  An \<open>ErgoTree\<close> and a \<open>SigmaProp\<close> are identified with their canonical byte strings,
  identifiers with 256-bit digests, a register constant with the five shapes the sources
  extract.  Registers \<open>R4\<close>, \<open>R5\<close>, ... of a box are densely packed, hence a list.

  On top of them: \<open>TransactionCandidate\<close> of \<open>spectrum-offchain/src/transaction.rs\<close> and the
  token wrappers of \<open>spectrum-offchain/src/domain.rs\<close>.  The phantom asset tags of
  \<open>TypedAssetAmount\<close> have no run-time content and are not kept.
\<close>

type_synonym token_id = digest32
type_synonym box_id = digest32
type_synonym tx_id = digest32
type_synonym ergo_tree = bytes
type_synonym sigma_prop = bytes

record token =
  tok_id :: token_id
  tok_amount :: u64

datatype constant_val =
    ConstInt i32
  | ConstLong i64
  | ConstInts "i32 list"
  | ConstBytes bytes
  | ConstProp sigma_prop

fun extract_i32 :: "constant_val \<Rightarrow> i32 option" where
  "extract_i32 (ConstInt x) = Some x"
| "extract_i32 _ = None"

fun extract_i64 :: "constant_val \<Rightarrow> i64 option" where
  "extract_i64 (ConstLong x) = Some x"
| "extract_i64 _ = None"

fun extract_i32s :: "constant_val \<Rightarrow> i32 list option" where
  "extract_i32s (ConstInts xs) = Some xs"
| "extract_i32s _ = None"

fun extract_bytes :: "constant_val \<Rightarrow> bytes option" where
  "extract_bytes (ConstBytes bs) = Some bs"
| "extract_bytes _ = None"

fun extract_prop :: "constant_val \<Rightarrow> sigma_prop option" where
  "extract_prop (ConstProp p) = Some p"
| "extract_prop _ = None"

definition digest_of_bytes :: "bytes \<Rightarrow> digest32 option" where
  "digest_of_bytes bs = (if length bs = 32 then Some (from_be_bytes bs) else None)"

definition digest_bytes :: "digest32 \<Rightarrow> bytes" where
  "digest_bytes d = to_be_bytes 32 d"

lemma digest_of_bytes_digest_bytes [simp]: "digest_of_bytes (digest_bytes d) = Some d"
  by (simp add: digest_of_bytes_def digest_bytes_def codec_simps)

lemma length_digest_bytes [simp]: "length (digest_bytes d) = 32"
  by (simp add: digest_bytes_def)

lemma digest_bytes_inject [simp]: "digest_bytes a = digest_bytes b \<longleftrightarrow> a = b"
  by (metis digest_of_bytes_digest_bytes option.inject)

record ergo_box_candidate =
  bx_value :: u64
  bx_tree :: ergo_tree
  bx_tokens :: "token list option"
  bx_regs :: "constant_val list"
  bx_height :: u32

record ergo_box = ergo_box_candidate +
  box_id :: box_id

definition get_register :: "('a ergo_box_candidate_scheme) \<Rightarrow> nat \<Rightarrow> constant_val option" where
  "get_register bx r = (if 4 \<le> r \<and> r - 4 < length (bx_regs bx) then Some (bx_regs bx ! (r - 4)) else None)"

definition nth_opt :: "'a list \<Rightarrow> nat \<Rightarrow> 'a option" where
  "nth_opt xs i = (if i < length xs then Some (xs ! i) else None)"

lemma nth_opt_simps [simp]:
  "nth_opt [] i = None"
  "nth_opt (x # xs) 0 = Some x"
  "nth_opt (x # xs) (Suc i) = nth_opt xs i"
  by (auto simp: nth_opt_def)

lemma nth_opt_numeral [simp]: "nth_opt (x # xs) (numeral n) = nth_opt xs (pred_numeral n)"
  by (simp add: numeral_eq_Suc)

lemma get_register_nth_opt: "4 \<le> r \<Longrightarrow> get_register bx r = nth_opt (bx_regs bx) (r - 4)"
  by (simp add: get_register_def nth_opt_def)

text \<open>\<open>AsBox<T>\<close> of \<open>spectrum-offchain-lm/src/data.rs\<close>: a value with the box it was read from.\<close>

datatype 'a as_box = AsBox (as_bx: ergo_box) (as_val: 'a)

type_synonym context_ext = "(u8 \<times> constant_val) list"

record tx_input =
  in_box :: box_id
  in_ext :: context_ext

record transaction =
  tx_id :: tx_id
  tx_inputs :: "tx_input list"
  tx_data_inputs :: "box_id list option"
  tx_outputs :: "ergo_box list"

record ergo_lib =
  tree_template :: "ergo_tree \<Rightarrow> bytes option"
  tree_constant :: "ergo_tree \<Rightarrow> nat \<Rightarrow> constant_val option"
  parse_tree :: "bytes \<Rightarrow> ergo_tree option"
  prove_dlog :: "ergo_tree \<Rightarrow> sigma_prop option"
  prop_tree :: "sigma_prop \<Rightarrow> ergo_tree"
  base16_decode :: "string \<Rightarrow> bytes option"
  blake2b256 :: "bytes \<Rightarrow> digest32"
  box_value_ok :: "u64 \<Rightarrow> bool"
  token_amount_ok :: "u64 \<Rightarrow> bool"
  safe_user_min :: u64
  miners_fee_tree :: ergo_tree
  miners_fee_bytes :: bytes
  tx_io_max :: nat
  new_tx_id :: "tx_input list \<Rightarrow> box_id list option \<Rightarrow> ergo_box_candidate list \<Rightarrow> tx_id"
  new_box_id :: "ergo_box_candidate \<Rightarrow> tx_id \<Rightarrow> nat \<Rightarrow> box_id"

text \<open>
  A small concrete instance of the crate, for evaluation on concrete inputs: box values and
  token amounts are positive signed 64-bit numbers, trees parse to themselves, only the
  first bytes of a hexadecimal string are decoded, hashes are simple checksums.
\<close>

fun hex_digit :: "char \<Rightarrow> nat option" where
  "hex_digit c = (let k = of_char c :: nat in
     if 48 \<le> k \<and> k \<le> 57 then Some (k - 48)
     else if 97 \<le> k \<and> k \<le> 102 then Some (k - 87)
     else if 65 \<le> k \<and> k \<le> 70 then Some (k - 55) else None)"

fun hex_bytes :: "string \<Rightarrow> bytes option" where
  "hex_bytes [] = Some []"
| "hex_bytes [c] = None"
| "hex_bytes (c # d # cs) = do { h \<leftarrow> hex_digit c; l \<leftarrow> hex_digit d; bs \<leftarrow> hex_bytes cs;
     Some (word_of_nat (16 * h + l) # bs) }"

definition positive_long :: "u64 \<Rightarrow> bool" where
  "positive_long w \<longleftrightarrow> 0 < w \<and> w < 0x8000000000000000"

definition sample_lib :: ergo_lib where
  "sample_lib = \<lparr> tree_template = Some, tree_constant = (\<lambda>t i. None), parse_tree = Some,
     prove_dlog = Some, prop_tree = (\<lambda>p. p), base16_decode = (\<lambda>s. hex_bytes (take 8 s)),
     blake2b256 = (\<lambda>bs. word_of_nat (nat_be bs)), box_value_ok = positive_long,
     token_amount_ok = positive_long, safe_user_min = 1000000, miners_fee_tree = [1, 2, 3], miners_fee_bytes = [1, 2, 3],
     tx_io_max = 32767,
     new_tx_id = (\<lambda>ins dins outs. word_of_nat (length ins)),
     new_box_id = (\<lambda>c t i. t + word_of_nat i) \<rparr>"

section \<open>Transactions (transaction.rs)\<close>

record transaction_candidate =
  tc_inputs :: "(ergo_box \<times> context_ext) list"
  tc_data_inputs :: "ergo_box list option"
  tc_outputs :: "ergo_box_candidate list"

definition tx_io_vec :: "ergo_lib \<Rightarrow> 'a list \<Rightarrow> 'a list panics" where
  "tx_io_vec E xs = (if xs \<noteq> [] \<and> length xs \<le> tx_io_max E then Some xs else None)"

definition box_of_candidate :: "ergo_box_candidate \<Rightarrow> box_id \<Rightarrow> ergo_box" where
  "box_of_candidate c i = \<lparr> bx_value = bx_value c, bx_tree = bx_tree c, bx_tokens = bx_tokens c,
     bx_regs = bx_regs c, bx_height = bx_height c, box_id = i \<rparr>"

definition transaction_new ::
  "ergo_lib \<Rightarrow> tx_input list \<Rightarrow> box_id list option \<Rightarrow> ergo_box_candidate list \<Rightarrow> transaction" where
  "transaction_new E ins dins outs =
     (let t = new_tx_id E ins dins outs in
      \<lparr> tx_id = t, tx_inputs = ins, tx_data_inputs = dins,
        tx_outputs = map (\<lambda>(i, c). box_of_candidate c (new_box_id E c t i)) (enumerate 0 outs) \<rparr>)"

definition into_tx_without_proofs :: "ergo_lib \<Rightarrow> transaction_candidate \<Rightarrow> transaction" where
  "into_tx_without_proofs E tc =
     transaction_new E (map (\<lambda>(bx, ext). \<lparr> in_box = box_id bx, in_ext = ext \<rparr>) (tc_inputs tc))
       (map_option (map box_id) (tc_data_inputs tc)) (tc_outputs tc)"

lemma tx_io_vec_Some: "tx_io_vec E xs = Some ys \<longleftrightarrow> ys = xs \<and> xs \<noteq> [] \<and> length xs \<le> tx_io_max E"
  by (auto simp: tx_io_vec_def)

lemma length_into_tx [simp]: "length (tx_outputs (into_tx_without_proofs E tc)) = length (tc_outputs tc)"
  by (simp add: into_tx_without_proofs_def transaction_new_def Let_def)

lemma into_tx_output:
  "i < length (tc_outputs tc) \<Longrightarrow>
   \<exists>b. tx_outputs (into_tx_without_proofs E tc) ! i = box_of_candidate (tc_outputs tc ! i) b"
  by (auto simp: into_tx_without_proofs_def transaction_new_def Let_def nth_enumerate_eq)

lemma candidate_of_box [simp]: "ergo_box_candidate.truncate (box_of_candidate c i) = c"
  by (simp add: box_of_candidate_def ergo_box_candidate.truncate_def)

lemma box_of_candidate_fields [simp]:
  "bx_value (box_of_candidate c i) = bx_value c"
  "bx_tree (box_of_candidate c i) = bx_tree c"
  "bx_tokens (box_of_candidate c i) = bx_tokens c"
  "bx_regs (box_of_candidate c i) = bx_regs c"
  "bx_height (box_of_candidate c i) = bx_height c"
  "box_id (box_of_candidate c i) = i"
  by (simp_all add: box_of_candidate_def)

section \<open>Token amounts (domain.rs)\<close>

record typed_asset = ta_id :: token_id

record typed_asset_amount =
  asset_id :: token_id
  amount :: u64

definition typed_amount :: "token_id \<Rightarrow> u64 \<Rightarrow> typed_asset_amount" where
  "typed_amount t n = \<lparr> asset_id = t, amount = n \<rparr>"

definition to_asset :: "typed_asset_amount \<Rightarrow> typed_asset" where
  "to_asset a = \<lparr> ta_id = asset_id a \<rparr>"

definition from_token :: "token \<Rightarrow> typed_asset_amount" where
  "from_token t = typed_amount (tok_id t) (tok_amount t)"

definition coerce_amount :: "typed_asset_amount \<Rightarrow> typed_asset_amount" where
  "coerce_amount a = \<lparr> asset_id = asset_id a, amount = amount a \<rparr>"

definition token_try_from :: "ergo_lib \<Rightarrow> typed_asset_amount \<Rightarrow> token option" where
  "token_try_from E a =
     (if token_amount_ok E (amount a) then Some \<lparr> tok_id = asset_id a, tok_amount = amount a \<rparr> else None)"

definition asset_add :: "typed_asset_amount \<Rightarrow> typed_asset_amount \<Rightarrow> typed_asset_amount" where
  "asset_add a b = \<lparr> asset_id = asset_id a, amount = amount a + amount b \<rparr>"

definition asset_sub :: "typed_asset_amount \<Rightarrow> typed_asset_amount \<Rightarrow> typed_asset_amount" where
  "asset_sub a b = \<lparr> asset_id = asset_id a, amount = amount a - amount b \<rparr>"

lemma asset_fields [simp]:
  "asset_id (typed_amount t n) = t" "amount (typed_amount t n) = n"
  "asset_id (asset_add a b) = asset_id a" "amount (asset_add a b) = amount a + amount b"
  "asset_id (asset_sub a b) = asset_id a" "amount (asset_sub a b) = amount a - amount b"
  "ta_id (to_asset a) = asset_id a"
  by (simp_all add: typed_amount_def asset_add_def asset_sub_def to_asset_def)

lemma asset_eq_iff: "(a :: typed_asset_amount) = b \<longleftrightarrow> asset_id a = asset_id b \<and> amount a = amount b"
  by (cases a; cases b) simp

lemma asset_add_sub [simp]: "asset_sub (asset_add a b) b = a" "asset_add (asset_sub a b) b = a"
  by (simp_all add: asset_eq_iff)

lemma asset_add_sub_amount:
  "amount b = amount c \<Longrightarrow> asset_sub (asset_add a b) c = a"
  "amount b = amount c \<Longrightarrow> asset_add (asset_sub a b) c = a"
  by (simp_all add: asset_eq_iff)

lemma from_token_token: "token_try_from E a = Some t \<Longrightarrow> from_token t = a"
  by (auto simp: token_try_from_def from_token_def asset_eq_iff split: if_splits)

section \<open>UTF-8 validity of byte strings (std::string::String)\<close>

definition utf8_cont :: "u8 \<Rightarrow> bool" where
  "utf8_cont b \<longleftrightarrow> 0x80 \<le> b \<and> b \<le> 0xBF"

fun utf8_valid :: "bytes \<Rightarrow> bool" where
  "utf8_valid [] = True"
| "utf8_valid (a # bs) =
    (if a \<le> 0x7F then utf8_valid bs
     else if 0xC2 \<le> a \<and> a \<le> 0xDF then
       (case bs of b # cs \<Rightarrow> utf8_cont b \<and> utf8_valid cs | _ \<Rightarrow> False)
     else if 0xE0 \<le> a \<and> a \<le> 0xEF then
       (case bs of b # c # cs \<Rightarrow> utf8_cont b \<and> (a = 0xE0 \<longrightarrow> 0xA0 \<le> b) \<and> (a = 0xED \<longrightarrow> b \<le> 0x9F)
          \<and> utf8_cont c \<and> utf8_valid cs | _ \<Rightarrow> False)
     else if 0xF0 \<le> a \<and> a \<le> 0xF4 then
       (case bs of b # c # d # cs \<Rightarrow> utf8_cont b \<and> (a = 0xF0 \<longrightarrow> 0x90 \<le> b) \<and> (a = 0xF4 \<longrightarrow> b \<le> 0x8F)
          \<and> utf8_cont c \<and> utf8_cont d \<and> utf8_valid cs | _ \<Rightarrow> False)
     else False)"

definition as_bytes :: "string \<Rightarrow> bytes" where
  "as_bytes s = map (\<lambda>c. word_of_nat (of_char c)) s"

definition from_utf8 :: "bytes \<Rightarrow> string option" where
  "from_utf8 bs = (if utf8_valid bs then Some (map (\<lambda>b. char_of (unat b)) bs) else None)"

definition is_utf8 :: "string \<Rightarrow> bool" where
  "is_utf8 s = utf8_valid (as_bytes s)"

lemma char_of_unat_of_char [simp]: "char_of (unat (word_of_nat (of_char c) :: u8)) = c"
  by (simp add: unat_of_nat)

lemma from_utf8_as_bytes [simp]: "is_utf8 s \<Longrightarrow> from_utf8 (as_bytes s) = Some s"
  by (simp add: is_utf8_def from_utf8_def as_bytes_def comp_def map_idI)

end
