(* ===== verification/LM_Data.thy ===== *)
theory LM_Data
  imports Ergo
begin

text \<open>
  Data of the liquidity-mining bot: the constants and \<open>NanoErg\<close> of
  \<open>spectrum-offchain-lm/src/ergo.rs\<close>, the contract templates of \<open>validators.rs\<close>, the
  output types of \<open>data/{miner,executor,redeemer,funding}.rs\<close> with the box candidates built
  from them, the execution context and the program configuration of \<open>data/pool.rs\<close>.
\<close>

type_synonym pool_id = digest32
type_synonym pool_state_id = digest32
type_synonym bundle_id = digest32
type_synonym bundle_state_id = digest32
type_synonym funding_id = digest32
type_synonym order_id = digest32
type_synonym nano_erg = u64

section \<open>Constants (ergo.rs, data/bundle.rs, data/pool.rs, data/order.rs)\<close>

definition MAX_VALUE :: u64 where "MAX_VALUE = 0x7fffffffffffffff"
definition UNIT_VALUE :: u64 where "UNIT_VALUE = 1"
definition MIN_SAFE_BOX_VALUE :: nano_erg where "MIN_SAFE_BOX_VALUE = 250000"
definition MIN_SAFE_FAT_BOX_VALUE :: nano_erg where "MIN_SAFE_FAT_BOX_VALUE = 522000"
definition DEFAULT_MINER_FEE :: nano_erg where "DEFAULT_MINER_FEE = 1000000"
definition DEFAULT_MINER_FEE_FOR_COMPOUND_TX :: nano_erg where
  "DEFAULT_MINER_FEE_FOR_COMPOUND_TX = 3000000"
definition BUNDLE_KEY_AMOUNT :: u64 where "BUNDLE_KEY_AMOUNT = 1"
definition BUNDLE_KEY_AMOUNT_USER :: u64 where "BUNDLE_KEY_AMOUNT_USER = MAX_VALUE - BUNDLE_KEY_AMOUNT"
definition INIT_EPOCH_IX :: u32 where "INIT_EPOCH_IX = 1"
definition COMPOUND_BASE_WEIGHT :: u64 where "COMPOUND_BASE_WEIGHT = 1000000000000"

definition safe_sub :: "nano_erg \<Rightarrow> nano_erg \<Rightarrow> nano_erg" where
  "safe_sub a b = saturating_sub a b"

definition box_value_of :: "ergo_lib \<Rightarrow> nano_erg \<Rightarrow> u64 panics" where
  "box_value_of E n = (if box_value_ok E n then Some n else None)"

section \<open>Contract templates (validators.rs)\<close>

definition POOL_VALIDATOR_BYTES :: string where
  "POOL_VALIDATOR_BYTES =
     ''19c0062804000400040204020404040404060406040804080404040204000400040204020400040a0500050004040402'' @
     ''04020e200508f3623d4b2be3bdb9737b3e65644f011167eefb830d9965205f022ceda40d040004020500040204020406'' @
     ''0500050005feffffffffffffffff01050005000402060101050005000100d81fd601b2a5730000d602db63087201d603'' @
     ''db6308a7d604b27203730100d605e4c6a70410d606e4c6a70505d607e4c6a70605d608b27202730200d609b272037303'' @
     ''00d60ab27202730400d60bb27203730500d60cb27202730600d60db27203730700d60e8c720d01d60fb27202730800d6'' @
     ''10b27203730900d6118c721001d6128c720b02d613998c720a027212d6148c720902d615b27205730a00d6169a99a372'' @
     ''15730bd617b27205730c00d6189d72167217d61995919e72167217730d9a7218730e7218d61ab27205730f00d61b7e72'' @
     ''1a05d61c9d7206721bd61d998c720c028c720d02d61e8c721002d61f998c720f02721ed1ededededed93b27202731000'' @
     ''7204ededed93e4c672010410720593e4c672010505720693e4c6720106057207928cc77201018cc7a70193c27201c2a7'' @
     ''ededed938c7208018c720901938c720a018c720b01938c720c01720e938c720f01721193b172027311959172137312d8'' @
     ''02d6209c721399721ba273137e721905d621b2a5731400ededed929a7e9972067214067e7207067e9c7e999590721972'' @
     ''1a72199a721a7315731605721c06937213f0721d937220f0721fedededed93cbc272217317938602720e7213b2db6308'' @
     ''722173180093860272117220b2db63087221731900e6c67221060893e4c67221070e8c720401958f7213731aededec92'' @
     ''9a7e9972067214067e7207067e9c7e9995907219721a72199a721a731b731c05721c0692a39a9a72159c721a7217b272'' @
     ''05731d0093721df0721392721f95917219721a731e9c721d99721ba2731f7e721905d804d620e4c672010704d6219972'' @
     ''1a7220d6227e722105d62399997320721e9c7212722295ed917223732191721f7322edededed90722099721973239099'' @
     ''72149c7222721c9a721c7207907ef0998c7208027214069d9c99997e7214069d9c7e7206067e7221067e721a0673247e'' @
     ''721f067e722306937213732593721d73267327''"

definition BUNDLE_VALIDATOR_BYTES :: string where
  "BUNDLE_VALIDATOR_BYTES =
     ''19bc04210400040004040404040004020601010601000400050004020404040205feffffffffffffffff010408040004'' @
     ''020502040405020402040004000101010005000404040004060404040205fcffffffffffffffff010100d80dd601b2a5'' @
     ''730000d602db63087201d603e4c6a7070ed604b2a4730100d605db63087204d6068cb2720573020002d607998cb27202'' @
     ''730300027206d608e4c6a70608d609db6308a7d60ab27209730400d60bb27205730500d60c7306d60d7307d1ed938cb2'' @
     ''7202730800017203959372077309d80cd60eb2a5e4e3000400d60fb2a5e4e3010400d610b2e4c672040410730a00d611'' @
     ''c672010804d61299721095e67211e47211e4c672010704d6138cb27209730b0001d614db6308720fd615b27209730c00'' @
     ''d6168c721502d6177e721205d6189972169c72178c720a02d6199d9c99997e8c720b02069d9c7ee4c672040505067e72'' @
     ''12067e721006720c7e7218067e9999730d8cb27205730e00029c7206721706eded93c2720ed07208edededed93e4c672'' @
     ''0f0608720893e4c6720f070e720393c2720fc2a795917212730fd801d61ab27214731000eded93860272137311b27214'' @
     ''731200938c721a018c721501939972168c721a02721893860272137313b2721473140093b27214731500720a95917219'' @
     ''720dd801d61ab2db6308720e731600ed938c721a018c720b01927e8c721a0206997219720c95937219720d7317731895'' @
     ''8f7207731993b2db6308b2a4731a00731b0086029593b17209731c8cb27209731d00018cb27209731e0001731f7320''"

definition DEPOSIT_TEMPLATE_BYTES :: string where
  "DEPOSIT_TEMPLATE_BYTES =
     ''d803d601b2a4730000d6027301d6037302eb027303d195ed92b1a4730493b1db630872017305d805d604db63087201d6'' @
     ''05b2a5730600d606c57201d607b2a5730700d6088cb2db6308a773080002ededed938cb27204730900017202ed93c272'' @
     ''0572039386027206730ab2db63087205730b00ededededed93cbc27207730c93d0e4c672070608720393e4c67207070e'' @
     ''72029386028cb27204730d00017208b2db63087207730e009386028cb27204730f00019c72087e731005b2db63087207'' @
     ''73110093860272067312b2db6308720773130090b0ada5d90109639593c272097314c1720973157316d90109599a8c72'' @
     ''09018c72090273177318''"

definition REDEEM_VALIDATOR_BYTES :: string where
  "REDEEM_VALIDATOR_BYTES =
     ''19d1020e08cd02217daf90deb73bdf8b6709bb42093fdfaff6573fd47b630e2d3fdd4a8193a74d04040400040a04020e'' @
     ''691005040004000e36100204a00b08cd0279be667ef9dcbbac55a06295ce870b07029bfcdb2dce28d959f2815b16f817'' @
     ''98ea02d192a39a8cc7a701730073011001020402d19683030193a38cc7b2a57300000193c2b2a5730100747302730383'' @
     ''0108cdeeac93b1a573040500050005a09c010e2001010101010101010101010101010101010101010101010101010101'' @
     ''010101010e20000000000000000000000000000000000000000000000000000000000000000005d00f04000100eb0273'' @
     ''00d195ed92b1a4730193b1db6308b2a47302007303d802d601b2a5730400d60290b0ada5d90102639593c272027305c1'' @
     ''720273067307d90102599a8c7202018c7202027308ededed93c272017309938602730a730bb2db63087201730c007202'' @
     ''7202730d''"

definition REDEEM_TEMPLATE_BYTES :: string where
  "REDEEM_TEMPLATE_BYTES =
     ''eb027300d195ed92b1a4730193b1db6308b2a47302007303d802d601b2a5730400d60290b0ada5d90102639593c27202'' @
     ''7305c1720273067307d90102599a8c7202018c7202027308ededed93c272017309938602730a730bb2db63087201730c'' @
     ''0072027202730d''"

definition static_bytes :: "ergo_lib \<Rightarrow> string \<Rightarrow> bytes" where
  "static_bytes E s = the (base16_decode E s)"

definition static_tree :: "ergo_lib \<Rightarrow> string \<Rightarrow> ergo_tree" where
  "static_tree E s = the (parse_tree E (static_bytes E s))"

definition POOL_VALIDATOR :: "ergo_lib \<Rightarrow> ergo_tree" where
  "POOL_VALIDATOR E = static_tree E POOL_VALIDATOR_BYTES"

definition BUNDLE_VALIDATOR :: "ergo_lib \<Rightarrow> ergo_tree" where
  "BUNDLE_VALIDATOR E = static_tree E BUNDLE_VALIDATOR_BYTES"

definition REDEEM_VALIDATOR :: "ergo_lib \<Rightarrow> ergo_tree" where
  "REDEEM_VALIDATOR E = static_tree E REDEEM_VALIDATOR_BYTES"

definition DEPOSIT_TEMPLATE :: "ergo_lib \<Rightarrow> bytes" where
  "DEPOSIT_TEMPLATE E = static_bytes E DEPOSIT_TEMPLATE_BYTES"

definition REDEEM_TEMPLATE :: "ergo_lib \<Rightarrow> bytes" where
  "REDEEM_TEMPLATE E = static_bytes E REDEEM_TEMPLATE_BYTES"

section \<open>Program configuration (data/pool.rs)\<close>

record program_config =
  epoch_len :: u32
  epoch_num :: u32
  program_start :: u32
  redeem_blocks_delta :: u32
  max_rounding_error :: u64
  program_budget :: typed_asset_amount

definition config_to_ints :: "program_config \<Rightarrow> i32 list" where
  "config_to_ints c = [epoch_len c, epoch_num c, program_start c, redeem_blocks_delta c]"

section \<open>Outputs and context (data/{context,miner,executor,redeemer,funding}.rs)\<close>

record execution_context =
  ctx_height :: u32
  ctx_mintable_token_id :: token_id
  ctx_executor_prop :: ergo_tree

record token_details =
  td_name :: string
  td_description :: string

record miner_output = mo_erg_value :: nano_erg

definition miner_into_candidate :: "ergo_lib \<Rightarrow> miner_output \<Rightarrow> u32 \<Rightarrow> ergo_box_candidate panics" where
  "miner_into_candidate E o' height = do {
     v \<leftarrow> box_value_of E (mo_erg_value o');
     Some \<lparr> bx_value = v, bx_tree = miners_fee_tree E, bx_tokens = None, bx_regs = [], bx_height = height \<rparr> }"

record executor_output =
  eo_executor_prop :: ergo_tree
  eo_erg_value :: nano_erg

definition executor_into_candidate :: "ergo_lib \<Rightarrow> executor_output \<Rightarrow> u32 \<Rightarrow> ergo_box_candidate panics" where
  "executor_into_candidate E o' height = do {
     v \<leftarrow> box_value_of E (eo_erg_value o');
     Some \<lparr> bx_value = v, bx_tree = eo_executor_prop o', bx_tokens = None, bx_regs = [], bx_height = height \<rparr> }"

record reward_output =
  ro_reward :: "typed_asset_amount option"
  ro_redeemer_prop :: sigma_prop
  ro_erg_value :: nano_erg

definition reward_into_candidate :: "ergo_lib \<Rightarrow> reward_output \<Rightarrow> u32 \<Rightarrow> ergo_box_candidate panics" where
  "reward_into_candidate E o' height = do {
     tokens \<leftarrow> (case ro_reward o' of None \<Rightarrow> Some None
                | Some reward \<Rightarrow> map_option (\<lambda>t. Some [t]) (token_try_from E reward));
     v \<leftarrow> box_value_of E (ro_erg_value o');
     Some \<lparr> bx_value = v, bx_tree = prop_tree E (ro_redeemer_prop o'), bx_tokens = tokens,
            bx_regs = [], bx_height = height \<rparr> }"

record deposit_output =
  do_bundle_key :: typed_asset_amount
  do_redeemer_prop :: sigma_prop
  do_erg_value :: nano_erg
  do_token_name :: string
  do_token_desc :: string

definition deposit_out_into_candidate :: "ergo_lib \<Rightarrow> deposit_output \<Rightarrow> u32 \<Rightarrow> ergo_box_candidate panics" where
  "deposit_out_into_candidate E o' height = do {
     v \<leftarrow> box_value_of E (do_erg_value o');
     t \<leftarrow> token_try_from E (do_bundle_key o');
     Some \<lparr> bx_value = v, bx_tree = prop_tree E (do_redeemer_prop o'), bx_tokens = Some [t],
            bx_regs = [ConstBytes (as_bytes (do_token_name o')), ConstBytes (as_bytes (do_token_desc o'))],
            bx_height = height \<rparr> }"

record redeem_output =
  rdo_lq :: typed_asset_amount
  rdo_redeemer_prop :: ergo_tree
  rdo_erg_value :: nano_erg

definition redeem_out_into_candidate :: "ergo_lib \<Rightarrow> redeem_output \<Rightarrow> u32 \<Rightarrow> ergo_box_candidate panics" where
  "redeem_out_into_candidate E o' height = do {
     v \<leftarrow> box_value_of E (rdo_erg_value o');
     t \<leftarrow> token_try_from E (rdo_lq o');
     Some \<lparr> bx_value = v, bx_tree = rdo_redeemer_prop o', bx_tokens = Some [t], bx_regs = [], bx_height = height \<rparr> }"

record distribution_funding_proto =
  dfp_prop :: ergo_tree
  dfp_erg_value :: nano_erg

record distribution_funding =
  df_id :: funding_id
  df_prop :: ergo_tree
  df_erg_value :: nano_erg

definition funding_finalize :: "distribution_funding_proto \<Rightarrow> funding_id \<Rightarrow> distribution_funding" where
  "funding_finalize p i = \<lparr> df_id = i, df_prop = dfp_prop p, df_erg_value = dfp_erg_value p \<rparr>"

definition funding_proto_into_candidate ::
  "ergo_lib \<Rightarrow> distribution_funding_proto \<Rightarrow> u32 \<Rightarrow> ergo_box_candidate panics" where
  "funding_proto_into_candidate E p height = do {
     v \<leftarrow> box_value_of E (dfp_erg_value p);
     Some \<lparr> bx_value = v, bx_tree = dfp_prop p, bx_tokens = None, bx_regs = [], bx_height = height \<rparr> }"

definition funding_to_proto :: "distribution_funding \<Rightarrow> distribution_funding_proto" where
  "funding_to_proto f = \<lparr> dfp_prop = df_prop f, dfp_erg_value = df_erg_value f \<rparr>"

datatype funding_update =
    FundingCreated "distribution_funding as_box"
  | FundingEliminated funding_id

text \<open>An \<open>ExecutorWallet\<close> is its address; what is read of it is the tree of the address.\<close>

definition funding_try_from_box :: "ergo_box \<Rightarrow> ergo_tree \<Rightarrow> distribution_funding option" where
  "funding_try_from_box bx wallet_tree =
     (if bx_tree bx = wallet_tree
      then Some \<lparr> df_id = box_id bx, df_prop = bx_tree bx, df_erg_value = bx_value bx \<rparr> else None)"

definition funding_into_candidate ::
  "ergo_lib \<Rightarrow> distribution_funding \<Rightarrow> u32 \<Rightarrow> ergo_box_candidate panics" where
  "funding_into_candidate E f height = funding_proto_into_candidate E (funding_to_proto f) height"

end
