(* ===== verification/Bundle_Data.thy ===== *)
theory Bundle_Data
  imports LM_Data
begin

text \<open>
  The staking bundle of \<open>spectrum-offchain-lm/src/data/bundle.rs\<close>: its prototype, the box
  built for it, its reading from a box, the form it is stored in and the index with the
  lowest epoch it can be compounded for.  Results: reading the box built for a bundle gives
  the bundle back, also when its temporal tokens are used up, and so does the stored form.
\<close>

record staking_bundle_proto =
  sbp_bundle_key_id :: typed_asset
  sbp_pool_id :: pool_id
  sbp_vlq :: typed_asset_amount
  sbp_tmp :: "typed_asset_amount option"
  sbp_redeemer_prop :: sigma_prop
  sbp_erg_value :: nano_erg
  sbp_token_name :: string
  sbp_token_desc :: string

record staking_bundle =
  sb_bundle_key_id :: typed_asset
  sb_state_id :: bundle_state_id
  sb_pool_id :: pool_id
  sb_vlq :: typed_asset_amount
  sb_tmp :: "typed_asset_amount option"
  sb_redeemer_prop :: sigma_prop
  sb_erg_value :: nano_erg
  sb_token_name :: string
  sb_token_desc :: string

definition bundle_finalize :: "staking_bundle_proto \<Rightarrow> bundle_state_id \<Rightarrow> staking_bundle" where
  "bundle_finalize p state_id =
     \<lparr> sb_bundle_key_id = sbp_bundle_key_id p, sb_state_id = state_id, sb_pool_id = sbp_pool_id p,
       sb_vlq = sbp_vlq p, sb_tmp = sbp_tmp p, sb_redeemer_prop = sbp_redeemer_prop p,
       sb_erg_value = sbp_erg_value p, sb_token_name = sbp_token_name p, sb_token_desc = sbp_token_desc p \<rparr>"

definition bundle_from_proto :: "staking_bundle_proto \<Rightarrow> bundle_state_id \<Rightarrow> staking_bundle" where
  "bundle_from_proto p state_id =
     \<lparr> sb_bundle_key_id = sbp_bundle_key_id p, sb_state_id = state_id, sb_pool_id = sbp_pool_id p,
       sb_vlq = sbp_vlq p, sb_tmp = sbp_tmp p, sb_redeemer_prop = sbp_redeemer_prop p,
       sb_erg_value = sbp_erg_value p, sb_token_name = sbp_token_name p, sb_token_desc = sbp_token_desc p \<rparr>"

definition bundle_to_proto :: "staking_bundle \<Rightarrow> staking_bundle_proto" where
  "bundle_to_proto b =
     \<lparr> sbp_bundle_key_id = sb_bundle_key_id b, sbp_pool_id = sb_pool_id b, sbp_vlq = sb_vlq b,
       sbp_tmp = sb_tmp b, sbp_redeemer_prop = sb_redeemer_prop b, sbp_erg_value = sb_erg_value b,
       sbp_token_name = sb_token_name b, sbp_token_desc = sb_token_desc b \<rparr>"

definition bundle_id :: "staking_bundle \<Rightarrow> bundle_id" where
  "bundle_id b = ta_id (sb_bundle_key_id b)"

definition bundle_self_ref :: "staking_bundle \<Rightarrow> bundle_id" where
  "bundle_self_ref b = bundle_id b"

definition bundle_self_state_ref :: "staking_bundle \<Rightarrow> bundle_state_id" where
  "bundle_self_state_ref b = sb_state_id b"

definition bundle_proto_into_candidate ::
  "ergo_lib \<Rightarrow> staking_bundle_proto \<Rightarrow> u32 \<Rightarrow> ergo_box_candidate panics" where
  "bundle_proto_into_candidate E p height = do {
     key_amt \<leftarrow> (if token_amount_ok E BUNDLE_KEY_AMOUNT then Some BUNDLE_KEY_AMOUNT else None);
     let bundle_key = \<lparr> tok_id = ta_id (sbp_bundle_key_id p), tok_amount = key_amt \<rparr>;
     tokens \<leftarrow> (case sbp_tmp p of
         Some tmp \<Rightarrow> do { vlq \<leftarrow> token_try_from E (sbp_vlq p); t \<leftarrow> token_try_from E tmp; Some [vlq, t, bundle_key] }
       | None \<Rightarrow> do { vlq \<leftarrow> token_try_from E (sbp_vlq p); Some [vlq, bundle_key] });
     v \<leftarrow> box_value_of E (sbp_erg_value p);
     Some \<lparr> bx_value = v, bx_tree = BUNDLE_VALIDATOR E, bx_tokens = Some tokens,
       bx_regs = [ConstBytes (as_bytes (sbp_token_name p)), ConstBytes (as_bytes (sbp_token_desc p)),
                  ConstProp (sbp_redeemer_prop p), ConstBytes (digest_bytes (sbp_pool_id p))],
       bx_height = height \<rparr> }"

definition bundle_into_candidate :: "ergo_lib \<Rightarrow> staking_bundle \<Rightarrow> u32 \<Rightarrow> ergo_box_candidate panics" where
  "bundle_into_candidate E b height = bundle_proto_into_candidate E (bundle_to_proto b) height"

definition bundle_try_from_box :: "ergo_lib \<Rightarrow> ergo_box \<Rightarrow> staking_bundle option" where
  "bundle_try_from_box E bx = (case bx_tokens bx of
     None \<Rightarrow> None
   | Some tokens \<Rightarrow>
       if (length tokens = 3 \<or> length tokens = 2) \<and> bx_tree bx = BUNDLE_VALIDATOR E then do {
         r6 \<leftarrow> get_register bx 6;
         redeemer_prop \<leftarrow> extract_prop r6;
         r7 \<leftarrow> get_register bx 7;
         r7_bytes \<leftarrow> extract_bytes r7;
         pool_id \<leftarrow> digest_of_bytes r7_bytes;
         r4 \<leftarrow> get_register bx 4;
         r4_bytes \<leftarrow> extract_bytes r4;
         token_name \<leftarrow> from_utf8 r4_bytes;
         r5 \<leftarrow> get_register bx 5;
         r5_bytes \<leftarrow> extract_bytes r5;
         token_desc \<leftarrow> from_utf8 r5_bytes;
         vlq \<leftarrow> nth_opt tokens 0;
         (tmp, bundle_key) \<leftarrow> (if length tokens = 3
            then do { t \<leftarrow> nth_opt tokens 1; k \<leftarrow> nth_opt tokens 2; Some (Some (from_token t), k) }
            else do { k \<leftarrow> nth_opt tokens 1; Some (None, k) });
         Some \<lparr> sb_bundle_key_id = \<lparr> ta_id = tok_id bundle_key \<rparr>, sb_state_id = box_id bx,
                sb_pool_id = pool_id, sb_vlq = from_token vlq, sb_tmp = tmp,
                sb_redeemer_prop = redeemer_prop, sb_erg_value = bx_value bx,
                sb_token_name = token_name, sb_token_desc = token_desc \<rparr> }
       else None)"

text \<open>The stored form keeps the bytes of the tree of the redeemer's proposition.\<close>

record bundle_with_tree_bytes =
  sbt_bundle_key_id :: typed_asset
  sbt_state_id :: bundle_state_id
  sbt_pool_id :: pool_id
  sbt_vlq :: typed_asset_amount
  sbt_tmp :: "typed_asset_amount option"
  sbt_redeemer_prop_bytes :: bytes
  sbt_erg_value :: nano_erg
  sbt_token_name :: string
  sbt_token_desc :: string

definition bundle_of_tree_bytes :: "ergo_lib \<Rightarrow> bundle_with_tree_bytes \<Rightarrow> staking_bundle panics" where
  "bundle_of_tree_bytes E s = do {
     tree \<leftarrow> parse_tree E (sbt_redeemer_prop_bytes s);
     prop \<leftarrow> prove_dlog E tree;
     Some \<lparr> sb_bundle_key_id = sbt_bundle_key_id s, sb_state_id = sbt_state_id s, sb_pool_id = sbt_pool_id s,
            sb_vlq = sbt_vlq s, sb_tmp = sbt_tmp s, sb_redeemer_prop = prop,
            sb_erg_value = sbt_erg_value s, sb_token_name = sbt_token_name s, sb_token_desc = sbt_token_desc s \<rparr> }"

definition bundle_to_tree_bytes :: "ergo_lib \<Rightarrow> staking_bundle \<Rightarrow> bundle_with_tree_bytes" where
  "bundle_to_tree_bytes E b =
     \<lparr> sbt_bundle_key_id = sb_bundle_key_id b, sbt_state_id = sb_state_id b, sbt_pool_id = sb_pool_id b,
       sbt_vlq = sb_vlq b, sbt_tmp = sb_tmp b, sbt_redeemer_prop_bytes = prop_tree E (sb_redeemer_prop b),
       sbt_erg_value = sb_erg_value b, sbt_token_name = sb_token_name b, sbt_token_desc = sb_token_desc b \<rparr>"

record 'b indexed_bundle =
  ib_bundle :: 'b
  ib_lower_epoch_ix :: u32

definition indexed_bundle_new :: "staking_bundle \<Rightarrow> program_config \<Rightarrow> staking_bundle indexed_bundle panics" where
  "indexed_bundle_new b conf = do {
     q \<leftarrow> checked_div (case sb_tmp b of Some t \<Rightarrow> amount t | None \<Rightarrow> 0) (amount (sb_vlq b));
     Some \<lparr> ib_bundle = b, ib_lower_epoch_ix = epoch_num conf - ucast q + 1 \<rparr> }"

definition indexed_bundle_init :: "staking_bundle \<Rightarrow> staking_bundle indexed_bundle" where
  "indexed_bundle_init b = \<lparr> ib_bundle = b, ib_lower_epoch_ix = INIT_EPOCH_IX \<rparr>"

section \<open>Round trips\<close>

lemma bundle_finalize_from_proto: "bundle_finalize p i = bundle_from_proto p i"
  by (simp add: bundle_finalize_def bundle_from_proto_def)

lemma bundle_finalize_to_proto [simp]: "bundle_finalize (bundle_to_proto b) i = b \<lparr> sb_state_id := i \<rparr>"
  by (simp add: bundle_finalize_def bundle_to_proto_def)

lemma token_try_from_Some:
  "token_try_from E a = Some t \<longleftrightarrow> token_amount_ok E (amount a) \<and> t = \<lparr> tok_id = asset_id a, tok_amount = amount a \<rparr>"
  by (auto simp: token_try_from_def)

lemma box_value_of_Some: "box_value_of E n = Some v \<longleftrightarrow> box_value_ok E n \<and> v = n"
  by (auto simp: box_value_of_def)

lemma if_Some_eq: "(if c then Some x else None) = Some y \<longleftrightarrow> c \<and> y = x"
  by auto

definition bundle_tokens :: "staking_bundle_proto \<Rightarrow> token list" where
  "bundle_tokens p = map (\<lambda>a. \<lparr> tok_id = asset_id a, tok_amount = amount a \<rparr>)
     (sbp_vlq p # (case sbp_tmp p of Some t \<Rightarrow> [t] | None \<Rightarrow> []) @
      [typed_amount (ta_id (sbp_bundle_key_id p)) BUNDLE_KEY_AMOUNT])"

lemma bundle_proto_into_candidate_Some:
  assumes "bundle_proto_into_candidate E p h = Some c"
  shows "bx_value c = sbp_erg_value p" "bx_tree c = BUNDLE_VALIDATOR E" "bx_tokens c = Some (bundle_tokens p)"
    "bx_regs c = [ConstBytes (as_bytes (sbp_token_name p)), ConstBytes (as_bytes (sbp_token_desc p)),
                  ConstProp (sbp_redeemer_prop p), ConstBytes (digest_bytes (sbp_pool_id p))]"
  using assms unfolding bundle_proto_into_candidate_def bundle_tokens_def
  by (cases "sbp_tmp p"; auto simp: bind_eq_Some_conv token_try_from_Some box_value_of_Some if_Some_eq)+

lemma from_token_mk [simp]: "from_token \<lparr> tok_id = asset_id a, tok_amount = amount a \<rparr> = a"
  by (simp add: from_token_def asset_eq_iff)

lemma bundle_box_roundtrip:
  assumes "bundle_proto_into_candidate E p h = Some c" "is_utf8 (sbp_token_name p)" "is_utf8 (sbp_token_desc p)"
  shows "bundle_try_from_box E (box_of_candidate c i) = Some (bundle_finalize p i)"
  unfolding bundle_try_from_box_def bundle_finalize_def
  by (cases "sbp_tmp p") (simp_all add: bundle_proto_into_candidate_Some [OF assms(1)] assms(2,3)
        get_register_nth_opt bundle_tokens_def)

lemma bundle_stored_roundtrip:
  assumes "parse_tree E (prop_tree E (sb_redeemer_prop b)) = Some (prop_tree E (sb_redeemer_prop b))"
    and "prove_dlog E (prop_tree E (sb_redeemer_prop b)) = Some (sb_redeemer_prop b)"
  shows "bundle_of_tree_bytes E (bundle_to_tree_bytes E b) = Some b"
  using assms by (simp add: bundle_of_tree_bytes_def bundle_to_tree_bytes_def)

text \<open>
  A bundle whose temporal tokens cover \<open>k\<close> epochs of its virtual liquidity is indexed at the
  epoch from which \<open>k\<close> epochs are left.
\<close>

lemma indexed_bundle_new_lower:
  assumes "sb_tmp b = Some t" "amount (sb_vlq b) \<noteq> 0"
    and "unat (amount t) = k * unat (amount (sb_vlq b))" "k \<le> unat (epoch_num conf)" "0 < k"
  shows "\<exists>ib. indexed_bundle_new b conf = Some ib \<and> ib_bundle ib = b \<and>
           unat (ib_lower_epoch_ix ib) = unat (epoch_num conf) - k + 1"
proof -
  let ?q = "amount t div amount (sb_vlq b)"
  have vpos: "0 < unat (amount (sb_vlq b))" using assms(2) unat_gt_0 by blast
  have "unat ?q = k" using assms(3) vpos by (simp add: unat_div)
  moreover have klt: "k < 2 ^ 32" using assms(4) unat_u32_lt [of "epoch_num conf"] by simp
  ultimately have q: "unat (ucast ?q :: u32) = k"
    by (simp add: unsigned_ucast_eq take_bit_nat_eq_self)
  have sub: "unat (epoch_num conf - ucast ?q) = unat (epoch_num conf) - k"
    using q assms(4) by (simp add: unat_sub_exact)
  have "unat (epoch_num conf - ucast ?q + 1) = unat (epoch_num conf) - k + 1"
    using sub assms(4,5) unat_u32_lt [of "epoch_num conf"]
    by (subst unat_add_exact) auto
  then show ?thesis using assms(1,2) by (simp add: indexed_bundle_new_def)
qed

end
