(* ===== verification/Order_Data.thy ===== *)
theory Order_Data
  imports Bundle_Data
begin

text \<open>
  The orders of \<open>spectrum-offchain-lm/src/data/order.rs\<close>: deposits and redeems read from
  boxes, compound orders made by the scheduler, the raw forms in which they are stored, their
  identifiers, the entity they belong to, the bundles they touch and their weight in the
  backlog.  \<open>RedeemProto::try_from_box\<close> asserts that the miner proposition of the contract
  is the network's; its result is therefore an option inside \<open>panics\<close>.
\<close>

section \<open>Compound\<close>

record compound =
  co_pool_id :: pool_id
  co_epoch_ix :: u32
  co_queue_ix :: u64
  co_stakers :: "bundle_id list"

definition compound_order_id :: "ergo_lib \<Rightarrow> compound \<Rightarrow> order_id" where
  "compound_order_id E c = blake2b256 E (concat (map digest_bytes (co_stakers c)) @ to_be_bytes 4 (co_epoch_ix c))"

definition estimated_min_value :: "ergo_lib \<Rightarrow> compound \<Rightarrow> nano_erg" where
  "estimated_min_value E c = word_of_nat (length (co_stakers c)) * safe_user_min E"

section \<open>Deposit\<close>

record deposit =
  dep_order_id :: order_id
  dep_pool_id :: pool_id
  dep_redeemer_prop :: sigma_prop
  dep_bundle_prop_hash :: digest32
  dep_max_miner_fee :: i64
  dep_lq :: typed_asset_amount
  dep_erg_value :: nano_erg
  dep_expected_num_epochs :: u32

record raw_deposit =
  rd_order_id :: order_id
  rd_pool_id :: pool_id
  rd_redeemer_prop_raw :: bytes
  rd_bundle_prop_hash :: digest32
  rd_max_miner_fee :: i64
  rd_lq :: "token_id \<times> u64"
  rd_erg_value :: u64
  rd_expected_num_epochs :: u32

definition deposit_of_raw :: "ergo_lib \<Rightarrow> raw_deposit \<Rightarrow> deposit panics" where
  "deposit_of_raw E rd = do {
     tree \<leftarrow> parse_tree E (rd_redeemer_prop_raw rd);
     prop \<leftarrow> prove_dlog E tree;
     Some \<lparr> dep_order_id = rd_order_id rd, dep_pool_id = rd_pool_id rd, dep_redeemer_prop = prop,
            dep_bundle_prop_hash = rd_bundle_prop_hash rd, dep_max_miner_fee = rd_max_miner_fee rd,
            dep_lq = typed_amount (fst (rd_lq rd)) (snd (rd_lq rd)), dep_erg_value = rd_erg_value rd,
            dep_expected_num_epochs = rd_expected_num_epochs rd \<rparr> }"

definition deposit_to_raw :: "ergo_lib \<Rightarrow> deposit \<Rightarrow> raw_deposit" where
  "deposit_to_raw E d =
     \<lparr> rd_order_id = dep_order_id d, rd_pool_id = dep_pool_id d,
       rd_redeemer_prop_raw = prop_tree E (dep_redeemer_prop d),
       rd_bundle_prop_hash = dep_bundle_prop_hash d, rd_max_miner_fee = dep_max_miner_fee d,
       rd_lq = (asset_id (dep_lq d), amount (dep_lq d)), rd_erg_value = dep_erg_value d,
       rd_expected_num_epochs = dep_expected_num_epochs d \<rparr>"

definition tree_bytes_constant :: "ergo_lib \<Rightarrow> ergo_tree \<Rightarrow> nat \<Rightarrow> bytes option" where
  "tree_bytes_constant E t i = Option.bind (tree_constant E t i) extract_bytes"

definition tree_i64_constant :: "ergo_lib \<Rightarrow> ergo_tree \<Rightarrow> nat \<Rightarrow> i64 option" where
  "tree_i64_constant E t i = Option.bind (tree_constant E t i) extract_i64"

definition tree_i32_constant :: "ergo_lib \<Rightarrow> ergo_tree \<Rightarrow> nat \<Rightarrow> i32 option" where
  "tree_i32_constant E t i = Option.bind (tree_constant E t i) extract_i32"

definition deposit_try_from_box :: "ergo_lib \<Rightarrow> ergo_box \<Rightarrow> deposit option" where
  "deposit_try_from_box E bx = (case bx_tokens bx of
     None \<Rightarrow> None
   | Some tokens \<Rightarrow> do {
       template \<leftarrow> tree_template E (bx_tree bx);
       if template = DEPOSIT_TEMPLATE E \<and> length tokens = 1 then do {
         pool_bytes \<leftarrow> tree_bytes_constant E (bx_tree bx) 1;
         pool_id \<leftarrow> digest_of_bytes pool_bytes;
         redeemer_bytes \<leftarrow> tree_bytes_constant E (bx_tree bx) 2;
         redeemer_tree \<leftarrow> parse_tree E redeemer_bytes;
         redeemer_prop \<leftarrow> prove_dlog E redeemer_tree;
         hash_bytes \<leftarrow> tree_bytes_constant E (bx_tree bx) 12;
         bundle_prop_hash \<leftarrow> digest_of_bytes hash_bytes;
         max_miner_fee \<leftarrow> tree_i64_constant E (bx_tree bx) 23;
         expected_num_epochs \<leftarrow> tree_i32_constant E (bx_tree bx) 16;
         miner_prop_bytes \<leftarrow> tree_bytes_constant E (bx_tree bx) 20;
         if miner_prop_bytes = miners_fee_bytes E then do {
           t \<leftarrow> nth_opt tokens 0;
           Some \<lparr> dep_order_id = box_id bx, dep_pool_id = pool_id, dep_redeemer_prop = redeemer_prop,
                  dep_bundle_prop_hash = bundle_prop_hash, dep_max_miner_fee = max_miner_fee,
                  dep_lq = from_token t, dep_erg_value = bx_value bx,
                  dep_expected_num_epochs = expected_num_epochs \<rparr> }
         else None }
       else None })"

section \<open>Redeem\<close>

record redeem =
  red_order_id :: order_id
  red_pool_id :: pool_id
  red_redeemer_prop :: ergo_tree
  red_bundle_key :: typed_asset_amount
  red_expected_lq :: typed_asset_amount
  red_max_miner_fee :: i64
  red_erg_value :: nano_erg

record redeem_proto =
  rp_order_id :: order_id
  rp_redeemer_prop :: ergo_tree
  rp_bundle_key :: typed_asset_amount
  rp_expected_lq :: typed_asset_amount
  rp_max_miner_fee :: i64
  rp_erg_value :: nano_erg

definition redeem_finalize :: "redeem_proto \<Rightarrow> pool_id \<Rightarrow> redeem" where
  "redeem_finalize p pid =
     \<lparr> red_order_id = rp_order_id p, red_pool_id = pid, red_redeemer_prop = rp_redeemer_prop p,
       red_bundle_key = rp_bundle_key p, red_expected_lq = rp_expected_lq p,
       red_max_miner_fee = rp_max_miner_fee p, red_erg_value = rp_erg_value p \<rparr>"

record raw_redeem =
  rr_order_id :: order_id
  rr_pool_id :: pool_id
  rr_redeemer_prop_bytes :: bytes
  rr_bundle_key :: "token_id \<times> u64"
  rr_expected_lq :: "token_id \<times> u64"
  rr_max_miner_fee :: i64
  rr_erg_value :: u64

definition redeem_of_raw :: "ergo_lib \<Rightarrow> raw_redeem \<Rightarrow> redeem panics" where
  "redeem_of_raw E rr = do {
     tree \<leftarrow> parse_tree E (rr_redeemer_prop_bytes rr);
     Some \<lparr> red_order_id = rr_order_id rr, red_pool_id = rr_pool_id rr, red_redeemer_prop = tree,
            red_bundle_key = typed_amount (fst (rr_bundle_key rr)) (snd (rr_bundle_key rr)),
            red_expected_lq = typed_amount (fst (rr_expected_lq rr)) (snd (rr_expected_lq rr)),
            red_max_miner_fee = rr_max_miner_fee rr, red_erg_value = rr_erg_value rr \<rparr> }"

definition redeem_to_raw :: "redeem \<Rightarrow> raw_redeem" where
  "redeem_to_raw r =
     \<lparr> rr_order_id = red_order_id r, rr_pool_id = red_pool_id r, rr_redeemer_prop_bytes = red_redeemer_prop r,
       rr_bundle_key = (asset_id (red_bundle_key r), amount (red_bundle_key r)),
       rr_expected_lq = (asset_id (red_expected_lq r), amount (red_expected_lq r)),
       rr_max_miner_fee = red_max_miner_fee r, rr_erg_value = red_erg_value r \<rparr>"

record raw_redeem_proto =
  rrp_order_id :: order_id
  rrp_redeemer_prop_bytes :: bytes
  rrp_bundle_key :: "token_id \<times> u64"
  rrp_expected_lq :: "token_id \<times> u64"
  rrp_max_miner_fee :: i64
  rrp_erg_value :: u64

definition redeem_proto_to_raw :: "redeem_proto \<Rightarrow> raw_redeem_proto" where
  "redeem_proto_to_raw r =
     \<lparr> rrp_order_id = rp_order_id r, rrp_redeemer_prop_bytes = rp_redeemer_prop r,
       rrp_bundle_key = (asset_id (rp_bundle_key r), amount (rp_bundle_key r)),
       rrp_expected_lq = (asset_id (rp_expected_lq r), amount (rp_expected_lq r)),
       rrp_max_miner_fee = rp_max_miner_fee r, rrp_erg_value = rp_erg_value r \<rparr>"

definition redeem_proto_of_raw :: "ergo_lib \<Rightarrow> raw_redeem_proto \<Rightarrow> redeem_proto panics" where
  "redeem_proto_of_raw E rr = do {
     tree \<leftarrow> parse_tree E (rrp_redeemer_prop_bytes rr);
     Some \<lparr> rp_order_id = rrp_order_id rr, rp_redeemer_prop = tree,
            rp_bundle_key = typed_amount (fst (rrp_bundle_key rr)) (snd (rrp_bundle_key rr)),
            rp_expected_lq = typed_amount (fst (rrp_expected_lq rr)) (snd (rrp_expected_lq rr)),
            rp_max_miner_fee = rrp_max_miner_fee rr, rp_erg_value = rrp_erg_value rr \<rparr> }"

text \<open>
  The outer option of the result is the assertion on the miner proposition; the inner one is
  the \<open>Option\<close> of the source.
\<close>

definition redeem_proto_try_from_box :: "ergo_lib \<Rightarrow> ergo_box \<Rightarrow> redeem_proto option panics" where
  "redeem_proto_try_from_box E bx = (case bx_tokens bx of
     None \<Rightarrow> Some None
   | Some tokens \<Rightarrow>
      (case tree_template E (bx_tree bx) of
         None \<Rightarrow> Some None
       | Some template \<Rightarrow>
          if template = REDEEM_TEMPLATE E \<and> length tokens = 1 then
            (case do {
               redeemer_bytes \<leftarrow> tree_bytes_constant E (bx_tree bx) 9;
               redeemer_prop \<leftarrow> parse_tree E redeemer_bytes;
               t \<leftarrow> nth_opt tokens 0;
               lq_id_bytes \<leftarrow> tree_bytes_constant E (bx_tree bx) 10;
               lq_id \<leftarrow> digest_of_bytes lq_id_bytes;
               lq_amt \<leftarrow> tree_i64_constant E (bx_tree bx) 11;
               miner_prop_bytes \<leftarrow> tree_bytes_constant E (bx_tree bx) 5;
               Some (redeemer_prop, from_token t, typed_amount lq_id lq_amt, miner_prop_bytes) } of
               None \<Rightarrow> Some None
             | Some (redeemer_prop, bundle_key, expected_lq, miner_prop_bytes) \<Rightarrow>
                 if miner_prop_bytes \<noteq> miners_fee_bytes E then None
                 else Some (do {
                   max_miner_fee \<leftarrow> tree_i64_constant E (bx_tree bx) 8;
                   Some \<lparr> rp_order_id = box_id bx, rp_redeemer_prop = redeemer_prop,
                          rp_bundle_key = bundle_key, rp_expected_lq = expected_lq,
                          rp_max_miner_fee = max_miner_fee, rp_erg_value = bx_value bx \<rparr> }))
          else Some None))"

section \<open>Orders\<close>

datatype order_proto =
    ProtoDeposit "deposit as_box"
  | ProtoRedeem "redeem_proto as_box"
  | ProtoCompound compound

datatype order =
    OrdDeposit "deposit as_box"
  | OrdRedeem "redeem as_box"
  | OrdCompound compound

fun order_proto_id :: "ergo_lib \<Rightarrow> order_proto \<Rightarrow> order_id" where
  "order_proto_id E (ProtoDeposit (AsBox bx d)) = dep_order_id d"
| "order_proto_id E (ProtoRedeem (AsBox bx r)) = rp_order_id r"
| "order_proto_id E (ProtoCompound c) = compound_order_id E c"

fun order_self_ref :: "ergo_lib \<Rightarrow> order \<Rightarrow> order_id" where
  "order_self_ref E (OrdDeposit (AsBox bx d)) = dep_order_id d"
| "order_self_ref E (OrdRedeem (AsBox bx r)) = red_order_id r"
| "order_self_ref E (OrdCompound c) = compound_order_id E c"

fun order_entity_ref :: "order \<Rightarrow> pool_id" where
  "order_entity_ref (OrdDeposit (AsBox bx d)) = dep_pool_id d"
| "order_entity_ref (OrdRedeem (AsBox bx r)) = red_pool_id r"
| "order_entity_ref (OrdCompound c) = co_pool_id c"

fun order_bundles :: "order \<Rightarrow> bundle_id list" where
  "order_bundles (OrdRedeem (AsBox bx r)) = [asset_id (red_bundle_key r)]"
| "order_bundles (OrdCompound c) = co_stakers c"
| "order_bundles (OrdDeposit d) = []"

definition order_proto_try_from_box :: "ergo_lib \<Rightarrow> ergo_box \<Rightarrow> order_proto option panics" where
  "order_proto_try_from_box E bx = (case deposit_try_from_box E bx of
     Some d \<Rightarrow> Some (Some (ProtoDeposit (AsBox bx d)))
   | None \<Rightarrow> map_option (map_option (\<lambda>r. ProtoRedeem (AsBox bx r))) (redeem_proto_try_from_box E bx))"

fun order_weight :: "order \<Rightarrow> u64" where
  "order_weight (OrdDeposit (AsBox bx d)) = dep_erg_value d"
| "order_weight (OrdRedeem (AsBox bx r)) = red_erg_value r"
| "order_weight (OrdCompound c) = ucast (co_epoch_ix c) * co_queue_ix c * COMPOUND_BASE_WEIGHT"

section \<open>Round trips of the stored forms\<close>

lemma deposit_raw_roundtrip:
  assumes "parse_tree E (prop_tree E (dep_redeemer_prop d)) = Some (prop_tree E (dep_redeemer_prop d))"
    and "prove_dlog E (prop_tree E (dep_redeemer_prop d)) = Some (dep_redeemer_prop d)"
  shows "deposit_of_raw E (deposit_to_raw E d) = Some d"
  using assms by (simp add: deposit_of_raw_def deposit_to_raw_def asset_eq_iff)

lemma redeem_raw_roundtrip:
  "parse_tree E (red_redeemer_prop r) = Some (red_redeemer_prop r) \<Longrightarrow>
   redeem_of_raw E (redeem_to_raw r) = Some r"
  by (simp add: redeem_of_raw_def redeem_to_raw_def asset_eq_iff)

lemma redeem_proto_raw_roundtrip:
  "parse_tree E (rp_redeemer_prop r) = Some (rp_redeemer_prop r) \<Longrightarrow>
   redeem_proto_of_raw E (redeem_proto_to_raw r) = Some r"
  by (simp add: redeem_proto_of_raw_def redeem_proto_to_raw_def asset_eq_iff)

text \<open>The identifier of an order read from a box is the identifier of the box.\<close>

lemma order_proto_try_from_box_id:
  "order_proto_try_from_box E bx = Some (Some p) \<Longrightarrow> order_proto_id E p = box_id bx"
  by (auto simp: order_proto_try_from_box_def deposit_try_from_box_def redeem_proto_try_from_box_def
      split: option.splits if_splits bind_splits)

end
