(* ===== verification/Float64.thy ===== *)
theory Float64
  imports Complex_Main Prelude "HOL-Library.Log_Nat"
begin

text \<open>
  The part of Rust's \<open>f64\<close> that the pool arithmetic uses: the conversion \<open>u64 as f64\<close>,
  division, remainder, \<open>ceil\<close>, comparison and the saturating cast \<open>as u32\<close>.  All
  operands are non-negative and lie between \<open>2^-64\<close> and \<open>2^64\<close>, so no operation reaches
  the subnormal range or overflows: a finite value is a rational number, and every
  rounding is to the nearest number with a 53-bit significand, ties to even.
  Shown below: conversion of integers below \<open>2^53\<close> is exact, the relative error of a
  rounding is at most \<open>2^-53\<close>, and the ceiling of a rounded quotient of two such
  integers is the ceiling of the exact quotient.
\<close>

datatype f64 = NaN | Inf | Fin rat

definition pow2 :: "int \<Rightarrow> rat" where
  "pow2 e = (if 0 \<le> e then 2 ^ nat e else 1 / 2 ^ nat (- e))"

definition ilog2 :: "rat \<Rightarrow> int" where
  "ilog2 x = (let (a, b) = quotient_of x; e = bitlen a - bitlen b
              in if pow2 e \<le> x then e else e - 1)"

definition round_half_even :: "rat \<Rightarrow> int" where
  "round_half_even q = (let f = \<lfloor>q\<rfloor>; d = q - of_int f
                        in if d < 1 / 2 \<or> d = 1 / 2 \<and> even f then f else f + 1)"

definition round53 :: "rat \<Rightarrow> rat" where
  "round53 x = (if x \<le> 0 then 0
                else let u = pow2 (ilog2 x - 52) in of_int (round_half_even (x / u)) * u)"

definition f64_of_u64 :: "u64 \<Rightarrow> f64" where
  "f64_of_u64 w = Fin (round53 (of_nat (unat w)))"

fun f64_div :: "f64 \<Rightarrow> f64 \<Rightarrow> f64" where
  "f64_div (Fin a) (Fin b) = (if b = 0 then (if a = 0 then NaN else Inf) else Fin (round53 (a / b)))"
| "f64_div Inf (Fin b) = Inf"
| "f64_div (Fin a) Inf = Fin 0"
| "f64_div Inf Inf = NaN"
| "f64_div NaN y = NaN"
| "f64_div x NaN = NaN"

fun f64_rem :: "f64 \<Rightarrow> f64 \<Rightarrow> f64" where
  "f64_rem (Fin a) (Fin b) = (if b = 0 then NaN else Fin (a - b * of_int \<lfloor>a / b\<rfloor>))"
| "f64_rem (Fin a) Inf = Fin a"
| "f64_rem _ _ = NaN"

fun f64_le :: "f64 \<Rightarrow> f64 \<Rightarrow> bool" where
  "f64_le (Fin a) (Fin b) = (a \<le> b)"
| "f64_le (Fin a) Inf = True"
| "f64_le Inf Inf = True"
| "f64_le _ _ = False"

fun f64_ceil :: "f64 \<Rightarrow> f64" where
  "f64_ceil (Fin a) = Fin (of_int \<lceil>a\<rceil>)"
| "f64_ceil Inf = Inf"
| "f64_ceil NaN = NaN"

fun f64_as_u32 :: "f64 \<Rightarrow> u32" where
  "f64_as_u32 (Fin a) = word_of_int (max 0 (min \<lfloor>a\<rfloor> (2 ^ 32 - 1)))"
| "f64_as_u32 Inf = 2 ^ 32 - 1"
| "f64_as_u32 NaN = 0"

lemma pow2_pos [simp]: "0 < pow2 e" "pow2 e \<noteq> 0"
  by (auto simp: pow2_def)

lemma pow2_power_int: "pow2 e = 2 powi e"
  by (simp add: pow2_def power_int_def inverse_eq_divide power_divide)

lemma pow2_add: "pow2 (a + b) = pow2 a * pow2 b"
  by (simp add: pow2_power_int power_int_add)

lemma pow2_of_nat: "pow2 (int n) = 2 ^ n"
  by (simp add: pow2_def)

lemma pow2_minus: "pow2 (- e) = 1 / pow2 e"
  by (simp add: pow2_power_int power_int_minus field_simps)

lemma pow2_mono: "a \<le> b \<Longrightarrow> pow2 a \<le> pow2 b"
  by (simp add: pow2_power_int power_int_increasing)

lemma bitlen_bounds_rat:
  assumes "0 < a"
  shows "pow2 (bitlen a - 1) \<le> of_int a" and "of_int a < pow2 (bitlen a)"
proof -
  have "1 \<le> bitlen a" using assms bitlen_eq_zero_iff [of a] bitlen_nonneg [of a] by linarith
  moreover have b: "2 ^ nat (bitlen a - 1) \<le> a \<and> a < 2 ^ nat (bitlen a)"
    using assms by (rule bitlen_bounds)
  ultimately show "pow2 (bitlen a - 1) \<le> of_int a"
    by (simp add: pow2_def)
  show "of_int a < pow2 (bitlen a)"
    using b by (simp add: pow2_def bitlen_nonneg)
qed

lemma ilog2_bounds:
  assumes "0 < x"
  shows "pow2 (ilog2 x) \<le> x" and "x < pow2 (ilog2 x + 1)"
proof -
  obtain a b where q: "quotient_of x = (a, b)" by fastforce
  have b: "0 < b" using q by (rule quotient_of_denom_pos)
  have x: "x = of_int a / of_int b" using q by (rule quotient_of_div)
  with assms b have a: "0 < a" by (simp add: zero_less_divide_iff)
  note ba = bitlen_bounds_rat [OF a] and bb = bitlen_bounds_rat [OF b]
  have "pow2 (bitlen a - bitlen b - 1) * of_int b \<le> pow2 (bitlen a - bitlen b - 1) * pow2 (bitlen b)"
    using bb by simp
  also have "\<dots> = pow2 (bitlen a - 1)" by (simp add: pow2_add [symmetric])
  also have "\<dots> \<le> of_int a" by (rule ba)
  finally have lo: "pow2 (bitlen a - bitlen b - 1) \<le> x" using b by (simp add: x pos_le_divide_eq)
  have "of_int a < pow2 (bitlen a)" by (rule ba)
  also have "\<dots> = pow2 (bitlen a - bitlen b + 1) * pow2 (bitlen b - 1)"
    by (simp add: pow2_add [symmetric])
  also have "\<dots> \<le> pow2 (bitlen a - bitlen b + 1) * of_int b" using bb by simp
  finally have hi: "x < pow2 (bitlen a - bitlen b + 1)" using b by (simp add: x pos_divide_less_eq)
  show "pow2 (ilog2 x) \<le> x" "x < pow2 (ilog2 x + 1)"
    using lo hi by (auto simp: ilog2_def q Let_def)
qed

lemma round_half_even_error: "\<bar>of_int (round_half_even q) - q\<bar> \<le> 1 / 2"
proof -
  have "of_int \<lfloor>q\<rfloor> \<le> q" "q < of_int \<lfloor>q\<rfloor> + 1" by linarith+
  then show ?thesis by (auto simp: round_half_even_def Let_def)
qed

lemma round_half_even_int [simp]: "round_half_even (of_int n) = n"
  by (simp add: round_half_even_def)

text \<open>The relative error of a rounding is at most one half unit in the last of 53 places.\<close>

lemma round53_error:
  assumes "0 < x"
  shows "\<bar>round53 x - x\<bar> \<le> x / 2 ^ 53"
proof -
  let ?u = "pow2 (ilog2 x - 52)"
  have "round53 x - x = (of_int (round_half_even (x / ?u)) - x / ?u) * ?u"
    using assms by (simp add: round53_def Let_def left_diff_distrib)
  then have "\<bar>round53 x - x\<bar> = \<bar>of_int (round_half_even (x / ?u)) - x / ?u\<bar> * ?u"
    by (simp only: abs_mult abs_of_pos [OF pow2_pos(1)])
  also have "\<dots> \<le> 1 / 2 * ?u"
    by (rule mult_right_mono [OF round_half_even_error]) (simp add: less_imp_le)
  also have "\<dots> = pow2 (ilog2 x) / 2 ^ 53"
    using pow2_add [of "ilog2 x" "- 52"] pow2_minus [of 52] pow2_of_nat [of 52] by simp
  also have "\<dots> \<le> x / 2 ^ 53"
    using ilog2_bounds [OF assms] by (simp add: divide_right_mono)
  finally show ?thesis .
qed

text \<open>Integers below \<open>2^53\<close> are represented exactly.\<close>

lemma round53_nat:
  assumes "n < 2 ^ 53"
  shows "round53 (of_nat n) = of_nat n"
proof (cases "n = 0")
  case False
  let ?x = "of_nat n :: rat"
  have pos: "0 < ?x" using False by simp
  have "pow2 (ilog2 ?x) < pow2 53"
    using ilog2_bounds(1) [OF pos] assms pow2_of_nat [of 53]
    by (metis of_nat_less_iff of_nat_numeral of_nat_power order_le_less_trans)
  then have le: "ilog2 ?x \<le> 52" using pow2_mono [of 53 "ilog2 ?x"] by linarith
  let ?u = "pow2 (ilog2 ?x - 52)"
  have inv: "1 / ?u = of_int (2 ^ nat (52 - ilog2 ?x))"
    using le pow2_minus [of "ilog2 ?x - 52"] by (simp add: pow2_def)
  have "?x / ?u = of_int (int n * 2 ^ nat (52 - ilog2 ?x))"
    using inv by (simp add: field_simps)
  then have "round53 ?x = of_int (int n * 2 ^ nat (52 - ilog2 ?x)) * ?u"
    using pos by (simp add: round53_def Let_def del: of_int_mult of_int_power)
  also have "\<dots> = ?x / ?u * ?u" using \<open>?x / ?u = _\<close> by simp
  finally show ?thesis by simp
qed (simp add: round53_def)

text \<open>The ceiling of a rounded quotient of integers below \<open>2^53\<close> is exact.\<close>

lemma ceiling_round53_quotient:
  assumes "a < 2 ^ 53" "b \<noteq> 0"
  shows "\<lceil>round53 (of_nat a / of_nat b)\<rceil> = \<lceil>(of_nat a / of_nat b :: rat)\<rceil>"
proof (cases "b dvd a")
  case True
  then obtain c where c: "a = b * c" by (elim dvdE)
  with assms have "c < 2 ^ 53" by (metis le_less_trans nat_0_less_mult_iff mult_le_mono1 nat_mult_1 not_gr_zero Suc_leI One_nat_def)
  with c assms round53_nat [of c] show ?thesis by simp
next
  case False
  let ?x = "of_nat a / of_nat b :: rat"
  let ?m = "a div b" and ?r = "a mod b"
  have r: "0 < ?r" "?r < b" using False assms by (auto simp: dvd_eq_mod_eq_0)
  have x: "?x = of_nat ?m + of_nat ?r / of_nat b"
  proof -
    have "(of_nat a :: rat) = of_nat b * of_nat ?m + of_nat ?r"
      by (metis mult_div_mod_eq of_nat_add of_nat_mult)
    then show ?thesis using assms by (simp add: field_simps)
  qed
  have bpos: "0 < (of_nat b :: rat)" using assms by simp
  have "0 < ?x" using r bpos by (metis False dvd_0_right not_gr_zero of_nat_0_less_iff divide_pos_pos)
  then have "\<bar>round53 ?x - ?x\<bar> \<le> ?x / 2 ^ 53" by (rule round53_error)
  also have "?x / 2 ^ 53 = (of_nat a / 2 ^ 53) / of_nat b" by simp
  also have "\<dots> < 1 / of_nat b"
  proof -
    have "(of_nat a :: rat) < 2 ^ 53" using assms(1) by (metis of_nat_less_iff of_nat_numeral of_nat_power)
    then have "of_nat a / 2 ^ 53 < (1 :: rat)" by simp
    then show ?thesis using bpos by (rule divide_strict_right_mono)
  qed
  finally have err: "\<bar>round53 ?x - ?x\<bar> < 1 / of_nat b" .
  have lo: "of_nat ?m + 1 / of_nat b \<le> ?x"
    using r bpos x by (simp add: divide_right_mono)
  have "(of_nat ?r + 1 :: rat) \<le> of_nat b" using r
    by (metis Suc_leI of_nat_Suc of_nat_le_iff add.commute)
  then have "(of_nat ?r + 1) / of_nat b \<le> (1 :: rat)" using bpos by simp
  then have hi: "?x + 1 / of_nat b \<le> of_nat ?m + 1"
    using x by (simp add: add_divide_distrib)
  have "\<lceil>round53 ?x\<rceil> = int ?m + 1"
    using err lo hi by (intro ceiling_unique) (auto simp: abs_less_iff)
  moreover have "\<lceil>?x\<rceil> = int ?m + 1"
  proof (rule ceiling_unique)
    have "0 < 1 / (of_nat b :: rat)" using bpos by simp
    then show "of_int (int ?m + 1) - 1 < ?x" "?x \<le> of_int (int ?m + 1)"
      unfolding of_int_add of_int_of_nat_eq of_int_1 using lo hi by linarith+
  qed
  ultimately show ?thesis by simp
qed

lemma f64_of_u64_exact: "unat w < 2 ^ 53 \<Longrightarrow> f64_of_u64 w = Fin (of_nat (unat w))"
  unfolding f64_of_u64_def by (simp only: round53_nat)

lemma rat_mod_of_nat:
  assumes "b \<noteq> 0"
  shows "of_nat a - of_nat b * of_int \<lfloor>(of_nat a / of_nat b :: rat)\<rfloor> = (of_nat (a mod b) :: rat)"
proof -
  have "\<lfloor>(of_nat a / of_nat b :: rat)\<rfloor> = int (a div b)"
    by (simp add: floor_divide_of_nat_eq)
  moreover have "(of_nat a :: rat) = of_nat b * of_nat (a div b) + of_nat (a mod b)"
    by (metis mult_div_mod_eq of_nat_add of_nat_mult)
  ultimately show ?thesis by simp
qed

lemma f64_of_u64_Fin: "\<exists>r. f64_of_u64 w = Fin r"
  by (simp only: f64_of_u64_def f64.inject ex_simps simp_thms)

lemma f64_of_u64_0 [simp]: "f64_of_u64 0 = Fin 0"
  by (simp add: f64_of_u64_def round53_def)

lemma ceiling_nat_div:
  assumes "b \<noteq> 0"
  shows "\<lceil>(of_nat a / of_nat b :: rat)\<rceil> = int ((a + b - 1) div b)"
proof -
  define k where "k = (a + b - 1) div b"
  have "b * k + (a + b - 1) mod b = a + b - 1" "(a + b - 1) mod b < b"
    using assms by (simp_all add: k_def)
  then have "a \<le> b * k" "b * k < a + b" using assms by linarith+
  then have "(of_nat a :: rat) \<le> of_nat (b * k)" "(of_nat (b * k) :: rat) < of_nat (a + b)"
    by (simp_all only: of_nat_le_iff of_nat_less_iff)
  then have "\<lceil>(of_nat a / of_nat b :: rat)\<rceil> = int k"
    using assms by (intro ceiling_unique) (simp_all add: field_simps)
  then show ?thesis by (simp add: k_def)
qed

lemma f64_ceil_div_exact:
  assumes "a < 2 ^ 53" "b \<noteq> 0" "a \<le> (2 ^ 32 - 1) * b"
  shows "unat (f64_as_u32 (f64_ceil (f64_div (Fin (of_nat a)) (Fin (of_nat b))))) = (a + b - 1) div b"
proof -
  define k where "k = (a + b - 1) div b"
  have "a + b - 1 < 2 ^ 32 * b" using assms(2,3) by simp
  then have k: "k < 2 ^ 32" by (simp add: k_def less_mult_imp_div_less)
  have "f64_ceil (f64_div (Fin (of_nat a)) (Fin (of_nat b))) = Fin (of_int (int k))"
    using ceiling_round53_quotient [OF assms(1,2)] ceiling_nat_div [OF assms(2), of a] assms(2)
    by (simp add: k_def)
  then have "f64_as_u32 (f64_ceil (f64_div (Fin (of_nat a)) (Fin (of_nat b)))) = word_of_nat k"
    using k by (simp del: f64_div.simps f64_ceil.simps)
  moreover have "unat (word_of_nat k :: u32) = k"
    using k by (simp add: unsigned_of_nat take_bit_nat_eq_self)
  ultimately show ?thesis by (simp only: k_def)
qed

lemma ilog2_unique:
  assumes "pow2 e \<le> x" "x < pow2 (e + 1)"
  shows "ilog2 x = e"
proof -
  have "0 < x" using assms(1) pow2_pos(1) [of e] by (rule less_le_trans [rotated])
  note b = ilog2_bounds [OF this]
  have "pow2 e < pow2 (ilog2 x + 1)" "pow2 (ilog2 x) < pow2 (e + 1)" using assms b by linarith+
  then have "\<not> ilog2 x + 1 \<le> e" "\<not> e + 1 \<le> ilog2 x"
    using pow2_mono not_less by blast+
  then show ?thesis by linarith
qed

lemma round53_eqI:
  assumes "pow2 e \<le> x" "x < pow2 (e + 1)"
  shows "round53 x = of_int (round_half_even (x / pow2 (e - 52))) * pow2 (e - 52)"
proof -
  have "0 < x" using assms(1) pow2_pos(1) [of e] by (rule less_le_trans [rotated])
  then show ?thesis using ilog2_unique [OF assms] by (simp add: round53_def Let_def)
qed

lemma round_half_even_eqI:
  "of_int f \<le> q \<Longrightarrow> q < of_int f + 1 \<Longrightarrow>
   round_half_even q = (if q - of_int f < 1 / 2 \<or> q - of_int f = 1 / 2 \<and> even f then f else f + 1)"
  by (simp add: round_half_even_def Let_def floor_unique)

end
