(* ===== verification/Pool.thy ===== *)
theory Pool
  imports Order_Data Float64
begin

text \<open>
  The pool of \<open>spectrum-offchain-lm/src/data/pool.rs\<close>: its state, the three operations
  (\<open>apply_deposit\<close>, \<open>apply_redeem\<close>, \<open>distribute_rewards\<close>), the epoch arithmetic they
  rest on, and the conversion from and to boxes.  An operation returns \<open>None\<close> when the Rust
  code panics (a division by an epoch number, an epoch length, an epoch allocation or a
  virtual liquidity of zero), a left value for the errors of the source and a right value
  on success.
\<close>

record pool =
  pl_pool_id :: pool_id
  budget_rem :: typed_asset_amount
  reserves_lq :: typed_asset_amount
  reserves_vlq :: typed_asset_amount
  reserves_tmp :: typed_asset_amount
  pl_epoch_ix :: "u32 option"
  conf :: program_config
  pl_erg_value :: nano_erg

datatype temporal_error = LiquidityMoveBlocked

datatype permanent_error =
    LiqudityMismatch
  | ProgramExhausted
  | OrderPoisoned string
  | LowValue (low_expected: u64) (low_provided: u64)

datatype pool_operation_error =
    Permanent permanent_error
  | Temporal temporal_error

fun show_permanent_error :: "permanent_error \<Rightarrow> string" where
  "show_permanent_error LiqudityMismatch = ''LiqudityMismatch''"
| "show_permanent_error ProgramExhausted = ''ProgramExhausted''"
| "show_permanent_error (OrderPoisoned detail) = ''OrderPoisoned: '' @ detail"
| "show_permanent_error (LowValue expected provided) =
     ''LowValue(expected: '' @ show_nat (unat expected) @ '', provided: '' @ show_nat (unat provided) @ '')''"

fun show_temporal_error :: "temporal_error \<Rightarrow> string" where
  "show_temporal_error LiquidityMoveBlocked = ''LiquidityMoveBlocked''"

section \<open>Epoch arithmetic\<close>

definition pool_nft :: "pool \<Rightarrow> typed_asset_amount" where
  "pool_nft p = typed_amount (pl_pool_id p) UNIT_VALUE"

definition program_end :: "pool \<Rightarrow> u32" where
  "program_end p = program_start (conf p) + epoch_len (conf p) * epoch_num (conf p)"

definition epoch_alloc :: "pool \<Rightarrow> u64 panics" where
  "epoch_alloc p = checked_div (amount (program_budget (conf p))) (ucast (epoch_num (conf p)))"

definition epochs_left_to_process :: "pool \<Rightarrow> u32 panics" where
  "epochs_left_to_process p = do {
     alloc \<leftarrow> epoch_alloc p;
     Some (f64_as_u32 (f64_ceil (f64_div
       (f64_of_u64 (saturating_sub (amount (budget_rem p)) (max_rounding_error (conf p))))
       (f64_of_u64 alloc)))) }"

definition current_epoch_ix :: "pool \<Rightarrow> u32 \<Rightarrow> u32 panics" where
  "current_epoch_ix p height =
     (let cur_block_ix = int (unat height) - int (unat (program_start (conf p))) + 1 in
      if cur_block_ix < 0 then Some 0
      else if epoch_len (conf p) = 0 then None
      else let len = int (unat (epoch_len (conf p)));
               cur_epoch_ix_rem = cur_block_ix mod len;
               cur_epoch_ix_r = cur_block_ix div len
           in Some (if cur_epoch_ix_rem = 0 \<and> cur_epoch_ix_r = 0 then 0
                    else if cur_epoch_ix_rem > 0 then word_of_int cur_epoch_ix_r + 1
                    else word_of_int cur_epoch_ix_r))"

definition num_epochs_remain :: "pool \<Rightarrow> u32 \<Rightarrow> u32 panics" where
  "num_epochs_remain p height = do {
     ix \<leftarrow> current_epoch_ix p height;
     Some (saturating_sub (epoch_num (conf p)) ix) }"

definition epoch_completed :: "pool \<Rightarrow> bool panics" where
  "epoch_completed p = do {
     alloc \<leftarrow> epoch_alloc p;
     Some (f64_le (f64_rem (f64_of_u64 (amount (budget_rem p))) (f64_of_u64 alloc))
                  (f64_of_u64 (max_rounding_error (conf p)))) }"

section \<open>Deposit\<close>

type_synonym deposit_result =
  "pool \<times> staking_bundle_proto \<times> deposit_output \<times> executor_output \<times> miner_output"

definition apply_deposit ::
  "pool \<Rightarrow> deposit \<Rightarrow> token_details \<Rightarrow> execution_context \<Rightarrow> (pool_operation_error + deposit_result) panics" where
  "apply_deposit p deposit td ctx = do {
     epochs_remain \<leftarrow> num_epochs_remain p (ctx_height ctx);
     if epochs_remain < 1 then Some (Inl (Permanent ProgramExhausted)) else do {
     completed \<leftarrow> epoch_completed p;
     if \<not> completed then Some (Inl (Temporal LiquidityMoveBlocked)) else
     if epochs_remain \<noteq> dep_expected_num_epochs deposit then
       Some (Inl (Permanent (OrderPoisoned
         (''Expected epochs ['' @ show_nat (unat (dep_expected_num_epochs deposit)) @
          ''], remain epochs ['' @ show_nat (unat epochs_remain) @ '']'')))) else
     let release_vlq = typed_amount (asset_id (reserves_vlq p)) (amount (dep_lq deposit));
         release_tmp_amt = ucast epochs_remain * amount release_vlq;
         release_tmp = typed_amount (asset_id (reserves_tmp p)) release_tmp_amt;
         next_pool = p \<lparr> reserves_lq := asset_add (reserves_lq p) (dep_lq deposit),
                         reserves_vlq := asset_sub (reserves_vlq p) release_vlq,
                         reserves_tmp := asset_sub (reserves_tmp p) release_tmp \<rparr>;
         bundle_key_for_user = typed_amount (ctx_mintable_token_id ctx) BUNDLE_KEY_AMOUNT_USER;
         bundle = \<lparr> sbp_bundle_key_id = to_asset bundle_key_for_user, sbp_pool_id = pl_pool_id next_pool,
                    sbp_vlq = release_vlq, sbp_tmp = Some release_tmp,
                    sbp_redeemer_prop = dep_redeemer_prop deposit, sbp_erg_value = MIN_SAFE_FAT_BOX_VALUE,
                    sbp_token_name = td_name td, sbp_token_desc = td_description td \<rparr>;
         user_output = \<lparr> do_bundle_key = bundle_key_for_user, do_redeemer_prop = dep_redeemer_prop deposit,
                         do_erg_value = MIN_SAFE_FAT_BOX_VALUE,
                         do_token_name = td_name td, do_token_desc = td_description td \<rparr>;
         miner_output = \<lparr> mo_erg_value = DEFAULT_MINER_FEE \<rparr>;
         remainder_erg = safe_sub (safe_sub (safe_sub (dep_erg_value deposit) (sbp_erg_value bundle))
                           (do_erg_value user_output)) (mo_erg_value miner_output)
     in Some (if MIN_SAFE_BOX_VALUE \<le> remainder_erg
              then Inr (next_pool, bundle, user_output,
                        \<lparr> eo_executor_prop = ctx_executor_prop ctx, eo_erg_value = remainder_erg \<rparr>, miner_output)
              else Inl (Permanent (LowValue MIN_SAFE_BOX_VALUE remainder_erg))) } }"

section \<open>Redeem\<close>

definition stuck_pool_id :: pool_id where
  "stuck_pool_id = 0x69eff57ea62b13c58e5668e3fbc9927fdb2dffb1c692261f98728a665b2f8abb"

definition apply_redeem ::
  "pool \<Rightarrow> redeem \<Rightarrow> staking_bundle \<Rightarrow> execution_context \<Rightarrow>
   (pool_operation_error + (pool \<times> redeem_output \<times> executor_output \<times> miner_output)) panics" where
  "apply_redeem p redeem bundle ctx =
     (if amount (red_expected_lq redeem) \<noteq> amount (sb_vlq bundle)
      then Some (Inl (Permanent LiqudityMismatch)) else do {
      blocked \<leftarrow> (if sb_pool_id bundle \<noteq> stuck_pool_id then map_option Not (epoch_completed p) else Some False);
      if blocked then Some (Inl (Temporal LiquidityMoveBlocked)) else
      let release_lq = red_expected_lq redeem;
          next_pool = p \<lparr> reserves_lq := asset_sub (reserves_lq p) release_lq,
                          reserves_vlq := asset_add (reserves_vlq p) (sb_vlq bundle) \<rparr>;
          next_pool = (case sb_tmp bundle of
              Some tmp \<Rightarrow> next_pool \<lparr> reserves_tmp := asset_add (reserves_tmp next_pool) tmp \<rparr>
            | None \<Rightarrow> next_pool);
          user_output = \<lparr> rdo_lq = release_lq, rdo_redeemer_prop = red_redeemer_prop redeem,
                          rdo_erg_value = MIN_SAFE_BOX_VALUE \<rparr>;
          miner_output = \<lparr> mo_erg_value = DEFAULT_MINER_FEE \<rparr>;
          remainder_erg = safe_sub (safe_sub (red_erg_value redeem + sb_erg_value bundle)
                            (rdo_erg_value user_output)) (mo_erg_value miner_output)
      in Some (if MIN_SAFE_BOX_VALUE \<le> remainder_erg
               then Inr (next_pool, user_output,
                         \<lparr> eo_executor_prop = ctx_executor_prop ctx, eo_erg_value = remainder_erg \<rparr>, miner_output)
               else Inl (Permanent (LowValue MIN_SAFE_BOX_VALUE remainder_erg))) })"

section \<open>Distribution of rewards\<close>

definition compounding_epoch_ix :: "pool \<Rightarrow> u32 panics" where
  "compounding_epoch_ix p = do {
     alloc \<leftarrow> epoch_alloc p;
     completed \<leftarrow> epoch_completed p;
     q \<leftarrow> checked_div (amount (budget_rem p)) alloc;
     Some (ucast (if completed then ucast (epoch_num (conf p) + 1) - q
                  else (ucast (epoch_num (conf p) + 1) :: u64) - q - 1)) }"

definition epochs_burned :: "u32 \<Rightarrow> staking_bundle \<Rightarrow> u64 panics" where
  "epochs_burned epochs_remain b = (case sb_tmp b of
     Some tmp \<Rightarrow> do { q \<leftarrow> checked_div (amount tmp) (amount (sb_vlq b)); Some (saturating_sub q (ucast epochs_remain)) }
   | None \<Rightarrow> Some 0)"

definition actual_tmp :: "pool \<Rightarrow> u32 \<Rightarrow> u64" where
  "actual_tmp p epochs_remain =
     saturating_sub (saturating_sub MAX_VALUE (amount (reserves_tmp p)))
       (amount (reserves_lq p) * ucast epochs_remain)"

definition alloc_rem :: "pool \<Rightarrow> u32 \<Rightarrow> u128 panics" where
  "alloc_rem p epochs_remain = do {
     q \<leftarrow> checked_div (ucast (amount (program_budget (conf p))) * ucast epochs_remain) (ucast (epoch_num (conf p)));
     Some (saturating_sub (saturating_sub (ucast (amount (budget_rem p))) q) 1) }"

definition reward_amt :: "pool \<Rightarrow> u32 \<Rightarrow> staking_bundle \<Rightarrow> u64 \<Rightarrow> u64 panics" where
  "reward_amt p epochs_remain b burned =
     (if 0 < actual_tmp p epochs_remain then do {
        ar \<leftarrow> alloc_rem p epochs_remain;
        Some (ucast (ar * ucast (amount (sb_vlq b)) * ucast burned div ucast (actual_tmp p epochs_remain))) }
      else Some 0)"

text \<open>
  One round of the loop: \<open>p\<close> is the pool the operation was called on, \<open>np\<close> the pool
  updated so far, \<open>cost\<close> the accumulated cost.
\<close>

definition distribute_step ::
  "pool \<Rightarrow> u32 \<Rightarrow> staking_bundle \<Rightarrow> pool \<Rightarrow> nano_erg \<Rightarrow>
   (pool_operation_error + (pool \<times> nano_erg \<times> staking_bundle \<times> reward_output)) panics" where
  "distribute_step p epochs_remain b np cost = do {
     burned \<leftarrow> epochs_burned epochs_remain b;
     if burned < 1 then Some (Inl (Permanent (OrderPoisoned ''Already compounded''))) else do {
     amt \<leftarrow> reward_amt p epochs_remain b burned;
     let reward = (if 0 < amt then Some (typed_amount (asset_id (budget_rem np)) amt) else None);
     let reward_output = \<lparr> ro_reward = reward, ro_redeemer_prop = sb_redeemer_prop b, ro_erg_value = MIN_SAFE_BOX_VALUE \<rparr>;
     let np = (case reward of Some r \<Rightarrow> np \<lparr> budget_rem := asset_sub (budget_rem np) r \<rparr> | None \<Rightarrow> np);
     let (np, cost, b) = (case sb_tmp b of
        Some tmp \<Rightarrow>
          let charged_tmp_amt = amount tmp - ucast epochs_remain * amount (sb_vlq b);
              charged_tmp = typed_amount (asset_id tmp) charged_tmp_amt;
              b = b \<lparr> sb_tmp := (if 0 < amount (asset_sub tmp charged_tmp)
                                  then Some (asset_sub tmp charged_tmp) else None) \<rparr>
          in (np \<lparr> reserves_tmp := asset_add (reserves_tmp np) charged_tmp \<rparr>, cost + ro_erg_value reward_output, b)
      | None \<Rightarrow> (np, cost, b));
     Some (if amount (budget_rem np) = 0 then Inl (Permanent (OrderPoisoned ''Budget depleted''))
           else Inr (np, cost, b, reward_output)) } }"

fun distribute_loop ::
  "pool \<Rightarrow> u32 \<Rightarrow> staking_bundle list \<Rightarrow> pool \<Rightarrow> nano_erg \<Rightarrow>
   (pool_operation_error + (pool \<times> nano_erg \<times> staking_bundle list \<times> reward_output list)) panics" where
  "distribute_loop p er [] np cost = Some (Inr (np, cost, [], []))"
| "distribute_loop p er (b # bs) np cost = do {
     r \<leftarrow> distribute_step p er b np cost;
     (case r of
        Inl e \<Rightarrow> Some (Inl e)
      | Inr (np, cost, b', out) \<Rightarrow> do {
          rest \<leftarrow> distribute_loop p er bs np cost;
          Some (case rest of Inl e \<Rightarrow> Inl e
                | Inr (np, cost, bs', outs) \<Rightarrow> Inr (np, cost, b' # bs', out # outs)) }) }"

type_synonym distribution_result =
  "pool \<times> staking_bundle list \<times> distribution_funding_proto option \<times> reward_output list \<times> miner_output"

text \<open>The funding is non-empty: its first box and the others.\<close>

definition distribute_rewards ::
  "pool \<Rightarrow> staking_bundle list \<Rightarrow> distribution_funding \<Rightarrow> distribution_funding list \<Rightarrow>
   (pool_operation_error + distribution_result) panics" where
  "distribute_rewards p bundles f fs = do {
     epoch_ix \<leftarrow> compounding_epoch_ix p;
     let epochs_remain = saturating_sub (epoch_num (conf p)) epoch_ix;
     r \<leftarrow> distribute_loop p epochs_remain bundles p 0;
     Some (case r of
       Inl e \<Rightarrow> Inl e
     | Inr (np, cost, next_bundles, reward_outputs) \<Rightarrow>
         let np = np \<lparr> pl_epoch_ix := Some epoch_ix \<rparr>;
             miner_fee = DEFAULT_MINER_FEE_FOR_COMPOUND_TX;
             cost = cost + miner_fee;
             funds_total = sum_list (map df_erg_value (f # fs));
             funds_remain = safe_sub funds_total cost;
             (next_funding, miner_fee) = (if MIN_SAFE_BOX_VALUE \<le> funds_remain
                then (Some \<lparr> dfp_prop = df_prop f, dfp_erg_value = funds_remain \<rparr>, miner_fee)
                else (None, miner_fee + funds_remain))
         in Inr (np, next_bundles, next_funding, reward_outputs, \<lparr> mo_erg_value = miner_fee \<rparr>)) }"

section \<open>Boxes\<close>

definition u64_of_i64 :: "i64 \<Rightarrow> u64 option" where
  "u64_of_i64 x = (if 0 \<le> sint x then Some x else None)"

definition u32_of_i32 :: "i32 \<Rightarrow> u32 option" where
  "u32_of_i32 x = (if 0 \<le> sint x then Some x else None)"

definition pool_try_from_box :: "ergo_lib \<Rightarrow> ergo_box \<Rightarrow> pool option" where
  "pool_try_from_box E bx = (case bx_tokens bx of
     None \<Rightarrow> None
   | Some tokens \<Rightarrow>
       if length tokens = 5 \<and> POOL_VALIDATOR E = bx_tree bx then do {
         nft \<leftarrow> nth_opt tokens 0;
         budget_rem \<leftarrow> nth_opt tokens 1;
         lq \<leftarrow> nth_opt tokens 2;
         vlq \<leftarrow> nth_opt tokens 3;
         tmp \<leftarrow> nth_opt tokens 4;
         r4 \<leftarrow> get_register bx 4;
         conf \<leftarrow> extract_i32s r4;
         r5 \<leftarrow> get_register bx 5;
         budget \<leftarrow> extract_i64 r5;
         r6 \<leftarrow> get_register bx 6;
         mre \<leftarrow> extract_i64 r6;
         max_rounding_error \<leftarrow> u64_of_i64 mre;
         let epoch_ix = Option.bind (Option.bind (get_register bx 7) extract_i32) u32_of_i32;
         epoch_len \<leftarrow> nth_opt conf 0;
         epoch_num \<leftarrow> nth_opt conf 1;
         program_start \<leftarrow> nth_opt conf 2;
         redeem_blocks_delta \<leftarrow> nth_opt conf 3;
         Some \<lparr> pl_pool_id = tok_id nft, budget_rem = from_token budget_rem,
                reserves_lq = from_token lq, reserves_vlq = from_token vlq, reserves_tmp = from_token tmp,
                pl_epoch_ix = epoch_ix,
                conf = \<lparr> epoch_len = epoch_len, epoch_num = epoch_num, program_start = program_start,
                         redeem_blocks_delta = redeem_blocks_delta, max_rounding_error = max_rounding_error,
                         program_budget = typed_amount (tok_id budget_rem) budget \<rparr>,
                pl_erg_value = bx_value bx \<rparr> }
       else None)"

definition pool_into_candidate :: "ergo_lib \<Rightarrow> pool \<Rightarrow> u32 \<Rightarrow> ergo_box_candidate panics" where
  "pool_into_candidate E p height = do {
     nft \<leftarrow> token_try_from E (pool_nft p);
     budget \<leftarrow> token_try_from E (budget_rem p);
     lq \<leftarrow> token_try_from E (reserves_lq p);
     vlq \<leftarrow> token_try_from E (reserves_vlq p);
     tmp \<leftarrow> token_try_from E (reserves_tmp p);
     v \<leftarrow> box_value_of E (pl_erg_value p);
     Some \<lparr> bx_value = v, bx_tree = POOL_VALIDATOR E, bx_tokens = Some [nft, budget, lq, vlq, tmp],
            bx_regs = [ConstInts (config_to_ints (conf p)), ConstLong (amount (program_budget (conf p))),
                       ConstLong (max_rounding_error (conf p))] @
                      (case pl_epoch_ix p of Some ix \<Rightarrow> [ConstInt ix] | None \<Rightarrow> []),
            bx_height = height \<rparr> }"

section \<open>Laws of the epoch arithmetic\<close>

lemma epoch_ix_of_block:
  assumes "0 < len" "(0::int) < n"
  shows "(if n mod len = 0 then n div len else n div len + 1) = k \<longleftrightarrow> (k - 1) * len < n \<and> n \<le> k * len"
proof -
  define q r where "q = n div len" and "r = n mod len"
  have n: "n = len * q + r" "0 \<le> r" "r < len" using assms by (simp_all add: q_def r_def)
  let ?c = "if r = 0 then q else q + 1"
  have c: "(?c - 1) * len < n \<and> n \<le> ?c * len"
    using n assms by (auto simp: algebra_simps)
  have "k = ?c" if "(k - 1) * len < n" "n \<le> k * len"
  proof -
    have "(k - 1) * len < ?c * len" "(?c - 1) * len < k * len" using that c by linarith+
    then have "k - 1 < ?c" "?c - 1 < k" using assms(1) by (auto simp: mult_less_cancel_right)
    then show ?thesis by linarith
  qed
  then show ?thesis using c unfolding q_def r_def by blast
qed

lemma epoch_ix_of_block_bounds:
  assumes "0 < len" "(0::int) < n"
  defines "c \<equiv> if n mod len = 0 then n div len else n div len + 1"
  shows "0 < c" "c \<le> n"
proof -
  have w: "(c - 1) * len < n" "n \<le> c * len"
    using epoch_ix_of_block [OF assms(1,2), of c] by (simp_all add: c_def)
  show pos: "0 < c"
  proof (rule ccontr)
    assume "\<not> 0 < c"
    then have "c * len \<le> 0" using assms(1) by (intro mult_nonpos_nonneg) linarith+
    then show False using w assms(2) by linarith
  qed
  have "(c - 1) * 1 \<le> (c - 1) * len" using pos assms(1) by (intro mult_left_mono) linarith+
  from le_less_trans [OF this w(1)] show "c \<le> n" by simp
qed

lemma current_epoch_ix_pos:
  assumes "epoch_len (conf p) \<noteq> 0" "unat h + 1 < 2 ^ 32" "unat (program_start (conf p)) \<le> unat h"
  defines "n \<equiv> int (unat h) - int (unat (program_start (conf p))) + 1"
    and "len \<equiv> int (unat (epoch_len (conf p)))"
  shows "\<exists>k. current_epoch_ix p h = Some k \<and>
     int (unat k) = (if n mod len = 0 then n div len else n div len + 1)"
proof -
  define c where "c = (if n mod len = 0 then n div len else n div len + 1)"
  have len: "0 < len" using unat_pos [OF assms(1)] by (simp only: len_def of_nat_0_less_iff)
  have "unat h + 1 < 4294967296" using assms(2) by simp
  then have n: "0 < n" "n < 4294967296" using assms(3) unfolding n_def by linarith+
  have c: "0 < c" "c \<le> n" using epoch_ix_of_block_bounds [OF len n(1)] by (simp_all add: c_def)
  have "current_epoch_ix p h = Some (word_of_int c)"
    unfolding current_epoch_ix_def Let_def n_def [symmetric] len_def [symmetric]
    using n c assms(1) len by (auto simp: c_def order.strict_iff_order)
  moreover have "int (unat (word_of_int c :: u32)) = c"
    using c n by (simp add: unsigned_of_int take_bit_int_eq_self)
  ultimately show ?thesis by (auto simp: c_def)
qed

text \<open>The epoch index of a height is the number of the epoch whose blocks contain the height:
  zero before the start of the program, and \<open>k\<close> exactly for the \<open>k\<close>-th stretch of
  \<open>epoch_len\<close> blocks from the start.\<close>

theorem current_epoch_ix_window:
  assumes "epoch_len (conf p) \<noteq> 0" "unat h + 1 < 2 ^ 32"
  shows "current_epoch_ix p h = Some k \<longleftrightarrow>
    (if k = 0 then unat h < unat (program_start (conf p))
     else unat (program_start (conf p)) + (unat k - 1) * unat (epoch_len (conf p)) \<le> unat h \<and>
          unat h < unat (program_start (conf p)) + unat k * unat (epoch_len (conf p)))"
proof (cases "unat (program_start (conf p)) \<le> unat h")
  case False
  define n where "n = int (unat h) - int (unat (program_start (conf p))) + 1"
  have "n < 0 \<or> n = 0" using False unfolding n_def by linarith
  then have "current_epoch_ix p h = Some 0"
    unfolding current_epoch_ix_def Let_def n_def [symmetric] using assms(1) by auto
  then show ?thesis using False by auto
next
  case True
  define n len where "n = int (unat h) - int (unat (program_start (conf p))) + 1"
    and "len = int (unat (epoch_len (conf p)))"
  have len: "0 < len" using unat_pos [OF assms(1)] by (simp only: len_def of_nat_0_less_iff)
  have n: "0 < n" using True unfolding n_def by linarith
  obtain j where j: "current_epoch_ix p h = Some j"
    "int (unat j) = (if n mod len = 0 then n div len else n div len + 1)"
    using current_epoch_ix_pos [OF assms True] unfolding n_def len_def by blast
  have "j = k \<longleftrightarrow> int (unat j) = int (unat k)" by (simp only: of_nat_eq_iff) (metis unsigned_word_eqI)
  also have "\<dots> \<longleftrightarrow> (int (unat k) - 1) * len < n \<and> n \<le> int (unat k) * len"
    using epoch_ix_of_block [OF len n, of "int (unat k)"] j(2) by simp
  finally have *: "current_epoch_ix p h = Some k \<longleftrightarrow> (int (unat k) - 1) * len < n \<and> n \<le> int (unat k) * len"
    using j(1) by simp
  show ?thesis
  proof (cases "k = 0")
    case k0: True
    then show ?thesis using * n True by auto
  next
    case False
    then obtain m where m: "unat k = Suc m" by (metis not0_implies_Suc unat_pos less_irrefl)
    have "(int (unat k) - 1) * len = int (m * unat (epoch_len (conf p)))"
      "int (unat k) * len = int (unat k * unat (epoch_len (conf p)))"
      unfolding len_def m by (simp_all only: of_nat_mult of_nat_Suc add_diff_cancel_left')
    then have "current_epoch_ix p h = Some k \<longleftrightarrow>
        unat (program_start (conf p)) + m * unat (epoch_len (conf p)) \<le> unat h \<and>
        unat h < unat (program_start (conf p)) + unat k * unat (epoch_len (conf p))"
      unfolding * n_def by linarith
    then show ?thesis using False m by (simp only: if_False diff_Suc_1)
  qed
qed

text \<open>Before \<open>2^53\<close> the floating-point tests of the pool are the integer ones.\<close>

definition f64_safe :: "pool \<Rightarrow> bool" where
  "f64_safe p \<longleftrightarrow> unat (amount (budget_rem p)) < 2 ^ 53 \<and>
     unat (amount (program_budget (conf p))) < 2 ^ 53 \<and> unat (max_rounding_error (conf p)) < 2 ^ 53"

lemma epoch_alloc_Some:
  "epoch_alloc p = Some a \<longleftrightarrow> epoch_num (conf p) \<noteq> 0 \<and>
     unat a = unat (amount (program_budget (conf p))) div unat (epoch_num (conf p))"
proof -
  have "ucast (epoch_num (conf p)) = (0::u64) \<longleftrightarrow> epoch_num (conf p) = 0"
    by (metis unat_u32_u64 unat_eq_zero)
  moreover have "a = b \<longleftrightarrow> unat a = unat b" for b by (metis unsigned_word_eqI)
  ultimately show ?thesis by (simp only: epoch_alloc_def checked_div_Some word_nat) 
qed

lemma epoch_alloc_Some_lt: "f64_safe p \<Longrightarrow> epoch_alloc p = Some a \<Longrightarrow> unat a < 2 ^ 53"
  using order_le_less_trans [OF div_le_dividend] unfolding epoch_alloc_Some f64_safe_def by simp

lemma epoch_completed_exact_aux:
  assumes "f64_safe p" "epoch_alloc p = Some a"
  shows "epoch_completed p = Some (a \<noteq> 0 \<and>
    unat (amount (budget_rem p)) mod unat a \<le> unat (max_rounding_error (conf p)))"
proof (cases "a = 0")
  case True
  then show ?thesis
    using assms(2) f64_of_u64_Fin [of "amount (budget_rem p)"] by (auto simp: epoch_completed_def)
next
  case False
  have lt: "unat (amount (budget_rem p)) < 2 ^ 53" "unat (max_rounding_error (conf p)) < 2 ^ 53" "unat a < 2 ^ 53"
    using assms(1) epoch_alloc_Some_lt [OF assms] unfolding f64_safe_def by blast+
  have a0: "unat a \<noteq> 0" using unat_pos [OF False] by simp
  have "epoch_completed p = Some (f64_le (f64_rem (Fin (of_nat (unat (amount (budget_rem p))))) (Fin (of_nat (unat a))))
      (Fin (of_nat (unat (max_rounding_error (conf p))))))"
    by (simp only: epoch_completed_def assms(2) Option.bind.simps f64_of_u64_exact [OF lt(1)]
        f64_of_u64_exact [OF lt(2)] f64_of_u64_exact [OF lt(3)])
  also have "f64_rem (Fin (of_nat (unat (amount (budget_rem p))))) (Fin (of_nat (unat a)))
      = Fin (of_nat (unat (amount (budget_rem p)) mod unat a))"
    by (simp only: f64_rem.simps of_nat_eq_0_iff a0 if_False rat_mod_of_nat [OF a0])
  finally show ?thesis using False by (simp only: f64_le.simps of_nat_le_iff simp_thms)
qed

lemma epochs_left_exact_aux:
  assumes "f64_safe p" "epoch_alloc p = Some a" "a \<noteq> 0"
    and "unat (amount (budget_rem p)) \<le> (2 ^ 32 - 1) * unat a"
  shows "\<exists>k. epochs_left_to_process p = Some k \<and>
    unat k = (unat (amount (budget_rem p)) - unat (max_rounding_error (conf p)) + unat a - 1) div unat a"
proof -
  let ?b = "saturating_sub (amount (budget_rem p)) (max_rounding_error (conf p))"
  have ub: "unat ?b = unat (amount (budget_rem p)) - unat (max_rounding_error (conf p))"
    by (rule unat_saturating_sub)
  have lt: "unat ?b < 2 ^ 53" "unat a < 2 ^ 53"
    using assms(1) epoch_alloc_Some_lt [OF assms(1,2)] unfolding ub f64_safe_def by linarith+
  have a0: "unat a \<noteq> 0" using unat_pos [OF assms(3)] by simp
  have "unat ?b \<le> (2 ^ 32 - 1) * unat a" using assms(4) ub by linarith
  note val = f64_ceil_div_exact [OF lt(1) a0 this]
  have "epochs_left_to_process p =
      Some (f64_as_u32 (f64_ceil (f64_div (Fin (of_nat (unat ?b))) (Fin (of_nat (unat a))))))"
    by (simp only: epochs_left_to_process_def assms(2) Option.bind.simps f64_of_u64_exact [OF lt(1)]
        f64_of_u64_exact [OF lt(2)])
  with val show ?thesis unfolding ub by blast
qed

section \<open>Laws of deposits and redeems\<close>

lemmas erg_constants = MIN_SAFE_BOX_VALUE_def MIN_SAFE_FAT_BOX_VALUE_def DEFAULT_MINER_FEE_def
  DEFAULT_MINER_FEE_FOR_COMPOUND_TX_def

lemma deposit_remainder_exact:
  assumes "MIN_SAFE_BOX_VALUE \<le> safe_sub (safe_sub (safe_sub v MIN_SAFE_FAT_BOX_VALUE) MIN_SAFE_FAT_BOX_VALUE) DEFAULT_MINER_FEE"
  shows "unat v = 522000 + 522000 + 1000000 +
    unat (safe_sub (safe_sub (safe_sub v MIN_SAFE_FAT_BOX_VALUE) MIN_SAFE_FAT_BOX_VALUE) DEFAULT_MINER_FEE)"
  using assms by (simp add: word_le_nat_alt safe_sub_def unat_saturating_sub erg_constants)

lemma redeem_remainder_exact:
  assumes "MIN_SAFE_BOX_VALUE \<le> safe_sub (safe_sub v MIN_SAFE_BOX_VALUE) DEFAULT_MINER_FEE"
  shows "unat v = 250000 + 1000000 + unat (safe_sub (safe_sub v MIN_SAFE_BOX_VALUE) DEFAULT_MINER_FEE)"
  using assms by (simp add: word_le_nat_alt safe_sub_def unat_saturating_sub erg_constants)

text \<open>A successful deposit, field by field.\<close>

lemma apply_deposit_InrD:
  assumes "apply_deposit p d td ctx = Some (Inr (p', b, u, e, m))"
  obtains er where "num_epochs_remain p (ctx_height ctx) = Some er" "er \<noteq> 0" "er = dep_expected_num_epochs d"
    "epoch_completed p = Some True"
    "p' = p \<lparr> reserves_lq := asset_add (reserves_lq p) (dep_lq d),
              reserves_vlq := asset_sub (reserves_vlq p) (sbp_vlq b),
              reserves_tmp := asset_sub (reserves_tmp p) (the (sbp_tmp b)) \<rparr>"
    "sbp_vlq b = typed_amount (asset_id (reserves_vlq p)) (amount (dep_lq d))"
    "sbp_tmp b = Some (typed_amount (asset_id (reserves_tmp p)) (ucast er * amount (dep_lq d)))"
    "sbp_pool_id b = pl_pool_id p" "sbp_bundle_key_id b = \<lparr> ta_id = ctx_mintable_token_id ctx \<rparr>"
    "sbp_redeemer_prop b = dep_redeemer_prop d" "sbp_erg_value b = MIN_SAFE_FAT_BOX_VALUE"
    "do_bundle_key u = typed_amount (ctx_mintable_token_id ctx) BUNDLE_KEY_AMOUNT_USER"
    "do_redeemer_prop u = dep_redeemer_prop d" "do_erg_value u = MIN_SAFE_FAT_BOX_VALUE"
    "eo_executor_prop e = ctx_executor_prop ctx"
    "eo_erg_value e = safe_sub (safe_sub (safe_sub (dep_erg_value d) MIN_SAFE_FAT_BOX_VALUE) MIN_SAFE_FAT_BOX_VALUE) DEFAULT_MINER_FEE"
    "MIN_SAFE_BOX_VALUE \<le> eo_erg_value e" "mo_erg_value m = DEFAULT_MINER_FEE"
proof -
  obtain er where er: "num_epochs_remain p (ctx_height ctx) = Some er"
    using assms by (auto simp: apply_deposit_def bind_eq_Some_conv)
  have c: "epoch_completed p = Some True" and ge: "er \<noteq> 0" and ex: "er = dep_expected_num_epochs d"
    using assms by (auto simp: apply_deposit_def er bind_eq_Some_conv split: if_splits)
  show ?thesis
    by (rule that [of er]; (insert assms er c ge ex; simp add: apply_deposit_def Let_def split: if_splits; fail)?)
       (insert assms er c ge ex, auto simp: apply_deposit_def Let_def to_asset_def split: if_splits)
qed

lemma apply_redeem_InrD:
  assumes "apply_redeem p r b ctx = Some (Inr (p', u, e, m))"
  shows "amount (red_expected_lq r) = amount (sb_vlq b)"
    "sb_pool_id b = stuck_pool_id \<or> epoch_completed p = Some True"
    "p' = p \<lparr> reserves_lq := asset_sub (reserves_lq p) (red_expected_lq r),
              reserves_vlq := asset_add (reserves_vlq p) (sb_vlq b),
              reserves_tmp := (case sb_tmp b of Some t \<Rightarrow> asset_add (reserves_tmp p) t | None \<Rightarrow> reserves_tmp p) \<rparr>"
    "rdo_lq u = red_expected_lq r" "rdo_redeemer_prop u = red_redeemer_prop r" "rdo_erg_value u = MIN_SAFE_BOX_VALUE"
    "eo_executor_prop e = ctx_executor_prop ctx"
    "eo_erg_value e = safe_sub (safe_sub (red_erg_value r + sb_erg_value b) MIN_SAFE_BOX_VALUE) DEFAULT_MINER_FEE"
    "MIN_SAFE_BOX_VALUE \<le> eo_erg_value e" "mo_erg_value m = DEFAULT_MINER_FEE"
proof -
  show eq: "amount (red_expected_lq r) = amount (sb_vlq b)"
    using assms by (auto simp: apply_redeem_def split: if_splits)
  show ok: "sb_pool_id b = stuck_pool_id \<or> epoch_completed p = Some True"
    using assms by (auto simp: apply_redeem_def eq bind_eq_Some_conv split: if_splits)
  have "(if sb_pool_id b \<noteq> stuck_pool_id then map_option Not (epoch_completed p) else Some False) = Some False"
    using ok by auto
  note res = assms [unfolded apply_redeem_def this, simplified eq, simplified, unfolded Let_def]
  from res show "p' = p \<lparr> reserves_lq := asset_sub (reserves_lq p) (red_expected_lq r),
              reserves_vlq := asset_add (reserves_vlq p) (sb_vlq b),
              reserves_tmp := (case sb_tmp b of Some t \<Rightarrow> asset_add (reserves_tmp p) t | None \<Rightarrow> reserves_tmp p) \<rparr>"
    "rdo_lq u = red_expected_lq r" "rdo_redeemer_prop u = red_redeemer_prop r" "rdo_erg_value u = MIN_SAFE_BOX_VALUE"
    "eo_executor_prop e = ctx_executor_prop ctx"
    "eo_erg_value e = safe_sub (safe_sub (red_erg_value r + sb_erg_value b) MIN_SAFE_BOX_VALUE) DEFAULT_MINER_FEE"
    "MIN_SAFE_BOX_VALUE \<le> eo_erg_value e" "mo_erg_value m = DEFAULT_MINER_FEE"
    by (auto split: if_splits option.splits)
qed

lemma apply_redeem_success:
  assumes "amount (red_expected_lq r) = amount (sb_vlq b)"
    and "sb_pool_id b = stuck_pool_id \<or> epoch_completed p = Some True"
    and "MIN_SAFE_BOX_VALUE \<le> safe_sub (safe_sub (red_erg_value r + sb_erg_value b) MIN_SAFE_BOX_VALUE) DEFAULT_MINER_FEE"
  shows "\<exists>p' u e m. apply_redeem p r b ctx = Some (Inr (p', u, e, m))"
proof -
  have "(if sb_pool_id b \<noteq> stuck_pool_id then map_option Not (epoch_completed p) else Some False) = Some False"
    using assms(2) by auto
  then show ?thesis using assms(1,3) by (simp add: apply_redeem_def Let_def)
qed

lemma epoch_completed_cong:
  "budget_rem p = budget_rem q \<Longrightarrow> conf p = conf q \<Longrightarrow> epoch_completed p = epoch_completed q"
  by (simp add: epoch_completed_def epoch_alloc_def)

lemma pool_sample_eq_iff:
  "(p :: pool) = q \<longleftrightarrow> pl_pool_id p = pl_pool_id q \<and> budget_rem p = budget_rem q \<and> reserves_lq p = reserves_lq q \<and>
     reserves_vlq p = reserves_vlq q \<and> reserves_tmp p = reserves_tmp q \<and> pl_epoch_ix p = pl_epoch_ix q \<and>
     conf p = conf q \<and> pl_erg_value p = pl_erg_value q"
  by (cases p; cases q) simp

section \<open>Samples\<close>

text \<open>The pool, deposit, redeem and context of the tests of \<open>data/pool.rs\<close>, with fixed identifiers.\<close>

definition sample_conf :: program_config where
  "sample_conf = \<lparr> epoch_len = 10, epoch_num = 10, program_start = 10, redeem_blocks_delta = 0,
     max_rounding_error = 1, program_budget = typed_amount 2 1000000000 \<rparr>"

definition sample_pool :: pool where
  "sample_pool = \<lparr> pl_pool_id = 1, budget_rem = typed_amount 2 1000000000, reserves_lq = typed_amount 3 1,
     reserves_vlq = typed_amount 4 0x7fffffffffffffff, reserves_tmp = typed_amount 5 0x7fffffffffffffff,
     pl_epoch_ix = None, conf = sample_conf, pl_erg_value = 100000000000 \<rparr>"

definition sample_deposit :: deposit where
  "sample_deposit = \<lparr> dep_order_id = 7, dep_pool_id = 1, dep_redeemer_prop = [8], dep_bundle_prop_hash = 9,
     dep_max_miner_fee = 10000000, dep_lq = typed_amount 3 1000, dep_erg_value = 100000000000,
     dep_expected_num_epochs = 9 \<rparr>"

definition sample_ctx :: execution_context where
  "sample_ctx = \<lparr> ctx_height = 10, ctx_mintable_token_id = 11, ctx_executor_prop = [12] \<rparr>"

definition sample_td :: token_details where
  "sample_td = \<lparr> td_name = '''', td_description = '''' \<rparr>"

definition sample_redeem :: redeem where
  "sample_redeem = \<lparr> red_order_id = 13, red_pool_id = 1, red_redeemer_prop = [14],
     red_bundle_key = typed_amount 11 1, red_expected_lq = typed_amount 3 1000,
     red_max_miner_fee = 10000000, red_erg_value = 100000000000 \<rparr>"

lemmas sample_defs = sample_conf_def sample_pool_def sample_deposit_def sample_ctx_def sample_td_def sample_redeem_def

lemma sample_num_epochs_remain [simp]: "num_epochs_remain sample_pool 10 = Some 9"
  by (simp add: num_epochs_remain_def current_epoch_ix_def sample_defs saturating_sub_def)

lemma sample_epoch_alloc [simp]: "epoch_alloc sample_pool = Some 100000000"
  by (simp add: epoch_alloc_def sample_defs checked_div_def)

lemma sample_f64_safe [simp]: "f64_safe sample_pool"
  by (simp add: f64_safe_def sample_defs)

lemma sample_epoch_completed [simp]: "epoch_completed sample_pool = Some True"
  by (simp add: epoch_completed_exact_aux [OF sample_f64_safe sample_epoch_alloc]) (simp add: sample_defs)

lemma sample_deposit_ok:
  "\<exists>p' b u e m. apply_deposit sample_pool sample_deposit sample_td sample_ctx = Some (Inr (p', b, u, e, m))"
proof -
  have "ctx_height sample_ctx = 10" "dep_expected_num_epochs sample_deposit = 9" "dep_erg_value sample_deposit = 100000000000"
    by (simp_all add: sample_defs)
  then show ?thesis
    by (simp add: apply_deposit_def Let_def safe_sub_def saturating_sub_def erg_constants)
qed

section \<open>The limits of the floating-point tests\<close>

text \<open>
  A program of three epochs with \<open>2^60 + 127\<close> reward tokens each, before its first epoch.
\<close>

definition big_pool :: pool where
  "big_pool = sample_pool \<lparr> budget_rem := typed_amount 2 3458764513820541309,
     conf := sample_conf \<lparr> epoch_num := 3, max_rounding_error := 100,
                            program_budget := typed_amount 2 3458764513820541309 \<rparr> \<rparr>"

lemma round_big_alloc: "f64_of_u64 1152921504606847103 = Fin 1152921504606846976"
  unfolding f64_of_u64_def
  by (simp, subst round53_eqI [of 60])
     (simp_all add: pow2_def round_half_even_eqI [of 4503599627370496])

lemma round_big_budget: "f64_of_u64 3458764513820541309 = Fin 3458764513820541440"
  unfolding f64_of_u64_def
  by (simp, subst round53_eqI [of 61])
     (simp_all add: pow2_def round_half_even_eqI [of 6755399441055744])

lemma big_pool_alloc: "epoch_alloc big_pool = Some 1152921504606847103"
  by (simp add: epoch_alloc_def big_pool_def sample_defs checked_div_def)

text \<open>Above \<open>2^53\<close> the floating-point test of \<open>epoch_completed\<close> is wrong: a pool that holds its
  full budget, exactly three epoch allocations, is reported as being inside an epoch, so that
  deposits and redeems are refused.\<close>

theorem epoch_completed_imprecise:
  "amount (budget_rem big_pool) mod the (epoch_alloc big_pool) = 0 \<and> epoch_completed big_pool = Some False"
proof -
  have "f64_of_u64 100 = Fin 100" by (simp add: f64_of_u64_exact)
  moreover have "\<lfloor>3458764513820541440 / 1152921504606846976 :: rat\<rfloor> = 3" by (simp add: floor_eq_iff)
  ultimately show ?thesis unfolding epoch_completed_def big_pool_alloc
    by (simp add: big_pool_def sample_defs round_big_alloc round_big_budget)
qed

section \<open>Properties of the epoch tests\<close>

theorem current_epoch_ix_window_witness:
  "current_epoch_ix sample_pool 29 = Some 2"
  using current_epoch_ix_window [of sample_pool 29 2] by (simp add: sample_defs)

text \<open>C20: while budgets and the rounding error are below \<open>2^53\<close>, the floating-point tests compute the
  integer ones: the epoch is completed when the remaining budget modulo the epoch allocation is
  within the rounding error, and the epochs left to process are the rounded-up quotient of the
  remaining budget less the rounding error by the allocation.\<close>

theorem epoch_tests_exact:
  assumes "f64_safe p" "epoch_alloc p = Some a" "a \<noteq> 0"
    and "unat (amount (budget_rem p)) \<le> (2 ^ 32 - 1) * unat a"
  shows "epoch_completed p = Some (unat (amount (budget_rem p)) mod unat a \<le> unat (max_rounding_error (conf p)))
    \<and> (\<exists>k. epochs_left_to_process p = Some k \<and>
         unat k = (unat (amount (budget_rem p)) - unat (max_rounding_error (conf p)) + unat a - 1) div unat a)"
  using epoch_completed_exact_aux [OF assms(1,2)] epochs_left_exact_aux [OF assms] assms(3) by simp

theorem epoch_tests_exact_witness:
  "epoch_completed sample_pool = Some True \<and> (\<exists>k. epochs_left_to_process sample_pool = Some k \<and> unat k = 10)"
  using epoch_tests_exact [OF sample_f64_safe sample_epoch_alloc] by (simp add: sample_defs)

section \<open>Properties of deposits and redeems\<close>

text \<open>C19: a deposit is accepted exactly when the program has epochs left, their number is the one the
  user expects, the current epoch is completed, and the deposited ERG covers the bundle box, the
  user's box, the miner fee and a minimal box for the executor.\<close>

theorem deposit_accepted_iff:
  assumes "num_epochs_remain p (ctx_height ctx) = Some er" "epoch_completed p = Some c"
  shows "(\<exists>r. apply_deposit p d td ctx = Some (Inr r)) \<longleftrightarrow>
    er \<noteq> 0 \<and> c \<and> er = dep_expected_num_epochs d \<and> 2294000 \<le> unat (dep_erg_value d)"
proof -
  have "MIN_SAFE_BOX_VALUE \<le> safe_sub (safe_sub (safe_sub v MIN_SAFE_FAT_BOX_VALUE) MIN_SAFE_FAT_BOX_VALUE) DEFAULT_MINER_FEE
      \<longleftrightarrow> 2294000 \<le> unat v" for v
    by (simp add: word_le_nat_alt safe_sub_def unat_saturating_sub erg_constants) linarith
  moreover have "er < 1 \<longleftrightarrow> er = 0" by (metis word_less_1)
  ultimately show ?thesis using assms by (auto simp: apply_deposit_def Let_def)
qed

theorem deposit_accepted_iff_witness:
  "\<exists>r. apply_deposit sample_pool sample_deposit sample_td sample_ctx = Some (Inr r)"
  using deposit_accepted_iff [of sample_pool sample_ctx 9 True sample_deposit sample_td]
  by (simp add: sample_ctx_def sample_deposit_def)




text \<open>C16: depositing and redeeming the resulting bundle returns the pool to the state it had, and the
  user gets the deposited liquidity back.\<close>

theorem deposit_redeem_roundtrip:
  assumes "apply_deposit p d td ctx = Some (Inr (p', b, u, e, m))"
    and "red_expected_lq r = dep_lq d"
    and "unat (red_erg_value r) + 522000 < 2 ^ 64" "1500000 \<le> unat (red_erg_value r) + 522000"
  shows "\<exists>u' e' m'. apply_redeem p' r (bundle_finalize b sid) ctx' = Some (Inr (p, u', e', m')) \<and> rdo_lq u' = dep_lq d"
proof -
  from assms(1) obtain er :: u32 where d: "epoch_completed p = Some True"
    "p' = p \<lparr> reserves_lq := asset_add (reserves_lq p) (dep_lq d), reserves_vlq := asset_sub (reserves_vlq p) (sbp_vlq b),
              reserves_tmp := asset_sub (reserves_tmp p) (the (sbp_tmp b)) \<rparr>"
    "sbp_vlq b = typed_amount (asset_id (reserves_vlq p)) (amount (dep_lq d))"
    "sbp_tmp b = Some (typed_amount (asset_id (reserves_tmp p)) (ucast er * amount (dep_lq d)))"
    "sbp_erg_value b = MIN_SAFE_FAT_BOX_VALUE"
    by (rule apply_deposit_InrD)
  let ?b = "bundle_finalize b sid"
  have fields: "sb_vlq ?b = sbp_vlq b" "sb_tmp ?b = sbp_tmp b" "sb_erg_value ?b = sbp_erg_value b"
    by (simp_all add: bundle_finalize_def)
  have compl: "epoch_completed p' = Some True" using d(1,2) epoch_completed_cong [of p' p] by simp
  have "unat (red_erg_value r + 522000) = unat (red_erg_value r) + 522000"
    using assms(3) unat_add_exact [of "red_erg_value r" 522000] by simp
  then have rem: "MIN_SAFE_BOX_VALUE \<le> safe_sub (safe_sub (red_erg_value r + sb_erg_value ?b) MIN_SAFE_BOX_VALUE) DEFAULT_MINER_FEE"
    using assms(4) by (simp add: fields d(5) erg_constants word_le_nat_alt safe_sub_def unat_saturating_sub)
  have "amount (red_expected_lq r) = amount (sb_vlq ?b)" using assms(2) by (simp add: fields d(3))
  from apply_redeem_success [OF this disjI2 [OF compl] rem] obtain p'' u' e' m'
    where ok: "apply_redeem p' r ?b ctx' = Some (Inr (p'', u', e', m'))" by blast
  note q = apply_redeem_InrD [OF ok]
  have "p'' = p"
    using q(3) d(2,4) assms(2) by (simp add: fields pool_sample_eq_iff)
  then show ?thesis using ok q(4) assms(2) by auto
qed

lemma sample_redeem_fields [simp]:
  "red_expected_lq sample_redeem = typed_amount 3 1000" "red_erg_value sample_redeem = 100000000000"
  "dep_lq sample_deposit = typed_amount 3 1000"
  by (simp_all add: sample_defs)

theorem deposit_redeem_roundtrip_witness:
  "\<exists>p' b u e m u' e' m'. apply_deposit sample_pool sample_deposit sample_td sample_ctx = Some (Inr (p', b, u, e, m))
     \<and> apply_redeem p' sample_redeem (bundle_finalize b 77) sample_ctx = Some (Inr (sample_pool, u', e', m'))
     \<and> rdo_lq u' = typed_amount 3 1000"
proof -
  obtain p' b u e m where ok: "apply_deposit sample_pool sample_deposit sample_td sample_ctx = Some (Inr (p', b, u, e, m))"
    using sample_deposit_ok by blast
  from deposit_redeem_roundtrip [OF ok, of sample_redeem 77 sample_ctx] ok show ?thesis by simp
qed

definition sample_bundle :: staking_bundle where
  "sample_bundle = \<lparr> sb_bundle_key_id = \<lparr> ta_id = 11 \<rparr>, sb_state_id = 20, sb_pool_id = 1, sb_vlq = typed_amount 4 1000,
     sb_tmp = Some (typed_amount 5 10000), sb_redeemer_prop = [8], sb_erg_value = 522000,
     sb_token_name = ''a'', sb_token_desc = ''b'' \<rparr>"


section \<open>Laws of the distribution of rewards\<close>

definition tmp_of :: "staking_bundle \<Rightarrow> u64" where
  "tmp_of b = (case sb_tmp b of Some t \<Rightarrow> amount t | None \<Rightarrow> 0)"

definition reward_of :: "reward_output \<Rightarrow> u64" where
  "reward_of o' = (case ro_reward o' of Some r \<Rightarrow> amount r | None \<Rightarrow> 0)"

text \<open>What the loop does with one bundle.\<close>

lemma distribute_step_InrD:
  assumes "distribute_step p er b np cost = Some (Inr (np', cost', b', out))"
  obtains burned amt where "epochs_burned er b = Some burned" "burned \<noteq> 0" "reward_amt p er b burned = Some amt"
    "reward_of out = amt" "tmp_of b' = ucast er * amount (sb_vlq b)" "\<exists>t. b' = b \<lparr> sb_tmp := t \<rparr>"
    "amount (budget_rem np') + reward_of out = amount (budget_rem np)"
    "amount (reserves_tmp np') + tmp_of b' = amount (reserves_tmp np) + tmp_of b"
    "cost' = cost + MIN_SAFE_BOX_VALUE" "ro_erg_value out = MIN_SAFE_BOX_VALUE"
    "ro_redeemer_prop out = sb_redeemer_prop b" "amount (budget_rem np') \<noteq> 0"
    "reserves_lq np' = reserves_lq np" "reserves_vlq np' = reserves_vlq np" "conf np' = conf np"
    "pl_pool_id np' = pl_pool_id np" "pl_erg_value np' = pl_erg_value np"
proof -
  obtain burned where bu: "epochs_burned er b = Some burned"
    using assms by (auto simp: distribute_step_def bind_eq_Some_conv)
  have b1: "burned \<noteq> 0" using assms by (auto simp: distribute_step_def bu split: if_splits)
  obtain amt where am: "reward_amt p er b burned = Some amt"
    using assms b1 by (auto simp: distribute_step_def bu bind_eq_Some_conv)
  obtain t where t: "sb_tmp b = Some t"
    using bu b1 by (cases "sb_tmp b") (auto simp: epochs_burned_def)
  have amt0: "\<not> 0 < amt \<longleftrightarrow> amt = 0" by (simp add: word_gt_0)
  note res = assms [unfolded distribute_step_def bu, simplified, unfolded am, simplified b1 t, simplified]
  show ?thesis
    by (rule that [of burned amt]; insert bu b1 am res t)
       (auto simp: Let_def reward_of_def tmp_of_def word_gt_0 linorder_not_less split: if_splits)
qed

text \<open>The effect of a round on its bundle \<open>b\<close>: the successor bundle and the reward.\<close>

definition compounded :: "pool \<Rightarrow> u32 \<Rightarrow> staking_bundle \<Rightarrow> staking_bundle \<times> reward_output \<Rightarrow> bool" where
  "compounded p er b r \<longleftrightarrow> (\<exists>burned. epochs_burned er b = Some burned \<and> burned \<noteq> 0 \<and>
      reward_amt p er b burned = Some (reward_of (snd r))) \<and>
    (\<exists>t. fst r = b \<lparr> sb_tmp := t \<rparr>) \<and> tmp_of (fst r) = ucast er * amount (sb_vlq b) \<and>
    ro_redeemer_prop (snd r) = sb_redeemer_prop b \<and> ro_erg_value (snd r) = MIN_SAFE_BOX_VALUE"

text \<open>A successful round over the bundles is a step and the round over the rest.\<close>

lemma distribute_loop_ConsE:
  assumes "distribute_loop p er (b # bs) np cost = Some (Inr (np', cost', bs', outs))"
  obtains np1 c1 b1 o1 bs1 outs1 where "distribute_step p er b np cost = Some (Inr (np1, c1, b1, o1))"
    "distribute_loop p er bs np1 c1 = Some (Inr (np', cost', bs1, outs1))" "bs' = b1 # bs1" "outs = o1 # outs1"
proof -
  obtain x where x: "distribute_step p er b np cost = Some x"
    using assms by (auto simp: bind_eq_Some_conv)
  then obtain np1 c1 b1 o1 where st: "distribute_step p er b np cost = Some (Inr (np1, c1, b1, o1))"
    using assms by (cases x) auto
  then obtain y where y: "distribute_loop p er bs np1 c1 = Some y"
    using assms by (auto simp: bind_eq_Some_conv)
  show ?thesis using assms st y by (cases y) (auto intro: that)
qed

lemma distribute_loop_InrD:
  "distribute_loop p er bs np cost = Some (Inr (np', cost', bs', outs)) \<Longrightarrow>
   length bs' = length bs \<and> length outs = length bs \<and>
   list_all2 (compounded p er) bs (zip bs' outs) \<and>
   amount (budget_rem np') + sum_list (map reward_of outs) = amount (budget_rem np) \<and>
   amount (reserves_tmp np') + sum_list (map tmp_of bs') = amount (reserves_tmp np) + sum_list (map tmp_of bs) \<and>
   cost' = cost + of_nat (length bs) * MIN_SAFE_BOX_VALUE \<and>
   reserves_lq np' = reserves_lq np \<and> reserves_vlq np' = reserves_vlq np \<and> conf np' = conf np \<and>
   pl_pool_id np' = pl_pool_id np \<and> pl_erg_value np' = pl_erg_value np"
proof (induction bs arbitrary: np cost np' cost' bs' outs)
  case Nil
  then show ?case by simp
next
  case (Cons b bs)
  from Cons.prems obtain np1 c1 b1 o1 bs1 outs1 where st: "distribute_step p er b np cost = Some (Inr (np1, c1, b1, o1))"
    and lp: "distribute_loop p er bs np1 c1 = Some (Inr (np', cost', bs1, outs1))" and eq: "bs' = b1 # bs1" "outs = o1 # outs1"
    by (rule distribute_loop_ConsE)
  note IH = Cons.IH [OF lp]
  from st obtain burned amt where d: "epochs_burned er b = Some burned" "burned \<noteq> 0" "reward_amt p er b burned = Some amt"
    "reward_of o1 = amt" "tmp_of b1 = ucast er * amount (sb_vlq b)" "\<exists>t. b1 = b \<lparr> sb_tmp := t \<rparr>"
    "amount (budget_rem np1) + reward_of o1 = amount (budget_rem np)"
    "amount (reserves_tmp np1) + tmp_of b1 = amount (reserves_tmp np) + tmp_of b"
    "c1 = cost + MIN_SAFE_BOX_VALUE" "ro_erg_value o1 = MIN_SAFE_BOX_VALUE"
    "ro_redeemer_prop o1 = sb_redeemer_prop b"
    "reserves_lq np1 = reserves_lq np" "reserves_vlq np1 = reserves_vlq np" "conf np1 = conf np"
    "pl_pool_id np1 = pl_pool_id np" "pl_erg_value np1 = pl_erg_value np"
    by (rule distribute_step_InrD)
  have "compounded p er b (b1, o1)" using d by (auto simp: compounded_def)
  moreover have "amount (budget_rem np') + (reward_of o1 + sum_list (map reward_of outs1)) = amount (budget_rem np)"
    using IH d(7) by (metis add.assoc add.commute)
  moreover have "amount (reserves_tmp np') + (tmp_of b1 + sum_list (map tmp_of bs1)) =
      amount (reserves_tmp np) + (tmp_of b + sum_list (map tmp_of bs))"
    using IH d(8) by (metis (no_types, lifting) add.assoc add.commute)
  moreover have "cost' = cost + of_nat (Suc (length bs)) * MIN_SAFE_BOX_VALUE"
    using IH d(9) by (simp add: algebra_simps)
  ultimately show ?case using IH d eq by simp
qed

lemma distribute_rewards_InrD:
  assumes "distribute_rewards p bs f fs = Some (Inr (p', bs', nf, outs, m))"
  obtains ix np cost where "compounding_epoch_ix p = Some ix"
    "distribute_loop p (saturating_sub (epoch_num (conf p)) ix) bs p 0 = Some (Inr (np, cost, bs', outs))"
    "p' = np \<lparr> pl_epoch_ix := Some ix \<rparr>"
    "nf = (if MIN_SAFE_BOX_VALUE \<le> safe_sub (sum_list (map df_erg_value (f # fs))) (cost + DEFAULT_MINER_FEE_FOR_COMPOUND_TX)
           then Some \<lparr> dfp_prop = df_prop f,
             dfp_erg_value = safe_sub (sum_list (map df_erg_value (f # fs))) (cost + DEFAULT_MINER_FEE_FOR_COMPOUND_TX) \<rparr> else None)"
    "mo_erg_value m = (if MIN_SAFE_BOX_VALUE \<le> safe_sub (sum_list (map df_erg_value (f # fs))) (cost + DEFAULT_MINER_FEE_FOR_COMPOUND_TX)
           then DEFAULT_MINER_FEE_FOR_COMPOUND_TX
           else DEFAULT_MINER_FEE_FOR_COMPOUND_TX + safe_sub (sum_list (map df_erg_value (f # fs))) (cost + DEFAULT_MINER_FEE_FOR_COMPOUND_TX))"
proof -
  obtain ix where ix: "compounding_epoch_ix p = Some ix"
    using assms by (auto simp: distribute_rewards_def bind_eq_Some_conv)
  obtain x where x: "distribute_loop p (saturating_sub (epoch_num (conf p)) ix) bs p 0 = Some x"
    using assms by (auto simp: distribute_rewards_def ix bind_eq_Some_conv)
  then obtain np cost bs1 outs1 where lp:
    "distribute_loop p (saturating_sub (epoch_num (conf p)) ix) bs p 0 = Some (Inr (np, cost, bs1, outs1))"
    using assms by (cases x) (auto simp: distribute_rewards_def ix)
  show ?thesis
    by (rule that [OF ix, of np cost]; insert assms lp)
       (auto simp: distribute_rewards_def ix Let_def split: if_splits)
qed


lemma compounded_outputs_erg:
  assumes "list_all2 (compounded p er) bs (zip bs' outs)" "length outs = length bs"
  shows "sum_list (map (unat \<circ> ro_erg_value) outs) = 250000 * length bs"
proof -
  have l: "length bs' \<ge> length outs" using list_all2_lengthD [OF assms(1)] assms(2) by simp
  have "list_all2 (\<lambda>b r. ro_erg_value (snd r) = MIN_SAFE_BOX_VALUE) bs (zip bs' outs)"
    using assms(1) by (rule list_all2_mono) (simp add: compounded_def)
  then have "\<forall>o'\<in>set outs. ro_erg_value o' = MIN_SAFE_BOX_VALUE"
    using assms(2) l by (auto simp: list_all2_conv_all_nth in_set_conv_nth)
  then have "map (unat \<circ> ro_erg_value) outs = replicate (length outs) 250000"
    by (intro replicate_eqI) (auto simp: erg_constants)
  then show ?thesis using assms(2) by (simp add: sum_list_replicate)
qed

text \<open>When the funding covers the cost of the compounding, the ERG of the funding boxes is exactly what the
  reward boxes, the miner output and the next funding box hold.\<close>

theorem distribution_erg_balanced:
  assumes "distribute_rewards p bs f fs = Some (Inr (p', bs', nf, outs, m))"
    and "sum_list (map (unat \<circ> df_erg_value) (f # fs)) < 2 ^ 64"
    and "250000 * length bs + 3000000 \<le> sum_list (map (unat \<circ> df_erg_value) (f # fs))"
  shows "sum_list (map (unat \<circ> df_erg_value) (f # fs)) =
    sum_list (map (unat \<circ> ro_erg_value) outs) + unat (mo_erg_value m) +
    (case nf of Some g \<Rightarrow> unat (dfp_erg_value g) | None \<Rightarrow> 0)"
proof -
  let ?fu = "sum_list (map df_erg_value (f # fs))" and ?n = "sum_list (map (unat \<circ> df_erg_value) (f # fs))"
  from assms(1) obtain ix np cost where lp:
    "distribute_loop p (saturating_sub (epoch_num (conf p)) ix) bs p 0 = Some (Inr (np, cost, bs', outs))"
    and nf: "nf = (if MIN_SAFE_BOX_VALUE \<le> safe_sub ?fu (cost + DEFAULT_MINER_FEE_FOR_COMPOUND_TX)
           then Some \<lparr> dfp_prop = df_prop f, dfp_erg_value = safe_sub ?fu (cost + DEFAULT_MINER_FEE_FOR_COMPOUND_TX) \<rparr> else None)"
    and mo: "mo_erg_value m = (if MIN_SAFE_BOX_VALUE \<le> safe_sub ?fu (cost + DEFAULT_MINER_FEE_FOR_COMPOUND_TX)
           then DEFAULT_MINER_FEE_FOR_COMPOUND_TX
           else DEFAULT_MINER_FEE_FOR_COMPOUND_TX + safe_sub ?fu (cost + DEFAULT_MINER_FEE_FOR_COMPOUND_TX))"
    by (rule distribute_rewards_InrD)
  note L = distribute_loop_InrD [OF lp]
  have len: "length bs' = length bs" "length outs = length bs"
    and comp: "list_all2 (compounded p (saturating_sub (epoch_num (conf p)) ix)) bs (zip bs' outs)"
    and cost: "cost = of_nat (length bs) * MIN_SAFE_BOX_VALUE"
    using L by simp_all
  have fu: "unat ?fu = ?n" using assms(2) unat_sum_list_exact [of "map df_erg_value (f # fs)"] by (simp add: comp_def)
  have "cost + DEFAULT_MINER_FEE_FOR_COMPOUND_TX = of_nat (250000 * length bs + 3000000)"
    by (simp add: erg_constants cost)
  then have c: "unat (cost + DEFAULT_MINER_FEE_FOR_COMPOUND_TX) = 250000 * length bs + 3000000"
    using order_le_less_trans [OF assms(3,2)] by (simp only: unat_of_nat_u64)
  have r: "unat (safe_sub ?fu (cost + DEFAULT_MINER_FEE_FOR_COMPOUND_TX)) = ?n - (250000 * length bs + 3000000)"
    by (simp only: safe_sub_def unat_saturating_sub fu c)
  have outs: "sum_list (map (unat \<circ> ro_erg_value) outs) = 250000 * length bs" using compounded_outputs_erg [OF comp len(2)] .
  show ?thesis
  proof (cases "MIN_SAFE_BOX_VALUE \<le> safe_sub ?fu (cost + DEFAULT_MINER_FEE_FOR_COMPOUND_TX)")
    case True
    then show ?thesis using r outs assms(3) by (simp add: nf mo erg_constants)
  next
    case False
    let ?s = "safe_sub ?fu (cost + DEFAULT_MINER_FEE_FOR_COMPOUND_TX)"
    have "unat ?s < 250000" using False by (simp add: word_le_nat_alt erg_constants)
    then have "unat (DEFAULT_MINER_FEE_FOR_COMPOUND_TX + ?s) = 3000000 + unat ?s"
      by (subst unat_add_exact) (simp_all add: erg_constants)
    then show ?thesis using False r outs assms(3) by (simp add: nf mo)
  qed
qed

section \<open>Bounds on the rewards\<close>

lemma sum_floor_le:
  fixes a T :: nat
  shows "sum_list (map (\<lambda>w. a * w div T) ws) \<le> a * sum_list ws div T"
proof (induction ws)
  case Nil
  then show ?case by simp
next
  case (Cons w ws)
  have "a * w div T + a * sum_list ws div T \<le> (a * w + a * sum_list ws) div T"
    by (subst div_add1_eq) simp
  with Cons show ?case by (simp add: distrib_left)
qed

lemma alloc_rem_nat:
  assumes "epoch_num (conf p) \<noteq> 0"
  shows "\<exists>ar. alloc_rem p er = Some ar \<and>
    unat ar = unat (amount (budget_rem p)) - unat (amount (program_budget (conf p))) * unat er div unat (epoch_num (conf p)) - 1"
proof -
  let ?B = "amount (program_budget (conf p))" and ?n = "epoch_num (conf p)"
  have n0: "(ucast ?n :: u128) \<noteq> 0"
    using unat_pos [OF assms] unat_u32_u128 [of ?n] by (metis less_irrefl unat_0)
  have lt: "unat ?B * unat er < 2 ^ 128"
  proof -
    have "unat ?B * unat er < 2 ^ 64 * 2 ^ 32"
      using unat_u64_lt [of ?B] unat_u32_lt [of er] by (rule mult_strict_mono) simp_all
    then show ?thesis by simp
  qed
  have "unat (ucast ?B * ucast er :: u128) = unat ?B * unat er"
    using unat_mult_u128 [of "ucast ?B" "ucast er"] lt by (simp only: unat_u64_u128 unat_u32_u128)
  then show ?thesis using n0
    by (simp add: alloc_rem_def unat_saturating_sub unat_div unat_u64_u128 unat_u32_u128)
qed

lemma reward_amt_nat:
  assumes "epoch_num (conf p) \<noteq> 0" "reward_amt p er b burned = Some r"
    and "unat (amount (sb_vlq b)) * unat burned \<le> unat (actual_tmp p er)"
  shows "unat r = (unat (amount (budget_rem p)) - unat (amount (program_budget (conf p))) * unat er div unat (epoch_num (conf p)) - 1)
     * (unat (amount (sb_vlq b)) * unat burned) div unat (actual_tmp p er)"
proof -
  let ?v = "amount (sb_vlq b)" and ?T = "actual_tmp p er"
  obtain ar where ar: "alloc_rem p er = Some ar"
    and uar: "unat ar = unat (amount (budget_rem p)) - unat (amount (program_budget (conf p))) * unat er div unat (epoch_num (conf p)) - 1"
    using alloc_rem_nat [OF assms(1)] by blast
  show ?thesis
  proof (cases "0 < ?T")
    case False
    then have "unat ?T = 0" by (simp add: word_gt_0)
    then show ?thesis using assms(2) False by (simp add: reward_amt_def)
  next
    case True
    have arlt: "unat ar < 2 ^ 64" using uar unat_u64_lt [of "amount (budget_rem p)"] by linarith
    have wT: "unat ?v * unat burned < 2 ^ 64" using assms(3) unat_u64_lt [of ?T] by linarith
    have "unat ar * (unat ?v * unat burned) < 2 ^ 64 * 2 ^ 64"
      using arlt wT by (rule mult_strict_mono) simp_all
    then have lt: "unat ar * (unat ?v * unat burned) < 2 ^ 128" by simp
    have e1: "unat (ucast ?v * ucast burned :: u128) = unat ?v * unat burned"
      using unat_mult_u128 [of "ucast ?v" "ucast burned"] wT by (simp add: unat_u64_u128)
    have e2: "unat (ar * ucast ?v * ucast burned) = unat ar * (unat ?v * unat burned)"
      using unat_mult_u128 [of ar "ucast ?v * ucast burned"] lt by (simp only: e1 mult.assoc)
    let ?q = "ar * ucast ?v * ucast burned div ucast ?T"
    have uq: "unat ?q = unat ar * (unat ?v * unat burned) div unat ?T"
      by (simp only: unat_div e2 unat_u64_u128)
    have "unat ar * (unat ?v * unat burned) div unat ?T \<le> unat ar * unat ?T div unat ?T"
      by (intro div_le_mono mult_le_mono2 assms(3))
    also have "\<dots> \<le> unat ar" by simp
    finally have "unat ?q < 2 ^ 64" using uq arlt by linarith
    then have "unat (ucast ?q :: u64) = unat ?q"
      by (simp add: unsigned_ucast_eq take_bit_nat_eq_self)
    then show ?thesis using assms(2) True uq by (simp add: reward_amt_def ar uar)
  qed
qed

text \<open>The weight of a bundle in a distribution: its stake times the epochs it is compounded for.\<close>

definition bundle_weight :: "u32 \<Rightarrow> staking_bundle \<Rightarrow> nat" where
  "bundle_weight er b = unat (amount (sb_vlq b)) * unat (the (epochs_burned er b))"

definition epoch_reserve :: "pool \<Rightarrow> u32 \<Rightarrow> nat" where
  "epoch_reserve p er = unat (amount (program_budget (conf p))) * unat er div unat (epoch_num (conf p))"

lemma compounded_rewards:
  assumes "list_all2 (compounded p er) bs rs" "epoch_num (conf p) \<noteq> 0"
    and "\<forall>b\<in>set bs. bundle_weight er b \<le> unat (actual_tmp p er)"
  shows "map (\<lambda>r. unat (reward_of (snd r))) rs =
    map (\<lambda>w. (unat (amount (budget_rem p)) - epoch_reserve p er - 1) * w div unat (actual_tmp p er)) (map (bundle_weight er) bs)"
  using assms
proof (induction rule: list_all2_induct)
  case Nil
  then show ?case by simp
next
  case (Cons b bs r rs)
  then obtain burned where bu: "epochs_burned er b = Some burned" "reward_amt p er b burned = Some (reward_of (snd r))"
    by (auto simp: compounded_def)
  have "bundle_weight er b \<le> unat (actual_tmp p er)" using Cons.prems(2) by simp
  then have "unat (reward_of (snd r)) =
      (unat (amount (budget_rem p)) - epoch_reserve p er - 1) * bundle_weight er b div unat (actual_tmp p er)"
    using reward_amt_nat [OF Cons.prems(1) bu(2)] bu(1) by (simp add: bundle_weight_def epoch_reserve_def)
  with Cons show ?case by simp
qed

lemma sum_rewards_le:
  assumes "list_all2 (compounded p er) bs (zip bs' outs)" "length bs' = length outs" "epoch_num (conf p) \<noteq> 0"
    and "sum_list (map (bundle_weight er) bs) \<le> unat (actual_tmp p er)"
  shows "sum_list (map (unat \<circ> reward_of) outs) \<le> unat (amount (budget_rem p)) - epoch_reserve p er - 1"
proof -
  let ?a = "unat (amount (budget_rem p)) - epoch_reserve p er - 1" and ?T = "unat (actual_tmp p er)"
  have "\<forall>b\<in>set bs. bundle_weight er b \<le> ?T"
    using assms(4) member_le_sum_list [of _ "map (bundle_weight er) bs"] by fastforce
  note rew = compounded_rewards [OF assms(1,3) this]
  have "map (\<lambda>r. unat (reward_of (snd r))) (zip bs' outs) = map (unat \<circ> reward_of) (map snd (zip bs' outs))"
    by simp
  also have "map snd (zip bs' outs) = outs" using assms(2) by simp
  finally have "sum_list (map (unat \<circ> reward_of) outs) = sum_list (map (\<lambda>w. ?a * w div ?T) (map (bundle_weight er) bs))"
    using rew by (simp only:)
  also have "\<dots> \<le> ?a * sum_list (map (bundle_weight er) bs) div ?T" by (rule sum_floor_le)
  also have "\<dots> \<le> ?a * ?T div ?T" by (intro div_le_mono mult_le_mono2 assms(4))
  also have "\<dots> \<le> ?a" by simp
  finally show ?thesis .
qed

lemma compounding_epoch_ix_epoch_num: "compounding_epoch_ix p = Some ix \<Longrightarrow> epoch_num (conf p) \<noteq> 0"
  by (auto simp: compounding_epoch_ix_def bind_eq_Some_conv epoch_alloc_def checked_div_def)

lemma budget_after_rewards:
  assumes "(b' :: u64) + r = b" "unat r \<le> unat b"
  shows "unat b' = unat b - unat r"
proof -
  have "b' = b - r" using assms(1) by auto
  then show ?thesis using assms(2) by (simp add: unat_sub_exact)
qed

text \<open>A distribution never spends more than the current epoch's share: when the bundles of the batch weigh
  at most what the pool counts as outstanding, the rewards sum to at most the budget less the
  reserve for the remaining epochs, the budget does not wrap around, and the reserve is left.\<close>

theorem distribution_within_budget:
  assumes "distribute_rewards p bs f fs = Some (Inr (p', bs', nf, outs, m))"
    and "er = saturating_sub (epoch_num (conf p)) (the (pl_epoch_ix p'))"
    and "sum_list (map (bundle_weight er) bs) \<le> unat (actual_tmp p er)"
  shows "sum_list (map (unat \<circ> reward_of) outs) \<le> unat (amount (budget_rem p)) - epoch_reserve p er - 1
    \<and> unat (amount (budget_rem p')) + sum_list (map (unat \<circ> reward_of) outs) = unat (amount (budget_rem p))
    \<and> min (unat (amount (budget_rem p))) (epoch_reserve p er + 1) \<le> unat (amount (budget_rem p'))"
proof -
  from assms(1) obtain ix np cost where ix: "compounding_epoch_ix p = Some ix"
    and lp: "distribute_loop p (saturating_sub (epoch_num (conf p)) ix) bs p 0 = Some (Inr (np, cost, bs', outs))"
    and p': "p' = np \<lparr> pl_epoch_ix := Some ix \<rparr>" by (rule distribute_rewards_InrD)
  have er: "er = saturating_sub (epoch_num (conf p)) ix" using assms(2) p' by simp
  note L = distribute_loop_InrD [OF lp, folded er]
  have le: "sum_list (map (unat \<circ> reward_of) outs) \<le> unat (amount (budget_rem p)) - epoch_reserve p er - 1"
    using L by (intro sum_rewards_le [OF _ _ compounding_epoch_ix_epoch_num [OF ix] assms(3), of bs']) (blast, simp only:)
  then have lt: "sum_list (map (unat \<circ> reward_of) outs) < 2 ^ 64"
    using unat_u64_lt [of "amount (budget_rem p)"] by linarith
  have sum: "unat (sum_list (map reward_of outs)) = sum_list (map (unat \<circ> reward_of) outs)"
    using unat_sum_list_exact [of "map reward_of outs"] lt by (simp add: comp_def)
  have "amount (budget_rem p') + sum_list (map reward_of outs) = amount (budget_rem p)"
    using L p' by simp
  from budget_after_rewards [OF this] have "unat (amount (budget_rem p')) =
      unat (amount (budget_rem p)) - sum_list (map (unat \<circ> reward_of) outs)"
    using le unfolding sum by linarith
  then show ?thesis using le by linarith
qed

text \<open>A bundle left with the temporal tokens of the remaining epochs has no epoch to be compounded for.\<close>

lemma epochs_burned_compounded:
  assumes "tmp_of b = ucast er * amount (sb_vlq b)" "amount (sb_vlq b) \<noteq> 0"
  shows "epochs_burned er b = Some 0"
proof (cases "sb_tmp b")
  case None
  then show ?thesis by (simp add: epochs_burned_def)
next
  case (Some t)
  have "unat (amount t) = unat er * unat (amount (sb_vlq b)) mod 2 ^ 64"
    using assms(1) Some by (simp add: tmp_of_def unat_word_ariths unat_u32_u64)
  then have "unat (amount t) div unat (amount (sb_vlq b)) \<le> unat er * unat (amount (sb_vlq b)) div unat (amount (sb_vlq b))"
    by (simp only: div_le_mono mod_less_eq_dividend)
  then have "unat (amount t div amount (sb_vlq b)) \<le> unat (ucast er :: u64)"
    using unat_pos [OF assms(2)] by (simp add: unat_div unat_u32_u64)
  then have "unat (saturating_sub (amount t div amount (sb_vlq b)) (ucast er)) = 0"
    by (simp only: unat_saturating_sub diff_is_0_eq)
  then have "saturating_sub (amount t div amount (sb_vlq b)) (ucast er) = 0"
    by (simp only: unat_eq_zero)
  then show ?thesis using Some assms(2) by (simp add: epochs_burned_def)
qed


section \<open>A sample distribution\<close>

definition staked_pool :: pool where
  "staked_pool = sample_pool \<lparr> reserves_lq := typed_amount 3 1000, reserves_vlq := typed_amount 4 0x7ffffffffffffc17,
     reserves_tmp := typed_amount 5 0x7fffffffffffd8ef \<rparr>"

definition sample_funding :: distribution_funding where
  "sample_funding = \<lparr> df_id = 30, df_prop = [31], df_erg_value = 2000000000 \<rparr>"

definition rewarded_pool :: pool where
  "rewarded_pool = staked_pool \<lparr> budget_rem := typed_amount 2 900000001,
     reserves_tmp := typed_amount 5 0x7fffffffffffdcd7, pl_epoch_ix := Some 1 \<rparr>"

definition rewarded_bundle :: staking_bundle where
  "rewarded_bundle = sample_bundle \<lparr> sb_tmp := Some (typed_amount 5 9000) \<rparr>"

lemma staked_pool_fields [simp]:
  "conf staked_pool = sample_conf" "budget_rem staked_pool = typed_amount 2 1000000000"
  "conf rewarded_pool = sample_conf" "budget_rem rewarded_pool = typed_amount 2 900000001"
  by (simp_all add: staked_pool_def rewarded_pool_def sample_pool_def)

lemma sample_conf_fields [simp]:
  "epoch_num sample_conf = 10" "program_budget sample_conf = typed_amount 2 1000000000" "max_rounding_error sample_conf = 1"
  by (simp_all add: sample_conf_def)

lemma staked_alloc: "epoch_alloc staked_pool = Some 100000000" "epoch_alloc rewarded_pool = Some 100000000"
  by (simp_all add: epoch_alloc_def checked_div_def)

lemma staked_f64_safe: "f64_safe staked_pool" "f64_safe rewarded_pool"
  by (simp_all add: f64_safe_def)

lemma staked_completed: "epoch_completed staked_pool = Some True" "epoch_completed rewarded_pool = Some True"
  by (simp_all add: epoch_completed_exact_aux [OF staked_f64_safe(1) staked_alloc(1)]
      epoch_completed_exact_aux [OF staked_f64_safe(2) staked_alloc(2)])

lemma staked_epoch_ix: "compounding_epoch_ix staked_pool = Some 1"
  by (simp add: compounding_epoch_ix_def staked_alloc staked_completed checked_div_def)

lemma staked_saturating: "saturating_sub (10 :: u32) 1 = 9"
  by (simp add: saturating_sub_def)

lemma sample_bundle_burned: "epochs_burned 9 sample_bundle = Some 1"
  by (simp add: epochs_burned_def sample_bundle_def checked_div_def saturating_sub_def)

lemma staked_actual_tmp: "actual_tmp staked_pool 9 = 1000"
  by (simp add: actual_tmp_def staked_pool_def saturating_sub_def MAX_VALUE_def)

lemma staked_reward: "reward_amt staked_pool 9 sample_bundle 1 = Some 99999999"
  by (simp add: reward_amt_def staked_actual_tmp alloc_rem_def checked_div_def saturating_sub_def sample_bundle_def)

definition sample_reward :: reward_output where
  "sample_reward = \<lparr> ro_reward = Some (typed_amount 2 99999999), ro_redeemer_prop = [8], ro_erg_value = MIN_SAFE_BOX_VALUE \<rparr>"

lemma sample_step: "distribute_step staked_pool 9 sample_bundle staked_pool 0 =
   Some (Inr (rewarded_pool \<lparr> pl_epoch_ix := None \<rparr>, MIN_SAFE_BOX_VALUE, rewarded_bundle, sample_reward))"
  unfolding distribute_step_def sample_bundle_burned
  by (simp add: staked_reward)
     (simp add: sample_bundle_def rewarded_bundle_def rewarded_pool_def staked_pool_def sample_pool_def sample_reward_def
       asset_eq_iff Let_def)

lemma sample_distribution: "distribute_rewards staked_pool [sample_bundle] sample_funding [] =
   Some (Inr (rewarded_pool, [rewarded_bundle], Some \<lparr> dfp_prop = [31], dfp_erg_value = 1996750000 \<rparr>,
     [sample_reward], \<lparr> mo_erg_value = 3000000 \<rparr>))"
  by (simp add: distribute_rewards_def staked_epoch_ix staked_saturating sample_step Let_def safe_sub_def saturating_sub_def
      erg_constants sample_funding_def) (simp add: rewarded_pool_def)


theorem distribution_erg_balanced_witness:
  "(2000000000 :: nat) = sum_list (map (unat \<circ> ro_erg_value) [sample_reward]) + unat (3000000 :: u64) + unat (1996750000 :: u64)"
  using distribution_erg_balanced [OF sample_distribution] by (simp add: sample_funding_def)

theorem distribution_within_budget_witness:
  "sum_list (map (unat \<circ> reward_of) [sample_reward]) \<le> unat (amount (budget_rem staked_pool)) - epoch_reserve staked_pool 9 - 1"
proof -
  have "(9 :: u32) = saturating_sub (epoch_num (conf staked_pool)) (the (pl_epoch_ix rewarded_pool))"
    by (simp add: staked_saturating rewarded_pool_def)
  moreover have "sum_list (map (bundle_weight 9) [sample_bundle]) \<le> unat (actual_tmp staked_pool 9)"
    by (simp add: bundle_weight_def sample_bundle_burned staked_actual_tmp) (simp add: sample_bundle_def)
  ultimately show ?thesis using distribution_within_budget [OF sample_distribution] by blast
qed


definition single_compound :: compound where
  "single_compound = \<lparr> co_pool_id = 1, co_epoch_ix = 1, co_queue_ix = 0, co_stakers = [11] \<rparr>"

text \<open>The ERG the executor collects for a compound order of one bundle, \<open>estimated_min_value\<close>, is less than
  what the compounding spends; since the remainder is computed by saturating subtraction, the
  distribution succeeds with outputs worth more than its funding.\<close>

theorem compound_underfunded:
  "\<exists>p' bs' nf outs m. distribute_rewards staked_pool [sample_bundle]
       (sample_funding \<lparr> df_erg_value := estimated_min_value sample_lib single_compound \<rparr>) [] = Some (Inr (p', bs', nf, outs, m))
     \<and> unat (estimated_min_value sample_lib single_compound) = 1000000
     \<and> sum_list (map (unat \<circ> ro_erg_value) outs) + unat (mo_erg_value m) = 3250000"
  by (simp add: distribute_rewards_def staked_epoch_ix staked_saturating sample_step Let_def safe_sub_def saturating_sub_def
      erg_constants sample_funding_def estimated_min_value_def single_compound_def sample_lib_def sample_reward_def)

section \<open>Round trip of the pool box\<close>

lemma sint_eq_unat:
  assumes "unat (w :: 'a::len word) < 2 ^ (LENGTH('a) - 1)"
  shows "sint w = int (unat w)"
proof -
  have "int (unat w) < int (2 ^ (LENGTH('a) - 1))" using assms by (simp only: of_nat_less_iff)
  then have "uint w < 2 ^ (LENGTH('a) - Suc 0)" by simp
  moreover have "- (2 ^ (LENGTH('a) - Suc 0)) \<le> uint w"
    by (rule order_trans [of _ 0]) simp_all
  ultimately have "sint w = uint w" by (simp only: sint_uint signed_take_bit_int_eq_self)
  then show ?thesis by simp
qed

lemma sint_nonneg_u64: "unat (w :: i64) < 2 ^ 63 \<Longrightarrow> u64_of_i64 w = Some w"
  using sint_eq_unat [of w] by (simp add: u64_of_i64_def)

lemma sint_nonneg_u32: "unat (w :: i32) < 2 ^ 31 \<Longrightarrow> u32_of_i32 w = Some w"
  using sint_eq_unat [of w] by (simp add: u32_of_i32_def)

definition pool_tokens :: "pool \<Rightarrow> token list" where
  "pool_tokens p = map (\<lambda>a. \<lparr> tok_id = asset_id a, tok_amount = amount a \<rparr>)
     [pool_nft p, budget_rem p, reserves_lq p, reserves_vlq p, reserves_tmp p]"

lemma pool_into_candidate_Some:
  assumes "pool_into_candidate E p h = Some c"
  shows "bx_value c = pl_erg_value p" "bx_tree c = POOL_VALIDATOR E" "bx_tokens c = Some (pool_tokens p)"
    "bx_regs c = [ConstInts (config_to_ints (conf p)), ConstLong (amount (program_budget (conf p))),
       ConstLong (max_rounding_error (conf p))] @ (case pl_epoch_ix p of Some ix \<Rightarrow> [ConstInt ix] | None \<Rightarrow> [])"
    "\<forall>a\<in>{budget_rem p, reserves_lq p, reserves_vlq p, reserves_tmp p}. token_amount_ok E (amount a)"
  using assms unfolding pool_into_candidate_def pool_tokens_def
  by (auto simp: bind_eq_Some_conv token_try_from_Some box_value_of_Some)

lemma pool_box_read_back:
  assumes "pool_into_candidate E p h = Some c"
    and "unat (max_rounding_error (conf p)) < 2 ^ 63" "\<forall>ix. pl_epoch_ix p = Some ix \<longrightarrow> unat ix < 2 ^ 31"
    and "asset_id (program_budget (conf p)) = asset_id (budget_rem p)"
  shows "pool_try_from_box E (box_of_candidate c i) = Some p"
proof -
  have conf: "conf p = \<lparr> epoch_len = epoch_len (conf p), epoch_num = epoch_num (conf p), program_start = program_start (conf p),
      redeem_blocks_delta = redeem_blocks_delta (conf p), max_rounding_error = max_rounding_error (conf p),
      program_budget = typed_amount (asset_id (budget_rem p)) (amount (program_budget (conf p))) \<rparr>"
    using assms(4) by (cases "conf p") (simp add: asset_eq_iff)
  have ix: "(case pl_epoch_ix p of Some ix \<Rightarrow> u32_of_i32 ix | None \<Rightarrow> None) = pl_epoch_ix p"
    using assms(3) by (auto split: option.split simp: sint_nonneg_u32)
  show ?thesis
    using ix conf unfolding pool_try_from_box_def
    by (cases "pl_epoch_ix p")
       (simp_all add: pool_into_candidate_Some [OF assms(1)] pool_tokens_def get_register_nth_opt config_to_ints_def
          sint_nonneg_u64 [OF assms(2)] pool_nft_def pool_sample_eq_iff)
qed

text \<open>C21: reading the box built for a pool gives the pool back.\<close>

theorem pool_box_roundtrip:
  assumes "pool_into_candidate E p h = Some c"
    and "unat (max_rounding_error (conf p)) < 2 ^ 63" "\<forall>ix. pl_epoch_ix p = Some ix \<longrightarrow> unat ix < 2 ^ 31"
    and "asset_id (program_budget (conf p)) = asset_id (budget_rem p)"
  shows "pool_try_from_box E (box_of_candidate c i) = Some p"
  using assms by (rule pool_box_read_back)

theorem pool_box_roundtrip_witness:
  "\<exists>c. pool_into_candidate sample_lib sample_pool 5 = Some c \<and>
     pool_try_from_box sample_lib (box_of_candidate c 6) = Some sample_pool"
proof -
  obtain c where c: "pool_into_candidate sample_lib sample_pool 5 = Some c"
    by (simp add: pool_into_candidate_def token_try_from_def box_value_of_def sample_lib_def positive_long_def
        sample_pool_def pool_nft_def UNIT_VALUE_def)
  from pool_box_roundtrip [OF c, of 6] c show ?thesis by (auto simp: sample_pool_def)
qed

end
