(* ===== verification/Entity_Data.thy ===== *)
theory Entity_Data
  imports Prelude
begin

text \<open>
  The contexts and transitions of on-chain entities: \<open>spectrum-offchain/src/data/unique_entity.rs\<close>,
  \<open>spectrum-offchain/src/combinators.rs\<close> and \<open>spectrum-offchain/src/data/order.rs\<close>.
  The serde visitors of \<open>Traced\<close> are modelled by what they compute: \<open>traced_visit_seq\<close> and
  \<open>traced_visit_map\<close> consume the elements or the key-value pairs the deserializer offers.
\<close>

datatype ('a, 'b) either_or_both = ELeft 'a | ERight 'b | EBoth 'a 'b

fun either_swap :: "('a, 'b) either_or_both \<Rightarrow> ('b, 'a) either_or_both" where
  "either_swap (ELeft o1) = ERight o1"
| "either_swap (ERight o2) = ELeft o2"
| "either_swap (EBoth o1 o2) = EBoth o2 o1"

fun either_try_from :: "'a option \<times> 'b option \<Rightarrow> ('a, 'b) either_or_both option" where
  "either_try_from (Some l, Some r) = Some (EBoth l r)"
| "either_try_from (Some l, None) = Some (ELeft l)"
| "either_try_from (None, Some r) = Some (ERight r)"
| "either_try_from (None, None) = None"

record ('e, 'sid) traced =
  tr_state :: 'e
  tr_prev_state_id :: "'sid option"

datatype 'a predicted = Predicted (the_predicted: 'a)
datatype 'a confirmed = Confirmed (the_confirmed: 'a)
datatype 'a unconfirmed = Unconfirmed (the_unconfirmed: 'a)
datatype 'a upgrade = Upgrade (the_upgrade: 'a)
datatype 'a upgrade_rollback = UpgradeRollback (the_upgrade_rollback: 'a)

datatype 'a state_update =
    Transition "('a, 'a) either_or_both"
  | TransitionRollback "('a, 'a) either_or_both"

fun predicted_map :: "('a \<Rightarrow> 'b) \<Rightarrow> 'a predicted \<Rightarrow> 'b predicted" where
  "predicted_map f (Predicted x) = Predicted (f x)"

section \<open>Serialization of \<open>Traced\<close>\<close>

text \<open>The fields in the order they are handed to the serializer.\<close>

datatype ('e, 'sid) traced_item = ItemState 'e | ItemPrev "'sid option" | ItemOther

definition traced_serialize :: "('e, 'sid) traced \<Rightarrow> (string \<times> ('e, 'sid) traced_item) list" where
  "traced_serialize t = [(''state'', ItemState (tr_state t)), (''prev_state_id'', ItemPrev (tr_prev_state_id t))]"

datatype traced_field = FieldState | FieldPrevStateId | FieldIgnore

definition traced_visit_str :: "string \<Rightarrow> traced_field" where
  "traced_visit_str s = (if s = ''state'' then FieldState else if s = ''prev_state_id'' then FieldPrevStateId else FieldIgnore)"

definition traced_visit_u64 :: "u64 \<Rightarrow> traced_field" where
  "traced_visit_u64 v = (if v = 0 then FieldState else if v = 1 then FieldPrevStateId else FieldIgnore)"

datatype de_error = InvalidLength nat | DuplicateField string | MissingField string | InvalidType

fun traced_visit_seq :: "('e, 'sid) traced_item list \<Rightarrow> de_error + ('e, 'sid) traced" where
  "traced_visit_seq [] = Inl (InvalidLength 0)"
| "traced_visit_seq [ItemState s] = Inl (InvalidLength 1)"
| "traced_visit_seq (ItemState s # ItemPrev p # xs) = Inr \<lparr> tr_state = s, tr_prev_state_id = p \<rparr>"
| "traced_visit_seq _ = Inl InvalidType"

text \<open>
  \<open>missing_field\<close> gives \<open>None\<close> for a field of an optional type, so only the state is mandatory.
\<close>

fun traced_map_loop ::
  "(string \<times> ('e, 'sid) traced_item) list \<Rightarrow> 'e option \<Rightarrow> 'sid option option \<Rightarrow> de_error + ('e, 'sid) traced" where
  "traced_map_loop [] f0 f1 = (case f0 of
      None \<Rightarrow> Inl (MissingField ''state'')
    | Some s \<Rightarrow> Inr \<lparr> tr_state = s, tr_prev_state_id = (case f1 of Some p \<Rightarrow> p | None \<Rightarrow> None) \<rparr>)"
| "traced_map_loop ((k, v) # xs) f0 f1 = (case traced_visit_str k of
      FieldState \<Rightarrow>
        if f0 \<noteq> None then Inl (DuplicateField ''state'')
        else (case v of ItemState s \<Rightarrow> traced_map_loop xs (Some s) f1 | _ \<Rightarrow> Inl InvalidType)
    | FieldPrevStateId \<Rightarrow>
        if f1 \<noteq> None then Inl (DuplicateField ''prev_state_id'')
        else (case v of ItemPrev p \<Rightarrow> traced_map_loop xs f0 (Some p) | _ \<Rightarrow> Inl InvalidType)
    | FieldIgnore \<Rightarrow> traced_map_loop xs f0 f1)"

definition traced_visit_map :: "(string \<times> ('e, 'sid) traced_item) list \<Rightarrow> de_error + ('e, 'sid) traced" where
  "traced_visit_map xs = traced_map_loop xs None None"

section \<open>Orders in the backlog\<close>

record 'o pending_order = po_order :: 'o  po_timestamp :: i64
record 'o suspended_order = so_order :: 'o  so_timestamp :: i64
record 'o progressing_order = pr_order :: 'o  pr_timestamp :: i64

definition pending_of_progressing :: "'o progressing_order \<Rightarrow> 'o pending_order" where
  "pending_of_progressing p = \<lparr> po_order = pr_order p, po_timestamp = pr_timestamp p \<rparr>"

datatype ('o, 'oid) order_update = NewOrder "'o pending_order" | OrderEliminated 'oid

section \<open>Laws\<close>

lemma either_swap_swap [simp]: "either_swap (either_swap e) = e"
  by (cases e) auto

lemma either_try_from_None: "either_try_from p = None \<longleftrightarrow> p = (None, None)"
  by (cases p rule: either_try_from.cases) auto

text \<open>Both ways in which serde may hand the serialized fields back, as a sequence and as a map in
  either order and with unknown fields in between, rebuild the traced value.\<close>

theorem traced_serde_roundtrip:
  "traced_visit_seq (map snd (traced_serialize t)) = Inr t
   \<and> traced_visit_map (traced_serialize t) = Inr t
   \<and> traced_visit_map (rev (traced_serialize t)) = Inr t
   \<and> traced_visit_map ((''extra'', v) # traced_serialize t) = Inr t
   \<and> traced_visit_map (traced_serialize t @ traced_serialize t) = Inl (DuplicateField ''state'')"
  by (simp add: traced_serialize_def traced_visit_map_def traced_visit_str_def)

end
