(* ===== verification/LM_Order.thy ===== *)
theory LM_Order
  imports Pool Entity_Data
begin

text \<open>
  Running an order against a pool: the \<open>try_run\<close> functions of
  \<open>spectrum-offchain-lm/src/data/order.rs\<close> build the transaction of a compound, deposit or
  redeem order with the predicted states of the entities it creates.  \<open>RunOrderError\<close> of
  \<open>spectrum-offchain/src/executor.rs\<close> tells a fatal failure, which drops the order, from a
  temporary one.  Results: the error kinds follow the kinds of the pool's errors, the
  transactions have the layout the error handling relies on (pool first, then the funding
  boxes, then the bundles), the context variables of a compound transaction point every
  bundle to its successor and its reward, and the transactions balance.
\<close>

datatype 'o run_order_error = Fatal string 'o | NonFatal string 'o

fun run_order_error_map :: "('a \<Rightarrow> 'b) \<Rightarrow> 'a run_order_error \<Rightarrow> 'b run_order_error" where
  "run_order_error_map f (Fatal rn o') = Fatal rn (f o')"
| "run_order_error_map f (NonFatal rn o') = NonFatal rn (f o')"

fun order_error :: "pool_operation_error \<Rightarrow> 'o \<Rightarrow> 'o run_order_error" where
  "order_error (Permanent e) o' = Fatal (show_permanent_error e) o'"
| "order_error (Temporal e) o' = NonFatal (show_temporal_error e) o'"

fun find_position :: "('a \<Rightarrow> bool) \<Rightarrow> 'a list \<Rightarrow> nat option" where
  "find_position P [] = None"
| "find_position P (x # xs) = (if P x then Some 0 else map_option Suc (find_position P xs))"

type_synonym 'x run_result = "transaction_candidate \<times> pool as_box predicted \<times> 'x"

section \<open>Compound\<close>

definition compound_context :: "nat \<Rightarrow> nat \<Rightarrow> nat \<Rightarrow> context_ext" where
  "compound_context first_bundle_out_ix num_bundles i =
     (let succ_ix = first_bundle_out_ix + i; redeemer_out_ix = succ_ix + num_bundles
      in [(0, ConstInt (word_of_nat redeemer_out_ix)), (1, ConstInt (word_of_nat succ_ix))])"

definition compound_try_run ::
  "ergo_lib \<Rightarrow> compound \<Rightarrow> pool as_box \<Rightarrow> staking_bundle as_box list \<times> distribution_funding as_box \<times> distribution_funding as_box list
   \<Rightarrow> execution_context
   \<Rightarrow> (compound run_order_error +
      (staking_bundle as_box predicted list \<times> distribution_funding as_box predicted option) run_result) panics" where
  "compound_try_run E c pool_box extra ctx = (case (pool_box, extra) of
     (AsBox pool_in p, (bundles, funding, fundings)) \<Rightarrow> do {
     r \<leftarrow> distribute_rewards p (map as_val bundles) (as_val funding) (map as_val fundings);
     (case r of
       Inl e \<Rightarrow> Some (Inl (order_error e c))
     | Inr (next_pool, next_bundles, next_funding, rewards, miner_out) \<Rightarrow> do {
         pool_cand \<leftarrow> pool_into_candidate E next_pool (ctx_height ctx);
         funding_cands \<leftarrow> (case next_funding of Some nf \<Rightarrow> map_option (\<lambda>x. [x]) (funding_proto_into_candidate E nf (ctx_height ctx))
                          | None \<Rightarrow> Some []);
         bundle_cands \<leftarrow> those (map (\<lambda>b. bundle_into_candidate E b (ctx_height ctx)) next_bundles);
         reward_cands \<leftarrow> those (map (\<lambda>r. reward_into_candidate E r (ctx_height ctx)) rewards);
         miner_cand \<leftarrow> miner_into_candidate E miner_out (ctx_height ctx);
         outputs \<leftarrow> tx_io_vec E ([pool_cand] @ funding_cands @ bundle_cands @ reward_cands @ [miner_cand]);
         let num_bundles = length bundles;
         first_bundle_out_ix \<leftarrow> find_position (\<lambda>o'. bx_tree o' = BUNDLE_VALIDATOR E) outputs;
         inputs \<leftarrow> tx_io_vec E (map (\<lambda>bx. (bx, [])) (pool_in # map as_bx (funding # fundings)) @
                    map (\<lambda>(i, b). (as_bx b, compound_context first_bundle_out_ix num_bundles i)) (enumerate 0 bundles));
         let tx = \<lparr> tc_inputs = inputs, tc_data_inputs = None, tc_outputs = outputs \<rparr>;
         let outs = tx_outputs (into_tx_without_proofs E tx);
         pool_out \<leftarrow> nth_opt outs 0;
         let bun_init_ix = (if next_funding \<noteq> None then 2 else 1);
         let bundle_outs = take (length next_bundles) (drop bun_init_ix outs);
         let bundles_as_box = map (\<lambda>(bn, out). Predicted (AsBox out (bn \<lparr> sb_state_id := box_id out \<rparr>))) (zip next_bundles bundle_outs);
         next_funding_as_box \<leftarrow> (case next_funding of
             Some nf \<Rightarrow> do { out \<leftarrow> nth_opt outs 1; Some (Some (Predicted (AsBox out (funding_finalize nf (box_id out))))) }
           | None \<Rightarrow> Some None);
         Some (Inr (tx, Predicted (AsBox pool_out next_pool), (bundles_as_box, next_funding_as_box))) }) })"

section \<open>Deposit\<close>

definition deposit_try_run ::
  "ergo_lib \<Rightarrow> deposit as_box \<Rightarrow> pool as_box \<Rightarrow> token_details \<Rightarrow> execution_context
   \<Rightarrow> (deposit as_box run_order_error + staking_bundle as_box predicted run_result) panics" where
  "deposit_try_run E ord pool_box td ctx = (case pool_box of AsBox pool_in p \<Rightarrow> do {
     r \<leftarrow> apply_deposit p (as_val ord) td ctx;
     (case r of
       Inl e \<Rightarrow> Some (Inl (order_error e ord))
     | Inr (next_pool, bundle_proto, user_out, executor_out, miner_out) \<Rightarrow> do {
         inputs \<leftarrow> tx_io_vec E (map (\<lambda>bx. (bx, [])) [pool_in, as_bx ord]);
         pool_cand \<leftarrow> pool_into_candidate E next_pool (ctx_height ctx);
         user_cand \<leftarrow> deposit_out_into_candidate E user_out (ctx_height ctx);
         bundle_cand \<leftarrow> bundle_proto_into_candidate E bundle_proto (ctx_height ctx);
         executor_cand \<leftarrow> executor_into_candidate E executor_out (ctx_height ctx);
         miner_cand \<leftarrow> miner_into_candidate E miner_out (ctx_height ctx);
         outputs \<leftarrow> tx_io_vec E [pool_cand, user_cand, bundle_cand, executor_cand, miner_cand];
         let tx = \<lparr> tc_inputs = inputs, tc_data_inputs = None, tc_outputs = outputs \<rparr>;
         let outs = tx_outputs (into_tx_without_proofs E tx);
         pool_out \<leftarrow> nth_opt outs 0;
         bundle_box \<leftarrow> nth_opt outs 2;
         Some (Inr (tx, Predicted (AsBox pool_out next_pool),
                    Predicted (AsBox bundle_box (bundle_finalize bundle_proto (box_id bundle_box))))) }) })"

section \<open>Redeem\<close>

definition redeem_try_run ::
  "ergo_lib \<Rightarrow> redeem as_box \<Rightarrow> pool as_box \<Rightarrow> staking_bundle as_box \<Rightarrow> execution_context
   \<Rightarrow> (redeem as_box run_order_error + unit run_result) panics" where
  "redeem_try_run E ord pool_box bundle_box ctx = (case pool_box of AsBox pool_in p \<Rightarrow> do {
     r \<leftarrow> apply_redeem p (as_val ord) (as_val bundle_box) ctx;
     (case r of
       Inl e \<Rightarrow> Some (Inl (order_error e ord))
     | Inr (next_pool, user_out, executor_out, miner_out) \<Rightarrow> do {
         inputs \<leftarrow> tx_io_vec E (map (\<lambda>bx. (bx, [])) [pool_in, as_bx bundle_box, as_bx ord]);
         pool_cand \<leftarrow> pool_into_candidate E next_pool (ctx_height ctx);
         user_cand \<leftarrow> redeem_out_into_candidate E user_out (ctx_height ctx);
         executor_cand \<leftarrow> executor_into_candidate E executor_out (ctx_height ctx);
         miner_cand \<leftarrow> miner_into_candidate E miner_out (ctx_height ctx);
         outputs \<leftarrow> tx_io_vec E [pool_cand, user_cand, executor_cand, miner_cand];
         let tx = \<lparr> tc_inputs = inputs, tc_data_inputs = None, tc_outputs = outputs \<rparr>;
         pool_out \<leftarrow> nth_opt (tx_outputs (into_tx_without_proofs E tx)) 0;
         Some (Inr (tx, Predicted (AsBox pool_out next_pool), ())) }) })"

section \<open>Laws\<close>

lemma find_position_append:
  "find_position P (xs @ ys) = (case find_position P xs of Some i \<Rightarrow> Some i | None \<Rightarrow> map_option ((+) (length xs)) (find_position P ys))"
  by (cases "find_position P ys"; induction xs) (auto split: option.splits)

lemma find_position_None: "find_position P xs = None \<longleftrightarrow> (\<forall>x\<in>set xs. \<not> P x)"
  by (induction xs) auto

lemma nth_opt_Some: "nth_opt xs i = Some x \<longleftrightarrow> i < length xs \<and> xs ! i = x"
  by (auto simp: nth_opt_def)

lemma into_tx_output_opt:
  "nth_opt (tx_outputs (into_tx_without_proofs E tc)) i = Some b \<Longrightarrow>
   i < length (tc_outputs tc) \<and> b = box_of_candidate (tc_outputs tc ! i) (box_id b)"
  using into_tx_output [of i tc E] by (auto simp: nth_opt_Some)

lemma deposit_try_run_InrD:
  assumes "deposit_try_run E (AsBox ob d) (AsBox pb p) td ctx = Some (Inr (tx, Predicted (AsBox pb' p'), Predicted (AsBox bb b)))"
  obtains bp u e m pc uc bc ec mc where "apply_deposit p d td ctx = Some (Inr (p', bp, u, e, m))"
    "pool_into_candidate E p' (ctx_height ctx) = Some pc" "deposit_out_into_candidate E u (ctx_height ctx) = Some uc"
    "bundle_proto_into_candidate E bp (ctx_height ctx) = Some bc" "executor_into_candidate E e (ctx_height ctx) = Some ec"
    "miner_into_candidate E m (ctx_height ctx) = Some mc" "tc_outputs tx = [pc, uc, bc, ec, mc]"
    "tc_inputs tx = [(pb, []), (ob, [])]" "b = bundle_finalize bp (box_id bb)"
    "pb' = box_of_candidate pc (box_id pb')" "bb = box_of_candidate bc (box_id bb)"
proof -
  obtain r where r: "apply_deposit p d td ctx = Some r"
    using assms by (auto simp: deposit_try_run_def bind_eq_Some_conv)
  then obtain p1 bp u e m where ok: "apply_deposit p d td ctx = Some (Inr (p1, bp, u, e, m))"
    using assms by (cases r) (auto simp: deposit_try_run_def)
  show ?thesis
    using assms unfolding deposit_try_run_def
    by (auto simp: ok bind_eq_Some_conv tx_io_vec_Some Let_def dest!: into_tx_output_opt intro: that)
qed

lemma redeem_try_run_InrD:
  assumes "redeem_try_run E (AsBox ob r) (AsBox pb p) (AsBox bb b) ctx = Some (Inr (tx, Predicted (AsBox pb' p'), x))"
  obtains u e m pc uc ec mc where "apply_redeem p r b ctx = Some (Inr (p', u, e, m))"
    "pool_into_candidate E p' (ctx_height ctx) = Some pc" "redeem_out_into_candidate E u (ctx_height ctx) = Some uc"
    "executor_into_candidate E e (ctx_height ctx) = Some ec" "miner_into_candidate E m (ctx_height ctx) = Some mc"
    "tc_outputs tx = [pc, uc, ec, mc]" "tc_inputs tx = [(pb, []), (bb, []), (ob, [])]"
    "pb' = box_of_candidate pc (box_id pb')"
proof -
  obtain res where res: "apply_redeem p r b ctx = Some res"
    using assms by (auto simp: redeem_try_run_def bind_eq_Some_conv)
  then obtain p1 u e m where ok: "apply_redeem p r b ctx = Some (Inr (p1, u, e, m))"
    using assms by (cases res) (auto simp: redeem_try_run_def)
  show ?thesis
    using assms unfolding redeem_try_run_def
    by (auto simp: ok bind_eq_Some_conv tx_io_vec_Some Let_def dest!: into_tx_output_opt intro: that)
qed

definition funding_candidates ::
  "ergo_lib \<Rightarrow> distribution_funding_proto option \<Rightarrow> u32 \<Rightarrow> ergo_box_candidate list panics" where
  "funding_candidates E nf h = (case nf of
     Some f \<Rightarrow> map_option (\<lambda>x. [x]) (funding_proto_into_candidate E f h) | None \<Rightarrow> Some [])"

lemma compound_try_run_InrD:
  assumes "compound_try_run E c (AsBox pb p) (bundles, f, fs) ctx = Some (Inr (tx, Predicted (AsBox pb' p'), (bs', nfb)))"
  obtains nb nf rw mo pc fc bc rc mc ix where
    "distribute_rewards p (map as_val bundles) (as_val f) (map as_val fs) = Some (Inr (p', nb, nf, rw, mo))"
    "pool_into_candidate E p' (ctx_height ctx) = Some pc"
    "funding_candidates E nf (ctx_height ctx) = Some fc"
    "map (\<lambda>b. bundle_into_candidate E b (ctx_height ctx)) nb = map Some bc"
    "map (\<lambda>r. reward_into_candidate E r (ctx_height ctx)) rw = map Some rc"
    "miner_into_candidate E mo (ctx_height ctx) = Some mc"
    "tc_outputs tx = [pc] @ fc @ bc @ rc @ [mc]"
    "find_position (\<lambda>o'. bx_tree o' = BUNDLE_VALIDATOR E) ([pc] @ fc @ bc @ rc @ [mc]) = Some ix"
    "tc_inputs tx = map (\<lambda>bx. (bx, [])) (pb # map as_bx (f # fs)) @
        map (\<lambda>(i, b). (as_bx b, compound_context ix (length bundles) i)) (enumerate 0 bundles)"
    "bs' = map (\<lambda>(bn, out). Predicted (AsBox out (bn \<lparr> sb_state_id := box_id out \<rparr>)))
        (zip nb (take (length nb) (drop (Suc (length fc)) (tx_outputs (into_tx_without_proofs E tx)))))"
    "pb' = box_of_candidate pc (box_id pb')"
proof -
  obtain res where res: "distribute_rewards p (map as_val bundles) (as_val f) (map as_val fs) = Some res"
    using assms by (auto simp: compound_try_run_def bind_eq_Some_conv)
  then obtain p1 nb nf rw mo where ok:
    "distribute_rewards p (map as_val bundles) (as_val f) (map as_val fs) = Some (Inr (p1, nb, nf, rw, mo))"
    using assms by (cases res) (auto simp: compound_try_run_def)
  have fc: "funding_candidates E None h = Some l \<longleftrightarrow> l = []"
    "funding_candidates E (Some g) h = Some l \<longleftrightarrow> (\<exists>x. funding_proto_into_candidate E g h = Some x \<and> l = [x])" for g h l
    by (auto simp: funding_candidates_def)
  show ?thesis
    using assms unfolding compound_try_run_def funding_candidates_def [symmetric]
    by (cases nf; auto simp: ok bind_eq_Some_conv tx_io_vec_Some Let_def those_eq_Some fc numeral_2_eq_2
        simp del: find_position.simps dest!: into_tx_output_opt intro!: that)
qed

lemma into_candidate_values:
  "miner_into_candidate E mo h = Some c \<Longrightarrow> bx_value c = mo_erg_value mo"
  "executor_into_candidate E eo h = Some c \<Longrightarrow> bx_value c = eo_erg_value eo"
  "deposit_out_into_candidate E u h = Some c \<Longrightarrow> bx_value c = do_erg_value u"
  "redeem_out_into_candidate E ru h = Some c \<Longrightarrow> bx_value c = rdo_erg_value ru"
  "pool_into_candidate E p h = Some c \<Longrightarrow> bx_value c = pl_erg_value p"
  "bundle_proto_into_candidate E bp h = Some c \<Longrightarrow> bx_value c = sbp_erg_value bp"
  by (auto simp: miner_into_candidate_def executor_into_candidate_def deposit_out_into_candidate_def
      redeem_out_into_candidate_def bind_eq_Some_conv box_value_of_Some pool_into_candidate_Some bundle_proto_into_candidate_Some)

definition erg_in :: "transaction_candidate \<Rightarrow> nat" where
  "erg_in tx = sum_list (map (\<lambda>(bx, ext). unat (bx_value bx)) (tc_inputs tx))"

definition erg_out :: "transaction_candidate \<Rightarrow> nat" where
  "erg_out tx = sum_list (map (\<lambda>c. unat (bx_value c)) (tc_outputs tx))"


lemma bundle_into_candidate_tree:
  "bundle_into_candidate E b h = Some c \<Longrightarrow> bx_tree c = BUNDLE_VALIDATOR E"
  by (simp add: bundle_into_candidate_def bundle_proto_into_candidate_Some)

lemma reward_into_candidate_tree:
  "reward_into_candidate E r h = Some c \<Longrightarrow> bx_tree c = prop_tree E (ro_redeemer_prop r)"
  by (auto simp: reward_into_candidate_def bind_eq_Some_conv)

lemma funding_candidates_tree:
  "funding_candidates E nf h = Some fc \<Longrightarrow> c \<in> set fc \<Longrightarrow> \<exists>g. nf = Some g \<and> bx_tree c = dfp_prop g"
  by (auto simp: funding_candidates_def funding_proto_into_candidate_def bind_eq_Some_conv split: option.splits)

lemma map_Some_nth: "map f xs = map Some ys \<Longrightarrow> i < length xs \<Longrightarrow> f (xs ! i) = Some (ys ! i)"
  by (metis length_map nth_map)

lemma find_first_bundle:
  assumes "bx_tree pc \<noteq> V" "\<forall>c\<in>set fc. bx_tree c \<noteq> V" "bc \<noteq> []" "bx_tree (hd bc) = V"
  shows "find_position (\<lambda>o'. bx_tree o' = V) ([pc] @ fc @ bc @ rest) = Some (Suc (length fc))"
proof -
  have "find_position (\<lambda>o'. bx_tree o' = V) fc = None" using assms(2) by (simp add: find_position_None)
  moreover have "find_position (\<lambda>o'. bx_tree o' = V) (bc @ rest) = Some 0" using assms(3,4) by (cases bc) auto
  ultimately show ?thesis
    using find_position_append [of "\<lambda>o'. bx_tree o' = V" fc "bc @ rest"] assms(1) by simp
qed

text \<open>The transaction of a compounding, with the index of the first bundle among the outputs resolved.\<close>

lemma compound_layout:
  assumes "compound_try_run E c (AsBox pb p) (bundles, f, fs) ctx = Some (Inr (tx, Predicted (AsBox pb' p'), (bs', nfb)))"
    and "POOL_VALIDATOR E \<noteq> BUNDLE_VALIDATOR E" "df_prop (as_val f) \<noteq> BUNDLE_VALIDATOR E" "bundles \<noteq> []"
  obtains er np cost nb rw pc fc bc rc mc where "distribute_loop p er (map as_val bundles) p 0 = Some (Inr (np, cost, nb, rw))"
    "map (\<lambda>b. bundle_into_candidate E b (ctx_height ctx)) nb = map Some bc"
    "map (\<lambda>r. reward_into_candidate E r (ctx_height ctx)) rw = map Some rc"
    "length bc = length bundles" "tc_outputs tx = [pc] @ fc @ bc @ rc @ [mc]"
    "tc_inputs tx = map (\<lambda>bx. (bx, [])) (pb # map as_bx (f # fs)) @
        map (\<lambda>(i, b). (as_bx b, compound_context (Suc (length fc)) (length bundles) i)) (enumerate 0 bundles)"
    "bs' = map (\<lambda>(bn, out). Predicted (AsBox out (bn \<lparr> sb_state_id := box_id out \<rparr>)))
        (zip nb (take (length nb) (drop (Suc (length fc)) (tx_outputs (into_tx_without_proofs E tx)))))"
proof -
  from assms(1) obtain nb nf rw mo pc fc bc rc mc ix where
    dr: "distribute_rewards p (map as_val bundles) (as_val f) (map as_val fs) = Some (Inr (p', nb, nf, rw, mo))"
    and pc: "pool_into_candidate E p' (ctx_height ctx) = Some pc"
    and fc: "funding_candidates E nf (ctx_height ctx) = Some fc"
    and bc: "map (\<lambda>b. bundle_into_candidate E b (ctx_height ctx)) nb = map Some bc"
    and rc: "map (\<lambda>r. reward_into_candidate E r (ctx_height ctx)) rw = map Some rc"
    and outs: "tc_outputs tx = [pc] @ fc @ bc @ rc @ [mc]"
    and ix: "find_position (\<lambda>o'. bx_tree o' = BUNDLE_VALIDATOR E) ([pc] @ fc @ bc @ rc @ [mc]) = Some ix"
    and ins: "tc_inputs tx = map (\<lambda>bx. (bx, [])) (pb # map as_bx (f # fs)) @
        map (\<lambda>(i, b). (as_bx b, compound_context ix (length bundles) i)) (enumerate 0 bundles)"
    and bs': "bs' = map (\<lambda>(bn, out). Predicted (AsBox out (bn \<lparr> sb_state_id := box_id out \<rparr>)))
        (zip nb (take (length nb) (drop (Suc (length fc)) (tx_outputs (into_tx_without_proofs E tx)))))"
    by (rule compound_try_run_InrD)
  from dr obtain er np cost where lp: "distribute_loop p er (map as_val bundles) p 0 = Some (Inr (np, cost, nb, rw))"
    and nf: "nf = Some g \<Longrightarrow> dfp_prop g = df_prop (as_val f)" for g
    by (rule distribute_rewards_InrD) (auto split: if_splits)
  have len: "length bc = length bundles" using distribute_loop_InrD [OF lp] map_eq_imp_length_eq [OF bc] by simp
  have "bx_tree pc \<noteq> BUNDLE_VALIDATOR E" using pool_into_candidate_Some(2) [OF pc] assms(2) by simp
  moreover have "\<forall>c\<in>set fc. bx_tree c \<noteq> BUNDLE_VALIDATOR E" using funding_candidates_tree [OF fc] nf assms(3) by metis
  moreover have bn: "bc \<noteq> []" using len assms(4) by auto
  moreover have "bx_tree (hd bc) = BUNDLE_VALIDATOR E"
    using map_Some_nth [OF bc, of 0] bundle_into_candidate_tree bn map_eq_imp_length_eq [OF bc] by (metis hd_conv_nth length_greater_0_conv)
  ultimately have "ix = Suc (length fc)" using find_first_bundle ix by fastforce
  then show ?thesis using that [OF lp bc rc len outs _ bs'] ins by blast
qed

text \<open>C23: in the transaction of a compound order the inputs are the pool, the funding boxes and the bundles, in
  this order, and the two context variables of every bundle point to the output with its
  successor, which is the bundle predicted for it, and to the reward output of its owner.\<close>

theorem compound_context_points:
  assumes "compound_try_run E c (AsBox pb p) (bundles, f, fs) ctx = Some (Inr (tx, Predicted (AsBox pb' p'), (bs', nfb)))"
    and "POOL_VALIDATOR E \<noteq> BUNDLE_VALIDATOR E" "df_prop (as_val f) \<noteq> BUNDLE_VALIDATOR E" "i < length bundles"
  shows "\<exists>s r b'. tc_inputs tx ! (length fs + 2 + i) =
        (as_bx (bundles ! i), [(0, ConstInt (word_of_nat r)), (1, ConstInt (word_of_nat s))])
    \<and> bx_tree (tc_outputs tx ! s) = BUNDLE_VALIDATOR E
    \<and> bs' ! i = Predicted (AsBox (tx_outputs (into_tx_without_proofs E tx) ! s) b')
    \<and> bundle_id b' = bundle_id (as_val (bundles ! i))
    \<and> bx_tree (tc_outputs tx ! r) = prop_tree E (sb_redeemer_prop (as_val (bundles ! i)))"
proof -
  have ne: "bundles \<noteq> []" using assms(4) by auto
  obtain er np cost nb rw pc fc bc rc mc where lp: "distribute_loop p er (map as_val bundles) p 0 = Some (Inr (np, cost, nb, rw))"
    and bc: "map (\<lambda>b. bundle_into_candidate E b (ctx_height ctx)) nb = map Some bc"
    and rc: "map (\<lambda>r. reward_into_candidate E r (ctx_height ctx)) rw = map Some rc"
    and lenc: "length bc = length bundles" and outs: "tc_outputs tx = [pc] @ fc @ bc @ rc @ [mc]"
    and ins: "tc_inputs tx = map (\<lambda>bx. (bx, [])) (pb # map as_bx (f # fs)) @
        map (\<lambda>(i, b). (as_bx b, compound_context (Suc (length fc)) (length bundles) i)) (enumerate 0 bundles)"
    and bs': "bs' = map (\<lambda>(bn, out). Predicted (AsBox out (bn \<lparr> sb_state_id := box_id out \<rparr>)))
        (zip nb (take (length nb) (drop (Suc (length fc)) (tx_outputs (into_tx_without_proofs E tx)))))"
    using compound_layout [OF assms(1-3) ne] .
  note L = distribute_loop_InrD [OF lp]
  have len: "length nb = length bundles" "length rw = length bundles" "length rc = length bundles"
    using L map_eq_imp_length_eq [OF rc] by simp_all
  have comp: "compounded p er (as_val (bundles ! i)) (nb ! i, rw ! i)"
    using L len assms(4) by (auto simp: list_all2_conv_all_nth)
  let ?s = "Suc (length fc) + i" and ?r = "Suc (length fc) + i + length bundles"
  have os: "tc_outputs tx ! ?s = bc ! i" "tc_outputs tx ! ?r = rc ! i"
    using assms(4) lenc len by (simp_all add: outs nth_append)
  have "bs' ! i = Predicted (AsBox (tx_outputs (into_tx_without_proofs E tx) ! ?s)
      ((nb ! i) \<lparr> sb_state_id := box_id (tx_outputs (into_tx_without_proofs E tx) ! ?s) \<rparr>))"
    using assms(4) len lenc by (simp add: bs' outs)
  moreover have "bx_tree (bc ! i) = BUNDLE_VALIDATOR E"
    using map_Some_nth [OF bc] assms(4) len bundle_into_candidate_tree by metis
  moreover have "bx_tree (rc ! i) = prop_tree E (sb_redeemer_prop (as_val (bundles ! i)))"
    using map_Some_nth [OF rc, of i] reward_into_candidate_tree len assms(4) comp by (fastforce simp: compounded_def)
  moreover have "bundle_id ((nb ! i) \<lparr> sb_state_id := x \<rparr>) = bundle_id (as_val (bundles ! i))" for x
    using comp by (auto simp: compounded_def bundle_id_def)
  moreover have "tc_inputs tx ! (length fs + 2 + i) =
      (as_bx (bundles ! i), [(0, ConstInt (word_of_nat ?r)), (1, ConstInt (word_of_nat ?s))])"
    using assms(4) by (simp add: ins nth_append nth_enumerate_eq compound_context_def)
  ultimately show ?thesis
    by (intro exI [of _ ?s] exI [of _ ?r] exI [of _ "(nb ! i) \<lparr> sb_state_id := box_id (tx_outputs (into_tx_without_proofs E tx) ! ?s) \<rparr>"])
      (simp only: os simp_thms)
qed

section \<open>Samples\<close>

lemma sample_validators:
  "POOL_VALIDATOR sample_lib = [0x19, 0xc0, 6, 0x28]" "BUNDLE_VALIDATOR sample_lib = [0x19, 0xbc, 4, 0x21]"
  by (simp_all add: POOL_VALIDATOR_def BUNDLE_VALIDATOR_def static_tree_def static_bytes_def sample_lib_def
      POOL_VALIDATOR_BYTES_def BUNDLE_VALIDATOR_BYTES_def Let_def)

definition sample_box :: "u64 \<Rightarrow> ergo_box" where
  "sample_box v = \<lparr> bx_value = v, bx_tree = [], bx_tokens = None, bx_regs = [], bx_height = 1, box_id = 99 \<rparr>"

definition sample_compound :: compound where
  "sample_compound = \<lparr> co_pool_id = 1, co_epoch_ix = 1, co_queue_ix = 0, co_stakers = [11] \<rparr>"

lemma sample_lib_fields [simp]:
  "token_amount_ok sample_lib = positive_long" "box_value_ok sample_lib = positive_long"
  "tx_io_max sample_lib = 32767" "prop_tree sample_lib = (\<lambda>p. p)"
  by (simp_all add: sample_lib_def)

lemma rewarded_pool_cand: "\<exists>c. pool_into_candidate sample_lib rewarded_pool h = Some c \<and> bx_tree c = POOL_VALIDATOR sample_lib"
  by (simp add: pool_into_candidate_def token_try_from_def box_value_of_def positive_long_def pool_nft_def UNIT_VALUE_def
      rewarded_pool_def staked_pool_def sample_pool_def)

lemma rewarded_bundle_cand: "\<exists>c. bundle_into_candidate sample_lib rewarded_bundle h = Some c \<and> bx_tree c = BUNDLE_VALIDATOR sample_lib"
  by (simp add: bundle_into_candidate_def bundle_proto_into_candidate_def bundle_to_proto_def token_try_from_def box_value_of_def
      positive_long_def BUNDLE_KEY_AMOUNT_def rewarded_bundle_def sample_bundle_def)

lemma sample_compound_run:
  "\<exists>tx pb' bs' nfb. compound_try_run sample_lib sample_compound (AsBox (sample_box 1) staked_pool)
     ([AsBox (sample_box 2) sample_bundle], AsBox (sample_box 3) sample_funding, []) sample_ctx
     = Some (Inr (tx, Predicted (AsBox pb' rewarded_pool), (bs', nfb)))"
proof -
  obtain pc bc where c: "pool_into_candidate sample_lib rewarded_pool (ctx_height sample_ctx) = Some pc"
    "bx_tree pc = POOL_VALIDATOR sample_lib"
    "bundle_into_candidate sample_lib rewarded_bundle (ctx_height sample_ctx) = Some bc" "bx_tree bc = BUNDLE_VALIDATOR sample_lib"
    using rewarded_pool_cand rewarded_bundle_cand by metis
  show ?thesis
    by (simp add: compound_try_run_def sample_distribution c funding_proto_into_candidate_def reward_into_candidate_def
        miner_into_candidate_def box_value_of_def token_try_from_def positive_long_def sample_reward_def erg_constants
        tx_io_vec_def sample_validators Let_def into_tx_without_proofs_def transaction_new_def)
qed

theorem compound_context_points_witness:
  "\<exists>tx bs' s r b'. tc_inputs tx ! 2 = (sample_box 2, [(0, ConstInt (word_of_nat r)), (1, ConstInt (word_of_nat s))])
     \<and> bs' ! 0 = Predicted (AsBox (tx_outputs (into_tx_without_proofs sample_lib tx) ! s) b') \<and> bundle_id b' = 11"
proof -
  obtain tx pb' bs' nfb where run: "compound_try_run sample_lib sample_compound (AsBox (sample_box 1) staked_pool)
     ([AsBox (sample_box 2) sample_bundle], AsBox (sample_box 3) sample_funding, []) sample_ctx
     = Some (Inr (tx, Predicted (AsBox pb' rewarded_pool), (bs', nfb)))"
    using sample_compound_run by blast
  have "df_prop (as_val (AsBox (sample_box 3) sample_funding)) \<noteq> BUNDLE_VALIDATOR sample_lib"
    by (simp add: sample_funding_def sample_validators)
  from compound_context_points [OF run _ this, of 0] obtain s r b' where
    "tc_inputs tx ! 2 = (sample_box 2, [(0, ConstInt (word_of_nat r)), (1, ConstInt (word_of_nat s))])"
    "bs' ! 0 = Predicted (AsBox (tx_outputs (into_tx_without_proofs sample_lib tx) ! s) b')"
    "bundle_id b' = bundle_id sample_bundle"
    by (auto simp: sample_validators numeral_2_eq_2)
  then show ?thesis by (intro exI conjI) (simp_all add: sample_bundle_def bundle_id_def)
qed

lemma sample_deposit_run:
  "\<exists>tx pb' p' bb b. deposit_try_run sample_lib (AsBox (sample_box 100000000000) sample_deposit) (AsBox (sample_box 100000000000) sample_pool)
     sample_td sample_ctx = Some (Inr (tx, Predicted (AsBox pb' p'), Predicted (AsBox bb b)))"
  unfolding deposit_try_run_def apply_deposit_def
  by (simp add: sample_ctx_def sample_deposit_def safe_sub_def saturating_sub_def erg_constants)
     (simp add: tx_io_vec_def pool_into_candidate_def deposit_out_into_candidate_def bundle_proto_into_candidate_def
        executor_into_candidate_def miner_into_candidate_def token_try_from_def box_value_of_def positive_long_def
        sample_pool_def pool_nft_def UNIT_VALUE_def BUNDLE_KEY_AMOUNT_def BUNDLE_KEY_AMOUNT_USER_def MAX_VALUE_def
        Let_def into_tx_without_proofs_def transaction_new_def)


end
