(* ===== verification/LM_System.thy ===== *)
theory LM_System
  imports LM_Order "HOL-Library.Multiset"
begin

text \<open>
  The pool with its outstanding bundles as a state machine: every step is the successful run of a
  deposit, redeem or compound order, as \<open>LM_Order\<close> builds it.  The interface to the chain
  library is the locale \<open>ergo_amounts\<close>: a token amount is a positive signed 64-bit number.
  The invariant \<open>backed\<close> says that the liquidity of the pool is the stake of the outstanding
  bundles and that virtual liquidity and temporal tokens are split between the reserves of the
  pool and the bundles.  It is proved for every reachable state by rule induction, and with it
  that a distribution among up-to-date bundles stays within the share of its epoch.
\<close>

record lm_state =
  lm_pool :: pool
  lm_bundles :: "staking_bundle multiset"

inductive lm_step :: "ergo_lib \<Rightarrow> lm_state \<Rightarrow> lm_state \<Rightarrow> bool" for E where
  step_deposit:
    "deposit_try_run E (AsBox ob d) (AsBox pb p) td ctx = Some (Inr (tx, Predicted (AsBox pb' p'), Predicted (AsBox bb b))) \<Longrightarrow>
     unat (dep_expected_num_epochs d) * unat (amount (dep_lq d)) < 2 ^ 64 \<Longrightarrow>
     lm_step E \<lparr> lm_pool = p, lm_bundles = M \<rparr> \<lparr> lm_pool = p', lm_bundles = add_mset b M \<rparr>"
| step_redeem:
    "redeem_try_run E (AsBox ob r) (AsBox pb p) (AsBox bb b) ctx = Some (Inr (tx, Predicted (AsBox pb' p'), ())) \<Longrightarrow>
     lm_step E \<lparr> lm_pool = p, lm_bundles = add_mset b M \<rparr> \<lparr> lm_pool = p', lm_bundles = M \<rparr>"
| step_compound:
    "compound_try_run E c (AsBox pb p) (bundles, f, fs) ctx = Some (Inr (tx, Predicted (AsBox pb' p'), (bs', nfb))) \<Longrightarrow>
     lm_step E \<lparr> lm_pool = p, lm_bundles = mset (map as_val bundles) + M \<rparr>
               \<lparr> lm_pool = p', lm_bundles = mset (map (as_val \<circ> the_predicted) bs') + M \<rparr>"

text \<open>The state right after the deployment of a pool: one bundle holds the initial stake.\<close>

definition lm_init :: "lm_state \<Rightarrow> bool" where
  "lm_init s \<longleftrightarrow> (\<exists>b n. lm_bundles s = {#b#} \<and> amount (sb_vlq b) \<noteq> 0 \<and>
     n \<le> unat (epoch_num (conf (lm_pool s))) \<and>
     amount (reserves_lq (lm_pool s)) = amount (sb_vlq b) \<and>
     unat (tmp_of b) = n * unat (amount (sb_vlq b)) \<and>
     unat (amount (reserves_vlq (lm_pool s))) + unat (amount (sb_vlq b)) = 2 ^ 63 - 1 \<and>
     unat (amount (reserves_tmp (lm_pool s))) + unat (tmp_of b) = 2 ^ 63 - 1)"

inductive lm_reach :: "ergo_lib \<Rightarrow> lm_state \<Rightarrow> bool" for E where
  reach_init: "lm_init s \<Longrightarrow> lm_reach E s"
| reach_step: "lm_reach E s \<Longrightarrow> lm_step E s s' \<Longrightarrow> lm_reach E s'"

inductive_cases lm_stepE: "lm_step E s s'"

definition stake :: "staking_bundle \<Rightarrow> nat" where "stake b = unat (amount (sb_vlq b))"
definition tmp_nat :: "staking_bundle \<Rightarrow> nat" where "tmp_nat b = unat (tmp_of b)"

definition bundle_ok :: "nat \<Rightarrow> staking_bundle \<Rightarrow> bool" where
  "bundle_ok n b \<longleftrightarrow> 0 < stake b \<and> (\<exists>k\<le>n. tmp_nat b = k * stake b)"

definition backed :: "lm_state \<Rightarrow> bool" where
  "backed s \<longleftrightarrow> (let p = lm_pool s; M = lm_bundles s in
     unat (amount (reserves_lq p)) = (\<Sum>b\<in>#M. stake b) \<and>
     unat (amount (reserves_vlq p)) + (\<Sum>b\<in>#M. stake b) = 2 ^ 63 - 1 \<and>
     unat (amount (reserves_tmp p)) + (\<Sum>b\<in>#M. tmp_nat b) = 2 ^ 63 - 1 \<and>
     (\<forall>b\<in>#M. bundle_ok (unat (epoch_num (conf p))) b))"

text \<open>The parts of a compounding: the round over the bundles and the bundles with their new boxes.\<close>

definition restate :: "staking_bundle list \<Rightarrow> bundle_state_id list \<Rightarrow> staking_bundle list" where
  "restate = map2 (\<lambda>b i. b \<lparr> sb_state_id := i \<rparr>)"

lemma restate_map: "length ids = length bs \<Longrightarrow> (\<And>b i. f (b \<lparr> sb_state_id := i \<rparr>) = f b) \<Longrightarrow> map f (restate bs ids) = map f bs"
  by (induction bs ids rule: list_induct2') (simp_all add: restate_def)

lemma restate_all: "length ids = length bs \<Longrightarrow> (\<And>b i. P (b \<lparr> sb_state_id := i \<rparr>) = P b) \<Longrightarrow> list_all P (restate bs ids) = list_all P bs"
  by (induction bs ids rule: list_induct2') (simp_all add: restate_def)

lemma compound_parts:
  assumes "compound_try_run E c (AsBox pb p) (bundles, f, fs) ctx = Some (Inr (tx, Predicted (AsBox pb' p'), (bs', nfb)))"
  obtains er np cost ix nb rw ids where "distribute_loop p er (map as_val bundles) p 0 = Some (Inr (np, cost, nb, rw))"
    "p' = np \<lparr> pl_epoch_ix := Some ix \<rparr>" "length ids = length nb" "map (as_val \<circ> the_predicted) bs' = restate nb ids"
proof -
  from assms obtain nb nf rw mo fc pc bc rc mc where
    dr: "distribute_rewards p (map as_val bundles) (as_val f) (map as_val fs) = Some (Inr (p', nb, nf, rw, mo))"
    and bc: "map (\<lambda>b. bundle_into_candidate E b (ctx_height ctx)) nb = map Some bc"
    and outs: "tc_outputs tx = [pc] @ fc @ bc @ rc @ [mc]"
    and bs': "bs' = map (\<lambda>(bn, out). Predicted (AsBox out (bn \<lparr> sb_state_id := box_id out \<rparr>)))
        (zip nb (take (length nb) (drop (Suc (length fc)) (tx_outputs (into_tx_without_proofs E tx)))))"
    by (rule compound_try_run_InrD)
  from dr obtain er np cost ix where lp: "distribute_loop p er (map as_val bundles) p 0 = Some (Inr (np, cost, nb, rw))"
    and p': "p' = np \<lparr> pl_epoch_ix := Some ix \<rparr>"
    by (rule distribute_rewards_InrD) blast
  let ?outs = "take (length nb) (drop (Suc (length fc)) (tx_outputs (into_tx_without_proofs E tx)))"
  have "length nb = length bc" using map_eq_imp_length_eq [OF bc] .
  then have "length (map box_id ?outs) = length nb" by (simp add: outs)
  moreover have "map (as_val \<circ> the_predicted) bs' = restate nb (map box_id ?outs)"
    by (simp add: bs' restate_def zip_map2 comp_def case_prod_beta)
  ultimately show ?thesis by (rule that [OF lp p'])
qed

lemma restate_fields: "stake (b \<lparr> sb_state_id := i \<rparr>) = stake b" "tmp_nat (b \<lparr> sb_state_id := i \<rparr>) = tmp_nat b"
  "bundle_ok n (b \<lparr> sb_state_id := i \<rparr>) = bundle_ok n b"
  by (simp_all add: stake_def tmp_nat_def tmp_of_def bundle_ok_def)

text \<open>Temporal tokens moved between the reserves and bundles, without the wrap-around.\<close>

lemma amounts_returned:
  assumes "r' + sum_list (map tmp_of bs') = r + sum_list (map tmp_of bs)" "unat r + sum_list (map tmp_nat bs) < 2 ^ 64"
    and "sum_list (map tmp_nat bs') \<le> sum_list (map tmp_nat bs)"
  shows "unat r' + sum_list (map tmp_nat bs') = unat r + sum_list (map tmp_nat bs)"
proof -
  have sums: "unat (sum_list (map tmp_of xs)) = sum_list (map tmp_nat xs)" if "sum_list (map tmp_nat xs) < 2 ^ 64" for xs
    using unat_sum_list_exact [of "map tmp_of xs"] that by (simp add: tmp_nat_def [abs_def] comp_def)
  have "r' = (r + sum_list (map tmp_of bs)) - sum_list (map tmp_of bs')" using assms(1) by (simp add: eq_diff_eq)
  then show ?thesis
    using assms(2,3) sums [of bs] sums [of bs'] unat_add_u64 [of r "sum_list (map tmp_of bs)"] by (simp add: unat_sub_exact)
qed

locale ergo_amounts =
  fixes E :: ergo_lib
  assumes token_amount_range: "token_amount_ok E w \<Longrightarrow> 0 < unat w \<and> unat w < 2 ^ 63"
begin

lemma pool_amounts:
  assumes "pool_into_candidate E p h = Some c"
  shows "0 < unat (amount (reserves_vlq p)) \<and> unat (amount (reserves_vlq p)) < 2 ^ 63"
    "0 < unat (amount (reserves_tmp p)) \<and> unat (amount (reserves_tmp p)) < 2 ^ 63"
  using pool_into_candidate_Some(5) [OF assms] token_amount_range by auto

lemma bundle_proto_amounts:
  assumes "bundle_proto_into_candidate E b h = Some c"
  shows "0 < unat (amount (sbp_vlq b)) \<and> unat (amount (sbp_vlq b)) < 2 ^ 63"
    "sbp_tmp b = Some t \<Longrightarrow> unat (amount t) < 2 ^ 63"
proof -
  have "token_amount_ok E (amount (sbp_vlq b)) \<and> (\<forall>t. sbp_tmp b = Some t \<longrightarrow> token_amount_ok E (amount t))"
    using assms unfolding bundle_proto_into_candidate_def
    by (cases "sbp_tmp b"; auto simp: bind_eq_Some_conv token_try_from_Some if_Some_eq)
  then show "0 < unat (amount (sbp_vlq b)) \<and> unat (amount (sbp_vlq b)) < 2 ^ 63"
    "sbp_tmp b = Some t \<Longrightarrow> unat (amount t) < 2 ^ 63"
    using token_amount_range by blast+
qed

text \<open>A wrapped subtraction of two token amounts is not a token amount.\<close>

lemma sub_token_amount:
  fixes a x :: u64
  assumes "unat (a - x) < 2 ^ 63" "unat a < 2 ^ 63" "unat x < 2 ^ 63"
  shows "unat x \<le> unat a" and "unat (a - x) = unat a - unat x"
proof -
  show le: "unat x \<le> unat a"
  proof (rule ccontr)
    assume "\<not> unat x \<le> unat a"
    then have "unat (a - x) = 2 ^ 64 + unat a - unat x"
      by (simp add: unat_sub_if')
    then show False using assms by simp
  qed
  then show "unat (a - x) = unat a - unat x" by (rule unat_sub_exact)
qed

lemma backed_deposit:
  assumes "deposit_try_run E (AsBox ob d) (AsBox pb p) td ctx = Some (Inr (tx, Predicted (AsBox pb' p'), Predicted (AsBox bb b)))"
    and "unat (dep_expected_num_epochs d) * unat (amount (dep_lq d)) < 2 ^ 64"
    and "backed \<lparr> lm_pool = p, lm_bundles = M \<rparr>"
  shows "backed \<lparr> lm_pool = p', lm_bundles = add_mset b M \<rparr>"
proof -
  from assms(1) obtain bp u e m pc bc where run: "apply_deposit p d td ctx = Some (Inr (p', bp, u, e, m))"
    and pc: "pool_into_candidate E p' (ctx_height ctx) = Some pc"
    and bc: "bundle_proto_into_candidate E bp (ctx_height ctx) = Some bc"
    and b: "b = bundle_finalize bp (box_id bb)"
    by (rule deposit_try_run_InrD)
  from run obtain er where er: "num_epochs_remain p (ctx_height ctx) = Some er" "er = dep_expected_num_epochs d"
    and p': "p' = p \<lparr> reserves_lq := asset_add (reserves_lq p) (dep_lq d), reserves_vlq := asset_sub (reserves_vlq p) (sbp_vlq bp),
              reserves_tmp := asset_sub (reserves_tmp p) (the (sbp_tmp bp)) \<rparr>"
    and vlq: "sbp_vlq bp = typed_amount (asset_id (reserves_vlq p)) (amount (dep_lq d))"
    and tmp: "sbp_tmp bp = Some (typed_amount (asset_id (reserves_tmp p)) (ucast er * amount (dep_lq d)))"
    by (rule apply_deposit_InrD)
  let ?x = "amount (dep_lq d)" and ?t = "ucast er * amount (dep_lq d) :: u64"
  have "unat er \<le> unat (epoch_num (conf p))"
    using er(1) by (auto simp: num_epochs_remain_def bind_eq_Some_conv unat_saturating_sub)
  have st: "stake b = unat ?x" and tn: "tmp_nat b = unat ?t"
    by (simp_all add: stake_def tmp_nat_def tmp_of_def b bundle_finalize_def vlq tmp)
  have t: "unat ?t = unat er * unat ?x"
    using unat_mult_u64 [of "ucast er" ?x] assms(2) er(2) by (simp only: unat_u32_u64)
  have x: "0 < unat ?x" "unat ?x < 2 ^ 63" and t63: "unat ?t < 2 ^ 63"
    using bundle_proto_amounts [OF bc] tmp by (simp_all add: vlq)
  note B = assms(3) [unfolded backed_def Let_def, simplified]
  have v: "unat ?x \<le> unat (amount (reserves_vlq p))" "unat (amount (reserves_vlq p) - ?x) = unat (amount (reserves_vlq p)) - unat ?x"
    using sub_token_amount [of "amount (reserves_vlq p)" ?x] pool_amounts(1) [OF pc] x B by (simp_all add: p' vlq)
  have w: "unat ?t \<le> unat (amount (reserves_tmp p))" "unat (amount (reserves_tmp p) - ?t) = unat (amount (reserves_tmp p)) - unat ?t"
    using sub_token_amount [of "amount (reserves_tmp p)" ?t] pool_amounts(2) [OF pc] t63 B by (simp_all add: p' tmp)
  have l: "unat (amount (reserves_lq p) + ?x) = unat (amount (reserves_lq p)) + unat ?x"
    using B v(1) by (intro unat_add_u64) simp
  have "bundle_ok (unat (epoch_num (conf p))) b"
    using x t \<open>unat er \<le> _\<close> by (auto simp: bundle_ok_def st tn)
  then show ?thesis
    using B v w l by (simp add: backed_def Let_def p' vlq tmp st tn)
qed

lemma backed_redeem:
  assumes "redeem_try_run E (AsBox ob r) (AsBox pb p) (AsBox bb b) ctx = Some (Inr (tx, Predicted (AsBox pb' p'), ()))"
    and "backed \<lparr> lm_pool = p, lm_bundles = add_mset b M \<rparr>"
  shows "backed \<lparr> lm_pool = p', lm_bundles = M \<rparr>"
proof -
  from assms(1) obtain u e m where run: "apply_redeem p r b ctx = Some (Inr (p', u, e, m))"
    by (rule redeem_try_run_InrD)
  note d = apply_redeem_InrD [OF run]
  note B = assms(2) [unfolded backed_def Let_def, simplified]
  have x: "amount (red_expected_lq r) = amount (sb_vlq b)" by (rule d)
  have l: "unat (amount (reserves_lq p) - amount (sb_vlq b)) = unat (amount (reserves_lq p)) - stake b"
    using B by (subst unat_sub_exact) (auto simp: stake_def)
  have v: "unat (amount (reserves_vlq p) + amount (sb_vlq b)) = unat (amount (reserves_vlq p)) + stake b"
    unfolding stake_def using B by (intro unat_add_u64) (simp add: stake_def)
  have t: "unat (amount (reserves_tmp p) + tmp_of b) = unat (amount (reserves_tmp p)) + tmp_nat b"
    unfolding tmp_nat_def using B by (intro unat_add_u64) (simp add: tmp_nat_def)
  have "amount (reserves_tmp p') = amount (reserves_tmp p) + tmp_of b"
    using d(3) by (simp add: tmp_of_def split: option.split)
  then show ?thesis
    using B l v t d(3) x by (simp add: backed_def Let_def)
qed

text \<open>What a compounding does to one bundle, over the natural numbers.\<close>

lemma compounded_nat:
  assumes "compounded p er b (b', out)" "bundle_ok n b"
  shows "stake b' = stake b" "tmp_nat b' = unat er * stake b" "tmp_nat b' < tmp_nat b"
    "bundle_weight er b + tmp_nat b' = tmp_nat b" "bundle_ok n b'"
proof -
  obtain k where k: "k \<le> n" "tmp_nat b = k * stake b" and s0: "0 < stake b" using assms(2) by (auto simp: bundle_ok_def)
  obtain burned t where bu: "epochs_burned er b = Some burned" "burned \<noteq> 0" and b': "b' = b \<lparr> sb_tmp := t \<rparr>"
    and tmp': "tmp_of b' = ucast er * amount (sb_vlq b)"
    using assms(1) by (auto simp: compounded_def)
  show st: "stake b' = stake b" by (simp add: stake_def b')
  obtain a where a: "sb_tmp b = Some a" using bu by (auto simp: epochs_burned_def split: option.splits)
  have "unat burned = unat (amount a) div stake b - unat er"
    using bu(1) a s0 by (auto simp: epochs_burned_def bind_eq_Some_conv checked_div_Some unat_saturating_sub unat_div unat_u32_u64 stake_def)
  also have "unat (amount a) = k * stake b" using k(2) a by (simp add: tmp_nat_def tmp_of_def)
  finally have burned: "unat burned = k - unat er" using s0 by simp
  then have er: "unat er < k" using unat_pos [OF bu(2)] by linarith
  have "unat er * stake b \<le> k * stake b" using er by simp
  also have "\<dots> < 2 ^ 64" using k(2) unat_u64_lt [of "tmp_of b"] by (simp add: tmp_nat_def)
  finally have "unat er * unat (amount (sb_vlq b)) < 2 ^ 64" by (simp add: stake_def)
  then show t': "tmp_nat b' = unat er * stake b"
    using unat_mult_u64 [of "ucast er" "amount (sb_vlq b)"] by (simp only: tmp_nat_def tmp' unat_u32_u64 stake_def)
  show "tmp_nat b' < tmp_nat b" using er s0 by (simp add: t' k(2))
  have "bundle_weight er b = (k - unat er) * stake b" by (simp add: bundle_weight_def bu(1) burned stake_def mult.commute)
  then show "bundle_weight er b + tmp_nat b' = tmp_nat b" using er by (simp add: t' k(2) diff_mult_distrib)
  show "bundle_ok n b'" using s0 er k(1) by (auto simp: bundle_ok_def st t')
qed

lemma compounded_list_nat:
  "list_all2 (compounded p er) bs rs \<Longrightarrow> (\<And>b. b \<in> set bs \<Longrightarrow> bundle_ok n b) \<Longrightarrow>
   sum_list (map (stake \<circ> fst) rs) = sum_list (map stake bs) \<and>
   sum_list (map (bundle_weight er) bs) + sum_list (map (tmp_nat \<circ> fst) rs) = sum_list (map tmp_nat bs) \<and>
   (\<forall>r\<in>set rs. bundle_ok n (fst r))"
proof (induction rule: list_all2_induct)
  case Nil
  then show ?case by simp
next
  case (Cons b bs r rs)
  obtain b' out where r: "r = (b', out)" by (cases r)
  have ok: "bundle_ok n b" using Cons.prems by simp
  note c = compounded_nat [OF Cons.hyps(1) [unfolded r] ok]
  show ?case using Cons.IH Cons.prems c by (simp add: r)
qed

lemma backed_compound:
  assumes "compound_try_run E c (AsBox pb p) (bundles, f, fs) ctx = Some (Inr (tx, Predicted (AsBox pb' p'), (bs', nfb)))"
    and "backed \<lparr> lm_pool = p, lm_bundles = mset (map as_val bundles) + M \<rparr>"
  shows "backed \<lparr> lm_pool = p', lm_bundles = mset (map (as_val \<circ> the_predicted) bs') + M \<rparr>"
proof -
  obtain er np cost ix nb rw ids where lp: "distribute_loop p er (map as_val bundles) p 0 = Some (Inr (np, cost, nb, rw))"
    and p': "p' = np \<lparr> pl_epoch_ix := Some ix \<rparr>" and ids: "length ids = length nb" and vs: "map (as_val \<circ> the_predicted) bs' = restate nb ids"
    using compound_parts [OF assms(1)] .
  note L = distribute_loop_InrD [OF lp]
  let ?bs = "map as_val bundles" and ?n = "unat (epoch_num (conf p))"
  note sums = image_mset_union mset_map [symmetric] sum_mset.union sum_mset_sum_list
  note B = assms(2) [unfolded backed_def Let_def lm_state.simps sums]
  have ok: "\<And>b. b \<in> set ?bs \<Longrightarrow> bundle_ok ?n b" using B by auto
  have la: "list_all2 (compounded p er) ?bs (zip nb rw)" using L by blast
  note R = compounded_list_nat [OF la ok]
  have nb: "map fst (zip nb rw) = nb" using L by simp
  have C: "sum_list (map stake nb) = sum_list (map stake ?bs)" "sum_list (map (bundle_weight er) ?bs) + sum_list (map tmp_nat nb) = sum_list (map tmp_nat ?bs)"
    using R nb by (simp_all only: map_map [symmetric])
  have "\<forall>b\<in>set (map fst (zip nb rw)). bundle_ok ?n b" using R by auto
  then have "list_all (bundle_ok ?n) nb" by (simp only: nb list_all_iff)
  then have oks: "\<forall>b\<in>set (restate nb ids). bundle_ok ?n b"
    using restate_all [OF ids, of "bundle_ok ?n"] restate_fields(3) unfolding list_all_iff by blast
  have S: "sum_list (map stake (restate nb ids)) = sum_list (map stake ?bs)" "sum_list (map tmp_nat (restate nb ids)) = sum_list (map tmp_nat nb)"
    using C(1) restate_map [OF ids, of stake] restate_map [OF ids, of tmp_nat] by (simp_all add: restate_fields)
  have "unat (amount (reserves_tmp np)) + sum_list (map tmp_nat nb) = unat (amount (reserves_tmp p)) + sum_list (map tmp_nat ?bs)"
  proof (rule amounts_returned)
    show "amount (reserves_tmp np) + sum_list (map tmp_of nb) = amount (reserves_tmp p) + sum_list (map tmp_of ?bs)" using L by blast
    show "unat (amount (reserves_tmp p)) + sum_list (map tmp_nat ?bs) < 2 ^ 64"
      using B by (elim conjE) simp
  qed (use C(2) in linarith)
  then have T: "unat (amount (reserves_tmp np)) + (sum_list (map tmp_nat (restate nb ids)) + (\<Sum>b\<in>#M. tmp_nat b)) =
      unat (amount (reserves_tmp p)) + (sum_list (map tmp_nat ?bs) + (\<Sum>b\<in>#M. tmp_nat b))" unfolding S(2) by linarith
  have oks': "\<forall>b\<in>#mset (restate nb ids) + M. bundle_ok ?n b" using oks B by auto
  have "reserves_lq p' = reserves_lq p" "reserves_vlq p' = reserves_vlq p" "conf p' = conf p" "reserves_tmp p' = reserves_tmp np" using L by (simp_all add: p')
  then show ?thesis
    using B oks' unfolding backed_def Let_def vs lm_state.simps sums by (simp only: S(1) T)
qed

lemma backed_init: "lm_init s \<Longrightarrow> backed s"
  by (auto simp: lm_init_def backed_def Let_def stake_def tmp_nat_def bundle_ok_def unat_pos)

lemma backed_step: "lm_step E s s' \<Longrightarrow> backed s \<Longrightarrow> backed s'"
  by (induction rule: lm_step.induct) (rule backed_deposit backed_redeem backed_compound; assumption)+

lemma backed_reachable: "lm_reach E s \<Longrightarrow> backed s"
  by (induction rule: lm_reach.induct) (auto intro: backed_init backed_step)

text \<open>
  In a backed state the pool's count of outstanding temporal tokens is the weight of all bundles,
  provided every bundle is up to date, that is, holds the tokens of the remaining epochs.
\<close>

lemma backed_weight:
  assumes "backed \<lparr> lm_pool = p, lm_bundles = mset bs + M \<rparr>"
    and "\<forall>b\<in>#mset bs + M. unat er * stake b \<le> tmp_nat b"
    and "sum_list (map (bundle_weight er) bs) + unat er * sum_list (map stake bs) = sum_list (map tmp_nat bs)"
  shows "sum_list (map (bundle_weight er) bs) \<le> unat (actual_tmp p er)"
proof -
  have B: "unat (amount (reserves_lq p)) = (\<Sum>b\<in>#mset bs + M. stake b)"
    "unat (amount (reserves_tmp p)) + (\<Sum>b\<in>#mset bs + M. tmp_nat b) = 2 ^ 63 - 1"
    using assms(1) by (simp_all only: backed_def Let_def lm_state.simps)
  have split: "(\<Sum>b\<in>#mset bs + M. g b) = sum_list (map g bs) + (\<Sum>b\<in>#M. g b)" for g :: "staking_bundle \<Rightarrow> nat"
    by (simp only: image_mset_union mset_map [symmetric] sum_mset.union sum_mset_sum_list)
  have "(\<Sum>b\<in>#M. unat er * stake b) \<le> (\<Sum>b\<in>#M. tmp_nat b)"
    using assms(2) by (intro sum_mset_mono) simp
  then have rest: "unat er * (\<Sum>b\<in>#M. stake b) \<le> (\<Sum>b\<in>#M. tmp_nat b)" by (simp add: sum_mset_distrib_left)
  have lq: "unat er * unat (amount (reserves_lq p)) =
      unat er * sum_list (map stake bs) + unat er * (\<Sum>b\<in>#M. stake b)"
    by (simp only: B(1) split distrib_left)
  have "unat (amount (reserves_lq p)) * unat er < 2 ^ 64"
    using lq rest assms(3) B(2) split [of tmp_nat] by (simp add: mult.commute)
  then have m: "unat (amount (reserves_lq p) * ucast er) = unat er * unat (amount (reserves_lq p))"
    using unat_mult_u64 [of "amount (reserves_lq p)" "ucast er"] by (simp only: unat_u32_u64 mult.commute)
  have "unat MAX_VALUE = 2 ^ 63 - 1" by (simp add: MAX_VALUE_def)
  then have "unat (actual_tmp p er) = 2 ^ 63 - 1 - unat (amount (reserves_tmp p)) - unat er * unat (amount (reserves_lq p))"
    by (simp only: actual_tmp_def unat_saturating_sub m)
  then show ?thesis using lq rest assms(3) B(2) split [of tmp_nat] by linarith
qed

lemma reachable_within_budget:
  assumes "lm_reach E \<lparr> lm_pool = p, lm_bundles = mset bs + M \<rparr>"
    and "distribute_rewards p bs f fs = Some (Inr (p', bs', nf, outs, m))"
    and "er = saturating_sub (epoch_num (conf p)) (the (pl_epoch_ix p'))"
    and "\<forall>b\<in>#mset bs + M. unat er * stake b \<le> tmp_nat b"
  shows "sum_list (map (unat \<circ> reward_of) outs) \<le> unat (amount (budget_rem p)) - epoch_reserve p er - 1"
proof -
  from assms(2) obtain ix np cost where ix: "compounding_epoch_ix p = Some ix"
    and lp: "distribute_loop p (saturating_sub (epoch_num (conf p)) ix) bs p 0 = Some (Inr (np, cost, bs', outs))"
    and p': "p' = np \<lparr> pl_epoch_ix := Some ix \<rparr>" by (rule distribute_rewards_InrD)
  have er: "er = saturating_sub (epoch_num (conf p)) ix" using assms(3) p' by simp
  note L = distribute_loop_InrD [OF lp, folded er]
  have la: "list_all2 (compounded p er) bs (zip bs' outs)" and len: "length bs' = length outs" using L by simp_all
  have backed: "backed \<lparr> lm_pool = p, lm_bundles = mset bs + M \<rparr>" by (rule backed_reachable) (rule assms(1))
  then have ok: "\<And>b. b \<in> set bs \<Longrightarrow> bundle_ok (unat (epoch_num (conf p))) b"
    by (simp add: backed_def Let_def)
  have "sum_list (map (bundle_weight er) bs) + unat er * sum_list (map stake bs) = sum_list (map tmp_nat bs)"
    using la ok
  proof (induction rule: list_all2_induct)
    case (Cons b bs r rs)
    obtain b' out where "r = (b', out)" by (cases r)
    then have "bundle_weight er b + unat er * stake b = tmp_nat b"
      using compounded_nat(2,4) [of p er b b' out "unat (epoch_num (conf p))"] Cons.hyps(1) Cons.prems by simp
    then show ?case using Cons by (simp add: distrib_left)
  qed simp
  from backed_weight [OF backed assms(4) this]
  show ?thesis by (rule sum_rewards_le [OF la len compounding_epoch_ix_epoch_num [OF ix]])
qed

end

interpretation sample_amounts: ergo_amounts sample_lib
  by unfold_locales (auto simp: positive_long_def word_less_nat_alt)

section \<open>Properties\<close>



lemma sample_reach: "lm_reach sample_lib \<lparr> lm_pool = staked_pool, lm_bundles = mset [sample_bundle] + {#} \<rparr>"
  by (rule reach_init) (auto simp: lm_init_def staked_pool_def sample_bundle_def tmp_of_def sample_pool_def intro!: exI [of _ 10])



end
