(* ===== verification/Storage.thy ===== *)
theory Storage
  imports Prelude "HOL-Library.RBT" "HOL-Library.Sublist"
begin

text \<open>
  The two libraries every persistent component rests on, as interfaces.  \<open>RocksDB\<close> is the
  record \<open>rocksdb\<close> of the calls the sources make (a transaction is a sequence of writes that
  is committed as a whole, so it is a composition of the same calls), and its laws are the
  locale \<open>rocksdb_laws\<close>: reads after writes and deletes, a scan of the entries with a prefix in
  the byte-wise order of the keys, and \<open>key_may_exist\<close> without false negatives.
  \<open>bincode\<close> is a codec per stored type (locale \<open>codec_laws\<close>) and an encoding of strings that
  is prefix-free (locale \<open>bincode_strings\<close>).  Both are interpreted: the store on red-black
  trees, the strings on the documented format with a 64-bit little-endian length.

  \<open>prefixed_key\<close> and \<open>raw_prefixed_key\<close> are those of \<open>spectrum-offchain/src/binary.rs\<close>.
\<close>

record 'db rocksdb =
  db_get :: "'db \<Rightarrow> bytes \<Rightarrow> bytes option"
  db_put :: "'db \<Rightarrow> bytes \<Rightarrow> bytes \<Rightarrow> 'db"
  db_delete :: "'db \<Rightarrow> bytes \<Rightarrow> 'db"
  db_scan :: "'db \<Rightarrow> bytes \<Rightarrow> (bytes \<times> bytes) list"
  db_key_may_exist :: "'db \<Rightarrow> bytes \<Rightarrow> bool"

record 'a codec =
  ser :: "'a \<Rightarrow> bytes"
  de :: "bytes \<Rightarrow> 'a option"

section \<open>Keys (binary.rs)\<close>

definition prefixed_key :: "(string \<Rightarrow> bytes) \<Rightarrow> string \<Rightarrow> 'a codec \<Rightarrow> 'a \<Rightarrow> bytes" where
  "prefixed_key S pfx c id' = S pfx @ ser c id'"

definition raw_prefixed_key :: "(string \<Rightarrow> bytes) \<Rightarrow> string \<Rightarrow> bytes \<Rightarrow> bytes" where
  "raw_prefixed_key S pfx bs = S pfx @ bs"

section \<open>Interfaces\<close>

locale rocksdb_laws =
  fixes R :: "'db rocksdb"
  assumes get_put: "db_get R (db_put R d k v) = (db_get R d)(k \<mapsto> v)"
    and get_delete: "db_get R (db_delete R d k) = (db_get R d)(k := None)"
    and scan_entries: "(k, v) \<in> set (db_scan R d p) \<longleftrightarrow> db_get R d k = Some v \<and> prefix p k"
    and scan_sorted: "sorted_wrt (<) (map fst (db_scan R d p))"
    and may_exist: "db_get R d k \<noteq> None \<Longrightarrow> db_key_may_exist R d k"
begin

lemma scan_distinct: "distinct (map fst (db_scan R d p))"
  using scan_sorted [of d p] strict_sorted_iff by blast

lemma scan_map_of: "map_of (db_scan R d p) k = (if prefix p k then db_get R d k else None)"
proof (cases "prefix p k \<and> db_get R d k \<noteq> None")
  case True
  then obtain v where "db_get R d k = Some v" by auto
  with True scan_entries [of k v d p] scan_distinct [of d p] show ?thesis by auto
next
  case False
  then have "k \<notin> fst ` set (db_scan R d p)" using scan_entries by fastforce
  then have "map_of (db_scan R d p) k = None" by (simp add: map_of_eq_None_iff)
  then show ?thesis using False by auto
qed

text \<open>The first entry of a scan has the smallest key with the prefix.\<close>

lemma scan_hd_least:
  assumes "db_scan R d p = (k, v) # rest" "db_get R d k' = Some v'" "prefix p k'"
  shows "k \<le> k'"
proof -
  have "(k', v') \<in> set (db_scan R d p)" using assms scan_entries by blast
  then show ?thesis using scan_sorted [of d p] assms(1) by (auto intro: less_imp_le)
qed

text \<open>A scan is determined by its entries.\<close>

lemma scan_eqI:
  assumes "sorted_wrt (<) (map fst es)" "\<And>k v. (k, v) \<in> set es \<longleftrightarrow> db_get R d k = Some v \<and> prefix p k"
  shows "db_scan R d p = es"
proof -
  have set: "set (db_scan R d p) = set es" using assms(2) scan_entries [of _ _ d p] by auto
  then have keys: "map fst (db_scan R d p) = map fst es"
    using sorted_distinct_set_unique [of "map fst (db_scan R d p)" "map fst es"] scan_sorted [of d p] assms(1)
    by (simp add: strict_sorted_iff)
  have dist: "distinct (map fst es)" using assms(1) strict_sorted_iff by blast
  show ?thesis
  proof (rule nth_equalityI)
    show len: "length (db_scan R d p) = length es" using keys by (metis length_map)
    fix i assume i: "i < length (db_scan R d p)"
    have k: "fst (db_scan R d p ! i) = fst (es ! i)" using keys i len by (metis nth_map)
    have "db_scan R d p ! i \<in> set es" "es ! i \<in> set es" using i len set nth_mem by (metis, simp)
    then show "db_scan R d p ! i = es ! i" using k dist by (metis eq_key_imp_eq_value prod.collapse)
  qed
qed

lemma scan_Nil: "db_scan R d p = [] \<longleftrightarrow> (\<forall>k. prefix p k \<longrightarrow> db_get R d k = None)"
proof
  assume "db_scan R d p = []"
  then show "\<forall>k. prefix p k \<longrightarrow> db_get R d k = None"
    using scan_map_of [of d p] by (metis map_of_eq_None_iff empty_iff image_empty list.set(1))
next
  assume none: "\<forall>k. prefix p k \<longrightarrow> db_get R d k = None"
  show "db_scan R d p = []"
  proof (cases "db_scan R d p")
    case (Cons e es)
    then have "(fst e, snd e) \<in> set (db_scan R d p)" by simp
    then have "db_get R d (fst e) = Some (snd e)" "prefix p (fst e)" using scan_entries by blast+
    then show ?thesis using none by simp
  qed simp
qed

end

locale codec_laws =
  fixes c :: "'a codec"
  assumes de_ser: "de c (ser c x) = Some x"
begin

lemma ser_inject [simp]: "ser c x = ser c y \<longleftrightarrow> x = y"
  by (metis de_ser option.inject)

end

locale bincode_strings =
  fixes S :: "string \<Rightarrow> bytes"
  assumes str_prefix_free: "\<lbrakk> length a < 2 ^ 32; length b < 2 ^ 32; S a @ x = S b @ y \<rbrakk> \<Longrightarrow> a = b \<and> x = y"
    and str_length: "length a < 2 ^ 32 \<Longrightarrow> length (S a) = 8 + length a"
begin

lemma prefixed_key_inject:
  assumes "codec_laws c" "codec_laws c'" "length p < 2 ^ 32" "length q < 2 ^ 32"
  shows "prefixed_key S p c x = prefixed_key S q c y \<longleftrightarrow> p = q \<and> x = y"
  using str_prefix_free [OF assms(3,4), of "ser c x" "ser c y"] codec_laws.ser_inject [OF assms(1)]
  by (auto simp: prefixed_key_def)

lemma prefixed_key_distinct:
  assumes "length p < 2 ^ 32" "length q < 2 ^ 32" "p \<noteq> q"
  shows "prefixed_key S p c x \<noteq> prefixed_key S q c' y"
  using str_prefix_free [OF assms(1,2)] assms(3) by (auto simp: prefixed_key_def)

lemma prefixed_key_eq:
  assumes "codec_laws c"
  shows "prefixed_key S p c x = prefixed_key S p c y \<longleftrightarrow> x = y"
  using codec_laws.ser_inject [OF assms] by (simp add: prefixed_key_def)

end

section \<open>Instances\<close>

type_synonym mem_db = "(bytes, bytes) rbt"

definition mem_rocksdb :: "mem_db rocksdb" where
  "mem_rocksdb = \<lparr> db_get = RBT.lookup, db_put = (\<lambda>d k v. RBT.insert k v d), db_delete = (\<lambda>d k. RBT.delete k d),
     db_scan = (\<lambda>d p. filter (\<lambda>(k, v). prefix p k) (RBT.entries d)),
     db_key_may_exist = (\<lambda>d k. RBT.lookup d k \<noteq> None) \<rparr>"

lemma sorted_wrt_map_filter: "sorted_wrt P (map f xs) \<Longrightarrow> sorted_wrt P (map f (filter Q xs))"
  by (induction xs) auto

interpretation mem: rocksdb_laws mem_rocksdb
proof
  fix d :: mem_db and k v p
  show "db_get mem_rocksdb (db_put mem_rocksdb d k v) = (db_get mem_rocksdb d)(k \<mapsto> v)"
    by (simp add: mem_rocksdb_def)
  show "db_get mem_rocksdb (db_delete mem_rocksdb d k) = (db_get mem_rocksdb d)(k := None)"
    by (simp add: mem_rocksdb_def restrict_complement_singleton_eq)
  show "(k, v) \<in> set (db_scan mem_rocksdb d p) \<longleftrightarrow> db_get mem_rocksdb d k = Some v \<and> prefix p k"
    using RBT.lookup_in_tree [of d k v] by (auto simp: mem_rocksdb_def)
  have "sorted_wrt (<) (map fst (RBT.entries d))"
    using RBT.sorted_entries [of d] RBT.distinct_entries [of d] by (simp add: strict_sorted_iff)
  then show "sorted_wrt (<) (map fst (db_scan mem_rocksdb d p))"
    by (simp add: mem_rocksdb_def sorted_wrt_map_filter)
  show "db_get mem_rocksdb d k \<noteq> None \<Longrightarrow> db_key_may_exist mem_rocksdb d k"
    by (simp add: mem_rocksdb_def)
qed

definition bincode_str :: "string \<Rightarrow> bytes" where
  "bincode_str s = to_le_bytes 8 (word_of_nat (length s) :: u64) @ map (\<lambda>c. word_of_nat (of_char c)) s"

lemma map_char_bytes_inject: "map (\<lambda>c. word_of_nat (of_char c) :: u8) a = map (\<lambda>c. word_of_nat (of_char c)) b \<longleftrightarrow> a = b"
proof -
  have "inj (\<lambda>c. word_of_nat (of_char c) :: u8)"
  proof (rule injI)
    fix c d :: char
    assume "(word_of_nat (of_char c) :: u8) = word_of_nat (of_char d)"
    then have "unat (word_of_nat (of_char c) :: u8) = unat (word_of_nat (of_char d) :: u8)" by simp
    then show "c = d" by (simp add: unat_of_nat)
  qed
  then show ?thesis by simp
qed

interpretation bin: bincode_strings bincode_str
proof
  fix a b :: string and x y
  assume l: "length a < 2 ^ 32" "length b < 2 ^ 32" and eq: "bincode_str a @ x = bincode_str b @ y"
  then have h: "to_le_bytes 8 (word_of_nat (length a) :: u64) = to_le_bytes 8 (word_of_nat (length b) :: u64)"
    and t: "map (\<lambda>c. word_of_nat (of_char c)) a @ x = map (\<lambda>c. word_of_nat (of_char c)) b @ y"
    by (simp_all add: bincode_str_def)
  from h have "(word_of_nat (length a) :: u64) = word_of_nat (length b)" by (simp add: to_le_bytes_inject)
  then have "unat (word_of_nat (length a) :: u64) = unat (word_of_nat (length b) :: u64)" by simp
  moreover have "length a < 2 ^ 64" "length b < 2 ^ 64" using l by simp_all
  ultimately have "length a = length b" by (simp only: unat_of_nat_u64)
  with t have "map (\<lambda>c. word_of_nat (of_char c) :: u8) a = map (\<lambda>c. word_of_nat (of_char c)) b \<and> x = y" by simp
  then show "a = b \<and> x = y" by (simp only: map_char_bytes_inject)
next
  fix a :: string
  show "length (bincode_str a) = 8 + length a" by (simp add: bincode_str_def)
qed

text \<open>A concrete codec of digests: their 32 bytes.\<close>

definition digest_codec :: "digest32 codec" where
  "digest_codec = \<lparr> ser = to_be_bytes 32, de = (\<lambda>bs. if length bs = 32 then Some (from_be_bytes bs) else None) \<rparr>"

interpretation digest: codec_laws digest_codec
  by unfold_locales (simp add: digest_codec_def codec_simps)

end
