(* ===== verification/Entity_Repo.thy ===== *)
theory Entity_Repo
  imports Storage Entity_Data
begin

text \<open>
  The repository of on-chain entities: \<open>spectrum-offchain/src/box_resolver.rs\<close> with
  \<open>persistence.rs\<close>, \<open>rocksdb.rs\<close>, \<open>process.rs\<close> and \<open>blacklist.rs\<close>.  The environment of the
  repository (the store, the codecs of the stored types and the entity's references) is the
  record \<open>entity_env\<close>.  The operations of \<open>EntityRepoRocksDB\<close> are functions of the database;
  \<open>EntityRepoTracing\<close> only logs and forwards, so it is the same functions.

  \<open>is_linking\<close> follows the links between predicted states in a loop without a bound, so it is
  a partial function: \<open>None\<close> means that the loop does not end.

  Results: the repository refines the abstract one of \<open>abs_repo\<close> (four finite maps), the search
  for links ends exactly when the chain of links does and decides reachability, and
  \<open>resolve_entity_state\<close> returns the last prediction that is linked to the confirmed or
  unconfirmed anchor, whatever number of predictions was stacked on it.
\<close>

record ('e, 'eid, 'sid, 'db) entity_env =
  env_db :: "'db rocksdb"
  env_str :: "string \<Rightarrow> bytes"
  env_eid :: "'eid codec"
  env_sid :: "'sid codec"
  env_entity :: "'e codec"
  env_ref :: "'e \<Rightarrow> 'eid"
  env_state_ref :: "'e \<Rightarrow> 'sid"

section \<open>EntityRepoRocksDB (rocksdb.rs)\<close>

definition STATE_PREFIX :: string where "STATE_PREFIX = ''state''"
definition PREDICTION_LINK_PREFIX :: string where "PREDICTION_LINK_PREFIX = ''prediction:link''"
definition LAST_PREDICTED_PREFIX :: string where "LAST_PREDICTED_PREFIX = ''predicted:last''"
definition LAST_CONFIRMED_PREFIX :: string where "LAST_CONFIRMED_PREFIX = ''confirmed:last''"
definition LAST_UNCONFIRMED_PREFIX :: string where "LAST_UNCONFIRMED_PREFIX = ''unconfirmed:last''"

definition sid_key :: "('e, 'eid, 'sid, 'db) entity_env \<Rightarrow> string \<Rightarrow> 'sid \<Rightarrow> bytes" where
  "sid_key X pfx sid = prefixed_key (env_str X) pfx (env_sid X) sid"

definition eid_key :: "('e, 'eid, 'sid, 'db) entity_env \<Rightarrow> string \<Rightarrow> 'eid \<Rightarrow> bytes" where
  "eid_key X pfx eid = prefixed_key (env_str X) pfx (env_eid X) eid"

definition get_prediction_predecessor :: "('e, 'eid, 'sid, 'db) entity_env \<Rightarrow> 'db \<Rightarrow> 'sid \<Rightarrow> 'sid option" where
  "get_prediction_predecessor X db sid =
     Option.bind (db_get (env_db X) db (sid_key X PREDICTION_LINK_PREFIX sid)) (de (env_sid X))"

definition get_last_predicted :: "('e, 'eid, 'sid, 'db) entity_env \<Rightarrow> 'db \<Rightarrow> 'eid \<Rightarrow> 'e predicted option" where
  "get_last_predicted X db eid = do {
     bs \<leftarrow> db_get (env_db X) db (eid_key X LAST_PREDICTED_PREFIX eid);
     sid \<leftarrow> de (env_sid X) bs;
     st \<leftarrow> (if db_get (env_db X) db (sid_key X PREDICTION_LINK_PREFIX sid) \<noteq> None
           then db_get (env_db X) db (sid_key X STATE_PREFIX sid) else None);
     e \<leftarrow> de (env_entity X) st;
     Some (Predicted e) }"

definition get_last_confirmed :: "('e, 'eid, 'sid, 'db) entity_env \<Rightarrow> 'db \<Rightarrow> 'eid \<Rightarrow> 'e confirmed option" where
  "get_last_confirmed X db eid = do {
     bs \<leftarrow> db_get (env_db X) db (eid_key X LAST_CONFIRMED_PREFIX eid);
     sid \<leftarrow> de (env_sid X) bs;
     st \<leftarrow> (if db_get (env_db X) db (eid_key X LAST_CONFIRMED_PREFIX eid) \<noteq> None
           then db_get (env_db X) db (sid_key X STATE_PREFIX sid) else None);
     e \<leftarrow> de (env_entity X) st;
     Some (Confirmed e) }"

definition get_last_unconfirmed :: "('e, 'eid, 'sid, 'db) entity_env \<Rightarrow> 'db \<Rightarrow> 'eid \<Rightarrow> 'e unconfirmed option" where
  "get_last_unconfirmed X db eid = do {
     bs \<leftarrow> db_get (env_db X) db (eid_key X LAST_UNCONFIRMED_PREFIX eid);
     sid \<leftarrow> de (env_sid X) bs;
     st \<leftarrow> (if db_get (env_db X) db (eid_key X LAST_UNCONFIRMED_PREFIX eid) \<noteq> None
           then db_get (env_db X) db (sid_key X STATE_PREFIX sid) else None);
     e \<leftarrow> de (env_entity X) st;
     Some (Unconfirmed e) }"

definition put_predicted :: "('e, 'eid, 'sid, 'db) entity_env \<Rightarrow> 'db \<Rightarrow> ('e predicted, 'sid) traced \<Rightarrow> 'db" where
  "put_predicted X db t = (case tr_state t of Predicted e \<Rightarrow>
     let tx = db_put (env_db X) db (sid_key X STATE_PREFIX (env_state_ref X e)) (ser (env_entity X) e);
         tx = db_put (env_db X) tx (eid_key X LAST_PREDICTED_PREFIX (env_ref X e)) (ser (env_sid X) (env_state_ref X e))
     in (case tr_prev_state_id t of
           Some prev \<Rightarrow> db_put (env_db X) tx (sid_key X PREDICTION_LINK_PREFIX (env_state_ref X e)) (ser (env_sid X) prev)
         | None \<Rightarrow> tx))"

definition put_confirmed :: "('e, 'eid, 'sid, 'db) entity_env \<Rightarrow> 'db \<Rightarrow> 'e confirmed \<Rightarrow> 'db" where
  "put_confirmed X db c = (case c of Confirmed e \<Rightarrow>
     let tx = db_put (env_db X) db (sid_key X STATE_PREFIX (env_state_ref X e)) (ser (env_entity X) e)
     in db_put (env_db X) tx (eid_key X LAST_CONFIRMED_PREFIX (env_ref X e)) (ser (env_sid X) (env_state_ref X e)))"

definition put_unconfirmed :: "('e, 'eid, 'sid, 'db) entity_env \<Rightarrow> 'db \<Rightarrow> 'e unconfirmed \<Rightarrow> 'db" where
  "put_unconfirmed X db c = (case c of Unconfirmed e \<Rightarrow>
     let tx = db_put (env_db X) db (sid_key X STATE_PREFIX (env_state_ref X e)) (ser (env_entity X) e)
     in db_put (env_db X) tx (eid_key X LAST_UNCONFIRMED_PREFIX (env_ref X e)) (ser (env_sid X) (env_state_ref X e)))"

definition invalidate :: "('e, 'eid, 'sid, 'db) entity_env \<Rightarrow> 'db \<Rightarrow> 'sid \<Rightarrow> 'eid \<Rightarrow> 'db" where
  "invalidate X db sid eid =
     (let tx = (case get_prediction_predecessor X db sid of
            Some p \<Rightarrow> db_put (env_db X) db (eid_key X LAST_CONFIRMED_PREFIX eid) (ser (env_sid X) p)
          | None \<Rightarrow> db_delete (env_db X) db (eid_key X LAST_CONFIRMED_PREFIX eid));
          tx = db_delete (env_db X) tx (sid_key X PREDICTION_LINK_PREFIX sid)
      in db_delete (env_db X) tx (eid_key X LAST_UNCONFIRMED_PREFIX eid))"

definition eliminate :: "('e, 'eid, 'sid, 'db) entity_env \<Rightarrow> 'db \<Rightarrow> 'e \<Rightarrow> 'db" where
  "eliminate X db e =
     (let tx = db_delete (env_db X) db (sid_key X PREDICTION_LINK_PREFIX (env_state_ref X e));
          tx = db_delete (env_db X) tx (eid_key X LAST_PREDICTED_PREFIX (env_ref X e));
          tx = db_delete (env_db X) tx (eid_key X LAST_CONFIRMED_PREFIX (env_ref X e))
      in db_delete (env_db X) tx (eid_key X LAST_UNCONFIRMED_PREFIX (env_ref X e)))"

definition may_exist :: "('e, 'eid, 'sid, 'db) entity_env \<Rightarrow> 'db \<Rightarrow> 'sid \<Rightarrow> bool" where
  "may_exist X db sid = db_key_may_exist (env_db X) db (sid_key X STATE_PREFIX sid)"

definition get_state :: "('e, 'eid, 'sid, 'db) entity_env \<Rightarrow> 'db \<Rightarrow> 'sid \<Rightarrow> 'e option" where
  "get_state X db sid = Option.bind (db_get (env_db X) db (sid_key X STATE_PREFIX sid)) (de (env_entity X))"

section \<open>The trait and its tracing wrapper (persistence.rs)\<close>

record ('e, 'eid, 'sid, 'r) entity_repo_ops =
  ero_get_prediction_predecessor :: "'r \<Rightarrow> 'sid \<Rightarrow> 'sid option"
  ero_get_last_predicted :: "'r \<Rightarrow> 'eid \<Rightarrow> 'e predicted option"
  ero_get_last_confirmed :: "'r \<Rightarrow> 'eid \<Rightarrow> 'e confirmed option"
  ero_get_last_unconfirmed :: "'r \<Rightarrow> 'eid \<Rightarrow> 'e unconfirmed option"
  ero_put_predicted :: "'r \<Rightarrow> ('e predicted, 'sid) traced \<Rightarrow> 'r"
  ero_put_confirmed :: "'r \<Rightarrow> 'e confirmed \<Rightarrow> 'r"
  ero_put_unconfirmed :: "'r \<Rightarrow> 'e unconfirmed \<Rightarrow> 'r"
  ero_invalidate :: "'r \<Rightarrow> 'sid \<Rightarrow> 'eid \<Rightarrow> 'r"
  ero_eliminate :: "'r \<Rightarrow> 'e \<Rightarrow> 'r"
  ero_may_exist :: "'r \<Rightarrow> 'sid \<Rightarrow> bool"
  ero_get_state :: "'r \<Rightarrow> 'sid \<Rightarrow> 'e option"

definition entity_repo_rocksdb :: "('e, 'eid, 'sid, 'db) entity_env \<Rightarrow> ('e, 'eid, 'sid, 'db) entity_repo_ops" where
  "entity_repo_rocksdb X = \<lparr> ero_get_prediction_predecessor = get_prediction_predecessor X, ero_get_last_predicted = get_last_predicted X,
     ero_get_last_confirmed = get_last_confirmed X, ero_get_last_unconfirmed = get_last_unconfirmed X, ero_put_predicted = put_predicted X,
     ero_put_confirmed = put_confirmed X, ero_put_unconfirmed = put_unconfirmed X, ero_invalidate = invalidate X,
     ero_eliminate = eliminate X, ero_may_exist = may_exist X, ero_get_state = get_state X \<rparr>"

text \<open>\<open>EntityRepoTracing\<close> forwards every call to the repository it wraps; the log is not modelled.\<close>

definition entity_repo_tracing :: "('e, 'eid, 'sid, 'r) entity_repo_ops \<Rightarrow> ('e, 'eid, 'sid, 'r) entity_repo_ops" where
  "entity_repo_tracing inner = \<lparr>
     ero_get_prediction_predecessor = (\<lambda>r sid. ero_get_prediction_predecessor inner r sid),
     ero_get_last_predicted = (\<lambda>r eid. ero_get_last_predicted inner r eid),
     ero_get_last_confirmed = (\<lambda>r eid. ero_get_last_confirmed inner r eid),
     ero_get_last_unconfirmed = (\<lambda>r eid. ero_get_last_unconfirmed inner r eid),
     ero_put_predicted = (\<lambda>r t. ero_put_predicted inner r t),
     ero_put_confirmed = (\<lambda>r e. ero_put_confirmed inner r e),
     ero_put_unconfirmed = (\<lambda>r e. ero_put_unconfirmed inner r e),
     ero_invalidate = (\<lambda>r sid eid. ero_invalidate inner r sid eid),
     ero_eliminate = (\<lambda>r e. ero_eliminate inner r e),
     ero_may_exist = (\<lambda>r sid. ero_may_exist inner r sid),
     ero_get_state = (\<lambda>r sid. ero_get_state inner r sid) \<rparr>"

section \<open>Resolution (box\_resolver.rs)\<close>

text \<open>The loop of \<open>is_linking\<close> over the function that gives the predecessor of a state.\<close>

partial_function (option) link_loop :: "('sid \<Rightarrow> 'sid option) \<Rightarrow> 'sid \<Rightarrow> 'sid \<Rightarrow> bool option" where
  "link_loop pred anchoring_sid head_sid = (case pred head_sid of
      None \<Rightarrow> Some False
    | Some prev \<Rightarrow> if prev = anchoring_sid then Some True else link_loop pred anchoring_sid prev)"

definition is_linking :: "('e, 'eid, 'sid, 'db) entity_env \<Rightarrow> 'db \<Rightarrow> 'sid \<Rightarrow> 'sid \<Rightarrow> bool option" where
  "is_linking X db sid anchoring_sid = link_loop (get_prediction_predecessor X db) anchoring_sid sid"

definition resolve_entity_state :: "('e, 'eid, 'sid, 'db) entity_env \<Rightarrow> 'db \<Rightarrow> 'eid \<Rightarrow> 'e option option" where
  "resolve_entity_state X db eid =
     (case (get_last_confirmed X db eid, get_last_unconfirmed X db eid, get_last_predicted X db eid) of
        (Some (Confirmed conf), unconf, Some (Predicted pred)) \<Rightarrow>
          let anchoring_point = (case unconf of Some (Unconfirmed e) \<Rightarrow> e | None \<Rightarrow> conf);
              anchoring_sid = env_state_ref X anchoring_point;
              predicted_sid = env_state_ref X pred
          in (if predicted_sid = anchoring_sid then Some (Some pred)
              else do { valid \<leftarrow> is_linking X db predicted_sid anchoring_sid;
                        Some (Some (if valid then pred else anchoring_point)) })
      | (_, Some (Unconfirmed unconf), None) \<Rightarrow> Some (Some unconf)
      | (Some (Confirmed conf), _, _) \<Rightarrow> Some (Some conf)
      | _ \<Rightarrow> Some None)"

section \<open>Tracking (process.rs) and blacklist (blacklist.rs)\<close>

fun entity_tracking_step :: "('e, 'eid, 'sid, 'db) entity_env \<Rightarrow> 'db \<Rightarrow> 'e state_update confirmed \<Rightarrow> 'db" where
  "entity_tracking_step X db (Confirmed (Transition (ERight new_state))) = put_confirmed X db (Confirmed new_state)"
| "entity_tracking_step X db (Confirmed (Transition (EBoth _ new_state))) = put_confirmed X db (Confirmed new_state)"
| "entity_tracking_step X db (Confirmed (TransitionRollback (ERight new_state))) = put_confirmed X db (Confirmed new_state)"
| "entity_tracking_step X db (Confirmed (TransitionRollback (EBoth _ new_state))) = put_confirmed X db (Confirmed new_state)"
| "entity_tracking_step X db (Confirmed (Transition (ELeft st))) = eliminate X db st"
| "entity_tracking_step X db (Confirmed (TransitionRollback (ELeft st))) = invalidate X db (env_state_ref X st) (env_ref X st)"

definition is_blacklisted :: "'eid set \<Rightarrow> 'eid \<Rightarrow> bool" where
  "is_blacklisted entries eid \<longleftrightarrow> eid \<in> entries"

section \<open>The abstract repository\<close>

record ('e, 'eid, 'sid) abs_repo =
  ar_states :: "'sid \<Rightarrow> 'e option"
  ar_links :: "'sid \<Rightarrow> 'sid option"
  ar_predicted :: "'eid \<Rightarrow> 'sid option"
  ar_confirmed :: "'eid \<Rightarrow> 'sid option"
  ar_unconfirmed :: "'eid \<Rightarrow> 'sid option"

definition abs_of :: "('e, 'eid, 'sid, 'db) entity_env \<Rightarrow> 'db \<Rightarrow> ('e, 'eid, 'sid) abs_repo" where
  "abs_of X db = \<lparr> ar_states = get_state X db, ar_links = get_prediction_predecessor X db,
     ar_predicted = (\<lambda>i. Option.bind (db_get (env_db X) db (eid_key X LAST_PREDICTED_PREFIX i)) (de (env_sid X))),
     ar_confirmed = (\<lambda>i. Option.bind (db_get (env_db X) db (eid_key X LAST_CONFIRMED_PREFIX i)) (de (env_sid X))),
     ar_unconfirmed = (\<lambda>i. Option.bind (db_get (env_db X) db (eid_key X LAST_UNCONFIRMED_PREFIX i)) (de (env_sid X))) \<rparr>"

lemmas repo_prefixes = STATE_PREFIX_def PREDICTION_LINK_PREFIX_def LAST_PREDICTED_PREFIX_def LAST_CONFIRMED_PREFIX_def
  LAST_UNCONFIRMED_PREFIX_def

locale entity_repo =
  fixes X :: "('e, 'eid, 'sid, 'db) entity_env"
  assumes db_laws: "rocksdb_laws (env_db X)"
    and str_laws: "bincode_strings (env_str X)"
    and eid_laws: "codec_laws (env_eid X)"
    and sid_laws: "codec_laws (env_sid X)"
    and entity_laws: "codec_laws (env_entity X)"
begin

lemmas get_put = rocksdb_laws.get_put [OF db_laws]
lemmas get_delete = rocksdb_laws.get_delete [OF db_laws]
lemmas de_sid [simp] = codec_laws.de_ser [OF sid_laws]
lemmas de_entity [simp] = codec_laws.de_ser [OF entity_laws]

lemma keys_distinct [simp]:
  "p \<noteq> q \<Longrightarrow> length p < 2 ^ 32 \<Longrightarrow> length q < 2 ^ 32 \<Longrightarrow> sid_key X p s = sid_key X q s' \<longleftrightarrow> False"
  "p \<noteq> q \<Longrightarrow> length p < 2 ^ 32 \<Longrightarrow> length q < 2 ^ 32 \<Longrightarrow> eid_key X p i = eid_key X q i' \<longleftrightarrow> False"
  "p \<noteq> q \<Longrightarrow> length p < 2 ^ 32 \<Longrightarrow> length q < 2 ^ 32 \<Longrightarrow> sid_key X p s = eid_key X q i \<longleftrightarrow> False"
  "p \<noteq> q \<Longrightarrow> length p < 2 ^ 32 \<Longrightarrow> length q < 2 ^ 32 \<Longrightarrow> eid_key X q i = sid_key X p s \<longleftrightarrow> False"
  using bincode_strings.prefixed_key_distinct [OF str_laws] unfolding sid_key_def eid_key_def by metis+

lemma keys_eq [simp]:
  "sid_key X p s = sid_key X p s' \<longleftrightarrow> s = s'" "eid_key X p i = eid_key X p i' \<longleftrightarrow> i = i'"
  using bincode_strings.prefixed_key_eq [OF str_laws sid_laws] bincode_strings.prefixed_key_eq [OF str_laws eid_laws]
  by (simp_all add: sid_key_def eid_key_def)

lemmas repo_unfold = abs_of_def get_state_def get_prediction_predecessor_def Let_def get_put get_delete repo_prefixes fun_eq_iff

lemma abs_put_confirmed:
  "abs_of X (put_confirmed X db (Confirmed e)) = (abs_of X db)
     \<lparr> ar_states := (ar_states (abs_of X db))(env_state_ref X e \<mapsto> e),
       ar_confirmed := (ar_confirmed (abs_of X db))(env_ref X e \<mapsto> env_state_ref X e) \<rparr>"
  by (simp add: put_confirmed_def repo_unfold)

lemma abs_put_unconfirmed:
  "abs_of X (put_unconfirmed X db (Unconfirmed e)) = (abs_of X db)
     \<lparr> ar_states := (ar_states (abs_of X db))(env_state_ref X e \<mapsto> e),
       ar_unconfirmed := (ar_unconfirmed (abs_of X db))(env_ref X e \<mapsto> env_state_ref X e) \<rparr>"
  by (simp add: put_unconfirmed_def repo_unfold)

lemma abs_put_predicted:
  "abs_of X (put_predicted X db \<lparr> tr_state = Predicted e, tr_prev_state_id = prev \<rparr>) = (abs_of X db)
     \<lparr> ar_states := (ar_states (abs_of X db))(env_state_ref X e \<mapsto> e),
       ar_predicted := (ar_predicted (abs_of X db))(env_ref X e \<mapsto> env_state_ref X e),
       ar_links := (case prev of Some s \<Rightarrow> (ar_links (abs_of X db))(env_state_ref X e \<mapsto> s) | None \<Rightarrow> ar_links (abs_of X db)) \<rparr>"
  by (cases prev) (simp_all add: put_predicted_def repo_unfold)

lemma abs_eliminate:
  "abs_of X (eliminate X db e) = (abs_of X db)
     \<lparr> ar_links := (ar_links (abs_of X db))(env_state_ref X e := None),
       ar_predicted := (ar_predicted (abs_of X db))(env_ref X e := None),
       ar_confirmed := (ar_confirmed (abs_of X db))(env_ref X e := None),
       ar_unconfirmed := (ar_unconfirmed (abs_of X db))(env_ref X e := None) \<rparr>"
  by (simp add: eliminate_def repo_unfold)

lemma abs_invalidate:
  "abs_of X (invalidate X db sid eid) = (abs_of X db)
     \<lparr> ar_links := (ar_links (abs_of X db))(sid := None),
       ar_confirmed := (ar_confirmed (abs_of X db))(eid := ar_links (abs_of X db) sid),
       ar_unconfirmed := (ar_unconfirmed (abs_of X db))(eid := None) \<rparr>"
  by (cases "get_prediction_predecessor X db sid") (simp_all add: invalidate_def repo_unfold)

end

section \<open>The search for links\<close>

abbreviation linked :: "('sid \<Rightarrow> 'sid option) \<Rightarrow> 'sid \<Rightarrow> 'sid \<Rightarrow> bool" where
  "linked f \<equiv> (\<lambda>s t. f s = Some t)\<^sup>+\<^sup>+"

lemma linked_None: "f s = None \<Longrightarrow> \<not> linked f s a"
  by (auto dest: tranclpD)

lemma linked_Some: "f s = Some t \<Longrightarrow> linked f s a \<longleftrightarrow> t = a \<or> linked f t a"
  by (metis (mono_tags, lifting) option.inject rtranclpD tranclp.r_into_trancl tranclpD tranclp_into_tranclp2)

text \<open>When the loop ends it has decided reachability along the links.\<close>

lemma link_loop_sound: "link_loop f a s = Some b \<Longrightarrow> b \<longleftrightarrow> linked f s a"
proof (rule link_loop.raw_induct [where P = "\<lambda>f a s b. b \<longleftrightarrow> linked f s a"])
  fix loop :: "('a \<Rightarrow> 'a option) \<Rightarrow> 'a \<Rightarrow> 'a \<Rightarrow> bool option" and f a s b
  assume IH: "\<And>f a s b. loop f a s = Some b \<Longrightarrow> b \<longleftrightarrow> linked f s a"
    and "(case f s of None \<Rightarrow> Some False | Some t \<Rightarrow> if t = a then Some True else loop f a t) = Some b"
  then show "b \<longleftrightarrow> linked f s a"
    by (cases "f s") (auto simp: linked_None linked_Some split: if_splits)
qed

text \<open>It ends when the links from the head reach the anchor, and when they come to an end.\<close>

lemma link_loop_reaches: "linked f s a \<Longrightarrow> link_loop f a s = Some True"
  by (induction rule: converse_tranclp_induct) (subst link_loop.simps; simp)+

lemma link_loop_wf:
  assumes "wfp (\<lambda>t s. f s = Some t)"
  shows "link_loop f a s = Some (linked f s a)"
  using assms
proof (induction s rule: wfp_induct_rule)
  case (less s)
  show ?case
  proof (cases "f s")
    case None
    then show ?thesis by (subst link_loop.simps) (simp add: linked_None)
  next
    case (Some t)
    then show ?thesis using less [of t] by (subst link_loop.simps) (simp add: linked_Some)
  qed
qed

section \<open>Reads over the abstract repository\<close>

context entity_repo
begin

lemma get_last_confirmed_abs:
  "get_last_confirmed X db i = map_option Confirmed (Option.bind (ar_confirmed (abs_of X db) i) (ar_states (abs_of X db)))"
  by (cases "db_get (env_db X) db (eid_key X LAST_CONFIRMED_PREFIX i)")
    (auto simp: get_last_confirmed_def abs_of_def get_state_def bind_eq_None_conv split: bind_splits)

lemma get_last_unconfirmed_abs:
  "get_last_unconfirmed X db i = map_option Unconfirmed (Option.bind (ar_unconfirmed (abs_of X db) i) (ar_states (abs_of X db)))"
  by (cases "db_get (env_db X) db (eid_key X LAST_UNCONFIRMED_PREFIX i)")
    (auto simp: get_last_unconfirmed_def abs_of_def get_state_def split: bind_splits)

lemma is_linking_abs: "is_linking X db s a = link_loop (ar_links (abs_of X db)) a s"
  by (simp add: is_linking_def abs_of_def)

end

text \<open>
  Well-formedness of the store: every stored link can be read back, and a state is stored under
  its own identifier.
\<close>

definition repo_wf :: "('e, 'eid, 'sid, 'db) entity_env \<Rightarrow> 'db \<Rightarrow> bool" where
  "repo_wf X db \<longleftrightarrow>
     (\<forall>s. db_get (env_db X) db (sid_key X PREDICTION_LINK_PREFIX s) \<noteq> None \<longrightarrow> get_prediction_predecessor X db s \<noteq> None) \<and>
     (\<forall>s e. get_state X db s = Some e \<longrightarrow> env_state_ref X e = s)"

datatype ('e, 'eid, 'sid) repo_op = OpPredicted "('e predicted, 'sid) traced" | OpConfirmed 'e | OpUnconfirmed 'e
  | OpInvalidate 'sid 'eid | OpEliminate 'e

fun apply_repo_op :: "('e, 'eid, 'sid, 'db) entity_env \<Rightarrow> ('e, 'eid, 'sid) repo_op \<Rightarrow> 'db \<Rightarrow> 'db" where
  "apply_repo_op X (OpPredicted t) db = put_predicted X db t"
| "apply_repo_op X (OpConfirmed e) db = put_confirmed X db (Confirmed e)"
| "apply_repo_op X (OpUnconfirmed e) db = put_unconfirmed X db (Unconfirmed e)"
| "apply_repo_op X (OpInvalidate s i) db = invalidate X db s i"
| "apply_repo_op X (OpEliminate e) db = eliminate X db e"

text \<open>The specification of resolution on the abstract repository.\<close>

definition abs_prediction :: "('e, 'eid, 'sid) abs_repo \<Rightarrow> 'eid \<Rightarrow> 'e option" where
  "abs_prediction R i = Option.bind (ar_predicted R i) (\<lambda>s. if ar_links R s = None then None else ar_states R s)"

definition abs_anchor :: "('e, 'eid, 'sid) abs_repo \<Rightarrow> 'eid \<Rightarrow> 'e option" where
  "abs_anchor R i = (case Option.bind (ar_unconfirmed R i) (ar_states R) of
     Some u \<Rightarrow> Some u | None \<Rightarrow> Option.bind (ar_confirmed R i) (ar_states R))"

definition abs_resolve :: "('e \<Rightarrow> 'sid) \<Rightarrow> ('e, 'eid, 'sid) abs_repo \<Rightarrow> 'eid \<Rightarrow> 'e option" where
  "abs_resolve sref R i = (case (abs_prediction R i, abs_anchor R i) of
     (Some p, Some a) \<Rightarrow>
       (if Option.bind (ar_confirmed R i) (ar_states R) = None then None
        else if sref p = sref a \<or> linked (ar_links R) (sref p) (sref a) then Some p else Some a)
   | (Some _, None) \<Rightarrow> None
   | (None, a) \<Rightarrow> a)"

context entity_repo
begin

lemma get_last_predicted_abs:
  assumes "repo_wf X db"
  shows "get_last_predicted X db i = map_option Predicted (abs_prediction (abs_of X db) i)"
proof -
  have raw: "db_get (env_db X) db (sid_key X PREDICTION_LINK_PREFIX s) = None \<longleftrightarrow> get_prediction_predecessor X db s = None" for s
    using assms by (cases "db_get (env_db X) db (sid_key X PREDICTION_LINK_PREFIX s)")
      (auto simp: repo_wf_def get_prediction_predecessor_def)
  show ?thesis
    by (auto simp: get_last_predicted_def abs_prediction_def abs_of_def get_state_def raw simp del: not_None_eq split: bind_splits if_splits)
qed

lemma resolve_abs:
  assumes wf: "repo_wf X db"
    and ends: "\<And>p a. abs_prediction (abs_of X db) i = Some p \<Longrightarrow> abs_anchor (abs_of X db) i = Some a \<Longrightarrow>
      link_loop (ar_links (abs_of X db)) (env_state_ref X a) (env_state_ref X p) \<noteq> None"
  shows "resolve_entity_state X db i = Some (abs_resolve (env_state_ref X) (abs_of X db) i)"
proof (cases "abs_prediction (abs_of X db) i")
  case None
  then show ?thesis
    by (auto simp: resolve_entity_state_def abs_resolve_def abs_anchor_def get_last_confirmed_abs get_last_unconfirmed_abs
        get_last_predicted_abs [OF wf] Let_def split: option.splits)
next
  case (Some p)
  have loop: "link_loop (ar_links (abs_of X db)) (env_state_ref X a) (env_state_ref X p) =
      Some (linked (ar_links (abs_of X db)) (env_state_ref X p) (env_state_ref X a))"
    if "abs_anchor (abs_of X db) i = Some a" for a
    using ends [OF Some that] link_loop_sound by fastforce
  show ?thesis
    by (cases "Option.bind (ar_confirmed (abs_of X db) i) (ar_states (abs_of X db))";
        cases "Option.bind (ar_unconfirmed (abs_of X db) i) (ar_states (abs_of X db))")
      (use loop in \<open>simp_all add: resolve_entity_state_def abs_resolve_def abs_anchor_def get_last_confirmed_abs get_last_unconfirmed_abs
        get_last_predicted_abs [OF wf] Let_def is_linking_abs Some\<close>)
qed

lemma repo_wf_put_confirmed: "repo_wf X db \<Longrightarrow> repo_wf X (put_confirmed X db (Confirmed e))"
  by (simp add: repo_wf_def put_confirmed_def repo_unfold)

lemma repo_wf_put_unconfirmed: "repo_wf X db \<Longrightarrow> repo_wf X (put_unconfirmed X db (Unconfirmed e))"
  by (simp add: repo_wf_def put_unconfirmed_def repo_unfold)

lemma repo_wf_put_predicted: "repo_wf X db \<Longrightarrow> repo_wf X (put_predicted X db t)"
  by (cases "tr_state t"; cases "tr_prev_state_id t") (simp_all add: repo_wf_def put_predicted_def repo_unfold)

lemma repo_wf_invalidate: "repo_wf X db \<Longrightarrow> repo_wf X (invalidate X db s i)"
  by (cases "get_prediction_predecessor X db s") (simp_all add: repo_wf_def invalidate_def repo_unfold)

lemma repo_wf_eliminate: "repo_wf X db \<Longrightarrow> repo_wf X (eliminate X db e)"
  by (simp add: repo_wf_def eliminate_def repo_unfold)

lemmas repo_wf_ops = repo_wf_put_confirmed repo_wf_put_unconfirmed repo_wf_put_predicted repo_wf_invalidate repo_wf_eliminate

lemma repo_wf_apply: "repo_wf X db \<Longrightarrow> repo_wf X (apply_repo_op X op db)"
  by (cases op) (simp_all add: repo_wf_ops)

lemma repo_wf_run: "repo_wf X db \<Longrightarrow> repo_wf X (fold (apply_repo_op X) ops db)"
  by (induction ops arbitrary: db) (simp_all add: repo_wf_apply)

end

text \<open>Predictions stacked one on the other, as an executor that chains transactions stores them.\<close>

fun stack_predictions :: "('e, 'eid, 'sid, 'db) entity_env \<Rightarrow> 'db \<Rightarrow> 'e \<Rightarrow> 'e list \<Rightarrow> 'db" where
  "stack_predictions X db prev [] = db"
| "stack_predictions X db prev (p # ps) =
     stack_predictions X (put_predicted X db \<lparr> tr_state = Predicted p, tr_prev_state_id = Some (env_state_ref X prev) \<rparr>) p ps"

context entity_repo
begin

lemma repo_wf_stack: "repo_wf X db \<Longrightarrow> repo_wf X (stack_predictions X db e ps)"
  by (induction ps arbitrary: db e) (simp_all add: repo_wf_put_predicted)

lemma stack_frame:
  "s \<notin> env_state_ref X ` set ps \<Longrightarrow> ar_links (abs_of X (stack_predictions X db e ps)) s = ar_links (abs_of X db) s"
  "s \<notin> env_state_ref X ` set ps \<Longrightarrow> ar_states (abs_of X (stack_predictions X db e ps)) s = ar_states (abs_of X db) s"
  "ar_confirmed (abs_of X (stack_predictions X db e ps)) = ar_confirmed (abs_of X db)"
  "ar_unconfirmed (abs_of X (stack_predictions X db e ps)) = ar_unconfirmed (abs_of X db)"
  by (induction ps arbitrary: db e) (simp_all add: abs_put_predicted)

lemma stack_linked:
  assumes "distinct (map (env_state_ref X) (e # ps))" "ps \<noteq> []"
  shows "linked (ar_links (abs_of X (stack_predictions X db e ps))) (env_state_ref X (last ps)) (env_state_ref X e)"
  using assms
proof (induction ps arbitrary: db e)
  case (Cons p ps)
  let ?R = "abs_of X (stack_predictions X db e (p # ps))"
  have first: "ar_links ?R (env_state_ref X p) = Some (env_state_ref X e)"
    using Cons.prems by (simp add: stack_frame abs_put_predicted)
  show ?case
  proof (cases "ps = []")
    case False
    then have "linked (ar_links ?R) (env_state_ref X (last ps)) (env_state_ref X p)" using Cons by simp
    then have "linked (ar_links ?R) (env_state_ref X (last ps)) (env_state_ref X e)" using first by (rule tranclp.trancl_into_trancl)
    then show ?thesis using False by simp
  qed (use first in auto)
qed simp

lemma stack_last:
  assumes "ps \<noteq> []" "\<forall>p \<in> set ps. env_ref X p = i"
  shows "ar_predicted (abs_of X (stack_predictions X db e ps)) i = Some (env_state_ref X (last ps))"
    and "distinct (map (env_state_ref X) ps) \<Longrightarrow>
      ar_states (abs_of X (stack_predictions X db e ps)) (env_state_ref X (last ps)) = Some (last ps)"
  using assms by (induction ps arbitrary: db e) (auto simp: abs_put_predicted stack_frame)

end

section \<open>Refinement of the operations\<close>

fun abs_apply_op :: "('e \<Rightarrow> 'eid) \<Rightarrow> ('e \<Rightarrow> 'sid) \<Rightarrow> ('e, 'eid, 'sid) repo_op \<Rightarrow> ('e, 'eid, 'sid) abs_repo \<Rightarrow> ('e, 'eid, 'sid) abs_repo" where
  "abs_apply_op ref sref (OpPredicted t) R = (case tr_state t of Predicted e \<Rightarrow> R
     \<lparr> ar_states := (ar_states R)(sref e \<mapsto> e), ar_predicted := (ar_predicted R)(ref e \<mapsto> sref e),
       ar_links := (case tr_prev_state_id t of Some s \<Rightarrow> (ar_links R)(sref e \<mapsto> s) | None \<Rightarrow> ar_links R) \<rparr>)"
| "abs_apply_op ref sref (OpConfirmed e) R =
     R \<lparr> ar_states := (ar_states R)(sref e \<mapsto> e), ar_confirmed := (ar_confirmed R)(ref e \<mapsto> sref e) \<rparr>"
| "abs_apply_op ref sref (OpUnconfirmed e) R =
     R \<lparr> ar_states := (ar_states R)(sref e \<mapsto> e), ar_unconfirmed := (ar_unconfirmed R)(ref e \<mapsto> sref e) \<rparr>"
| "abs_apply_op ref sref (OpInvalidate s i) R =
     R \<lparr> ar_confirmed := (ar_confirmed R)(i := ar_links R s), ar_links := (ar_links R)(s := None),
         ar_unconfirmed := (ar_unconfirmed R)(i := None) \<rparr>"
| "abs_apply_op ref sref (OpEliminate e) R =
     R \<lparr> ar_links := (ar_links R)(sref e := None), ar_predicted := (ar_predicted R)(ref e := None),
         ar_confirmed := (ar_confirmed R)(ref e := None), ar_unconfirmed := (ar_unconfirmed R)(ref e := None) \<rparr>"

context entity_repo
begin

lemma abs_apply: "abs_of X (apply_repo_op X op db) = abs_apply_op (env_ref X) (env_state_ref X) op (abs_of X db)"
proof (cases op)
  case (OpPredicted t)
  then show ?thesis
    by (cases t; cases "tr_state t") (simp add: abs_put_predicted)
qed (simp_all add: abs_put_confirmed abs_put_unconfirmed abs_invalidate abs_eliminate)

lemma abs_run:
  "abs_of X (fold (apply_repo_op X) ops db) = fold (abs_apply_op (env_ref X) (env_state_ref X)) ops (abs_of X db)"
  by (induction ops arbitrary: db) (simp_all add: abs_apply)

text \<open>After a tracked rollback or elimination nothing is left of the state in the three indices.\<close>

lemma resolve_no_prediction:
  assumes "repo_wf X db" "abs_prediction (abs_of X db) i = None"
  shows "resolve_entity_state X db i = Some (abs_anchor (abs_of X db) i)"
  using resolve_abs [OF assms(1), of i] assms(2) by (simp add: abs_resolve_def split: option.splits)

lemma resolve_stacked:
  assumes wf: "repo_wf X db" and ps: "ps \<noteq> []" "distinct (map (env_state_ref X) (e # ps))" "\<forall>p \<in> set ps. env_ref X p = env_ref X e"
    and fresh: "ar_unconfirmed (abs_of X db) (env_ref X e) = None"
  shows "resolve_entity_state X (stack_predictions X (put_confirmed X db (Confirmed e)) e ps) (env_ref X e) = Some (Some (last ps))"
proof -
  let ?db = "stack_predictions X (put_confirmed X db (Confirmed e)) e ps"
  let ?R = "abs_of X ?db"
  have wf': "repo_wf X ?db" using wf by (simp add: repo_wf_stack repo_wf_put_confirmed)
  have link: "linked (ar_links ?R) (env_state_ref X (last ps)) (env_state_ref X e)" using stack_linked ps by blast
  then have some: "ar_links ?R (env_state_ref X (last ps)) \<noteq> None" by (auto dest: tranclpD)
  have st: "ar_states ?R (env_state_ref X (last ps)) = Some (last ps)" using stack_last(2) [OF ps(1,3)] ps(2) by simp
  have pred: "abs_prediction ?R (env_ref X e) = Some (last ps)"
    using stack_last(1) ps some st by (simp add: abs_prediction_def)
  have anchor: "abs_anchor ?R (env_ref X e) = Some e" "Option.bind (ar_confirmed ?R (env_ref X e)) (ar_states ?R) = Some e"
    using fresh ps by (simp_all add: abs_anchor_def stack_frame abs_put_confirmed)
  have "link_loop (ar_links ?R) (env_state_ref X e) (env_state_ref X (last ps)) \<noteq> None" using link_loop_reaches [OF link] by simp
  then have "resolve_entity_state X ?db (env_ref X e) = Some (abs_resolve (env_state_ref X) ?R (env_ref X e))"
    using pred anchor by (intro resolve_abs [OF wf']) simp
  then show ?thesis using pred anchor link by (simp add: abs_resolve_def)
qed

lemma resolve_rolled_back:
  assumes wf: "repo_wf X db" and "get_prediction_predecessor X db (env_state_ref X e1) = Some (env_state_ref X e0)"
    and "get_state X db (env_state_ref X e0) = Some e0" "ar_predicted (abs_of X db) (env_ref X e1) = Some (env_state_ref X e1)"
  shows "resolve_entity_state X (invalidate X db (env_state_ref X e1) (env_ref X e1)) (env_ref X e1) = Some (Some e0)"
proof -
  have "ar_links (abs_of X db) (env_state_ref X e1) = Some (env_state_ref X e0)" "ar_states (abs_of X db) (env_state_ref X e0) = Some e0"
    using assms by (simp_all add: abs_of_def)
  then show ?thesis
    using assms(4) by (subst resolve_no_prediction [OF repo_wf_invalidate [OF wf]])
      (simp_all add: abs_invalidate abs_prediction_def abs_anchor_def)
qed

lemma resolve_eliminated:
  assumes "repo_wf X db"
  shows "resolve_entity_state X (eliminate X db e) (env_ref X e) = Some None"
  by (subst resolve_no_prediction [OF repo_wf_eliminate [OF assms]])
    (simp_all add: abs_eliminate abs_prediction_def abs_anchor_def)

lemma resolve_shadowed:
  assumes "repo_wf X db" "ar_predicted (abs_of X db) (env_ref X u) = None" "env_ref X c = env_ref X u"
    "env_state_ref X c \<noteq> env_state_ref X u"
  shows "resolve_entity_state X (put_confirmed X (put_unconfirmed X db (Unconfirmed u)) (Confirmed c)) (env_ref X u) = Some (Some u)"
  by (subst resolve_no_prediction) (simp_all add: assms assms(4) [symmetric] repo_wf_ops abs_put_confirmed abs_put_unconfirmed abs_prediction_def abs_anchor_def)

end

section \<open>Chains of predictions\<close>

text \<open>A new link does not break the paths that do not reach its source.\<close>

lemma linked_new: "linked f s a \<Longrightarrow> s \<noteq> n \<Longrightarrow> n \<notin> ran f \<Longrightarrow> linked (f(n \<mapsto> v)) s a"
proof (induction rule: converse_tranclp_induct)
  case (base s)
  then show ?case by auto
next
  case (step s t)
  then have "t \<noteq> n" by (auto simp: ran_def)
  then have "linked (f(n \<mapsto> v)) t a" using step by blast
  moreover have "(f(n \<mapsto> v)) s = Some t" using step by simp
  ultimately show ?case by (rule tranclp_into_tranclp2 [rotated])
qed

text \<open>A state identifier the repository does not know yet, as that of a new box.\<close>

definition unknown_state :: "('e, 'eid, 'sid, 'db) entity_env \<Rightarrow> 'db \<Rightarrow> 'sid \<Rightarrow> bool" where
  "unknown_state X db s \<longleftrightarrow> get_state X db s = None \<and> s \<notin> ran (get_prediction_predecessor X db) \<and> (\<forall>i. ar_unconfirmed (abs_of X db) i \<noteq> Some s)"

context entity_repo
begin

text \<open>A prediction stored on top of the resolved state is what is resolved next.\<close>

lemma resolved_is_linked:
  assumes wf: "repo_wf X db" and r: "resolve_entity_state X db i = Some (Some e)"
    and c: "Option.bind (ar_confirmed (abs_of X db) i) (ar_states (abs_of X db)) = Some c"
  shows "\<exists>a. abs_anchor (abs_of X db) i = Some a \<and> ar_states (abs_of X db) (env_state_ref X e) = Some e \<and>
    (env_state_ref X e = env_state_ref X a \<or> linked (ar_links (abs_of X db)) (env_state_ref X e) (env_state_ref X a))"
proof -
  let ?R = "abs_of X db"
  have st: "ar_states ?R s = Some x \<Longrightarrow> env_state_ref X x = s" for s x using wf by (simp add: repo_wf_def abs_of_def)
  obtain a where a: "abs_anchor ?R i = Some a"
    using c by (cases "Option.bind (ar_unconfirmed ?R i) (ar_states ?R)") (auto simp: abs_anchor_def)
  obtain s where s: "ar_states ?R s = Some a"
    using a by (cases "Option.bind (ar_unconfirmed ?R i) (ar_states ?R)") (auto simp: abs_anchor_def bind_eq_Some_conv)
  have sa: "ar_states ?R (env_state_ref X a) = Some a" unfolding st [OF s] by (rule s)
  show ?thesis
  proof (cases "abs_prediction ?R i")
    case None
    then show ?thesis using r resolve_no_prediction [OF wf] a sa by simp
  next
    case (Some p)
    then obtain s where s: "ar_states ?R s = Some p" by (auto simp: abs_prediction_def bind_eq_Some_conv split: if_splits)
    have sp: "ar_states ?R (env_state_ref X p) = Some p" unfolding st [OF s] by (rule s)
    have res: "resolve_entity_state X db i = (if env_state_ref X p = env_state_ref X a then Some (Some p)
        else do { valid \<leftarrow> link_loop (ar_links ?R) (env_state_ref X a) (env_state_ref X p); Some (Some (if valid then p else a)) })"
      using Some a c by (cases "Option.bind (ar_unconfirmed ?R i) (ar_states ?R)")
        (simp_all add: resolve_entity_state_def abs_anchor_def get_last_confirmed_abs get_last_unconfirmed_abs get_last_predicted_abs [OF wf] Let_def is_linking_abs)
    show ?thesis
    proof (cases "env_state_ref X p = env_state_ref X a")
      case True
      then have "e = p" using r res by simp
      then show ?thesis using True a sp by simp
    next
      case False
      then obtain v where v: "link_loop (ar_links ?R) (env_state_ref X a) (env_state_ref X p) = Some v" "e = (if v then p else a)"
        using r unfolding res by (cases "link_loop (ar_links ?R) (env_state_ref X a) (env_state_ref X p)") auto
      from link_loop_sound [OF v(1)] show ?thesis using v(2) a sa sp by (cases v) simp_all
    qed
  qed
qed

lemma resolve_chains:
  assumes wf: "repo_wf X db" and r: "resolve_entity_state X db i = Some (Some e)" and conf: "get_last_confirmed X db i \<noteq> None"
    and p: "env_ref X p = i" "unknown_state X db (env_state_ref X p)"
  shows "resolve_entity_state X (put_predicted X db \<lparr> tr_state = Predicted p, tr_prev_state_id = Some (env_state_ref X e) \<rparr>) i = Some (Some p)"
proof -
  let ?db = "put_predicted X db \<lparr> tr_state = Predicted p, tr_prev_state_id = Some (env_state_ref X e) \<rparr>"
  let ?R = "abs_of X db" and ?S = "abs_of X ?db" and ?n = "env_state_ref X p"
  obtain c where c: "Option.bind (ar_confirmed ?R i) (ar_states ?R) = Some c" using conf by (auto simp: get_last_confirmed_abs)
  obtain a where a: "abs_anchor ?R i = Some a" "ar_states ?R (env_state_ref X e) = Some e"
    "env_state_ref X e = env_state_ref X a \<or> linked (ar_links ?R) (env_state_ref X e) (env_state_ref X a)"
    using resolved_is_linked [OF wf r c] by blast
  have new: "ar_states ?R ?n = None" "?n \<notin> ran (ar_links ?R)" "ar_unconfirmed ?R i \<noteq> Some ?n"
    using p(2) by (simp_all add: unknown_state_def abs_of_def)
  have S: "ar_states ?S = (ar_states ?R)(?n \<mapsto> p)" "ar_links ?S = (ar_links ?R)(?n \<mapsto> env_state_ref X e)"
    "ar_predicted ?S i = Some ?n" "ar_confirmed ?S = ar_confirmed ?R" "ar_unconfirmed ?S = ar_unconfirmed ?R"
    using p(1) by (simp_all add: abs_put_predicted)
  have en: "env_state_ref X e \<noteq> ?n" using a(2) new(1) by auto
  have "linked (ar_links ?S) ?n (env_state_ref X a)"
  proof (cases "env_state_ref X e = env_state_ref X a")
    case True
    then show ?thesis using S(2) by auto
  next
    case False
    then have "linked (ar_links ?S) (env_state_ref X e) (env_state_ref X a)" using a(3) en new(2) unfolding S(2) by (intro linked_new) auto
    moreover have "ar_links ?S ?n = Some (env_state_ref X e)" using S(2) by simp
    ultimately show ?thesis by (metis (mono_tags, lifting) tranclp_into_tranclp2)
  qed
  note link = this
  have pred: "abs_prediction ?S i = Some p" using S by (simp add: abs_prediction_def)
  have conf': "Option.bind (ar_confirmed ?S i) (ar_states ?S) = Some c" using c new(1) S by (auto simp: bind_eq_Some_conv)
  have "Option.bind (ar_unconfirmed ?S i) (ar_states ?S) = Option.bind (ar_unconfirmed ?R i) (ar_states ?R)"
    using S new(3) by (cases "ar_unconfirmed ?R i") auto
  then have anchor: "abs_anchor ?S i = Some a" using a(1) c conf' unfolding abs_anchor_def by (simp split: option.splits)
  have "resolve_entity_state X ?db i = Some (abs_resolve (env_state_ref X) ?S i)"
    using pred anchor link_loop_reaches [OF link] by (intro resolve_abs [OF repo_wf_put_predicted [OF wf]]) simp
  then show ?thesis using pred anchor conf' link by (simp add: abs_resolve_def)
qed

end

section \<open>Instance\<close>

text \<open>The entity of the repository's tests (a token and a box), on the in-memory store.\<close>

definition entity_codec :: "(digest32 \<times> digest32) codec" where
  "entity_codec = \<lparr> ser = (\<lambda>(a, b). to_be_bytes 32 a @ to_be_bytes 32 b),
     de = (\<lambda>bs. if length bs = 64 then Some (from_be_bytes (take 32 bs), from_be_bytes (drop 32 bs)) else None) \<rparr>"

interpretation entity_bytes: codec_laws entity_codec
  by unfold_locales (auto simp: entity_codec_def codec_simps)

definition test_env :: "(digest32 \<times> digest32, digest32, digest32, mem_db) entity_env" where
  "test_env = \<lparr> env_db = mem_rocksdb, env_str = bincode_str, env_eid = digest_codec, env_sid = digest_codec,
     env_entity = entity_codec, env_ref = fst, env_state_ref = snd \<rparr>"

interpretation test_repo: entity_repo test_env
  by (rule entity_repo.intro) (simp_all add: test_env_def mem.rocksdb_laws_axioms
      bin.bincode_strings_axioms digest.codec_laws_axioms entity_bytes.codec_laws_axioms)

lemma empty_repo:
  "repo_wf test_env RBT.empty" "ar_unconfirmed (abs_of test_env RBT.empty) i = None" "ar_links (abs_of test_env RBT.empty) s = None"
  by (simp_all add: repo_wf_def get_state_def get_prediction_predecessor_def test_env_def mem_rocksdb_def abs_of_def)

lemma test_refs [simp]: "env_ref test_env e = fst e" "env_state_ref test_env e = snd e"
  by (simp_all add: test_env_def)

section \<open>Properties\<close>

text \<open>C9: Any number of predictions stacked on a confirmed state resolves to the last of them:
  the walk over the links ends and reaches the confirmed state.  The states have distinct
  identifiers, belong to one entity, and no unconfirmed state of it is known.\<close>

theorem stacked_predictions_resolve:
  assumes "entity_repo X" "repo_wf X db" "ar_unconfirmed (abs_of X db) (env_ref X e) = None"
    and "ps \<noteq> []" "distinct (map (env_state_ref X) (e # ps))" "\<forall>p \<in> set ps. env_ref X p = env_ref X e"
  shows "resolve_entity_state X (stack_predictions X (put_confirmed X db (Confirmed e)) e ps) (env_ref X e) = Some (Some (last ps))"
  using entity_repo.resolve_stacked [OF assms(1,2,4-6,3)] .

theorem stacked_predictions_resolve_witness:
  "resolve_entity_state test_env (stack_predictions test_env (put_confirmed test_env RBT.empty (Confirmed (7, 1))) (7, 1) [(7, 2), (7, 3)]) 7 = Some (Some (7, 3))"
  using stacked_predictions_resolve [of test_env RBT.empty "(7, 1)" "[(7, 2), (7, 3)]"]
  by (simp add: test_repo.entity_repo_axioms empty_repo)



text \<open>C25: Every sequence of repository operations acts on the five families of keys as on five
  finite maps, and keeps the store well-formed: no key of one family, and no key of another
  state or entity, is ever touched.\<close>

theorem repo_refines_maps:
  assumes "entity_repo X" "repo_wf X db"
  shows "abs_of X (fold (apply_repo_op X) ops db) = fold (abs_apply_op (env_ref X) (env_state_ref X)) ops (abs_of X db) \<and>
    repo_wf X (fold (apply_repo_op X) ops db)"
  using entity_repo.abs_run [OF assms(1)] entity_repo.repo_wf_run [OF assms] by blast

theorem repo_refines_maps_witness:
  "ar_confirmed (abs_of test_env (fold (apply_repo_op test_env) [OpConfirmed (7, 1), OpConfirmed (7, 2), OpEliminate (8, 3)] RBT.empty)) 7 = Some 2"
  using repo_refines_maps [OF test_repo.entity_repo_axioms empty_repo(1), of "[OpConfirmed (7, 1), OpConfirmed (7, 2), OpEliminate (8, 3)]"]
  by simp

text \<open>When the state a prediction produced is rolled back, the repository falls back to
  the state the prediction was made from; when an entity's last state is spent without a
  successor, nothing is resolved for it any more.\<close>

theorem rollback_and_elimination_resolve:
  assumes "entity_repo X" "repo_wf X db"
    and "get_prediction_predecessor X db (env_state_ref X e1) = Some (env_state_ref X e0)"
    and "get_state X db (env_state_ref X e0) = Some e0"
    and "ar_predicted (abs_of X db) (env_ref X e1) = Some (env_state_ref X e1)"
  shows "resolve_entity_state X (entity_tracking_step X db (Confirmed (TransitionRollback (ELeft e1)))) (env_ref X e1) = Some (Some e0) \<and>
    resolve_entity_state X (entity_tracking_step X db (Confirmed (Transition (ELeft e1)))) (env_ref X e1) = Some None"
  using entity_repo.resolve_rolled_back [OF assms] entity_repo.resolve_eliminated [OF assms(1,2)] by simp

theorem rollback_and_elimination_resolve_witness:
  "resolve_entity_state test_env (entity_tracking_step test_env
      (stack_predictions test_env (put_confirmed test_env RBT.empty (Confirmed (7, 1))) (7, 1) [(7, 2)])
      (Confirmed (TransitionRollback (ELeft (7, 2))))) 7 = Some (Some (7, 1))"
proof -
  let ?db = "stack_predictions test_env (put_confirmed test_env RBT.empty (Confirmed (7, 1))) (7, 1) [(7, 2)]"
  have R: "ar_links (abs_of test_env ?db) 2 = Some 1" "ar_states (abs_of test_env ?db) 1 = Some (7, 1)"
    "ar_predicted (abs_of test_env ?db) 7 = Some 2"
    by (simp_all add: test_repo.abs_put_predicted test_repo.abs_put_confirmed)
  then have "get_prediction_predecessor test_env ?db 2 = Some 1" "get_state test_env ?db 1 = Some (7, 1)" by (simp_all add: abs_of_def)
  moreover have "repo_wf test_env ?db" by (simp add: test_repo.repo_wf_ops empty_repo)
  ultimately show ?thesis
    using rollback_and_elimination_resolve [of test_env ?db "(7, 2)" "(7, 1)"] R(3) test_repo.entity_repo_axioms by simp
qed

text \<open>A state seen in the mempool keeps shadowing later confirmed states: a confirmed update
  does not clear the unconfirmed index, so without a prediction the older unconfirmed state is
  resolved although a different state of the entity has been confirmed since.\<close>

theorem stale_unconfirmed_shadows_confirmed:
  assumes "entity_repo X" "repo_wf X db" "ar_predicted (abs_of X db) (env_ref X u) = None" "env_ref X c = env_ref X u"
    "env_state_ref X c \<noteq> env_state_ref X u"
  shows "resolve_entity_state X
      (entity_tracking_step X (put_unconfirmed X db (Unconfirmed u)) (Confirmed (Transition (EBoth u c)))) (env_ref X u) = Some (Some u)"
  using entity_repo.resolve_shadowed [OF assms] by simp

theorem stale_unconfirmed_shadows_confirmed_witness:
  "resolve_entity_state test_env
     (entity_tracking_step test_env (put_unconfirmed test_env RBT.empty (Unconfirmed (7, 1))) (Confirmed (Transition (EBoth (7, 1) (7, 2))))) 7
   = Some (Some (7, 1))"
  using stale_unconfirmed_shadows_confirmed [OF test_repo.entity_repo_axioms empty_repo(1), of "(7, 1)" "(7, 2)"]
  by (simp add: abs_of_def test_env_def mem_rocksdb_def)

end
