(* ===== verification/Node_Errors.thy ===== *)
theory Node_Errors
  imports Prelude "HOL-Library.Sublist"
begin

text \<open>
  What the node answers to a rejected transaction and what the executor makes of it:
  \<open>parse_err\<close> and \<open>generate_invalidations\<close> of \<open>spectrum-offchain/src/executor.rs\<close>.  A string is
  the list of its bytes; the messages of the node are ASCII, so \<open>trim\<close> removes ASCII white space
  and a byte above 127 at the end makes the slice panic (it would cut a character).  \<open>None\<close> is a
  panic: of the slice of an empty rest, and of \<open>unwrap\<close> on a piece that is no \<open>i32\<close>.

  Results: the parser recovers exactly the indices the node printed, whatever text stands before
  them; every missing input of a transaction is blamed on exactly one of its parts.
\<close>

section \<open>Strings\<close>

definition contains :: "string \<Rightarrow> string \<Rightarrow> bool" where
  "contains s pat \<longleftrightarrow> (\<exists>t \<in> set (suffixes s). prefix pat t)"

definition error_description :: string where "error_description = ''Missing inputs: ''"

text \<open>The last piece of \<open>err.split(error_description)\<close>: pieces are cut at the occurrences found from
  left to right; \<open>cur\<close> is the rest from the start of the current piece.\<close>

function last_piece :: "string \<Rightarrow> string \<Rightarrow> string" where
  "last_piece cur s = (if prefix error_description s
     then last_piece (drop (length error_description) s) (drop (length error_description) s)
     else (case s of [] \<Rightarrow> cur | _ # t \<Rightarrow> last_piece cur t))"
  by auto
termination
  by (relation "measure (length \<circ> snd)") (auto simp: error_description_def prefix_def)

declare last_piece.simps [simp del]

fun split_char :: "char \<Rightarrow> string \<Rightarrow> string list" where
  "split_char c [] = [[]]"
| "split_char c (x # xs) = (if x = c then [] # split_char c xs
     else (case split_char c xs of [] \<Rightarrow> [[x]] | p # ps \<Rightarrow> (x # p) # ps))"

definition is_space :: "char \<Rightarrow> bool" where
  "is_space c \<longleftrightarrow> (let k = of_char c :: nat in k = 32 \<or> 9 \<le> k \<and> k \<le> 13)"

definition trim :: "string \<Rightarrow> string" where
  "trim s = rev (dropWhile is_space (rev (dropWhile is_space s)))"

definition parse_digits :: "string \<Rightarrow> nat option" where
  "parse_digits s = (if s = [] then None else map_option (foldl (\<lambda>a d. 10 * a + d) 0) (those (map digit_val s)))"

definition parse_i32 :: "string \<Rightarrow> i32 option" where
  "parse_i32 s = (case s of
      [] \<Rightarrow> None
    | c # t \<Rightarrow>
        if c = CHR ''-'' then Option.bind (parse_digits t) (\<lambda>n. if n \<le> 2 ^ 31 then Some (- of_nat n) else None)
        else Option.bind (parse_digits (if c = CHR ''+'' then t else s)) (\<lambda>n. if n < 2 ^ 31 then Some (of_nat n) else None))"

section \<open>parse\_err\<close>

datatype node_submit_tx_error = MissingInputs "i32 list" | DoubleSpend | Unhandled | ScriptsOfInputsDontPassVerification

definition parse_err :: "string \<Rightarrow> node_submit_tx_error panics" where
  "parse_err err =
     (if contains err error_description then
        (let s = last_piece err err
         in if s = [] \<or> 128 \<le> (of_char (last s) :: nat) then None
            else map_option MissingInputs (those (map (\<lambda>p. parse_i32 (trim p)) (split_char CHR '','' (butlast s)))))
      else if contains err ''Double spending attempt'' then Some DoubleSpend
      else if contains err ''Scripts of all transaction inputs should pass verification'' then Some ScriptsOfInputsDontPassVerification
      else Some Unhandled)"

section \<open>generate\_invalidations\<close>

datatype 'bid order_type = ODeposit | OCompound "'bid list" | ORedeem

datatype invalidation = InvPool | InvStakingBundles "nat list" | InvOrder | InvFunding "nat list"

definition ix_usize :: "i32 \<Rightarrow> nat" where
  "ix_usize ix = unat (scast ix :: u64)"

definition missing_funding_ixs :: "nat \<Rightarrow> i32 list \<Rightarrow> nat list" where
  "missing_funding_ixs n missing = map Suc (filter (\<lambda>i. (of_nat (i + 1) :: i32) \<in> set missing) [0..<n])"

definition bundles_to_invalidate :: "nat \<Rightarrow> i32 list \<Rightarrow> nat list" where
  "bundles_to_invalidate n missing = filter (\<lambda>ix. n < ix) (map ix_usize missing)"

definition generate_invalidations :: "'bid order_type \<Rightarrow> i32 list \<Rightarrow> invalidation list" where
  "generate_invalidations ot missing =
     (if 0 \<in> set missing then [InvPool] else []) @
     (case ot of
        ODeposit \<Rightarrow> (if 1 \<in> set missing then [InvOrder] else [])
      | OCompound funding \<Rightarrow>
          InvFunding (missing_funding_ixs (length funding) missing) #
          (let bs = bundles_to_invalidate (length funding) missing in if bs \<noteq> [] then [InvStakingBundles bs] else [])
      | ORedeem \<Rightarrow>
          (if 1 \<in> set missing then [InvStakingBundles [1]] else []) @
          (if 2 \<in> set missing then [InvOrder] else []))"

section \<open>Reading back printed indices\<close>

definition show_i32 :: "i32 \<Rightarrow> string" where
  "show_i32 w = (if sint w < 0 then CHR ''-'' # show_nat (nat (- sint w)) else show_nat (nat (sint w)))"

fun render_ixs :: "i32 list \<Rightarrow> string" where
  "render_ixs [] = []"
| "render_ixs [x] = show_i32 x"
| "render_ixs (x # xs) = show_i32 x @ '', '' @ render_ixs xs"

lemma show_nat_nonempty [simp]: "show_nat n \<noteq> []"
  by (subst show_nat.simps) simp

lemma digit_char_simps: "d < 10 \<Longrightarrow> of_char (digit_char d) = (48 + d :: nat)"
  by (simp add: digit_char_def)

lemma show_nat_digits: "c \<in> set (show_nat n) \<Longrightarrow> 48 \<le> (of_char c :: nat) \<and> (of_char c :: nat) \<le> 57"
proof (induction n arbitrary: c rule: show_nat.induct)
  case (1 n)
  then show ?case
    by (subst (asm) (2) show_nat.simps) (auto simp: digit_char_simps split: if_splits)
qed

lemma those_append: "those (xs @ ys) = (case those xs of None \<Rightarrow> None | Some a \<Rightarrow> map_option ((@) a) (those ys))"
  by (cases "those ys"; induction xs) (auto split: option.splits)

lemma parse_digits_show_nat [simp]: "parse_digits (show_nat n) = Some n"
proof -
  have "\<exists>ds. those (map digit_val (show_nat n)) = Some ds \<and> foldl (\<lambda>a d. 10 * a + d) 0 ds = n"
  proof (induction n rule: show_nat.induct)
    case (1 n)
    show ?case
    proof (cases "n < 10")
      case True
      then show ?thesis by (subst show_nat.simps) simp
    next
      case False
      with 1 obtain ds where "those (map digit_val (show_nat (n div 10))) = Some ds" "foldl (\<lambda>a d. 10 * a + d) 0 ds = n div 10" by blast
      then show ?thesis using False by (subst show_nat.simps) (auto simp: those_append)
    qed
  qed
  then show ?thesis by (auto simp: parse_digits_def)
qed

lemma int_range: "- (2 ^ 31) \<le> sint (w :: i32)" "sint w < 2 ^ 31"
  using sint_ge [of w] sint_lt [of w] by simp_all

lemma show_i32_chars:
  "c \<in> set (show_i32 w) \<Longrightarrow> (of_char c :: nat) = 45 \<or> 48 \<le> (of_char c :: nat) \<and> (of_char c :: nat) \<le> 57"
  using show_nat_digits by (auto simp: show_i32_def split: if_splits)

lemma show_i32_nonempty [simp]: "show_i32 w \<noteq> []"
  by (simp add: show_i32_def)

lemma parse_show_i32 [simp]: "parse_i32 (show_i32 w) = Some w"
proof (cases "sint w < 0")
  case True
  then have "nat (- sint w) \<le> 2 ^ 31" using int_range [of w] by simp
  moreover have "- of_nat (nat (- sint w)) = w" using True by simp
  ultimately show ?thesis using True by (simp add: show_i32_def parse_i32_def)
next
  case False
  then have lt: "nat (sint w) < 2 ^ 31" and eq: "of_nat (nat (sint w)) = w" using int_range [of w] by simp_all
  obtain c t where s: "show_nat (nat (sint w)) = c # t" by (cases "show_nat (nat (sint w))") auto
  then have "48 \<le> (of_char c :: nat)" using show_nat_digits [of c "nat (sint w)"] by simp
  then have "c \<noteq> CHR ''-''" "c \<noteq> CHR ''+''" by auto
  moreover have "parse_digits (c # t) = Some (nat (sint w))" using parse_digits_show_nat [of "nat (sint w)"] s by simp
  ultimately show ?thesis using False s lt eq by (simp add: show_i32_def parse_i32_def)
qed

lemma dropWhile_none: "xs = [] \<or> \<not> P (hd xs) \<Longrightarrow> dropWhile P xs = xs"
  by (cases xs) auto

lemma trim_show_i32 [simp]: "trim (show_i32 w) = show_i32 w" "trim (CHR '' '' # show_i32 w) = show_i32 w"
proof -
  have "\<not> is_space c" if "c \<in> set (show_i32 w)" for c
    using show_i32_chars [OF that] by (auto simp: is_space_def Let_def)
  then have "dropWhile is_space (show_i32 w) = show_i32 w" "dropWhile is_space (rev (show_i32 w)) = rev (show_i32 w)"
    by (auto intro!: dropWhile_none simp: hd_rev)
  then show "trim (show_i32 w) = show_i32 w" "trim (CHR '' '' # show_i32 w) = show_i32 w"
    by (simp_all add: trim_def is_space_def)
qed

lemma split_char_none: "c \<notin> set a \<Longrightarrow> split_char c a = [a]"
  by (induction a) auto

lemma split_char_append: "c \<notin> set a \<Longrightarrow> split_char c (a @ c # b) = a # split_char c b"
  by (induction a) auto

lemma comma_show_i32 [simp]: "CHR '','' \<notin> set (show_i32 w)"
  using show_i32_chars [of "CHR '',''" w] by auto

lemma parse_rendered:
  assumes "xs \<noteq> []" "sp = [] \<or> sp = '' ''"
  shows "those (map (\<lambda>p. parse_i32 (trim p)) (split_char CHR '','' (sp @ render_ixs xs))) = Some xs"
  using assms
proof (induction xs arbitrary: sp rule: render_ixs.induct)
  case (2 x)
  then have "CHR '','' \<notin> set (sp @ show_i32 x)" by auto
  then show ?case using 2(2) by (auto simp: split_char_none simp del: split_char.simps)
next
  case (3 x y ys)
  have "split_char CHR '','' ((sp @ show_i32 x) @ CHR '','' # '' '' @ render_ixs (y # ys)) =
      (sp @ show_i32 x) # split_char CHR '','' ('' '' @ render_ixs (y # ys))" using 3(3) by (intro split_char_append) auto
  moreover have "parse_i32 (trim (sp @ show_i32 x)) = Some x" using 3(3) by auto
  ultimately show ?case using 3(1) [of "'' ''"] by (simp del: split_char.simps)
qed simp

lemma render_chars: "c \<in> set (render_ixs xs) \<Longrightarrow> c \<noteq> CHR ''M''"
  by (induction xs rule: render_ixs.induct) (auto dest: show_i32_chars)

lemma last_piece_none: "CHR ''M'' \<notin> set s \<Longrightarrow> last_piece cur s = cur"
proof (induction s)
  case (Cons c s)
  then have "\<not> prefix error_description (c # s)" by (auto simp: error_description_def)
  then show ?case using Cons by (subst last_piece.simps) simp
qed (subst last_piece.simps, simp add: error_description_def)

text \<open>The description cannot overlap itself, so it is found wherever it stands.\<close>

lemma last_piece_found:
  "CHR ''M'' \<notin> set r \<Longrightarrow> last_piece cur (pre @ error_description @ r) = r"
proof (induction "length pre" arbitrary: pre cur rule: less_induct)
  case less
  let ?s = "pre @ error_description @ r"
  show ?case
  proof (cases "prefix error_description ?s")
    case True
    have "length pre = 0 \<or> length error_description \<le> length pre"
    proof (rule ccontr)
      assume n: "\<not> ?thesis"
      obtain zs where "?s = error_description @ zs" using True by (auto simp: prefix_def)
      then have "error_description ! length pre = ?s ! length pre" using n by (simp only: nth_append) simp
      then have "error_description ! length pre = CHR ''M''" by (simp add: nth_append error_description_def)
      moreover have "length pre \<in> {1..15}" using n by (auto simp: error_description_def Suc_le_eq)
      ultimately show False
        by (auto simp: error_description_def nth_Cons' split: if_splits)
    qed
    then show ?thesis
    proof
      assume "length pre = 0"
      then show ?thesis using True less.prems by (subst last_piece.simps) (simp add: last_piece_none)
    next
      assume l: "length error_description \<le> length pre"
      then have "last_piece cur ?s = last_piece (drop (length error_description) ?s) (drop (length error_description) pre @ error_description @ r)"
        using True by (subst last_piece.simps) simp
      also have "\<dots> = r" using less l by (intro less.hyps) (simp_all add: error_description_def)
      finally show ?thesis .
    qed
  next
    case False
    then obtain c p where "pre = c # p" by (cases pre) auto
    then show ?thesis using False less by (subst last_piece.simps) simp
  qed
qed

section \<open>Blame\<close>

text \<open>The positions of the inputs an invalidation speaks of: the pool box comes first, then the
  order or, in a compounding, the funding boxes and the bundles; a redeem has the bundle before the
  order.\<close>

fun blamed :: "'bid order_type \<Rightarrow> invalidation \<Rightarrow> nat set" where
  "blamed ot InvPool = {0}"
| "blamed ot InvOrder = (case ot of ODeposit \<Rightarrow> {1} | ORedeem \<Rightarrow> {2} | OCompound _ \<Rightarrow> {})"
| "blamed ot (InvFunding ixs) = set ixs"
| "blamed ot (InvStakingBundles ixs) = set ixs"

text \<open>The inputs of the transactions: those of a compounding with \<open>k\<close> bundles follow the funding.\<close>

fun input_count :: "'bid order_type \<Rightarrow> nat \<Rightarrow> nat" where
  "input_count ODeposit k = 2"
| "input_count ORedeem k = 3"
| "input_count (OCompound funding) k = 1 + length funding + k"

lemma ix_usize_of_nat [simp]:
  assumes "i < 2 ^ 31"
  shows "ix_usize (of_nat i) = i"
proof -
  have "sint (of_nat i :: i32) = int i"
    using assms by (simp add: signed_of_nat signed_take_bit_int_eq_self)
  then have "(scast (of_nat i :: i32) :: u64) = of_nat i" by (simp add: scast_eq)
  then show ?thesis using assms by (simp add: ix_usize_def unat_of_nat_u64)
qed

lemma of_nat_i32_inject: "i < 2 ^ 31 \<Longrightarrow> j < 2 ^ 31 \<Longrightarrow> (of_nat i :: i32) = of_nat j \<longleftrightarrow> i = j"
  by (metis ix_usize_of_nat)

lemma of_nat_mem: "\<forall>i \<in> set ixs. i < 2 ^ 31 \<Longrightarrow> j < 2 ^ 31 \<Longrightarrow> (of_nat j :: i32) \<in> set (map of_nat ixs) \<longleftrightarrow> j \<in> set ixs"
  by (auto simp: of_nat_i32_inject)

lemma small_mem:
  assumes "\<forall>i \<in> set ixs. i < 2 ^ 31"
  shows "(0 :: i32) \<in> set (map of_nat ixs) \<longleftrightarrow> 0 \<in> set ixs" "(1 :: i32) \<in> set (map of_nat ixs) \<longleftrightarrow> 1 \<in> set ixs"
    "(2 :: i32) \<in> set (map of_nat ixs) \<longleftrightarrow> 2 \<in> set ixs"
  using of_nat_mem [OF assms, of 0] of_nat_mem [OF assms, of 1] of_nat_mem [OF assms, of 2] by simp_all

lemma missing_funding_set:
  assumes "\<forall>i \<in> set ixs. i < 2 ^ 31" "n < 2 ^ 31"
  shows "set (missing_funding_ixs n (map of_nat ixs)) = set ixs \<inter> {1..n}"
proof -
  have "(of_nat (i + 1) :: i32) \<in> set (map of_nat ixs) \<longleftrightarrow> i + 1 \<in> set ixs" if "i < n" for i
    using that assms by (intro of_nat_mem) simp_all
  then have "set (missing_funding_ixs n (map of_nat ixs)) = Suc ` {i. i < n \<and> i + 1 \<in> set ixs}"
    unfolding missing_funding_ixs_def by auto
  also have "\<dots> = set ixs \<inter> {1..n}"
  proof (rule set_eqI)
    fix x
    show "x \<in> Suc ` {i. i < n \<and> i + 1 \<in> set ixs} \<longleftrightarrow> x \<in> set ixs \<inter> {1..n}" by (cases x) auto
  qed
  finally show ?thesis .
qed

lemma bundles_set:
  assumes "\<forall>i \<in> set ixs. i < 2 ^ 31"
  shows "bundles_to_invalidate n (map of_nat ixs) = filter (\<lambda>i. n < i) ixs"
proof -
  have "map ix_usize (map of_nat ixs) = ixs" using assms by (induction ixs) auto
  then show ?thesis by (simp only: bundles_to_invalidate_def)
qed

lemma parse_err_rendered:
  assumes "xs \<noteq> []"
  shows "parse_err (pre @ ''Missing inputs: '' @ render_ixs xs @ '']'') = Some (MissingInputs xs)"
proof -
  let ?e = "pre @ error_description @ render_ixs xs @ '']''"
  have "contains ?e error_description"
    by (auto simp: contains_def intro!: bexI [of _ "error_description @ render_ixs xs @ '']''"] suffixI)
  moreover have "last_piece ?e ?e = render_ixs xs @ '']''" using render_chars by (intro last_piece_found) auto
  ultimately have "parse_err ?e = Some (MissingInputs xs)"
    using parse_rendered [OF assms, of "[]"] by (simp add: parse_err_def)
  then show ?thesis by (simp add: error_description_def)
qed

section \<open>Properties\<close>

text \<open>C27: From every message that ends in the description, the indices joined by a comma and a
  space, and the closing bracket, the parser recovers exactly the printed indices, negative ones
  included, whatever text comes before.\<close>

theorem parse_err_recovers_indices:
  assumes "xs \<noteq> []"
  shows "parse_err (pre @ ''Missing inputs: '' @ render_ixs xs @ '']'') = Some (MissingInputs xs)"
  using assms by (rule parse_err_rendered)

theorem parse_err_recovers_indices_witness:
  "parse_err (''[Malformed transaction: '' @ ''Missing inputs: '' @ render_ixs [0, 12, - 3] @ '']'') = Some (MissingInputs [0, 12, - 3])"
  by (rule parse_err_recovers_indices) simp

text \<open>C26: Every input the node reports missing is blamed on exactly one part of the transaction:
  the positions of the generated invalidations are together the reported ones and no two
  invalidations share a position.  The bundles of a compounding start right after the funding
  boxes; indices are below the number of inputs, which fits \<open>i32\<close>.\<close>

theorem missing_inputs_blamed_once:
  assumes "\<forall>i \<in> set ixs. i < input_count ot k" "input_count ot k \<le> 2 ^ 31"
  shows "(\<Union>inv \<in> set (generate_invalidations ot (map of_nat ixs)). blamed ot inv) = set ixs \<and>
    pairwise (\<lambda>a b. blamed ot a \<inter> blamed ot b = {}) (set (generate_invalidations ot (map of_nat ixs)))"
proof -
  have lt: "\<forall>i \<in> set ixs. i < 2 ^ 31" using assms by fastforce
  show ?thesis
  proof (cases ot)
    case (OCompound funding)
    have n: "length funding < 2 ^ 31" using assms(2) OCompound by simp
    define F where "F = missing_funding_ixs (length funding) (map of_nat ixs)"
    define B where "B = filter (\<lambda>i. length funding < i) ixs"
    have FB: "set F = set ixs \<inter> {1..length funding}" "set B = set ixs \<inter> {length funding<..}"
      unfolding F_def B_def missing_funding_set [OF lt n] by auto
    have gen: "generate_invalidations ot (map of_nat ixs) =
        (if 0 \<in> set ixs then [InvPool] else []) @ InvFunding F # (if B \<noteq> [] then [InvStakingBundles B] else [])"
      unfolding generate_invalidations_def small_mem [OF lt] bundles_set [OF lt] by (simp add: OCompound F_def B_def)
    have "set ixs = (if 0 \<in> set ixs then {0} else {}) \<union> set F \<union> set B"
      unfolding FB by (auto simp: not_le Suc_le_eq intro: gr0I)
    then have "(\<Union>inv \<in> set (generate_invalidations ot (map of_nat ixs)). blamed ot inv) = set ixs"
      unfolding gen by (cases "B = []") (simp_all add: Un_assoc split: if_splits)
    moreover have "0 \<notin> set F" "0 \<notin> set B" "set F \<inter> set B = {}" "set B \<inter> set F = {}" using FB by auto
    ultimately show ?thesis unfolding gen by (cases "B = []"; cases "0 \<in> set ixs") (auto simp: pairwise_insert)
  next
    case ODeposit
    then have "\<forall>i \<in> set ixs. i = 0 \<or> i = 1" using assms(1) by (auto simp: less_2_cases_iff)
    moreover from this have "ixs = [] \<or> 0 \<in> set ixs \<or> 1 \<in> set ixs" by (cases ixs) auto
    ultimately show ?thesis using ODeposit unfolding generate_invalidations_def small_mem [OF lt]
      by (auto simp: pairwise_def)
  next
    case ORedeem
    then have "\<forall>i \<in> set ixs. i = 0 \<or> i = 1 \<or> i = 2" using assms(1) by auto
    moreover from this have "ixs = [] \<or> 0 \<in> set ixs \<or> 1 \<in> set ixs \<or> 2 \<in> set ixs" by (cases ixs) auto
    ultimately show ?thesis using ORedeem unfolding generate_invalidations_def small_mem [OF lt]
      by (auto simp: pairwise_def)
  qed
qed

theorem missing_inputs_blamed_once_witness:
  "(\<Union>inv \<in> set (generate_invalidations (OCompound [()]) (map of_nat [0, 3, 1])). blamed (OCompound [()]) inv) = {0, 1, 3}"
  using missing_inputs_blamed_once [of "[0, 3, 1]" "OCompound [()]" 2] by auto

end
