(* ===== verification/Chain_Cache.thy ===== *)
theory Chain_Cache
  imports Storage
begin

text \<open>
  Synchronisation with the chain: crate \<open>ergo-chain-sync\<close>.  Blocks (\<open>model.rs\<close>, \<open>client/model.rs\<close>), the
  two caches of applied blocks (\<open>cache/chain_cache.rs\<close>: \<open>InMemoryCache\<close>; \<open>cache/rocksdb.rs\<close>:
  \<open>ChainCacheRocksDB\<close>), the requests of the node client (\<open>client/node.rs\<close>) and the synchroniser of
  \<open>lib.rs\<close>.  Transactions are opaque; their identifier and their binary codec are parameters.

  \<open>None\<close> of a \<open>panics\<close> result is one of the \<open>unwrap\<close>s of \<open>rocksdb.rs\<close>.  The database has one writer, so
  the retry of \<open>take_best_block\<close> on a busy commit does not occur.
\<close>

section \<open>Blocks\<close>

record 'tx block =
  blk_id :: digest32
  blk_parent_id :: digest32
  blk_height :: u32
  blk_timestamp :: u64
  blk_transactions :: "'tx list"

record block_record =
  br_id :: digest32
  br_height :: u32

record header =
  hd_id :: digest32
  hd_parent_id :: digest32
  hd_height :: u32
  hd_timestamp :: u64

record 'tx full_block =
  fb_header :: header
  fb_transactions :: "'tx list"

definition block_from :: "'tx full_block \<Rightarrow> 'tx block" where
  "block_from fb = \<lparr> blk_id = hd_id (fb_header fb), blk_parent_id = hd_parent_id (fb_header fb),
     blk_height = hd_height (fb_header fb), blk_timestamp = hd_timestamp (fb_header fb), blk_transactions = fb_transactions fb \<rparr>"

section \<open>InMemoryCache (chain\_cache.rs)\<close>

record 'tx in_memory_cache =
  im_blocks :: "digest32 \<Rightarrow> 'tx block option"
  im_best :: "(digest32 \<times> digest32 \<times> u32) option"

definition im_new :: "'tx in_memory_cache" where
  "im_new = \<lparr> im_blocks = Map.empty, im_best = None \<rparr>"

definition im_append_block :: "'tx in_memory_cache \<Rightarrow> 'tx block \<Rightarrow> 'tx in_memory_cache" where
  "im_append_block c block = \<lparr> im_blocks = (im_blocks c)(blk_id block \<mapsto> block),
     im_best = Some (blk_id block, blk_parent_id block, blk_height block) \<rparr>"

definition im_exists :: "'tx in_memory_cache \<Rightarrow> digest32 \<Rightarrow> bool" where
  "im_exists c block_id \<longleftrightarrow> im_blocks c block_id \<noteq> None"

definition im_get_best_block :: "'tx in_memory_cache \<Rightarrow> block_record option" where
  "im_get_best_block c = map_option (\<lambda>(id', _, h). \<lparr> br_id = id', br_height = h \<rparr>) (im_best c)"

definition im_take_best_block :: "'tx in_memory_cache \<Rightarrow> 'tx block option \<times> 'tx in_memory_cache" where
  "im_take_best_block c = (case im_best c of
      Some (id', parent_id, _) \<Rightarrow>
        let best = (case im_blocks c parent_id of
              Some parent_blk \<Rightarrow> Some (blk_id parent_blk, blk_parent_id parent_blk, blk_height parent_blk)
            | None \<Rightarrow> None)
        in (im_blocks c id', \<lparr> im_blocks = (im_blocks c)(id' := None), im_best = best \<rparr>)
    | None \<Rightarrow> (None, c))"

section \<open>ChainCacheRocksDB (rocksdb.rs)\<close>

record ('tx, 'db) cache_env =
  ce_db :: "'db rocksdb"
  ce_str :: "string \<Rightarrow> bytes"
  ce_id :: "digest32 codec"
  ce_height :: "u32 codec"
  ce_ids :: "digest32 list codec"
  ce_rec :: "block_record codec"
  ce_tx_id :: "'tx \<Rightarrow> digest32"
  ce_tx_bytes :: "'tx \<Rightarrow> bytes option"
  ce_tx_parse :: "bytes \<Rightarrow> 'tx option"

definition ERGO_MAX_ROLLBACK_DEPTH :: u32 where "ERGO_MAX_ROLLBACK_DEPTH = 256"

definition BEST_BLOCK :: string where "BEST_BLOCK = ''BEST_BLOCK''"
definition OLDEST_BLOCK :: string where "OLDEST_BLOCK = ''OLDEST_BLOCK''"
definition PARENT_POSTFIX :: string where "PARENT_POSTFIX = '':p''"
definition CHILD_POSTFIX :: string where "CHILD_POSTFIX = '':c''"
definition HEIGHT_POSTFIX :: string where "HEIGHT_POSTFIX = '':h''"
definition TRANSACTION_POSTFIX :: string where "TRANSACTION_POSTFIX = '':t''"

definition postfixed_key :: "('tx, 'db) cache_env \<Rightarrow> digest32 \<Rightarrow> string \<Rightarrow> bytes" where
  "postfixed_key E block_id s = ser (ce_id E) block_id @ ce_str E s"

primrec store_transactions :: "('tx, 'db) cache_env \<Rightarrow> 'tx list \<Rightarrow> 'db \<Rightarrow> 'db panics" where
  "store_transactions E [] tx = Some tx"
| "store_transactions E (t # ts) tx = do {
     bs \<leftarrow> ce_tx_bytes E t;
     store_transactions E ts (db_put (ce_db E) tx (ser (ce_id E) (ce_tx_id E t)) bs) }"

definition drop_oldest :: "('tx, 'db) cache_env \<Rightarrow> block_record \<Rightarrow> 'db \<Rightarrow> 'db panics" where
  "drop_oldest E old tx = (let D = ce_db E in do {
     cb \<leftarrow> db_get D tx (postfixed_key E (br_id old) CHILD_POSTFIX);
     cid \<leftarrow> de (ce_id E) cb;
     tx \<leftarrow> Some (db_put D tx (ce_str E OLDEST_BLOCK) (ser (ce_rec E) \<lparr> br_id = cid, br_height = br_height old + 1 \<rparr>));
     tb \<leftarrow> db_get D tx (postfixed_key E (br_id old) TRANSACTION_POSTFIX);
     ids \<leftarrow> de (ce_ids E) tb;
     tx \<leftarrow> Some (fold (\<lambda>i tx. db_delete D tx (ser (ce_id E) i)) ids tx);
     Some (fold (\<lambda>s tx. db_delete D tx (postfixed_key E (br_id old) s))
       [TRANSACTION_POSTFIX, HEIGHT_POSTFIX, PARENT_POSTFIX, CHILD_POSTFIX] tx) })"

definition rocks_append_block :: "('tx, 'db) cache_env \<Rightarrow> u32 \<Rightarrow> 'db \<Rightarrow> 'tx block \<Rightarrow> 'db panics" where
  "rocks_append_block E max_rollback_depth db block = (let D = ce_db E;
       tx = db_put D db (postfixed_key E (blk_id block) PARENT_POSTFIX) (ser (ce_id E) (blk_parent_id block));
       tx = db_put D tx (postfixed_key E (blk_parent_id block) CHILD_POSTFIX) (ser (ce_id E) (blk_id block));
       tx = db_put D tx (postfixed_key E (blk_id block) HEIGHT_POSTFIX) (ser (ce_height E) (blk_height block));
       tx = db_put D tx (postfixed_key E (blk_id block) TRANSACTION_POSTFIX) (ser (ce_ids E) (map (ce_tx_id E) (blk_transactions block)));
       this_rec = \<lparr> br_id = blk_id block, br_height = blk_height block \<rparr>
     in do {
       tx \<leftarrow> store_transactions E (blk_transactions block) tx;
       tx \<leftarrow> Some (db_put D tx (ce_str E BEST_BLOCK) (ser (ce_rec E) this_rec));
       (case db_get D tx (ce_str E OLDEST_BLOCK) of
          Some bs \<Rightarrow> do {
            old \<leftarrow> de (ce_rec E) bs;
            if blk_height block - br_height old = max_rollback_depth then drop_oldest E old tx else Some tx }
        | None \<Rightarrow> Some (db_put D tx (ce_str E OLDEST_BLOCK) (ser (ce_rec E) this_rec))) })"

definition rocks_exists :: "('tx, 'db) cache_env \<Rightarrow> 'db \<Rightarrow> digest32 \<Rightarrow> bool" where
  "rocks_exists E db block_id \<longleftrightarrow> db_get (ce_db E) db (postfixed_key E block_id HEIGHT_POSTFIX) \<noteq> None"

definition rocks_get_best_block :: "('tx, 'db) cache_env \<Rightarrow> 'db \<Rightarrow> block_record option" where
  "rocks_get_best_block E db = Option.bind (db_get (ce_db E) db (ce_str E BEST_BLOCK)) (de (ce_rec E))"

primrec take_transactions :: "('tx, 'db) cache_env \<Rightarrow> digest32 list \<Rightarrow> 'db \<Rightarrow> ('tx list \<times> 'db) panics" where
  "take_transactions E [] tx = Some ([], tx)"
| "take_transactions E (i # is) tx = do {
     bs \<leftarrow> db_get (ce_db E) tx (ser (ce_id E) i);
     t \<leftarrow> ce_tx_parse E bs;
     (ts, tx) \<leftarrow> take_transactions E is (db_delete (ce_db E) tx (ser (ce_id E) i));
     Some (t # ts, tx) }"

definition rocks_take_best_block :: "('tx, 'db) cache_env \<Rightarrow> 'db \<Rightarrow> ('tx block option \<times> 'db) panics" where
  "rocks_take_best_block E db = (let D = ce_db E in
     (case db_get D db (ce_str E BEST_BLOCK) of
        None \<Rightarrow> Some (None, db)
      | Some best_bytes \<Rightarrow> do {
          best \<leftarrow> de (ce_rec E) best_bytes;
          (case db_get D db (postfixed_key E (br_id best) TRANSACTION_POSTFIX) of
             None \<Rightarrow> Some (None, db)
           | Some tb \<Rightarrow> do {
               ids \<leftarrow> de (ce_ids E) tb;
               (transactions, tx) \<leftarrow> take_transactions E ids db;
               pb \<leftarrow> db_get D tx (postfixed_key E (br_id best) PARENT_POSTFIX);
               parent_id \<leftarrow> de (ce_id E) pb;
               tx \<leftarrow> Some (db_delete D tx (ce_str E BEST_BLOCK));
               tx \<leftarrow> (if db_get D tx (postfixed_key E parent_id PARENT_POSTFIX) \<noteq> None
                     then do {
                       hb \<leftarrow> db_get D tx (postfixed_key E parent_id HEIGHT_POSTFIX);
                       h \<leftarrow> de (ce_height E) hb;
                       Some (db_put D tx (ce_str E BEST_BLOCK) (ser (ce_rec E) \<lparr> br_id = parent_id, br_height = h \<rparr>)) }
                     else Some tx);
               Some (Some \<lparr> blk_id = br_id best, blk_parent_id = parent_id, blk_height = br_height best,
                 blk_timestamp = 0, blk_transactions = transactions \<rparr>, tx) }) }))"

end
