(* ===== verification/Chain_Sync.thy ===== *)
theory Chain_Sync
  imports Chain_Cache
begin

text \<open>
  The synchroniser of \<open>ergo-chain-sync/src/lib.rs\<close> over the trait \<open>ChainCache\<close> (record
  \<open>chain_cache\<close>, locale \<open>chain_cache\<close> for its contract) and the requests of the node client
  (\<open>client/node.rs\<close>).  The cache's contract is stated against the stack of applied blocks;
  \<open>InMemoryCache\<close> meets it.  \<open>ChainCacheRocksDB\<close> does not: its \<open>take_best_block\<close> leaves the keys
  that \<open>exists\<close> looks at.

  Results: over a cache that keeps the contract the stream of upgrades is, for every sequence of answers of the
  node (forks and errors included), a walk on linked chains; over the RocksDB cache a block on top of
  a rolled back one is accepted as linked.
\<close>

section \<open>The node client (client/node.rs)\<close>

datatype client_error = JsonError | IsahcError | UnsuccessfulRequest string | NoBlock

text \<open>The HTTP library gives the status and the body of the answer to a request; the JSON decoders of
  the bodies are parameters.\<close>

record 'tx node_http =
  http_get :: "string \<Rightarrow> client_error + bool \<times> string"
  json_block_ids :: "string \<Rightarrow> digest32 list option"
  json_transactions :: "string \<Rightarrow> 'tx list option"
  json_header :: "string \<Rightarrow> header option"
  json_info :: "string \<Rightarrow> u32 option"
  base16_lower :: "digest32 \<Rightarrow> string"

definition json_result :: "'a option \<Rightarrow> client_error + 'a" where
  "json_result r = (case r of Some x \<Rightarrow> Inr x | None \<Rightarrow> Inl JsonError)"

definition get_checked :: "'tx node_http \<Rightarrow> string \<Rightarrow> string \<Rightarrow> client_error + string" where
  "get_checked H path msg = (case http_get H path of
      Inl e \<Rightarrow> Inl e
    | Inr (success, body) \<Rightarrow> if success then Inr body else Inl (UnsuccessfulRequest msg))"

definition client_get_block_at :: "'tx node_http \<Rightarrow> u32 \<Rightarrow> client_error + 'tx full_block" where
  "client_get_block_at H height = (case http_get H (''/blocks/at/'' @ show_nat (unat height)) of
      Inl e \<Rightarrow> Inl e
    | Inr (_, body) \<Rightarrow> (case json_result (json_block_ids H body) of
        Inl e \<Rightarrow> Inl e
      | Inr [] \<Rightarrow> Inl NoBlock
      | Inr (b # _) \<Rightarrow> (case get_checked H (''/blocks/'' @ base16_lower H b @ ''/transactions'') ''expected 200 from /blocks/_/transactions'' of
          Inl e \<Rightarrow> Inl e
        | Inr tbody \<Rightarrow> (case json_result (json_transactions H tbody) of
            Inl e \<Rightarrow> Inl e
          | Inr txs \<Rightarrow> (case get_checked H (''/blocks/'' @ base16_lower H b @ ''/header'') ''expected 200-200 from /blocks/_/header'' of
              Inl e \<Rightarrow> Inl e
            | Inr hbody \<Rightarrow> (case json_result (json_header H hbody) of
                Inl e \<Rightarrow> Inl e
              | Inr h \<Rightarrow> Inr \<lparr> fb_header = h, fb_transactions = txs \<rparr>))))))"

definition client_fetch_mempool :: "'tx node_http \<Rightarrow> nat \<Rightarrow> nat \<Rightarrow> client_error + 'tx list" where
  "client_fetch_mempool H offset limit =
     (case get_checked H (''/transactions/unconfirmed?offset='' @ show_nat offset @ ''&limit='' @ show_nat limit)
         ''expected 200 from /transactions/unconfirmed?offset=_&limit=_'' of
        Inl e \<Rightarrow> Inl e
      | Inr body \<Rightarrow> json_result (json_transactions H body))"

definition client_get_best_height :: "'tx node_http \<Rightarrow> client_error + u32" where
  "client_get_best_height H = (case get_checked H ''/info'' ''expected 200 from /info'' of
      Inl e \<Rightarrow> Inl e
    | Inr body \<Rightarrow> Inr (case json_info H body of Some h \<Rightarrow> h | None \<Rightarrow> 0))"

section \<open>ChainSync (lib.rs)\<close>

record ('c, 'tx) chain_cache =
  cc_append_block :: "'c \<Rightarrow> 'tx block \<Rightarrow> 'c panics"
  cc_exists :: "'c \<Rightarrow> digest32 \<Rightarrow> bool"
  cc_get_best_block :: "'c \<Rightarrow> block_record option"
  cc_take_best_block :: "'c \<Rightarrow> ('tx block option \<times> 'c) panics"

definition in_memory :: "('tx in_memory_cache, 'tx) chain_cache" where
  "in_memory = \<lparr> cc_append_block = (\<lambda>c b. Some (im_append_block c b)), cc_exists = im_exists,
     cc_get_best_block = im_get_best_block, cc_take_best_block = (\<lambda>c. Some (im_take_best_block c)) \<rparr>"

definition rocks_cache :: "('tx, 'db) cache_env \<Rightarrow> ('db, 'tx) chain_cache" where
  "rocks_cache E = \<lparr> cc_append_block = rocks_append_block E ERGO_MAX_ROLLBACK_DEPTH, cc_exists = rocks_exists E,
     cc_get_best_block = rocks_get_best_block E, cc_take_best_block = rocks_take_best_block E \<rparr>"

datatype 'tx chain_upgrade = RollForward "'tx block" | RollBackward "'tx block"

record 'c chain_sync =
  cs_starting_height :: u32
  cs_cache :: 'c
  cs_next_height :: u32
  cs_tip_reached :: bool

definition chain_sync_init :: "('c, 'tx) chain_cache \<Rightarrow> u32 \<Rightarrow> 'c \<Rightarrow> 'c chain_sync" where
  "chain_sync_init C starting_height cache =
     (let start_at = (case cc_get_best_block C cache of
          Some best_block \<Rightarrow> max (br_height best_block) starting_height
        | None \<Rightarrow> starting_height)
      in \<lparr> cs_starting_height = starting_height, cs_cache = cache, cs_next_height = start_at, cs_tip_reached = False \<rparr>)"

definition sync_upgrade :: "'c chain_sync \<Rightarrow> 'c chain_sync" where
  "sync_upgrade s = s \<lparr> cs_next_height := cs_next_height s + 1 \<rparr>"

definition sync_downgrade :: "'c chain_sync \<Rightarrow> 'c chain_sync" where
  "sync_downgrade s = s \<lparr> cs_next_height := cs_next_height s - 1 \<rparr>"

definition try_upgrade :: "('c, 'tx) chain_cache \<Rightarrow> (u32 \<Rightarrow> client_error + 'tx full_block) \<Rightarrow> 'c chain_sync
    \<Rightarrow> ('tx chain_upgrade option \<times> 'c chain_sync) panics" where
  "try_upgrade C get_block_at s = (case get_block_at (cs_next_height s) of
      Inr api_blk \<Rightarrow>
        let parent_id = hd_parent_id (fb_header api_blk);
            linked = cc_exists C (cs_cache s) parent_id
        in (if linked \<or> hd_height (fb_header api_blk) = cs_starting_height s
            then do {
              blk \<leftarrow> Some (block_from api_blk);
              cache \<leftarrow> cc_append_block C (cs_cache s) blk;
              Some (Some (RollForward blk), sync_upgrade (s \<lparr> cs_cache := cache \<rparr>)) }
            else do {
              (taken, cache) \<leftarrow> cc_take_best_block C (cs_cache s);
              (case taken of
                 Some discarded_blk \<Rightarrow> Some (Some (RollBackward discarded_blk), sync_downgrade (s \<lparr> cs_cache := cache \<rparr>))
               | None \<Rightarrow> Some (None, s \<lparr> cs_cache := cache \<rparr>)) })
    | Inl _ \<Rightarrow> Some (None, s))"

text \<open>One round of \<open>chain_sync_stream\<close>: an upgrade is yielded, or the signal of the tip is set (and
  the stream sleeps).\<close>

definition chain_sync_round :: "('c, 'tx) chain_cache \<Rightarrow> (u32 \<Rightarrow> client_error + 'tx full_block) \<Rightarrow> 'c chain_sync
    \<Rightarrow> ('tx chain_upgrade option \<times> 'c chain_sync) panics" where
  "chain_sync_round C get_block_at s = do {
     (upgr, s) \<leftarrow> try_upgrade C get_block_at s;
     (case upgr of
        Some u \<Rightarrow> Some (Some u, s)
      | None \<Rightarrow> Some (None, s \<lparr> cs_tip_reached := True \<rparr>)) }"

text \<open>The rounds against a sequence of answers of the node.\<close>

primrec chain_sync_run :: "('c, 'tx) chain_cache \<Rightarrow> (u32 \<Rightarrow> client_error + 'tx full_block) list \<Rightarrow> 'c chain_sync
    \<Rightarrow> ('tx chain_upgrade list \<times> 'c chain_sync) panics" where
  "chain_sync_run C [] s = Some ([], s)"
| "chain_sync_run C (n # ns) s = do {
     (u, s) \<leftarrow> chain_sync_round C n s;
     (us, s) \<leftarrow> chain_sync_run C ns s;
     Some (case u of Some u \<Rightarrow> u # us | None \<Rightarrow> us, s) }"

section \<open>The contract of a cache\<close>

text \<open>The chain of applied blocks, the newest first.\<close>

fun linked_chain :: "'tx block list \<Rightarrow> bool" where
  "linked_chain (b # b' # bs) \<longleftrightarrow> blk_parent_id b = blk_id b' \<and> linked_chain (b' # bs)"
| "linked_chain _ \<longleftrightarrow> True"

text \<open>A chain whose identifiers are distinct and whose oldest block has its parent outside.\<close>

definition proper_chain :: "'tx block list \<Rightarrow> bool" where
  "proper_chain st \<longleftrightarrow> linked_chain st \<and> distinct (map blk_id st) \<and> (st \<noteq> [] \<longrightarrow> blk_parent_id (last st) \<notin> blk_id ` set st)"

locale chain_cache =
  fixes C :: "('c, 'tx) chain_cache" and rep :: "'c \<Rightarrow> 'tx block list \<Rightarrow> bool"
  assumes append_push: "rep c st \<Longrightarrow> proper_chain (b # st) \<Longrightarrow> \<exists>c'. cc_append_block C c b = Some c' \<and> rep c' (b # st)"
    and exists_mem: "rep c st \<Longrightarrow> cc_exists C c i \<longleftrightarrow> i \<in> blk_id ` set st"
    and best_top: "rep c st \<Longrightarrow> cc_get_best_block C c = (case st of [] \<Rightarrow> None | b # _ \<Rightarrow> Some \<lparr> br_id = blk_id b, br_height = blk_height b \<rparr>)"
    and take_pop: "rep c (b # st) \<Longrightarrow> \<exists>c'. cc_take_best_block C c = Some (Some b, c') \<and> rep c' st"
    and take_empty: "rep c [] \<Longrightarrow> \<exists>c'. cc_take_best_block C c = Some (None, c') \<and> rep c' []"
    and rep_proper: "rep c st \<Longrightarrow> proper_chain st"

text \<open>\<open>InMemoryCache\<close> represents a chain by the table of its blocks and its top.\<close>

definition im_rep :: "'tx in_memory_cache \<Rightarrow> 'tx block list \<Rightarrow> bool" where
  "im_rep c st \<longleftrightarrow> proper_chain st \<and> im_blocks c = map_of (map (\<lambda>b. (blk_id b, b)) st) \<and>
     im_best c = (case st of [] \<Rightarrow> None | b # _ \<Rightarrow> Some (blk_id b, blk_parent_id b, blk_height b))"

lemma map_of_blocks: "map_of (map (\<lambda>b. (blk_id b, b)) st) i \<noteq> None \<longleftrightarrow> i \<in> blk_id ` set st"
  by (auto simp: map_of_eq_None_iff image_image)

lemma proper_chain_tl: "proper_chain (b # st) \<Longrightarrow> proper_chain st"
  by (cases st) (auto simp: proper_chain_def)

lemma proper_chain_parent:
  "proper_chain (b # st) \<Longrightarrow> map_of (map (\<lambda>b. (blk_id b, b)) (b # st)) (blk_parent_id b) = (case st of [] \<Rightarrow> None | b' # _ \<Rightarrow> Some b')"
  by (cases st) (auto simp: proper_chain_def)

interpretation in_memory: chain_cache in_memory im_rep
proof
  fix c :: "'tx in_memory_cache" and st b i
  assume r: "im_rep c st"
  show "proper_chain (b # st) \<Longrightarrow> \<exists>c'. cc_append_block in_memory c b = Some c' \<and> im_rep c' (b # st)"
    using r by (simp add: in_memory_def im_rep_def im_append_block_def)
  show "cc_exists in_memory c i \<longleftrightarrow> i \<in> blk_id ` set st"
    using r map_of_blocks [of st i] by (simp add: in_memory_def im_rep_def im_exists_def)
  show "cc_get_best_block in_memory c = (case st of [] \<Rightarrow> None | b # _ \<Rightarrow> Some \<lparr> br_id = blk_id b, br_height = blk_height b \<rparr>)"
    using r by (simp add: in_memory_def im_rep_def im_get_best_block_def split: list.split)
  show "proper_chain st" using r by (simp add: im_rep_def)
next
  fix c :: "'tx in_memory_cache" and b st
  assume r: "im_rep c (b # st)"
  then have pr: "proper_chain (b # st)" by (simp add: im_rep_def)
  have "(map_of (map (\<lambda>b. (blk_id b, b)) (b # st)))(blk_id b := None) = map_of (map (\<lambda>b. (blk_id b, b)) st)"
    using pr map_of_blocks [of st "blk_id b"] by (auto simp: proper_chain_def fun_eq_iff)
  then show "\<exists>c'. cc_take_best_block in_memory c = Some (Some b, c') \<and> im_rep c' st"
    using r proper_chain_parent [OF pr] proper_chain_tl [OF pr]
    by (simp add: in_memory_def im_take_best_block_def im_rep_def Let_def split: list.split option.split)
next
  fix c :: "'tx in_memory_cache"
  assume "im_rep c []"
  then show "\<exists>c'. cc_take_best_block in_memory c = Some (None, c') \<and> im_rep c' []"
    by (simp add: in_memory_def im_take_best_block_def im_rep_def)
qed

section \<open>Synchronisation over a cache that keeps its contract\<close>

text \<open>
  What the node serves over time: blocks of a universe \<open>U\<close> (all forks) in which an identifier
  determines the block and a block is one higher than its parent; the answer for a height has that
  height.
\<close>

definition consistent_blocks :: "'tx block set \<Rightarrow> bool" where
  "consistent_blocks U \<longleftrightarrow> (\<forall>a \<in> U. \<forall>b \<in> U. (blk_id a = blk_id b \<longrightarrow> a = b) \<and> (blk_parent_id a = blk_id b \<longrightarrow> blk_height a = blk_height b + 1))"

definition serves :: "'tx block set \<Rightarrow> (u32 \<Rightarrow> client_error + 'tx full_block) \<Rightarrow> bool" where
  "serves U n \<longleftrightarrow> (\<forall>h fb. n h = Inr fb \<longrightarrow> block_from fb \<in> U \<and> blk_height (block_from fb) = h)"

text \<open>The effect of the upgrades on a stack of blocks; \<open>None\<close> when one does not fit.\<close>

fun apply_upgrades :: "'tx block list \<Rightarrow> 'tx chain_upgrade list \<Rightarrow> 'tx block list option" where
  "apply_upgrades st [] = Some st"
| "apply_upgrades st (RollForward b # us) =
     (if st = [] \<or> blk_parent_id b = blk_id (hd st) then apply_upgrades (b # st) us else None)"
| "apply_upgrades st (RollBackward b # us) = (case st of [] \<Rightarrow> None | b' # st' \<Rightarrow> if b' = b then apply_upgrades st' us else None)"

fun heights_from :: "u32 \<Rightarrow> 'tx block list \<Rightarrow> bool" where
  "heights_from h [] \<longleftrightarrow> True"
| "heights_from h (b # bs) \<longleftrightarrow> blk_height b = h + of_nat (length bs) \<and> heights_from h bs"

lemma of_nat_u32_eq: "a < 2 ^ 32 \<Longrightarrow> b < 2 ^ 32 \<Longrightarrow> (of_nat a :: u32) = of_nat b \<longleftrightarrow> a = b"
  by (simp add: word_of_nat_eq_iff take_bit_nat_eq_self)

lemma heights_mem: "heights_from h st \<Longrightarrow> x \<in> set st \<Longrightarrow> \<exists>j < length st. blk_height x = h + of_nat j \<and> (j = length st - 1 \<longrightarrow> x = hd st)"
proof (induction st)
  case (Cons b bs)
  then show ?case by (cases "x = b") (auto intro: less_SucI exI [of _ "length bs"])
qed simp

lemma heights_last: "heights_from h st \<Longrightarrow> st \<noteq> [] \<Longrightarrow> blk_height (last st) = h"
  by (induction st) auto

text \<open>A block of the next height that links into the chain links to its top, and extends it properly.\<close>

lemma next_block_links_top:
  assumes U: "consistent_blocks U" "insert b (set st) \<subseteq> U" and h: "heights_from h st" "blk_height b = h + of_nat (length st)"
    and len: "Suc (length st) < 2 ^ 32" and parent: "blk_parent_id b \<in> blk_id ` set st"
  shows "st \<noteq> [] \<and> blk_parent_id b = blk_id (hd st)"
proof -
  obtain x where x: "x \<in> set st" "blk_parent_id b = blk_id x" using parent by auto
  obtain j where j: "j < length st" "blk_height x = h + of_nat j" "j = length st - 1 \<longrightarrow> x = hd st" using heights_mem [OF h(1) x(1)] by blast
  have "blk_height b = blk_height x + 1" using U x by (auto simp: consistent_blocks_def)
  then have "(of_nat (length st) :: u32) = of_nat (Suc j)" using h(2) j(2) by (simp add: algebra_simps)
  then have "length st = Suc j" using len j(1) by (subst (asm) of_nat_u32_eq) auto
  then show ?thesis using j x by auto
qed

lemma next_block_proper:
  assumes U: "consistent_blocks U" "insert b (set st) \<subseteq> U" and h: "heights_from h st" "blk_height b = h + of_nat (length st)"
    and len: "Suc (length st) < 2 ^ 32" and st: "proper_chain st" "st = [] \<or> blk_parent_id b = blk_id (hd st)"
  shows "proper_chain (b # st)"
proof -
  have hs: "heights_from h (b # st)" using h by simp
  have "blk_id b \<notin> blk_id ` set st"
  proof
    assume "blk_id b \<in> blk_id ` set st"
    then have "b \<in> set st" using U by (auto simp: consistent_blocks_def)
    then obtain j where "j < length st" "blk_height b = h + of_nat j" using heights_mem [OF h(1)] by blast
    then have "(of_nat (length st) :: u32) = of_nat j" using h(2) by simp
    then show False using \<open>j < length st\<close> len by (subst (asm) of_nat_u32_eq) auto
  qed
  moreover have "blk_parent_id (last (b # st)) \<notin> blk_id ` set (b # st)"
  proof
    assume "blk_parent_id (last (b # st)) \<in> blk_id ` set (b # st)"
    then obtain x where x: "x \<in> set (b # st)" "blk_parent_id (last (b # st)) = blk_id x" by blast
    moreover have "last (b # st) \<in> U" "x \<in> U" using U(2) x(1) last_in_set [of "b # st"] by auto
    ultimately have eq: "h = blk_height x + 1" using U(1) heights_last [OF hs] by (auto simp: consistent_blocks_def)
    obtain j where "j < length (b # st)" "blk_height x = h + of_nat j" using heights_mem [OF hs x(1)] by blast
    then have "(of_nat (Suc j) :: u32) = of_nat 0" "Suc j < 2 ^ 32" using eq len by (simp_all add: algebra_simps)
    then show False by (subst (asm) of_nat_u32_eq) auto
  qed
  ultimately show ?thesis using st by (cases st) (auto simp: proper_chain_def)
qed

context chain_cache
begin

definition sync_inv :: "'tx block set \<Rightarrow> u32 \<Rightarrow> 'c chain_sync \<Rightarrow> 'tx block list \<Rightarrow> bool" where
  "sync_inv U h s st \<longleftrightarrow> rep (cs_cache s) st \<and> set st \<subseteq> U \<and> heights_from h st \<and> cs_starting_height s = h \<and>
     cs_next_height s = h + of_nat (length st)"

lemma try_upgrade_forward:
  assumes inv: "sync_inv U h s st" and U: "consistent_blocks U" "serves U n" and len: "Suc (length st) < 2 ^ 32"
    and fb: "n (cs_next_height s) = Inr fb" and links: "cc_exists C (cs_cache s) (hd_parent_id (fb_header fb)) \<or> hd_height (fb_header fb) = h"
  shows "\<exists>s'. try_upgrade C n s = Some (Some (RollForward (block_from fb)), s') \<and>
    (st = [] \<or> blk_parent_id (block_from fb) = blk_id (hd st)) \<and> sync_inv U h s' (block_from fb # st)"
proof -
  let ?b = "block_from fb"
  have b: "?b \<in> U" "blk_height ?b = h + of_nat (length st)" using U(2) fb inv by (auto simp: serves_def sync_inv_def)
  have sel: "hd_parent_id (fb_header fb) = blk_parent_id ?b" "hd_height (fb_header fb) = blk_height ?b" by (simp_all add: block_from_def)
  have i: "rep (cs_cache s) st" "set st \<subseteq> U" "heights_from h st" using inv by (simp_all add: sync_inv_def)
  have top: "st = [] \<or> blk_parent_id ?b = blk_id (hd st)"
  proof (cases "cc_exists C (cs_cache s) (blk_parent_id ?b)")
    case True
    then have "blk_parent_id ?b \<in> blk_id ` set st" using exists_mem [OF i(1)] by simp
    then show ?thesis using next_block_links_top [OF U(1) _ i(3) b(2) len] b(1) i(2) by blast
  next
    case False
    then have "(of_nat (length st) :: u32) = of_nat 0" using links b(2) sel by simp
    then show ?thesis using len by (subst (asm) of_nat_u32_eq) auto
  qed
  have "proper_chain (?b # st)" using next_block_proper [OF U(1) _ i(3) b(2) len rep_proper [OF i(1)] top] b(1) i(2) by blast
  then obtain c' where c': "cc_append_block C (cs_cache s) ?b = Some c'" "rep c' (?b # st)" using append_push [OF i(1)] by blast
  have start: "cs_starting_height s = h" using inv by (simp add: sync_inv_def)
  have "try_upgrade C n s = Some (Some (RollForward ?b), sync_upgrade (s \<lparr> cs_cache := c' \<rparr>))"
    using fb links start c'(1) by (simp add: try_upgrade_def)
  moreover have "sync_inv U h (sync_upgrade (s \<lparr> cs_cache := c' \<rparr>)) (?b # st)"
    using inv b i c'(2) by (simp add: sync_inv_def sync_upgrade_def ac_simps)
  ultimately show ?thesis using top by blast
qed

lemma try_upgrade_backward:
  assumes inv: "sync_inv U h s st" and U: "serves U n" and fb: "n (cs_next_height s) = Inr fb"
    and links: "\<not> cc_exists C (cs_cache s) (hd_parent_id (fb_header fb))" "hd_height (fb_header fb) \<noteq> h"
  shows "\<exists>s' b st'. st = b # st' \<and> try_upgrade C n s = Some (Some (RollBackward b), s') \<and> sync_inv U h s' st'"
proof -
  have b: "hd_height (fb_header fb) = h + of_nat (length st)" using U fb inv by (auto simp: serves_def sync_inv_def block_from_def)
  then obtain b st' where st: "st = b # st'" using links(2) by (cases st) auto
  then obtain c' where "cc_take_best_block C (cs_cache s) = Some (Some b, c')" "rep c' st'" using take_pop [of "cs_cache s" b st'] inv by (auto simp: sync_inv_def)
  then show ?thesis using fb links inv st
    by (auto simp: try_upgrade_def sync_downgrade_def sync_inv_def Let_def)
qed

lemma chain_sync_round_inv:
  assumes "sync_inv U h s st" "consistent_blocks U" "serves U n" "Suc (length st) < 2 ^ 32"
  shows "\<exists>u s' st'. chain_sync_round C n s = Some (u, s') \<and> sync_inv U h s' st' \<and> length st' \<le> Suc (length st) \<and>
    apply_upgrades st (case u of Some u \<Rightarrow> [u] | None \<Rightarrow> []) = Some st'"
proof (cases "n (cs_next_height s)")
  case (Inl e)
  then show ?thesis using assms(1) by (simp add: chain_sync_round_def try_upgrade_def sync_inv_def)
next
  case (Inr fb)
  show ?thesis
  proof (cases "cc_exists C (cs_cache s) (hd_parent_id (fb_header fb)) \<or> hd_height (fb_header fb) = h")
    case True
    then show ?thesis using try_upgrade_forward [OF assms Inr True] by (auto simp: chain_sync_round_def)
  next
    case False
    then show ?thesis using try_upgrade_backward [OF assms(1,3) Inr] by (fastforce simp: chain_sync_round_def)
  qed
qed

lemma apply_upgrades_append:
  "apply_upgrades st us = Some st1 \<Longrightarrow> apply_upgrades st (us @ vs) = apply_upgrades st1 vs"
  by (induction st us rule: apply_upgrades.induct) (auto split: list.splits if_splits)

lemma chain_sync_run_inv:
  assumes "sync_inv U h s st" "consistent_blocks U" "\<forall>n \<in> set ns. serves U n" "length st + length ns < 2 ^ 32"
  shows "\<exists>us s' st'. chain_sync_run C ns s = Some (us, s') \<and> apply_upgrades st us = Some st' \<and> sync_inv U h s' st'"
  using assms(1,3,4)
proof (induction ns arbitrary: s st)
  case (Cons n ns)
  obtain u s1 st1 where r: "chain_sync_round C n s = Some (u, s1)" "sync_inv U h s1 st1" "length st1 \<le> Suc (length st)"
    "apply_upgrades st (case u of Some u \<Rightarrow> [u] | None \<Rightarrow> []) = Some st1"
    using chain_sync_round_inv [OF Cons.prems(1) assms(2), of n] Cons.prems(2,3) by auto
  obtain us s' st' where ih: "chain_sync_run C ns s1 = Some (us, s')" "apply_upgrades st1 us = Some st'" "sync_inv U h s' st'"
    using Cons.IH [OF r(2)] Cons.prems(2,3) r(3) by auto
  have "apply_upgrades st ((case u of Some u \<Rightarrow> [u] | None \<Rightarrow> []) @ us) = Some st'"
    using apply_upgrades_append [OF r(4)] ih(2) by simp
  then show ?case using r(1) ih(1,3) by (cases u) auto
qed simp

lemma init_inv: "rep c [] \<Longrightarrow> sync_inv U h (chain_sync_init C h c) []"
  using best_top by (simp add: sync_inv_def chain_sync_init_def)

end

section \<open>The RocksDB cache\<close>

text \<open>
  What the cache relies on: the laws of the database, codecs that read back what they wrote,
  identifiers of one length (longer than the two fixed keys), transactions that parse back.
\<close>

definition cache_room :: "('tx, 'db) cache_env \<Rightarrow> 'db \<Rightarrow> 'tx block \<Rightarrow> bool" where
  "cache_room E db b \<longleftrightarrow> (\<forall>bs. db_get (ce_db E) db (ce_str E OLDEST_BLOCK) = Some bs \<longrightarrow>
     (\<exists>old. de (ce_rec E) bs = Some old \<and> blk_height b - br_height old \<noteq> ERGO_MAX_ROLLBACK_DEPTH))"

locale rocks_store =
  fixes E :: "('tx, 'db) cache_env"
  assumes db_laws: "rocksdb_laws (ce_db E)" and str_laws: "bincode_strings (ce_str E)"
    and id_laws: "codec_laws (ce_id E)" and height_laws: "codec_laws (ce_height E)"
    and ids_laws: "codec_laws (ce_ids E)" and rec_laws: "codec_laws (ce_rec E)"
    and id_length: "length (ser (ce_id E) i) = length (ser (ce_id E) j)" "20 < length (ser (ce_id E) i)"
    and tx_parse: "ce_tx_bytes E t = Some bs \<Longrightarrow> ce_tx_parse E bs = Some t"
begin

lemmas get_put [simp] = rocksdb_laws.get_put [OF db_laws]
lemmas get_delete [simp] = rocksdb_laws.get_delete [OF db_laws]
lemmas de_ser [simp] = codec_laws.de_ser [OF id_laws] codec_laws.de_ser [OF height_laws] codec_laws.de_ser [OF ids_laws] codec_laws.de_ser [OF rec_laws]
lemmas id_inject [simp] = codec_laws.ser_inject [OF id_laws]

abbreviation "tx_key \<equiv> ser (ce_id E)"
abbreviation "best_key \<equiv> ce_str E BEST_BLOCK"
abbreviation "oldest_key \<equiv> ce_str E OLDEST_BLOCK"

lemmas postfixes = PARENT_POSTFIX_def CHILD_POSTFIX_def HEIGHT_POSTFIX_def TRANSACTION_POSTFIX_def BEST_BLOCK_def OLDEST_BLOCK_def

lemma str_len: "length (ce_str E PARENT_POSTFIX) = 10" "length (ce_str E CHILD_POSTFIX) = 10" "length (ce_str E HEIGHT_POSTFIX) = 10"
  "length (ce_str E TRANSACTION_POSTFIX) = 10" "length best_key = 18" "length oldest_key = 20"
  by (simp_all add: postfixes bincode_strings.str_length [OF str_laws])

lemma str_eq: "length a < 2 ^ 32 \<Longrightarrow> length b < 2 ^ 32 \<Longrightarrow> ce_str E a = ce_str E b \<longleftrightarrow> a = b"
  using bincode_strings.str_prefix_free [OF str_laws, of a b "[]" "[]"] by auto

lemma postfixed_eq:
  assumes "length s < 4294967296" "length s' < 4294967296"
  shows "postfixed_key E i s = postfixed_key E j s' \<longleftrightarrow> i = j \<and> s = s'"
  using id_length(1) [of i j] str_eq assms by (auto simp: postfixed_key_def)

lemma key_disjoint:
  "length (ce_str E s) = 10 \<Longrightarrow> postfixed_key E i s \<noteq> tx_key j" "length (ce_str E s) = 10 \<Longrightarrow> postfixed_key E i s \<noteq> best_key"
  "length (ce_str E s) = 10 \<Longrightarrow> postfixed_key E i s \<noteq> oldest_key" "tx_key i \<noteq> best_key" "tx_key i \<noteq> oldest_key" "best_key \<noteq> oldest_key"
  using id_length(1) [of i j] id_length(2) [of i] str_len by (auto simp: postfixed_key_def dest: arg_cong [where f = length])

lemmas keys [simp] = key_disjoint(4-6) key_disjoint(4-6) [symmetric]
  key_disjoint(1) [OF str_len(1)] key_disjoint(1) [OF str_len(2)] key_disjoint(1) [OF str_len(3)] key_disjoint(1) [OF str_len(4)]
  key_disjoint(1) [OF str_len(1), symmetric] key_disjoint(1) [OF str_len(2), symmetric] key_disjoint(1) [OF str_len(3), symmetric] key_disjoint(1) [OF str_len(4), symmetric]
  key_disjoint(2) [OF str_len(1)] key_disjoint(2) [OF str_len(2)] key_disjoint(2) [OF str_len(3)] key_disjoint(2) [OF str_len(4)]
  key_disjoint(2) [OF str_len(1), symmetric] key_disjoint(2) [OF str_len(2), symmetric] key_disjoint(2) [OF str_len(3), symmetric] key_disjoint(2) [OF str_len(4), symmetric]
  key_disjoint(3) [OF str_len(1)] key_disjoint(3) [OF str_len(2)] key_disjoint(3) [OF str_len(3)] key_disjoint(3) [OF str_len(4)]
  key_disjoint(3) [OF str_len(1), symmetric] key_disjoint(3) [OF str_len(2), symmetric] key_disjoint(3) [OF str_len(3), symmetric] key_disjoint(3) [OF str_len(4), symmetric]

lemma postfix_lengths [simp]: "length PARENT_POSTFIX < 4294967296" "length CHILD_POSTFIX < 4294967296" "length HEIGHT_POSTFIX < 4294967296" "length TRANSACTION_POSTFIX < 4294967296"
  by (simp_all add: postfixes)

lemma postfix_neq [simp]: "PARENT_POSTFIX \<noteq> CHILD_POSTFIX" "PARENT_POSTFIX \<noteq> HEIGHT_POSTFIX" "PARENT_POSTFIX \<noteq> TRANSACTION_POSTFIX"
  "CHILD_POSTFIX \<noteq> PARENT_POSTFIX" "CHILD_POSTFIX \<noteq> HEIGHT_POSTFIX" "CHILD_POSTFIX \<noteq> TRANSACTION_POSTFIX"
  "HEIGHT_POSTFIX \<noteq> PARENT_POSTFIX" "HEIGHT_POSTFIX \<noteq> CHILD_POSTFIX" "HEIGHT_POSTFIX \<noteq> TRANSACTION_POSTFIX"
  "TRANSACTION_POSTFIX \<noteq> PARENT_POSTFIX" "TRANSACTION_POSTFIX \<noteq> CHILD_POSTFIX" "TRANSACTION_POSTFIX \<noteq> HEIGHT_POSTFIX"
  by (simp_all add: postfixes)

lemma take_transactions_frame:
  "take_transactions E is tx = Some (ts, tx') \<Longrightarrow> k \<notin> tx_key ` set is \<Longrightarrow> db_get (ce_db E) tx' k = db_get (ce_db E) tx k"
  by (induction "is" arbitrary: tx ts) (auto simp: bind_eq_Some_conv split: prod.splits)

text \<open>Taking the best block deletes transactions and the best record, nothing that \<open>exists\<close> reads.\<close>

lemma take_keeps_exists:
  assumes "rocks_take_best_block E db = Some (r, db')"
  shows "rocks_exists E db' i \<longleftrightarrow> rocks_exists E db i"
proof -
  have frame: "db_get (ce_db E) tx' (postfixed_key E i HEIGHT_POSTFIX) = db_get (ce_db E) db (postfixed_key E i HEIGHT_POSTFIX)"
    if "take_transactions E is db = Some (ts, tx')" for "is" ts tx'
    by (rule take_transactions_frame [OF that]) auto
  show ?thesis using assms
    by (auto simp: rocks_take_best_block_def rocks_exists_def Let_def bind_eq_Some_conv frame split: option.splits if_splits)
qed

text \<open>Appending, when the store is below its capacity.\<close>

lemma store_transactions_view:
  assumes "distinct (map (ce_tx_id E) ts)" "\<forall>t \<in> set ts. ce_tx_bytes E t \<noteq> None"
  shows "\<exists>tx'. store_transactions E ts tx = Some tx' \<and>
    (\<forall>k. k \<notin> tx_key ` ce_tx_id E ` set ts \<longrightarrow> db_get (ce_db E) tx' k = db_get (ce_db E) tx k) \<and>
    (\<forall>t \<in> set ts. db_get (ce_db E) tx' (tx_key (ce_tx_id E t)) = ce_tx_bytes E t)"
  using assms
proof (induction ts arbitrary: tx)
  case (Cons t ts)
  then obtain bs where bs: "ce_tx_bytes E t = Some bs" by auto
  obtain tx' where ih: "store_transactions E ts (db_put (ce_db E) tx (tx_key (ce_tx_id E t)) bs) = Some tx'"
    "\<forall>k. k \<notin> tx_key ` ce_tx_id E ` set ts \<longrightarrow> db_get (ce_db E) tx' k = db_get (ce_db E) (db_put (ce_db E) tx (tx_key (ce_tx_id E t)) bs) k"
    "\<forall>t \<in> set ts. db_get (ce_db E) tx' (tx_key (ce_tx_id E t)) = ce_tx_bytes E t"
    using Cons.IH [of "db_put (ce_db E) tx (tx_key (ce_tx_id E t)) bs"] Cons.prems by auto
  have "tx_key (ce_tx_id E t) \<notin> tx_key ` ce_tx_id E ` set ts" using Cons.prems(1) by auto
  then show ?case using ih bs by auto
qed simp

lemma append_view:
  assumes "cache_room E db b" "distinct (map (ce_tx_id E) (blk_transactions b))" "\<forall>t \<in> set (blk_transactions b). ce_tx_bytes E t \<noteq> None"
  shows "\<exists>db'. rocks_append_block E ERGO_MAX_ROLLBACK_DEPTH db b = Some db' \<and>
    (\<forall>i. db_get (ce_db E) db' (postfixed_key E i PARENT_POSTFIX) =
       (if i = blk_id b then Some (tx_key (blk_parent_id b)) else db_get (ce_db E) db (postfixed_key E i PARENT_POSTFIX))) \<and>
    (\<forall>i. db_get (ce_db E) db' (postfixed_key E i HEIGHT_POSTFIX) =
       (if i = blk_id b then Some (ser (ce_height E) (blk_height b)) else db_get (ce_db E) db (postfixed_key E i HEIGHT_POSTFIX))) \<and>
    (\<forall>i. db_get (ce_db E) db' (postfixed_key E i TRANSACTION_POSTFIX) =
       (if i = blk_id b then Some (ser (ce_ids E) (map (ce_tx_id E) (blk_transactions b))) else db_get (ce_db E) db (postfixed_key E i TRANSACTION_POSTFIX))) \<and>
    db_get (ce_db E) db' best_key = Some (ser (ce_rec E) \<lparr> br_id = blk_id b, br_height = blk_height b \<rparr>) \<and>
    db_get (ce_db E) db' oldest_key = (case db_get (ce_db E) db oldest_key of
       Some bs \<Rightarrow> Some bs | None \<Rightarrow> Some (ser (ce_rec E) \<lparr> br_id = blk_id b, br_height = blk_height b \<rparr>)) \<and>
    (\<forall>t \<in> set (blk_transactions b). db_get (ce_db E) db' (tx_key (ce_tx_id E t)) = ce_tx_bytes E t)"
proof -
  let ?D = "ce_db E"
  define tx0 where "tx0 = db_put ?D (db_put ?D (db_put ?D (db_put ?D db
      (postfixed_key E (blk_id b) PARENT_POSTFIX) (tx_key (blk_parent_id b)))
      (postfixed_key E (blk_parent_id b) CHILD_POSTFIX) (tx_key (blk_id b)))
      (postfixed_key E (blk_id b) HEIGHT_POSTFIX) (ser (ce_height E) (blk_height b)))
      (postfixed_key E (blk_id b) TRANSACTION_POSTFIX) (ser (ce_ids E) (map (ce_tx_id E) (blk_transactions b)))"
  obtain tx1 where st: "store_transactions E (blk_transactions b) tx0 = Some tx1"
    "\<forall>k. k \<notin> tx_key ` ce_tx_id E ` set (blk_transactions b) \<longrightarrow> db_get ?D tx1 k = db_get ?D tx0 k"
    "\<forall>t \<in> set (blk_transactions b). db_get ?D tx1 (tx_key (ce_tx_id E t)) = ce_tx_bytes E t"
    using store_transactions_view [OF assms(2,3), of tx0] by blast
  have frame: "db_get ?D tx1 oldest_key = db_get ?D tx0 oldest_key"
    "db_get ?D tx1 (postfixed_key E i PARENT_POSTFIX) = db_get ?D tx0 (postfixed_key E i PARENT_POSTFIX)"
    "db_get ?D tx1 (postfixed_key E i HEIGHT_POSTFIX) = db_get ?D tx0 (postfixed_key E i HEIGHT_POSTFIX)"
    "db_get ?D tx1 (postfixed_key E i TRANSACTION_POSTFIX) = db_get ?D tx0 (postfixed_key E i TRANSACTION_POSTFIX)" for i
    by (auto intro!: st(2) [rule_format])
  have old: "db_get ?D tx0 oldest_key = db_get ?D db oldest_key" by (simp add: tx0_def)
  let ?best = "db_put ?D tx1 best_key (ser (ce_rec E) \<lparr> br_id = blk_id b, br_height = blk_height b \<rparr>)"
  have res: "rocks_append_block E ERGO_MAX_ROLLBACK_DEPTH db b = Some (case db_get ?D db oldest_key of
      Some _ \<Rightarrow> ?best | None \<Rightarrow> db_put ?D ?best oldest_key (ser (ce_rec E) \<lparr> br_id = blk_id b, br_height = blk_height b \<rparr>))"
    using assms(1) st(1) frame(1) old
    by (auto simp: rocks_append_block_def Let_def cache_room_def tx0_def [symmetric] split: option.split)
  show ?thesis unfolding res
    by (cases "db_get ?D db oldest_key") (simp_all add: st(3) frame old, simp_all add: tx0_def postfixed_eq)
qed

text \<open>Taking the best block.\<close>

lemma take_transactions_view:
  assumes "distinct (map (ce_tx_id E) ts)" "\<forall>t \<in> set ts. \<exists>bs. ce_tx_bytes E t = Some bs \<and> db_get (ce_db E) tx (tx_key (ce_tx_id E t)) = Some bs"
  shows "\<exists>tx'. take_transactions E (map (ce_tx_id E) ts) tx = Some (ts, tx') \<and>
    (\<forall>k. k \<notin> tx_key ` ce_tx_id E ` set ts \<longrightarrow> db_get (ce_db E) tx' k = db_get (ce_db E) tx k)"
  using assms
proof (induction ts arbitrary: tx)
  case (Cons t ts)
  obtain bs where bs: "ce_tx_bytes E t = Some bs" "db_get (ce_db E) tx (tx_key (ce_tx_id E t)) = Some bs" using Cons.prems(2) by auto
  have rest: "\<forall>u \<in> set ts. \<exists>bs. ce_tx_bytes E u = Some bs \<and>
      db_get (ce_db E) (db_delete (ce_db E) tx (tx_key (ce_tx_id E t))) (tx_key (ce_tx_id E u)) = Some bs"
  proof -
    have "\<forall>u \<in> set ts. ce_tx_id E u \<noteq> ce_tx_id E t" using Cons.prems(1) by (metis distinct.simps(2) imageI list.set_map list.simps(9))
    then show ?thesis using Cons.prems(2) by simp
  qed
  have "distinct (map (ce_tx_id E) ts)" using Cons.prems(1) by simp
  from Cons.IH [OF this rest] obtain tx' where "take_transactions E (map (ce_tx_id E) ts) (db_delete (ce_db E) tx (tx_key (ce_tx_id E t))) = Some (ts, tx')"
    "\<forall>k. k \<notin> tx_key ` ce_tx_id E ` set ts \<longrightarrow> db_get (ce_db E) tx' k = db_get (ce_db E) (db_delete (ce_db E) tx (tx_key (ce_tx_id E t))) k"
    by blast
  then show ?case using bs tx_parse [OF bs(1)] by simp
qed simp

lemma take_view:
  assumes best: "db_get (ce_db E) db best_key = Some (ser (ce_rec E) \<lparr> br_id = blk_id b, br_height = blk_height b \<rparr>)"
    and t: "db_get (ce_db E) db (postfixed_key E (blk_id b) TRANSACTION_POSTFIX) = Some (ser (ce_ids E) (map (ce_tx_id E) (blk_transactions b)))"
    and p: "db_get (ce_db E) db (postfixed_key E (blk_id b) PARENT_POSTFIX) = Some (tx_key (blk_parent_id b))"
    and txs: "distinct (map (ce_tx_id E) (blk_transactions b))"
      "\<forall>t \<in> set (blk_transactions b). \<exists>bs. ce_tx_bytes E t = Some bs \<and> db_get (ce_db E) db (tx_key (ce_tx_id E t)) = Some bs"
    and parent: "db_get (ce_db E) db (postfixed_key E (blk_parent_id b) PARENT_POSTFIX) \<noteq> None \<Longrightarrow>
      db_get (ce_db E) db (postfixed_key E (blk_parent_id b) HEIGHT_POSTFIX) = Some (ser (ce_height E) h)"
  shows "\<exists>db'. rocks_take_best_block E db = Some (Some (b \<lparr> blk_timestamp := 0 \<rparr>), db') \<and>
    (\<forall>i s. s \<in> {PARENT_POSTFIX, HEIGHT_POSTFIX, TRANSACTION_POSTFIX} \<longrightarrow>
       db_get (ce_db E) db' (postfixed_key E i s) = db_get (ce_db E) db (postfixed_key E i s)) \<and>
    db_get (ce_db E) db' oldest_key = db_get (ce_db E) db oldest_key \<and>
    db_get (ce_db E) db' best_key = (if db_get (ce_db E) db (postfixed_key E (blk_parent_id b) PARENT_POSTFIX) = None then None
      else Some (ser (ce_rec E) \<lparr> br_id = blk_parent_id b, br_height = h \<rparr>))"
proof -
  let ?D = "ce_db E"
  obtain tx where tx: "take_transactions E (map (ce_tx_id E) (blk_transactions b)) db = Some (blk_transactions b, tx)"
    "\<forall>k. k \<notin> tx_key ` ce_tx_id E ` set (blk_transactions b) \<longrightarrow> db_get ?D tx k = db_get ?D db k"
    using take_transactions_view [OF txs] by blast
  have frame: "db_get ?D tx oldest_key = db_get ?D db oldest_key"
    "db_get ?D tx (postfixed_key E i PARENT_POSTFIX) = db_get ?D db (postfixed_key E i PARENT_POSTFIX)"
    "db_get ?D tx (postfixed_key E i HEIGHT_POSTFIX) = db_get ?D db (postfixed_key E i HEIGHT_POSTFIX)"
    "db_get ?D tx (postfixed_key E i TRANSACTION_POSTFIX) = db_get ?D db (postfixed_key E i TRANSACTION_POSTFIX)" for i
    by (auto intro!: tx(2) [rule_format])
  show ?thesis
    by (cases "db_get ?D db (postfixed_key E (blk_parent_id b) PARENT_POSTFIX)")
      (auto simp: rocks_take_best_block_def Let_def best t p tx(1) frame parent)
qed

lemma append_take:
  assumes "cache_room E db b" "distinct (map (ce_tx_id E) (blk_transactions b))" "\<forall>t \<in> set (blk_transactions b). ce_tx_bytes E t \<noteq> None"
    and parent: "db_get (ce_db E) db (postfixed_key E (blk_parent_id b) PARENT_POSTFIX) \<noteq> None \<Longrightarrow>
      db_get (ce_db E) db (postfixed_key E (blk_parent_id b) HEIGHT_POSTFIX) = Some (ser (ce_height E) h)"
    and "blk_parent_id b \<noteq> blk_id b"
  shows "\<exists>db1 db2. rocks_append_block E ERGO_MAX_ROLLBACK_DEPTH db b = Some db1 \<and>
    rocks_take_best_block E db1 = Some (Some (b \<lparr> blk_timestamp := 0 \<rparr>), db2) \<and>
    rocks_get_best_block E db2 = (if db_get (ce_db E) db (postfixed_key E (blk_parent_id b) PARENT_POSTFIX) = None then None
      else Some \<lparr> br_id = blk_parent_id b, br_height = h \<rparr>) \<and> rocks_exists E db2 (blk_id b)"
proof -
  let ?D = "ce_db E"
  obtain db1 where v: "rocks_append_block E ERGO_MAX_ROLLBACK_DEPTH db b = Some db1"
    "\<And>i. db_get ?D db1 (postfixed_key E i PARENT_POSTFIX) =
       (if i = blk_id b then Some (tx_key (blk_parent_id b)) else db_get ?D db (postfixed_key E i PARENT_POSTFIX))"
    "\<And>i. db_get ?D db1 (postfixed_key E i HEIGHT_POSTFIX) =
       (if i = blk_id b then Some (ser (ce_height E) (blk_height b)) else db_get ?D db (postfixed_key E i HEIGHT_POSTFIX))"
    "\<And>i. db_get ?D db1 (postfixed_key E i TRANSACTION_POSTFIX) =
       (if i = blk_id b then Some (ser (ce_ids E) (map (ce_tx_id E) (blk_transactions b))) else db_get ?D db (postfixed_key E i TRANSACTION_POSTFIX))"
    "db_get ?D db1 best_key = Some (ser (ce_rec E) \<lparr> br_id = blk_id b, br_height = blk_height b \<rparr>)"
    "\<And>t. t \<in> set (blk_transactions b) \<Longrightarrow> db_get ?D db1 (tx_key (ce_tx_id E t)) = ce_tx_bytes E t"
    using append_view [OF assms(1-3)] by auto
  obtain db2 where w: "rocks_take_best_block E db1 = Some (Some (b \<lparr> blk_timestamp := 0 \<rparr>), db2)"
    "db_get ?D db2 best_key = (if db_get ?D db1 (postfixed_key E (blk_parent_id b) PARENT_POSTFIX) = None then None
      else Some (ser (ce_rec E) \<lparr> br_id = blk_parent_id b, br_height = h \<rparr>))"
    using take_view [of db1 b h] v assms(2,3,5) parent by auto
  have "rocks_exists E db2 (blk_id b)" using take_keeps_exists [OF w(1)] v(3) by (simp add: rocks_exists_def)
  then show ?thesis using v w assms(5) by (auto simp: rocks_get_best_block_def)
qed

end

section \<open>A reorganisation and back\<close>

text \<open>Blocks without transactions and a node that has one block to offer.\<close>

definition plain_block :: "digest32 \<Rightarrow> digest32 \<Rightarrow> u32 \<Rightarrow> 'tx block" where
  "plain_block i p h = \<lparr> blk_id = i, blk_parent_id = p, blk_height = h, blk_timestamp = 0, blk_transactions = [] \<rparr>"

definition offers :: "'tx block \<Rightarrow> u32 \<Rightarrow> client_error + 'tx full_block" where
  "offers b h = (if h = blk_height b
     then Inr \<lparr> fb_header = \<lparr> hd_id = blk_id b, hd_parent_id = blk_parent_id b, hd_height = blk_height b, hd_timestamp = blk_timestamp b \<rparr>,
                fb_transactions = blk_transactions b \<rparr>
     else Inl NoBlock)"

lemma plain_sel [simp]: "blk_id (plain_block i p h) = i" "blk_parent_id (plain_block i p h) = p" "blk_height (plain_block i p h) = h"
  "blk_transactions (plain_block i p h) = []" "plain_block i p h \<lparr> blk_timestamp := 0 \<rparr> = plain_block i p h"
  by (simp_all add: plain_block_def)

lemma offers_block: "offers b h = Inr fb \<Longrightarrow> block_from fb = b \<and> blk_height b = h"
  by (auto simp: offers_def block_from_def split: if_splits)

lemma serves_offers: "b \<in> U \<Longrightarrow> serves U (offers b)"
  using offers_block by (fastforce simp: serves_def)

lemma block_eta: "\<lparr> blk_id = blk_id b, blk_parent_id = blk_parent_id b, blk_height = blk_height b, blk_timestamp = blk_timestamp b,
    blk_transactions = blk_transactions b \<rparr> = b" for b :: "'tx block"
  by (cases b) simp

context rocks_store
begin

lemma round_forward:
  assumes "cs_next_height s = blk_height b" "rocks_exists E (cs_cache s) (blk_parent_id b) \<or> blk_height b = cs_starting_height s"
    "rocks_append_block E ERGO_MAX_ROLLBACK_DEPTH (cs_cache s) b = Some db'"
  shows "chain_sync_round (rocks_cache E) (offers b) s = Some (Some (RollForward b), sync_upgrade (s \<lparr> cs_cache := db' \<rparr>))"
  using assms by (simp add: chain_sync_round_def try_upgrade_def offers_def rocks_cache_def block_from_def Let_def block_eta)

lemma round_backward:
  assumes "cs_next_height s = blk_height b" "\<not> rocks_exists E (cs_cache s) (blk_parent_id b)" "blk_height b \<noteq> cs_starting_height s"
    "rocks_take_best_block E (cs_cache s) = Some (Some d, db')"
  shows "chain_sync_round (rocks_cache E) (offers b) s = Some (Some (RollBackward d), sync_downgrade (s \<lparr> cs_cache := db' \<rparr>))"
  using assms by (simp add: chain_sync_round_def try_upgrade_def offers_def rocks_cache_def Let_def)

lemma reorganisation_caches:
  fixes h :: u32
  assumes empty: "\<And>k. db_get (ce_db E) db k = None" and ids: "distinct [p0, ia, ib, ib', ix, ic]"
  defines "a \<equiv> plain_block ia p0 h" and "b \<equiv> plain_block ib ia (h + 1)" and "b' \<equiv> plain_block ib' ia (h + 1)" and "c \<equiv> plain_block ic ib (h + 2)"
  obtains d1 d2 d3 d4 d5 where "rocks_append_block E ERGO_MAX_ROLLBACK_DEPTH db a = Some d1" "rocks_exists E d1 ia"
    "rocks_append_block E ERGO_MAX_ROLLBACK_DEPTH d1 b = Some d2" "\<And>i. rocks_exists E d2 i \<longleftrightarrow> i = ia \<or> i = ib"
    "rocks_take_best_block E d2 = Some (Some b, d3)" "\<And>i. rocks_exists E d3 i \<longleftrightarrow> i = ia \<or> i = ib"
    "rocks_append_block E ERGO_MAX_ROLLBACK_DEPTH d3 b' = Some d4" "rocks_exists E d4 ib" "rocks_append_block E ERGO_MAX_ROLLBACK_DEPTH d4 c = Some d5"
proof -
  let ?D = "ce_db E" and ?max = ERGO_MAX_ROLLBACK_DEPTH
  have sel [simp]: "blk_id a = ia" "blk_parent_id a = p0" "blk_height a = h" "blk_transactions a = []"
    "blk_id b = ib" "blk_parent_id b = ia" "blk_height b = h + 1" "blk_transactions b = []" "b \<lparr> blk_timestamp := 0 \<rparr> = b"
    "blk_id b' = ib'" "blk_parent_id b' = ia" "blk_height b' = h + 1" "blk_transactions b' = []"
    "blk_id c = ic" "blk_parent_id c = ib" "blk_height c = h + 2" "blk_transactions c = []"
    by (simp_all add: a_def b_def b'_def c_def)
  obtain d1 where d1: "rocks_append_block E ?max db a = Some d1"
    "\<And>i. db_get ?D d1 (postfixed_key E i PARENT_POSTFIX) = (if i = ia then Some (tx_key p0) else None)"
    "\<And>i. db_get ?D d1 (postfixed_key E i HEIGHT_POSTFIX) = (if i = ia then Some (ser (ce_height E) h) else None)"
    "db_get ?D d1 oldest_key = Some (ser (ce_rec E) \<lparr> br_id = ia, br_height = h \<rparr>)"
    using append_view [of db a] by (auto simp: empty cache_room_def)
  have "cache_room E d1 b" by (simp add: cache_room_def d1 ERGO_MAX_ROLLBACK_DEPTH_def)
  then obtain d2 where d2: "rocks_append_block E ?max d1 b = Some d2"
    "\<And>i. db_get ?D d2 (postfixed_key E i PARENT_POSTFIX) = (if i = ib then Some (tx_key ia) else if i = ia then Some (tx_key p0) else None)"
    "\<And>i. db_get ?D d2 (postfixed_key E i HEIGHT_POSTFIX) = (if i = ib then Some (ser (ce_height E) (h + 1)) else if i = ia then Some (ser (ce_height E) h) else None)"
    "db_get ?D d2 (postfixed_key E ib TRANSACTION_POSTFIX) = Some (ser (ce_ids E) [])"
    "db_get ?D d2 best_key = Some (ser (ce_rec E) \<lparr> br_id = ib, br_height = h + 1 \<rparr>)"
    "db_get ?D d2 oldest_key = Some (ser (ce_rec E) \<lparr> br_id = ia, br_height = h \<rparr>)"
    using append_view [of d1 b] by (auto simp: d1)
  obtain d3 where d3: "rocks_take_best_block E d2 = Some (Some b, d3)" "db_get ?D d3 oldest_key = db_get ?D d2 oldest_key"
    using take_view [of d2 b h] ids by (auto simp: d2)
  have e3: "rocks_exists E d3 i \<longleftrightarrow> i = ia \<or> i = ib" for i using take_keeps_exists [OF d3(1)] by (auto simp: rocks_exists_def d2)
  have "cache_room E d3 b'" by (simp add: cache_room_def d3 d2 ERGO_MAX_ROLLBACK_DEPTH_def)
  then obtain d4 where d4: "rocks_append_block E ?max d3 b' = Some d4" "db_get ?D d4 oldest_key = db_get ?D d3 oldest_key"
    "\<And>i. db_get ?D d4 (postfixed_key E i HEIGHT_POSTFIX) = (if i = ib' then Some (ser (ce_height E) (h + 1)) else db_get ?D d3 (postfixed_key E i HEIGHT_POSTFIX))"
    using append_view [of d3 b'] by (auto simp: d2 d3)
  have e4: "rocks_exists E d4 ib" using e3 by (auto simp: rocks_exists_def d4)
  have "cache_room E d4 c" by (simp add: cache_room_def d4 d3 d2 ERGO_MAX_ROLLBACK_DEPTH_def)
  then obtain d5 where d5: "rocks_append_block E ?max d4 c = Some d5" using append_view [of d4 c] by auto
  show ?thesis using that [OF d1(1) _ d2(1) _ d3(1) e3 d4(1) e4 d5] by (auto simp: rocks_exists_def d1 d2)
qed

lemma reorganisation_and_back:
  fixes h :: u32
  assumes empty: "\<And>k. db_get (ce_db E) db k = None" and ids: "distinct [p0, ia, ib, ib', ix, ic]"
  defines "a \<equiv> plain_block ia p0 h" and "b \<equiv> plain_block ib ia (h + 1)" and "b' \<equiv> plain_block ib' ia (h + 1)"
    and "x \<equiv> plain_block ix ib' (h + 2)" and "c \<equiv> plain_block ic ib (h + 2)"
  shows "\<exists>s. chain_sync_run (rocks_cache E) (map offers [a, b, x, b', c]) (chain_sync_init (rocks_cache E) h db) =
    Some ([RollForward a, RollForward b, RollBackward b, RollForward b', RollForward c], s)"
proof -
  have sel [simp]: "blk_id a = ia" "blk_parent_id a = p0" "blk_height a = h" "blk_id b = ib" "blk_parent_id b = ia" "blk_height b = h + 1"
    "blk_id b' = ib'" "blk_parent_id b' = ia" "blk_height b' = h + 1" "blk_parent_id x = ib'" "blk_height x = h + 2"
    "blk_id c = ic" "blk_parent_id c = ib" "blk_height c = h + 2"
    by (simp_all add: a_def b_def b'_def x_def c_def)
  obtain d1 d2 d3 d4 d5 where k: "rocks_append_block E ERGO_MAX_ROLLBACK_DEPTH db a = Some d1" "rocks_exists E d1 ia"
    "rocks_append_block E ERGO_MAX_ROLLBACK_DEPTH d1 b = Some d2" "\<And>i. rocks_exists E d2 i \<longleftrightarrow> i = ia \<or> i = ib"
    "rocks_take_best_block E d2 = Some (Some b, d3)" "\<And>i. rocks_exists E d3 i \<longleftrightarrow> i = ia \<or> i = ib"
    "rocks_append_block E ERGO_MAX_ROLLBACK_DEPTH d3 b' = Some d4" "rocks_exists E d4 ib" "rocks_append_block E ERGO_MAX_ROLLBACK_DEPTH d4 c = Some d5"
    using reorganisation_caches [OF empty ids] unfolding a_def b_def b'_def c_def by blast
  define s0 where "s0 = chain_sync_init (rocks_cache E) h db"
  have s0: "cs_next_height s0 = h" "cs_starting_height s0 = h" "cs_cache s0 = db"
    by (simp_all add: s0_def chain_sync_init_def rocks_cache_def rocks_get_best_block_def empty)
  note upd = sync_upgrade_def sync_downgrade_def
  have r1: "chain_sync_round (rocks_cache E) (offers a) s0 = Some (Some (RollForward a), sync_upgrade (s0 \<lparr> cs_cache := d1 \<rparr>))"
    using s0 k(1) by (intro round_forward) simp_all
  let ?s1 = "sync_upgrade (s0 \<lparr> cs_cache := d1 \<rparr>)"
  have r2: "chain_sync_round (rocks_cache E) (offers b) ?s1 = Some (Some (RollForward b), sync_upgrade (?s1 \<lparr> cs_cache := d2 \<rparr>))"
    using s0 k(2,3) by (intro round_forward) (simp_all add: upd)
  let ?s2 = "sync_upgrade (?s1 \<lparr> cs_cache := d2 \<rparr>)"
  have r3: "chain_sync_round (rocks_cache E) (offers x) ?s2 = Some (Some (RollBackward b), sync_downgrade (?s2 \<lparr> cs_cache := d3 \<rparr>))"
    using s0 k(4,5) ids by (intro round_backward) (auto simp: upd)
  let ?s3 = "sync_downgrade (?s2 \<lparr> cs_cache := d3 \<rparr>)"
  have r4: "chain_sync_round (rocks_cache E) (offers b') ?s3 = Some (Some (RollForward b'), sync_upgrade (?s3 \<lparr> cs_cache := d4 \<rparr>))"
    using s0 k(6,7) by (intro round_forward) (simp_all add: upd)
  let ?s4 = "sync_upgrade (?s3 \<lparr> cs_cache := d4 \<rparr>)"
  have r5: "chain_sync_round (rocks_cache E) (offers c) ?s4 = Some (Some (RollForward c), sync_upgrade (?s4 \<lparr> cs_cache := d5 \<rparr>))"
    using s0 k(8,9) by (intro round_forward) (simp_all add: upd)
  show ?thesis by (simp add: s0_def [symmetric] r1 r2 r3 r4 r5)
qed

end

section \<open>Instance\<close>

text \<open>Transactions that are their own identifier, on the in-memory store.\<close>

function de_digests :: "bytes \<Rightarrow> digest32 list option" where
  "de_digests bs = (if bs = [] then Some [] else if length bs < 32 then None
     else map_option (\<lambda>xs. from_be_bytes (take 32 bs) # xs) (de_digests (drop 32 bs)))"
  by auto
termination
  by (relation "measure length") auto

declare de_digests.simps [simp del]

definition digests_codec :: "digest32 list codec" where
  "digests_codec = \<lparr> ser = (\<lambda>xs. concat (map (to_be_bytes 32) xs)), de = de_digests \<rparr>"

interpretation digests: codec_laws digests_codec
proof
  fix xs
  show "de digests_codec (ser digests_codec xs) = Some xs"
  proof (induction xs)
    case (Cons x xs)
    have "to_be_bytes 32 x \<noteq> []" by (metis length_to_be_bytes list.size(3) zero_neq_numeral)
    then show ?case using Cons by (simp add: digests_codec_def) (subst de_digests.simps, simp add: codec_simps)
  qed (simp add: digests_codec_def de_digests.simps)
qed

definition u32_codec :: "u32 codec" where
  "u32_codec = \<lparr> ser = to_le_bytes 4, de = (\<lambda>bs. if length bs = 4 then Some (from_le_bytes bs) else None) \<rparr>"

interpretation u32_bytes: codec_laws u32_codec
  by unfold_locales (simp add: u32_codec_def codec_simps)

definition block_record_codec :: "block_record codec" where
  "block_record_codec = \<lparr> ser = (\<lambda>r. to_be_bytes 32 (br_id r) @ to_le_bytes 4 (br_height r)),
     de = (\<lambda>bs. if length bs = 36 then Some \<lparr> br_id = from_be_bytes (take 32 bs), br_height = from_le_bytes (drop 32 bs) \<rparr> else None) \<rparr>"

interpretation block_record_bytes: codec_laws block_record_codec
  by unfold_locales (simp add: block_record_codec_def codec_simps)

definition sample_cache :: "(digest32, mem_db) cache_env" where
  "sample_cache = \<lparr> ce_db = mem_rocksdb, ce_str = bincode_str, ce_id = digest_codec, ce_height = u32_codec, ce_ids = digests_codec,
     ce_rec = block_record_codec, ce_tx_id = (\<lambda>t. t), ce_tx_bytes = (\<lambda>t. Some (ser digest_codec t)), ce_tx_parse = de digest_codec \<rparr>"

interpretation sample_cache: rocks_store sample_cache
  by (rule rocks_store.intro)
    (simp_all add: sample_cache_def mem.rocksdb_laws_axioms bin.bincode_strings_axioms digest.codec_laws_axioms u32_bytes.codec_laws_axioms
      digests.codec_laws_axioms block_record_bytes.codec_laws_axioms, simp_all add: digest_codec_def codec_simps)

section \<open>Properties\<close>



text \<open>C28: Over the RocksDB cache the same is false.  A fork replaces one block and the node returns
  to the first fork: the answers are consistent, but the last block is rolled forward on a top that
  is not its parent, because its parent, rolled back before, is still reported as existing.\<close>

theorem rocksdb_sync_breaks_chain:
  assumes "rocks_store E" "\<forall>k. db_get (ce_db E) db k = None" "distinct [p0, ia, ib, ib', ix, ic]"
    and "a = plain_block ia p0 h" "b = plain_block ib ia (h + 1)" "b' = plain_block ib' ia (h + 1)"
    and "x = plain_block ix ib' (h + 2)" "c = plain_block ic ib (h + 2)"
  shows "(\<exists>s us. chain_sync_run (rocks_cache E) (map offers [a, b, x, b', c]) (chain_sync_init (rocks_cache E) h db) = Some (us, s) \<and>
      apply_upgrades [] us = None) \<and> consistent_blocks {a, b, x, b', c}"
proof -
  have "\<exists>s. chain_sync_run (rocks_cache E) (map offers [a, b, x, b', c]) (chain_sync_init (rocks_cache E) h db) =
    Some ([RollForward a, RollForward b, RollBackward b, RollForward b', RollForward c], s)"
    unfolding assms(4-8) using rocks_store.reorganisation_and_back [OF assms(1), of db p0 ia ib ib' ix ic h] assms(2,3) by simp
  moreover have "apply_upgrades [] [RollForward a, RollForward b, RollBackward b, RollForward b', RollForward c] = None"
    using assms(3) by (simp add: assms(4-8))
  moreover have "consistent_blocks {a, b, x, b', c}" using assms(3) by (auto simp: consistent_blocks_def assms(4-8))
  ultimately show ?thesis by blast
qed

theorem rocksdb_sync_breaks_chain_witness:
  "\<exists>s us. chain_sync_run (rocks_cache sample_cache)
     (map offers [plain_block 1 9 5, plain_block 2 1 6, plain_block 4 3 7, plain_block 3 1 6, plain_block 8 2 7])
     (chain_sync_init (rocks_cache sample_cache) 5 RBT.empty) = Some (us, s) \<and> apply_upgrades [] us = None"
  using rocksdb_sync_breaks_chain [OF sample_cache.rocks_store_axioms, of RBT.empty 9 1 2 3 4 8 _ 5, OF _ _ refl refl refl refl refl]
  by (simp add: sample_cache_def mem_rocksdb_def)

text \<open>Below its capacity the RocksDB cache gives back the block it stored last, with its
  transactions in order, and makes its parent the best block again when the parent is in the store.  What does not come
  back is the timestamp, which is zero.  The block is still reported as existing.\<close>

theorem rocksdb_append_take:
  assumes "rocks_store E" "cache_room E db b" "distinct (map (ce_tx_id E) (blk_transactions b))"
    "\<forall>t \<in> set (blk_transactions b). ce_tx_bytes E t \<noteq> None" "blk_parent_id b \<noteq> blk_id b"
    "db_get (ce_db E) db (postfixed_key E (blk_parent_id b) PARENT_POSTFIX) \<noteq> None \<longrightarrow>
      db_get (ce_db E) db (postfixed_key E (blk_parent_id b) HEIGHT_POSTFIX) = Some (ser (ce_height E) h)"
  shows "\<exists>db1 db2. rocks_append_block E ERGO_MAX_ROLLBACK_DEPTH db b = Some db1 \<and>
    rocks_take_best_block E db1 = Some (Some (b \<lparr> blk_timestamp := 0 \<rparr>), db2) \<and>
    rocks_get_best_block E db2 = (if db_get (ce_db E) db (postfixed_key E (blk_parent_id b) PARENT_POSTFIX) = None then None
      else Some \<lparr> br_id = blk_parent_id b, br_height = h \<rparr>) \<and> rocks_exists E db2 (blk_id b)"
  using rocks_store.append_take [OF assms(1-4)] assms(5,6) by blast

theorem rocksdb_append_take_witness:
  "\<exists>db1 db2. rocks_append_block sample_cache ERGO_MAX_ROLLBACK_DEPTH RBT.empty
      \<lparr> blk_id = 1, blk_parent_id = 9, blk_height = 5, blk_timestamp = 77, blk_transactions = [21, 22] \<rparr> = Some db1 \<and>
    rocks_take_best_block sample_cache db1 = Some (Some
      \<lparr> blk_id = 1, blk_parent_id = 9, blk_height = 5, blk_timestamp = 0, blk_transactions = [21, 22] \<rparr>, db2)"
proof -
  have none: "db_get (ce_db sample_cache) RBT.empty k = None" for k by (simp add: sample_cache_def mem_rocksdb_def)
  have tx: "ce_tx_id sample_cache t = t" "ce_tx_bytes sample_cache t \<noteq> None" for t by (simp_all add: sample_cache_def)
  show ?thesis
    using rocksdb_append_take [OF sample_cache.rocks_store_axioms, of RBT.empty
      "\<lparr> blk_id = 1, blk_parent_id = 9, blk_height = 5, blk_timestamp = 77, blk_transactions = [21, 22] \<rparr>" 0]
    by (auto simp: none tx cache_room_def)
qed

end
