(* ===== verification/Codecs.thy ===== *)
theory Codecs
  imports Storage Bundle_Data
begin

text \<open>
  Concrete codecs for the stored types.  A self-delimiting codec reads its value off the front of a
  byte string and gives the rest back, so that codecs compose: pairs, lists, options, records and
  tagged unions.  The codecs built here are instances of the codec parameter of the
  repositories; the layout is not that of \<open>bincode\<close>, only its law is used.
\<close>

record 'a sd_codec =
  enc :: "'a \<Rightarrow> bytes"
  dec :: "bytes \<Rightarrow> ('a \<times> bytes) option"

locale self_delimiting =
  fixes c :: "'a sd_codec"
  assumes dec_enc: "dec c (enc c x @ r) = Some (x, r)"

definition codec_of :: "'a sd_codec \<Rightarrow> 'a codec" where
  "codec_of c = \<lparr> ser = enc c, de = (\<lambda>bs. case dec c bs of Some (x, []) \<Rightarrow> Some x | _ \<Rightarrow> None) \<rparr>"

context self_delimiting
begin

lemma codec_of_laws: "codec_laws (codec_of c)"
  using dec_enc [of _ "[]"] by unfold_locales (simp add: codec_of_def)

end

section \<open>Combinators\<close>

definition word_sd :: "nat \<Rightarrow> 'a::len word sd_codec" where
  "word_sd n = \<lparr> enc = to_be_bytes n, dec = (\<lambda>bs. if n \<le> length bs then Some (from_be_bytes (take n bs), drop n bs) else None) \<rparr>"

definition pair_sd :: "'a sd_codec \<Rightarrow> 'b sd_codec \<Rightarrow> ('a \<times> 'b) sd_codec" where
  "pair_sd a b = \<lparr> enc = (\<lambda>(x, y). enc a x @ enc b y),
     dec = (\<lambda>bs. do { (x, r) \<leftarrow> dec a bs; (y, r') \<leftarrow> dec b r; Some ((x, y), r') }) \<rparr>"

fun list_dec :: "'a sd_codec \<Rightarrow> nat \<Rightarrow> bytes \<Rightarrow> ('a list \<times> bytes) option" where
  "list_dec c (Suc n) (b # bs) = (if b = 0 then Some ([], bs) else do { (x, r) \<leftarrow> dec c bs; (xs, r') \<leftarrow> list_dec c n r; Some (x # xs, r') })"
| "list_dec c _ _ = None"

definition list_sd :: "'a sd_codec \<Rightarrow> 'a list sd_codec" where
  "list_sd c = \<lparr> enc = (\<lambda>xs. concat (map (\<lambda>x. 1 # enc c x) xs) @ [0]), dec = (\<lambda>bs. list_dec c (length bs) bs) \<rparr>"

definition iso_sd :: "('a \<Rightarrow> 'b) \<Rightarrow> ('b \<Rightarrow> 'a) \<Rightarrow> 'b sd_codec \<Rightarrow> 'a sd_codec" where
  "iso_sd f g c = \<lparr> enc = (\<lambda>x. enc c (f x)), dec = (\<lambda>bs. map_option (apfst g) (dec c bs)) \<rparr>"

definition option_sd :: "'a sd_codec \<Rightarrow> 'a option sd_codec" where
  "option_sd c = iso_sd (\<lambda>x. case x of None \<Rightarrow> [] | Some y \<Rightarrow> [y]) (\<lambda>xs. case xs of [] \<Rightarrow> None | y # _ \<Rightarrow> Some y) (list_sd c)"

lemma word_sd_laws: "LENGTH('a) = 8 * n \<Longrightarrow> self_delimiting (word_sd n :: 'a::len word sd_codec)"
  by unfold_locales (simp add: word_sd_def codec_simps)

lemma pair_sd_laws: "self_delimiting a \<Longrightarrow> self_delimiting b \<Longrightarrow> self_delimiting (pair_sd a b)"
  by unfold_locales (auto simp: pair_sd_def self_delimiting.dec_enc)

lemma list_dec_enc:
  assumes "self_delimiting c" "length xs < n"
  shows "list_dec c n (concat (map (\<lambda>x. 1 # enc c x) xs) @ 0 # r) = Some (xs, r)"
  using assms(2)
proof (induction xs arbitrary: n)
  case Nil
  then show ?case by (cases n) simp_all
next
  case (Cons x xs)
  then show ?case by (cases n) (simp_all add: self_delimiting.dec_enc [OF assms(1)])
qed

lemma length_list_enc: "length xs \<le> length (concat (map (\<lambda>x. 1 # f x) xs))"
  by (induction xs) simp_all

lemma list_sd_laws: "self_delimiting c \<Longrightarrow> self_delimiting (list_sd c)"
  by unfold_locales (simp add: list_sd_def list_dec_enc length_list_enc le_imp_less_Suc trans_le_add1)

lemma iso_sd_laws: "self_delimiting c \<Longrightarrow> (\<And>x. g (f x) = x) \<Longrightarrow> self_delimiting (iso_sd f g c)"
  by unfold_locales (simp add: iso_sd_def self_delimiting.dec_enc)

lemma option_sd_laws: "self_delimiting c \<Longrightarrow> self_delimiting (option_sd c)"
  unfolding option_sd_def by (rule iso_sd_laws) (auto simp: list_sd_laws split: option.splits)

section \<open>Chain data\<close>

abbreviation "digest_sd \<equiv> word_sd 32 :: digest32 sd_codec"
abbreviation "u64_sd \<equiv> word_sd 8 :: u64 sd_codec"
abbreviation "u32_sd \<equiv> word_sd 4 :: u32 sd_codec"
abbreviation "bytes_sd \<equiv> list_sd (word_sd 1 :: u8 sd_codec)"

definition string_sd :: "string sd_codec" where
  "string_sd = iso_sd (map (\<lambda>c. word_of_nat (of_char c))) (map (\<lambda>b. char_of (unat b))) bytes_sd"

definition constant_sd :: "constant_val sd_codec" where
  "constant_sd = iso_sd
     (\<lambda>c. case c of ConstInt x \<Rightarrow> ((0::u8), x, 0, [], []) | ConstLong x \<Rightarrow> (1, 0, x, [], []) | ConstInts xs \<Rightarrow> (2, 0, 0, xs, [])
        | ConstBytes bs \<Rightarrow> (3, 0, 0, [], bs) | ConstProp p \<Rightarrow> (4, 0, 0, [], p))
     (\<lambda>(t, x, y, xs, bs). if t = 0 then ConstInt x else if t = 1 then ConstLong y else if t = 2 then ConstInts xs
        else if t = 3 then ConstBytes bs else ConstProp bs)
     (pair_sd (word_sd 1) (pair_sd u32_sd (pair_sd u64_sd (pair_sd (list_sd u32_sd) bytes_sd))))"

definition token_sd :: "token sd_codec" where
  "token_sd = iso_sd (\<lambda>t. (tok_id t, tok_amount t)) (\<lambda>(i, a). \<lparr> tok_id = i, tok_amount = a \<rparr>) (pair_sd digest_sd u64_sd)"

definition box_sd :: "ergo_box sd_codec" where
  "box_sd = iso_sd (\<lambda>b. (bx_value b, bx_tree b, bx_tokens b, bx_regs b, bx_height b, box_id b))
     (\<lambda>(v, t, ts, rs, h, i). \<lparr> bx_value = v, bx_tree = t, bx_tokens = ts, bx_regs = rs, bx_height = h, box_id = i \<rparr>)
     (pair_sd u64_sd (pair_sd bytes_sd (pair_sd (option_sd (list_sd token_sd)) (pair_sd (list_sd constant_sd) (pair_sd u32_sd digest_sd)))))"

definition as_box_sd :: "'a sd_codec \<Rightarrow> 'a as_box sd_codec" where
  "as_box_sd c = iso_sd (\<lambda>b. (as_bx b, as_val b)) (\<lambda>(b, x). AsBox b x) (pair_sd box_sd c)"

lemmas sd_laws = pair_sd_laws list_sd_laws option_sd_laws

lemma word_sds: "self_delimiting digest_sd" "self_delimiting u64_sd" "self_delimiting u32_sd" "self_delimiting (word_sd (Suc 0) :: u8 sd_codec)"
  by (rule word_sd_laws; simp)+

lemma string_sd_laws: "self_delimiting string_sd"
  unfolding string_sd_def by (rule iso_sd_laws) (simp_all add: sd_laws word_sds o_def unat_of_nat)

lemma constant_sd_laws: "self_delimiting constant_sd"
  unfolding constant_sd_def by (rule iso_sd_laws) (simp_all add: sd_laws word_sds split: constant_val.splits)

lemma token_sd_laws: "self_delimiting token_sd"
  unfolding token_sd_def by (rule iso_sd_laws) (simp_all add: sd_laws word_sds)

lemma box_sd_laws: "self_delimiting box_sd"
  unfolding box_sd_def by (rule iso_sd_laws) (simp_all add: sd_laws word_sds token_sd_laws constant_sd_laws)

lemma as_box_sd_laws: "self_delimiting c \<Longrightarrow> self_delimiting (as_box_sd c)"
  unfolding as_box_sd_def by (rule iso_sd_laws) (simp_all add: sd_laws box_sd_laws)

section \<open>Staking bundles\<close>

definition amount_sd :: "typed_asset_amount sd_codec" where
  "amount_sd = iso_sd (\<lambda>t. (asset_id t, amount t)) (\<lambda>(i, a). typed_amount i a) (pair_sd digest_sd u64_sd)"

definition bundle_sd :: "staking_bundle sd_codec" where
  "bundle_sd = iso_sd
     (\<lambda>b. (ta_id (sb_bundle_key_id b), sb_state_id b, sb_pool_id b, sb_vlq b, sb_tmp b, sb_redeemer_prop b, sb_erg_value b, sb_token_name b, sb_token_desc b))
     (\<lambda>(k, s, p, v, t, r, e, n, d). \<lparr> sb_bundle_key_id = \<lparr> ta_id = k \<rparr>, sb_state_id = s, sb_pool_id = p, sb_vlq = v, sb_tmp = t,
        sb_redeemer_prop = r, sb_erg_value = e, sb_token_name = n, sb_token_desc = d \<rparr>)
     (pair_sd digest_sd (pair_sd digest_sd (pair_sd digest_sd (pair_sd amount_sd (pair_sd (option_sd amount_sd)
       (pair_sd bytes_sd (pair_sd u64_sd (pair_sd string_sd string_sd))))))))"

definition indexed_bundle_sd :: "staking_bundle indexed_bundle sd_codec" where
  "indexed_bundle_sd = iso_sd (\<lambda>b. (ib_bundle b, ib_lower_epoch_ix b)) (\<lambda>(b, i). \<lparr> ib_bundle = b, ib_lower_epoch_ix = i \<rparr>) (pair_sd bundle_sd u32_sd)"

lemma amount_sd_laws: "self_delimiting amount_sd"
  unfolding amount_sd_def by (rule iso_sd_laws) (simp_all add: sd_laws word_sds asset_eq_iff)

lemma bundle_sd_laws: "self_delimiting bundle_sd"
  unfolding bundle_sd_def by (rule iso_sd_laws) (simp_all add: sd_laws word_sds amount_sd_laws string_sd_laws)

lemma indexed_bundle_sd_laws: "self_delimiting indexed_bundle_sd"
  unfolding indexed_bundle_sd_def by (rule iso_sd_laws) (simp_all add: sd_laws word_sds bundle_sd_laws)

interpretation bundle_box_bytes: self_delimiting "as_box_sd indexed_bundle_sd"
  by (rule as_box_sd_laws) (rule indexed_bundle_sd_laws)

end
