(* ===== verification/Funding_Repo.thy ===== *)
theory Funding_Repo
  imports Codecs Entity_Data
begin

text \<open>
  The repository of the boxes that fund compounding, \<open>spectrum-offchain-lm/src/funding.rs\<close> with
  \<open>funding/process.rs\<close>, and the registry of programs, \<open>program.rs\<close> with \<open>program/rocksdb.rs\<close>.

  A funding box is stored under a key that begins with its priority (confirmed, predicted, selected), and an
  index maps the identifier of the box to that key.  The iterator of \<open>collect\<close> reads a
  snapshot, so the loop runs over the entries scanned at the start while it moves them.
  \<open>usize\<close> is 64 bits wide; \<open>None\<close> of a \<open>panics\<close> result is a failed \<open>unwrap\<close>.

  Results: \<open>collect\<close> takes the shortest run of boxes, in the order of their keys, that covers the target,
  and forgets no box; a box that was predicted and then confirmed is stored twice and
  can be collected twice.
\<close>

section \<open>Data (funding.rs)\<close>

record stored_funding =
  sf_id :: funding_id
  sf_prop_bytes :: bytes
  sf_erg_value :: nano_erg

definition stored_of_funding :: "distribution_funding \<Rightarrow> stored_funding" where
  "stored_of_funding df = \<lparr> sf_id = df_id df, sf_prop_bytes = df_prop df, sf_erg_value = df_erg_value df \<rparr>"

definition funding_of_stored :: "ergo_lib \<Rightarrow> stored_funding \<Rightarrow> distribution_funding panics" where
  "funding_of_stored L df = do { prop \<leftarrow> parse_tree L (sf_prop_bytes df); Some \<lparr> df_id = sf_id df, df_prop = prop, df_erg_value = sf_erg_value df \<rparr> }"

record 'db funding_env =
  fe_db :: "'db rocksdb"
  fe_str :: "string \<Rightarrow> bytes"
  fe_fid :: "funding_id codec"
  fe_u64 :: "u64 codec"
  fe_stored :: "stored_funding as_box codec"
  fe_lib :: ergo_lib

section \<open>FundingRepoRocksDB (funding.rs)\<close>

definition FUNDING_KEY_PREFIX :: string where "FUNDING_KEY_PREFIX = ''funding''"
definition FUNDING_KEY_INDEX_PREFIX :: string where "FUNDING_KEY_INDEX_PREFIX = ''funding_index''"
definition CONFIRMED_PRIORITY :: u64 where "CONFIRMED_PRIORITY = 0"
definition PREDICTED_PRIORITY :: u64 where "PREDICTED_PRIORITY = 5"
definition SELECTED_PRIORITY :: u64 where "SELECTED_PRIORITY = 10"

definition funding_key :: "'db funding_env \<Rightarrow> string \<Rightarrow> u64 \<Rightarrow> u64 \<Rightarrow> funding_id \<Rightarrow> bytes" where
  "funding_key X pfx seq_num value fid = fe_str X pfx @ ser (fe_u64 X) seq_num @ ser (fe_u64 X) (MAX_VALUE - value) @ ser (fe_fid X) fid"

definition funding_index_key :: "'db funding_env \<Rightarrow> funding_id \<Rightarrow> bytes" where
  "funding_index_key X fid = prefixed_key (fe_str X) FUNDING_KEY_INDEX_PREFIX (fe_fid X) fid"

definition select_funding :: "'db funding_env \<Rightarrow> 'db \<Rightarrow> bytes \<Rightarrow> bytes \<Rightarrow> stored_funding \<Rightarrow> 'db" where
  "select_funding X db key bytes df =
     (let new_key = funding_key X FUNDING_KEY_PREFIX SELECTED_PRIORITY (sf_erg_value df) (sf_id df);
          tx = db_delete (fe_db X) db key;
          tx = db_put (fe_db X) tx new_key bytes
      in db_put (fe_db X) tx (funding_index_key X (sf_id df)) new_key)"

fun collect_loop :: "'db funding_env \<Rightarrow> nano_erg \<Rightarrow> nano_erg \<Rightarrow> distribution_funding as_box list \<Rightarrow> 'db \<Rightarrow> (bytes \<times> bytes) list
    \<Rightarrow> (nano_erg \<times> distribution_funding as_box list \<times> 'db) panics" where
  "collect_loop X target acc funds db [] = Some (acc, funds, db)"
| "collect_loop X target acc funds db ((key, bytes) # iter) =
     (if target \<le> acc then Some (acc, funds, db)
      else (case de (fe_stored X) bytes of
          Some (AsBox bx df) \<Rightarrow> do {
            f \<leftarrow> funding_of_stored (fe_lib X) df;
            collect_loop X target (acc + sf_erg_value df) (funds @ [AsBox bx f]) (select_funding X db key bytes df) iter }
        | None \<Rightarrow> collect_loop X target acc funds db iter))"

definition funding_collect :: "'db funding_env \<Rightarrow> 'db \<Rightarrow> nano_erg \<Rightarrow> ((unit + distribution_funding as_box list) \<times> 'db) panics" where
  "funding_collect X db target = do {
     (acc, funds, db') \<leftarrow> collect_loop X target 0 [] db (db_scan (fe_db X) db (fe_str X FUNDING_KEY_PREFIX));
     if target \<le> acc
     then (if funds = [] then None else Some (Inr funds, db'))
     else Some (Inl (), db') }"

definition put_funding :: "'db funding_env \<Rightarrow> u64 \<Rightarrow> 'db \<Rightarrow> distribution_funding as_box \<Rightarrow> 'db" where
  "put_funding X priority db f = (case f of AsBox bx df \<Rightarrow>
     let key = funding_key X FUNDING_KEY_PREFIX priority (df_erg_value df) (df_id df);
         tx = db_put (fe_db X) db key (ser (fe_stored X) (AsBox bx (stored_of_funding df)))
     in db_put (fe_db X) tx (funding_index_key X (df_id df)) key)"

definition funding_put_confirmed :: "'db funding_env \<Rightarrow> 'db \<Rightarrow> distribution_funding as_box confirmed \<Rightarrow> 'db" where
  "funding_put_confirmed X db c = (case c of Confirmed f \<Rightarrow> put_funding X CONFIRMED_PRIORITY db f)"

definition funding_put_predicted :: "'db funding_env \<Rightarrow> 'db \<Rightarrow> distribution_funding as_box predicted \<Rightarrow> 'db" where
  "funding_put_predicted X db c = (case c of Predicted f \<Rightarrow> put_funding X PREDICTED_PRIORITY db f)"

definition funding_may_exist :: "'db funding_env \<Rightarrow> 'db \<Rightarrow> funding_id \<Rightarrow> bool" where
  "funding_may_exist X db fid = db_key_may_exist (fe_db X) db (funding_index_key X fid)"

definition funding_remove :: "'db funding_env \<Rightarrow> 'db \<Rightarrow> funding_id \<Rightarrow> 'db" where
  "funding_remove X db fid = (case db_get (fe_db X) db (funding_index_key X fid) of
      Some key \<Rightarrow> db_delete (fe_db X) (db_delete (fe_db X) db (funding_index_key X fid)) key
    | None \<Rightarrow> db)"

section \<open>The trait, its tracing wrapper and the update stream (funding.rs, process.rs)\<close>

record 'r funding_repo_ops =
  fro_collect :: "'r \<Rightarrow> nano_erg \<Rightarrow> ((unit + distribution_funding as_box list) \<times> 'r) panics"
  fro_put_confirmed :: "'r \<Rightarrow> distribution_funding as_box confirmed \<Rightarrow> 'r"
  fro_put_predicted :: "'r \<Rightarrow> distribution_funding as_box predicted \<Rightarrow> 'r"
  fro_may_exist :: "'r \<Rightarrow> funding_id \<Rightarrow> bool"
  fro_remove :: "'r \<Rightarrow> funding_id \<Rightarrow> 'r"

definition funding_repo_rocksdb :: "'db funding_env \<Rightarrow> 'db funding_repo_ops" where
  "funding_repo_rocksdb X = \<lparr> fro_collect = funding_collect X, fro_put_confirmed = funding_put_confirmed X,
     fro_put_predicted = funding_put_predicted X, fro_may_exist = funding_may_exist X, fro_remove = funding_remove X \<rparr>"

text \<open>\<open>FundingRepoTracing\<close> forwards every call; the log is not modelled.\<close>

definition funding_repo_tracing :: "'r funding_repo_ops \<Rightarrow> 'r funding_repo_ops" where
  "funding_repo_tracing inner = \<lparr> fro_collect = (\<lambda>r t. fro_collect inner r t), fro_put_confirmed = (\<lambda>r c. fro_put_confirmed inner r c),
     fro_put_predicted = (\<lambda>r c. fro_put_predicted inner r c), fro_may_exist = (\<lambda>r i. fro_may_exist inner r i), fro_remove = (\<lambda>r i. fro_remove inner r i) \<rparr>"

fun funding_update_step :: "'r funding_repo_ops \<Rightarrow> 'r \<Rightarrow> funding_update confirmed \<Rightarrow> 'r" where
  "funding_update_step R repo (Confirmed (FundingCreated funding)) = fro_put_confirmed R repo (Confirmed funding)"
| "funding_update_step R repo (Confirmed (FundingEliminated fid)) = fro_remove R repo fid"

section \<open>The registry of programs (program.rs, program/rocksdb.rs)\<close>

record 'db program_env =
  pe_db :: "'db rocksdb"
  pe_pid :: "pool_id codec"
  pe_conf :: "program_config codec"

definition program_put :: "'db program_env \<Rightarrow> 'db \<Rightarrow> pool_id \<Rightarrow> program_config \<Rightarrow> 'db" where
  "program_put X db pool_id conf = db_put (pe_db X) db (ser (pe_pid X) pool_id) (ser (pe_conf X) conf)"

definition program_get :: "'db program_env \<Rightarrow> 'db \<Rightarrow> pool_id \<Rightarrow> program_config option" where
  "program_get X db pool_id = Option.bind (db_get (pe_db X) db (ser (pe_pid X) pool_id)) (de (pe_conf X))"

definition program_exists :: "'db program_env \<Rightarrow> 'db \<Rightarrow> pool_id \<Rightarrow> bool" where
  "program_exists X db pool_id \<longleftrightarrow> db_get (pe_db X) db (ser (pe_pid X) pool_id) \<noteq> None"

record 'r program_repo_ops =
  pro_put :: "'r \<Rightarrow> pool_id \<Rightarrow> program_config \<Rightarrow> 'r"
  pro_get :: "'r \<Rightarrow> pool_id \<Rightarrow> program_config option"
  pro_exists :: "'r \<Rightarrow> pool_id \<Rightarrow> bool"

definition program_repo_rocksdb :: "'db program_env \<Rightarrow> 'db program_repo_ops" where
  "program_repo_rocksdb X = \<lparr> pro_put = program_put X, pro_get = program_get X, pro_exists = program_exists X \<rparr>"

section \<open>The stored fundings\<close>

definition stored_bytes :: "'db funding_env \<Rightarrow> distribution_funding as_box \<Rightarrow> bytes" where
  "stored_bytes X f = ser (fe_stored X) (AsBox (as_bx f) (stored_of_funding (as_val f)))"

definition key_of :: "'db funding_env \<Rightarrow> u64 \<Rightarrow> distribution_funding as_box \<Rightarrow> bytes" where
  "key_of X priority f = funding_key X FUNDING_KEY_PREFIX priority (df_erg_value (as_val f)) (df_id (as_val f))"

definition stored_fundings :: "'db funding_env \<Rightarrow> 'db \<Rightarrow> distribution_funding as_box set" where
  "stored_fundings X db = {f. \<exists>priority. db_get (fe_db X) db (key_of X priority f) = Some (stored_bytes X f)}"

text \<open>What \<open>collect\<close> goes through, in the order of the keys.\<close>

definition funding_list :: "'db funding_env \<Rightarrow> 'db \<Rightarrow> distribution_funding as_box list" where
  "funding_list X db = List.map_filter (\<lambda>(_, bs). do { b \<leftarrow> de (fe_stored X) bs; f \<leftarrow> funding_of_stored (fe_lib X) (as_val b); Some (AsBox (as_bx b) f) })
     (db_scan (fe_db X) db (fe_str X FUNDING_KEY_PREFIX))"

text \<open>Every entry under the prefix is a funding box that can be read, and a box is known by its identifier.\<close>

definition funding_wf :: "'db funding_env \<Rightarrow> 'db \<Rightarrow> bool" where
  "funding_wf X db \<longleftrightarrow>
     (\<forall>k v. db_get (fe_db X) db k = Some v \<and> prefix (fe_str X FUNDING_KEY_PREFIX) k \<longrightarrow>
        (\<exists>priority f. k = key_of X priority f \<and> v = stored_bytes X f \<and> parse_tree (fe_lib X) (df_prop (as_val f)) = Some (df_prop (as_val f)))) \<and>
     (\<forall>f \<in> stored_fundings X db. \<forall>g \<in> stored_fundings X db. df_id (as_val f) = df_id (as_val g) \<longrightarrow> f = g)"

abbreviation "erg f \<equiv> unat (df_erg_value (as_val f))"

locale funding_repo =
  fixes X :: "'db funding_env"
  assumes db_laws: "rocksdb_laws (fe_db X)" and str_laws: "bincode_strings (fe_str X)"
    and fid_laws: "codec_laws (fe_fid X)" and stored_laws: "codec_laws (fe_stored X)" and u64_bytes: "ser (fe_u64 X) n = to_le_bytes 8 n"
begin

lemmas get_put = rocksdb_laws.get_put [OF db_laws]
lemmas get_delete = rocksdb_laws.get_delete [OF db_laws]
lemmas de_ser [simp] = codec_laws.de_ser [OF stored_laws]
lemmas ser_inject [simp] = codec_laws.ser_inject [OF fid_laws] codec_laws.ser_inject [OF stored_laws]
lemmas funding_prefixes = FUNDING_KEY_PREFIX_def FUNDING_KEY_INDEX_PREFIX_def

lemma str_split: "length a < 4294967296 \<Longrightarrow> length b < 4294967296 \<Longrightarrow> fe_str X a @ x = fe_str X b @ y \<longleftrightarrow> a = b \<and> x = y"
  using bincode_strings.str_prefix_free [OF str_laws, of a b x y] by auto

lemma key_of_eq [simp]: "key_of X p f = key_of X q g \<longleftrightarrow> p = q \<and> df_erg_value (as_val f) = df_erg_value (as_val g) \<and> df_id (as_val f) = df_id (as_val g)"
  by (auto simp: key_of_def funding_key_def u64_bytes to_le_bytes_inject)

lemma index_key_eq [simp]: "funding_index_key X i = funding_index_key X j \<longleftrightarrow> i = j"
  by (simp add: funding_index_key_def prefixed_key_def)

lemma key_index [simp]: "key_of X p f \<noteq> funding_index_key X i" "funding_index_key X i \<noteq> key_of X p f"
  by (simp_all add: key_of_def funding_key_def funding_index_key_def prefixed_key_def str_split funding_prefixes)

lemma key_prefix [simp]: "prefix (fe_str X FUNDING_KEY_PREFIX) (key_of X p f)"
  by (simp add: key_of_def funding_key_def)

lemma index_prefix [simp]: "\<not> prefix (fe_str X FUNDING_KEY_PREFIX) (funding_index_key X i)"
proof
  assume "prefix (fe_str X FUNDING_KEY_PREFIX) (funding_index_key X i)"
  then obtain z where "fe_str X FUNDING_KEY_INDEX_PREFIX @ ser (fe_fid X) i = fe_str X FUNDING_KEY_PREFIX @ z"
    by (auto simp: prefix_def funding_index_key_def prefixed_key_def)
  then show False by (simp add: str_split funding_prefixes)
qed

lemma stored_bytes_eq [simp]: "stored_bytes X f = stored_bytes X g \<longleftrightarrow> f = g"
  by (cases f; cases g) (auto simp: stored_bytes_def stored_of_funding_def intro: distribution_funding.equality)

lemma de_stored_bytes [simp]: "de (fe_stored X) (stored_bytes X f) = Some (AsBox (as_bx f) (stored_of_funding (as_val f)))"
  by (simp add: stored_bytes_def)

lemma funding_of_stored_of [simp]: "parse_tree L (df_prop f) = Some (df_prop f) \<Longrightarrow> funding_of_stored L (stored_of_funding f) = Some f"
  by (simp add: funding_of_stored_def stored_of_funding_def)

lemma stored_fields [simp]: "sf_erg_value (stored_of_funding f) = df_erg_value f" "sf_id (stored_of_funding f) = df_id f"
  by (simp_all add: stored_of_funding_def)

abbreviation "move \<equiv> \<lambda>(k, f) db. select_funding X db k (stored_bytes X f) (stored_of_funding (as_val f))"

text \<open>Moving a box to the selected ones keeps what is stored.\<close>

lemma move_get:
  "db_get (fe_db X) (select_funding X db k (stored_bytes X f) (stored_of_funding (as_val f))) k' = (if k' = funding_index_key X (df_id (as_val f)) then Some (key_of X SELECTED_PRIORITY f)
     else if k' = key_of X SELECTED_PRIORITY f then Some (stored_bytes X f) else if k' = k then None else db_get (fe_db X) db k')"
  by (simp add: select_funding_def Let_def get_put get_delete key_of_def)

lemma move_stored:
  assumes "funding_wf X db" "f \<in> stored_fundings X db"
  shows "stored_fundings X (select_funding X db (key_of X p f) (stored_bytes X f) (stored_of_funding (as_val f))) = stored_fundings X db"
proof -
  have uniq: "g \<in> stored_fundings X db \<Longrightarrow> df_id (as_val g) = df_id (as_val f) \<Longrightarrow> g = f" for g
    using assms unfolding funding_wf_def by blast
  show ?thesis
  proof (intro equalityI subsetI)
    fix g assume "g \<in> stored_fundings X (select_funding X db (key_of X p f) (stored_bytes X f) (stored_of_funding (as_val f)))"
    then show "g \<in> stored_fundings X db" using assms(2) by (auto simp: stored_fundings_def move_get split: if_splits)
  next
    fix g assume g: "g \<in> stored_fundings X db"
    show "g \<in> stored_fundings X (select_funding X db (key_of X p f) (stored_bytes X f) (stored_of_funding (as_val f)))"
    proof (cases "df_id (as_val g) = df_id (as_val f)")
      case True
      then show ?thesis using uniq [OF g] by (auto simp: stored_fundings_def move_get)
    next
      case False
      then show ?thesis using g by (auto simp: stored_fundings_def move_get)
    qed
  qed
qed

lemma move_wf:
  assumes "funding_wf X db" "f \<in> stored_fundings X db" "parse_tree (fe_lib X) (df_prop (as_val f)) = Some (df_prop (as_val f))"
  shows "funding_wf X (select_funding X db (key_of X p f) (stored_bytes X f) (stored_of_funding (as_val f)))"
  using assms(1,3) unfolding funding_wf_def move_stored [OF assms(1,2)] move_get by (auto simp del: stored_bytes_eq key_of_eq)

lemma moves_stored:
  assumes "funding_wf X db" "\<forall>(k, f) \<in> set xs. f \<in> stored_fundings X db \<and> (\<exists>p. k = key_of X p f) \<and> parse_tree (fe_lib X) (df_prop (as_val f)) = Some (df_prop (as_val f))"
  shows "stored_fundings X (fold move xs db) = stored_fundings X db \<and> funding_wf X (fold move xs db)"
  using assms
proof (induction xs arbitrary: db)
  case (Cons x xs)
  obtain p f where x: "x = (key_of X p f, f)" "f \<in> stored_fundings X db" "parse_tree (fe_lib X) (df_prop (as_val f)) = Some (df_prop (as_val f))"
    using Cons.prems(2) by (cases x) auto
  then show ?case using Cons.IH [of "move x db"] Cons.prems move_stored move_wf by auto
qed simp

text \<open>The loop takes boxes until the target is covered.\<close>

lemma collect_loop_takes:
  assumes "map snd es = map (stored_bytes X) fs" "\<forall>f \<in> set fs. parse_tree (fe_lib X) (df_prop (as_val f)) = Some (df_prop (as_val f))"
    and "unat acc + sum_list (map erg fs) < 2 ^ 64"
  shows "\<exists>n acc'. collect_loop X target acc funds db es = Some (acc', funds @ take n fs, fold move (take n (zip (map fst es) fs)) db) \<and>
    n \<le> length fs \<and> unat acc' = unat acc + sum_list (map erg (take n fs)) \<and>
    (\<forall>m < n. unat acc + sum_list (map erg (take m fs)) < unat target) \<and> (acc' < target \<longrightarrow> n = length fs)"
  using assms
proof (induction es arbitrary: fs acc funds db)
  case Nil
  then show ?case by (intro exI [of _ 0] exI [of _ acc]) simp
next
  case (Cons e es)
  then obtain f gs where fs: "fs = f # gs" "snd e = stored_bytes X f" "map snd es = map (stored_bytes X) gs" by (cases fs) auto
  show ?case
  proof (cases "target \<le> acc")
    case True
    then show ?thesis by (cases e) (intro exI [of _ 0] exI [of _ acc], simp)
  next
    case False
    let ?acc = "acc + df_erg_value (as_val f)" and ?db = "move (fst e, f) db"
    have u: "unat ?acc = unat acc + erg f" using Cons.prems(3) fs(1) by (intro unat_add_u64) simp
    from Cons.IH [of gs ?acc "funds @ [f]" ?db] fs(3) Cons.prems(2,3) fs(1) u obtain n acc' where
      n: "collect_loop X target ?acc (funds @ [f]) ?db es = Some (acc', (funds @ [f]) @ take n gs, fold move (take n (zip (map fst es) gs)) ?db)"
        "n \<le> length gs" "unat acc' = unat ?acc + sum_list (map erg (take n gs))"
        "\<forall>m < n. unat ?acc + sum_list (map erg (take m gs)) < unat target" "acc' < target \<longrightarrow> n = length gs"
      by auto
    have step: "collect_loop X target acc funds db (e # es) = collect_loop X target ?acc (funds @ [f]) ?db es"
      using False fs Cons.prems(2) by (cases e; cases f) simp
    have "unat acc + sum_list (map erg (take m fs)) < unat target" if "m < Suc n" for m
      using n(4) False that u fs(1) by (cases m) (auto simp: word_less_nat_alt word_le_nat_alt)
    then show ?thesis
      using n step fs(1) u by (intro exI [of _ "Suc n"] exI [of _ acc']) (simp add: add.assoc)
  qed
qed

lemma scan_entry:
  assumes "funding_wf X db" "e \<in> set (db_scan (fe_db X) db (fe_str X FUNDING_KEY_PREFIX))"
  shows "\<exists>p f. e = (key_of X p f, stored_bytes X f) \<and> f \<in> stored_fundings X db \<and> parse_tree (fe_lib X) (df_prop (as_val f)) = Some (df_prop (as_val f)) \<and>
    (\<lambda>(_, bs). do { b \<leftarrow> de (fe_stored X) bs; f \<leftarrow> funding_of_stored (fe_lib X) (as_val b); Some (AsBox (as_bx b) f) }) e = Some f"
proof -
  have "db_get (fe_db X) db (fst e) = Some (snd e)" "prefix (fe_str X FUNDING_KEY_PREFIX) (fst e)"
    using rocksdb_laws.scan_entries [OF db_laws, of "fst e" "snd e" db] assms(2) by simp_all
  then obtain p f where f: "fst e = key_of X p f" "snd e = stored_bytes X f" "parse_tree (fe_lib X) (df_prop (as_val f)) = Some (df_prop (as_val f))"
    and g: "db_get (fe_db X) db (key_of X p f) = Some (stored_bytes X f)"
    using assms(1) unfolding funding_wf_def by (metis (no_types, lifting))
  show ?thesis using f g by (intro exI [of _ p] exI [of _ f]) (cases e, auto simp: stored_fundings_def)
qed

lemma scan_fundings:
  assumes "funding_wf X db"
  shows "map snd (db_scan (fe_db X) db (fe_str X FUNDING_KEY_PREFIX)) = map (stored_bytes X) (funding_list X db)"
    and "\<forall>(k, f) \<in> set (zip (map fst (db_scan (fe_db X) db (fe_str X FUNDING_KEY_PREFIX))) (funding_list X db)).
      f \<in> stored_fundings X db \<and> (\<exists>p. k = key_of X p f) \<and> parse_tree (fe_lib X) (df_prop (as_val f)) = Some (df_prop (as_val f))"
    and "set (funding_list X db) = stored_fundings X db"
proof -
  let ?es = "db_scan (fe_db X) db (fe_str X FUNDING_KEY_PREFIX)"
  let ?read = "\<lambda>(_, bs). do { b \<leftarrow> de (fe_stored X) bs; f \<leftarrow> funding_of_stored (fe_lib X) (as_val b); Some (AsBox (as_bx b) f) }"
  note ok = scan_entry [OF assms]
  have gen: "map snd es = map (stored_bytes X) (List.map_filter ?read es) \<and> (\<forall>(k, f) \<in> set (zip (map fst es) (List.map_filter ?read es)).
      f \<in> stored_fundings X db \<and> (\<exists>p. k = key_of X p f) \<and> parse_tree (fe_lib X) (df_prop (as_val f)) = Some (df_prop (as_val f)))"
    if "set es \<subseteq> set ?es" for es
    using that
  proof (induction es)
    case (Cons e es)
    then obtain p f where "e = (key_of X p f, stored_bytes X f)" "?read e = Some f" "f \<in> stored_fundings X db"
      "parse_tree (fe_lib X) (df_prop (as_val f)) = Some (df_prop (as_val f))" using ok [of e] by auto
    moreover have "set es \<subseteq> set ?es" using Cons.prems by simp
    ultimately show ?case using Cons.IH by simp
  qed simp
  show 1: "map snd ?es = map (stored_bytes X) (funding_list X db)" using gen [OF subset_refl] unfolding funding_list_def by blast
  show 2: "\<forall>(k, f) \<in> set (zip (map fst ?es) (funding_list X db)). f \<in> stored_fundings X db \<and> (\<exists>p. k = key_of X p f) \<and>
      parse_tree (fe_lib X) (df_prop (as_val f)) = Some (df_prop (as_val f))" using gen [OF subset_refl] unfolding funding_list_def by blast
  have "f \<in> set (funding_list X db) \<longleftrightarrow> stored_bytes X f \<in> set (map snd ?es)" for f unfolding 1 by auto
  also have "\<dots> f \<longleftrightarrow> f \<in> stored_fundings X db" for f
  proof
    assume "stored_bytes X f \<in> set (map snd ?es)"
    then obtain k where "(k, stored_bytes X f) \<in> set ?es" by auto
    then show "f \<in> stored_fundings X db" using ok [of "(k, stored_bytes X f)"] by auto
  next
    assume "f \<in> stored_fundings X db"
    then obtain p where "(key_of X p f, stored_bytes X f) \<in> set ?es"
      using rocksdb_laws.scan_entries [OF db_laws] by (auto simp: stored_fundings_def)
    then show "stored_bytes X f \<in> set (map snd ?es)" by force
  qed
  finally show "set (funding_list X db) = stored_fundings X db" by blast
qed

end

section \<open>Instance\<close>

definition stored_funding_sd :: "stored_funding sd_codec" where
  "stored_funding_sd = iso_sd (\<lambda>f. (sf_id f, sf_prop_bytes f, sf_erg_value f)) (\<lambda>(i, p, v). \<lparr> sf_id = i, sf_prop_bytes = p, sf_erg_value = v \<rparr>)
     (pair_sd digest_sd (pair_sd bytes_sd u64_sd))"

interpretation stored_funding_bytes: self_delimiting "as_box_sd stored_funding_sd"
  unfolding stored_funding_sd_def by (rule as_box_sd_laws, rule iso_sd_laws) (simp_all add: sd_laws word_sds)

definition u64_le_codec :: "u64 codec" where
  "u64_le_codec = \<lparr> ser = to_le_bytes 8, de = (\<lambda>bs. if length bs = 8 then Some (from_le_bytes bs) else None) \<rparr>"

definition sample_fundings :: "mem_db funding_env" where
  "sample_fundings = \<lparr> fe_db = mem_rocksdb, fe_str = bincode_str, fe_fid = digest_codec, fe_u64 = u64_le_codec,
     fe_stored = codec_of (as_box_sd stored_funding_sd), fe_lib = sample_lib \<rparr>"

interpretation sample_fundings: funding_repo sample_fundings
  by (rule funding_repo.intro) (simp_all add: sample_fundings_def mem.rocksdb_laws_axioms bin.bincode_strings_axioms digest.codec_laws_axioms
      stored_funding_bytes.codec_of_laws u64_le_codec_def)

definition sample_funding :: "digest32 \<Rightarrow> nano_erg \<Rightarrow> distribution_funding as_box" where
  "sample_funding i v = AsBox \<lparr> bx_value = v, bx_tree = [], bx_tokens = None, bx_regs = [], bx_height = 1, box_id = i \<rparr>
     \<lparr> df_id = i, df_prop = [], df_erg_value = v \<rparr>"

section \<open>Properties\<close>

text \<open>C40: Collecting funding boxes for a positive target does not panic.  It takes the boxes in the order
  of their keys and stops as soon as they cover the target, so no shorter run of them does; it
  fails only when all boxes together do not cover the target; and either way
  the same boxes stay stored.  The values of all boxes add up to less than \<open>2\<^sup>6\<^sup>4\<close>.\<close>

theorem collect_covers_target:
  assumes "funding_repo X" "funding_wf X db" "sum_list (map erg (funding_list X db)) < 2 ^ 64" "0 < target"
  shows "\<exists>n db'. let funds = take n (funding_list X db); covered = unat target \<le> sum_list (map erg funds)
    in funding_collect X db target = Some (if covered then Inr funds else Inl (), db') \<and>
      (\<not> covered \<longrightarrow> funds = funding_list X db) \<and> (\<forall>m < n. sum_list (map erg (take m (funding_list X db))) < unat target) \<and>
      stored_fundings X db' = stored_fundings X db \<and> set (funding_list X db') = set (funding_list X db)"
proof -
  let ?fs = "funding_list X db" and ?es = "db_scan (fe_db X) db (fe_str X FUNDING_KEY_PREFIX)"
  note sf = funding_repo.scan_fundings [OF assms(1,2)]
  have len: "length ?es = length ?fs" using sf(1) by (metis length_map)
  have parse: "\<forall>f \<in> set ?fs. parse_tree (fe_lib X) (df_prop (as_val f)) = Some (df_prop (as_val f))"
  proof
    fix f assume "f \<in> set ?fs"
    then obtain k where "(k, f) \<in> set (zip (map fst ?es) ?fs)" using in_set_impl_in_set_zip2 [of "map fst ?es" ?fs f] len by auto
    then show "parse_tree (fe_lib X) (df_prop (as_val f)) = Some (df_prop (as_val f))" using sf(2) by blast
  qed
  obtain n acc where n: "collect_loop X target 0 [] db ?es = Some (acc, take n ?fs,
      fold (\<lambda>(k, f) db. select_funding X db k (stored_bytes X f) (stored_of_funding (as_val f))) (take n (zip (map fst ?es) ?fs)) db)"
    "n \<le> length ?fs" "unat acc = sum_list (map erg (take n ?fs))" "\<forall>m < n. sum_list (map erg (take m ?fs)) < unat target" "acc < target \<longrightarrow> n = length ?fs"
    using funding_repo.collect_loop_takes [OF assms(1) sf(1) parse, of 0 target "[]" db] assms(3) by auto
  let ?db = "fold (\<lambda>(k, f) db. select_funding X db k (stored_bytes X f) (stored_of_funding (as_val f))) (take n (zip (map fst ?es) ?fs)) db"
  have kept: "stored_fundings X ?db = stored_fundings X db \<and> funding_wf X ?db"
    using sf(2) by (intro funding_repo.moves_stored [OF assms(1,2)]) (meson in_set_takeD)
  have cov: "target \<le> acc \<longleftrightarrow> unat target \<le> sum_list (map erg (take n ?fs))" by (simp add: word_le_nat_alt n(3))
  have "take n ?fs \<noteq> []" if "target \<le> acc" using that assms(4) cov by (metis list.simps(8) sum_list.Nil le_zero_eq unat_0 word_less_nat_alt less_irrefl)
  then have "funding_collect X db target = Some (if target \<le> acc then Inr (take n ?fs) else Inl (), ?db)"
    using n(1) by (auto simp: funding_collect_def simp del: take_eq_Nil)
  moreover have "\<not> target \<le> acc \<Longrightarrow> take n ?fs = ?fs" using n(5) by simp
  ultimately show ?thesis
    using n(4) kept sf(3) funding_repo.scan_fundings(3) [OF assms(1), of ?db] unfolding cov
    by (intro exI [of _ n] exI [of _ ?db]) (simp add: Let_def)
qed

context funding_repo
begin

lemma put_funding_get:
  "db_get (fe_db X) (put_funding X p db f) k = (if k = funding_index_key X (df_id (as_val f)) then Some (key_of X p f)
    else if k = key_of X p f then Some (stored_bytes X f) else db_get (fe_db X) db k)"
  by (cases f) (simp add: put_funding_def Let_def get_put key_of_def stored_bytes_def)

lemma priority_order: "key_of X CONFIRMED_PRIORITY f < key_of X PREDICTED_PRIORITY f"
proof -
  have "to_le_bytes 8 (0::u64) = [0, 0, 0, 0, 0, 0, 0, 0]" "to_le_bytes 8 (5::u64) = [5, 0, 0, 0, 0, 0, 0, 0]"
    by code_simp+
  then show ?thesis
    by (simp add: key_of_def funding_key_def u64_bytes CONFIRMED_PRIORITY_def PREDICTED_PRIORITY_def append_less_same_length)
qed

lemma put_one_scan:
  assumes "db_scan (fe_db X) db (fe_str X FUNDING_KEY_PREFIX) = []"
  shows "db_scan (fe_db X) (put_funding X p db f) (fe_str X FUNDING_KEY_PREFIX) = [(key_of X p f, stored_bytes X f)]"
  using assms rocksdb_laws.scan_Nil [OF db_laws] by (intro rocksdb_laws.scan_eqI [OF db_laws]) (auto simp: put_funding_get)

lemma put_twice_scan:
  assumes "db_scan (fe_db X) db (fe_str X FUNDING_KEY_PREFIX) = []"
  shows "db_scan (fe_db X) (put_funding X CONFIRMED_PRIORITY (put_funding X PREDICTED_PRIORITY db f) f) (fe_str X FUNDING_KEY_PREFIX) =
    [(key_of X CONFIRMED_PRIORITY f, stored_bytes X f), (key_of X PREDICTED_PRIORITY f, stored_bytes X f)]"
  using assms rocksdb_laws.scan_Nil [OF db_laws] priority_order [of f]
  by (intro rocksdb_laws.scan_eqI [OF db_laws]) (auto simp: put_funding_get)

lemma put_twice_remove_scan:
  assumes "db_scan (fe_db X) db (fe_str X FUNDING_KEY_PREFIX) = []"
  shows "db_scan (fe_db X) (funding_remove X (put_funding X CONFIRMED_PRIORITY (put_funding X PREDICTED_PRIORITY db f) f) (df_id (as_val f)))
    (fe_str X FUNDING_KEY_PREFIX) = [(key_of X PREDICTED_PRIORITY f, stored_bytes X f)]"
  using assms rocksdb_laws.scan_Nil [OF db_laws]
  by (intro rocksdb_laws.scan_eqI [OF db_laws])
    (auto simp: put_funding_get funding_remove_def get_delete CONFIRMED_PRIORITY_def PREDICTED_PRIORITY_def)

lemma collect_one:
  assumes "db_scan (fe_db X) db (fe_str X FUNDING_KEY_PREFIX) = [(k, stored_bytes X f)]"
    and "parse_tree (fe_lib X) (df_prop (as_val f)) = Some (df_prop (as_val f))" "0 < target" "target \<le> df_erg_value (as_val f)"
  shows "\<exists>db'. funding_collect X db target = Some (Inr [f], db')"
  using assms by (cases f) (simp add: funding_collect_def)

lemma collect_two:
  assumes "db_scan (fe_db X) db (fe_str X FUNDING_KEY_PREFIX) = [(k, stored_bytes X f), (k', stored_bytes X f)]"
    and "parse_tree (fe_lib X) (df_prop (as_val f)) = Some (df_prop (as_val f))"
    and "erg f < unat target" "unat target \<le> 2 * erg f" "2 * erg f < 2 ^ 64"
  shows "\<exists>db'. funding_collect X db target = Some (Inr [f, f], db')"
proof -
  have u: "unat (df_erg_value (as_val f) + df_erg_value (as_val f)) = 2 * erg f" using assms(5) by (subst unat_add_u64) simp_all
  have c: "\<not> target \<le> 0" "\<not> target \<le> df_erg_value (as_val f)" "target \<le> df_erg_value (as_val f) + df_erg_value (as_val f)"
    using assms(3,4) u by (simp_all add: word_le_nat_alt)
  then show ?thesis using assms(1,2) by (cases f) (simp add: funding_collect_def)
qed

end

text \<open>A box that is predicted by the executor and then confirmed on the chain is stored twice:
  it can be collected twice for one transaction, and once it is removed as spent it can still be collected.\<close>

theorem predicted_then_confirmed_stored_twice:
  assumes "funding_repo X" "db_scan (fe_db X) db (fe_str X FUNDING_KEY_PREFIX) = []"
    and "parse_tree (fe_lib X) (df_prop (as_val f)) = Some (df_prop (as_val f))"
    and "erg f < unat target" "unat target \<le> 2 * erg f" "2 * erg f < 2 ^ 64" "0 < small" "small \<le> df_erg_value (as_val f)"
  shows "(\<exists>db'. funding_collect X (funding_put_confirmed X (funding_put_predicted X db (Predicted f)) (Confirmed f)) target = Some (Inr [f, f], db')) \<and>
    (\<exists>db'. funding_collect X (funding_remove X (funding_put_confirmed X (funding_put_predicted X db (Predicted f)) (Confirmed f)) (df_id (as_val f))) small
       = Some (Inr [f], db'))"
  using funding_repo.collect_two [OF assms(1) funding_repo.put_twice_scan [OF assms(1,2), of f] assms(3-6)]
    funding_repo.collect_one [OF assms(1) funding_repo.put_twice_remove_scan [OF assms(1,2), of f] assms(3,7,8)]
  by (simp add: funding_put_confirmed_def funding_put_predicted_def)

lemma no_fundings: "db_scan (fe_db sample_fundings) RBT.empty p = []"
  by (simp add: sample_fundings_def mem.scan_Nil) (simp add: mem_rocksdb_def)

theorem predicted_then_confirmed_stored_twice_witness:
  "\<exists>db'. funding_collect sample_fundings (funding_put_confirmed sample_fundings (funding_put_predicted sample_fundings RBT.empty
     (Predicted (sample_funding 3 100))) (Confirmed (sample_funding 3 100))) 150 = Some (Inr [sample_funding 3 100, sample_funding 3 100], db')"
proof -
  note no_fundings
  moreover have "parse_tree (fe_lib sample_fundings) x = Some x" for x by (simp add: sample_fundings_def sample_lib_def)
  moreover have "df_erg_value (as_val (sample_funding 3 100)) = 100" by (simp add: sample_funding_def)
  ultimately show ?thesis
    using predicted_then_confirmed_stored_twice [OF sample_fundings.funding_repo_axioms, of RBT.empty "sample_funding 3 100" 150 1] by simp
qed

lemma one_funding:
  "db_scan (fe_db sample_fundings) (put_funding sample_fundings 0 RBT.empty (sample_funding 3 100)) (fe_str sample_fundings FUNDING_KEY_PREFIX) =
     [(key_of sample_fundings 0 (sample_funding 3 100), stored_bytes sample_fundings (sample_funding 3 100))]"
  by (rule sample_fundings.put_one_scan) (rule no_fundings)

lemma one_funding_list: "funding_list sample_fundings (put_funding sample_fundings 0 RBT.empty (sample_funding 3 100)) = [sample_funding 3 100]"
  unfolding funding_list_def one_funding
  by simp (simp add: sample_fundings_def sample_lib_def funding_of_stored_def stored_of_funding_def sample_funding_def)

lemma one_funding_wf: "funding_wf sample_fundings (put_funding sample_fundings 0 RBT.empty (sample_funding 3 100))"
proof -
  have get: "db_get (fe_db sample_fundings) RBT.empty k = None" for k by (simp add: sample_fundings_def mem_rocksdb_def)
  have lib: "parse_tree (fe_lib sample_fundings) x = Some x" for x by (simp add: sample_fundings_def sample_lib_def)
  show ?thesis
    unfolding funding_wf_def stored_fundings_def sample_fundings.put_funding_get get
    by (auto simp: lib split: if_splits)
qed

theorem collect_covers_target_witness:
  "\<exists>db'. funding_collect sample_fundings (put_funding sample_fundings 0 RBT.empty (sample_funding 3 100)) 60 = Some (Inr [sample_funding 3 100], db')"
proof -
  have v: "erg (sample_funding 3 100) = 100" by (simp add: sample_funding_def)
  obtain n db' where "let funds = take n [sample_funding 3 100]; covered = unat (60 :: u64) \<le> sum_list (map erg funds)
    in funding_collect sample_fundings (put_funding sample_fundings 0 RBT.empty (sample_funding 3 100)) 60 = Some (if covered then Inr funds else Inl (), db') \<and>
      (\<not> covered \<longrightarrow> funds = [sample_funding 3 100])"
    using collect_covers_target [OF sample_fundings.funding_repo_axioms one_funding_wf, of 60] v unfolding one_funding_list by (auto simp: Let_def)
  then show ?thesis using v by (cases n) (auto simp: Let_def)
qed

end
