(* ===== verification/Network.thy ===== *)
theory Network
  imports LM_Data
begin

text \<open>
  The node as the executors see it: the trait \<open>ErgoNetwork\<close> of \<open>spectrum-offchain/src/network.rs\<close> (record
  \<open>ergo_network\<close>), its implementation by \<open>ErgoNodeHttpClient\<close> and the token details of
  \<open>spectrum-offchain-lm/src/token_details.rs\<close>.  The HTTP client and the JSON parser are the
  record \<open>node_client\<close>: what a request gives back is a status and, when the body can be parsed, a value.
\<close>

section \<open>Answers of the node\<close>

record node_error =
  ne_error :: nat
  ne_reason :: string
  ne_detail :: string

record token_minting_info =
  tmi_name :: string
  tmi_description :: string

record 'j http_response =
  hr_status :: nat
  hr_json :: "'j option"

definition is_client_error :: "nat \<Rightarrow> bool" where "is_client_error s \<longleftrightarrow> 400 \<le> s \<and> s < 500"
definition is_success :: "nat \<Rightarrow> bool" where "is_success s \<longleftrightarrow> 200 \<le> s \<and> s < 300"

record node_client =
  post_transaction :: "transaction \<Rightarrow> string + node_error http_response"
  get_info :: "u32 http_response option"
  get_token :: "token_id \<Rightarrow> token_minting_info http_response option"
  get_utxo :: "box_id \<Rightarrow> nat option"

section \<open>The trait (network.rs)\<close>

record ergo_network =
  net_submit_tx :: "transaction \<Rightarrow> string + unit"
  net_get_height :: u32
  net_get_token_minting_info :: "token_id \<Rightarrow> string + token_minting_info option"
  net_box_in_utxo :: "box_id \<Rightarrow> bool"

definition GENESIS_HEIGHT :: u32 where "GENESIS_HEIGHT = 0"

definition http_submit_tx :: "node_client \<Rightarrow> transaction \<Rightarrow> string + unit" where
  "http_submit_tx C tx = (case post_transaction C tx of
      Inl e \<Rightarrow> Inl (''ErgoNetwork::submit_tx: '' @ e)
    | Inr res \<Rightarrow>
        if is_client_error (hr_status res)
        then (let details = (case hr_json res of
                 Some ne \<Rightarrow> ''['' @ show_nat (ne_error ne) @ ''] ['' @ ne_reason ne @ ''] ['' @ ne_detail ne @ '']''
               | None \<Rightarrow> ''<unknown>'')
              in Inl (''Malformed tx. '' @ details))
        else Inr ())"

definition http_get_height :: "node_client \<Rightarrow> u32" where
  "http_get_height C = (case get_info C of
      Some resp \<Rightarrow>
        if is_success (hr_status resp) then (case hr_json resp of Some full_height \<Rightarrow> full_height | None \<Rightarrow> GENESIS_HEIGHT)
        else GENESIS_HEIGHT
    | None \<Rightarrow> GENESIS_HEIGHT)"

definition http_get_token_minting_info :: "node_client \<Rightarrow> token_id \<Rightarrow> string + token_minting_info option" where
  "http_get_token_minting_info C tid = (case get_token C tid of
      Some resp \<Rightarrow>
        if is_success (hr_status resp) then Inr (hr_json resp)
        else Inl (''expected 200 from /blockchain/token/byId/_, got '' @ show_nat (hr_status resp))
    | None \<Rightarrow> Inl ''No response from ergo node'')"

definition http_box_in_utxo :: "node_client \<Rightarrow> box_id \<Rightarrow> bool" where
  "http_box_in_utxo C bid = (case get_utxo C bid of Some status \<Rightarrow> is_success status | None \<Rightarrow> False)"

definition http_network :: "node_client \<Rightarrow> ergo_network" where
  "http_network C = \<lparr> net_submit_tx = http_submit_tx C, net_get_height = http_get_height C,
     net_get_token_minting_info = http_get_token_minting_info C, net_box_in_utxo = http_box_in_utxo C \<rparr>"

section \<open>Token details (token\_details.rs)\<close>

definition hex_char :: "nat \<Rightarrow> char" where
  "hex_char d = (if d < 10 then char_of (48 + d) else char_of (87 + d))"

definition encode_lower :: "bytes \<Rightarrow> string" where
  "encode_lower bs = concat (map (\<lambda>b. [hex_char (unat b div 16), hex_char (unat b mod 16)]) bs)"

definition get_token_details :: "pool_id \<Rightarrow> token_id \<Rightarrow> token_id \<Rightarrow> ergo_network \<Rightarrow> token_details" where
  "get_token_details pool_id reward_token_id lq_token_id network =
     (let pool_id_encoding = encode_lower (digest_bytes pool_id)
      in (case (net_get_token_minting_info network reward_token_id, net_get_token_minting_info network lq_token_id) of
            (Inr (Some reward_name), Inr (Some lq_name)) \<Rightarrow>
              \<lparr> td_name = tmi_name reward_name @ ''_'' @ tmi_name lq_name @ ''_YF'',
                td_description = ''The representation of your share in the '' @ tmi_name reward_name @ ''/'' @ tmi_name lq_name @
                  '' (pool id: '' @ pool_id_encoding @ '') yield farming pool on the Spectrum Finance platform.'' \<rparr>
          | _ \<Rightarrow>
              \<lparr> td_name = ''Spectrum YF staking bundle'',
                td_description = ''The representation of your share in the yield farming pool (pool id: '' @ pool_id_encoding @
                  '') on the Spectrum Finance platform.'' \<rparr>))"

end
