(* ===== verification/Schedule.thy ===== *)
theory Schedule
  imports Storage Pool
begin

text \<open>
  The schedules of the pools: \<open>spectrum-offchain-lm/src/scheduler.rs\<close> and \<open>scheduler/data.rs\<close>.  A
  schedule gives the height at which the next epoch of a pool can be compounded; the repository
  keeps one schedule per pool, a queue of pending ticks and a queue of deferred ones, both
  ordered by the height that the keys begin with.

  The database, the encoding of strings and the codecs of the stored types are the record
  \<open>schedule_env\<close>; the locale \<open>schedule_repo\<close> states what is relied on (\<open>bincode\<close> writes a \<open>u32\<close> as its four bytes,
  the lowest first, and a pool identifier as 32 bytes).

  Results: the horizon of a schedule, the refinement of every operation to sets of ticks, and that
  \<open>peek\<close> returns a tick of the lowest height while each pool has at most one tick.
\<close>

section \<open>Schedules (scheduler/data.rs)\<close>

record tick =
  tk_pool_id :: pool_id
  tk_epoch_ix :: u32
  tk_height :: u32

datatype program_exhausted = ProgramExhaustedErr

record pool_schedule =
  ps_pool_id :: pool_id
  ps_epoch_len :: u32
  ps_epoch_num :: u32
  ps_program_start :: u32
  ps_last_completed_epoch_ix :: u32

definition schedule_program_end :: "pool_schedule \<Rightarrow> u32" where
  "schedule_program_end s = ps_program_start s + ps_epoch_len s * ps_epoch_num s"

definition next_compounding_at :: "pool_schedule \<Rightarrow> u32 option" where
  "next_compounding_at s =
     (let next_epoch_start = ps_program_start s + ps_last_completed_epoch_ix s * ps_epoch_len s + ps_epoch_len s
      in if next_epoch_start \<le> schedule_program_end s then Some next_epoch_start else None)"

definition tick_try_from :: "pool_schedule \<Rightarrow> tick option" where
  "tick_try_from sc = (case next_compounding_at sc of
      Some h \<Rightarrow> Some \<lparr> tk_pool_id = ps_pool_id sc, tk_epoch_ix = ps_last_completed_epoch_ix sc + 1, tk_height = h \<rparr>
    | None \<Rightarrow> None)"

definition schedule_from_pool :: "pool \<Rightarrow> pool_schedule panics" where
  "schedule_from_pool p = do {
     epochs_left \<leftarrow> epochs_left_to_process p;
     Some \<lparr> ps_pool_id = pl_pool_id p, ps_epoch_len = epoch_len (conf p), ps_epoch_num = epoch_num (conf p),
            ps_program_start = program_start (conf p), ps_last_completed_epoch_ix = epoch_num (conf p) - epochs_left \<rparr> }"

section \<open>Keys (scheduler.rs)\<close>

definition SCHEDULE_PREFIX :: string where "SCHEDULE_PREFIX = ''sc:''"
definition TICKS_PREFIX :: string where "TICKS_PREFIX = ''ts:''"
definition DEFERRED_TICKS_PREFIX :: string where "DEFERRED_TICKS_PREFIX = ''tr:ts:''"
definition TICK_KEY_LEN :: nat where "TICK_KEY_LEN = 47"
definition TRIED_TICK_KEY_LEN :: nat where "TRIED_TICK_KEY_LEN = 50"
definition POOL_ID_LEN :: nat where "POOL_ID_LEN = 32"

record 'db schedule_env =
  se_db :: "'db rocksdb"
  se_str :: "string \<Rightarrow> bytes"
  se_pid :: "pool_id codec"
  se_u32 :: "u32 codec"
  se_i64 :: "i64 codec"
  se_schedule :: "pool_schedule codec"

definition tick_key :: "'db schedule_env \<Rightarrow> string \<Rightarrow> pool_id \<Rightarrow> u32 \<Rightarrow> bytes" where
  "tick_key X pfx pool_id next_epoch_height =
     raw_prefixed_key (se_str X) pfx (rev (ser (se_u32 X) next_epoch_height) @ ser (se_pid X) pool_id)"

definition destructure_tick_key :: "'db schedule_env \<Rightarrow> bytes \<Rightarrow> pool_id option" where
  "destructure_tick_key X bs = (if length bs = TICK_KEY_LEN then de (se_pid X) (drop 15 bs) else None)"

definition extract_pool_id :: "'db schedule_env \<Rightarrow> bytes \<Rightarrow> pool_id option" where
  "extract_pool_id X bs = (if POOL_ID_LEN \<le> length bs then de (se_pid X) (drop (length bs - POOL_ID_LEN) bs) else None)"

definition destructure_deferred_tick_key :: "'db schedule_env \<Rightarrow> bytes \<Rightarrow> pool_id option" where
  "destructure_deferred_tick_key X bs = (if length bs = TRIED_TICK_KEY_LEN then de (se_pid X) (drop 18 bs) else None)"

section \<open>ScheduleRepoRocksDB (scheduler.rs)\<close>

definition update_schedule :: "'db schedule_env \<Rightarrow> 'db \<Rightarrow> pool_schedule \<Rightarrow> (program_exhausted + unit) \<times> 'db" where
  "update_schedule X db schedule = (case next_compounding_at schedule of
      None \<Rightarrow> (Inl ProgramExhaustedErr, db)
    | Some next_height \<Rightarrow>
        let D = se_db X; pid = ps_pool_id schedule;
            prev_height = saturating_sub next_height (ps_epoch_len schedule);
            after_next_height = next_height + ps_epoch_len schedule;
            tick = tick_key X TICKS_PREFIX pid next_height
        in (Inr (),
            if db_get D db (tick_key X DEFERRED_TICKS_PREFIX pid next_height) = None \<and> db_get D db tick = None
            then let tx = db_put D db (prefixed_key (se_str X) SCHEDULE_PREFIX (se_pid X) pid) (ser (se_schedule X) schedule);
                     tx = db_put D tx tick [];
                     tx = db_delete D tx (tick_key X TICKS_PREFIX pid prev_height);
                     tx = db_delete D tx (tick_key X TICKS_PREFIX pid after_next_height);
                     tx = db_delete D tx (tick_key X DEFERRED_TICKS_PREFIX pid prev_height)
                 in db_delete D tx (tick_key X DEFERRED_TICKS_PREFIX pid after_next_height)
            else db))"

definition tick_of_pool :: "'db schedule_env \<Rightarrow> 'db \<Rightarrow> pool_id \<Rightarrow> tick option" where
  "tick_of_pool X db pid = do {
     bs \<leftarrow> db_get (se_db X) db (prefixed_key (se_str X) SCHEDULE_PREFIX (se_pid X) pid);
     sc \<leftarrow> de (se_schedule X) bs;
     tick_try_from sc }"

fun pending_loop :: "'db schedule_env \<Rightarrow> 'db \<Rightarrow> (bytes \<times> bytes) list \<Rightarrow> tick option" where
  "pending_loop X db [] = None"
| "pending_loop X db ((bs, _) # ticks) = (case Option.bind (destructure_tick_key X bs) (tick_of_pool X db) of
      Some tick \<Rightarrow> Some tick
    | None \<Rightarrow> pending_loop X db ticks)"

fun deferred_loop :: "'db schedule_env \<Rightarrow> 'db \<Rightarrow> i64 \<Rightarrow> (bytes \<times> bytes) list \<Rightarrow> tick option" where
  "deferred_loop X db ts_now [] = None"
| "deferred_loop X db ts_now ((bs, deferred_until) # ticks) = (case de (se_i64 X) deferred_until of
      Some until \<Rightarrow>
        if sint until \<le> sint ts_now
        then (case Option.bind (destructure_deferred_tick_key X bs) (tick_of_pool X db) of
            Some tick \<Rightarrow> Some tick
          | None \<Rightarrow> deferred_loop X db ts_now ticks)
        else None
    | None \<Rightarrow> deferred_loop X db ts_now ticks)"

definition peek :: "'db schedule_env \<Rightarrow> i64 \<Rightarrow> 'db \<Rightarrow> tick option" where
  "peek X ts_now db =
     (case (pending_loop X db (db_scan (se_db X) db (se_str X TICKS_PREFIX)),
            deferred_loop X db ts_now (db_scan (se_db X) db (se_str X DEFERRED_TICKS_PREFIX))) of
        (Some tick, None) \<Rightarrow> Some tick
      | (None, Some tick) \<Rightarrow> Some tick
      | (Some pending_tick, Some deferred_tick) \<Rightarrow>
          if tk_height pending_tick < tk_height deferred_tick then Some pending_tick else Some deferred_tick
      | (None, None) \<Rightarrow> None)"

definition schedule_remove :: "'db schedule_env \<Rightarrow> 'db \<Rightarrow> tick \<Rightarrow> 'db" where
  "schedule_remove X db tick = db_delete (se_db X) db (tick_key X DEFERRED_TICKS_PREFIX (tk_pool_id tick) (tk_height tick))"

definition schedule_defer :: "'db schedule_env \<Rightarrow> 'db \<Rightarrow> tick \<Rightarrow> i64 \<Rightarrow> 'db" where
  "schedule_defer X db tick until =
     (let tx = db_delete (se_db X) db (tick_key X TICKS_PREFIX (tk_pool_id tick) (tk_height tick))
      in db_put (se_db X) tx (tick_key X DEFERRED_TICKS_PREFIX (tk_pool_id tick) (tk_height tick)) (ser (se_i64 X) until))"

definition schedule_clean :: "'db schedule_env \<Rightarrow> 'db \<Rightarrow> pool_id \<Rightarrow> 'db" where
  "schedule_clean X db pool_id =
     fold (\<lambda>(bs, _) tx. if extract_pool_id X bs = Some pool_id then db_delete (se_db X) tx bs else tx) (db_scan (se_db X) db []) db"

section \<open>The trait and its tracing wrapper (scheduler.rs)\<close>

record 'r schedule_repo_ops =
  sro_update_schedule :: "'r \<Rightarrow> pool_schedule \<Rightarrow> (program_exhausted + unit) \<times> 'r"
  sro_peek :: "i64 \<Rightarrow> 'r \<Rightarrow> tick option"
  sro_remove :: "'r \<Rightarrow> tick \<Rightarrow> 'r"
  sro_defer :: "'r \<Rightarrow> tick \<Rightarrow> i64 \<Rightarrow> 'r"
  sro_clean :: "'r \<Rightarrow> pool_id \<Rightarrow> 'r"

definition schedule_repo_rocksdb :: "'db schedule_env \<Rightarrow> 'db schedule_repo_ops" where
  "schedule_repo_rocksdb X = \<lparr> sro_update_schedule = update_schedule X, sro_peek = peek X, sro_remove = schedule_remove X,
     sro_defer = schedule_defer X, sro_clean = schedule_clean X \<rparr>"

text \<open>\<open>ScheduleRepoTracing\<close> forwards every call; the log is not modelled.\<close>

definition schedule_repo_tracing :: "'r schedule_repo_ops \<Rightarrow> 'r schedule_repo_ops" where
  "schedule_repo_tracing inner = \<lparr> sro_update_schedule = (\<lambda>r s. sro_update_schedule inner r s), sro_peek = (\<lambda>now r. sro_peek inner now r),
     sro_remove = (\<lambda>r t. sro_remove inner r t), sro_defer = (\<lambda>r t u. sro_defer inner r t u), sro_clean = (\<lambda>r p. sro_clean inner r p) \<rparr>"

section \<open>The abstract schedule\<close>

record abs_schedule =
  as_sched :: "pool_id \<Rightarrow> pool_schedule option"
  as_pending :: "(pool_id \<times> u32) set"
  as_deferred :: "pool_id \<times> u32 \<Rightarrow> i64 option"

definition abs_schedule_of :: "'db schedule_env \<Rightarrow> 'db \<Rightarrow> abs_schedule" where
  "abs_schedule_of X db = \<lparr>
     as_sched = (\<lambda>pid. Option.bind (db_get (se_db X) db (prefixed_key (se_str X) SCHEDULE_PREFIX (se_pid X) pid)) (de (se_schedule X))),
     as_pending = {(pid, h). db_get (se_db X) db (tick_key X TICKS_PREFIX pid h) \<noteq> None},
     as_deferred = (\<lambda>(pid, h). Option.bind (db_get (se_db X) db (tick_key X DEFERRED_TICKS_PREFIX pid h)) (de (se_i64 X))) \<rparr>"

text \<open>Every key is one of the three kinds, and what it maps to can be read.\<close>

definition schedule_keys_wf :: "'db schedule_env \<Rightarrow> 'db \<Rightarrow> bool" where
  "schedule_keys_wf X db \<longleftrightarrow> (\<forall>k v. db_get (se_db X) db k = Some v \<longrightarrow>
     (\<exists>sc. k = prefixed_key (se_str X) SCHEDULE_PREFIX (se_pid X) (ps_pool_id sc) \<and> de (se_schedule X) v = Some sc) \<or>
     (\<exists>pid h. k = tick_key X TICKS_PREFIX pid h) \<or>
     (\<exists>pid h u. k = tick_key X DEFERRED_TICKS_PREFIX pid h \<and> de (se_i64 X) v = Some u))"

text \<open>Each pool has at most one tick, the one its schedule gives.\<close>

definition one_tick :: "abs_schedule \<Rightarrow> bool" where
  "one_tick A \<longleftrightarrow> (\<forall>pid h. (pid, h) \<in> as_pending A \<or> as_deferred A (pid, h) \<noteq> None \<longrightarrow>
     (\<exists>sc. as_sched A pid = Some sc \<and> ps_pool_id sc = pid \<and> next_compounding_at sc = Some h))"

locale schedule_repo =
  fixes X :: "'db schedule_env"
  assumes db_laws: "rocksdb_laws (se_db X)" and str_laws: "bincode_strings (se_str X)"
    and pid_laws: "codec_laws (se_pid X)" and i64_laws: "codec_laws (se_i64 X)" and schedule_laws: "codec_laws (se_schedule X)"
    and u32_bytes: "ser (se_u32 X) h = to_le_bytes 4 h" and pid_length: "length (ser (se_pid X) pid) = 32"
begin

lemmas get_put = rocksdb_laws.get_put [OF db_laws]
lemmas get_delete = rocksdb_laws.get_delete [OF db_laws]
lemmas de_ser [simp] = codec_laws.de_ser [OF pid_laws] codec_laws.de_ser [OF i64_laws] codec_laws.de_ser [OF schedule_laws]
lemmas pid_inject [simp] = codec_laws.ser_inject [OF pid_laws]
lemmas prefixes = SCHEDULE_PREFIX_def TICKS_PREFIX_def DEFERRED_TICKS_PREFIX_def

abbreviation "sched_key \<equiv> prefixed_key (se_str X) SCHEDULE_PREFIX (se_pid X)"
abbreviation "pend_key \<equiv> tick_key X TICKS_PREFIX"
abbreviation "def_key \<equiv> tick_key X DEFERRED_TICKS_PREFIX"

lemma tick_key_eq: "tick_key X pfx pid h = se_str X pfx @ to_be_bytes 4 h @ ser (se_pid X) pid"
  by (simp add: tick_key_def raw_prefixed_key_def u32_bytes to_le_bytes_def)

lemma str_split: "length a < 4294967296 \<Longrightarrow> length b < 4294967296 \<Longrightarrow> se_str X a @ x = se_str X b @ y \<longleftrightarrow> a = b \<and> x = y"
  using bincode_strings.str_prefix_free [OF str_laws, of a b x y] by auto

lemma str_prefix: "length a < 4294967296 \<Longrightarrow> length b < 4294967296 \<Longrightarrow> prefix (se_str X a) (se_str X b @ y) \<longleftrightarrow> a = b"
  by (auto simp: prefix_def) (metis append_assoc str_split)

lemma be4_eq: "to_be_bytes 4 h = to_be_bytes 4 h' \<longleftrightarrow> h = h'" for h h' :: u32
  by (simp add: to_be_bytes_inject)

lemma key_simps [simp]:
  "sched_key p = sched_key q \<longleftrightarrow> p = q"
  "pend_key p h = pend_key q h' \<longleftrightarrow> p = q \<and> h = h'" "def_key p h = def_key q h' \<longleftrightarrow> p = q \<and> h = h'"
  "sched_key p \<noteq> pend_key q h" "sched_key p \<noteq> def_key q h" "pend_key p h \<noteq> sched_key q" "def_key p h \<noteq> sched_key q"
  "pend_key p h \<noteq> def_key q h'" "def_key p h \<noteq> pend_key q h'"
  by (auto simp: tick_key_eq prefixed_key_def str_split be4_eq prefixes)

lemma prefix_simps [simp]:
  "prefix (se_str X TICKS_PREFIX) (pend_key p h)" "prefix (se_str X DEFERRED_TICKS_PREFIX) (def_key p h)"
  "\<not> prefix (se_str X TICKS_PREFIX) (def_key p h)" "\<not> prefix (se_str X TICKS_PREFIX) (sched_key p)"
  "\<not> prefix (se_str X DEFERRED_TICKS_PREFIX) (pend_key p h)" "\<not> prefix (se_str X DEFERRED_TICKS_PREFIX) (sched_key p)"
  by (simp_all add: tick_key_eq prefixed_key_def str_prefix prefixes)

lemma key_less: "pend_key p h < pend_key q h' \<Longrightarrow> h \<le> h'" "def_key p h < def_key q h' \<Longrightarrow> h \<le> h'"
  by (auto simp: tick_key_eq append_less_same_length to_be_bytes_less be4_eq)

lemma key_length: "length (pend_key p h) = 47" "length (def_key p h) = 50" "length (sched_key p) = 43"
  by (simp_all add: tick_key_eq prefixed_key_def bincode_strings.str_length [OF str_laws] pid_length prefixes)

lemma destructure_key [simp]: "destructure_tick_key X (pend_key p h) = Some p" "destructure_deferred_tick_key X (def_key p h) = Some p"
  by (simp_all add: destructure_tick_key_def destructure_deferred_tick_key_def key_length TICK_KEY_LEN_def TRIED_TICK_KEY_LEN_def)
    (simp_all add: tick_key_eq bincode_strings.str_length [OF str_laws] prefixes)

lemma extract_key [simp]: "extract_pool_id X (pend_key p h) = Some p" "extract_pool_id X (def_key p h) = Some p" "extract_pool_id X (sched_key p) = Some p"
  by (simp_all add: extract_pool_id_def key_length POOL_ID_LEN_def)
    (simp_all add: tick_key_eq prefixed_key_def bincode_strings.str_length [OF str_laws] prefixes)

end

section \<open>Refinement of the operations\<close>

datatype schedule_op = OpUpdate pool_schedule | OpDefer tick i64 | OpRemove tick | OpClean pool_id

fun apply_schedule_op :: "'db schedule_env \<Rightarrow> schedule_op \<Rightarrow> 'db \<Rightarrow> 'db" where
  "apply_schedule_op X (OpUpdate sc) db = snd (update_schedule X db sc)"
| "apply_schedule_op X (OpDefer t u) db = schedule_defer X db t u"
| "apply_schedule_op X (OpRemove t) db = schedule_remove X db t"
| "apply_schedule_op X (OpClean p) db = schedule_clean X db p"

fun abs_schedule_op :: "schedule_op \<Rightarrow> abs_schedule \<Rightarrow> abs_schedule" where
  "abs_schedule_op (OpUpdate sc) A = (case next_compounding_at sc of
      None \<Rightarrow> A
    | Some h \<Rightarrow>
        if (ps_pool_id sc, h) \<in> as_pending A \<or> as_deferred A (ps_pool_id sc, h) \<noteq> None then A
        else let old = {(ps_pool_id sc, saturating_sub h (ps_epoch_len sc)), (ps_pool_id sc, h + ps_epoch_len sc)}
             in \<lparr> as_sched = (as_sched A)(ps_pool_id sc \<mapsto> sc), as_pending = insert (ps_pool_id sc, h) (as_pending A) - old,
                  as_deferred = (\<lambda>t. if t \<in> old then None else as_deferred A t) \<rparr>)"
| "abs_schedule_op (OpDefer t u) A = A \<lparr> as_pending := as_pending A - {(tk_pool_id t, tk_height t)},
     as_deferred := (as_deferred A)((tk_pool_id t, tk_height t) \<mapsto> u) \<rparr>"
| "abs_schedule_op (OpRemove t) A = A \<lparr> as_deferred := (as_deferred A)((tk_pool_id t, tk_height t) := None) \<rparr>"
| "abs_schedule_op (OpClean p) A = \<lparr> as_sched = (as_sched A)(p := None), as_pending = {t \<in> as_pending A. fst t \<noteq> p},
     as_deferred = (\<lambda>t. if fst t = p then None else as_deferred A t) \<rparr>"

context schedule_repo
begin

lemma deferred_None:
  assumes "schedule_keys_wf X db"
  shows "db_get (se_db X) db (def_key p h) = None \<longleftrightarrow> as_deferred (abs_schedule_of X db) (p, h) = None"
proof (cases "db_get (se_db X) db (def_key p h)")
  case (Some v)
  then have "\<exists>u. de (se_i64 X) v = Some u" using assms unfolding schedule_keys_wf_def by (metis key_simps(7,9,3))
  then show ?thesis using Some by (auto simp: abs_schedule_of_def)
qed (simp add: abs_schedule_of_def)

lemma abs_update:
  assumes "schedule_keys_wf X db"
  shows "abs_schedule_of X (apply_schedule_op X (OpUpdate sc) db) = abs_schedule_op (OpUpdate sc) (abs_schedule_of X db)"
proof (cases "next_compounding_at sc")
  case (Some h)
  have pend: "db_get (se_db X) db (pend_key p h) = None \<longleftrightarrow> (p, h) \<notin> as_pending (abs_schedule_of X db)" for p h by (simp add: abs_schedule_of_def)
  show ?thesis
  proof (cases "(ps_pool_id sc, h) \<in> as_pending (abs_schedule_of X db) \<or> as_deferred (abs_schedule_of X db) (ps_pool_id sc, h) \<noteq> None")
    case True
    then have "\<not> (db_get (se_db X) db (def_key (ps_pool_id sc) h) = None \<and> db_get (se_db X) db (pend_key (ps_pool_id sc) h) = None)"
      by (auto simp: pend deferred_None [OF assms])
    then show ?thesis using True Some by (auto simp: update_schedule_def Let_def)
  next
    case False
    then have "db_get (se_db X) db (def_key (ps_pool_id sc) h) = None \<and> db_get (se_db X) db (pend_key (ps_pool_id sc) h) = None"
      by (auto simp: pend deferred_None [OF assms])
    then show ?thesis using False Some
      by (auto simp: update_schedule_def Let_def abs_schedule_of_def get_put get_delete fun_eq_iff)
  qed
qed (simp add: update_schedule_def)

lemma abs_defer: "abs_schedule_of X (apply_schedule_op X (OpDefer t u) db) = abs_schedule_op (OpDefer t u) (abs_schedule_of X db)"
  by (auto simp: schedule_defer_def Let_def abs_schedule_of_def get_put get_delete fun_eq_iff)

lemma abs_remove: "abs_schedule_of X (apply_schedule_op X (OpRemove t) db) = abs_schedule_op (OpRemove t) (abs_schedule_of X db)"
  by (auto simp: schedule_remove_def abs_schedule_of_def get_delete fun_eq_iff)

lemma fold_delete:
  "db_get (se_db X) (fold (\<lambda>(bs, _) tx. if P bs then db_delete (se_db X) tx bs else tx) es db) k =
    (if P k \<and> k \<in> fst ` set es then None else db_get (se_db X) db k)"
  by (induction es arbitrary: db) (auto simp: get_delete)

lemma clean_get: "db_get (se_db X) (schedule_clean X db p) k = (if extract_pool_id X k = Some p then None else db_get (se_db X) db k)"
proof (cases "db_get (se_db X) db k")
  case (Some v)
  then have "k \<in> fst ` set (db_scan (se_db X) db [])" using rocksdb_laws.scan_entries [OF db_laws, of k v db "[]"] by force
  then show ?thesis by (simp add: schedule_clean_def fold_delete)
qed (simp add: schedule_clean_def fold_delete)

lemma abs_clean: "abs_schedule_of X (apply_schedule_op X (OpClean p) db) = abs_schedule_op (OpClean p) (abs_schedule_of X db)"
  by (auto simp: abs_schedule_of_def clean_get fun_eq_iff)

lemma keys_wf_apply:
  assumes "schedule_keys_wf X db"
  shows "schedule_keys_wf X (apply_schedule_op X op db)"
proof (cases op)
  case (OpUpdate sc)
  show ?thesis
    using assms unfolding OpUpdate
    by (cases "next_compounding_at sc")
      (auto simp: schedule_keys_wf_def update_schedule_def Let_def get_put get_delete split: if_splits)
qed (use assms in \<open>auto simp: schedule_keys_wf_def schedule_defer_def schedule_remove_def clean_get Let_def get_put get_delete split: if_splits\<close>)

lemma schedule_run:
  assumes "schedule_keys_wf X db"
  shows "schedule_keys_wf X (fold (apply_schedule_op X) ops db) \<and>
    abs_schedule_of X (fold (apply_schedule_op X) ops db) = fold abs_schedule_op ops (abs_schedule_of X db)"
  using assms
proof (induction ops arbitrary: db)
  case (Cons op ops)
  have "abs_schedule_of X (apply_schedule_op X op db) = abs_schedule_op op (abs_schedule_of X db)"
    using Cons.prems abs_update abs_defer abs_remove abs_clean by (cases op) blast+
  then show ?case using Cons keys_wf_apply by simp
qed simp

end

section \<open>One tick per pool\<close>

text \<open>A schedule follows another one when their next heights are the same or one epoch apart.\<close>

definition adjacent :: "u32 \<Rightarrow> pool_schedule \<Rightarrow> bool" where
  "adjacent h0 sc \<longleftrightarrow> (\<forall>h. next_compounding_at sc = Some h \<longrightarrow>
     0 < unat (ps_epoch_len sc) \<and> unat h + unat (ps_epoch_len sc) < 2 ^ 32 \<and>
     (unat h0 = unat h \<or> unat h0 = unat h + unat (ps_epoch_len sc) \<or> unat h = unat h0 + unat (ps_epoch_len sc)))"

fun op_fits :: "abs_schedule \<Rightarrow> schedule_op \<Rightarrow> bool" where
  "op_fits A (OpUpdate sc) \<longleftrightarrow> (\<forall>h0. (ps_pool_id sc, h0) \<in> as_pending A \<or> as_deferred A (ps_pool_id sc, h0) \<noteq> None \<longrightarrow> adjacent h0 sc)"
| "op_fits A (OpDefer t u) \<longleftrightarrow> (tk_pool_id t, tk_height t) \<in> as_pending A \<or> as_deferred A (tk_pool_id t, tk_height t) \<noteq> None"
| "op_fits A _ \<longleftrightarrow> True"

lemma adjacent_cases:
  assumes "adjacent h0 sc" "next_compounding_at sc = Some h"
  shows "h0 = h \<or> h0 = saturating_sub h (ps_epoch_len sc) \<or> h0 = h + ps_epoch_len sc"
proof -
  let ?l = "ps_epoch_len sc"
  have a: "unat h + unat ?l < 2 ^ 32" "unat h0 = unat h \<or> unat h0 = unat h + unat ?l \<or> unat h = unat h0 + unat ?l"
    using assms by (auto simp: adjacent_def)
  have "unat (h + ?l) = unat h + unat ?l" using a(1) by (subst unat_add_lem [THEN iffD1]) simp_all
  moreover have "unat (saturating_sub h ?l) = unat h - unat ?l" by (rule unat_saturating_sub)
  ultimately show ?thesis using a(2) by (metis add_diff_cancel_right' word_unat_eq_iff)
qed

lemma one_tick_op:
  assumes "one_tick A" "op_fits A op"
  shows "one_tick (abs_schedule_op op A)"
proof (cases op)
  case (OpUpdate sc)
  show ?thesis
  proof (cases "next_compounding_at sc")
    case (Some h)
    have "h0 = h \<or> h0 = saturating_sub h (ps_epoch_len sc) \<or> h0 = h + ps_epoch_len sc"
      if "(ps_pool_id sc, h0) \<in> as_pending A \<or> as_deferred A (ps_pool_id sc, h0) \<noteq> None" for h0
      using adjacent_cases [OF _ Some, of h0] that assms(2) by (auto simp: OpUpdate)
    then show ?thesis using assms(1) Some by (auto simp: OpUpdate one_tick_def Let_def)
  qed (use assms(1) in \<open>simp add: OpUpdate\<close>)
qed (use assms in \<open>auto simp: one_tick_def split: if_splits\<close>)

section \<open>Peeking\<close>

context schedule_repo
begin

lemma tick_of_pool_abs: "tick_of_pool X db p = Option.bind (as_sched (abs_schedule_of X db) p) tick_try_from"
  by (simp add: tick_of_pool_def abs_schedule_of_def)

lemma one_tick_tick:
  assumes "one_tick (abs_schedule_of X db)" "(p, h) \<in> as_pending (abs_schedule_of X db) \<or> as_deferred (abs_schedule_of X db) (p, h) \<noteq> None"
  shows "\<exists>t. tick_of_pool X db p = Some t \<and> tk_pool_id t = p \<and> tk_height t = h"
  using assms unfolding one_tick_def by (fastforce simp: tick_of_pool_abs tick_try_from_def)

lemma pending_scan:
  assumes "schedule_keys_wf X db" "e \<in> set (db_scan (se_db X) db (se_str X TICKS_PREFIX))"
  shows "\<exists>p h. fst e = pend_key p h \<and> (p, h) \<in> as_pending (abs_schedule_of X db)"
proof -
  have g: "db_get (se_db X) db (fst e) = Some (snd e)" "prefix (se_str X TICKS_PREFIX) (fst e)"
    using rocksdb_laws.scan_entries [OF db_laws, of "fst e" "snd e" db] assms(2) by simp_all
  then obtain p h where "fst e = pend_key p h" using assms(1) unfolding schedule_keys_wf_def by (metis prefix_simps(3,4))
  then show ?thesis using g(1) by (auto simp: abs_schedule_of_def)
qed

lemma deferred_scan:
  assumes "schedule_keys_wf X db" "e \<in> set (db_scan (se_db X) db (se_str X DEFERRED_TICKS_PREFIX))"
  shows "\<exists>p h u. fst e = def_key p h \<and> de (se_i64 X) (snd e) = Some u \<and> as_deferred (abs_schedule_of X db) (p, h) = Some u"
proof -
  have g: "db_get (se_db X) db (fst e) = Some (snd e)" "prefix (se_str X DEFERRED_TICKS_PREFIX) (fst e)"
    using rocksdb_laws.scan_entries [OF db_laws, of "fst e" "snd e" db] assms(2) by simp_all
  then obtain p h u where "fst e = def_key p h" "de (se_i64 X) (snd e) = Some u"
    using assms(1) unfolding schedule_keys_wf_def by (metis prefix_simps(5,6))
  then show ?thesis using g(1) by (auto simp: abs_schedule_of_def)
qed

text \<open>The pending loop stops at the first key, which has the lowest height.\<close>

lemma pending_lowest:
  assumes wf: "schedule_keys_wf X db" and one: "one_tick (abs_schedule_of X db)"
  shows "case pending_loop X db (db_scan (se_db X) db (se_str X TICKS_PREFIX)) of
      None \<Rightarrow> as_pending (abs_schedule_of X db) = {}
    | Some t \<Rightarrow> (tk_pool_id t, tk_height t) \<in> as_pending (abs_schedule_of X db) \<and> tick_of_pool X db (tk_pool_id t) = Some t \<and>
        (\<forall>(p, h) \<in> as_pending (abs_schedule_of X db). tk_height t \<le> h)"
proof (cases "db_scan (se_db X) db (se_str X TICKS_PREFIX)")
  case Nil
  then have "as_pending (abs_schedule_of X db) = {}"
    using rocksdb_laws.scan_Nil [OF db_laws] by (fastforce simp: abs_schedule_of_def)
  then show ?thesis using Nil by simp
next
  case (Cons e es)
  then obtain p h where e: "fst e = pend_key p h" "(p, h) \<in> as_pending (abs_schedule_of X db)" using pending_scan [OF wf, of e] by auto
  then obtain t where t: "tick_of_pool X db p = Some t" "tk_pool_id t = p" "tk_height t = h" using one_tick_tick [OF one] by blast
  have "h \<le> h'" if q: "(q, h') \<in> as_pending (abs_schedule_of X db)" for q h'
  proof -
    obtain v where "db_get (se_db X) db (pend_key q h') = Some v" using q by (auto simp: abs_schedule_of_def)
    moreover have "db_scan (se_db X) db (se_str X TICKS_PREFIX) = (pend_key p h, snd e) # es" using Cons e(1) by (cases e) simp
    ultimately have "pend_key p h \<le> pend_key q h'"
      using rocksdb_laws.scan_hd_least [OF db_laws] prefix_simps(1) by blast
    then show ?thesis using key_less(1) [of p h q h'] by (auto simp: le_less)
  qed
  then show ?thesis using Cons e t by (cases e) (auto simp: t)
qed

lemma deferred_due:
  assumes wf: "schedule_keys_wf X db" and "one_tick (abs_schedule_of X db)"
    and "deferred_loop X db now (db_scan (se_db X) db (se_str X DEFERRED_TICKS_PREFIX)) = Some t"
  shows "\<exists>u. as_deferred (abs_schedule_of X db) (tk_pool_id t, tk_height t) = Some u \<and> sint u \<le> sint now \<and> tick_of_pool X db (tk_pool_id t) = Some t"
proof (cases "db_scan (se_db X) db (se_str X DEFERRED_TICKS_PREFIX)")
  case (Cons e es)
  then obtain p h u where e: "fst e = def_key p h" "de (se_i64 X) (snd e) = Some u" "as_deferred (abs_schedule_of X db) (p, h) = Some u"
    using deferred_scan [OF wf, of e] by auto
  then obtain t' where "tick_of_pool X db p = Some t'" "tk_pool_id t' = p" "tk_height t' = h" using one_tick_tick [OF assms(2), of p h] by auto
  then show ?thesis using assms(3) Cons e by (cases e) (auto split: if_splits)
qed (use assms(3) in simp)

end

context schedule_repo
begin

text \<open>The deferred loop gives up at the lowest deferred tick when that one is not due.\<close>

lemma deferred_blocked:
  assumes wf: "schedule_keys_wf X db" and low: "as_deferred (abs_schedule_of X db) (p, h) = Some u" "sint now < sint u"
    and least: "\<And>q k. as_deferred (abs_schedule_of X db) (q, k) \<noteq> None \<Longrightarrow> (q, k) = (p, h) \<or> h < k"
  shows "deferred_loop X db now (db_scan (se_db X) db (se_str X DEFERRED_TICKS_PREFIX)) = None"
proof (cases "db_scan (se_db X) db (se_str X DEFERRED_TICKS_PREFIX)")
  case (Cons e es)
  then obtain q k v where e: "fst e = def_key q k" "de (se_i64 X) (snd e) = Some v" "as_deferred (abs_schedule_of X db) (q, k) = Some v"
    using deferred_scan [OF wf, of e] by auto
  have sc: "db_scan (se_db X) db (se_str X DEFERRED_TICKS_PREFIX) = (def_key q k, snd e) # es" using Cons e(1) by (cases e) simp
  obtain w where "db_get (se_db X) db (def_key p h) = Some w" using low(1) by (auto simp: abs_schedule_of_def bind_eq_Some_conv)
  then have "def_key q k \<le> def_key p h" using rocksdb_laws.scan_hd_least [OF db_laws sc] prefix_simps(2) by blast
  then have "k \<le> h" using key_less(2) [of q k p h] by (auto simp: le_less)
  then have "(q, k) = (p, h)" using least [of q k] e(3) by auto
  then show ?thesis using sc e low by simp
qed simp

end

section \<open>Instance\<close>

definition i64_codec :: "i64 codec" where
  "i64_codec = \<lparr> ser = to_le_bytes 8, de = (\<lambda>bs. if length bs = 8 then Some (from_le_bytes bs) else None) \<rparr>"

interpretation i64_bytes: codec_laws i64_codec
  by unfold_locales (simp add: i64_codec_def codec_simps)

definition height_codec :: "u32 codec" where
  "height_codec = \<lparr> ser = to_le_bytes 4, de = (\<lambda>bs. if length bs = 4 then Some (from_le_bytes bs) else None) \<rparr>"

definition schedule_codec :: "pool_schedule codec" where
  "schedule_codec = \<lparr> ser = (\<lambda>s. to_be_bytes 32 (ps_pool_id s) @ to_le_bytes 4 (ps_epoch_len s) @ to_le_bytes 4 (ps_epoch_num s) @
       to_le_bytes 4 (ps_program_start s) @ to_le_bytes 4 (ps_last_completed_epoch_ix s)),
     de = (\<lambda>bs. if length bs = 48 then Some \<lparr> ps_pool_id = from_be_bytes (take 32 bs), ps_epoch_len = from_le_bytes (take 4 (drop 32 bs)),
       ps_epoch_num = from_le_bytes (take 4 (drop 36 bs)), ps_program_start = from_le_bytes (take 4 (drop 40 bs)),
       ps_last_completed_epoch_ix = from_le_bytes (drop 44 bs) \<rparr> else None) \<rparr>"

interpretation schedule_bytes: codec_laws schedule_codec
  by unfold_locales (simp add: schedule_codec_def codec_simps)

definition sample_schedules :: "mem_db schedule_env" where
  "sample_schedules = \<lparr> se_db = mem_rocksdb, se_str = bincode_str, se_pid = digest_codec, se_u32 = height_codec, se_i64 = i64_codec,
     se_schedule = schedule_codec \<rparr>"

interpretation sample_schedules: schedule_repo sample_schedules
  by (rule schedule_repo.intro)
    (simp_all add: sample_schedules_def mem.rocksdb_laws_axioms bin.bincode_strings_axioms digest.codec_laws_axioms i64_bytes.codec_laws_axioms
      schedule_bytes.codec_laws_axioms height_codec_def, simp_all add: digest_codec_def codec_simps)

definition schedule_1 :: pool_schedule where
  "schedule_1 = \<lparr> ps_pool_id = 1, ps_epoch_len = 10, ps_epoch_num = 10, ps_program_start = 100, ps_last_completed_epoch_ix = 0 \<rparr>"

definition schedule_2 :: pool_schedule where
  "schedule_2 = \<lparr> ps_pool_id = 2, ps_epoch_len = 15, ps_epoch_num = 15, ps_program_start = 110, ps_last_completed_epoch_ix = 0 \<rparr>"

lemma next_samples: "next_compounding_at schedule_1 = Some 110" "next_compounding_at schedule_2 = Some 125"
  by (simp_all add: next_compounding_at_def schedule_program_end_def schedule_1_def schedule_2_def)

lemma no_schedules: "schedule_keys_wf sample_schedules RBT.empty"
  "abs_schedule_of sample_schedules RBT.empty = \<lparr> as_sched = (\<lambda>_. None), as_pending = {}, as_deferred = (\<lambda>_. None) \<rparr>"
  by (simp_all add: schedule_keys_wf_def abs_schedule_of_def sample_schedules_def mem_rocksdb_def fun_eq_iff)

section \<open>Properties\<close>

primrec ops_fit :: "abs_schedule \<Rightarrow> schedule_op list \<Rightarrow> bool" where
  "ops_fit A [] \<longleftrightarrow> True"
| "ops_fit A (op # ops) \<longleftrightarrow> op_fits A op \<and> ops_fit (abs_schedule_op op A) ops"

lemma one_tick_run: "one_tick A \<Longrightarrow> ops_fit A ops \<Longrightarrow> one_tick (fold abs_schedule_op ops A)"
  by (induction ops arbitrary: A) (simp_all add: one_tick_op)



text \<open>While each pool has at most one tick, \<open>peek\<close> finds a tick whenever one is pending, the tick it
  returns is that of the pool's schedule, is pending or deferred and due, and no pending tick has a
  lower height.\<close>

theorem peek_returns_lowest:
  assumes "schedule_repo X" "schedule_keys_wf X db" "one_tick (abs_schedule_of X db)"
  shows "case peek X now db of
      None \<Rightarrow> as_pending (abs_schedule_of X db) = {}
    | Some t \<Rightarrow> tick_of_pool X db (tk_pool_id t) = Some t \<and>
        ((tk_pool_id t, tk_height t) \<in> as_pending (abs_schedule_of X db) \<or>
         (\<exists>u. as_deferred (abs_schedule_of X db) (tk_pool_id t, tk_height t) = Some u \<and> sint u \<le> sint now)) \<and>
        (\<forall>(p, h) \<in> as_pending (abs_schedule_of X db). tk_height t \<le> h)"
  using schedule_repo.pending_lowest [OF assms] schedule_repo.deferred_due [OF assms, of now]
  by (fastforce simp: peek_def split: option.splits)

theorem peek_returns_lowest_witness:
  "case peek sample_schedules 0 (fold (apply_schedule_op sample_schedules) [OpUpdate schedule_1] RBT.empty) of None \<Rightarrow> False | Some t \<Rightarrow> tk_height t \<le> 110"
proof -
  let ?db = "fold (apply_schedule_op sample_schedules) [OpUpdate schedule_1] RBT.empty"
  have A: "schedule_keys_wf sample_schedules ?db" "abs_schedule_of sample_schedules ?db = abs_schedule_op (OpUpdate schedule_1) (abs_schedule_of sample_schedules RBT.empty)"
    using sample_schedules.schedule_run [OF no_schedules(1), of "[OpUpdate schedule_1]"] by simp_all
  then have one: "one_tick (abs_schedule_of sample_schedules ?db)" and "(1, 110) \<in> as_pending (abs_schedule_of sample_schedules ?db)"
    by (simp_all add: no_schedules next_samples one_tick_def Let_def saturating_sub_def) (simp_all add: schedule_1_def)
  then show ?thesis
    using peek_returns_lowest [OF sample_schedules.schedule_repo_axioms A(1) one, of 0] by (auto split: option.splits)
qed

text \<open>A deferred tick that is due is not found while a tick of a lower height is deferred and not
  yet due: the scan of the deferred ticks is ordered by height, not by due time, and stops at
  the first one that has to wait.\<close>

theorem due_ticks_wait_for_lowest:
  assumes "schedule_repo X" "schedule_keys_wf X db" "one_tick (abs_schedule_of X db)" "as_pending (abs_schedule_of X db) = {}"
    and "as_deferred (abs_schedule_of X db) (p, h) = Some u" "sint now < sint u"
    and "\<forall>q k. as_deferred (abs_schedule_of X db) (q, k) \<noteq> None \<longrightarrow> (q, k) = (p, h) \<or> h < k"
  shows "peek X now db = None"
proof -
  have "deferred_loop X db now (db_scan (se_db X) db (se_str X DEFERRED_TICKS_PREFIX)) = None"
    using assms(7) by (intro schedule_repo.deferred_blocked [OF assms(1,2,5,6)]) blast
  moreover have "pending_loop X db (db_scan (se_db X) db (se_str X TICKS_PREFIX)) = None"
    using schedule_repo.pending_lowest [OF assms(1-3)] assms(4) by (auto split: option.splits)
  ultimately show ?thesis by (simp add: peek_def)
qed

lemma two_deferred:
  assumes "db = fold (apply_schedule_op sample_schedules) [OpUpdate schedule_1, OpUpdate schedule_2,
    OpDefer \<lparr> tk_pool_id = 1, tk_epoch_ix = 1, tk_height = 110 \<rparr> 1000, OpDefer \<lparr> tk_pool_id = 2, tk_epoch_ix = 1, tk_height = 125 \<rparr> 5] RBT.empty"
  shows "schedule_keys_wf sample_schedules db" "as_pending (abs_schedule_of sample_schedules db) = {}"
    "as_deferred (abs_schedule_of sample_schedules db) = [(1, 110) \<mapsto> 1000, (2, 125) \<mapsto> 5]"
    "as_sched (abs_schedule_of sample_schedules db) = [1 \<mapsto> schedule_1, 2 \<mapsto> schedule_2]"
proof -
  have ids: "ps_pool_id schedule_1 = 1" "ps_pool_id schedule_2 = 2" "ps_epoch_len schedule_1 = 10" "ps_epoch_len schedule_2 = 15"
    by (simp_all add: schedule_1_def schedule_2_def)
  have run: "schedule_keys_wf sample_schedules db" "abs_schedule_of sample_schedules db = fold abs_schedule_op [OpUpdate schedule_1, OpUpdate schedule_2,
    OpDefer \<lparr> tk_pool_id = 1, tk_epoch_ix = 1, tk_height = 110 \<rparr> 1000, OpDefer \<lparr> tk_pool_id = 2, tk_epoch_ix = 1, tk_height = 125 \<rparr> 5]
      (abs_schedule_of sample_schedules RBT.empty)"
    unfolding assms using sample_schedules.schedule_run [OF no_schedules(1)] by blast+
  have "abs_schedule_of sample_schedules db =
      \<lparr> as_sched = [1 \<mapsto> schedule_1, 2 \<mapsto> schedule_2], as_pending = {}, as_deferred = [(1, 110) \<mapsto> 1000, (2, 125) \<mapsto> 5] \<rparr>"
    unfolding run(2) no_schedules by (auto simp: next_samples ids Let_def saturating_sub_def fun_eq_iff)
  then show "as_pending (abs_schedule_of sample_schedules db) = {}"
    "as_deferred (abs_schedule_of sample_schedules db) = [(1, 110) \<mapsto> 1000, (2, 125) \<mapsto> 5]"
    "as_sched (abs_schedule_of sample_schedules db) = [1 \<mapsto> schedule_1, 2 \<mapsto> schedule_2]" by simp_all
  show "schedule_keys_wf sample_schedules db" by (rule run(1))
qed

theorem due_ticks_wait_for_lowest_witness:
  "peek sample_schedules 500 (fold (apply_schedule_op sample_schedules) [OpUpdate schedule_1, OpUpdate schedule_2,
    OpDefer \<lparr> tk_pool_id = 1, tk_epoch_ix = 1, tk_height = 110 \<rparr> 1000, OpDefer \<lparr> tk_pool_id = 2, tk_epoch_ix = 1, tk_height = 125 \<rparr> 5] RBT.empty) = None"
proof -
  define db where "db = fold (apply_schedule_op sample_schedules) [OpUpdate schedule_1, OpUpdate schedule_2,
    OpDefer \<lparr> tk_pool_id = 1, tk_epoch_ix = 1, tk_height = 110 \<rparr> 1000, OpDefer \<lparr> tk_pool_id = 2, tk_epoch_ix = 1, tk_height = 125 \<rparr> 5] RBT.empty"
  note facts = two_deferred [OF db_def]
  have one: "one_tick (abs_schedule_of sample_schedules db)"
    using next_samples by (auto simp: one_tick_def facts schedule_1_def schedule_2_def)
  have low: "as_deferred (abs_schedule_of sample_schedules db) (1, 110) = Some 1000" by (simp add: facts)
  have least: "\<forall>q k. as_deferred (abs_schedule_of sample_schedules db) (q, k) \<noteq> None \<longrightarrow> (q, k) = (1, 110) \<or> 110 < k" by (auto simp: facts)
  have "peek sample_schedules 500 db = None"
    using due_ticks_wait_for_lowest [OF sample_schedules.schedule_repo_axioms facts(1) one facts(2) low _ least, of 500] by simp
  then show ?thesis by (simp only: db_def)
qed

text \<open>A schedule asks for a compounding exactly as long as an epoch of its program is left, at
  the end of the first epoch not completed, and this height is never after the end of the
  program; then the program is exhausted.  All heights fit 32 bits.\<close>

theorem schedule_horizon:
  assumes "unat (ps_program_start s) + (unat (ps_epoch_num s) + 1) * unat (ps_epoch_len s) < 2 ^ 32"
    and "unat (ps_last_completed_epoch_ix s) \<le> unat (ps_epoch_num s)" "ps_epoch_len s \<noteq> 0"
  shows "(case next_compounding_at s of
      None \<Rightarrow> ps_last_completed_epoch_ix s = ps_epoch_num s
    | Some h \<Rightarrow> ps_last_completed_epoch_ix s < ps_epoch_num s \<and> h \<le> schedule_program_end s \<and>
        unat h = unat (ps_program_start s) + (unat (ps_last_completed_epoch_ix s) + 1) * unat (ps_epoch_len s)) \<and>
    fst (update_schedule X db s) = (if ps_last_completed_epoch_ix s = ps_epoch_num s then Inl ProgramExhaustedErr else Inr ())"
proof -
  let ?s = "unat (ps_program_start s)" and ?n = "unat (ps_epoch_num s)" and ?l = "unat (ps_epoch_len s)" and ?c = "unat (ps_last_completed_epoch_ix s)"
  have l: "0 < ?l" using assms(3) by (simp add: unat_gt_0)
  have m: "?c * ?l \<le> ?n * ?l" using assms(2) by (rule mult_le_mono1)
  have a: "?s + ?n * ?l + ?l < 2 ^ 32" using assms(1) by (simp add: algebra_simps)
  have b: "?s + ?c * ?l + ?l < 2 ^ 32" by (rule le_less_trans [OF _ a]) (use m in linarith)
  have b': "?s + ?n * ?l < 2 ^ 32" by (rule le_less_trans [OF _ a]) linarith
  have nxt: "unat (ps_program_start s + ps_last_completed_epoch_ix s * ps_epoch_len s + ps_epoch_len s) = ?s + ?c * ?l + ?l"
    using b by (simp add: unat_word_ariths)
  have fin: "unat (schedule_program_end s) = ?s + ?n * ?l"
    using b' by (simp add: schedule_program_end_def unat_word_ariths mult.commute)
  have iff: "?s + ?c * ?l + ?l \<le> ?s + ?n * ?l \<longleftrightarrow> ?c < ?n"
  proof -
    have "?c * ?l + ?l = (?c + 1) * ?l" by simp
    then have "?s + ?c * ?l + ?l \<le> ?s + ?n * ?l \<longleftrightarrow> (?c + 1) * ?l \<le> ?n * ?l" by linarith
    also have "\<dots> \<longleftrightarrow> ?c + 1 \<le> ?n" using l by (simp only: mult_le_cancel2 simp_thms)
    finally show ?thesis by linarith
  qed
  have le: "ps_program_start s + ps_last_completed_epoch_ix s * ps_epoch_len s + ps_epoch_len s \<le> schedule_program_end s \<longleftrightarrow> ?c < ?n"
    unfolding word_le_nat_alt nxt fin by (rule iff)
  have eq: "ps_last_completed_epoch_ix s = ps_epoch_num s \<longleftrightarrow> \<not> ?c < ?n" using assms(2) by (auto simp: word_unat_eq_iff)
  show ?thesis
    unfolding next_compounding_at_def update_schedule_def Let_def le eq using nxt le by (simp add: word_less_nat_alt)
qed

theorem schedule_horizon_witness:
  "(case next_compounding_at schedule_1 of None \<Rightarrow> False | Some h \<Rightarrow> unat h = 110) \<and>
   fst (update_schedule sample_schedules RBT.empty schedule_1) = Inr ()"
  using schedule_horizon [of schedule_1 sample_schedules RBT.empty] by (simp add: schedule_1_def split: option.splits)

end
