(* ===== verification/Bundle_Repo.thy ===== *)
theory Bundle_Repo
  imports Codecs Entity_Repo
begin

text \<open>
  The repository of staking bundles: \<open>spectrum-offchain-lm/src/bundle.rs\<close>, \<open>bundle/rocksdb.rs\<close> and
  \<open>bundle/process.rs\<close>.  Beside the states, the links and the last confirmed and predicted
  states, it keeps an index of the bundles by pool and by the lowest epoch they can be
  compounded for, in keys with a fixed layout (\<open>epoch_index_key\<close>).

  The store, the encoding of strings and the codecs are the record \<open>bundle_env\<close>, what is relied on is the
  locale \<open>bundle_repo\<close>.  The loop over the links is \<open>link_loop\<close> of the entity repository.

  Results: every operation acts on four maps and a set, \<open>select\<close> returns the index entries of the
  pool and epoch without a panic and without duplicates, and stacked predictions of a bundle
  resolve to the last one.
\<close>

type_synonym bundle_box = "staking_bundle indexed_bundle as_box"

record 'db bundle_env =
  be_db :: "'db rocksdb"
  be_str :: "string \<Rightarrow> bytes"
  be_pid :: "pool_id codec"
  be_bid :: "bundle_id codec"
  be_sid :: "bundle_state_id codec"
  be_u32 :: "u32 codec"
  be_bundle :: "bundle_box codec"

definition indexed_self_ref :: "staking_bundle indexed_bundle \<Rightarrow> bundle_id" where
  "indexed_self_ref b = bundle_self_ref (ib_bundle b)"

definition indexed_self_state_ref :: "staking_bundle indexed_bundle \<Rightarrow> bundle_state_id" where
  "indexed_self_state_ref b = bundle_self_state_ref (ib_bundle b)"

definition as_box_map :: "('a \<Rightarrow> 'b) \<Rightarrow> 'a as_box \<Rightarrow> 'b as_box" where
  "as_box_map f b = (case b of AsBox bx t \<Rightarrow> AsBox bx (f t))"

section \<open>Keys (rocksdb.rs)\<close>

definition BUNDLE_STATE_PREFIX :: string where "BUNDLE_STATE_PREFIX = ''state''"
definition BUNDLE_LINK_PREFIX :: string where "BUNDLE_LINK_PREFIX = ''p:link''"
definition BUNDLE_PREDICTED_PREFIX :: string where "BUNDLE_PREDICTED_PREFIX = ''p:last''"
definition BUNDLE_CONFIRMED_PREFIX :: string where "BUNDLE_CONFIRMED_PREFIX = ''c:last''"
definition POOL_EPOCH_PREFIX :: string where "POOL_EPOCH_PREFIX = ''pl:epix''"
definition POOL_EPOCH_KEY_LEN :: nat where "POOL_EPOCH_KEY_LEN = 83"

definition epoch_index_prefix :: "'db bundle_env \<Rightarrow> pool_id \<Rightarrow> u32 \<Rightarrow> bytes" where
  "epoch_index_prefix X pool_id epoch_ix = be_str X POOL_EPOCH_PREFIX @ ser (be_pid X) pool_id @ ser (be_u32 X) (- 1 - epoch_ix)"

definition destructure_epoch_index_key :: "'db bundle_env \<Rightarrow> bytes \<Rightarrow> (pool_id \<times> bundle_id \<times> u32) option" where
  "destructure_epoch_index_key X key =
     (if length key = POOL_EPOCH_KEY_LEN
      then (case (de (be_pid X) (take 32 (drop 15 key)), de (be_bid X) (drop (POOL_EPOCH_KEY_LEN - 32) key), de (be_u32 X) (take 4 (drop 47 key))) of
          (Some pool_id, Some bid, Some neg_epoch_ix) \<Rightarrow> Some (pool_id, bid, - 1 - neg_epoch_ix)
        | _ \<Rightarrow> None)
      else None)"

definition epoch_index_key :: "'db bundle_env \<Rightarrow> pool_id \<Rightarrow> u32 \<Rightarrow> bundle_id \<Rightarrow> bytes" where
  "epoch_index_key X pool_id init_epoch_ix bid = epoch_index_prefix X pool_id init_epoch_ix @ ser (be_bid X) bid"

definition bundle_sid_key :: "'db bundle_env \<Rightarrow> string \<Rightarrow> bundle_state_id \<Rightarrow> bytes" where
  "bundle_sid_key X pfx sid = prefixed_key (be_str X) pfx (be_sid X) sid"

definition bundle_id_key :: "'db bundle_env \<Rightarrow> string \<Rightarrow> bundle_id \<Rightarrow> bytes" where
  "bundle_id_key X pfx bid = prefixed_key (be_str X) pfx (be_bid X) bid"

section \<open>BundleRepoRocksDB (rocksdb.rs)\<close>

text \<open>The loop of \<open>select\<close> over the scanned entries; \<open>None\<close> is the failed assertion.\<close>

fun select_loop :: "'db bundle_env \<Rightarrow> pool_id \<Rightarrow> u32 \<Rightarrow> bundle_id list \<Rightarrow> (bytes \<times> bytes) list \<Rightarrow> bundle_id list panics" where
  "select_loop X pool_id epoch_ix acc [] = Some acc"
| "select_loop X pool_id epoch_ix acc ((key_bytes, _) # iter) = (case destructure_epoch_index_key X key_bytes of
      Some (pid, bid, init_epoch_ix) \<Rightarrow>
        if init_epoch_ix \<noteq> epoch_ix then None
        else if pid = pool_id \<and> bid \<notin> set acc then select_loop X pool_id epoch_ix (acc @ [bid]) iter
        else Some acc
    | None \<Rightarrow> Some acc)"

definition bundle_select :: "'db bundle_env \<Rightarrow> 'db \<Rightarrow> pool_id \<Rightarrow> u32 \<Rightarrow> bundle_id list panics" where
  "bundle_select X db pool_id epoch_ix = select_loop X pool_id epoch_ix [] (db_scan (be_db X) db (epoch_index_prefix X pool_id epoch_ix))"

definition bundle_may_exist :: "'db bundle_env \<Rightarrow> 'db \<Rightarrow> bundle_state_id \<Rightarrow> bool" where
  "bundle_may_exist X db sid = db_key_may_exist (be_db X) db (bundle_sid_key X BUNDLE_STATE_PREFIX sid)"

definition bundle_get_state :: "'db bundle_env \<Rightarrow> 'db \<Rightarrow> bundle_state_id \<Rightarrow> bundle_box option" where
  "bundle_get_state X db sid = Option.bind (db_get (be_db X) db (bundle_sid_key X BUNDLE_STATE_PREFIX sid)) (de (be_bundle X))"

definition bundle_invalidate :: "'db bundle_env \<Rightarrow> 'db \<Rightarrow> bundle_state_id \<Rightarrow> 'db" where
  "bundle_invalidate X db sid =
     (let tx = db_delete (be_db X) db (bundle_sid_key X BUNDLE_STATE_PREFIX sid)
      in db_delete (be_db X) tx (bundle_sid_key X BUNDLE_LINK_PREFIX sid))"

definition bundle_eliminate :: "'db bundle_env \<Rightarrow> 'db \<Rightarrow> staking_bundle indexed_bundle \<Rightarrow> 'db" where
  "bundle_eliminate X db b =
     (let tx = db_delete (be_db X) db (bundle_id_key X BUNDLE_CONFIRMED_PREFIX (indexed_self_ref b));
          tx = db_delete (be_db X) tx (bundle_id_key X BUNDLE_PREDICTED_PREFIX (indexed_self_ref b))
      in db_delete (be_db X) tx (epoch_index_key X (sb_pool_id (ib_bundle b)) (ib_lower_epoch_ix b) (indexed_self_ref b)))"

definition bundle_put_confirmed :: "'db bundle_env \<Rightarrow> 'db \<Rightarrow> bundle_box confirmed \<Rightarrow> 'db" where
  "bundle_put_confirmed X db c = (case c of Confirmed st \<Rightarrow>
     let b = as_val st; pid = sb_pool_id (ib_bundle b); bid = indexed_self_ref b; sid = indexed_self_state_ref b;
         prev_epoch_index_key = epoch_index_key X pid (saturating_sub (ib_lower_epoch_ix b) 1) bid;
         tx = db_put (be_db X) db (bundle_sid_key X BUNDLE_STATE_PREFIX sid) (ser (be_bundle X) st);
         tx = db_put (be_db X) tx (bundle_id_key X BUNDLE_CONFIRMED_PREFIX bid) (ser (be_sid X) sid);
         tx = db_put (be_db X) tx (epoch_index_key X pid (ib_lower_epoch_ix b) bid) [0]
     in db_delete (be_db X) tx prev_epoch_index_key)"

definition bundle_put_predicted :: "'db bundle_env \<Rightarrow> 'db \<Rightarrow> (bundle_box predicted, bundle_state_id) traced \<Rightarrow> 'db" where
  "bundle_put_predicted X db t = (case tr_state t of Predicted st \<Rightarrow>
     let b = as_val st; pid = sb_pool_id (ib_bundle b); bid = indexed_self_ref b; sid = indexed_self_state_ref b;
         tx = db_put (be_db X) db (bundle_sid_key X BUNDLE_STATE_PREFIX sid) (ser (be_bundle X) st);
         tx = db_put (be_db X) tx (bundle_id_key X BUNDLE_PREDICTED_PREFIX bid) (ser (be_sid X) sid);
         tx = db_put (be_db X) tx (epoch_index_key X pid (ib_lower_epoch_ix b) bid) [0]
     in (case tr_prev_state_id t of
           Some prev_sid \<Rightarrow> db_put (be_db X) tx (bundle_sid_key X BUNDLE_LINK_PREFIX sid) (ser (be_sid X) prev_sid)
         | None \<Rightarrow> tx))"

definition bundle_get_last_confirmed :: "'db bundle_env \<Rightarrow> 'db \<Rightarrow> bundle_id \<Rightarrow> staking_bundle as_box confirmed option" where
  "bundle_get_last_confirmed X db bid = do {
     bs \<leftarrow> db_get (be_db X) db (bundle_id_key X BUNDLE_CONFIRMED_PREFIX bid);
     sid \<leftarrow> de (be_sid X) bs;
     st \<leftarrow> db_get (be_db X) db (bundle_sid_key X BUNDLE_STATE_PREFIX sid);
     b \<leftarrow> de (be_bundle X) st;
     Some (Confirmed (as_box_map ib_bundle b)) }"

definition bundle_get_last_predicted :: "'db bundle_env \<Rightarrow> 'db \<Rightarrow> bundle_id \<Rightarrow> staking_bundle as_box predicted option" where
  "bundle_get_last_predicted X db bid = do {
     bs \<leftarrow> db_get (be_db X) db (bundle_id_key X BUNDLE_PREDICTED_PREFIX bid);
     sid \<leftarrow> de (be_sid X) bs;
     st \<leftarrow> db_get (be_db X) db (bundle_sid_key X BUNDLE_STATE_PREFIX sid);
     b \<leftarrow> de (be_bundle X) st;
     Some (Predicted (as_box_map ib_bundle b)) }"

definition bundle_get_prediction_predecessor :: "'db bundle_env \<Rightarrow> 'db \<Rightarrow> bundle_state_id \<Rightarrow> bundle_state_id option" where
  "bundle_get_prediction_predecessor X db sid = Option.bind (db_get (be_db X) db (bundle_sid_key X BUNDLE_LINK_PREFIX sid)) (de (be_sid X))"

section \<open>The trait and its tracing wrapper (bundle.rs)\<close>

record 'r bundle_repo_ops =
  bro_select :: "'r \<Rightarrow> pool_id \<Rightarrow> u32 \<Rightarrow> bundle_id list panics"
  bro_may_exist :: "'r \<Rightarrow> bundle_state_id \<Rightarrow> bool"
  bro_get_state :: "'r \<Rightarrow> bundle_state_id \<Rightarrow> bundle_box option"
  bro_invalidate :: "'r \<Rightarrow> bundle_state_id \<Rightarrow> 'r"
  bro_eliminate :: "'r \<Rightarrow> staking_bundle indexed_bundle \<Rightarrow> 'r"
  bro_put_confirmed :: "'r \<Rightarrow> bundle_box confirmed \<Rightarrow> 'r"
  bro_put_predicted :: "'r \<Rightarrow> (bundle_box predicted, bundle_state_id) traced \<Rightarrow> 'r"
  bro_get_last_confirmed :: "'r \<Rightarrow> bundle_id \<Rightarrow> staking_bundle as_box confirmed option"
  bro_get_last_predicted :: "'r \<Rightarrow> bundle_id \<Rightarrow> staking_bundle as_box predicted option"
  bro_get_prediction_predecessor :: "'r \<Rightarrow> bundle_state_id \<Rightarrow> bundle_state_id option"

definition bundle_repo_rocksdb :: "'db bundle_env \<Rightarrow> 'db bundle_repo_ops" where
  "bundle_repo_rocksdb X = \<lparr> bro_select = bundle_select X, bro_may_exist = bundle_may_exist X, bro_get_state = bundle_get_state X,
     bro_invalidate = bundle_invalidate X, bro_eliminate = bundle_eliminate X, bro_put_confirmed = bundle_put_confirmed X,
     bro_put_predicted = bundle_put_predicted X, bro_get_last_confirmed = bundle_get_last_confirmed X,
     bro_get_last_predicted = bundle_get_last_predicted X, bro_get_prediction_predecessor = bundle_get_prediction_predecessor X \<rparr>"

text \<open>\<open>BundleRepoTracing\<close> forwards every call; the log is not modelled.\<close>

definition bundle_repo_tracing :: "'r bundle_repo_ops \<Rightarrow> 'r bundle_repo_ops" where
  "bundle_repo_tracing inner = \<lparr> bro_select = (\<lambda>r p e. bro_select inner r p e), bro_may_exist = (\<lambda>r s. bro_may_exist inner r s),
     bro_get_state = (\<lambda>r s. bro_get_state inner r s), bro_invalidate = (\<lambda>r s. bro_invalidate inner r s),
     bro_eliminate = (\<lambda>r b. bro_eliminate inner r b), bro_put_confirmed = (\<lambda>r c. bro_put_confirmed inner r c),
     bro_put_predicted = (\<lambda>r t. bro_put_predicted inner r t), bro_get_last_confirmed = (\<lambda>r i. bro_get_last_confirmed inner r i),
     bro_get_last_predicted = (\<lambda>r i. bro_get_last_predicted inner r i),
     bro_get_prediction_predecessor = (\<lambda>r s. bro_get_prediction_predecessor inner r s) \<rparr>"

section \<open>Resolution (bundle.rs) and updates (process.rs)\<close>

definition bundle_is_linking :: "'r bundle_repo_ops \<Rightarrow> 'r \<Rightarrow> bundle_state_id \<Rightarrow> bundle_state_id \<Rightarrow> bool option" where
  "bundle_is_linking R repo sid anchoring_sid = link_loop (bro_get_prediction_predecessor R repo) anchoring_sid sid"

text \<open>The outer \<open>None\<close> is a walk over the links that does not end.\<close>

definition resolve_bundle_state :: "'r bundle_repo_ops \<Rightarrow> 'r \<Rightarrow> bundle_id \<Rightarrow> staking_bundle as_box option option" where
  "resolve_bundle_state R repo bid = (case (bro_get_last_confirmed R repo bid, bro_get_last_predicted R repo bid) of
      (Some (Confirmed conf), Some (Predicted pred)) \<Rightarrow>
        let anchoring_sid = bundle_self_state_ref (as_val conf); predicted_sid = bundle_self_state_ref (as_val pred)
        in (if predicted_sid = anchoring_sid then Some (Some pred)
            else do { valid \<leftarrow> bundle_is_linking R repo predicted_sid anchoring_sid; Some (Some (if valid then pred else conf)) })
    | (Some (Confirmed conf), None) \<Rightarrow> Some (Some conf)
    | (None, Some _) \<Rightarrow> Some None
    | (None, None) \<Rightarrow> Some None)"

fun bundle_update_step :: "'r bundle_repo_ops \<Rightarrow> 'r \<Rightarrow> bundle_box state_update confirmed \<Rightarrow> 'r" where
  "bundle_update_step R repo (Confirmed (Transition (ERight new_state))) = bro_put_confirmed R repo (Confirmed new_state)"
| "bundle_update_step R repo (Confirmed (Transition (EBoth _ new_state))) = bro_put_confirmed R repo (Confirmed new_state)"
| "bundle_update_step R repo (Confirmed (TransitionRollback (ERight new_state))) = bro_put_confirmed R repo (Confirmed new_state)"
| "bundle_update_step R repo (Confirmed (TransitionRollback (EBoth _ new_state))) = bro_put_confirmed R repo (Confirmed new_state)"
| "bundle_update_step R repo (Confirmed (Transition (ELeft (AsBox _ st)))) = bro_eliminate R repo st"
| "bundle_update_step R repo (Confirmed (TransitionRollback (ELeft (AsBox _ st)))) = bro_invalidate R repo (indexed_self_state_ref st)"

section \<open>The abstract repository\<close>

record abs_bundles =
  ab_states :: "bundle_state_id \<Rightarrow> bundle_box option"
  ab_links :: "bundle_state_id \<Rightarrow> bundle_state_id option"
  ab_predicted :: "bundle_id \<Rightarrow> bundle_state_id option"
  ab_confirmed :: "bundle_id \<Rightarrow> bundle_state_id option"
  ab_index :: "(pool_id \<times> u32 \<times> bundle_id) set"

definition abs_bundles_of :: "'db bundle_env \<Rightarrow> 'db \<Rightarrow> abs_bundles" where
  "abs_bundles_of X db = \<lparr> ab_states = bundle_get_state X db, ab_links = bundle_get_prediction_predecessor X db,
     ab_predicted = (\<lambda>i. Option.bind (db_get (be_db X) db (bundle_id_key X BUNDLE_PREDICTED_PREFIX i)) (de (be_sid X))),
     ab_confirmed = (\<lambda>i. Option.bind (db_get (be_db X) db (bundle_id_key X BUNDLE_CONFIRMED_PREFIX i)) (de (be_sid X))),
     ab_index = {(p, e, i). db_get (be_db X) db (epoch_index_key X p e i) \<noteq> None} \<rparr>"

text \<open>Every key under the prefix of the index has the layout of an index key.\<close>

definition bundle_index_wf :: "'db bundle_env \<Rightarrow> 'db \<Rightarrow> bool" where
  "bundle_index_wf X db \<longleftrightarrow> (\<forall>k. db_get (be_db X) db k \<noteq> None \<and> prefix (be_str X POOL_EPOCH_PREFIX) k \<longrightarrow> (\<exists>p e i. k = epoch_index_key X p e i))"

datatype bundle_op = BundleConfirmed bundle_box | BundlePredicted "(bundle_box predicted, bundle_state_id) traced"
  | BundleInvalidate bundle_state_id | BundleEliminate "staking_bundle indexed_bundle"

fun apply_bundle_op :: "'r bundle_repo_ops \<Rightarrow> bundle_op \<Rightarrow> 'r \<Rightarrow> 'r" where
  "apply_bundle_op R (BundleConfirmed b) db = bro_put_confirmed R db (Confirmed b)"
| "apply_bundle_op R (BundlePredicted t) db = bro_put_predicted R db t"
| "apply_bundle_op R (BundleInvalidate s) db = bro_invalidate R db s"
| "apply_bundle_op R (BundleEliminate b) db = bro_eliminate R db b"

definition index_entry :: "staking_bundle indexed_bundle \<Rightarrow> pool_id \<times> u32 \<times> bundle_id" where
  "index_entry b = (sb_pool_id (ib_bundle b), ib_lower_epoch_ix b, indexed_self_ref b)"

fun abs_bundle_op :: "bundle_op \<Rightarrow> abs_bundles \<Rightarrow> abs_bundles" where
  "abs_bundle_op (BundleConfirmed st) A = (let b = as_val st in A
     \<lparr> ab_states := (ab_states A)(indexed_self_state_ref b \<mapsto> st), ab_confirmed := (ab_confirmed A)(indexed_self_ref b \<mapsto> indexed_self_state_ref b),
       ab_index := insert (index_entry b) (ab_index A) - {index_entry (b \<lparr> ib_lower_epoch_ix := saturating_sub (ib_lower_epoch_ix b) 1 \<rparr>)} \<rparr>)"
| "abs_bundle_op (BundlePredicted t) A = (let st = the_predicted (tr_state t); b = as_val st in A
     \<lparr> ab_states := (ab_states A)(indexed_self_state_ref b \<mapsto> st), ab_predicted := (ab_predicted A)(indexed_self_ref b \<mapsto> indexed_self_state_ref b),
       ab_links := (case tr_prev_state_id t of Some s \<Rightarrow> (ab_links A)(indexed_self_state_ref b \<mapsto> s) | None \<Rightarrow> ab_links A),
       ab_index := insert (index_entry b) (ab_index A) \<rparr>)"
| "abs_bundle_op (BundleInvalidate s) A = A \<lparr> ab_states := (ab_states A)(s := None), ab_links := (ab_links A)(s := None) \<rparr>"
| "abs_bundle_op (BundleEliminate b) A = A \<lparr> ab_confirmed := (ab_confirmed A)(indexed_self_ref b := None),
     ab_predicted := (ab_predicted A)(indexed_self_ref b := None), ab_index := ab_index A - {index_entry b} \<rparr>"

text \<open>The specification of resolution.\<close>

definition abs_resolve_bundle :: "abs_bundles \<Rightarrow> bundle_id \<Rightarrow> bundle_box option" where
  "abs_resolve_bundle A i = (case Option.bind (ab_confirmed A i) (ab_states A) of
      None \<Rightarrow> None
    | Some c \<Rightarrow> (case Option.bind (ab_predicted A i) (ab_states A) of
        None \<Rightarrow> Some c
      | Some p \<Rightarrow> let s = indexed_self_state_ref (as_val p); a = indexed_self_state_ref (as_val c)
          in if s = a \<or> linked (ab_links A) s a then Some p else Some c))"

lemma indexed_refs_update [simp]:
  "indexed_self_ref (b \<lparr> ib_lower_epoch_ix := e \<rparr>) = indexed_self_ref b"
  "indexed_self_state_ref (b \<lparr> ib_lower_epoch_ix := e \<rparr>) = indexed_self_state_ref b"
  by (simp_all add: indexed_self_ref_def indexed_self_state_ref_def)

locale bundle_repo =
  fixes X :: "'db bundle_env"
  assumes db_laws: "rocksdb_laws (be_db X)" and str_laws: "bincode_strings (be_str X)"
    and pid_laws: "codec_laws (be_pid X)" and bid_laws: "codec_laws (be_bid X)" and sid_laws: "codec_laws (be_sid X)"
    and u32_laws: "codec_laws (be_u32 X)" and bundle_laws: "codec_laws (be_bundle X)"
    and pid_length: "length (ser (be_pid X) p) = 32" and bid_length: "length (ser (be_bid X) i) = 32" and u32_length: "length (ser (be_u32 X) h) = 4"
begin

lemmas get_put = rocksdb_laws.get_put [OF db_laws]
lemmas get_delete = rocksdb_laws.get_delete [OF db_laws]
lemmas de_ser [simp] = codec_laws.de_ser [OF pid_laws] codec_laws.de_ser [OF bid_laws] codec_laws.de_ser [OF sid_laws]
  codec_laws.de_ser [OF u32_laws] codec_laws.de_ser [OF bundle_laws]
lemmas ser_inject [simp] = codec_laws.ser_inject [OF pid_laws] codec_laws.ser_inject [OF bid_laws] codec_laws.ser_inject [OF sid_laws]
  codec_laws.ser_inject [OF u32_laws]
lemmas bundle_prefixes = BUNDLE_STATE_PREFIX_def BUNDLE_LINK_PREFIX_def BUNDLE_PREDICTED_PREFIX_def BUNDLE_CONFIRMED_PREFIX_def POOL_EPOCH_PREFIX_def

lemma str_split: "length a < 4294967296 \<Longrightarrow> length b < 4294967296 \<Longrightarrow> be_str X a @ x = be_str X b @ y \<longleftrightarrow> a = b \<and> x = y"
  using bincode_strings.str_prefix_free [OF str_laws, of a b x y] by auto

lemma str_prefix: "length a < 4294967296 \<Longrightarrow> length b < 4294967296 \<Longrightarrow> prefix (be_str X a) (be_str X b @ y) \<longleftrightarrow> a = b"
  by (auto simp: prefix_def) (metis append_assoc str_split)

lemma index_key_eq: "epoch_index_key X p e i = be_str X POOL_EPOCH_PREFIX @ ser (be_pid X) p @ ser (be_u32 X) (- 1 - e) @ ser (be_bid X) i"
  by (simp add: epoch_index_key_def epoch_index_prefix_def)

lemmas key_defs = bundle_sid_key_def bundle_id_key_def prefixed_key_def index_key_eq

lemma key_simps [simp]:
  "epoch_index_key X p e i = epoch_index_key X p' e' i' \<longleftrightarrow> p = p' \<and> e = e' \<and> i = i'"
  "length a < 4294967296 \<Longrightarrow> length b < 4294967296 \<Longrightarrow> bundle_sid_key X a s = bundle_sid_key X b s' \<longleftrightarrow> a = b \<and> s = s'"
  "length a < 4294967296 \<Longrightarrow> length b < 4294967296 \<Longrightarrow> bundle_id_key X a i = bundle_id_key X b i' \<longleftrightarrow> a = b \<and> i = i'"
  "a \<noteq> b \<Longrightarrow> length a < 4294967296 \<Longrightarrow> length b < 4294967296 \<Longrightarrow> bundle_id_key X a i \<noteq> bundle_sid_key X b s"
  "a \<noteq> b \<Longrightarrow> length a < 4294967296 \<Longrightarrow> length b < 4294967296 \<Longrightarrow> bundle_sid_key X b s \<noteq> bundle_id_key X a i"
  "a \<noteq> POOL_EPOCH_PREFIX \<Longrightarrow> length a < 4294967296 \<Longrightarrow> epoch_index_key X p e i \<noteq> bundle_sid_key X a s"
  "a \<noteq> POOL_EPOCH_PREFIX \<Longrightarrow> length a < 4294967296 \<Longrightarrow> epoch_index_key X p e i \<noteq> bundle_id_key X a i'"
  "a \<noteq> POOL_EPOCH_PREFIX \<Longrightarrow> length a < 4294967296 \<Longrightarrow> bundle_sid_key X a s \<noteq> epoch_index_key X p e i"
  "a \<noteq> POOL_EPOCH_PREFIX \<Longrightarrow> length a < 4294967296 \<Longrightarrow> bundle_id_key X a i' \<noteq> epoch_index_key X p e i"
  by (auto simp: key_defs str_split pid_length u32_length POOL_EPOCH_PREFIX_def)

lemma prefix_simps [simp]:
  "prefix (be_str X POOL_EPOCH_PREFIX) (epoch_index_key X p e i)"
  "a \<noteq> POOL_EPOCH_PREFIX \<Longrightarrow> length a < 4294967296 \<Longrightarrow> \<not> prefix (be_str X POOL_EPOCH_PREFIX) (bundle_sid_key X a s)"
  "a \<noteq> POOL_EPOCH_PREFIX \<Longrightarrow> length a < 4294967296 \<Longrightarrow> \<not> prefix (be_str X POOL_EPOCH_PREFIX) (bundle_id_key X a i)"
  by (auto simp: key_defs str_prefix POOL_EPOCH_PREFIX_def)

lemma index_prefix: "prefix (epoch_index_prefix X p e) (epoch_index_key X p' e' i) \<longleftrightarrow> p = p' \<and> e = e'"
  by (auto simp: index_key_eq epoch_index_prefix_def prefix_def append_eq_append_conv_if pid_length u32_length)

lemma destructure_index [simp]: "destructure_epoch_index_key X (epoch_index_key X p e i) = Some (p, i, e)"
  using bincode_strings.str_length [OF str_laws, of POOL_EPOCH_PREFIX]
  by (simp add: destructure_epoch_index_key_def index_key_eq POOL_EPOCH_KEY_LEN_def POOL_EPOCH_PREFIX_def pid_length bid_length u32_length)

lemmas bundle_unfold = abs_bundles_of_def bundle_get_state_def bundle_get_prediction_predecessor_def bundle_repo_rocksdb_def
  bundle_put_confirmed_def bundle_put_predicted_def bundle_invalidate_def bundle_eliminate_def get_put get_delete index_entry_def

lemma abs_apply: "abs_bundles_of X (apply_bundle_op (bundle_repo_rocksdb X) op db) = abs_bundle_op op (abs_bundles_of X db)"
proof (cases op)
  case (BundlePredicted t)
  then show ?thesis
    by (cases "tr_state t"; cases "tr_prev_state_id t") (auto simp: bundle_unfold bundle_prefixes Let_def fun_eq_iff)
qed (auto simp: bundle_unfold bundle_prefixes Let_def fun_eq_iff)

lemma abs_run:
  "abs_bundles_of X (fold (apply_bundle_op (bundle_repo_rocksdb X)) ops db) = fold abs_bundle_op ops (abs_bundles_of X db)"
  by (induction ops arbitrary: db) (simp_all add: abs_apply)

lemma index_wf_put: "bundle_index_wf X db \<Longrightarrow> (prefix (be_str X POOL_EPOCH_PREFIX) k \<Longrightarrow> \<exists>p e i. k = epoch_index_key X p e i) \<Longrightarrow>
    bundle_index_wf X (db_put (be_db X) db k v)"
  by (auto simp: bundle_index_wf_def get_put)

lemma index_wf_delete: "bundle_index_wf X db \<Longrightarrow> bundle_index_wf X (db_delete (be_db X) db k)"
  by (auto simp: bundle_index_wf_def get_delete)

lemma index_wf_puts:
  assumes "bundle_index_wf X db"
  shows "a \<noteq> POOL_EPOCH_PREFIX \<Longrightarrow> length a < 4294967296 \<Longrightarrow> bundle_index_wf X (db_put (be_db X) db (bundle_sid_key X a s) v)"
    "a \<noteq> POOL_EPOCH_PREFIX \<Longrightarrow> length a < 4294967296 \<Longrightarrow> bundle_index_wf X (db_put (be_db X) db (bundle_id_key X a i) v)"
    "bundle_index_wf X (db_put (be_db X) db (epoch_index_key X p e i) v)"
  by (rule index_wf_put [OF assms]; use prefix_simps in blast)+

lemma index_wf_apply: "bundle_index_wf X db \<Longrightarrow> bundle_index_wf X (apply_bundle_op (bundle_repo_rocksdb X) op db)"
proof (cases op)
  case (BundlePredicted t)
  assume "bundle_index_wf X db"
  then show ?thesis unfolding BundlePredicted
    by (cases "tr_state t"; cases "tr_prev_state_id t") (simp_all add: bundle_repo_rocksdb_def bundle_put_predicted_def Let_def index_wf_puts bundle_prefixes)
qed (simp_all add: bundle_repo_rocksdb_def bundle_put_confirmed_def bundle_invalidate_def bundle_eliminate_def Let_def
    index_wf_puts index_wf_delete bundle_prefixes)

lemma index_wf_run: "bundle_index_wf X db \<Longrightarrow> bundle_index_wf X (fold (apply_bundle_op (bundle_repo_rocksdb X)) ops db)"
  by (induction ops arbitrary: db) (simp_all add: index_wf_apply)

text \<open>On a list of index keys of one pool and epoch the loop runs to the end.\<close>

lemma select_loop_keys:
  "map fst es = map (epoch_index_key X p e) ids \<Longrightarrow> distinct (acc @ ids) \<Longrightarrow> select_loop X p e acc es = Some (acc @ ids)"
proof (induction es arbitrary: acc ids)
  case (Cons x es)
  then obtain i js where "ids = i # js" "fst x = epoch_index_key X p e i" "map fst es = map (epoch_index_key X p e) js"
    by (cases ids) auto
  then show ?case using Cons.IH [of js "acc @ [i]"] Cons.prems(2) by (cases x) auto
qed simp

lemma select_exact:
  assumes "bundle_index_wf X db"
  shows "\<exists>ids. bundle_select X db p e = Some ids \<and> distinct ids \<and> set ids = {i. (p, e, i) \<in> ab_index (abs_bundles_of X db)}"
proof -
  let ?es = "db_scan (be_db X) db (epoch_index_prefix X p e)"
  have pre: "prefix (be_str X POOL_EPOCH_PREFIX) (epoch_index_prefix X p e)" by (simp add: epoch_index_prefix_def)
  have key: "\<exists>i. k = epoch_index_key X p e i" if "k \<in> fst ` set ?es" for k
  proof -
    have k: "db_get (be_db X) db k \<noteq> None" "prefix (epoch_index_prefix X p e) k"
      using that rocksdb_laws.scan_entries [OF db_laws] by auto
    then have "prefix (be_str X POOL_EPOCH_PREFIX) k" using pre prefix_order.trans by blast
    then obtain p' e' i where "k = epoch_index_key X p' e' i" using assms k(1) unfolding bundle_index_wf_def by blast
    then show ?thesis using k(2) by (auto simp: index_prefix)
  qed
  then have "\<exists>ids. map fst ?es = map (epoch_index_key X p e) ids" by (simp add: ex_map_conv)
  then obtain ids where ids: "map fst ?es = map (epoch_index_key X p e) ids" ..
  then have dist: "distinct ids" using rocksdb_laws.scan_distinct [OF db_laws, of db "epoch_index_prefix X p e"] by (simp add: distinct_map)
  have sel: "bundle_select X db p e = Some ids" using select_loop_keys [OF ids, of "[]"] dist by (simp add: bundle_select_def)
  have mem: "i \<in> set ids \<longleftrightarrow> (p, e, i) \<in> ab_index (abs_bundles_of X db)" for i
  proof -
    have "i \<in> set ids \<longleftrightarrow> epoch_index_key X p e i \<in> set (map (epoch_index_key X p e) ids)" by auto
    also have "\<dots> \<longleftrightarrow> (\<exists>v. (epoch_index_key X p e i, v) \<in> set ?es)" unfolding ids [symmetric] by force
    also have "\<dots> \<longleftrightarrow> db_get (be_db X) db (epoch_index_key X p e i) \<noteq> None"
      by (simp add: rocksdb_laws.scan_entries [OF db_laws] index_prefix)
    finally show ?thesis by (simp add: abs_bundles_of_def)
  qed
  show ?thesis using sel dist mem by (intro exI [of _ ids]) auto
qed

lemma get_last_confirmed_abs:
  "bundle_get_last_confirmed X db i =
    map_option (Confirmed \<circ> as_box_map ib_bundle) (Option.bind (ab_confirmed (abs_bundles_of X db) i) (ab_states (abs_bundles_of X db)))"
  by (auto simp: bundle_get_last_confirmed_def abs_bundles_of_def bundle_get_state_def split: bind_splits)

lemma get_last_predicted_abs:
  "bundle_get_last_predicted X db i =
    map_option (Predicted \<circ> as_box_map ib_bundle) (Option.bind (ab_predicted (abs_bundles_of X db) i) (ab_states (abs_bundles_of X db)))"
  by (auto simp: bundle_get_last_predicted_def abs_bundles_of_def bundle_get_state_def split: bind_splits)

lemma resolve_abs:
  assumes "wfp (\<lambda>t s. bundle_get_prediction_predecessor X db s = Some t)"
  shows "resolve_bundle_state (bundle_repo_rocksdb X) db i = Some (map_option (as_box_map ib_bundle) (abs_resolve_bundle (abs_bundles_of X db) i))"
proof -
  have val: "bundle_self_state_ref (as_val (as_box_map ib_bundle b)) = indexed_self_state_ref (as_val b)" for b
    by (cases b) (simp add: as_box_map_def indexed_self_state_ref_def)
  have links: "ab_links (abs_bundles_of X db) = bundle_get_prediction_predecessor X db" by (simp add: abs_bundles_of_def)
  have "bundle_is_linking (bundle_repo_rocksdb X) db s a = Some (linked (ab_links (abs_bundles_of X db)) s a)" for s a
    using link_loop_wf [OF assms] by (simp add: bundle_is_linking_def bundle_repo_rocksdb_def links)
  then show ?thesis
    by (cases "Option.bind (ab_confirmed (abs_bundles_of X db) i) (ab_states (abs_bundles_of X db))";
        cases "Option.bind (ab_predicted (abs_bundles_of X db) i) (ab_states (abs_bundles_of X db))")
      (simp_all add: resolve_bundle_state_def abs_resolve_bundle_def bundle_repo_rocksdb_def get_last_confirmed_abs get_last_predicted_abs val Let_def)
qed

end

section \<open>Links without cycles\<close>

lemma wfp_new_link:
  assumes "wfp (\<lambda>t s. f s = Some t)" "new \<noteq> old" "new \<notin> ran f"
  shows "wfp (\<lambda>t s. (f(new \<mapsto> old)) s = Some t)"
proof (rule accp_wfpI, rule allI)
  let ?R = "\<lambda>t s. (f(new \<mapsto> old)) s = Some t"
  have old: "Wellfounded.accp ?R x" if "x \<noteq> new" for x
    using assms(1) that
  proof (induction x rule: wfp_induct_rule)
    case (less x)
    show ?case
    proof (rule accpI)
      fix y assume "?R y x"
      then have "f x = Some y" using less.prems by simp
      moreover from this have "y \<noteq> new" using assms(3) by (auto simp: ran_def)
      ultimately show "Wellfounded.accp ?R y" using less.IH by blast
    qed
  qed
  show "Wellfounded.accp ?R x" for x
  proof (cases "x = new")
    case True
    have "Wellfounded.accp ?R new" by (rule accpI) (use old [of old] assms(2) in auto)
    then show ?thesis using True by blast
  qed (use old in blast)
qed

lemma wfp_drop_link: "wfp (\<lambda>t s. f s = Some t) \<Longrightarrow> wfp (\<lambda>t s. (f(x := None)) s = Some t)"
  by (erule wfp_subset) auto

text \<open>A prediction is a new box: nothing is linked to it yet, and it is not its own predecessor.\<close>

fun fresh_op :: "abs_bundles \<Rightarrow> bundle_op \<Rightarrow> bool" where
  "fresh_op A (BundlePredicted t) \<longleftrightarrow> indexed_self_state_ref (as_val (the_predicted (tr_state t))) \<notin> ran (ab_links A) \<and>
     tr_prev_state_id t \<noteq> Some (indexed_self_state_ref (as_val (the_predicted (tr_state t))))"
| "fresh_op A _ \<longleftrightarrow> True"

primrec fresh_ops :: "abs_bundles \<Rightarrow> bundle_op list \<Rightarrow> bool" where
  "fresh_ops A [] \<longleftrightarrow> True"
| "fresh_ops A (op # ops) \<longleftrightarrow> fresh_op A op \<and> fresh_ops (abs_bundle_op op A) ops"

lemma links_wfp_op:
  assumes "wfp (\<lambda>t s. ab_links A s = Some t)" "fresh_op A op"
  shows "wfp (\<lambda>t s. ab_links (abs_bundle_op op A) s = Some t)"
proof (cases op)
  case (BundlePredicted t)
  then show ?thesis using assms wfp_new_link [OF assms(1)] by (cases "tr_prev_state_id t") (auto simp: Let_def simp del: fun_upd_apply)
qed (use assms in \<open>simp_all add: Let_def wfp_drop_link del: fun_upd_apply\<close>)

lemma links_wfp_run:
  "wfp (\<lambda>t s. ab_links A s = Some t) \<Longrightarrow> fresh_ops A ops \<Longrightarrow> wfp (\<lambda>t s. ab_links (fold abs_bundle_op ops A) s = Some t)"
  by (induction ops arbitrary: A) (simp_all add: links_wfp_op)

section \<open>Instance\<close>

definition sample_bundles :: "mem_db bundle_env" where
  "sample_bundles = \<lparr> be_db = mem_rocksdb, be_str = bincode_str, be_pid = digest_codec, be_bid = digest_codec, be_sid = digest_codec,
     be_u32 = codec_of u32_sd, be_bundle = codec_of (as_box_sd indexed_bundle_sd) \<rparr>"

interpretation sample_bundles: bundle_repo sample_bundles
  by (rule bundle_repo.intro)
    (simp_all add: sample_bundles_def mem.rocksdb_laws_axioms bin.bincode_strings_axioms digest.codec_laws_axioms
      bundle_box_bytes.codec_of_laws self_delimiting.codec_of_laws word_sds, simp_all add: digest_codec_def codec_of_def word_sd_def)

definition bare_box :: "digest32 \<Rightarrow> ergo_box" where
  "bare_box i = \<lparr> bx_value = 1, bx_tree = [], bx_tokens = None, bx_regs = [], bx_height = 1, box_id = i \<rparr>"

definition tagged_bundle :: "digest32 \<Rightarrow> u64 \<Rightarrow> staking_bundle" where
  "tagged_bundle i t = \<lparr> sb_bundle_key_id = \<lparr> ta_id = 9 \<rparr>, sb_state_id = i, sb_pool_id = 7, sb_vlq = typed_amount 2 10,
     sb_tmp = Some (typed_amount 3 t), sb_redeemer_prop = [], sb_erg_value = 1, sb_token_name = [], sb_token_desc = [] \<rparr>"

definition bundle_at :: "digest32 \<Rightarrow> u32 \<Rightarrow> bundle_box" where
  "bundle_at i e = AsBox (bare_box i) \<lparr> ib_bundle = tagged_bundle i 10, ib_lower_epoch_ix = e \<rparr>"

lemma bundle_at_simps [simp]:
  "indexed_self_ref (as_val (bundle_at i e)) = 9" "indexed_self_state_ref (as_val (bundle_at i e)) = i"
  "index_entry (as_val (bundle_at i e)) = (7, e, 9)" "ib_lower_epoch_ix (as_val (bundle_at i e)) = e"
  "index_entry (as_val (bundle_at i e) \<lparr> ib_lower_epoch_ix := e' \<rparr>) = (7, e', 9)"
  by (simp_all add: bundle_at_def tagged_bundle_def indexed_self_ref_def indexed_self_state_ref_def bundle_self_ref_def bundle_id_def
      bundle_self_state_ref_def index_entry_def)

lemma no_bundles: "bundle_index_wf sample_bundles RBT.empty"
  "abs_bundles_of sample_bundles RBT.empty =
     \<lparr> ab_states = (\<lambda>_. None), ab_links = (\<lambda>_. None), ab_predicted = (\<lambda>_. None), ab_confirmed = (\<lambda>_. None), ab_index = {} \<rparr>"
  by (simp_all add: bundle_index_wf_def abs_bundles_of_def bundle_get_state_def bundle_get_prediction_predecessor_def sample_bundles_def
      mem_rocksdb_def fun_eq_iff)

section \<open>Properties\<close>

text \<open>C38: After every sequence of operations on the repository of bundles, \<open>select\<close> does not
  panic and returns, without duplicates, exactly the bundles the index has for the pool and the epoch, where every operation acts on the
  index as on a set: a confirmation enters the bundle at its lowest epoch and takes it out of the epoch before, a
  prediction enters it, an elimination takes it out.\<close>

theorem select_returns_index:
  assumes "bundle_repo X" "bundle_index_wf X db"
  shows "\<exists>ids. bundle_select X (fold (apply_bundle_op (bundle_repo_rocksdb X)) ops db) p e = Some ids \<and> distinct ids \<and>
    set ids = {i. (p, e, i) \<in> ab_index (fold abs_bundle_op ops (abs_bundles_of X db))}"
  using bundle_repo.select_exact [OF assms(1) bundle_repo.index_wf_run [OF assms], of ops p e] bundle_repo.abs_run [OF assms(1), of ops db] by simp

theorem select_returns_index_witness:
  "bundle_select sample_bundles (fold (apply_bundle_op (bundle_repo_rocksdb sample_bundles))
     [BundleConfirmed (bundle_at 1 3), BundleConfirmed (bundle_at 2 4)] RBT.empty) 7 3 = Some [] \<and>
   bundle_select sample_bundles (fold (apply_bundle_op (bundle_repo_rocksdb sample_bundles))
     [BundleConfirmed (bundle_at 1 3), BundleConfirmed (bundle_at 2 4)] RBT.empty) 7 4 = Some [9]"
proof -
  let ?ops = "[BundleConfirmed (bundle_at 1 3), BundleConfirmed (bundle_at 2 4)]"
  have ix: "ab_index (fold abs_bundle_op ?ops (abs_bundles_of sample_bundles RBT.empty)) = {(7, 4, 9)}"
    by (auto simp: no_bundles Let_def saturating_sub_def)
  have one: "distinct ids \<Longrightarrow> set ids = {9} \<Longrightarrow> ids = [9]" for ids :: "digest32 list"
    by (cases ids rule: remdups_adj.cases) auto
  show ?thesis
    using select_returns_index [OF sample_bundles.bundle_repo_axioms no_bundles(1), of ?ops 7 3]
      select_returns_index [OF sample_bundles.bundle_repo_axioms no_bundles(1), of ?ops 7 4] one
    unfolding ix by auto
qed

text \<open>C39: The state of a bundle can always be resolved: from a repository without links, after
  every sequence of operations whose predictions are new boxes, the walk over the links ends, and the
  result is the last prediction when it is the confirmed state or linked to it, the confirmed
  state otherwise, and nothing when no state is confirmed.\<close>

theorem bundle_resolution_terminates:
  assumes "bundle_repo X" "ab_links (abs_bundles_of X db) = (\<lambda>_. None)" "fresh_ops (abs_bundles_of X db) ops"
  shows "resolve_bundle_state (bundle_repo_rocksdb X) (fold (apply_bundle_op (bundle_repo_rocksdb X)) ops db) i =
    Some (map_option (as_box_map ib_bundle) (abs_resolve_bundle (fold abs_bundle_op ops (abs_bundles_of X db)) i))"
proof -
  let ?db = "fold (apply_bundle_op (bundle_repo_rocksdb X)) ops db"
  have "wfp (\<lambda>t s. ab_links (abs_bundles_of X ?db) s = Some t)"
    using links_wfp_run [OF _ assms(3)] assms(2) bundle_repo.abs_run [OF assms(1)] by simp
  then have "wfp (\<lambda>t s. bundle_get_prediction_predecessor X ?db s = Some t)" by (simp add: abs_bundles_of_def)
  from bundle_repo.resolve_abs [OF assms(1) this] show ?thesis by (simp add: bundle_repo.abs_run [OF assms(1)])
qed

theorem bundle_resolution_terminates_witness:
  "resolve_bundle_state (bundle_repo_rocksdb sample_bundles) (fold (apply_bundle_op (bundle_repo_rocksdb sample_bundles))
     [BundleConfirmed (bundle_at 1 3), BundlePredicted \<lparr> tr_state = Predicted (bundle_at 2 4), tr_prev_state_id = Some 1 \<rparr>] RBT.empty) 9
   = Some (Some (as_box_map ib_bundle (bundle_at 2 4)))"
  by (subst bundle_resolution_terminates [OF sample_bundles.bundle_repo_axioms])
    (auto simp: no_bundles Let_def abs_resolve_bundle_def)

end
