(* ===== verification/Backlog.thy ===== *)
theory Backlog
  imports Storage Entity_Data "HOL-Library.AList"
begin

text \<open>
  The backlog of orders: \<open>spectrum-offchain/src/backlog.rs\<close> with \<open>data.rs\<close>, \<open>persistence.rs\<close> and
  \<open>process.rs\<close>.  The trait is the record
  \<open>backlog_ops\<close>; \<open>BacklogTracing\<close> logs and forwards.

  Three interfaces are locales: the crate \<open>priority_queue\<close> (record \<open>pqueue\<close>; a push inserts or
  updates, a pop takes an entry of the greatest priority, which one of several is left open), the
  trait \<open>BacklogStore\<close> (record \<open>bstore\<close>) and, over both, the service.  The store is interpreted
  on \<open>BacklogStoreRocksDB\<close>.  The clock that the loops read (\<open>Utc::now().timestamp()\<close>, one reading
  per iteration) and the random number of \<open>try_pop\<close> are arguments.  \<open>None\<close> of a \<open>panics\<close> result is a
  panic of \<open>get\<close> on bytes it cannot decode, or a loop that does not end.

  Results: no stored order is ever lost by the queues, an order that is popped is stored, has not
  expired and has the greatest weight of the live ones in its queue, and popping always ends.
\<close>

section \<open>Data (data.rs)\<close>

record 'o backlog_order =
  bo_order :: 'o
  bo_timestamp :: i64

type_synonym order_weight_t = u64

record backlog_config =
  order_lifespan :: int
  order_exec_time :: int
  retry_suspended_prob :: u8

record 'oid weighted_order =
  wo_order_id :: 'oid
  wo_timestamp :: i64

section \<open>The priority queue\<close>

record ('q, 'k) pqueue =
  pq_new :: 'q
  pq_push :: "'q \<Rightarrow> 'k \<Rightarrow> u64 \<Rightarrow> 'q"
  pq_pop :: "'q \<Rightarrow> (('k \<times> u64) \<times> 'q) option"
  pq_remove :: "'q \<Rightarrow> 'k \<Rightarrow> 'q"
  pq_iter :: "'q \<Rightarrow> ('k \<times> u64) list"

section \<open>The store (persistence.rs)\<close>

record ('s, 'oid, 'o) bstore =
  bs_put :: "'s \<Rightarrow> 'o backlog_order \<Rightarrow> 's"
  bs_exists :: "'s \<Rightarrow> 'oid \<Rightarrow> bool"
  bs_remove :: "'s \<Rightarrow> 'oid \<Rightarrow> 's"
  bs_get :: "'s \<Rightarrow> 'oid \<Rightarrow> 'o backlog_order option panics"
  bs_find_orders :: "'s \<Rightarrow> ('o \<Rightarrow> bool) \<Rightarrow> 'o backlog_order list"

definition store_put :: "'db rocksdb \<Rightarrow> 'oid codec \<Rightarrow> 'o backlog_order codec \<Rightarrow> ('o \<Rightarrow> 'oid) \<Rightarrow> 'db \<Rightarrow> 'o backlog_order \<Rightarrow> 'db" where
  "store_put R ci co oref db ord = db_put R db (ser ci (oref (bo_order ord))) (ser co ord)"

definition store_exists :: "'db rocksdb \<Rightarrow> 'oid codec \<Rightarrow> 'db \<Rightarrow> 'oid \<Rightarrow> bool" where
  "store_exists R ci db ord_id \<longleftrightarrow> db_get R db (ser ci ord_id) \<noteq> None"

definition store_remove :: "'db rocksdb \<Rightarrow> 'oid codec \<Rightarrow> 'db \<Rightarrow> 'oid \<Rightarrow> 'db" where
  "store_remove R ci db ord_id = db_delete R db (ser ci ord_id)"

definition store_get :: "'db rocksdb \<Rightarrow> 'oid codec \<Rightarrow> 'o backlog_order codec \<Rightarrow> 'db \<Rightarrow> 'oid \<Rightarrow> 'o backlog_order option panics" where
  "store_get R ci co db ord_id = (case db_get R db (ser ci ord_id) of
     None \<Rightarrow> Some None
   | Some b \<Rightarrow> map_option Some (de co b))"

definition store_find_orders :: "'db rocksdb \<Rightarrow> 'o backlog_order codec \<Rightarrow> 'db \<Rightarrow> ('o \<Rightarrow> bool) \<Rightarrow> 'o backlog_order list" where
  "store_find_orders R co db f = List.map_filter (\<lambda>(_, v). case de co v of
     Some b \<Rightarrow> if f (bo_order b) then Some b else None
   | None \<Rightarrow> None) (db_scan R db [])"

definition backlog_store_rocksdb :: "'db rocksdb \<Rightarrow> 'oid codec \<Rightarrow> 'o backlog_order codec \<Rightarrow> ('o \<Rightarrow> 'oid) \<Rightarrow> ('db, 'oid, 'o) bstore" where
  "backlog_store_rocksdb R ci co oref = \<lparr> bs_put = store_put R ci co oref, bs_exists = store_exists R ci,
     bs_remove = store_remove R ci, bs_get = store_get R ci co, bs_find_orders = store_find_orders R co \<rparr>"

section \<open>BacklogService (backlog.rs)\<close>

record ('o, 'oid, 's, 'q) backlog_env =
  be_store :: "('s, 'oid, 'o) bstore"
  be_pq :: "('q, 'oid weighted_order) pqueue"
  be_ref :: "'o \<Rightarrow> 'oid"
  be_weight :: "'o \<Rightarrow> u64"

record ('oid, 's, 'q) backlog_service =
  bl_store :: 's
  bl_conf :: backlog_config
  bl_pending :: 'q
  bl_suspended :: 'q
  bl_revisit :: "'oid weighted_order list"

definition weighted_of_backlog :: "('o, 'oid, 's, 'q) backlog_env \<Rightarrow> 'o backlog_order \<Rightarrow> 'oid weighted_order" where
  "weighted_of_backlog E bo = \<lparr> wo_order_id = be_ref E (bo_order bo), wo_timestamp = bo_timestamp bo \<rparr>"

definition weighted_of_pending :: "('o, 'oid, 's, 'q) backlog_env \<Rightarrow> 'o pending_order \<Rightarrow> 'oid weighted_order" where
  "weighted_of_pending E po = \<lparr> wo_order_id = be_ref E (po_order po), wo_timestamp = po_timestamp po \<rparr>"

definition weighted_of_progressing :: "('o, 'oid, 's, 'q) backlog_env \<Rightarrow> 'o progressing_order \<Rightarrow> 'oid weighted_order" where
  "weighted_of_progressing E po = \<lparr> wo_order_id = be_ref E (pr_order po), wo_timestamp = pr_timestamp po \<rparr>"

definition weighted_of_suspended :: "('o, 'oid, 's, 'q) backlog_env \<Rightarrow> 'o suspended_order \<Rightarrow> 'oid weighted_order" where
  "weighted_of_suspended E so = \<lparr> wo_order_id = be_ref E (so_order so), wo_timestamp = so_timestamp so \<rparr>"

definition backlog_new :: "('o, 'oid, 's, 'q) backlog_env \<Rightarrow> 's \<Rightarrow> backlog_config \<Rightarrow> ('oid, 's, 'q) backlog_service" where
  "backlog_new E store conf =
     \<lparr> bl_store = store, bl_conf = conf,
       bl_pending = fold (\<lambda>ord q. pq_push (be_pq E) q (weighted_of_backlog E ord) (be_weight E (bo_order ord)))
         (bs_find_orders (be_store E) store (\<lambda>_. True)) (pq_new (be_pq E)),
       bl_suspended = pq_new (be_pq E), bl_revisit = [] \<rparr>"

definition elapsed_secs :: "i64 \<Rightarrow> i64 \<Rightarrow> int" where
  "elapsed_secs ts_now timestamp = sint (ts_now - timestamp)"

fun revisit_loop :: "('o, 'oid, 's, 'q) backlog_env \<Rightarrow> backlog_config \<Rightarrow> (nat \<Rightarrow> i64) \<Rightarrow> nat \<Rightarrow> 's \<Rightarrow> 'q
    \<Rightarrow> 'oid weighted_order list \<Rightarrow> ('s \<times> 'q \<times> 'oid weighted_order list) panics" where
  "revisit_loop E conf now k store pq [] = Some (store, pq, [])"
| "revisit_loop E conf now k store pq (ord # rest) =
     (let el = elapsed_secs (now k) (wo_timestamp ord)
      in if order_exec_time conf < el then
           (if el \<le> order_lifespan conf then
              (case bs_get (be_store E) store (wo_order_id ord) of
                 None \<Rightarrow> None
               | Some (Some bo) \<Rightarrow> revisit_loop E conf now (Suc k) store
                   (pq_push (be_pq E) pq (weighted_of_backlog E bo) (be_weight E (bo_order bo))) rest
               | Some None \<Rightarrow> revisit_loop E conf now (Suc k) store pq rest)
            else revisit_loop E conf now (Suc k) (bs_remove (be_store E) store (wo_order_id ord)) pq rest)
         else Some (store, pq, ord # rest))"

definition revisit_progressing_orders :: "('o, 'oid, 's, 'q) backlog_env \<Rightarrow> (nat \<Rightarrow> i64) \<Rightarrow> ('oid, 's, 'q) backlog_service
    \<Rightarrow> ('oid, 's, 'q) backlog_service panics" where
  "revisit_progressing_orders E now b =
     map_option (\<lambda>(store, pq, rq). b \<lparr> bl_store := store, bl_pending := pq, bl_revisit := rq \<rparr>)
       (revisit_loop E (bl_conf b) now 0 (bl_store b) (bl_pending b) (bl_revisit b))"

partial_function (option) try_pop_max_order :: "('o, 'oid, 's, 'q) backlog_env \<Rightarrow> backlog_config \<Rightarrow> (nat \<Rightarrow> i64) \<Rightarrow> nat \<Rightarrow> 's \<Rightarrow> 'q
    \<Rightarrow> ('o option \<times> 's \<times> 'q) panics" where
  "try_pop_max_order E conf now k store pq = (case pq_pop (be_pq E) pq of
      None \<Rightarrow> Some (None, store, pq)
    | Some ((ord, _), pq') \<Rightarrow>
        if order_lifespan conf < elapsed_secs (now k) (wo_timestamp ord)
        then try_pop_max_order E conf now (Suc k) (bs_remove (be_store E) store (wo_order_id ord)) pq'
        else (case bs_get (be_store E) store (wo_order_id ord) of
            None \<Rightarrow> None
          | Some (Some bo) \<Rightarrow> Some (Some (bo_order bo), store, pq')
          | Some None \<Rightarrow> try_pop_max_order E conf now (Suc k) store pq'))"

fun remove_first :: "('a \<Rightarrow> bool) \<Rightarrow> 'a list \<Rightarrow> 'a list" where
  "remove_first P [] = []"
| "remove_first P (x # xs) = (if P x then xs else x # remove_first P xs)"

definition backlog_put :: "('o, 'oid, 's, 'q) backlog_env \<Rightarrow> ('oid, 's, 'q) backlog_service \<Rightarrow> 'o pending_order \<Rightarrow> ('oid, 's, 'q) backlog_service" where
  "backlog_put E b ord =
     (let oid = be_ref E (po_order ord);
          store = (if \<not> bs_exists (be_store E) (bl_store b) oid
                   then bs_put (be_store E) (bl_store b) \<lparr> bo_order = po_order ord, bo_timestamp = po_timestamp ord \<rparr>
                   else bl_store b);
          revisit = remove_first (\<lambda>wo. wo_order_id wo = oid) (bl_revisit b);
          suspended = (case find (\<lambda>wo. wo_order_id (fst wo) = oid) (pq_iter (be_pq E) (bl_suspended b)) of
             Some (element, _) \<Rightarrow> pq_remove (be_pq E) (bl_suspended b) element
           | None \<Rightarrow> bl_suspended b);
          pending = (if \<not> list_ex (\<lambda>wo. wo_order_id (fst wo) = oid) (pq_iter (be_pq E) (bl_pending b))
                     then pq_push (be_pq E) (bl_pending b) (weighted_of_pending E ord) (be_weight E (po_order ord))
                     else bl_pending b)
      in b \<lparr> bl_store := store, bl_revisit := revisit, bl_suspended := suspended, bl_pending := pending \<rparr>)"

definition backlog_suspend :: "('o, 'oid, 's, 'q) backlog_env \<Rightarrow> ('oid, 's, 'q) backlog_service \<Rightarrow> 'o \<Rightarrow> (bool \<times> ('oid, 's, 'q) backlog_service) panics" where
  "backlog_suspend E b ord =
     (if bs_exists (be_store E) (bl_store b) (be_ref E ord) then
        (case bs_get (be_store E) (bl_store b) (be_ref E ord) of
           None \<Rightarrow> None
         | Some (Some bo) \<Rightarrow> Some (True, b \<lparr> bl_suspended := pq_push (be_pq E) (bl_suspended b)
               \<lparr> wo_order_id = be_ref E ord, wo_timestamp = bo_timestamp bo \<rparr> (be_weight E ord) \<rparr>)
         | Some None \<Rightarrow> Some (False, b))
      else Some (False, b))"

definition backlog_check_later :: "('o, 'oid, 's, 'q) backlog_env \<Rightarrow> ('oid, 's, 'q) backlog_service \<Rightarrow> 'o progressing_order \<Rightarrow> bool \<times> ('oid, 's, 'q) backlog_service" where
  "backlog_check_later E b ord =
     (if bs_exists (be_store E) (bl_store b) (be_ref E (pr_order ord))
      then (True, b \<lparr> bl_revisit := bl_revisit b @ [weighted_of_progressing E ord] \<rparr>)
      else (False, b))"

definition backlog_try_pop :: "('o, 'oid, 's, 'q) backlog_env \<Rightarrow> (nat \<Rightarrow> i64) \<Rightarrow> u8 \<Rightarrow> (nat \<Rightarrow> i64) \<Rightarrow> ('oid, 's, 'q) backlog_service
    \<Rightarrow> ('o option \<times> ('oid, 's, 'q) backlog_service) panics" where
  "backlog_try_pop E now rng now' b = do {
     b \<leftarrow> revisit_progressing_orders E now b;
     if retry_suspended_prob (bl_conf b) \<le> rng
     then map_option (\<lambda>(res, store, pq). (res, b \<lparr> bl_store := store, bl_pending := pq \<rparr>))
            (try_pop_max_order E (bl_conf b) now' 0 (bl_store b) (bl_pending b))
     else map_option (\<lambda>(res, store, pq). (res, b \<lparr> bl_store := store, bl_suspended := pq \<rparr>))
            (try_pop_max_order E (bl_conf b) now' 0 (bl_store b) (bl_suspended b)) }"

definition backlog_exists :: "('o, 'oid, 's, 'q) backlog_env \<Rightarrow> ('oid, 's, 'q) backlog_service \<Rightarrow> 'oid \<Rightarrow> bool" where
  "backlog_exists E b ord_id = bs_exists (be_store E) (bl_store b) ord_id"

definition backlog_remove :: "('o, 'oid, 's, 'q) backlog_env \<Rightarrow> ('oid, 's, 'q) backlog_service \<Rightarrow> 'oid \<Rightarrow> ('oid, 's, 'q) backlog_service" where
  "backlog_remove E b ord_id = b \<lparr> bl_store := bs_remove (be_store E) (bl_store b) ord_id \<rparr>"

definition backlog_recharge :: "('o, 'oid, 's, 'q) backlog_env \<Rightarrow> ('oid, 's, 'q) backlog_service \<Rightarrow> 'o \<Rightarrow> ('oid, 's, 'q) backlog_service panics" where
  "backlog_recharge E b ord = (case bs_get (be_store E) (bl_store b) (be_ref E ord) of
      None \<Rightarrow> None
    | Some (Some bo) \<Rightarrow> Some (b \<lparr> bl_pending := pq_push (be_pq E) (bl_pending b)
          \<lparr> wo_order_id = be_ref E ord, wo_timestamp = bo_timestamp bo \<rparr> (be_weight E ord) \<rparr>)
    | Some None \<Rightarrow> Some b)"

definition backlog_find_orders :: "('o, 'oid, 's, 'q) backlog_env \<Rightarrow> ('oid, 's, 'q) backlog_service \<Rightarrow> ('o \<Rightarrow> bool) \<Rightarrow> 'o list" where
  "backlog_find_orders E b f = map bo_order (bs_find_orders (be_store E) (bl_store b) f)"

section \<open>The trait and its tracing wrapper (backlog.rs)\<close>

record ('o, 'oid, 'b) backlog_ops =
  blo_put :: "'b \<Rightarrow> 'o pending_order \<Rightarrow> 'b"
  blo_suspend :: "'b \<Rightarrow> 'o \<Rightarrow> (bool \<times> 'b) panics"
  blo_check_later :: "'b \<Rightarrow> 'o progressing_order \<Rightarrow> bool \<times> 'b"
  blo_try_pop :: "(nat \<Rightarrow> i64) \<Rightarrow> u8 \<Rightarrow> (nat \<Rightarrow> i64) \<Rightarrow> 'b \<Rightarrow> ('o option \<times> 'b) panics"
  blo_exists :: "'b \<Rightarrow> 'oid \<Rightarrow> bool"
  blo_remove :: "'b \<Rightarrow> 'oid \<Rightarrow> 'b"
  blo_recharge :: "'b \<Rightarrow> 'o \<Rightarrow> 'b panics"
  blo_find_orders :: "'b \<Rightarrow> ('o \<Rightarrow> bool) \<Rightarrow> 'o list"

definition backlog_service_ops :: "('o, 'oid, 's, 'q) backlog_env \<Rightarrow> ('o, 'oid, ('oid, 's, 'q) backlog_service) backlog_ops" where
  "backlog_service_ops E = \<lparr> blo_put = backlog_put E, blo_suspend = backlog_suspend E, blo_check_later = backlog_check_later E,
     blo_try_pop = backlog_try_pop E, blo_exists = backlog_exists E, blo_remove = backlog_remove E, blo_recharge = backlog_recharge E,
     blo_find_orders = backlog_find_orders E \<rparr>"

text \<open>\<open>BacklogTracing\<close> forwards every call; the log is not modelled.\<close>

definition backlog_tracing :: "('o, 'oid, 'b) backlog_ops \<Rightarrow> ('o, 'oid, 'b) backlog_ops" where
  "backlog_tracing inner = \<lparr> blo_put = (\<lambda>b ord. blo_put inner b ord), blo_suspend = (\<lambda>b ord. blo_suspend inner b ord),
     blo_check_later = (\<lambda>b ord. blo_check_later inner b ord), blo_try_pop = (\<lambda>now rng now' b. blo_try_pop inner now rng now' b),
     blo_exists = (\<lambda>b i. blo_exists inner b i), blo_remove = (\<lambda>b i. blo_remove inner b i), blo_recharge = (\<lambda>b ord. blo_recharge inner b ord),
     blo_find_orders = (\<lambda>b f. blo_find_orders inner b f) \<rparr>"

section \<open>Order events (process.rs)\<close>

fun backlog_stream_step :: "('o, 'oid, 's, 'q) backlog_env \<Rightarrow> ('oid, 's, 'q) backlog_service \<Rightarrow> ('o, 'oid) order_update \<Rightarrow> ('oid, 's, 'q) backlog_service" where
  "backlog_stream_step E b (NewOrder pending_order) = backlog_put E b pending_order"
| "backlog_stream_step E b (OrderEliminated elim_oid) = backlog_remove E b elim_oid"

section \<open>Interfaces\<close>

locale priority_queue =
  fixes P :: "('q, 'k) pqueue"
  assumes iter_new: "pq_iter P (pq_new P) = []"
    and iter_distinct: "distinct (map fst (pq_iter P q))"
    and iter_push: "map_of (pq_iter P (pq_push P q k w)) = (map_of (pq_iter P q))(k \<mapsto> w)"
    and pop_None: "pq_pop P q = None \<longleftrightarrow> pq_iter P q = []"
    and pop_entry: "pq_pop P q = Some ((k, w), q') \<Longrightarrow> map_of (pq_iter P q) k = Some w"
    and pop_rest: "pq_pop P q = Some ((k, w), q') \<Longrightarrow> map_of (pq_iter P q') = (map_of (pq_iter P q))(k := None)"
    and pop_max: "pq_pop P q = Some ((k, w), q') \<Longrightarrow> map_of (pq_iter P q) k' = Some w' \<Longrightarrow> w' \<le> w"
    and iter_remove: "map_of (pq_iter P (pq_remove P q k)) = (map_of (pq_iter P q))(k := None)"
begin

lemma mem_iter: "(k, w) \<in> set (pq_iter P q) \<longleftrightarrow> map_of (pq_iter P q) k = Some w"
  using iter_distinct [of q] by simp

lemma length_iter: "length (pq_iter P q) = card (dom (map_of (pq_iter P q)))"
  using iter_distinct [of q] by (metis dom_map_of_conv_image_fst distinct_card length_map list.set_map)

lemma pop_length:
  assumes "pq_pop P q = Some ((k, w), q')"
  shows "length (pq_iter P q') < length (pq_iter P q)"
proof -
  have "dom (map_of (pq_iter P q')) = dom (map_of (pq_iter P q)) - {k}" using pop_rest [OF assms] by auto
  moreover have "k \<in> dom (map_of (pq_iter P q))" using pop_entry [OF assms] by blast
  ultimately show ?thesis by (simp add: length_iter card_Diff1_less finite_dom_map_of del: card_Diff_insert)
qed

end

locale backlog_store =
  fixes B :: "('s, 'oid, 'o) bstore" and oref :: "'o \<Rightarrow> 'oid" and content :: "'s \<Rightarrow> 'oid \<Rightarrow> 'o backlog_order option" and ok :: "'s \<Rightarrow> bool"
  assumes get_ok: "ok s \<Longrightarrow> bs_get B s i = Some (content s i)"
    and exists_iff: "ok s \<Longrightarrow> bs_exists B s i \<longleftrightarrow> content s i \<noteq> None"
    and put_content: "ok s \<Longrightarrow> content (bs_put B s bo) = (content s)(oref (bo_order bo) \<mapsto> bo)"
    and put_ok: "ok s \<Longrightarrow> ok (bs_put B s bo)"
    and remove_content: "ok s \<Longrightarrow> content (bs_remove B s i) = (content s)(i := None)"
    and remove_ok: "ok s \<Longrightarrow> ok (bs_remove B s i)"
    and find_content: "ok s \<Longrightarrow> set (bs_find_orders B s f) = {bo. f (bo_order bo) \<and> (\<exists>i. content s i = Some bo)}"
    and content_ref: "ok s \<Longrightarrow> content s i = Some bo \<Longrightarrow> oref (bo_order bo) = i"

definition pq_ids :: "('q, 'oid weighted_order) pqueue \<Rightarrow> 'q \<Rightarrow> 'oid set" where
  "pq_ids P q = wo_order_id ` fst ` set (pq_iter P q)"

text \<open>
  What popping does, on the content of the store: \<open>c'\<close> after it is part of \<open>c\<close>, no stored order of the
  queue disappears from it except the one returned, nothing is returned only when the queue has
  been emptied, and a returned order is stored, was not expired when the loop looked at it, and
  whatever has a greater weight in the queue is no longer stored.
\<close>

definition pop_outcome :: "('o, 'oid, 's, 'q) backlog_env \<Rightarrow> backlog_config \<Rightarrow> (nat \<Rightarrow> i64) \<Rightarrow> ('oid \<Rightarrow> 'o backlog_order option)
    \<Rightarrow> 'q \<Rightarrow> 'o option \<times> ('oid \<Rightarrow> 'o backlog_order option) \<times> 'q \<Rightarrow> bool" where
  "pop_outcome E conf now c q = (\<lambda>(res, c', q').
     c' \<subseteq>\<^sub>m c \<and> pq_ids (be_pq E) q' \<subseteq> pq_ids (be_pq E) q \<and>
     pq_ids (be_pq E) q \<inter> dom c' \<subseteq> pq_ids (be_pq E) q' \<union> be_ref E ` set_option res \<and>
     (res = None \<longrightarrow> pq_ids (be_pq E) q' = {}) \<and>
     (\<forall>x. res = Some x \<longrightarrow> (\<exists>bo wo w j. c' (be_ref E x) = Some bo \<and> bo_order bo = x \<and>
        wo_order_id wo = be_ref E x \<and> (wo, w) \<in> set (pq_iter (be_pq E) q) \<and>
        elapsed_secs (now j) (wo_timestamp wo) \<le> order_lifespan conf \<and>
        (\<forall>wo' w'. (wo', w') \<in> set (pq_iter (be_pq E) q) \<longrightarrow> w < w' \<longrightarrow> c' (wo_order_id wo') = None))))"

locale backlog = priority_queue "be_pq E" + backlog_store "be_store E" "be_ref E" content ok
  for E :: "('o, 'oid, 's, 'q) backlog_env" and content ok
begin

lemma ids_eq: "pq_ids (be_pq E) q = wo_order_id ` dom (map_of (pq_iter (be_pq E) q))"
  by (simp add: pq_ids_def dom_map_of_conv_image_fst image_image)

lemma ids_push [simp]: "pq_ids (be_pq E) (pq_push (be_pq E) q k w) = insert (wo_order_id k) (pq_ids (be_pq E) q)"
  by (auto simp: ids_eq iter_push)

lemma ids_new [simp]: "pq_ids (be_pq E) (pq_new (be_pq E)) = {}"
  by (simp add: pq_ids_def iter_new)

lemma ids_pop:
  "pq_pop (be_pq E) q = Some ((k, w), q') \<Longrightarrow> insert (wo_order_id k) (pq_ids (be_pq E) q') = pq_ids (be_pq E) q"
  using pop_entry [of q k w q'] by (auto simp: ids_eq pop_rest)

text \<open>The loop of \<open>try_pop_max_order\<close>, by induction on the number of entries.\<close>

lemma pop_outcome_skip:
  assumes pop: "pq_pop (be_pq E) q = Some ((wo, w), q')" and gone: "c1 (wo_order_id wo) = None" "c1 \<subseteq>\<^sub>m c"
    and out: "pop_outcome E conf now c1 q' (res, c', q'')"
  shows "pop_outcome E conf now c q (res, c', q'')"
proof -
  have ids: "insert (wo_order_id wo) (pq_ids (be_pq E) q') = pq_ids (be_pq E) q" using ids_pop [OF pop] .
  have sub: "c' \<subseteq>\<^sub>m c1" using out by (simp add: pop_outcome_def)
  then have gone': "c' (wo_order_id wo) = None" using gone(1) by (cases "c' (wo_order_id wo)") (auto simp: map_le_def dest: bspec)
  have sub': "c' \<subseteq>\<^sub>m c" using sub gone(2) by (rule map_le_trans)
  have rest: "(wo', w') \<in> set (pq_iter (be_pq E) q) \<longleftrightarrow> wo' = wo \<and> w' = w \<or> wo' \<noteq> wo \<and> (wo', w') \<in> set (pq_iter (be_pq E) q')" for wo' w'
    using pop_rest [OF pop] pop_entry [OF pop] by (auto simp: mem_iter)
  have rest': "(wo', w') \<in> set (pq_iter (be_pq E) q') \<Longrightarrow> wo' \<noteq> wo" for wo' w'
    using pop_rest [OF pop] by (auto simp: mem_iter)
  have live: "\<exists>bo wo w j. c' (be_ref E x) = Some bo \<and> bo_order bo = x \<and> wo_order_id wo = be_ref E x \<and>
     (wo, w) \<in> set (pq_iter (be_pq E) q) \<and> elapsed_secs (now j) (wo_timestamp wo) \<le> order_lifespan conf \<and>
     (\<forall>wo' w'. (wo', w') \<in> set (pq_iter (be_pq E) q) \<longrightarrow> w < w' \<longrightarrow> c' (wo_order_id wo') = None)" if "res = Some x" for x
  proof -
    from out that obtain bo wo1 w1 j where h: "c' (be_ref E x) = Some bo" "bo_order bo = x" "wo_order_id wo1 = be_ref E x"
      "(wo1, w1) \<in> set (pq_iter (be_pq E) q')" "elapsed_secs (now j) (wo_timestamp wo1) \<le> order_lifespan conf"
      "\<forall>wo' w'. (wo', w') \<in> set (pq_iter (be_pq E) q') \<longrightarrow> w1 < w' \<longrightarrow> c' (wo_order_id wo') = None"
      unfolding pop_outcome_def by auto
    moreover have "(wo1, w1) \<in> set (pq_iter (be_pq E) q)" using rest rest' h(4) by blast
    moreover have "\<forall>wo' w'. (wo', w') \<in> set (pq_iter (be_pq E) q) \<longrightarrow> w1 < w' \<longrightarrow> c' (wo_order_id wo') = None"
      using h(6) gone' by (simp add: rest) blast
    ultimately show ?thesis by blast
  qed
  have parts: "pq_ids (be_pq E) q'' \<subseteq> pq_ids (be_pq E) q'"
    "pq_ids (be_pq E) q' \<inter> dom c' \<subseteq> pq_ids (be_pq E) q'' \<union> be_ref E ` set_option res" "res = None \<longrightarrow> pq_ids (be_pq E) q'' = {}"
    using out unfolding pop_outcome_def by simp_all
  then have "pq_ids (be_pq E) q'' \<subseteq> pq_ids (be_pq E) q"
    "pq_ids (be_pq E) q \<inter> dom c' \<subseteq> pq_ids (be_pq E) q'' \<union> be_ref E ` set_option res"
    using gone' unfolding ids [symmetric] by auto
  then show ?thesis using parts(3) sub' live unfolding pop_outcome_def by simp
qed

lemma pop_outcome_hit:
  assumes pop: "pq_pop (be_pq E) q = Some ((wo, w), q')" and "c (wo_order_id wo) = Some bo" "be_ref E (bo_order bo) = wo_order_id wo"
    and "elapsed_secs (now k) (wo_timestamp wo) \<le> order_lifespan conf"
  shows "pop_outcome E conf now c q (Some (bo_order bo), c, q')"
proof -
  have "(wo, w) \<in> set (pq_iter (be_pq E) q)" using pop_entry [OF pop] mem_iter by blast
  moreover have "\<forall>wo' w'. (wo', w') \<in> set (pq_iter (be_pq E) q) \<longrightarrow> \<not> w < w'"
    using pop_max [OF pop] mem_iter by (metis linorder_not_le)
  ultimately show ?thesis using assms ids_pop [OF pop] unfolding pop_outcome_def by auto
qed

lemma try_pop_max_order_ends:
  assumes "ok store"
  shows "\<exists>res store' q'. try_pop_max_order E conf now k store q = Some (res, store', q') \<and> ok store' \<and>
    pop_outcome E conf now (content store) q (res, content store', q')"
  using assms
proof (induction "length (pq_iter (be_pq E) q)" arbitrary: q store k rule: less_induct)
  case less
  show ?case
  proof (cases "pq_pop (be_pq E) q")
    case None
    then have "pq_iter (be_pq E) q = []" by (simp add: pop_None)
    then show ?thesis using None less.prems by (subst try_pop_max_order.simps) (simp add: pop_outcome_def pq_ids_def)
  next
    case (Some r)
    then obtain wo w q' where pop: "pq_pop (be_pq E) q = Some ((wo, w), q')" by (cases r) auto
    have IH: "ok s \<Longrightarrow> content s (wo_order_id wo) = None \<Longrightarrow> content s \<subseteq>\<^sub>m content store \<Longrightarrow>
      \<exists>res store' q''. try_pop_max_order E conf now (Suc k) s q' = Some (res, store', q'') \<and> ok store' \<and>
        pop_outcome E conf now (content store) q (res, content store', q'')" for s
      using less.hyps [OF pop_length [OF pop], of s "Suc k"] pop_outcome_skip [OF pop] by blast
    have gone: "content (bs_remove (be_store E) store (wo_order_id wo)) (wo_order_id wo) = None"
      "content (bs_remove (be_store E) store (wo_order_id wo)) \<subseteq>\<^sub>m content store"
      using remove_content [OF less.prems] by (simp_all add: map_le_def)
    show ?thesis
    proof (cases "order_lifespan conf < elapsed_secs (now k) (wo_timestamp wo)")
      case True
      then show ?thesis
        using IH [OF remove_ok [OF less.prems] gone] pop by (subst try_pop_max_order.simps) simp
    next
      case False
      then show ?thesis
      proof (cases "content store (wo_order_id wo)")
        case None
        then show ?thesis using False IH [OF less.prems None] pop get_ok [OF less.prems]
          by (subst try_pop_max_order.simps) simp
      next
        case (Some bo)
        then show ?thesis
          using False pop get_ok [OF less.prems] less.prems content_ref [OF less.prems Some]
            pop_outcome_hit [OF pop, where c = "content store" and bo = bo and now = now and k = k and conf = conf]
          by (subst try_pop_max_order.simps) simp
      qed
    qed
  qed
qed

end

section \<open>No stored order is lost\<close>

definition revisit_ids :: "'oid weighted_order list \<Rightarrow> 'oid set" where
  "revisit_ids rq = wo_order_id ` set rq"

definition tracked :: "('o, 'oid, 's, 'q) backlog_env \<Rightarrow> ('oid, 's, 'q) backlog_service \<Rightarrow> 'oid set" where
  "tracked E b = pq_ids (be_pq E) (bl_pending b) \<union> pq_ids (be_pq E) (bl_suspended b) \<union> revisit_ids (bl_revisit b)"

text \<open>
  The life of a service: it starts from a store, receives order events, hands out orders and gets
  them back.  The second component holds the orders that have been handed out.
\<close>

inductive backlog_reach :: "('o, 'oid, 's, 'q) backlog_env \<Rightarrow> 's \<Rightarrow> backlog_config \<Rightarrow> ('oid, 's, 'q) backlog_service \<times> 'oid set \<Rightarrow> bool"
  for E s0 conf where
  start: "backlog_reach E s0 conf (backlog_new E s0 conf, {})"
| event: "backlog_reach E s0 conf (b, fl) \<Longrightarrow> backlog_reach E s0 conf (backlog_stream_step E b upd, fl)"
| pop: "backlog_reach E s0 conf (b, fl) \<Longrightarrow> backlog_try_pop E now rng now' b = Some (res, b') \<Longrightarrow>
    backlog_reach E s0 conf (b', fl \<union> be_ref E ` set_option res)"
| suspend: "backlog_reach E s0 conf (b, fl) \<Longrightarrow> backlog_suspend E b ord = Some (r, b') \<Longrightarrow>
    backlog_reach E s0 conf (b', fl - {be_ref E ord})"
| recharge: "backlog_reach E s0 conf (b, fl) \<Longrightarrow> backlog_recharge E b ord = Some b' \<Longrightarrow>
    backlog_reach E s0 conf (b', fl - {be_ref E ord})"
| check_later: "backlog_reach E s0 conf (b, fl) \<Longrightarrow> backlog_check_later E b pr = (r, b') \<Longrightarrow>
    backlog_reach E s0 conf (b', fl - {be_ref E (pr_order pr)})"
| discard: "backlog_reach E s0 conf (b, fl) \<Longrightarrow> backlog_reach E s0 conf (backlog_remove E b oid, fl - {oid})"

lemma remove_first_ids: "revisit_ids rq \<subseteq> insert i (revisit_ids (remove_first (\<lambda>wo. wo_order_id wo = i) rq))"
  by (induction rq) (auto simp: revisit_ids_def)

context backlog
begin

lemma revisit_loop_ends:
  assumes "ok store"
  shows "\<exists>store' pq' rq'. revisit_loop E conf now k store pq rq = Some (store', pq', rq') \<and> ok store' \<and>
    content store' \<subseteq>\<^sub>m content store \<and>
    (pq_ids (be_pq E) pq \<union> revisit_ids rq) \<inter> dom (content store') \<subseteq> pq_ids (be_pq E) pq' \<union> revisit_ids rq'"
  using assms
proof (induction rq arbitrary: store pq k)
  case (Cons wo rest)
  consider (soon) "elapsed_secs (now k) (wo_timestamp wo) \<le> order_exec_time conf"
    | (late) "order_exec_time conf < elapsed_secs (now k) (wo_timestamp wo)" "order_lifespan conf < elapsed_secs (now k) (wo_timestamp wo)"
    | (due) "order_exec_time conf < elapsed_secs (now k) (wo_timestamp wo)" "elapsed_secs (now k) (wo_timestamp wo) \<le> order_lifespan conf"
    by linarith
  then show ?case
  proof cases
    case soon
    then show ?thesis using Cons.prems by auto
  next
    case late
    let ?s = "bs_remove (be_store E) store (wo_order_id wo)"
    have c: "content ?s = (content store)(wo_order_id wo := None)" using remove_content [OF Cons.prems] .
    obtain store' pq' rq' where ih: "revisit_loop E conf now (Suc k) ?s pq rest = Some (store', pq', rq')" "ok store'"
      "content store' \<subseteq>\<^sub>m content ?s" "(pq_ids (be_pq E) pq \<union> revisit_ids rest) \<inter> dom (content store') \<subseteq> pq_ids (be_pq E) pq' \<union> revisit_ids rq'"
      using Cons.IH [OF remove_ok [OF Cons.prems]] by blast
    have "wo_order_id wo \<notin> dom (content store')" using map_le_None [OF ih(3)] c by auto
    moreover have "content store' \<subseteq>\<^sub>m content store" using ih(3) unfolding c by (rule map_le_trans) (simp add: map_le_def)
    ultimately show ?thesis using late ih by (auto simp: revisit_ids_def)
  next
    case due
    show ?thesis
    proof (cases "content store (wo_order_id wo)")
      case None
      obtain store' pq' rq' where ih: "revisit_loop E conf now (Suc k) store pq rest = Some (store', pq', rq')" "ok store'"
        "content store' \<subseteq>\<^sub>m content store" "(pq_ids (be_pq E) pq \<union> revisit_ids rest) \<inter> dom (content store') \<subseteq> pq_ids (be_pq E) pq' \<union> revisit_ids rq'"
        using Cons.IH [OF Cons.prems] by blast
      have "wo_order_id wo \<notin> dom (content store')" using map_le_None [OF ih(3) None] by auto
      then show ?thesis using due ih None get_ok [OF Cons.prems] by (auto simp: revisit_ids_def)
    next
      case (Some bo)
      let ?q = "pq_push (be_pq E) pq (weighted_of_backlog E bo) (be_weight E (bo_order bo))"
      have "wo_order_id (weighted_of_backlog E bo) = wo_order_id wo"
        using content_ref [OF Cons.prems Some] by (simp add: weighted_of_backlog_def)
      then show ?thesis
        using due Some get_ok [OF Cons.prems] Cons.IH [OF Cons.prems, of "Suc k" ?q] by (auto simp: revisit_ids_def)
    qed
  qed
qed simp

lemma try_pop_ends:
  assumes "ok (bl_store b)"
  shows "\<exists>res b'. backlog_try_pop E now rng now' b = Some (res, b') \<and> ok (bl_store b') \<and>
    content (bl_store b') \<subseteq>\<^sub>m content (bl_store b) \<and>
    tracked E b \<inter> dom (content (bl_store b')) \<subseteq> tracked E b' \<union> be_ref E ` set_option res \<and>
    be_ref E ` set_option res \<subseteq> dom (content (bl_store b'))"
proof -
  obtain s1 q1 r1 where rv: "revisit_loop E (bl_conf b) now 0 (bl_store b) (bl_pending b) (bl_revisit b) = Some (s1, q1, r1)"
    "ok s1" "content s1 \<subseteq>\<^sub>m content (bl_store b)"
    "(pq_ids (be_pq E) (bl_pending b) \<union> revisit_ids (bl_revisit b)) \<inter> dom (content s1) \<subseteq> pq_ids (be_pq E) q1 \<union> revisit_ids r1"
    using revisit_loop_ends [OF assms] by blast
  let ?q = "if retry_suspended_prob (bl_conf b) \<le> rng then q1 else bl_suspended b"
  obtain res s2 q2 where p: "try_pop_max_order E (bl_conf b) now' 0 s1 ?q = Some (res, s2, q2)" "ok s2"
    "pop_outcome E (bl_conf b) now' (content s1) ?q (res, content s2, q2)"
    using try_pop_max_order_ends [OF rv(2)] by blast
  then have o: "content s2 \<subseteq>\<^sub>m content s1"
    "pq_ids (be_pq E) ?q \<inter> dom (content s2) \<subseteq> pq_ids (be_pq E) q2 \<union> be_ref E ` set_option res"
    "be_ref E ` set_option res \<subseteq> dom (content s2)"
    by (auto simp: pop_outcome_def)
  have sub: "content s2 \<subseteq>\<^sub>m content (bl_store b)" using o(1) rv(3) by (rule map_le_trans)
  have "dom (content s2) \<subseteq> dom (content s1)" using o(1) by (rule map_le_implies_dom_le)
  then show ?thesis using rv p o sub by (cases "retry_suspended_prob (bl_conf b) \<le> rng")
    (auto simp: backlog_try_pop_def revisit_progressing_orders_def tracked_def)
qed

lemma ids_remove: "pq_ids (be_pq E) q \<subseteq> insert (wo_order_id k) (pq_ids (be_pq E) (pq_remove (be_pq E) q k))"
  by (auto simp: ids_eq iter_remove)

lemma put_pending: "pq_ids (be_pq E) (bl_pending (backlog_put E b ord)) = insert (be_ref E (po_order ord)) (pq_ids (be_pq E) (bl_pending b))"
  by (auto simp: backlog_put_def Let_def list_ex_iff weighted_of_pending_def) (force simp: pq_ids_def)

lemma put_tracked:
  assumes "ok (bl_store b)"
  shows "ok (bl_store (backlog_put E b ord))" "be_ref E (po_order ord) \<in> pq_ids (be_pq E) (bl_pending (backlog_put E b ord))"
    "tracked E b \<subseteq> tracked E (backlog_put E b ord)"
    "content (bl_store (backlog_put E b ord)) = (if content (bl_store b) (be_ref E (po_order ord)) = None
       then (content (bl_store b))(be_ref E (po_order ord) \<mapsto> \<lparr> bo_order = po_order ord, bo_timestamp = po_timestamp ord \<rparr>)
       else content (bl_store b))"
proof -
  let ?i = "be_ref E (po_order ord)" and ?b = "backlog_put E b ord"
  show "ok (bl_store ?b)" using assms put_ok by (simp add: backlog_put_def Let_def)
  note pend = put_pending [of b ord]
  then show "?i \<in> pq_ids (be_pq E) (bl_pending ?b)" by simp
  have "pq_ids (be_pq E) (bl_suspended b) \<subseteq> insert ?i (pq_ids (be_pq E) (bl_suspended ?b))"
  proof (cases "find (\<lambda>wo. wo_order_id (fst wo) = ?i) (pq_iter (be_pq E) (bl_suspended b))")
    case None
    then show ?thesis by (auto simp: backlog_put_def Let_def)
  next
    case (Some e)
    then have "wo_order_id (fst e) = ?i" by (auto simp: find_Some_iff)
    then show ?thesis using Some ids_remove [of "bl_suspended b" "fst e"]
      by (cases e) (simp add: backlog_put_def Let_def)
  qed
  moreover have "revisit_ids (bl_revisit b) \<subseteq> insert ?i (revisit_ids (bl_revisit ?b))"
    using remove_first_ids by (simp add: backlog_put_def Let_def)
  ultimately show "tracked E b \<subseteq> tracked E ?b" using pend by (auto simp: tracked_def)
  show "content (bl_store ?b) = (if content (bl_store b) ?i = None
      then (content (bl_store b))(?i \<mapsto> \<lparr> bo_order = po_order ord, bo_timestamp = po_timestamp ord \<rparr>) else content (bl_store b))"
    using exists_iff [OF assms] put_content [OF assms] by (auto simp: backlog_put_def Let_def)
qed

lemma new_tracked:
  assumes "ok s"
  shows "dom (content s) \<subseteq> tracked E (backlog_new E s conf)" "bl_store (backlog_new E s conf) = s"
proof -
  let ?push = "\<lambda>ord q. pq_push (be_pq E) q (weighted_of_backlog E ord) (be_weight E (bo_order ord))"
  have fold: "pq_ids (be_pq E) (fold ?push bos q) = pq_ids (be_pq E) q \<union> (be_ref E \<circ> bo_order) ` set bos" for bos q
    by (induction bos arbitrary: q) (auto simp: weighted_of_backlog_def)
  show "dom (content s) \<subseteq> tracked E (backlog_new E s conf)"
  proof
    fix i assume "i \<in> dom (content s)"
    then obtain bo where bo: "content s i = Some bo" by blast
    then have "bo \<in> set (bs_find_orders (be_store E) s (\<lambda>_. True))" using find_content [OF assms] by auto
    moreover have "be_ref E (bo_order bo) = i" using content_ref [OF assms bo] .
    ultimately show "i \<in> tracked E (backlog_new E s conf)" by (force simp: tracked_def backlog_new_def fold)
  qed
qed (simp add: backlog_new_def)

lemma remove_dom: "ok s \<Longrightarrow> dom (content (bs_remove (be_store E) s i)) = dom (content s) - {i}"
  by (simp add: remove_content)

lemma reach_tracked:
  assumes "ok s0" "backlog_reach E s0 conf st"
  shows "ok (bl_store (fst st)) \<and> dom (content (bl_store (fst st))) \<subseteq> tracked E (fst st) \<union> snd st"
  using assms(2)
proof (induction rule: backlog_reach.induct)
  case start
  then show ?case using new_tracked [OF assms(1)] assms(1) by simp
next
  case (event b fl upd)
  then have okb: "ok (bl_store b)" and sub: "dom (content (bl_store b)) \<subseteq> tracked E b \<union> fl" by simp_all
  show ?case
  proof (cases upd)
    case (NewOrder po)
    have "be_ref E (po_order po) \<in> tracked E (backlog_put E b po)" using put_tracked(2) [OF okb] by (simp add: tracked_def)
    then show ?thesis using NewOrder put_tracked(1,3,4) [OF okb, of po] sub by (auto split: if_splits)
  next
    case (OrderEliminated i)
    then show ?thesis using sub remove_ok [OF okb] remove_dom [OF okb, of i] by (simp add: backlog_remove_def tracked_def) blast
  qed
next
  case (pop b fl now rng now' res b')
  then have "ok (bl_store b')" "content (bl_store b') \<subseteq>\<^sub>m content (bl_store b)"
    "tracked E b \<inter> dom (content (bl_store b')) \<subseteq> tracked E b' \<union> be_ref E ` set_option res"
    using try_pop_ends [of b now rng now'] by auto
  moreover from this have "dom (content (bl_store b')) \<subseteq> dom (content (bl_store b))" by (intro map_le_implies_dom_le)
  moreover have "dom (content (bl_store b)) \<subseteq> tracked E b \<union> fl" using pop by simp
  ultimately show ?case unfolding fst_conv snd_conv by blast
next
  case (suspend b fl ord r b')
  then show ?case
    using get_ok [of "bl_store b" "be_ref E ord"] exists_iff [of "bl_store b" "be_ref E ord"]
    by (auto simp: backlog_suspend_def tracked_def dest: subsetD [OF _ domI] split: if_splits option.splits)
next
  case (recharge b fl ord b')
  then show ?case
    using get_ok [of "bl_store b" "be_ref E ord"]
    by (auto simp: backlog_recharge_def tracked_def dest: subsetD [OF _ domI] split: option.splits)
next
  case (check_later b fl pr r b')
  then show ?case
    using exists_iff [of "bl_store b" "be_ref E (pr_order pr)"]
    by (auto simp: backlog_check_later_def tracked_def revisit_ids_def weighted_of_progressing_def dest: subsetD [OF _ domI] split: if_splits)
next
  case (discard b fl oid)
  then show ?case using remove_ok remove_dom [of "bl_store b" oid] by (simp add: backlog_remove_def tracked_def) blast
qed

end

section \<open>Instances\<close>

text \<open>\<open>BacklogStoreRocksDB\<close> implements the contract of the store on every database and codecs that keep theirs.\<close>

definition rocks_content :: "'db rocksdb \<Rightarrow> 'oid codec \<Rightarrow> 'o backlog_order codec \<Rightarrow> 'db \<Rightarrow> 'oid \<Rightarrow> 'o backlog_order option" where
  "rocks_content R ci co db i = Option.bind (db_get R db (ser ci i)) (de co)"

definition rocks_ok :: "'db rocksdb \<Rightarrow> 'oid codec \<Rightarrow> 'o backlog_order codec \<Rightarrow> ('o \<Rightarrow> 'oid) \<Rightarrow> 'db \<Rightarrow> bool" where
  "rocks_ok R ci co oref db \<longleftrightarrow>
     (\<forall>k v. db_get R db k = Some v \<longrightarrow> (\<exists>bo. de co v = Some bo \<and> k = ser ci (oref (bo_order bo))))"

locale rocks_backlog = rocksdb_laws R + ci: codec_laws ci + co: codec_laws co
  for R :: "'db rocksdb" and ci :: "'oid codec" and co :: "'o backlog_order codec" +
  fixes oref :: "'o \<Rightarrow> 'oid"

sublocale rocks_backlog \<subseteq> backlog_store "backlog_store_rocksdb R ci co oref" oref "rocks_content R ci co" "rocks_ok R ci co oref"
proof
  fix s i bo f
  assume ok: "rocks_ok R ci co oref s"
  note defs = backlog_store_rocksdb_def rocks_content_def rocks_ok_def
  show "bs_get (backlog_store_rocksdb R ci co oref) s i = Some (rocks_content R ci co s i)"
    using ok by (cases "db_get R s (ser ci i)") (fastforce simp: defs store_get_def)+
  show "bs_exists (backlog_store_rocksdb R ci co oref) s i \<longleftrightarrow> rocks_content R ci co s i \<noteq> None"
    using ok by (cases "db_get R s (ser ci i)") (auto simp: defs store_exists_def)
  show "rocks_content R ci co (bs_put (backlog_store_rocksdb R ci co oref) s bo) = (rocks_content R ci co s)(oref (bo_order bo) \<mapsto> bo)"
    by (simp add: defs store_put_def get_put co.de_ser fun_eq_iff)
  show "rocks_ok R ci co oref (bs_put (backlog_store_rocksdb R ci co oref) s bo)"
    using ok by (auto simp: defs store_put_def get_put co.de_ser)
  show "rocks_content R ci co (bs_remove (backlog_store_rocksdb R ci co oref) s i) = (rocks_content R ci co s)(i := None)"
    by (simp add: defs store_remove_def get_delete fun_eq_iff)
  show "rocks_ok R ci co oref (bs_remove (backlog_store_rocksdb R ci co oref) s i)"
    using ok by (simp add: defs store_remove_def get_delete)
  show "rocks_content R ci co s i = Some bo \<Longrightarrow> oref (bo_order bo) = i"
    using ok by (force simp: defs bind_eq_Some_conv)
  have "bo \<in> set (bs_find_orders (backlog_store_rocksdb R ci co oref) s f) \<longleftrightarrow>
      f (bo_order bo) \<and> (\<exists>i. rocks_content R ci co s i = Some bo)" for bo
  proof -
    have "bo \<in> set (bs_find_orders (backlog_store_rocksdb R ci co oref) s f) \<longleftrightarrow>
        f (bo_order bo) \<and> (\<exists>k v. db_get R s k = Some v \<and> de co v = Some bo)"
    proof -
      have sel: "(case de co v of Some b \<Rightarrow> if f (bo_order b) then Some b else None | None \<Rightarrow> None) = Some bo \<longleftrightarrow>
          de co v = Some bo \<and> f (bo_order bo)" for v
        by (cases "de co v") auto
      show ?thesis
        unfolding backlog_store_rocksdb_def bstore.select_convs store_find_orders_def mem_map_filter
        by (simp add: Bex_def scan_entries sel) blast
    qed
    also have "\<dots> \<longleftrightarrow> f (bo_order bo) \<and> (\<exists>i. rocks_content R ci co s i = Some bo)"
      using ok by (force simp: defs bind_eq_Some_conv)
    finally show ?thesis .
  qed
  then show "set (bs_find_orders (backlog_store_rocksdb R ci co oref) s f) = {bo. f (bo_order bo) \<and> (\<exists>i. rocks_content R ci co s i = Some bo)}"
    by blast
qed

text \<open>A priority queue on association lists: the latest priority of a key counts.\<close>

fun max_entry :: "('k \<times> u64) list \<Rightarrow> ('k \<times> u64) option" where
  "max_entry [] = None"
| "max_entry (e # es) = (case max_entry es of None \<Rightarrow> Some e | Some f \<Rightarrow> if snd f \<le> snd e then Some e else Some f)"

definition list_pq :: "(('k \<times> u64) list, 'k) pqueue" where
  "list_pq = \<lparr> pq_new = [], pq_push = (\<lambda>q k w. (k, w) # q),
     pq_pop = (\<lambda>q. map_option (\<lambda>e. (e, AList.delete (fst e) q)) (max_entry (AList.clearjunk q))),
     pq_remove = (\<lambda>q k. AList.delete k q), pq_iter = AList.clearjunk \<rparr>"

lemma max_entry_None: "max_entry es = None \<longleftrightarrow> es = []"
  by (cases es) (auto split: option.splits)

lemma max_entry_Some: "max_entry es = Some e \<Longrightarrow> e \<in> set es \<and> (\<forall>f \<in> set es. snd f \<le> snd e)"
  by (induction es arbitrary: e) (fastforce simp: max_entry_None split: option.splits if_splits)+

interpretation list_pq: priority_queue list_pq
proof
  fix q q' :: "('k \<times> u64) list" and k k' w w'
  show "pq_iter list_pq (pq_new list_pq) = []" "distinct (map fst (pq_iter list_pq q))"
    "map_of (pq_iter list_pq (pq_push list_pq q k w)) = (map_of (pq_iter list_pq q))(k \<mapsto> w)"
    "pq_pop list_pq q = None \<longleftrightarrow> pq_iter list_pq q = []"
    "map_of (pq_iter list_pq (pq_remove list_pq q k)) = (map_of (pq_iter list_pq q))(k := None)"
    by (simp_all add: list_pq_def map_of_clearjunk max_entry_None delete_conv')
  assume pop: "pq_pop list_pq q = Some ((k, w), q')"
  then have m: "max_entry (AList.clearjunk q) = Some (k, w)" "q' = AList.delete k q" by (auto simp: list_pq_def)
  then show "map_of (pq_iter list_pq q) k = Some w"
    using max_entry_Some [OF m(1)] distinct_clearjunk [of q] by (simp add: list_pq_def)
  show "map_of (pq_iter list_pq q') = (map_of (pq_iter list_pq q))(k := None)"
    using m by (simp add: list_pq_def map_of_clearjunk delete_conv')
  show "map_of (pq_iter list_pq q) k' = Some w' \<Longrightarrow> w' \<le> w"
    using max_entry_Some [OF m(1)] by (auto simp: list_pq_def dest: map_of_SomeD)
qed

text \<open>The order of the repository's tests (an identifier and a weight), on these two.\<close>

definition mock_order_codec :: "(digest32 \<times> u64) backlog_order codec" where
  "mock_order_codec = \<lparr> ser = (\<lambda>bo. to_be_bytes 32 (fst (bo_order bo)) @ to_be_bytes 8 (snd (bo_order bo)) @ to_be_bytes 8 (bo_timestamp bo)),
     de = (\<lambda>bs. if length bs = 48 then Some \<lparr> bo_order = (from_be_bytes (take 32 bs), from_be_bytes (take 8 (drop 32 bs))),
       bo_timestamp = from_be_bytes (drop 40 bs) \<rparr> else None) \<rparr>"

interpretation mock_order: codec_laws mock_order_codec
  by unfold_locales (simp add: mock_order_codec_def codec_simps)

definition mock_env :: "(digest32 \<times> u64, digest32, mem_db, (digest32 weighted_order \<times> u64) list) backlog_env" where
  "mock_env = \<lparr> be_store = backlog_store_rocksdb mem_rocksdb digest_codec mock_order_codec fst, be_pq = list_pq, be_ref = fst, be_weight = snd \<rparr>"

interpretation mock_store: rocks_backlog mem_rocksdb digest_codec mock_order_codec fst
  by (intro rocks_backlog.intro mem.rocksdb_laws_axioms digest.codec_laws_axioms mock_order.codec_laws_axioms)

abbreviation "mock_content \<equiv> rocks_content mem_rocksdb digest_codec mock_order_codec"
abbreviation "mock_ok \<equiv> rocks_ok mem_rocksdb digest_codec mock_order_codec fst"

interpretation mock: backlog mock_env mock_content mock_ok
  by (intro backlog.intro) (simp_all add: mock_env_def list_pq.priority_queue_axioms mock_store.backlog_store_axioms)

lemma mock_empty: "mock_ok RBT.empty" "mock_content RBT.empty i = None"
  by (simp_all add: rocks_ok_def rocks_content_def mem_rocksdb_def)

section \<open>Properties\<close>

text \<open>C10: No stored order is ever lost.  Through any life of the service (start from a store, order
  events, pops, suspensions, recharges, later checks), an order that exists in the store is
  pending, suspended or to be revisited, unless it has been handed out and not been given back.\<close>

theorem no_order_lost:
  assumes "backlog E content ok" "ok s0" "backlog_reach E s0 conf (b, fl)" "backlog_exists E b i"
  shows "i \<in> tracked E b \<union> fl"
proof -
  have "ok (bl_store b)" "dom (content (bl_store b)) \<subseteq> tracked E b \<union> fl"
    using backlog.reach_tracked [OF assms(1-3)] by simp_all
  moreover have "content (bl_store b) i \<noteq> None"
    using assms(4) calculation(1) backlog_store.exists_iff [OF backlog.axioms(2) [OF assms(1)]] by (simp add: backlog_exists_def)
  ultimately show ?thesis by blast
qed

definition "mock_b = backlog_put mock_env (backlog_new mock_env RBT.empty \<lparr> order_lifespan = 100, order_exec_time = 10, retry_suspended_prob = 5 \<rparr>)
   \<lparr> po_order = (7, 3), po_timestamp = 50 \<rparr>"

lemma mock_b_facts: "mock_ok (bl_store mock_b)" "backlog_exists mock_env mock_b 7"
  "backlog_reach mock_env RBT.empty \<lparr> order_lifespan = 100, order_exec_time = 10, retry_suspended_prob = 5 \<rparr> (mock_b, {})"
proof -
  let ?conf = "\<lparr> order_lifespan = 100, order_exec_time = 10, retry_suspended_prob = 5 \<rparr>"
  have new: "bl_store (backlog_new mock_env RBT.empty ?conf) = RBT.empty" by (simp add: backlog_new_def)
  show ok: "mock_ok (bl_store mock_b)" unfolding mock_b_def using mock.put_tracked(1) mock_empty(1) new by metis
  have "mock_content (bl_store mock_b) 7 \<noteq> None"
    unfolding mock_b_def using mock.put_tracked(4) [of "backlog_new mock_env RBT.empty ?conf"] mock_empty new by (simp add: mock_env_def)
  then show "backlog_exists mock_env mock_b 7" using mock.exists_iff [OF ok] by (simp add: backlog_exists_def)
  show "backlog_reach mock_env RBT.empty ?conf (mock_b, {})"
    using backlog_reach.event [OF backlog_reach.start, of mock_env RBT.empty ?conf "NewOrder \<lparr> po_order = (7, 3), po_timestamp = 50 \<rparr>"]
    by (simp add: mock_b_def)
qed

theorem no_order_lost_witness: "7 \<in> tracked mock_env mock_b \<union> {}"
  using no_order_lost [OF mock.backlog_axioms mock_empty(1) mock_b_facts(3,2)] .



text \<open>Popping from the service never fails on a well-formed store, and an eliminated order is
  not handed out, whatever the queues still hold of it: elimination only touches the store.\<close>

theorem eliminated_order_not_popped:
  assumes "backlog E content ok" "ok (bl_store b)"
  shows "\<exists>res b'. backlog_try_pop E now rng now' (backlog_stream_step E b (OrderEliminated i)) = Some (res, b') \<and> i \<notin> be_ref E ` set_option res"
proof -
  have st: "backlog_store (be_store E) (be_ref E) content ok" using backlog.axioms(2) [OF assms(1)] .
  let ?b = "backlog_remove E b i"
  have ok: "ok (bl_store ?b)" using backlog_store.remove_ok [OF st assms(2)] by (simp add: backlog_remove_def)
  have gone: "content (bl_store ?b) i = None" using backlog_store.remove_content [OF st assms(2)] by (simp add: backlog_remove_def)
  obtain res b' where p: "backlog_try_pop E now rng now' ?b = Some (res, b')" "content (bl_store b') \<subseteq>\<^sub>m content (bl_store ?b)"
    "be_ref E ` set_option res \<subseteq> dom (content (bl_store b'))" using backlog.try_pop_ends [OF assms(1) ok, of now rng now'] by metis
  have "i \<notin> dom (content (bl_store b'))" using map_le_None [OF p(2) gone] by auto
  then show ?thesis using p(1,3) by auto
qed

theorem eliminated_order_not_popped_witness:
  "\<exists>res b'. backlog_try_pop mock_env (\<lambda>_. 60) 50 (\<lambda>_. 60) (backlog_stream_step mock_env mock_b (OrderEliminated 7)) = Some (res, b') \<and>
     7 \<notin> be_ref mock_env ` set_option res"
  by (rule eliminated_order_not_popped [OF mock.backlog_axioms mock_b_facts(1)])

end
