(* ===== verification/Distribution.thy ===== *)
theory Distribution
  imports Schedule Bundle_Repo Backlog Order_Data
begin

text \<open>
  The distribution of rewards, \<open>spectrum-offchain-lm/src/scheduler/process.rs\<close>: one element of
  \<open>distribution_stream\<close> looks at the next tick of the schedules and, when its height is reached, puts
  a compound order for every batch of stakers of the epoch into the backlog and defers the tick, or
  closes the epoch when no staker is left.

  The repositories are the trait records, the readings of the clock, the height of the network
  and the flag that the tip of the chain is reached are arguments.  \<open>None\<close> is a panic: the assertion in
  \<open>select\<close>, or \<open>chunks\<close> of size 0.
\<close>

definition TICK_SUSPENSION_DURATION :: i64 where "TICK_SUSPENSION_DURATION = 60 * 30"

function chunks :: "nat \<Rightarrow> 'a list \<Rightarrow> 'a list list" where
  "chunks n xs = (if n = 0 \<or> xs = [] then [] else take n xs # chunks n (drop n xs))"
  by pat_completeness auto
termination by (relation "measure (length \<circ> snd)") auto

declare chunks.simps [simp del]

record ('b, 's, 'r) distribution_state =
  ds_backlog :: 'b
  ds_schedules :: 's
  ds_bundles :: 'r

record ('b, 's, 'r) distribution_env =
  de_lib :: ergo_lib
  de_backlog :: "(order, order_id, 'b) backlog_ops"
  de_schedules :: "'s schedule_repo_ops"
  de_bundles :: "'r bundle_repo_ops"

definition compound_orders :: "tick \<Rightarrow> nat \<Rightarrow> bundle_id list \<Rightarrow> compound list" where
  "compound_orders tick batch_size stakers =
     map (\<lambda>(queue_ix, xs). \<lparr> co_pool_id = tk_pool_id tick, co_epoch_ix = tk_epoch_ix tick, co_queue_ix = word_of_nat queue_ix, co_stakers = xs \<rparr>)
       (enumerate 0 (chunks batch_size stakers))"

definition of_epoch :: "tick \<Rightarrow> order \<Rightarrow> bool" where
  "of_epoch tick ord = (case ord of
      OrdCompound c \<Rightarrow> co_epoch_ix c = tk_epoch_ix tick \<and> co_pool_id c = tk_pool_id tick
    | _ \<Rightarrow> False)"

definition close_epoch :: "('b, 's, 'r) distribution_env \<Rightarrow> i64 \<Rightarrow> tick \<Rightarrow> ('b, 's, 'r) distribution_state \<Rightarrow> ('b, 's, 'r) distribution_state" where
  "close_epoch D ts_now tick st =
     (let orders = blo_find_orders (de_backlog D) (ds_backlog st) (of_epoch tick);
          backlog = fold (\<lambda>c b. blo_remove (de_backlog D) b (order_self_ref (de_lib D) c)) orders (ds_backlog st);
          schedules = sro_defer (de_schedules D) (ds_schedules st) tick (ts_now + TICK_SUSPENSION_DURATION)
      in st \<lparr> ds_backlog := backlog, ds_schedules := sro_remove (de_schedules D) schedules tick \<rparr>)"

definition queue_batches :: "('b, 's, 'r) distribution_env \<Rightarrow> nat \<Rightarrow> i64 \<Rightarrow> tick \<Rightarrow> bundle_id list
    \<Rightarrow> ('b, 's, 'r) distribution_state \<Rightarrow> ('b, 's, 'r) distribution_state panics" where
  "queue_batches D batch_size ts_now tick stakers st =
     (if batch_size = 0 then None
      else Some (st \<lparr> ds_backlog := fold (\<lambda>c b. blo_put (de_backlog D) b \<lparr> po_order = OrdCompound c, po_timestamp = ts_now \<rparr>)
                        (compound_orders tick batch_size stakers) (ds_backlog st),
                      ds_schedules := sro_defer (de_schedules D) (ds_schedules st) tick (ts_now + TICK_SUSPENSION_DURATION) \<rparr>))"

definition distribution_step :: "('b, 's, 'r) distribution_env \<Rightarrow> nat \<Rightarrow> bool \<Rightarrow> i64 \<Rightarrow> u32 \<Rightarrow> i64
    \<Rightarrow> ('b, 's, 'r) distribution_state \<Rightarrow> ('b, 's, 'r) distribution_state panics" where
  "distribution_step D batch_size tip_reached ts_peek height_now ts_now st =
     (if tip_reached
      then (case sro_peek (de_schedules D) ts_peek (ds_schedules st) of
          Some tick \<Rightarrow>
            if tk_height tick \<le> height_now
            then do {
              stakers \<leftarrow> bro_select (de_bundles D) (ds_bundles st) (tk_pool_id tick) (tk_epoch_ix tick);
              let stakers = sort stakers;
              if stakers = [] then Some (close_epoch D ts_now tick st)
              else queue_batches D batch_size ts_now tick stakers st }
            else Some st
        | None \<Rightarrow> Some st)
      else Some st)"

section \<open>Batches\<close>

lemma concat_chunks: "0 < n \<Longrightarrow> concat (chunks n xs) = xs"
  by (induction n xs rule: chunks.induct) (subst chunks.simps, simp)

lemma chunks_sizes: "c \<in> set (chunks n xs) \<Longrightarrow> c \<noteq> [] \<and> length c \<le> n"
  by (induction n xs rule: chunks.induct) (subst (asm) chunks.simps, auto split: if_splits)

lemma compound_orders_stakers: "0 < n \<Longrightarrow> concat (map co_stakers (compound_orders tick n xs)) = xs"
  by (simp add: compound_orders_def o_def case_prod_beta concat_chunks)

lemma compound_orders_epoch:
  assumes "c \<in> set (compound_orders tick n xs)"
  shows "co_pool_id c = tk_pool_id tick \<and> co_epoch_ix c = tk_epoch_ix tick \<and> co_stakers c \<noteq> [] \<and> length (co_stakers c) \<le> n"
  using assms chunks_sizes [of _ n xs] by (auto simp: compound_orders_def in_set_enumerate_eq dest!: nth_mem)

section \<open>The stream over the backlog, the schedules and the bundles\<close>

definition distribution_over :: "ergo_lib \<Rightarrow> (order, order_id, 'st, 'q) backlog_env \<Rightarrow> 'sdb schedule_env \<Rightarrow> 'bdb bundle_env
    \<Rightarrow> ((order_id, 'st, 'q) backlog_service, 'sdb, 'bdb) distribution_env" where
  "distribution_over L E XS XB = \<lparr> de_lib = L, de_backlog = backlog_tracing (backlog_service_ops E),
     de_schedules = schedule_repo_tracing (schedule_repo_rocksdb XS), de_bundles = bundle_repo_tracing (bundle_repo_rocksdb XB) \<rparr>"

lemmas distribution_unfold = distribution_over_def backlog_tracing_def backlog_service_ops_def schedule_repo_tracing_def schedule_repo_rocksdb_def
  bundle_repo_tracing_def bundle_repo_rocksdb_def

locale distribution = backlog E content ok + schedules: schedule_repo XS + bundles: bundle_repo XB
  for E :: "(order, order_id, 'st, 'q) backlog_env" and content ok and XS :: "'sdb schedule_env" and XB :: "'bdb bundle_env" +
  fixes L :: ergo_lib
  assumes order_ref: "be_ref E = order_self_ref L"
begin

abbreviation "D \<equiv> distribution_over L E XS XB"

lemma puts_pending:
  assumes "ok (bl_store b)"
  shows "ok (bl_store (fold (\<lambda>c b. backlog_put E b (po c)) cs b)) \<and>
    (\<forall>c \<in> set cs. be_ref E (po_order (po c)) \<in> pq_ids (be_pq E) (bl_pending (fold (\<lambda>c b. backlog_put E b (po c)) cs b)) \<and>
      content (bl_store (fold (\<lambda>c b. backlog_put E b (po c)) cs b)) (be_ref E (po_order (po c))) \<noteq> None) \<and>
    pq_ids (be_pq E) (bl_pending b) \<subseteq> pq_ids (be_pq E) (bl_pending (fold (\<lambda>c b. backlog_put E b (po c)) cs b)) \<and>
    dom (content (bl_store b)) \<subseteq> dom (content (bl_store (fold (\<lambda>c b. backlog_put E b (po c)) cs b)))"
  using assms
proof (induction cs arbitrary: b)
  case (Cons c cs)
  let ?b = "backlog_put E b (po c)" and ?i = "be_ref E (po_order (po c))"
  have ok: "ok (bl_store ?b)" by (rule put_tracked(1) [OF Cons.prems])
  have pend: "pq_ids (be_pq E) (bl_pending ?b) = insert ?i (pq_ids (be_pq E) (bl_pending b))" by (rule put_pending)
  have dom: "dom (content (bl_store ?b)) = insert ?i (dom (content (bl_store b)))"
    unfolding put_tracked(4) [OF Cons.prems] by auto
  let ?B = "fold (\<lambda>c b. backlog_put E b (po c)) cs ?b"
  note ih = Cons.IH [OF ok]
  have p: "insert ?i (pq_ids (be_pq E) (bl_pending b)) \<subseteq> pq_ids (be_pq E) (bl_pending ?B)" using ih pend by simp
  have d: "insert ?i (dom (content (bl_store b))) \<subseteq> dom (content (bl_store ?B))" using ih dom by simp
  then have "content (bl_store ?B) ?i \<noteq> None" by (simp add: domIff)
  then show ?case using ih p d by simp
qed auto

lemma removes_content:
  assumes "ok (bl_store b)"
  shows "ok (bl_store (fold (\<lambda>c b. backlog_remove E b (oref c)) cs b)) \<and>
    content (bl_store (fold (\<lambda>c b. backlog_remove E b (oref c)) cs b)) = (\<lambda>i. if i \<in> oref ` set cs then None else content (bl_store b) i)"
  using assms
proof (induction cs arbitrary: b)
  case (Cons c cs)
  then show ?case
    using Cons.IH [of "backlog_remove E b (oref c)"] remove_ok [OF Cons.prems] remove_content [OF Cons.prems]
    by (auto simp: backlog_remove_def)
qed simp

lemma closed_content:
  assumes "ok (bl_store b)" "content (bl_store (fold (\<lambda>c b. backlog_remove E b (order_self_ref L c)) (backlog_find_orders E b f) b)) i = Some bo"
  shows "\<not> f (bo_order bo)"
proof
  assume f: "f (bo_order bo)"
  have c: "content (bl_store b) i = Some bo" "i \<notin> order_self_ref L ` set (backlog_find_orders E b f)"
    using removes_content [OF assms(1), of "order_self_ref L"] assms(2) by (auto split: if_splits)
  then have "bo \<in> set (bs_find_orders (be_store E) (bl_store b) f)" using find_content [OF assms(1)] f by blast
  then have "bo_order bo \<in> set (backlog_find_orders E b f)" by (simp add: backlog_find_orders_def)
  moreover have "order_self_ref L (bo_order bo) = i" using content_ref [OF assms(1) c(1)] order_ref by simp
  ultimately show False using c(2) by blast
qed

lemma distribution_outcome:
  assumes okb: "ok (bl_store (ds_backlog st))" and wf: "bundle_index_wf XB (ds_bundles st)"
    and peek: "peek XS ts_peek (ds_schedules st) = Some tick" and due: "tk_height tick \<le> height_now" and batch: "0 < batch_size"
  shows "\<exists>st' cs. distribution_step D batch_size True ts_peek height_now ts_now st = Some st' \<and> ds_bundles st' = ds_bundles st \<and>
    distinct (concat (map co_stakers cs)) \<and>
    set (concat (map co_stakers cs)) = {i. (tk_pool_id tick, tk_epoch_ix tick, i) \<in> ab_index (abs_bundles_of XB (ds_bundles st))} \<and>
    (\<forall>c \<in> set cs. co_pool_id c = tk_pool_id tick \<and> co_epoch_ix c = tk_epoch_ix tick \<and> co_stakers c \<noteq> [] \<and> length (co_stakers c) \<le> batch_size \<and>
      compound_order_id L c \<in> pq_ids (be_pq E) (bl_pending (ds_backlog st')) \<and> content (bl_store (ds_backlog st')) (compound_order_id L c) \<noteq> None) \<and>
    (cs = [] \<longrightarrow> (\<forall>i bo. content (bl_store (ds_backlog st')) i = Some bo \<longrightarrow> \<not> of_epoch tick (bo_order bo))) \<and>
    (tk_pool_id tick, tk_height tick) \<notin> as_pending (abs_schedule_of XS (ds_schedules st')) \<and>
    as_deferred (abs_schedule_of XS (ds_schedules st')) (tk_pool_id tick, tk_height tick) =
      (if cs = [] then None else Some (ts_now + TICK_SUSPENSION_DURATION))"
proof -
  obtain ids where ids: "bundle_select XB (ds_bundles st) (tk_pool_id tick) (tk_epoch_ix tick) = Some ids" "distinct ids"
    "set ids = {i. (tk_pool_id tick, tk_epoch_ix tick, i) \<in> ab_index (abs_bundles_of XB (ds_bundles st))}"
    using bundles.select_exact [OF wf] by blast
  let ?defer = "schedule_defer XS (ds_schedules st) tick (ts_now + TICK_SUSPENSION_DURATION)"
  have dfr: "abs_schedule_of XS ?defer = abs_schedule_op (OpDefer tick (ts_now + TICK_SUSPENSION_DURATION)) (abs_schedule_of XS (ds_schedules st))"
    using schedules.abs_defer by simp
  show ?thesis
  proof (cases "ids = []")
    case True
    let ?b = "fold (\<lambda>c b. backlog_remove E b (order_self_ref L c)) (backlog_find_orders E (ds_backlog st) (of_epoch tick)) (ds_backlog st)"
    have step: "distribution_step D batch_size True ts_peek height_now ts_now st =
        Some (st \<lparr> ds_backlog := ?b, ds_schedules := schedule_remove XS ?defer tick \<rparr>)"
      using peek due ids(1) True by (simp add: distribution_step_def close_epoch_def distribution_unfold Let_def)
    have "abs_schedule_of XS (schedule_remove XS ?defer tick) = abs_schedule_op (OpRemove tick) (abs_schedule_of XS ?defer)"
      using schedules.abs_remove [of tick ?defer] by simp
    moreover have "\<forall>i bo. content (bl_store ?b) i = Some bo \<longrightarrow> \<not> of_epoch tick (bo_order bo)" using closed_content [OF okb] by blast
    ultimately show ?thesis using step ids(3) True dfr by (intro exI [of _ "[]"] exI) auto
  next
    case False
    let ?cs = "compound_orders tick batch_size (sort ids)"
    let ?po = "\<lambda>c. \<lparr> po_order = OrdCompound c, po_timestamp = ts_now \<rparr>"
    let ?b = "fold (\<lambda>c b. backlog_put E b (?po c)) ?cs (ds_backlog st)"
    have ne: "sort ids \<noteq> []" using False by (metis length_0_conv length_sort)
    have step: "distribution_step D batch_size True ts_peek height_now ts_now st = Some (st \<lparr> ds_backlog := ?b, ds_schedules := ?defer \<rparr>)"
      using peek due ids(1) ne batch by (simp add: distribution_step_def queue_batches_def distribution_unfold)
    have cover: "concat (map co_stakers ?cs) = sort ids" by (rule compound_orders_stakers [OF batch])
    then have "?cs \<noteq> []" using ne by auto
    moreover have "\<forall>c \<in> set ?cs. compound_order_id L c \<in> pq_ids (be_pq E) (bl_pending ?b) \<and> content (bl_store ?b) (compound_order_id L c) \<noteq> None"
      using puts_pending [OF okb, of ?po ?cs] order_ref by simp
    ultimately show ?thesis using step cover ids(2,3) compound_orders_epoch [of _ tick batch_size "sort ids"] dfr by (intro exI [of _ ?cs] exI) auto
  qed
qed

end

section \<open>Instance\<close>

definition deposit_sd :: "deposit sd_codec" where
  "deposit_sd = iso_sd
     (\<lambda>d. (dep_order_id d, dep_pool_id d, dep_redeemer_prop d, dep_bundle_prop_hash d, dep_max_miner_fee d, dep_lq d, dep_erg_value d, dep_expected_num_epochs d))
     (\<lambda>(i, p, r, h, m, l, e, n). \<lparr> dep_order_id = i, dep_pool_id = p, dep_redeemer_prop = r, dep_bundle_prop_hash = h, dep_max_miner_fee = m,
        dep_lq = l, dep_erg_value = e, dep_expected_num_epochs = n \<rparr>)
     (pair_sd digest_sd (pair_sd digest_sd (pair_sd bytes_sd (pair_sd digest_sd (pair_sd u64_sd (pair_sd amount_sd (pair_sd u64_sd u32_sd)))))))"

definition redeem_sd :: "redeem sd_codec" where
  "redeem_sd = iso_sd
     (\<lambda>r. (red_order_id r, red_pool_id r, red_redeemer_prop r, red_bundle_key r, red_expected_lq r, red_max_miner_fee r, red_erg_value r))
     (\<lambda>(i, p, t, k, l, m, e). \<lparr> red_order_id = i, red_pool_id = p, red_redeemer_prop = t, red_bundle_key = k, red_expected_lq = l,
        red_max_miner_fee = m, red_erg_value = e \<rparr>)
     (pair_sd digest_sd (pair_sd digest_sd (pair_sd bytes_sd (pair_sd amount_sd (pair_sd amount_sd (pair_sd u64_sd u64_sd))))))"

definition compound_sd :: "compound sd_codec" where
  "compound_sd = iso_sd (\<lambda>c. (co_pool_id c, co_epoch_ix c, co_queue_ix c, co_stakers c))
     (\<lambda>(p, e, q, s). \<lparr> co_pool_id = p, co_epoch_ix = e, co_queue_ix = q, co_stakers = s \<rparr>)
     (pair_sd digest_sd (pair_sd u32_sd (pair_sd u64_sd (list_sd digest_sd))))"

definition order_sd :: "order sd_codec" where
  "order_sd = iso_sd
     (\<lambda>ord. case ord of OrdDeposit d \<Rightarrow> (Some d, None, None) | OrdRedeem r \<Rightarrow> (None, Some r, None) | OrdCompound c \<Rightarrow> (None, None, Some c))
     (\<lambda>(d, r, c). case d of Some d \<Rightarrow> OrdDeposit d | None \<Rightarrow> (case r of Some r \<Rightarrow> OrdRedeem r | None \<Rightarrow> OrdCompound (the c)))
     (pair_sd (option_sd (as_box_sd deposit_sd)) (pair_sd (option_sd (as_box_sd redeem_sd)) (option_sd compound_sd)))"

definition backlog_order_sd :: "order backlog_order sd_codec" where
  "backlog_order_sd = iso_sd (\<lambda>bo. (bo_order bo, bo_timestamp bo)) (\<lambda>(ord, ts). \<lparr> bo_order = ord, bo_timestamp = ts \<rparr>) (pair_sd order_sd u64_sd)"

lemma deposit_sd_laws: "self_delimiting deposit_sd"
  unfolding deposit_sd_def by (rule iso_sd_laws) (simp_all add: sd_laws word_sds amount_sd_laws)

lemma redeem_sd_laws: "self_delimiting redeem_sd"
  unfolding redeem_sd_def by (rule iso_sd_laws) (simp_all add: sd_laws word_sds amount_sd_laws)

lemma compound_sd_laws: "self_delimiting compound_sd"
  unfolding compound_sd_def by (rule iso_sd_laws) (simp_all add: sd_laws word_sds)

lemma order_sd_laws: "self_delimiting order_sd"
  unfolding order_sd_def
  by (rule iso_sd_laws) (simp_all add: sd_laws as_box_sd_laws deposit_sd_laws redeem_sd_laws compound_sd_laws split: order.splits)

interpretation backlog_order_bytes: self_delimiting backlog_order_sd
  unfolding backlog_order_sd_def by (rule iso_sd_laws) (simp_all add: sd_laws order_sd_laws word_sds)

definition order_env :: "(order, order_id, mem_db, (order_id weighted_order \<times> u64) list) backlog_env" where
  "order_env = \<lparr> be_store = backlog_store_rocksdb mem_rocksdb digest_codec (codec_of backlog_order_sd) (order_self_ref sample_lib), be_pq = list_pq,
     be_ref = order_self_ref sample_lib, be_weight = order_weight \<rparr>"

interpretation order_store: rocks_backlog mem_rocksdb digest_codec "codec_of backlog_order_sd" "order_self_ref sample_lib"
  by (intro rocks_backlog.intro mem.rocksdb_laws_axioms digest.codec_laws_axioms backlog_order_bytes.codec_of_laws)

abbreviation "orders_content \<equiv> rocks_content mem_rocksdb digest_codec (codec_of backlog_order_sd)"
abbreviation "orders_ok \<equiv> rocks_ok mem_rocksdb digest_codec (codec_of backlog_order_sd) (order_self_ref sample_lib)"

interpretation orders: backlog order_env orders_content orders_ok
  by (intro backlog.intro) (simp_all add: order_env_def list_pq.priority_queue_axioms order_store.backlog_store_axioms)

interpretation sample_distribution: distribution order_env orders_content orders_ok sample_schedules sample_bundles sample_lib
  by (intro distribution.intro orders.backlog_axioms sample_schedules.schedule_repo_axioms sample_bundles.bundle_repo_axioms distribution_axioms.intro)
    (simp add: order_env_def)

section \<open>Properties\<close>


definition sample_distribution_state :: "((order_id, mem_db, (order_id weighted_order \<times> u64) list) backlog_service, mem_db, mem_db) distribution_state" where
  "sample_distribution_state = \<lparr> ds_backlog = backlog_new order_env RBT.empty \<lparr> order_lifespan = 100, order_exec_time = 10, retry_suspended_prob = 5 \<rparr>,
     ds_schedules = fold (apply_schedule_op sample_schedules) [OpUpdate (schedule_1 \<lparr> ps_pool_id := 7 \<rparr>)] RBT.empty,
     ds_bundles = fold (apply_bundle_op (bundle_repo_rocksdb sample_bundles)) [BundleConfirmed (bundle_at 1 1)] RBT.empty \<rparr>"

lemma sample_distribution_facts:
  "orders_ok (bl_store (ds_backlog sample_distribution_state))" "bundle_index_wf sample_bundles (ds_bundles sample_distribution_state)"
  "ab_index (abs_bundles_of sample_bundles (ds_bundles sample_distribution_state)) = {(7, 1, 9)}"
  "peek sample_schedules 0 (ds_schedules sample_distribution_state) = Some \<lparr> tk_pool_id = 7, tk_epoch_ix = 1, tk_height = 110 \<rparr>"
proof -
  show "orders_ok (bl_store (ds_backlog sample_distribution_state))"
    by (simp add: sample_distribution_state_def backlog_new_def rocks_ok_def mem_rocksdb_def)
  show "bundle_index_wf sample_bundles (ds_bundles sample_distribution_state)"
    unfolding sample_distribution_state_def distribution_state.select_convs by (rule sample_bundles.index_wf_run [OF no_bundles(1)])
  show "ab_index (abs_bundles_of sample_bundles (ds_bundles sample_distribution_state)) = {(7, 1, 9)}"
    unfolding sample_distribution_state_def distribution_state.select_convs sample_bundles.abs_run by (auto simp: no_bundles Let_def saturating_sub_def)
  let ?sc = "schedule_1 \<lparr> ps_pool_id := 7 \<rparr>"
  define db where "db = ds_schedules sample_distribution_state"
  have nx: "next_compounding_at ?sc = Some 110" by (simp add: next_compounding_at_def schedule_program_end_def schedule_1_def)
  have len: "ps_epoch_len schedule_1 = 10" by (simp add: schedule_1_def)
  have run: "schedule_keys_wf sample_schedules db" "abs_schedule_of sample_schedules db = abs_schedule_op (OpUpdate ?sc) (abs_schedule_of sample_schedules RBT.empty)"
    using sample_schedules.schedule_run [OF no_schedules(1), of "[OpUpdate ?sc]"] by (simp_all add: db_def sample_distribution_state_def)
  have A: "abs_schedule_of sample_schedules db = \<lparr> as_sched = [7 \<mapsto> ?sc], as_pending = {(7, 110)}, as_deferred = (\<lambda>_. None) \<rparr>"
    unfolding run(2) no_schedules using nx len by (auto simp: Let_def saturating_sub_def fun_eq_iff)
  have one: "one_tick (abs_schedule_of sample_schedules db)" using nx by (simp add: A one_tick_def)
  have "deferred_loop sample_schedules db 0 (db_scan (se_db sample_schedules) db (se_str sample_schedules DEFERRED_TICKS_PREFIX)) = None"
    using sample_schedules.deferred_due [OF run(1) one] A by fastforce
  moreover obtain t where t: "pending_loop sample_schedules db (db_scan (se_db sample_schedules) db (se_str sample_schedules TICKS_PREFIX)) = Some t"
    "tk_pool_id t = 7" "tick_of_pool sample_schedules db 7 = Some t"
    using sample_schedules.pending_lowest [OF run(1) one] by (auto simp: A split: option.splits)
  moreover have "t = \<lparr> tk_pool_id = 7, tk_epoch_ix = 1, tk_height = 110 \<rparr>"
  proof -
    have "as_sched (abs_schedule_of sample_schedules db) 7 = Some ?sc" by (simp add: A)
    then have "tick_of_pool sample_schedules db 7 = tick_try_from ?sc"
      by (simp add: tick_of_pool_def abs_schedule_of_def bind_assoc [symmetric] del: bind_assoc)
    then show ?thesis using t(3) nx by (simp add: tick_try_from_def schedule_1_def)
  qed
  ultimately show "peek sample_schedules 0 (ds_schedules sample_distribution_state) = Some \<lparr> tk_pool_id = 7, tk_epoch_ix = 1, tk_height = 110 \<rparr>"
    by (simp add: peek_def db_def)
qed


end
