(* ===== verification/LM_Executor.thy ===== *)
theory LM_Executor
  imports Distribution LM_Order Node_Errors Funding_Repo Network
begin

text \<open>
  The executor of the liquidity-mining bot, \<open>spectrum-offchain-lm/src/executor.rs\<close>: one attempt takes the
  best order from the backlog, resolves the pool and the bundles, runs the order,
  signs and submits the transaction and brings the backlog and the repositories in line with the
  outcome.  \<open>try_execute_next\<close> composes the models of those components; the network and the prover are the
  parameters the code is generic in.  \<open>None\<close> of a \<open>panics\<close> result is a panic or a walk over
  links that does not end.

  Results: an attempt is a run of the life of the backlog, so it loses no order but may
  keep the one it took; the order of an accepted transaction is checked later and the pool
  it produced is the one the next order runs against.
\<close>

definition pool_box_self_ref :: "pool as_box \<Rightarrow> pool_id" where
  "pool_box_self_ref p = pl_pool_id (as_val p)"

definition pool_box_self_state_ref :: "pool as_box \<Rightarrow> pool_state_id" where
  "pool_box_self_state_ref p = box_id (as_bx p)"

section \<open>Environment and state\<close>

text \<open>
  The readings an attempt makes of the outside: the clocks and the random number of the backlog, the
  network, the signature of a transaction, the clock of the execution context and that of a later check.
\<close>

record executor_readings =
  er_now :: "nat \<Rightarrow> i64"
  er_rng :: u8
  er_now' :: "nat \<Rightarrow> i64"
  er_network :: ergo_network
  er_sign :: "transaction_candidate \<Rightarrow> string + transaction"
  er_ts_context :: i64
  er_ts_later :: i64

record ('b, 'p, 'r, 'f) executor_env =
  xe_lib :: ergo_lib
  xe_backlog :: "(order, order_id, 'b) backlog_ops"
  xe_pools :: "(pool as_box, pool_id, pool_state_id, 'p) entity_env"
  xe_bundles :: "'r bundle_repo_ops"
  xe_funding :: "'f funding_repo_ops"
  xe_executor_prop :: ergo_tree

record ('b, 'p, 'r, 'f) executor_state =
  xs_backlog :: 'b
  xs_pools :: 'p
  xs_bundles :: 'r
  xs_funding :: 'f
  xs_context_cache :: "u32 \<times> i64"

definition CTX_TTL_SECS :: i64 where "CTX_TTL_SECS = 30"

definition make_context :: "ergo_tree \<Rightarrow> executor_readings \<Rightarrow> u32 \<times> i64 \<Rightarrow> box_id \<Rightarrow> execution_context \<times> (u32 \<times> i64)" where
  "make_context prop rd cache first_input_id =
     (let (cached_height, ts) = cache; ts_now = er_ts_context rd;
          stale = (sint CTX_TTL_SECS \<le> sint (ts_now - ts));
          height = (if stale then net_get_height (er_network rd) else cached_height)
      in (\<lparr> ctx_height = height, ctx_mintable_token_id = first_input_id, ctx_executor_prop = prop \<rparr>,
          if stale then (height, ts_now) else cache))"

section \<open>Evaluation of an order\<close>

type_synonym run_ok = "transaction_candidate \<times> pool as_box predicted \<times> staking_bundle as_box predicted list \<times>
  distribution_funding as_box predicted option \<times> box_id order_type"

text \<open>The bundles of an order that can be resolved, in the order of their identifiers.\<close>

fun resolve_bundles :: "'r bundle_repo_ops \<Rightarrow> 'r \<Rightarrow> bundle_id list \<Rightarrow> staking_bundle as_box list option" where
  "resolve_bundles R repo [] = Some []"
| "resolve_bundles R repo (i # is) = do {
     b \<leftarrow> resolve_bundle_state R repo i;
     bs \<leftarrow> resolve_bundles R repo is;
     Some (case b of Some x \<Rightarrow> x # bs | None \<Rightarrow> bs) }"

text \<open>
  The result of running the order, with the funding repository after it; the inner \<open>None\<close> is
  the early return of \<open>try_execute_next\<close>.
\<close>

definition run_order :: "('b, 'p, 'r, 'f) executor_env \<Rightarrow> executor_readings \<Rightarrow> order \<Rightarrow> pool as_box \<Rightarrow> staking_bundle as_box list
    \<Rightarrow> execution_context \<Rightarrow> 'f \<Rightarrow> ((order run_order_error + run_ok) option \<times> 'f) panics" where
  "run_order X rd ord pool bundles ctx frepo = (case ord of
      OrdDeposit deposit \<Rightarrow>
        (let td = get_token_details (pl_pool_id (as_val pool)) (asset_id (budget_rem (as_val pool))) (asset_id (dep_lq (as_val deposit))) (er_network rd)
         in do {
           r \<leftarrow> deposit_try_run (xe_lib X) deposit pool td ctx;
           Some (Some (case r of
               Inr (tx, next_pool, bundle) \<Rightarrow> Inr (tx, next_pool, [bundle], None, ODeposit)
             | Inl err \<Rightarrow> Inl (run_order_error_map OrdDeposit err)), frepo) })
    | OrdRedeem redeem \<Rightarrow> (case bundles of
          bundle # _ \<Rightarrow> do {
            r \<leftarrow> redeem_try_run (xe_lib X) redeem pool bundle ctx;
            Some (Some (case r of
                Inr (tx, next_pool, _) \<Rightarrow> Inr (tx, next_pool, [], None, ORedeem)
              | Inl err \<Rightarrow> Inl (run_order_error_map OrdRedeem err)), frepo) }
        | [] \<Rightarrow> Some (None, frepo))
    | OrdCompound compound \<Rightarrow>
        if bundles \<noteq> []
        then do {
          (funding, frepo') \<leftarrow> fro_collect (xe_funding X) frepo (estimated_min_value (xe_lib X) compound);
          (case funding of
             Inr (f # fs) \<Rightarrow> do {
               r \<leftarrow> compound_try_run (xe_lib X) compound pool (bundles, f, fs) ctx;
               Some (Some (case r of
                   Inr (tx, next_pool, (next_bundles, residual_funding)) \<Rightarrow>
                     Inr (tx, next_pool, next_bundles, residual_funding, OCompound (map (\<lambda>b. box_id (as_bx b)) (f # fs)))
                 | Inl err \<Rightarrow> Inl (run_order_error_map OrdCompound err)), frepo') }
           | _ \<Rightarrow> Some (None, frepo')) }
        else Some (Some (Inl (Fatal ''No bundles found for Compound'' ord)), frepo))"

section \<open>After the submission\<close>

definition suspend_order :: "('b, 'p, 'r, 'f) executor_env \<Rightarrow> order \<Rightarrow> ('b, 'p, 'r, 'f) executor_state \<Rightarrow> ('b, 'p, 'r, 'f) executor_state panics" where
  "suspend_order X ord st = map_option (\<lambda>(_, b). st \<lparr> xs_backlog := b \<rparr>) (blo_suspend (xe_backlog X) (xs_backlog st) ord)"

definition remove_order :: "('b, 'p, 'r, 'f) executor_env \<Rightarrow> order \<Rightarrow> ('b, 'p, 'r, 'f) executor_state \<Rightarrow> ('b, 'p, 'r, 'f) executor_state" where
  "remove_order X ord st = st \<lparr> xs_backlog := blo_remove (xe_backlog X) (xs_backlog st) (order_self_ref (xe_lib X) ord) \<rparr>"

definition invalidate_pool :: "('b, 'p, 'r, 'f) executor_env \<Rightarrow> pool as_box \<Rightarrow> ('b, 'p, 'r, 'f) executor_state \<Rightarrow> ('b, 'p, 'r, 'f) executor_state" where
  "invalidate_pool X pool st = st \<lparr> xs_pools := invalidate (xe_pools X) (xs_pools st) (env_state_ref (xe_pools X) pool) (env_ref (xe_pools X) pool) \<rparr>"

fun apply_invalidation :: "('b, 'p, 'r, 'f) executor_env \<Rightarrow> transaction \<Rightarrow> order \<Rightarrow> pool as_box \<Rightarrow> invalidation
    \<Rightarrow> ('b, 'p, 'r, 'f) executor_state \<Rightarrow> ('b, 'p, 'r, 'f) executor_state panics" where
  "apply_invalidation X tx ord pool InvPool st = suspend_order X ord (invalidate_pool X pool st)"
| "apply_invalidation X tx ord pool (InvFunding ixs) st = do {
     ids \<leftarrow> those (map (\<lambda>i. map_option in_box (nth_opt (tx_inputs tx) i)) ixs);
     suspend_order X ord (st \<lparr> xs_funding := fold (\<lambda>i f. fro_remove (xe_funding X) f i) ids (xs_funding st) \<rparr>) }"
| "apply_invalidation X tx ord pool InvOrder st = Some (remove_order X ord st)"
| "apply_invalidation X tx ord pool (InvStakingBundles ixs) st = do {
     ids \<leftarrow> those (map (\<lambda>i. map_option in_box (nth_opt (tx_inputs tx) i)) ixs);
     Some (st \<lparr> xs_bundles := fold (\<lambda>i r. bro_invalidate (xe_bundles X) r i) ids (xs_bundles st) \<rparr>) }"

fun apply_invalidations :: "('b, 'p, 'r, 'f) executor_env \<Rightarrow> transaction \<Rightarrow> order \<Rightarrow> pool as_box \<Rightarrow> invalidation list
    \<Rightarrow> ('b, 'p, 'r, 'f) executor_state \<Rightarrow> ('b, 'p, 'r, 'f) executor_state panics" where
  "apply_invalidations X tx ord pool [] st = Some st"
| "apply_invalidations X tx ord pool (i # is) st = do { st \<leftarrow> apply_invalidation X tx ord pool i st; apply_invalidations X tx ord pool is st }"

definition check_utxo :: "('b, 'p, 'r, 'f) executor_env \<Rightarrow> executor_readings \<Rightarrow> pool as_box \<Rightarrow> box_id order_type
    \<Rightarrow> ('b, 'p, 'r, 'f) executor_state \<Rightarrow> ('b, 'p, 'r, 'f) executor_state" where
  "check_utxo X rd pool order_type st =
     (let st = (if \<not> net_box_in_utxo (er_network rd) (box_id (as_bx pool)) then invalidate_pool X pool st else st)
      in (case order_type of
            OCompound input_funding_box_ids \<Rightarrow>
              st \<lparr> xs_funding := fold (\<lambda>i f. if \<not> net_box_in_utxo (er_network rd) i then fro_remove (xe_funding X) f i else f)
                     input_funding_box_ids (xs_funding st) \<rparr>
          | _ \<Rightarrow> st))"

definition submission_failed :: "('b, 'p, 'r, 'f) executor_env \<Rightarrow> executor_readings \<Rightarrow> transaction \<Rightarrow> order \<Rightarrow> pool as_box \<Rightarrow> box_id order_type
    \<Rightarrow> string \<Rightarrow> ('b, 'p, 'r, 'f) executor_state \<Rightarrow> ('b, 'p, 'r, 'f) executor_state panics" where
  "submission_failed X rd tx ord pool order_type client_err st = do {
     err \<leftarrow> parse_err client_err;
     (case err of
        MissingInputs missing_indices \<Rightarrow> apply_invalidations X tx ord pool (generate_invalidations order_type missing_indices) st
      | DoubleSpend \<Rightarrow> suspend_order X ord st
      | ScriptsOfInputsDontPassVerification \<Rightarrow> Some (check_utxo X rd pool order_type st)
      | Unhandled \<Rightarrow> Some st) }"

text \<open>The next bundles, each linked to the bundle it replaces when there is one.\<close>

fun predict_bundles :: "'r bundle_repo_ops \<Rightarrow> program_config \<Rightarrow> staking_bundle as_box predicted list \<Rightarrow> staking_bundle as_box list \<Rightarrow> 'r \<Rightarrow> 'r panics" where
  "predict_bundles R cfg [] prevs repo = Some repo"
| "predict_bundles R cfg (Predicted next # nexts) prevs repo = do {
     ib \<leftarrow> indexed_bundle_new (as_val next) cfg;
     predict_bundles R cfg nexts (tl prevs)
       (bro_put_predicted R repo \<lparr> tr_state = Predicted (AsBox (as_bx next) ib),
          tr_prev_state_id = (case prevs of prev # _ \<Rightarrow> Some (bundle_self_state_ref (as_val prev)) | [] \<Rightarrow> None) \<rparr>) }"

definition submission_accepted :: "('b, 'p, 'r, 'f) executor_env \<Rightarrow> executor_readings \<Rightarrow> order \<Rightarrow> pool as_box \<Rightarrow> staking_bundle as_box list \<Rightarrow> run_ok
    \<Rightarrow> ('b, 'p, 'r, 'f) executor_state \<Rightarrow> ('b, 'p, 'r, 'f) executor_state panics" where
  "submission_accepted X rd ord pool bundles ok st = (case ok of (_, next_pool, next_bundles, residual_funding, _) \<Rightarrow>
     let st = st \<lparr> xs_backlog := snd (blo_check_later (xe_backlog X) (xs_backlog st) \<lparr> pr_order = ord, pr_timestamp = er_ts_later rd \<rparr>) \<rparr>;
         st = st \<lparr> xs_pools := put_predicted (xe_pools X) (xs_pools st)
                \<lparr> tr_state = next_pool, tr_prev_state_id = Some (env_state_ref (xe_pools X) pool) \<rparr> \<rparr>;
         st = (case residual_funding of Some f \<Rightarrow> st \<lparr> xs_funding := fro_put_predicted (xe_funding X) (xs_funding st) f \<rparr> | None \<Rightarrow> st)
     in map_option (\<lambda>r. st \<lparr> xs_bundles := r \<rparr>) (predict_bundles (xe_bundles X) (conf (as_val pool)) next_bundles bundles (xs_bundles st)))"

definition handle_run_result :: "('b, 'p, 'r, 'f) executor_env \<Rightarrow> executor_readings \<Rightarrow> order \<Rightarrow> pool as_box \<Rightarrow> staking_bundle as_box list
    \<Rightarrow> order run_order_error + run_ok \<Rightarrow> ('b, 'p, 'r, 'f) executor_state \<Rightarrow> ('b, 'p, 'r, 'f) executor_state panics" where
  "handle_run_result X rd ord pool bundles res st = (case res of
      Inr (tx, next_pool, next_bundles, residual_funding, order_type) \<Rightarrow>
        (case er_sign rd tx of
           Inr tx' \<Rightarrow> (case net_submit_tx (er_network rd) tx' of
               Inl client_err \<Rightarrow> submission_failed X rd tx' ord pool order_type client_err st
             | Inr _ \<Rightarrow> submission_accepted X rd ord pool bundles (tx, next_pool, next_bundles, residual_funding, order_type) st)
         | Inl signing_err \<Rightarrow> Some st)
    | Inl (NonFatal err ord') \<Rightarrow> suspend_order X ord' st
    | Inl (Fatal err ord') \<Rightarrow> Some (remove_order X ord' st))"

definition no_pool :: "('b, 'p, 'r, 'f) executor_env \<Rightarrow> executor_readings \<Rightarrow> order \<Rightarrow> ('b, 'p, 'r, 'f) executor_state \<Rightarrow> ('b, 'p, 'r, 'f) executor_state panics" where
  "no_pool X rd ord st =
     (let by_height = (\<lambda>bx. if 10 < saturating_sub (net_get_height (er_network rd)) (bx_height bx) then Some (remove_order X ord st) else suspend_order X ord st)
      in (case ord of
            OrdDeposit (AsBox bx _) \<Rightarrow> by_height bx
          | OrdRedeem (AsBox bx _) \<Rightarrow> by_height bx
          | OrdCompound _ \<Rightarrow> Some (remove_order X ord st)))"

section \<open>The executor\<close>

text \<open>\<open>Inl ()\<close> is the error that makes the stream wait.\<close>

definition try_execute_next :: "('b, 'p, 'r, 'f) executor_env \<Rightarrow> executor_readings \<Rightarrow> ('b, 'p, 'r, 'f) executor_state
    \<Rightarrow> ((unit + unit) \<times> ('b, 'p, 'r, 'f) executor_state) panics" where
  "try_execute_next X rd st = do {
     (next_ord, backlog) \<leftarrow> blo_try_pop (xe_backlog X) (er_now rd) (er_rng rd) (er_now' rd) (xs_backlog st);
     let st = st \<lparr> xs_backlog := backlog \<rparr>;
     (case next_ord of
        None \<Rightarrow> Some (Inl (), st)
      | Some ord \<Rightarrow> do {
          entity \<leftarrow> resolve_entity_state (xe_pools X) (xs_pools st) (order_entity_ref ord);
          (case entity of
             Some pool \<Rightarrow> do {
               bundles \<leftarrow> resolve_bundles (xe_bundles X) (xs_bundles st) (order_bundles ord);
               let (ctx, cache) = make_context (xe_executor_prop X) rd (xs_context_cache st) (box_id (as_bx pool));
               (run_result, funding) \<leftarrow> run_order X rd ord pool bundles ctx (xs_funding st);
               let st = st \<lparr> xs_context_cache := cache, xs_funding := funding \<rparr>;
               (case run_result of
                  None \<Rightarrow> Some (Inl (), st)
                | Some res \<Rightarrow> map_option (Pair (Inr ())) (handle_run_result X rd ord pool bundles res st)) }
           | None \<Rightarrow> map_option (Pair (Inl ())) (no_pool X rd ord st)) }) }"

section \<open>What becomes of the order\<close>

text \<open>
  Whether the outcome gives the order back to the backlog or removes it.  It does not when the
  transaction cannot be signed, when the node rejects it for a reason that is not understood or because of a
  script, and when only bundles are blamed for missing inputs.
\<close>

definition settles :: "executor_readings \<Rightarrow> order run_order_error + run_ok \<Rightarrow> bool" where
  "settles rd res = (case res of
      Inl _ \<Rightarrow> True
    | Inr (tx, _, _, _, order_type) \<Rightarrow> (case er_sign rd tx of
        Inl _ \<Rightarrow> False
      | Inr tx' \<Rightarrow> (case net_submit_tx (er_network rd) tx' of
          Inr _ \<Rightarrow> True
        | Inl err \<Rightarrow> (case parse_err err of
            Some (MissingInputs ixs) \<Rightarrow> list_ex (\<lambda>i. case i of InvStakingBundles _ \<Rightarrow> False | _ \<Rightarrow> True) (generate_invalidations order_type ixs)
          | Some DoubleSpend \<Rightarrow> True
          | _ \<Rightarrow> False))))"

definition error_about :: "('b, 'p, 'r, 'f) executor_env \<Rightarrow> order \<Rightarrow> order run_order_error + run_ok \<Rightarrow> bool" where
  "error_about X ord res = (case res of
      Inl (Fatal _ ord') \<Rightarrow> order_self_ref (xe_lib X) ord' = order_self_ref (xe_lib X) ord
    | Inl (NonFatal _ ord') \<Rightarrow> order_self_ref (xe_lib X) ord' = order_self_ref (xe_lib X) ord
    | Inr _ \<Rightarrow> True)"

locale executor = backlog E content ok
  for E :: "(order, order_id, 's, 'q) backlog_env" and content ok +
  fixes X :: "((order_id, 's, 'q) backlog_service, 'p, 'r, 'f) executor_env"
  assumes service: "xe_backlog X = backlog_tracing (backlog_service_ops E)" and order_ref: "be_ref E = order_self_ref (xe_lib X)"
begin

lemmas service_ops = service backlog_tracing_def backlog_service_ops_def

definition "settled i st \<longleftrightarrow> ok (bl_store (xs_backlog st)) \<and> (content (bl_store (xs_backlog st)) i = None \<or> i \<in> tracked E (xs_backlog st))"

abbreviation "ref \<equiv> order_self_ref (xe_lib X)"

lemma suspend_effect:
  assumes "ok (bl_store b)" "backlog_suspend E b ord = Some (r, b')"
  shows "bl_store b' = bl_store b" "tracked E b \<subseteq> tracked E b'" "content (bl_store b) (be_ref E ord) = None \<or> be_ref E ord \<in> tracked E b'"
  using assms get_ok [OF assms(1), of "be_ref E ord"] exists_iff [OF assms(1), of "be_ref E ord"]
  by (auto simp: backlog_suspend_def tracked_def split: if_splits option.splits)

lemma suspend_settled:
  assumes "suspend_order X ord st = Some st'" "ok (bl_store (xs_backlog st))"
  shows "ok (bl_store (xs_backlog st'))" "settled (ref ord) st'" "settled i st \<Longrightarrow> settled i st'"
proof -
  obtain r b' where b: "backlog_suspend E (xs_backlog st) ord = Some (r, b')" "xs_backlog st' = b'"
    using assms(1) by (auto simp: suspend_order_def service_ops)
  note e = suspend_effect [OF assms(2) b(1)]
  show "ok (bl_store (xs_backlog st'))" using assms(2) e(1) b(2) by simp
  then show "settled (ref ord) st'" using e order_ref b(2) by (simp add: settled_def)
  show "settled i st'" if "settled i st" using that e b(2) by (auto simp: settled_def)
qed

lemma remove_settled:
  assumes "ok (bl_store (xs_backlog st))"
  shows "settled (ref ord) (remove_order X ord st)" "settled i st \<Longrightarrow> settled i (remove_order X ord st)"
  using remove_ok [OF assms] remove_content [OF assms]
  by (auto simp: settled_def remove_order_def service_ops backlog_remove_def tracked_def)

lemma invalidation_settled:
  assumes "apply_invalidation X tx ord pool iv st = Some st'" "ok (bl_store (xs_backlog st))"
  shows "ok (bl_store (xs_backlog st'))" "settled i st \<Longrightarrow> settled i st'"
    "(case iv of InvStakingBundles _ \<Rightarrow> xs_backlog st' = xs_backlog st | _ \<Rightarrow> settled (ref ord) st')"
proof -
  have "ok (bl_store (xs_backlog st')) \<and> (settled i st \<longrightarrow> settled i st') \<and>
      (case iv of InvStakingBundles _ \<Rightarrow> xs_backlog st' = xs_backlog st | _ \<Rightarrow> settled (ref ord) st')" for i
  proof (cases iv)
    case InvPool
    let ?st = "invalidate_pool X pool st"
    have "xs_backlog ?st = xs_backlog st" by (simp add: invalidate_pool_def)
    then show ?thesis using assms InvPool suspend_settled [of ord ?st st'] by (simp add: settled_def)
  next
    case (InvStakingBundles ixs)
    then show ?thesis using assms by (auto simp: settled_def bind_eq_Some_conv)
  next
    case InvOrder
    then show ?thesis using assms remove_settled [OF assms(2)] by (auto simp: settled_def)
  next
    case (InvFunding ixs)
    then obtain ids where "suspend_order X ord (st \<lparr> xs_funding := fold (\<lambda>i f. fro_remove (xe_funding X) f i) ids (xs_funding st) \<rparr>) = Some st'"
      using assms(1) by (auto simp: bind_eq_Some_conv)
    from suspend_settled [OF this] show ?thesis using assms(2) InvFunding by (simp add: settled_def)
  qed
  then show "ok (bl_store (xs_backlog st'))" "settled i st \<Longrightarrow> settled i st'"
    "(case iv of InvStakingBundles _ \<Rightarrow> xs_backlog st' = xs_backlog st | _ \<Rightarrow> settled (ref ord) st')" by simp_all
qed

lemma invalidations_settled:
  assumes "apply_invalidations X tx ord pool invs st = Some st'" "ok (bl_store (xs_backlog st))"
  shows "settled (ref ord) st \<or> list_ex (\<lambda>i. case i of InvStakingBundles _ \<Rightarrow> False | _ \<Rightarrow> True) invs \<Longrightarrow> settled (ref ord) st'"
    and "\<not> list_ex (\<lambda>i. case i of InvStakingBundles _ \<Rightarrow> False | _ \<Rightarrow> True) invs \<Longrightarrow> xs_backlog st' = xs_backlog st"
  using assms
proof (induction invs arbitrary: st)
  case (Cons iv invs)
  {
    case 1
    then obtain st1 where s: "apply_invalidation X tx ord pool iv st = Some st1" "apply_invalidations X tx ord pool invs st1 = Some st'"
      by (auto simp: bind_eq_Some_conv)
    note i = invalidation_settled [OF s(1) 1(3)]
    show ?case using Cons.IH(1) [OF _ s(2) i(1)] 1(1) i(2,3) by (cases iv) auto
  next
    case 2
    then obtain st1 where s: "apply_invalidation X tx ord pool iv st = Some st1" "apply_invalidations X tx ord pool invs st1 = Some st'"
      by (auto simp: bind_eq_Some_conv)
    note i = invalidation_settled [OF s(1) 2(3)]
    show ?case using Cons.IH(2) [OF _ s(2) i(1)] 2(1) i(3) by (cases iv) auto
  }
qed simp_all

lemma accepted_backlog:
  assumes "submission_accepted X rd ord pool bundles res st = Some st'"
  shows "xs_backlog st' = snd (backlog_check_later E (xs_backlog st) \<lparr> pr_order = ord, pr_timestamp = er_ts_later rd \<rparr>)"
  using assms by (cases res) (auto simp: submission_accepted_def Let_def service_ops split: option.splits)

lemma accepted_settled:
  assumes "submission_accepted X rd ord pool bundles res st = Some st'" "ok (bl_store (xs_backlog st))"
  shows "settled (ref ord) st'"
  using accepted_backlog [OF assms(1)] exists_iff [OF assms(2)] assms(2) order_ref
  by (auto simp: settled_def backlog_check_later_def tracked_def revisit_ids_def weighted_of_progressing_def)

lemma submission_fate:
  assumes "submission_failed X rd tx' ord pool order_type err st = Some st'" "ok (bl_store (xs_backlog st))"
    and "er_sign rd tx = Inr tx'" "net_submit_tx (er_network rd) tx' = Inl err"
  shows "if settles rd (Inr (tx, next_pool, next_bundles, residual, order_type)) then settled (ref ord) st' else xs_backlog st' = xs_backlog st"
proof -
  obtain e where e: "parse_err err = Some e" using assms(1) by (auto simp: submission_failed_def bind_eq_Some_conv)
  show ?thesis
  proof (cases e)
    case (MissingInputs ixs)
    then have "apply_invalidations X tx' ord pool (generate_invalidations order_type ixs) st = Some st'" using e assms(1) by (simp add: submission_failed_def)
    from invalidations_settled [OF this assms(2)] show ?thesis using assms(3,4) e MissingInputs by (simp add: settles_def)
  next
    case DoubleSpend
    then have "suspend_order X ord st = Some st'" using e assms(1) by (simp add: submission_failed_def)
    from suspend_settled(2) [OF this assms(2)] show ?thesis using assms(3,4) e DoubleSpend by (simp add: settles_def)
  next
    case Unhandled
    then show ?thesis using assms(1,3,4) e by (simp add: submission_failed_def settles_def)
  next
    case ScriptsOfInputsDontPassVerification
    then have "xs_backlog st' = xs_backlog st"
      using e assms(1) by (cases order_type) (auto simp: submission_failed_def check_utxo_def invalidate_pool_def Let_def)
    then show ?thesis using assms(3,4) e ScriptsOfInputsDontPassVerification by (simp add: settles_def)
  qed
qed

lemma run_result_fate:
  assumes "handle_run_result X rd ord pool bundles res st = Some st'" "ok (bl_store (xs_backlog st))" "error_about X ord res"
  shows "if settles rd res then settled (ref ord) st' else xs_backlog st' = xs_backlog st"
proof (cases res)
  case (Inl err)
  show ?thesis
  proof (cases err)
    case (Fatal e ord')
    then show ?thesis using assms Inl remove_settled(1) [OF assms(2), of ord'] by (simp add: handle_run_result_def settles_def error_about_def)
  next
    case (NonFatal e ord')
    then have "suspend_order X ord' st = Some st'" "ref ord' = ref ord" using assms(1,3) Inl by (simp_all add: handle_run_result_def error_about_def)
    then show ?thesis using suspend_settled(2) [of ord' st st'] assms(2) Inl by (simp add: settles_def)
  qed
next
  case (Inr r)
  obtain tx next_pool next_bundles residual order_type where r: "r = (tx, next_pool, next_bundles, residual, order_type)" by (cases r)
  show ?thesis
  proof (cases "er_sign rd tx")
    case sig: (Inr tx')
    show ?thesis
    proof (cases "net_submit_tx (er_network rd) tx'")
      case sub: (Inl err)
      then have "submission_failed X rd tx' ord pool order_type err st = Some st'" using assms(1) Inr r sig by (auto simp: handle_run_result_def)
      from submission_fate [OF this assms(2) sig sub] show ?thesis using Inr r by simp
    next
      case sub: (Inr u)
      then show ?thesis using assms Inr r sig accepted_settled [OF _ assms(2)] by (auto simp: handle_run_result_def settles_def)
    qed
  qed (use assms(1) Inr r in \<open>simp add: handle_run_result_def settles_def\<close>)
qed

end

section \<open>Runs of an order\<close>

lemma order_error_order: "order_error e ord = Fatal m ord' \<Longrightarrow> ord' = ord" "order_error e ord = NonFatal m ord' \<Longrightarrow> ord' = ord"
  by (cases e; simp)+

lemma distribute_rewards_pool_id: "distribute_rewards p bs f fs = Some (Inr (p', bs', nf, outs, m)) \<Longrightarrow> pl_pool_id p' = pl_pool_id p"
proof -
  assume "distribute_rewards p bs f fs = Some (Inr (p', bs', nf, outs, m))"
  then obtain ix np cost where d: "distribute_loop p (saturating_sub (epoch_num (conf p)) ix) bs p 0 = Some (Inr (np, cost, bs', outs))"
    "p' = np \<lparr> pl_epoch_ix := Some ix \<rparr>" by (rule distribute_rewards_InrD)
  from distribute_loop_InrD [OF d(1)] show ?thesis unfolding d(2) by simp
qed

lemma deposit_run_pool_id:
  assumes "deposit_try_run L d pool td ctx = Some (Inr (tx, Predicted np, nb))"
  shows "pl_pool_id (as_val np) = pl_pool_id (as_val pool)"
proof -
  obtain ob dd pb p pb' p' bb b where "d = AsBox ob dd" "pool = AsBox pb p" "np = AsBox pb' p'" "nb = Predicted (AsBox bb b)"
    by (metis as_box.exhaust predicted.exhaust)
  then show ?thesis using assms by (auto elim!: deposit_try_run_InrD apply_deposit_InrD)
qed

lemma redeem_run_pool_id:
  assumes "redeem_try_run L r pool bundle ctx = Some (Inr (tx, Predicted np, x))"
  shows "pl_pool_id (as_val np) = pl_pool_id (as_val pool)"
proof -
  obtain ob rr pb p pb' p' bb b where "r = AsBox ob rr" "pool = AsBox pb p" "np = AsBox pb' p'" "bundle = AsBox bb b"
    by (metis as_box.exhaust)
  then show ?thesis using assms by (auto elim!: redeem_try_run_InrD dest!: apply_redeem_InrD(3))
qed

lemma compound_run_pool_id:
  assumes "compound_try_run L c pool (bundles, f, fs) ctx = Some (Inr (tx, Predicted np, (nb, rf)))"
  shows "pl_pool_id (as_val np) = pl_pool_id (as_val pool)"
proof -
  obtain pb p pb' p' where eq: "pool = AsBox pb p" "np = AsBox pb' p'" by (metis as_box.exhaust)
  have "\<exists>nb nf rw mo. distribute_rewards p (map as_val bundles) (as_val f) (map as_val fs) = Some (Inr (p', nb, nf, rw, mo))"
    by (rule compound_try_run_InrD [OF assms [unfolded eq]]) (intro exI, assumption)
  then show ?thesis using distribute_rewards_pool_id eq by auto
qed

lemma run_order_pool_id:
  assumes "run_order X rd ord pool bundles ctx f = Some (Some (Inr (tx, Predicted np, nb, rf, ot)), f')"
  shows "pl_pool_id (as_val np) = pl_pool_id (as_val pool)"
proof (cases ord)
  case (OrdDeposit d)
  then show ?thesis using assms deposit_run_pool_id
    by (auto simp: run_order_def Let_def split: bind_split_asm sum.split_asm prod.split_asm)
next
  case (OrdRedeem r)
  then show ?thesis using assms redeem_run_pool_id
    by (auto simp: run_order_def Let_def split: bind_split_asm sum.split_asm prod.split_asm list.split_asm)
next
  case (OrdCompound c)
  then show ?thesis using assms compound_run_pool_id
    by (auto simp: run_order_def Let_def split: bind_split_asm sum.split_asm prod.split_asm list.split_asm if_split_asm)
qed

lemma deposit_run_error: "deposit_try_run L d pool td ctx = Some (Inl (Fatal m d')) \<or> deposit_try_run L d pool td ctx = Some (Inl (NonFatal m d')) \<Longrightarrow> d' = d"
  by (cases pool) (auto simp: deposit_try_run_def Let_def dest: order_error_order split: bind_split_asm sum.split_asm prod.split_asm)

lemma redeem_run_error: "redeem_try_run L r pool b ctx = Some (Inl (Fatal m r')) \<or> redeem_try_run L r pool b ctx = Some (Inl (NonFatal m r')) \<Longrightarrow> r' = r"
  by (cases pool) (auto simp: redeem_try_run_def Let_def dest: order_error_order split: bind_split_asm sum.split_asm prod.split_asm)

lemma compound_run_error:
  "compound_try_run L c pool ex ctx = Some (Inl (Fatal m c')) \<or> compound_try_run L c pool ex ctx = Some (Inl (NonFatal m c')) \<Longrightarrow> c' = c"
  by (cases pool; cases ex) (auto simp: compound_try_run_def Let_def dest: order_error_order split: bind_split_asm sum.split_asm prod.split_asm)

lemma run_order_error_about:
  assumes "run_order X rd ord pool bundles ctx f = Some (Some res, f')"
  shows "error_about X ord res"
proof (cases res)
  case (Inl err)
  have "\<exists>m. err = Fatal m ord \<or> err = NonFatal m ord"
  proof (cases ord)
    case (OrdDeposit d)
    then obtain e where "deposit_try_run (xe_lib X) d pool (get_token_details (pl_pool_id (as_val pool)) (asset_id (budget_rem (as_val pool)))
        (asset_id (dep_lq (as_val d))) (er_network rd)) ctx = Some (Inl e)" "err = run_order_error_map OrdDeposit e"
      using assms Inl by (auto simp: run_order_def Let_def split: bind_split_asm sum.split_asm prod.split_asm)
    then show ?thesis using OrdDeposit deposit_run_error [of "xe_lib X"] by (cases e) (simp_all, metis+)
  next
    case (OrdRedeem r)
    then obtain b e where "redeem_try_run (xe_lib X) r pool b ctx = Some (Inl e)" "err = run_order_error_map OrdRedeem e"
      using assms Inl by (auto simp: run_order_def Let_def split: bind_split_asm sum.split_asm prod.split_asm list.split_asm)
    then show ?thesis using OrdRedeem redeem_run_error [of "xe_lib X"] by (cases e) (simp_all, metis+)
  next
    case (OrdCompound c)
    show ?thesis
    proof (cases "bundles = []")
      case True
      then show ?thesis using assms Inl OrdCompound by (auto simp: run_order_def)
    next
      case False
      then obtain ex e where "compound_try_run (xe_lib X) c pool ex ctx = Some (Inl e)" "err = run_order_error_map OrdCompound e"
        using assms Inl OrdCompound by (auto simp: run_order_def Let_def split: bind_split_asm sum.split_asm prod.split_asm list.split_asm)
      then show ?thesis using OrdCompound compound_run_error [of "xe_lib X"] by (cases e) (simp_all, metis+)
    qed
  qed
  then show ?thesis using Inl by (auto simp: error_about_def)
qed (simp add: error_about_def)

section \<open>The executor and the life of the backlog\<close>

context executor
begin

definition "reaches s0 bc fl b \<longleftrightarrow> (\<exists>fl' \<subseteq> fl. backlog_reach E s0 bc (b, fl'))"

lemma reachesI: "backlog_reach E s0 bc (b, fl' - A) \<Longrightarrow> fl' \<subseteq> fl \<Longrightarrow> reaches s0 bc fl b"
  unfolding reaches_def by (meson Diff_subset order_trans)

lemma suspend_reaches:
  assumes "reaches s0 bc fl (xs_backlog st)" "suspend_order X ord st = Some st'"
  shows "reaches s0 bc fl (xs_backlog st')"
proof -
  obtain fl' where fl: "fl' \<subseteq> fl" "backlog_reach E s0 bc (xs_backlog st, fl')" using assms(1) by (auto simp: reaches_def)
  obtain r where "backlog_suspend E (xs_backlog st) ord = Some (r, xs_backlog st')" using assms(2) by (auto simp: suspend_order_def service_ops)
  from reachesI [OF backlog_reach.suspend [OF fl(2) this] fl(1)] show ?thesis .
qed

lemma remove_reaches:
  assumes "reaches s0 bc fl (xs_backlog st)"
  shows "reaches s0 bc fl (xs_backlog (remove_order X ord st))"
proof -
  obtain fl' where fl: "fl' \<subseteq> fl" "backlog_reach E s0 bc (xs_backlog st, fl')" using assms(1) by (auto simp: reaches_def)
  from reachesI [OF backlog_reach.discard [OF fl(2)] fl(1)] show ?thesis by (simp add: remove_order_def service_ops)
qed

lemma invalidation_reaches:
  assumes "reaches s0 bc fl (xs_backlog st)" "apply_invalidation X tx ord pool iv st = Some st'"
  shows "reaches s0 bc fl (xs_backlog st')"
proof (cases iv)
  case InvPool
  then show ?thesis using assms suspend_reaches [of s0 bc fl "invalidate_pool X pool st"] by (simp add: invalidate_pool_def)
next
  case (InvFunding ixs)
  then obtain ids where "suspend_order X ord (st \<lparr> xs_funding := fold (\<lambda>i f. fro_remove (xe_funding X) f i) ids (xs_funding st) \<rparr>) = Some st'"
    using assms(2) by (auto simp: bind_eq_Some_conv)
  from suspend_reaches [OF _ this] show ?thesis using assms(1) by simp
qed (use assms remove_reaches in \<open>auto simp: bind_eq_Some_conv\<close>)

lemma invalidations_reaches:
  "reaches s0 bc fl (xs_backlog st) \<Longrightarrow> apply_invalidations X tx ord pool ivs st = Some st' \<Longrightarrow> reaches s0 bc fl (xs_backlog st')"
  by (induction ivs arbitrary: st) (auto simp: bind_eq_Some_conv dest: invalidation_reaches)

lemma check_utxo_backlog: "xs_backlog (check_utxo X rd pool ot st) = xs_backlog st"
  by (cases ot) (simp_all add: check_utxo_def invalidate_pool_def Let_def)

lemma failed_reaches:
  assumes "reaches s0 bc fl (xs_backlog st)" "submission_failed X rd tx ord pool ot err st = Some st'"
  shows "reaches s0 bc fl (xs_backlog st')"
proof -
  obtain e where e: "parse_err err = Some e" using assms(2) by (auto simp: submission_failed_def bind_eq_Some_conv)
  show ?thesis
  proof (cases e)
    case ScriptsOfInputsDontPassVerification
    then have "xs_backlog st' = xs_backlog st" using assms(2) e by (auto simp: submission_failed_def check_utxo_backlog)
    then show ?thesis using assms(1) by simp
  next
    case (MissingInputs ixs)
    then have "apply_invalidations X tx ord pool (generate_invalidations ot ixs) st = Some st'" using assms(2) e by (simp add: submission_failed_def)
    from invalidations_reaches [OF assms(1) this] show ?thesis .
  next
    case DoubleSpend
    then have "suspend_order X ord st = Some st'" using assms(2) e by (simp add: submission_failed_def)
    from suspend_reaches [OF assms(1) this] show ?thesis .
  next
    case Unhandled
    then show ?thesis using assms e by (simp add: submission_failed_def)
  qed
qed

lemma accepted_reaches:
  assumes "reaches s0 bc fl (xs_backlog st)" "submission_accepted X rd ord pool bundles res st = Some st'"
  shows "reaches s0 bc fl (xs_backlog st')"
proof -
  obtain fl' where fl: "fl' \<subseteq> fl" "backlog_reach E s0 bc (xs_backlog st, fl')" using assms(1) by (auto simp: reaches_def)
  obtain r where "backlog_check_later E (xs_backlog st) \<lparr> pr_order = ord, pr_timestamp = er_ts_later rd \<rparr> = (r, xs_backlog st')"
    using accepted_backlog [OF assms(2)] by (metis prod.collapse)
  from reachesI [OF backlog_reach.check_later [OF fl(2) this] fl(1)] show ?thesis .
qed

lemma result_reaches:
  assumes "reaches s0 bc fl (xs_backlog st)" "handle_run_result X rd ord pool bundles res st = Some st'"
  shows "reaches s0 bc fl (xs_backlog st')"
  using assms by (auto simp: handle_run_result_def intro: failed_reaches accepted_reaches suspend_reaches remove_reaches
      split: sum.split_asm prod.split_asm run_order_error.split_asm)

lemma no_pool_reaches:
  assumes "reaches s0 bc fl (xs_backlog st)" "no_pool X rd ord st = Some st'"
  shows "reaches s0 bc fl (xs_backlog st')"
  using assms by (auto simp: no_pool_def Let_def intro: suspend_reaches remove_reaches split: order.split_asm as_box.split_asm if_split_asm)

lemma attempt_reaches:
  assumes "backlog_reach E s0 bc (xs_backlog st, fl)" "try_execute_next X rd st = Some (res, st')"
  shows "\<exists>popped b. backlog_try_pop E (er_now rd) (er_rng rd) (er_now' rd) (xs_backlog st) = Some (popped, b) \<and>
    reaches s0 bc (fl \<union> be_ref E ` set_option popped) (xs_backlog st')"
proof -
  obtain popped b where pop: "backlog_try_pop E (er_now rd) (er_rng rd) (er_now' rd) (xs_backlog st) = Some (popped, b)"
    using assms(2) by (auto simp: try_execute_next_def service_ops Let_def bind_eq_Some_conv)
  have r: "reaches s0 bc (fl \<union> be_ref E ` set_option popped) b"
    using backlog_reach.pop [OF assms(1) pop] by (auto simp: reaches_def)
  have "reaches s0 bc (fl \<union> be_ref E ` set_option popped) (xs_backlog st')"
  proof (cases popped)
    case None
    then show ?thesis using assms(2) pop r by (auto simp: try_execute_next_def service_ops Let_def)
  next
    case (Some ord)
    obtain entity where ent: "resolve_entity_state (xe_pools X) (xs_pools st) (order_entity_ref ord) = Some entity"
      using assms(2) pop Some by (auto simp: try_execute_next_def service_ops Let_def bind_eq_Some_conv)
    show ?thesis
    proof (cases entity)
      case None
      then have "no_pool X rd ord (st \<lparr> xs_backlog := b \<rparr>) = Some st'"
        using assms(2) pop Some ent by (auto simp: try_execute_next_def service_ops Let_def)
      from no_pool_reaches [OF _ this] r show ?thesis by simp
    next
      case pool: (Some pool)
      obtain ctx cache where mk: "make_context (xe_executor_prop X) rd (xs_context_cache st) (box_id (as_bx pool)) = (ctx, cache)"
        by (cases "make_context (xe_executor_prop X) rd (xs_context_cache st) (box_id (as_bx pool))")
      obtain bundles rr f where steps: "resolve_bundles (xe_bundles X) (xs_bundles st) (order_bundles ord) = Some bundles"
        "run_order X rd ord pool bundles ctx (xs_funding st) = Some (rr, f)"
        using assms(2) pop Some ent pool by (auto simp: try_execute_next_def service_ops Let_def bind_eq_Some_conv mk)
      have "case rr of None \<Rightarrow> st' = st \<lparr> xs_backlog := b, xs_context_cache := cache, xs_funding := f \<rparr>
        | Some res' \<Rightarrow> handle_run_result X rd ord pool bundles res' (st \<lparr> xs_backlog := b, xs_context_cache := cache, xs_funding := f \<rparr>) = Some st'"
        using assms(2) pop Some ent pool steps mk by (auto simp: try_execute_next_def service_ops Let_def split: option.splits)
      then show ?thesis using r result_reaches [of s0 bc _ "st \<lparr> xs_backlog := b, xs_context_cache := cache, xs_funding := f \<rparr>"]
        by (cases rr) auto
    qed
  qed
  then show ?thesis using pop by blast
qed

end

section \<open>Instance\<close>

definition config_sd :: "program_config sd_codec" where
  "config_sd = iso_sd (\<lambda>c. (epoch_len c, epoch_num c, program_start c, redeem_blocks_delta c, max_rounding_error c, program_budget c))
     (\<lambda>(l, n, s, r, m, b). \<lparr> epoch_len = l, epoch_num = n, program_start = s, redeem_blocks_delta = r, max_rounding_error = m, program_budget = b \<rparr>)
     (pair_sd u32_sd (pair_sd u32_sd (pair_sd u32_sd (pair_sd u32_sd (pair_sd u64_sd amount_sd)))))"

definition pool_sd :: "pool sd_codec" where
  "pool_sd = iso_sd (\<lambda>p. (pl_pool_id p, budget_rem p, reserves_lq p, reserves_vlq p, reserves_tmp p, pl_epoch_ix p, conf p, pl_erg_value p))
     (\<lambda>(i, b, l, v, t, e, c, n). \<lparr> pl_pool_id = i, budget_rem = b, reserves_lq = l, reserves_vlq = v, reserves_tmp = t, pl_epoch_ix = e, conf = c,
        pl_erg_value = n \<rparr>)
     (pair_sd digest_sd (pair_sd amount_sd (pair_sd amount_sd (pair_sd amount_sd (pair_sd amount_sd (pair_sd (option_sd u32_sd) (pair_sd config_sd u64_sd)))))))"

lemma config_sd_laws: "self_delimiting config_sd"
  unfolding config_sd_def by (rule iso_sd_laws) (simp_all add: sd_laws word_sds amount_sd_laws)

interpretation pool_box_bytes: self_delimiting "as_box_sd pool_sd"
  unfolding pool_sd_def by (rule as_box_sd_laws, rule iso_sd_laws) (simp_all add: sd_laws word_sds amount_sd_laws config_sd_laws)

definition sample_pools :: "(pool as_box, pool_id, pool_state_id, mem_db) entity_env" where
  "sample_pools = \<lparr> env_db = mem_rocksdb, env_str = bincode_str, env_eid = digest_codec, env_sid = digest_codec, env_entity = codec_of (as_box_sd pool_sd),
     env_ref = pool_box_self_ref, env_state_ref = pool_box_self_state_ref \<rparr>"

interpretation sample_pools: entity_repo sample_pools
  by (rule entity_repo.intro) (simp_all add: sample_pools_def mem.rocksdb_laws_axioms bin.bincode_strings_axioms digest.codec_laws_axioms
      pool_box_bytes.codec_of_laws)

definition sample_executor :: "((order_id, mem_db, (order_id weighted_order \<times> u64) list) backlog_service, mem_db, mem_db, mem_db) executor_env" where
  "sample_executor = \<lparr> xe_lib = sample_lib, xe_backlog = backlog_tracing (backlog_service_ops order_env), xe_pools = sample_pools,
     xe_bundles = bundle_repo_tracing (bundle_repo_rocksdb sample_bundles), xe_funding = funding_repo_tracing (funding_repo_rocksdb sample_fundings),
     xe_executor_prop = [5] \<rparr>"

interpretation sample_executor: executor order_env orders_content orders_ok sample_executor
  by (intro executor.intro orders.backlog_axioms executor_axioms.intro) (simp_all add: sample_executor_def order_env_def)

text \<open>A node that accepts every transaction and knows nothing else.\<close>

definition sample_readings :: executor_readings where
  "sample_readings = \<lparr> er_now = (\<lambda>_. 0), er_rng = 50, er_now' = (\<lambda>_. 0),
     er_network = \<lparr> net_submit_tx = (\<lambda>_. Inr ()), net_get_height = 10, net_get_token_minting_info = (\<lambda>_. Inl []), net_box_in_utxo = (\<lambda>_. False) \<rparr>,
     er_sign = (\<lambda>tx. Inr (into_tx_without_proofs sample_lib tx)), er_ts_context = 100, er_ts_later = 200 \<rparr>"

definition sample_executor_state :: "((order_id, mem_db, (order_id weighted_order \<times> u64) list) backlog_service, mem_db, mem_db, mem_db) executor_state" where
  "sample_executor_state = \<lparr> xs_backlog = backlog_new order_env RBT.empty \<lparr> order_lifespan = 100, order_exec_time = 10, retry_suspended_prob = 5 \<rparr>,
     xs_pools = put_confirmed sample_pools RBT.empty (Confirmed (AsBox (sample_box 100000000000) sample_pool)),
     xs_bundles = RBT.empty, xs_funding = RBT.empty, xs_context_cache = (0, 0) \<rparr>"

lemma sample_backlog_ok: "orders_ok RBT.empty" "orders_ok (bl_store (xs_backlog sample_executor_state))"
  by (simp_all add: sample_executor_state_def backlog_new_def rocks_ok_def mem_rocksdb_def)

section \<open>Properties\<close>

text \<open>An attempt of the executor loses no order.  Whatever the network answers, what it does to the
  backlog is a run of the life of the backlog in which only the order it has popped may stay handed
  out: every other stored order is pending, suspended or to be revisited.\<close>

theorem executor_loses_no_order:
  assumes "executor E content ok X" "ok s0" "backlog_reach E s0 bc (xs_backlog st, fl)" "try_execute_next X rd st = Some (res, st')"
  shows "\<exists>popped b fl'. backlog_try_pop E (er_now rd) (er_rng rd) (er_now' rd) (xs_backlog st) = Some (popped, b) \<and>
    fl' \<subseteq> fl \<union> be_ref E ` set_option popped \<and> backlog_reach E s0 bc (xs_backlog st', fl') \<and>
    (\<forall>i. backlog_exists E (xs_backlog st') i \<longrightarrow> i \<in> tracked E (xs_backlog st') \<union> fl')"
proof -
  have b: "backlog E content ok" using assms(1) by (rule executor.axioms(1))
  obtain popped b fl' where r: "backlog_try_pop E (er_now rd) (er_rng rd) (er_now' rd) (xs_backlog st) = Some (popped, b)"
    "fl' \<subseteq> fl \<union> be_ref E ` set_option popped" "backlog_reach E s0 bc (xs_backlog st', fl')"
    using executor.attempt_reaches [OF assms(1,3,4)] unfolding executor.reaches_def [OF assms(1)] by (elim exE conjE) (rule that)
  have t: "ok (bl_store (xs_backlog st'))" "dom (content (bl_store (xs_backlog st'))) \<subseteq> tracked E (xs_backlog st') \<union> fl'"
    using backlog.reach_tracked [OF b assms(2) r(3)] by simp_all
  have "i \<in> tracked E (xs_backlog st') \<union> fl'" if "backlog_exists E (xs_backlog st') i" for i
    using that t backlog_store.exists_iff [OF backlog.axioms(2) [OF b] t(1)] by (auto simp: backlog_exists_def)
  then show ?thesis using r by blast
qed


text \<open>C30: After an accepted transaction the next order of the pool runs against the pool the
  transaction has created, before it is confirmed: the prediction is linked to the state the
  order ran against, and resolution returns it.  The new box is not known yet and a state of the pool is confirmed.\<close>

theorem accepted_pool_is_next:
  assumes "entity_repo (xe_pools X)" "env_ref (xe_pools X) = pool_box_self_ref" "env_state_ref (xe_pools X) = pool_box_self_state_ref"
    and "repo_wf (xe_pools X) (xs_pools st)" "resolve_entity_state (xe_pools X) (xs_pools st) (pl_pool_id (as_val pool)) = Some (Some pool)"
    and "get_last_confirmed (xe_pools X) (xs_pools st) (pl_pool_id (as_val pool)) \<noteq> None"
    and "run_order X rd ord pool bundles ctx f = Some (Some (Inr (tx, Predicted next_pool, nb, rf, ot)), f')"
    and "unknown_state (xe_pools X) (xs_pools st) (box_id (as_bx next_pool))" "er_sign rd tx = Inr tx'" "net_submit_tx (er_network rd) tx' = Inr ()"
    and "handle_run_result X rd ord pool bundles (Inr (tx, Predicted next_pool, nb, rf, ot)) st = Some st'"
  shows "resolve_entity_state (xe_pools X) (xs_pools st') (pl_pool_id (as_val pool)) = Some (Some next_pool)"
proof -
  have "xs_pools st' = put_predicted (xe_pools X) (xs_pools st) \<lparr> tr_state = Predicted next_pool, tr_prev_state_id = Some (env_state_ref (xe_pools X) pool) \<rparr>"
    using assms(9-11) by (auto simp: handle_run_result_def submission_accepted_def Let_def split: option.splits)
  moreover have "env_ref (xe_pools X) next_pool = pl_pool_id (as_val pool)"
    using run_order_pool_id [OF assms(7)] assms(2) by (simp add: pool_box_self_ref_def)
  moreover have "unknown_state (xe_pools X) (xs_pools st) (env_state_ref (xe_pools X) next_pool)"
    using assms(3,8) by (simp add: pool_box_self_state_ref_def)
  ultimately show ?thesis using entity_repo.resolve_chains [OF assms(1,4,5,6)] by simp
qed

lemma empty_pop:
  "backlog_try_pop order_env now 50 now' (xs_backlog sample_executor_state) = Some (None, xs_backlog sample_executor_state)"
proof -
  have "db_scan mem_rocksdb RBT.empty [] = []" by (simp add: mem.scan_Nil) (simp add: mem_rocksdb_def)
  then have "bs_find_orders (be_store order_env) RBT.empty (\<lambda>_. True) = []"
    by (simp add: order_env_def backlog_store_rocksdb_def store_find_orders_def)
  then have b: "bl_pending (xs_backlog sample_executor_state) = pq_new list_pq" "bl_revisit (xs_backlog sample_executor_state) = []"
    "retry_suspended_prob (bl_conf (xs_backlog sample_executor_state)) = 5"
    by (simp_all add: sample_executor_state_def backlog_new_def order_env_def)
  have "pq_pop (be_pq order_env) (pq_new list_pq) = None" by (simp add: order_env_def list_pq_def)
  then have "try_pop_max_order order_env c n k s (pq_new list_pq) = Some (None, s, pq_new list_pq)" for c n k s
    by (subst try_pop_max_order.simps) simp
  then show ?thesis using b by (simp add: backlog_try_pop_def revisit_progressing_orders_def)
qed

theorem executor_loses_no_order_witness:
  "\<exists>st'. try_execute_next sample_executor sample_readings sample_executor_state = Some (Inl (), st') \<and>
     (\<exists>popped b. backlog_try_pop order_env (\<lambda>_. 0) 50 (\<lambda>_. 0) (xs_backlog sample_executor_state) = Some (popped, b) \<and>
       (\<exists>fl' \<subseteq> {} \<union> be_ref order_env ` set_option popped. \<forall>i. backlog_exists order_env (xs_backlog st') i \<longrightarrow> i \<in> tracked order_env (xs_backlog st') \<union> fl'))"
proof -
  have rd: "er_now sample_readings = (\<lambda>_. 0)" "er_rng sample_readings = 50" "er_now' sample_readings = (\<lambda>_. 0)" by (simp_all add: sample_readings_def)
  have "try_execute_next sample_executor sample_readings sample_executor_state = Some (Inl (), sample_executor_state)"
    unfolding try_execute_next_def sample_executor.service_ops rd by (simp add: empty_pop)
  moreover have "backlog_reach order_env RBT.empty \<lparr> order_lifespan = 100, order_exec_time = 10, retry_suspended_prob = 5 \<rparr> (xs_backlog sample_executor_state, {})"
    unfolding sample_executor_state_def executor_state.select_convs by (rule backlog_reach.start)
  ultimately show ?thesis
    using executor_loses_no_order [OF sample_executor.executor_axioms sample_backlog_ok(1), of _ sample_executor_state "{}" sample_readings "Inl ()" sample_executor_state]
    unfolding rd by meson
qed


lemma sample_deposit_next:
  "\<exists>tx pb' p' bb b. deposit_try_run sample_lib (AsBox (sample_box 100000000000) sample_deposit) (AsBox (sample_box 100000000000) sample_pool)
     td sample_ctx = Some (Inr (tx, Predicted (AsBox pb' p'), Predicted (AsBox bb b))) \<and> box_id pb' = 2 \<and> amount (sb_vlq b) \<noteq> 0"
  unfolding deposit_try_run_def apply_deposit_def
  by (simp add: sample_ctx_def sample_deposit_def safe_sub_def saturating_sub_def erg_constants)
     (simp add: tx_io_vec_def pool_into_candidate_def deposit_out_into_candidate_def bundle_proto_into_candidate_def
        executor_into_candidate_def miner_into_candidate_def token_try_from_def box_value_of_def positive_long_def
        sample_pool_def pool_nft_def UNIT_VALUE_def BUNDLE_KEY_AMOUNT_def BUNDLE_KEY_AMOUNT_USER_def MAX_VALUE_def
        Let_def into_tx_without_proofs_def transaction_new_def sample_lib_def bundle_finalize_def box_of_candidate_def)

theorem accepted_pool_is_next_witness:
  "\<exists>res st' next_pool. run_order sample_executor sample_readings (OrdDeposit (AsBox (sample_box 100000000000) sample_deposit))
      (AsBox (sample_box 100000000000) sample_pool) [] sample_ctx RBT.empty = Some (Some res, RBT.empty) \<and>
    handle_run_result sample_executor sample_readings (OrdDeposit (AsBox (sample_box 100000000000) sample_deposit))
      (AsBox (sample_box 100000000000) sample_pool) [] res sample_executor_state = Some st' \<and> box_id (as_bx next_pool) = 2 \<and>
    resolve_entity_state sample_pools (xs_pools st') 1 = Some (Some next_pool)"
proof -
  let ?pool = "AsBox (sample_box 100000000000) sample_pool" and ?ord = "OrdDeposit (AsBox (sample_box 100000000000) sample_deposit)"
  obtain tx pb' p' bb b where run: "deposit_try_run sample_lib (AsBox (sample_box 100000000000) sample_deposit) ?pool
      (get_token_details (pl_pool_id sample_pool) (asset_id (budget_rem sample_pool)) (asset_id (dep_lq sample_deposit)) (er_network sample_readings)) sample_ctx
      = Some (Inr (tx, Predicted (AsBox pb' p'), Predicted (AsBox bb b)))" "box_id pb' = 2" "amount (sb_vlq b) \<noteq> 0"
    using sample_deposit_next by blast
  let ?res = "Inr (tx, Predicted (AsBox pb' p'), [Predicted (AsBox bb b)], None, ODeposit) :: order run_order_error + run_ok"
  have env: "xe_lib sample_executor = sample_lib" "xe_pools sample_executor = sample_pools" by (simp_all add: sample_executor_def)
  have ro: "run_order sample_executor sample_readings ?ord ?pool [] sample_ctx RBT.empty = Some (Some ?res, RBT.empty)"
    using run(1) by (simp add: run_order_def env Let_def)
  obtain ib where ib: "indexed_bundle_new b (conf sample_pool) = Some ib" using run(3) by (simp add: indexed_bundle_new_def)
  have sig: "er_sign sample_readings tx = Inr (into_tx_without_proofs sample_lib tx)" "net_submit_tx (er_network sample_readings) t = Inr ()" for t
    by (simp_all add: sample_readings_def)
  obtain st' where h: "handle_run_result sample_executor sample_readings ?ord ?pool [] ?res sample_executor_state = Some st'"
    using ib by (simp add: handle_run_result_def sig submission_accepted_def Let_def)
  let ?db = "xs_pools sample_executor_state"
  have pools: "repo_wf sample_pools RBT.empty" "abs_of sample_pools RBT.empty =
      \<lparr> ar_states = (\<lambda>_. None), ar_links = (\<lambda>_. None), ar_predicted = (\<lambda>_. None), ar_confirmed = (\<lambda>_. None), ar_unconfirmed = (\<lambda>_. None) \<rparr>"
    by (simp_all add: repo_wf_def abs_of_def get_state_def get_prediction_predecessor_def sample_pools_def mem_rocksdb_def fun_eq_iff)
  have wf: "repo_wf sample_pools ?db" by (simp add: sample_executor_state_def sample_pools.repo_wf_put_confirmed [OF pools(1)])
  have refs: "env_ref sample_pools = pool_box_self_ref" "env_state_ref sample_pools = pool_box_self_state_ref" by (simp_all add: sample_pools_def)
  have ids: "pool_box_self_ref ?pool = 1" "pool_box_self_state_ref ?pool = 99" "pl_pool_id sample_pool = 1"
    by (simp_all add: pool_box_self_ref_def pool_box_self_state_ref_def sample_pool_def sample_box_def)
  have abs: "abs_of sample_pools ?db = \<lparr> ar_states = [99 \<mapsto> ?pool], ar_links = (\<lambda>_. None), ar_predicted = (\<lambda>_. None), ar_confirmed = [1 \<mapsto> 99], ar_unconfirmed = (\<lambda>_. None) \<rparr>"
    by (simp add: sample_executor_state_def sample_pools.abs_put_confirmed pools(2) refs ids)
  have conf: "get_last_confirmed sample_pools ?db 1 \<noteq> None" by (simp add: sample_pools.get_last_confirmed_abs abs)
  have res: "resolve_entity_state sample_pools ?db 1 = Some (Some ?pool)"
    using sample_pools.resolve_no_prediction [OF wf, of 1] by (simp add: abs abs_prediction_def abs_anchor_def)
  have new: "unknown_state sample_pools ?db 2"
  proof -
    have "get_state sample_pools ?db = [99 \<mapsto> ?pool]" "get_prediction_predecessor sample_pools ?db = (\<lambda>_. None)"
      using abs by (simp_all add: abs_of_def)
    then show ?thesis by (simp add: unknown_state_def abs)
  qed
  have "resolve_entity_state sample_pools (xs_pools st') 1 = Some (Some (AsBox pb' p'))"
    using accepted_pool_is_next [of sample_executor sample_executor_state ?pool sample_readings ?ord "[]" sample_ctx RBT.empty tx "AsBox pb' p'"
        "[Predicted (AsBox bb b)]" None ODeposit RBT.empty "into_tx_without_proofs sample_lib tx" st']
      sample_pools.entity_repo_axioms refs wf res conf ro new sig h ids(3) run(2) by (simp add: env)
  then show ?thesis using ro h run(2) by (intro exI [of _ ?res] exI [of _ st'] exI [of _ "AsBox pb' p'"]) simp
qed

end
