(* ===== verification/Generic_Executor.thy ===== *)
theory Generic_Executor
  imports LM_Executor
begin

text \<open>
  The generic executor of \<open>spectrum-offchain/src/executor.rs\<close>: one order applied to one entity, over any order
  and entity.  The run of an order and the submission of its transaction are parameters, as the types that
  implement them are in the code.
\<close>

record ('o, 'oid, 'e, 'eid, 'sid, 'b, 'db, 'ctx, 'tx) generic_executor =
  ge_backlog :: "('o, 'oid, 'b) backlog_ops"
  ge_entities :: "('e, 'eid, 'sid, 'db) entity_env"
  ge_ref :: "'o \<Rightarrow> 'oid"
  ge_entity_ref :: "'o \<Rightarrow> 'eid"
  ge_try_run :: "'o \<Rightarrow> 'e \<Rightarrow> 'ctx \<Rightarrow> 'o run_order_error + 'tx \<times> 'e predicted"
  ge_ctx :: 'ctx

definition generic_try_execute_next :: "('o, 'oid, 'e, 'eid, 'sid, 'b, 'db, 'ctx, 'tx) generic_executor \<Rightarrow> (nat \<Rightarrow> i64) \<Rightarrow> u8 \<Rightarrow> (nat \<Rightarrow> i64)
    \<Rightarrow> ('tx \<Rightarrow> string + unit) \<Rightarrow> 'b \<times> 'db \<Rightarrow> ((unit + unit) \<times> 'b \<times> 'db) panics" where
  "generic_try_execute_next G now rng now' submit_tx st = do {
     (next_ord, b) \<leftarrow> blo_try_pop (ge_backlog G) now rng now' (fst st);
     let db = snd st;
     (case next_ord of
        None \<Rightarrow> Some (Inl (), b, db)
      | Some ord \<Rightarrow> do {
          entity \<leftarrow> resolve_entity_state (ge_entities G) db (ge_entity_ref G ord);
          (case entity of
             None \<Rightarrow> Some (Inl (), b, db)
           | Some e \<Rightarrow> (case ge_try_run G ord e (ge_ctx G) of
               Inr (tx, next_entity_state) \<Rightarrow> (case submit_tx tx of
                   Inl err \<Rightarrow> do {
                     b' \<leftarrow> blo_recharge (ge_backlog G) b ord;
                     Some (Inr (), b', invalidate (ge_entities G) db (env_state_ref (ge_entities G) e) (env_ref (ge_entities G) e)) }
                 | Inr _ \<Rightarrow> Some (Inr (), b, put_predicted (ge_entities G) db
                     \<lparr> tr_state = next_entity_state, tr_prev_state_id = Some (env_state_ref (ge_entities G) e) \<rparr>))
             | Inl (NonFatal err ord') \<Rightarrow> do { (_, b') \<leftarrow> blo_suspend (ge_backlog G) b ord'; Some (Inr (), b', db) }
             | Inl (Fatal err ord') \<Rightarrow> Some (Inr (), blo_remove (ge_backlog G) b (ge_ref G ord'), db))) }) }"

text \<open>
  An element of \<open>executor_stream\<close>: an attempt once the tip of the chain is reached; the delay that follows a failed attempt
  or a missing tip is the boolean.
\<close>

definition THROTTLE_SECS :: u64 where "THROTTLE_SECS = 1"

definition executor_stream_step :: "('st \<Rightarrow> ((unit + unit) \<times> 'st) panics) \<Rightarrow> bool \<Rightarrow> 'st \<Rightarrow> (u64 option \<times> 'st) panics" where
  "executor_stream_step attempt tip_reached st =
     (if tip_reached
      then do { (res, st') \<leftarrow> attempt st; Some (case res of Inl _ \<Rightarrow> Some THROTTLE_SECS | Inr _ \<Rightarrow> None, st') }
      else Some (Some THROTTLE_SECS, st))"

text \<open>
  When the entity of the popped order cannot be resolved, the order is neither given back nor removed.
\<close>

lemma unresolved_order_dropped:
  assumes "blo_try_pop (ge_backlog G) now rng now' b = Some (Some ord, b')" "resolve_entity_state (ge_entities G) db (ge_entity_ref G ord) = Some None"
  shows "generic_try_execute_next G now rng now' submit_tx (b, db) = Some (Inl (), b', db)"
  using assms by (simp add: generic_try_execute_next_def)

lemma submitted_order_dropped:
  assumes "blo_try_pop (ge_backlog G) now rng now' b = Some (Some ord, b')" "resolve_entity_state (ge_entities G) db (ge_entity_ref G ord) = Some (Some e)"
    and "ge_try_run G ord e (ge_ctx G) = Inr (tx, next)" "submit_tx tx = Inr ()"
  shows "\<exists>db'. generic_try_execute_next G now rng now' submit_tx (b, db) = Some (Inr (), b', db')"
  using assms by (simp add: generic_try_execute_next_def)

text \<open>A prediction stored after an accepted transaction is what the next order of the entity runs against.\<close>

lemma generic_accepted_is_next:
  assumes "entity_repo (ge_entities G)" "repo_wf (ge_entities G) db"
    and "blo_try_pop (ge_backlog G) now rng now' b = Some (Some ord, b')" "resolve_entity_state (ge_entities G) db (ge_entity_ref G ord) = Some (Some e)"
    and "get_last_confirmed (ge_entities G) db (ge_entity_ref G ord) \<noteq> None"
    and "ge_try_run G ord e (ge_ctx G) = Inr (tx, Predicted next)" "submit_tx tx = Inr ()"
    and "env_ref (ge_entities G) next = ge_entity_ref G ord" "unknown_state (ge_entities G) db (env_state_ref (ge_entities G) next)"
  shows "\<exists>db'. generic_try_execute_next G now rng now' submit_tx (b, db) = Some (Inr (), b', db') \<and>
    resolve_entity_state (ge_entities G) db' (ge_entity_ref G ord) = Some (Some next)"
  using assms(3,4,6,7) entity_repo.resolve_chains [OF assms(1,2,4,5,8,9)] by (simp add: generic_try_execute_next_def)

end
