(* ===== verification/Mempool_Sync.thy ===== *)
theory Mempool_Sync
  imports Chain_Sync "HOL-Library.AList"
begin

text \<open>
  Synchronisation with the mempool of the node: crate \<open>ergo-mempool-sync\<close>.  The state the two streams of
  \<open>mempool_sync_stream\<close> share, the pagination loop of \<open>sync\<close>, the comparison of the fetched pool with the last
  projection, and the steps of the streams.

  The projection, a \<open>HashMap\<close>, is an association list with distinct keys.  The order in which a \<open>HashSet\<close>
  is iterated is not specified: it is a parameter that permutes the elements.  The answers of the node to
  the successive requests are a function of the number of the request.
\<close>

section \<open>State (lib.rs)\<close>

datatype 'tx mempool_update = TxAccepted 'tx | TxWithdrawn 'tx | TxConfirmed 'tx

record 'tx mempool_state =
  ms_latest_blocks :: "digest32 set list"
  ms_projection :: "(digest32 \<times> 'tx) list"
  ms_pending :: "'tx mempool_update list"

definition mempool_empty :: "'tx mempool_state" where
  "mempool_empty = \<lparr> ms_latest_blocks = [], ms_projection = [], ms_pending = [] \<rparr>"

definition KEEP_LAST_BLOCKS :: nat where "KEEP_LAST_BLOCKS = 10"

definition push_block :: "('tx \<Rightarrow> digest32) \<Rightarrow> 'tx mempool_state \<Rightarrow> 'tx block \<Rightarrow> 'tx mempool_state" where
  "push_block txid st blk =
     (let latest = ms_latest_blocks st @ [txid ` set (blk_transactions blk)]
      in st \<lparr> ms_latest_blocks := (if KEEP_LAST_BLOCKS < length latest then tl latest else latest) \<rparr>)"

definition pop_block :: "'tx mempool_state \<Rightarrow> 'tx mempool_state" where
  "pop_block st = st \<lparr> ms_latest_blocks := butlast (ms_latest_blocks st) \<rparr>"

section \<open>Polling the node\<close>

definition TXS_PER_REQUEST :: nat where "TXS_PER_REQUEST = 100"

text \<open>The loop over the pages; a failed request is repeated.  \<open>None\<close> is a loop that does not end.\<close>

partial_function (option) fetch_pool :: "(nat \<Rightarrow> nat \<Rightarrow> nat \<Rightarrow> client_error + 'tx list) \<Rightarrow> nat \<Rightarrow> nat \<Rightarrow> 'tx list \<Rightarrow> 'tx list option" where
  "fetch_pool fetch k offset pool = (case fetch k offset TXS_PER_REQUEST of
      Inr mempool_txs \<Rightarrow>
        if length mempool_txs < TXS_PER_REQUEST then Some (pool @ mempool_txs)
        else fetch_pool fetch (Suc k) (offset + length mempool_txs) (pool @ mempool_txs)
    | Inl error \<Rightarrow> fetch_pool fetch (Suc k) offset pool)"

definition drop_tx :: "digest32 \<Rightarrow> 'tx mempool_state \<Rightarrow> 'tx mempool_state" where
  "drop_tx i st = (case map_of (ms_projection st) i of
      Some tx \<Rightarrow> st \<lparr> ms_projection := AList.delete i (ms_projection st),
        ms_pending := ms_pending st @ [if \<exists>blk \<in> set (ms_latest_blocks st). i \<in> blk then TxConfirmed tx else TxWithdrawn tx] \<rparr>
    | None \<Rightarrow> st)"

definition accept_tx :: "('tx \<Rightarrow> digest32) \<Rightarrow> 'tx \<Rightarrow> 'tx mempool_state \<Rightarrow> 'tx mempool_state" where
  "accept_tx txid tx st =
     (if map_of (ms_projection st) (txid tx) \<noteq> None then st
      else st \<lparr> ms_projection := AList.update (txid tx) tx (ms_projection st), ms_pending := ms_pending st @ [TxAccepted tx] \<rparr>)"

definition sync_pool :: "('tx \<Rightarrow> digest32) \<Rightarrow> (digest32 list \<Rightarrow> digest32 list) \<Rightarrow> 'tx list \<Rightarrow> 'tx mempool_state \<Rightarrow> 'tx mempool_state" where
  "sync_pool txid hash_order pool st =
     (let new_pool_ids = map txid pool; old_pool_ids = map fst (ms_projection st);
          elim_txs = hash_order (filter (\<lambda>i. i \<notin> set new_pool_ids) old_pool_ids)
      in fold (accept_tx txid) pool (fold drop_tx elim_txs st))"

definition mempool_sync :: "('tx \<Rightarrow> digest32) \<Rightarrow> (digest32 list \<Rightarrow> digest32 list) \<Rightarrow> (nat \<Rightarrow> nat \<Rightarrow> nat \<Rightarrow> client_error + 'tx list)
    \<Rightarrow> 'tx mempool_state \<Rightarrow> 'tx mempool_state option" where
  "mempool_sync txid hash_order fetch st = map_option (\<lambda>pool. sync_pool txid hash_order pool st) (fetch_pool fetch 0 0 [])"

section \<open>The streams\<close>

definition START_HEIGHT :: u64 where "START_HEIGHT = 0"

definition mempool_start_height :: "client_error + u32 \<Rightarrow> u32" where
  "mempool_start_height chain_tip_height =
     ucast (case chain_tip_height of Inr height \<Rightarrow> ucast height - (of_nat KEEP_LAST_BLOCKS :: u64) | Inl error \<Rightarrow> START_HEIGHT)"

fun sync_ledger_step :: "('tx \<Rightarrow> digest32) \<Rightarrow> 'tx chain_upgrade \<Rightarrow> 'tx mempool_state \<Rightarrow> 'tx mempool_state" where
  "sync_ledger_step txid (RollForward blk) st = push_block txid st blk"
| "sync_ledger_step txid (RollBackward _) st = pop_block st"

text \<open>A turn of the loop of \<open>sync_mempool\<close>: the update that is yielded, when one is pending, and the state after the poll.\<close>

definition sync_mempool_step :: "('tx \<Rightarrow> digest32) \<Rightarrow> (digest32 list \<Rightarrow> digest32 list) \<Rightarrow> (nat \<Rightarrow> nat \<Rightarrow> nat \<Rightarrow> client_error + 'tx list)
    \<Rightarrow> 'tx mempool_state \<Rightarrow> ('tx mempool_update option \<times> 'tx mempool_state) option" where
  "sync_mempool_step txid hash_order fetch st =
     (let (maybe_upd, st) = (case ms_pending st of upd # upds \<Rightarrow> (Some upd, st \<lparr> ms_pending := upds \<rparr>) | [] \<Rightarrow> (None, st))
      in map_option (Pair maybe_upd) (mempool_sync txid hash_order fetch st))"

text \<open>
  The interleavings of the two streams: the updates yielded, the upgrades of the chain seen, and the shared state.
\<close>

definition hash_iteration :: "('a list \<Rightarrow> 'a list) \<Rightarrow> bool" where
  "hash_iteration f \<longleftrightarrow> (\<forall>xs. set (f xs) = set xs \<and> (distinct xs \<longrightarrow> distinct (f xs)))"

inductive mempool_run :: "('tx \<Rightarrow> digest32) \<Rightarrow> 'tx mempool_update list \<Rightarrow> 'tx chain_upgrade list \<Rightarrow> 'tx mempool_state \<Rightarrow> bool" for txid where
  run_init: "mempool_run txid [] [] mempool_empty"
| run_ledger: "mempool_run txid us vs st \<Longrightarrow> mempool_run txid us (vs @ [u]) (sync_ledger_step txid u st)"
| run_poll: "mempool_run txid us vs st \<Longrightarrow> hash_iteration hash_order \<Longrightarrow> sync_mempool_step txid hash_order fetch st = Some (upd, st') \<Longrightarrow>
    mempool_run txid (us @ (case upd of Some u \<Rightarrow> [u] | None \<Rightarrow> [])) vs st'"

section \<open>What a consumer sees\<close>

text \<open>
  The transactions a consumer of the updates takes to be in the mempool; \<open>None\<close> when an update does not
  fit: a transaction accepted twice, or withdrawn or confirmed without having been accepted.
\<close>

fun mempool_view :: "('tx \<Rightarrow> digest32) \<Rightarrow> digest32 set \<Rightarrow> 'tx mempool_update list \<Rightarrow> digest32 set option" where
  "mempool_view txid A [] = Some A"
| "mempool_view txid A (TxAccepted t # us) = (if txid t \<in> A then None else mempool_view txid (insert (txid t) A) us)"
| "mempool_view txid A (TxWithdrawn t # us) = (if txid t \<in> A then mempool_view txid (A - {txid t}) us else None)"
| "mempool_view txid A (TxConfirmed t # us) = (if txid t \<in> A then mempool_view txid (A - {txid t}) us else None)"

lemma mempool_view_append: "mempool_view txid A us = Some B \<Longrightarrow> mempool_view txid A (us @ vs) = mempool_view txid B vs"
  by (induction txid A us rule: mempool_view.induct) (auto split: if_splits)

definition projection_ids :: "'tx mempool_state \<Rightarrow> digest32 set" where
  "projection_ids st = fst ` set (ms_projection st)"

definition projection_wf :: "('tx \<Rightarrow> digest32) \<Rightarrow> 'tx mempool_state \<Rightarrow> bool" where
  "projection_wf txid st \<longleftrightarrow> distinct (map fst (ms_projection st)) \<and> (\<forall>(i, t) \<in> set (ms_projection st). txid t = i)"

lemma update_new: "k \<notin> fst ` set al \<Longrightarrow> AList.update k v al = al @ [(k, v)]"
  by (induction al) auto

lemma projection_mem: "map_of (ms_projection st) i = None \<longleftrightarrow> i \<notin> projection_ids st"
  by (simp add: projection_ids_def map_of_eq_None_iff)

lemma drop_tx_step:
  assumes "projection_wf txid st" "mempool_view txid A (ms_pending st) = Some (projection_ids st)" "i \<in> projection_ids st"
  shows "projection_wf txid (drop_tx i st) \<and> projection_ids (drop_tx i st) = projection_ids st - {i} \<and>
    mempool_view txid A (ms_pending (drop_tx i st)) = Some (projection_ids (drop_tx i st))"
proof -
  obtain t where t: "map_of (ms_projection st) i = Some t" using assms(3) projection_mem [of st i] by blast
  then have "(i, t) \<in> set (ms_projection st)" by (rule map_of_SomeD)
  then have i: "txid t = i" using assms(1) by (auto simp: projection_wf_def)
  have ids: "projection_ids (drop_tx i st) = projection_ids st - {i}"
    using arg_cong [OF delete_keys, of set i "ms_projection st"] by (simp add: drop_tx_def t projection_ids_def)
  have "projection_wf txid (drop_tx i st)"
    using assms(1) by (auto simp: projection_wf_def drop_tx_def t AList.delete_eq distinct_map_filter)
  then show ?thesis using ids mempool_view_append [OF assms(2)] assms(3) i by (simp add: drop_tx_def t)
qed

lemma accept_tx_step:
  assumes "projection_wf txid st" "mempool_view txid A (ms_pending st) = Some (projection_ids st)"
  shows "projection_wf txid (accept_tx txid t st) \<and> projection_ids (accept_tx txid t st) = insert (txid t) (projection_ids st) \<and>
    mempool_view txid A (ms_pending (accept_tx txid t st)) = Some (projection_ids (accept_tx txid t st))"
proof (cases "txid t \<in> projection_ids st")
  case True
  then have "accept_tx txid t st = st" using projection_mem [of st "txid t"] by (simp add: accept_tx_def)
  then show ?thesis using assms True by (simp add: insert_absorb)
next
  case False
  then have n: "map_of (ms_projection st) (txid t) = None" by (simp add: projection_mem)
  then have u: "AList.update (txid t) t (ms_projection st) = ms_projection st @ [(txid t, t)]"
    by (simp add: map_of_eq_None_iff update_new)
  have "projection_ids (accept_tx txid t st) = insert (txid t) (projection_ids st)"
    by (simp add: accept_tx_def n u projection_ids_def)
  moreover have "projection_wf txid (accept_tx txid t st)"
    using assms(1) False by (auto simp: accept_tx_def n u projection_wf_def projection_ids_def)
  ultimately show ?thesis using mempool_view_append [OF assms(2)] False by (simp add: accept_tx_def n)
qed

lemma drop_all_step:
  assumes "projection_wf txid st" "mempool_view txid A (ms_pending st) = Some (projection_ids st)" "set is \<subseteq> projection_ids st" "distinct is"
  shows "projection_wf txid (fold drop_tx is st) \<and> projection_ids (fold drop_tx is st) = projection_ids st - set is \<and>
    mempool_view txid A (ms_pending (fold drop_tx is st)) = Some (projection_ids (fold drop_tx is st))"
  using assms
proof (induction "is" arbitrary: st)
  case (Cons i "is")
  note d = drop_tx_step [OF Cons.prems(1,2), of i]
  then have s: "set is \<subseteq> projection_ids (drop_tx i st)" using Cons.prems(3,4) by auto
  show ?case using Cons.IH [of "drop_tx i st"] d s Cons.prems(3,4) by auto
qed simp

lemma accept_all_step:
  assumes "projection_wf txid st" "mempool_view txid A (ms_pending st) = Some (projection_ids st)"
  shows "projection_wf txid (fold (accept_tx txid) ts st) \<and> projection_ids (fold (accept_tx txid) ts st) = projection_ids st \<union> txid ` set ts \<and>
    mempool_view txid A (ms_pending (fold (accept_tx txid) ts st)) = Some (projection_ids (fold (accept_tx txid) ts st))"
  using assms
proof (induction ts arbitrary: st)
  case (Cons t ts)
  show ?case using Cons.IH [of "accept_tx txid t st"] accept_tx_step [OF Cons.prems, of t] by auto
qed simp

lemma sync_pool_step:
  assumes "projection_wf txid st" "mempool_view txid A (ms_pending st) = Some (projection_ids st)" "hash_iteration f"
  shows "projection_wf txid (sync_pool txid f pool st) \<and> projection_ids (sync_pool txid f pool st) = txid ` set pool \<and>
    mempool_view txid A (ms_pending (sync_pool txid f pool st)) = Some (txid ` set pool)"
proof -
  let ?is = "f (filter (\<lambda>i. i \<notin> set (map txid pool)) (map fst (ms_projection st)))"
  have s: "set ?is = projection_ids st - txid ` set pool" and d: "distinct ?is"
    using assms(1,3) by (auto simp: hash_iteration_def projection_ids_def projection_wf_def)
  note r = drop_all_step [OF assms(1,2) _ d]
  have "set ?is \<subseteq> projection_ids st" using s by auto
  note r = r [OF this]
  note a = accept_all_step [of txid "fold drop_tx ?is st" A pool]
  have e: "sync_pool txid f pool st = fold (accept_tx txid) pool (fold drop_tx ?is st)" by (simp add: sync_pool_def)
  have ids: "projection_ids st - set ?is \<union> txid ` set pool = txid ` set pool" unfolding s by auto
  show ?thesis unfolding e using a r ids by metis
qed

lemma latest_fold [simp]:
  "ms_latest_blocks (fold drop_tx is st) = ms_latest_blocks st" "ms_latest_blocks (fold (accept_tx txid) ts st) = ms_latest_blocks st"
proof -
  show "ms_latest_blocks (fold drop_tx is st) = ms_latest_blocks st"
    by (induction "is" arbitrary: st) (auto simp: drop_tx_def split: option.split)
  show "ms_latest_blocks (fold (accept_tx txid) ts st) = ms_latest_blocks st"
    by (induction ts arbitrary: st) (auto simp: accept_tx_def)
qed

lemma latest_sync [simp]: "ms_latest_blocks (sync_pool txid f pool st) = ms_latest_blocks st"
  by (simp add: sync_pool_def)

lemma mempool_view_appendD: "mempool_view txid A (us @ vs) = Some B \<Longrightarrow> \<exists>C. mempool_view txid A us = Some C \<and> mempool_view txid C vs = Some B"
  by (induction txid A us rule: mempool_view.induct) (auto split: if_splits)

lemma sync_mempool_cases:
  assumes "sync_mempool_step txid f fetch st = Some (upd, st')"
  obtains pool upds where "ms_pending st = (case upd of Some u \<Rightarrow> [u] | None \<Rightarrow> []) @ upds" "st' = sync_pool txid f pool (st \<lparr> ms_pending := upds \<rparr>)"
    "fetch_pool fetch 0 0 [] = Some pool"
proof (cases "ms_pending st")
  case Nil
  then have e: "st \<lparr> ms_pending := [] \<rparr> = st" by simp
  obtain pool where "upd = None" "st' = sync_pool txid f pool st" "fetch_pool fetch 0 0 [] = Some pool"
    using assms Nil by (auto simp: sync_mempool_step_def mempool_sync_def)
  then show thesis using that [of "[]" pool] Nil by (simp only: e option.case append_Nil)
qed (use that assms in \<open>auto simp: sync_mempool_step_def mempool_sync_def\<close>)

lemma mempool_run_view:
  "mempool_run txid us vs st \<Longrightarrow> projection_wf txid st \<and> mempool_view txid {} (us @ ms_pending st) = Some (projection_ids st)"
proof (induction rule: mempool_run.induct)
  case run_init
  show ?case by (simp add: mempool_empty_def projection_wf_def projection_ids_def)
next
  case (run_ledger us vs st u)
  then show ?case by (cases u) (simp_all add: push_block_def pop_block_def Let_def projection_wf_def projection_ids_def)
next
  case (run_poll us vs st f fetch upd st')
  obtain pool upds where p: "ms_pending st = (case upd of Some u \<Rightarrow> [u] | None \<Rightarrow> []) @ upds" "st' = sync_pool txid f pool (st \<lparr> ms_pending := upds \<rparr>)"
    by (rule sync_mempool_cases [OF run_poll.hyps(3)])
  let ?us = "us @ (case upd of Some u \<Rightarrow> [u] | None \<Rightarrow> [])" and ?st = "st \<lparr> ms_pending := upds \<rparr>"
  obtain A where A: "mempool_view txid {} ?us = Some A" "mempool_view txid A upds = Some (projection_ids st)"
    using run_poll.IH p(1) mempool_view_appendD [of txid "{}" ?us upds] by auto
  have w: "projection_wf txid ?st" "mempool_view txid A (ms_pending ?st) = Some (projection_ids ?st)"
    using run_poll.IH A(2) by (simp_all add: projection_wf_def projection_ids_def)
  show ?case using sync_pool_step [OF w run_poll.hyps(2), of pool] mempool_view_append [OF A(1)] by (simp add: p(2))
qed

text \<open>The window of the ledger stream holds the newest blocks of the chain it has followed, ten at most.\<close>

definition block_ids :: "('tx \<Rightarrow> digest32) \<Rightarrow> 'tx block \<Rightarrow> digest32 set" where
  "block_ids txid b = txid ` set (blk_transactions b)"

lemma apply_upgrades_snocD:
  "apply_upgrades st (us @ [u]) = Some st' \<Longrightarrow> \<exists>st1. apply_upgrades st us = Some st1 \<and> apply_upgrades st1 [u] = Some st'"
  by (induction st us rule: apply_upgrades.induct) (auto split: list.splits if_splits)

lemma tl_rev: "tl (rev xs) = rev (butlast xs)"
  by (cases xs rule: rev_cases) simp_all

definition newest :: "('a \<Rightarrow> 'b) \<Rightarrow> 'b list \<Rightarrow> 'a list \<Rightarrow> bool" where
  "newest g w st \<longleftrightarrow> length w \<le> length st \<and> w = rev (map g (take (length w) st))"

lemma newest_push: "newest g w st \<Longrightarrow> newest g (w @ [g b]) (b # st)"
  by (simp add: newest_def)

lemma newest_tl: "newest g w st \<Longrightarrow> newest g (tl w) st"
  by (cases "length w") (auto simp: newest_def tl_rev butlast_take simp flip: map_butlast dest: arg_cong [of _ _ tl])

lemma newest_pop: "newest g w (b # st) \<Longrightarrow> newest g (butlast w) st"
proof (cases "length w")
  case (Suc n)
  assume "newest g w (b # st)"
  then have "w = rev (map g (take n st)) @ [g b]" "n \<le> length st" using Suc by (simp_all add: newest_def)
  then show ?thesis by (simp add: newest_def)
qed (simp add: newest_def)

lemma mempool_run_window:
  "mempool_run txid us vs st \<Longrightarrow> apply_upgrades [] vs = Some chain \<Longrightarrow>
   length (ms_latest_blocks st) \<le> KEEP_LAST_BLOCKS \<and>
   newest (block_ids txid) (ms_latest_blocks st) chain"
proof (induction arbitrary: chain rule: mempool_run.induct)
  case run_init
  show ?case by (simp add: mempool_empty_def newest_def)
next
  case (run_ledger us vs st u)
  obtain c0 where c: "apply_upgrades [] vs = Some c0" "apply_upgrades c0 [u] = Some chain" using apply_upgrades_snocD [OF run_ledger.prems] by blast
  note ih = run_ledger.IH [OF c(1)]
  show ?case
  proof (cases u)
    case (RollForward b)
    then have "chain = b # c0" using c(2) by (simp split: if_splits)
    then show ?thesis using newest_push [OF conjunct2 [OF ih], of b] newest_tl [OF newest_push [OF conjunct2 [OF ih], of b]] ih
      by (simp add: RollForward push_block_def Let_def block_ids_def [symmetric])
  next
    case (RollBackward b)
    then have "c0 = b # chain" using c(2) by (simp split: if_splits list.splits)
    then show ?thesis using newest_pop [of "block_ids txid" "ms_latest_blocks st" b chain] ih by (auto simp: RollBackward pop_block_def)
  qed
next
  case (run_poll us vs st f fetch upd st')
  obtain pool upds where p: "st' = sync_pool txid f pool (st \<lparr> ms_pending := upds \<rparr>)" by (rule sync_mempool_cases [OF run_poll.hyps(3)])
  then show ?case using run_poll.IH [OF run_poll.prems] by simp
qed

text \<open>The updates of a poll.\<close>

lemma drop_all_pending:
  assumes "distinct is" "set is \<subseteq> projection_ids st"
  shows "ms_pending (fold drop_tx is st) = ms_pending st @ map (\<lambda>i. (if \<exists>blk \<in> set (ms_latest_blocks st). i \<in> blk then TxConfirmed else TxWithdrawn)
    (the (map_of (ms_projection st) i))) is"
  using assms
proof (induction "is" arbitrary: st)
  case (Cons i "is")
  obtain t where t: "map_of (ms_projection st) i = Some t" using Cons.prems(2) projection_mem [of st i] by auto
  have s: "set is \<subseteq> projection_ids (drop_tx i st)"
    using Cons.prems arg_cong [OF delete_keys, of set i "ms_projection st"] by (auto simp: drop_tx_def t projection_ids_def)
  have o: "map_of (ms_projection (drop_tx i st)) j = map_of (ms_projection st) j" if "j \<in> set is" for j
  proof -
    have "j \<noteq> i" using that Cons.prems(1) by auto
    then show ?thesis by (simp add: drop_tx_def t)
  qed
  have "ms_latest_blocks (drop_tx i st) = ms_latest_blocks st" by (simp add: drop_tx_def t)
  with Cons.IH [OF _ s] Cons.prems(1) o show ?case by (simp add: drop_tx_def t)
qed simp

lemma verdict_mem:
  assumes "i \<in> set is" "g i = t" "\<And>j. j \<in> set is \<Longrightarrow> g j = t \<Longrightarrow> j = i"
  shows "TxConfirmed t \<in> set (map (\<lambda>i. (if P i then TxConfirmed else TxWithdrawn) (g i)) is) \<longleftrightarrow> P i"
    and "TxWithdrawn t \<in> set (map (\<lambda>i. (if P i then TxConfirmed else TxWithdrawn) (g i)) is) \<longleftrightarrow> \<not> P i"
proof -
  have "TxConfirmed t = (if P j then TxConfirmed else TxWithdrawn) (g j) \<longleftrightarrow> P j \<and> t = g j"
    "TxWithdrawn t = (if P j then TxConfirmed else TxWithdrawn) (g j) \<longleftrightarrow> \<not> P j \<and> t = g j" for j by simp_all
  then show "TxConfirmed t \<in> set (map (\<lambda>i. (if P i then TxConfirmed else TxWithdrawn) (g i)) is) \<longleftrightarrow> P i"
    "TxWithdrawn t \<in> set (map (\<lambda>i. (if P i then TxConfirmed else TxWithdrawn) (g i)) is) \<longleftrightarrow> \<not> P i"
    using assms unfolding set_map image_iff by metis+
qed

lemma accept_all_pending: "\<exists>ts'. ms_pending (fold (accept_tx txid) ts st) = ms_pending st @ map TxAccepted ts'"
proof (induction ts arbitrary: st)
  case (Cons t ts)
  obtain ts' where "ms_pending (fold (accept_tx txid) ts (accept_tx txid t st)) = ms_pending (accept_tx txid t st) @ map TxAccepted ts'"
    using Cons.IH by blast
  moreover have "\<exists>us. ms_pending (accept_tx txid t st) = ms_pending st @ map TxAccepted us"
    by (cases "map_of (ms_projection st) (txid t)") (auto simp: accept_tx_def intro: exI [of _ "[]"] exI [of _ "[t]"])
  ultimately show ?case by (auto simp flip: map_append)
qed simp

text \<open>A node that serves the pages of a pool.\<close>

definition serves_pages :: "'tx list \<Rightarrow> (nat \<Rightarrow> nat \<Rightarrow> nat \<Rightarrow> client_error + 'tx list) \<Rightarrow> bool" where
  "serves_pages mempool fetch \<longleftrightarrow> (\<forall>k offset limit txs. fetch k offset limit = Inr txs \<longrightarrow> txs = take limit (drop offset mempool))"

lemma fetch_pool_retry:
  assumes "\<forall>i < n. \<exists>e. fetch (k + i) offset TXS_PER_REQUEST = Inl e"
  shows "fetch_pool fetch k offset pool = fetch_pool fetch (k + n) offset pool"
  using assms
proof (induction n arbitrary: k)
  case (Suc n)
  obtain e where "fetch k offset TXS_PER_REQUEST = Inl e" using Suc.prems by (metis add.right_neutral zero_less_Suc)
  then have "fetch_pool fetch k offset pool = fetch_pool fetch (Suc k) offset pool" by (subst fetch_pool.simps) simp
  also have "\<dots> = fetch_pool fetch (Suc k + n) offset pool"
    using Suc.prems by (intro Suc.IH) (metis Suc_less_eq add_Suc_shift)
  finally show ?case by simp
qed simp

lemma fetch_pool_complete:
  assumes "serves_pages mempool fetch" "\<forall>k offset. \<exists>j \<ge> k. \<exists>txs. fetch j offset TXS_PER_REQUEST = Inr txs"
  shows "offset \<le> length mempool \<Longrightarrow> fetch_pool fetch k offset (take offset mempool) = Some mempool"
proof (induction "length mempool - offset" arbitrary: offset k rule: less_induct)
  case less
  define n where "n = (LEAST n. \<exists>txs. fetch (k + n) offset TXS_PER_REQUEST = Inr txs)"
  have "\<exists>n txs. fetch (k + n) offset TXS_PER_REQUEST = Inr txs" using assms(2) by (metis le_add_diff_inverse)
  then have "\<exists>txs. fetch (k + n) offset TXS_PER_REQUEST = Inr txs" unfolding n_def by (rule LeastI_ex)
  then obtain txs where t: "fetch (k + n) offset TXS_PER_REQUEST = Inr txs" by blast
  have "\<exists>e. fetch (k + i) offset TXS_PER_REQUEST = Inl e" if "i < n" for i
    using not_less_Least [OF that [unfolded n_def]] by (cases "fetch (k + i) offset TXS_PER_REQUEST") auto
  then have r: "fetch_pool fetch k offset (take offset mempool) = fetch_pool fetch (k + n) offset (take offset mempool)"
    by (intro fetch_pool_retry) blast
  have txs: "txs = take TXS_PER_REQUEST (drop offset mempool)" using assms(1) t by (simp add: serves_pages_def)
  have app: "take offset mempool @ txs = take (offset + TXS_PER_REQUEST) mempool" by (simp add: txs take_add)
  show ?case
  proof (cases "length txs < TXS_PER_REQUEST")
    case True
    then have "length mempool \<le> offset + TXS_PER_REQUEST" by (simp add: txs)
    then have "fetch_pool fetch (k + n) offset (take offset mempool) = Some mempool"
      using True app by (subst fetch_pool.simps) (simp add: t)
    then show ?thesis by (simp add: r)
  next
    case False
    then have l: "length txs = TXS_PER_REQUEST" "offset + TXS_PER_REQUEST \<le> length mempool" using less.prems by (auto simp: txs TXS_PER_REQUEST_def)
    have "fetch_pool fetch (k + n) offset (take offset mempool) = fetch_pool fetch (Suc (k + n)) (offset + TXS_PER_REQUEST) (take (offset + TXS_PER_REQUEST) mempool)"
      using app by (subst fetch_pool.simps) (simp add: t l(1))
    also have "\<dots> = Some mempool" using l(2) by (intro less) (simp_all add: TXS_PER_REQUEST_def)
    finally show ?thesis by (simp add: r)
  qed
qed

section \<open>Properties\<close>



text \<open>A transaction that has left the mempool is reported as confirmed by the next poll exactly when one of
  the newest blocks of the chain the ledger stream has followed, ten at most, holds it, and as withdrawn otherwise.\<close>

theorem mempool_verdict:
  assumes "mempool_run txid us vs st" "apply_upgrades [] vs = Some chain" "hash_iteration f" "map_of (ms_projection st) i = Some t" "i \<notin> txid ` set pool"
  shows "\<exists>n \<le> KEEP_LAST_BLOCKS. let upds = drop (length (ms_pending st)) (ms_pending (sync_pool txid f pool st));
      confirmed = (\<exists>b \<in> set (take n chain). i \<in> block_ids txid b)
    in (TxConfirmed t \<in> set upds \<longleftrightarrow> confirmed) \<and> (TxWithdrawn t \<in> set upds \<longleftrightarrow> \<not> confirmed)"
proof -
  have wf: "projection_wf txid st" using mempool_run_view [OF assms(1)] by blast
  note win = mempool_run_window [OF assms(1,2)]
  let ?is = "f (filter (\<lambda>i. i \<notin> set (map txid pool)) (map fst (ms_projection st)))" and ?n = "length (ms_latest_blocks st)"
  let ?v = "\<lambda>i. (if \<exists>blk \<in> set (ms_latest_blocks st). i \<in> blk then TxConfirmed else TxWithdrawn) (the (map_of (ms_projection st) i))"
  have s: "set ?is = projection_ids st - txid ` set pool" and d: "distinct ?is"
    using assms(3) wf by (auto simp: hash_iteration_def projection_ids_def projection_wf_def)
  have "set ?is \<subseteq> projection_ids st" using s by auto
  note dp = drop_all_pending [OF d this]
  obtain ts where "ms_pending (sync_pool txid f pool st) = ms_pending (fold drop_tx ?is st) @ map TxAccepted ts"
    using accept_all_pending [of txid pool "fold drop_tx ?is st"] by (auto simp: sync_pool_def)
  then have u: "drop (length (ms_pending st)) (ms_pending (sync_pool txid f pool st)) = map ?v ?is @ map TxAccepted ts" by (simp add: dp del: set_map)
  have inj: "j = i" if "j \<in> set ?is" "the (map_of (ms_projection st) j) = t" for j
  proof -
    have "j \<in> projection_ids st" using that(1) unfolding s by blast
    then obtain x where x: "map_of (ms_projection st) j = Some x" using projection_mem [of st j] by blast
    then have "(j, t) \<in> set (ms_projection st)" using that(2) map_of_SomeD [OF x] by simp
    then have "txid t = j" "txid t = i" using wf map_of_SomeD [OF assms(4)] by (fastforce simp: projection_wf_def)+
    then show ?thesis by simp
  qed
  have i: "i \<in> set ?is" unfolding s using assms(4,5) projection_mem [of st i] by auto
  have c: "(\<exists>b \<in> set (take ?n chain). i \<in> block_ids txid b) \<longleftrightarrow> (\<exists>blk \<in> set (ms_latest_blocks st). i \<in> blk)"
  proof -
    have "ms_latest_blocks st = rev (map (block_ids txid) (take ?n chain))" using win by (simp add: newest_def)
    then have "set (ms_latest_blocks st) = block_ids txid ` set (take ?n chain)" by (metis set_map set_rev)
    then show ?thesis by auto
  qed
  have g: "the (map_of (ms_projection st) i) = t" using assms(4) by simp
  note v = verdict_mem [OF i, of "\<lambda>j. the (map_of (ms_projection st) j)", OF g inj, of "\<lambda>i. \<exists>blk \<in> set (ms_latest_blocks st). i \<in> blk"]
  show ?thesis unfolding u Let_def set_append Un_iff c [symmetric]
    using win v c by (intro exI [of _ ?n]) auto
qed

lemma verdict_sample:
  "map_of (ms_projection (sync_pool (\<lambda>t. t) (\<lambda>xs. xs) [5 :: digest32] mempool_empty)) 5 = Some 5"
  by (simp add: sync_pool_def accept_tx_def mempool_empty_def)

theorem mempool_verdict_witness:
  "TxWithdrawn 5 \<in> set (drop 1 (ms_pending (sync_pool (\<lambda>t. t) (\<lambda>xs. xs) [] (sync_pool (\<lambda>t. t) (\<lambda>xs. xs) [5 :: digest32] mempool_empty))))"
proof -
  have p: "mempool_run (\<lambda>t. t) [] [] (sync_pool (\<lambda>t. t) (\<lambda>xs. xs) [5 :: digest32] mempool_empty)"
    using run_poll [OF run_init, of "\<lambda>xs. xs" "\<lambda>t. t" "\<lambda>_ _ _. Inr [5]" None]
    by (simp add: hash_iteration_def sync_mempool_step_def mempool_sync_def mempool_empty_def fetch_pool.simps TXS_PER_REQUEST_def)
  have l: "length (ms_pending (sync_pool (\<lambda>t. t) (\<lambda>xs. xs) [5 :: digest32] mempool_empty)) = 1"
    by (simp add: sync_pool_def accept_tx_def mempool_empty_def)
  show ?thesis using mempool_verdict [OF p _ _ verdict_sample, of "[]" "\<lambda>xs. xs" "[]"] l by (simp add: hash_iteration_def Let_def)
qed

text \<open>C37: A poll ends and is complete when the node answers again and again: however many requests
  fail, as long as one succeeds from every moment on and the answers are pages of the node's pool, the loop over
  the pages returns, and the projection holds exactly the transactions of that pool.\<close>

theorem mempool_poll_completes:
  assumes "mempool_run txid us vs st" "hash_iteration f" "serves_pages mempool fetch" "\<forall>k offset. \<exists>j \<ge> k. \<exists>txs. fetch j offset TXS_PER_REQUEST = Inr txs"
  shows "\<exists>upd st'. sync_mempool_step txid f fetch st = Some (upd, st') \<and> projection_ids st' = txid ` set mempool"
proof -
  have "fetch_pool fetch 0 0 [] = Some mempool" using fetch_pool_complete [OF assms(3,4), of 0 0] by simp
  then obtain upd st' where r: "sync_mempool_step txid f fetch st = Some (upd, st')"
    by (cases "ms_pending st") (simp_all add: sync_mempool_step_def mempool_sync_def)
  obtain pool upds where p: "ms_pending st = (case upd of Some u \<Rightarrow> [u] | None \<Rightarrow> []) @ upds" "st' = sync_pool txid f pool (st \<lparr> ms_pending := upds \<rparr>)"
    "fetch_pool fetch 0 0 [] = Some pool" by (rule sync_mempool_cases [OF r])
  have "pool = mempool" using p(3) \<open>fetch_pool fetch 0 0 [] = Some mempool\<close> by simp
  note v = mempool_run_view [OF assms(1)]
  obtain A where A: "mempool_view txid A upds = Some (projection_ids st)"
    using v p(1) mempool_view_appendD [of txid "{}" "us @ (case upd of Some u \<Rightarrow> [u] | None \<Rightarrow> [])" upds] by auto
  have w: "projection_wf txid (st \<lparr> ms_pending := upds \<rparr>)" "mempool_view txid A (ms_pending (st \<lparr> ms_pending := upds \<rparr>)) = Some (projection_ids (st \<lparr> ms_pending := upds \<rparr>))"
    using v A by (simp_all add: projection_wf_def projection_ids_def)
  show ?thesis using r sync_pool_step [OF w assms(2), of pool] by (simp add: p(2) \<open>pool = mempool\<close>)
qed

definition flaky_node :: "nat \<Rightarrow> nat \<Rightarrow> nat \<Rightarrow> client_error + digest32 list" where
  "flaky_node k offset limit = (if even k then Inl IsahcError else Inr (take limit (drop offset [5])))"

theorem mempool_poll_completes_witness:
  "\<exists>upd st'. sync_mempool_step (\<lambda>t. t) (\<lambda>xs. xs) flaky_node mempool_empty = Some (upd, st') \<and> projection_ids st' = {5}"
proof -
  have "\<exists>j \<ge> k. \<exists>txs. flaky_node j offset TXS_PER_REQUEST = Inr txs" for k offset
    by (cases "even k") (auto simp: flaky_node_def intro: exI [of _ "Suc k"] exI [of _ k])
  moreover have "serves_pages [5] flaky_node" by (simp add: serves_pages_def flaky_node_def)
  ultimately show ?thesis
    using mempool_poll_completes [OF run_init, of "\<lambda>xs. xs" "[5]" flaky_node "\<lambda>t. t"] by (simp add: hash_iteration_def)
qed

end
