(* ===== verification/Event_Handlers.thy ===== *)
theory Event_Handlers
  imports Entity_Repo Mempool_Sync Order_Data
begin

text \<open>
  From blocks to updates: the event source (\<open>spectrum-offchain/src/event_source.rs\<close>), the dispatch of events
  (\<open>event_sink.rs\<close>, \<open>event_sink/types.rs\<close>) and the generic handlers of entities and orders
  (\<open>event_sink/handlers/entity.rs\<close>, \<open>order.rs\<close>).

  A handler is a function of the repository it reads; its result is the list of updates it feeds into its
  topic, an unbounded channel whose \<open>feed\<close> does not fail, and the event it hands back, \<open>None\<close> when it has dealt
  with it.  A \<open>HashMap\<close> is an association list, and the order in which the union of its keys is iterated is the parameter
  \<open>hash_order\<close>.
\<close>

section \<open>Events of the ledger (event\_source.rs)\<close>

datatype ledger_tx_event = AppliedTx i64 transaction | UnappliedTx transaction

fun process_upgrade :: "transaction chain_upgrade \<Rightarrow> ledger_tx_event list" where
  "process_upgrade (RollForward blk) = map (AppliedTx (blk_timestamp blk)) (blk_transactions blk)"
| "process_upgrade (RollBackward blk) = map UnappliedTx (rev (blk_transactions blk))"

section \<open>Dispatch (event\_sink.rs)\<close>

fun try_handlers :: "('ev \<Rightarrow> 'st \<Rightarrow> ('ev option \<times> 'st) panics) list \<Rightarrow> 'ev \<Rightarrow> 'ev option \<Rightarrow> 'st \<Rightarrow> ('ev option \<times> 'st) panics" where
  "try_handlers [] ev unhandled_ev st = Some (unhandled_ev, st)"
| "try_handlers (han # hans) ev unhandled_ev st = do {
     (maybe_unhandled_ev, st) \<leftarrow> han ev st;
     try_handlers hans ev (if unhandled_ev \<noteq> None then maybe_unhandled_ev else unhandled_ev) st }"

definition process_event :: "('ev \<Rightarrow> 'st \<Rightarrow> ('ev option \<times> 'st) panics) list \<Rightarrow> ('ev \<Rightarrow> 'st \<Rightarrow> 'st) \<Rightarrow> 'ev \<Rightarrow> 'st \<Rightarrow> 'st panics" where
  "process_event handlers default_han ev st = do {
     (unhandled_ev, st) \<leftarrow> try_handlers handlers ev (Some ev) st;
     Some (case unhandled_ev of Some unhandled_ev \<Rightarrow> default_han unhandled_ev st | None \<Rightarrow> st) }"

definition noop_handle :: "'ev \<Rightarrow> 'st \<Rightarrow> 'st" where
  "noop_handle ev st = st"

text \<open>Every handler gets every event, whatever the handlers before it return.\<close>

primrec run_handlers :: "('ev \<Rightarrow> 'st \<Rightarrow> ('ev option \<times> 'st) panics) list \<Rightarrow> 'ev \<Rightarrow> 'st \<Rightarrow> 'st panics" where
  "run_handlers [] ev st = Some st"
| "run_handlers (han # hans) ev st = do { (_, st) \<leftarrow> han ev st; run_handlers hans ev st }"

lemma snd_try_handlers: "map_option snd (try_handlers hans ev u st) = run_handlers hans ev st"
  by (induction hans arbitrary: u st) (auto split: bind_split prod.split)

lemma process_event_noop: "process_event hans noop_handle ev st = run_handlers hans ev st"
  by (subst snd_try_handlers [symmetric, where u = "Some ev"])
    (auto simp: process_event_def noop_handle_def split: bind_split prod.split option.split)

section \<open>Updates of entities (handlers/entity.rs)\<close>

definition consume_entity :: "('e, 'eid, 'sid, 'db) entity_env \<Rightarrow> 'eid list \<Rightarrow> (box_id \<Rightarrow> 'sid) \<Rightarrow> 'db \<Rightarrow> tx_input \<Rightarrow> ('eid \<times> 'e) list \<Rightarrow> ('eid \<times> 'e) list" where
  "consume_entity X blacklisted sid_of db i consumed =
     (let state_id = sid_of (in_box i)
      in if may_exist X db state_id
         then (case get_state X db state_id of
             Some entity \<Rightarrow> if env_ref X entity \<notin> set blacklisted then AList.update (env_ref X entity) entity consumed else consumed
           | None \<Rightarrow> consumed)
         else consumed)"

definition create_entity :: "('e, 'eid, 'sid, 'db) entity_env \<Rightarrow> 'eid list \<Rightarrow> (ergo_box \<Rightarrow> 'e option) \<Rightarrow> ergo_box \<Rightarrow> ('eid \<times> 'e) list \<Rightarrow> ('eid \<times> 'e) list" where
  "create_entity X blacklisted try_from_box bx created = (case try_from_box bx of
      Some entity \<Rightarrow> if env_ref X entity \<notin> set blacklisted then AList.update (env_ref X entity) entity created else created
    | None \<Rightarrow> created)"

definition transitions_of :: "('k list \<Rightarrow> 'k list) \<Rightarrow> ('k \<times> 'e) list \<Rightarrow> ('k \<times> 'e) list \<Rightarrow> ('e, 'e) either_or_both list" where
  "transitions_of hash_order consumed created =
     List.map_filter (\<lambda>k. either_try_from (map_of consumed k, map_of created k)) (hash_order (remdups (map fst consumed @ map fst created)))"

definition extract_transitions :: "('e, 'eid, 'sid, 'db) entity_env \<Rightarrow> 'eid list \<Rightarrow> (box_id \<Rightarrow> 'sid) \<Rightarrow> (ergo_box \<Rightarrow> 'e option)
    \<Rightarrow> ('eid list \<Rightarrow> 'eid list) \<Rightarrow> 'db \<Rightarrow> transaction \<Rightarrow> ('e, 'e) either_or_both list" where
  "extract_transitions X blacklisted sid_of try_from_box hash_order db tx =
     transitions_of hash_order (fold (consume_entity X blacklisted sid_of db) (tx_inputs tx) [])
       (fold (create_entity X blacklisted try_from_box) (tx_outputs tx) [])"

fun confirmed_update_handle :: "('e, 'eid, 'sid, 'db) entity_env \<Rightarrow> 'eid list \<Rightarrow> (box_id \<Rightarrow> 'sid) \<Rightarrow> (ergo_box \<Rightarrow> 'e option)
    \<Rightarrow> ('eid list \<Rightarrow> 'eid list) \<Rightarrow> 'db \<Rightarrow> ledger_tx_event \<Rightarrow> 'e state_update confirmed list \<times> ledger_tx_event option" where
  "confirmed_update_handle X bl sid_of tf ho db (AppliedTx ts tx) =
     (let transitions = extract_transitions X bl sid_of tf ho db tx
      in (map (\<lambda>tr. Confirmed (Transition tr)) transitions, if 0 < length transitions then None else Some (AppliedTx ts tx)))"
| "confirmed_update_handle X bl sid_of tf ho db (UnappliedTx tx) =
     (let transitions = extract_transitions X bl sid_of tf ho db tx
      in (map (\<lambda>tr. Confirmed (TransitionRollback (either_swap tr))) transitions, if 0 < length transitions then None else Some (UnappliedTx tx)))"

fun unconfirmed_upgrade_handle :: "('e, 'eid, 'sid, 'db) entity_env \<Rightarrow> 'eid list \<Rightarrow> (box_id \<Rightarrow> 'sid) \<Rightarrow> (ergo_box \<Rightarrow> 'e option)
    \<Rightarrow> ('eid list \<Rightarrow> 'eid list) \<Rightarrow> 'db \<Rightarrow> transaction mempool_update \<Rightarrow> 'e state_update unconfirmed list \<times> transaction mempool_update option" where
  "unconfirmed_upgrade_handle X bl sid_of tf ho db (TxAccepted tx) =
     (let transitions = extract_transitions X bl sid_of tf ho db tx
      in (map (\<lambda>tr. Unconfirmed (Transition tr)) transitions, if transitions \<noteq> [] then Some (TxAccepted tx) else None))"
| "unconfirmed_upgrade_handle X bl sid_of tf ho db (TxWithdrawn tx) =
     (let transitions = extract_transitions X bl sid_of tf ho db tx
      in (map (\<lambda>tr. Unconfirmed (TransitionRollback (either_swap tr))) transitions, if transitions \<noteq> [] then Some (TxWithdrawn tx) else None))"
| "unconfirmed_upgrade_handle X bl sid_of tf ho db (TxConfirmed tx) = ([], Some (TxConfirmed tx))"

section \<open>Updates of orders (handlers/order.rs)\<close>

text \<open>
  \<open>clock\<close> gives the successive readings of the time in seconds; \<open>lifespan_ms\<close> is \<open>order_lifespan.num_milliseconds()\<close>.
  The timestamp of an event is that of its block.  Reading an order from a box may panic.
\<close>

definition eliminated_inputs :: "('oid \<Rightarrow> bool) \<Rightarrow> (box_id \<Rightarrow> 'oid) \<Rightarrow> transaction \<Rightarrow> ('o, 'oid) order_update list" where
  "eliminated_inputs exists oid_of tx = map OrderEliminated (filter exists (map (\<lambda>i. oid_of (in_box i)) (tx_inputs tx)))"

definition parse_orders :: "(ergo_box \<Rightarrow> 'o option panics) \<Rightarrow> transaction \<Rightarrow> 'o list panics" where
  "parse_orders tf tx = map_option (List.map_filter (\<lambda>r. r)) (those (map tf (tx_outputs tx)))"

definition new_orders :: "(nat \<Rightarrow> i64) \<Rightarrow> 'o list \<Rightarrow> ('o, 'oid) order_update list" where
  "new_orders clock ords = map (\<lambda>(j, ord). NewOrder \<lparr> po_order = ord, po_timestamp = clock j \<rparr>) (enumerate 0 ords)"

fun order_ledger_handle :: "('oid \<Rightarrow> bool) \<Rightarrow> (box_id \<Rightarrow> 'oid) \<Rightarrow> (ergo_box \<Rightarrow> 'o option panics) \<Rightarrow> ('o \<Rightarrow> 'oid) \<Rightarrow> int \<Rightarrow> (nat \<Rightarrow> i64)
    \<Rightarrow> ledger_tx_event \<Rightarrow> (('o, 'oid) order_update list \<times> ledger_tx_event option) panics" where
  "order_ledger_handle exists oid_of tf get_id lifespan_ms clock (AppliedTx timestamp tx) =
     (let elim = eliminated_inputs exists oid_of tx; ts_now = clock 0
      in do {
        ords \<leftarrow> (if sint (ts_now - timestamp) \<le> lifespan_ms then parse_orders tf tx else Some []);
        let upds = elim @ new_orders (\<lambda>j. clock (Suc j)) ords;
        Some (upds, if upds \<noteq> [] then None else Some (AppliedTx timestamp tx)) })"
| "order_ledger_handle exists oid_of tf get_id lifespan_ms clock (UnappliedTx tx) = do {
     ords \<leftarrow> parse_orders tf tx;
     let upds = map (\<lambda>ord. OrderEliminated (get_id ord)) ords;
     Some (upds, if upds \<noteq> [] then None else Some (UnappliedTx tx)) }"

fun order_mempool_handle :: "('oid \<Rightarrow> bool) \<Rightarrow> (box_id \<Rightarrow> 'oid) \<Rightarrow> (ergo_box \<Rightarrow> 'o option panics) \<Rightarrow> ('o \<Rightarrow> 'oid) \<Rightarrow> (nat \<Rightarrow> i64)
    \<Rightarrow> transaction mempool_update \<Rightarrow> (('o, 'oid) order_update list \<times> transaction mempool_update option) panics" where
  "order_mempool_handle exists oid_of tf get_id clock (TxAccepted tx) = do {
     ords \<leftarrow> parse_orders tf tx;
     let upds = eliminated_inputs exists oid_of tx @ new_orders clock ords;
     Some (upds, if upds \<noteq> [] then None else Some (TxAccepted tx)) }"
| "order_mempool_handle exists oid_of tf get_id clock (TxWithdrawn tx) = do {
     ords \<leftarrow> parse_orders tf tx;
     let upds = map (\<lambda>ord. OrderEliminated (get_id ord)) ords;
     Some (upds, if upds \<noteq> [] then None else Some (TxWithdrawn tx)) }"
| "order_mempool_handle exists oid_of tf get_id clock (TxConfirmed tx) = Some ([], Some (TxConfirmed tx))"

section \<open>The transitions of a transaction\<close>

text \<open>The updates fed by a handler, tracked one after the other.\<close>

definition track_all :: "('e, 'eid, 'sid, 'db) entity_env \<Rightarrow> 'e state_update confirmed list \<Rightarrow> 'db \<Rightarrow> 'db" where
  "track_all X us db = fold (\<lambda>u db. entity_tracking_step X db u) us db"

lemma transitions_mem:
  assumes "hash_iteration ho"
  shows "tr \<in> set (transitions_of ho C N) \<longleftrightarrow> (\<exists>k. either_try_from (map_of C k, map_of N k) = Some tr)"
proof -
  have "either_try_from (map_of C k, map_of N k) \<noteq> None \<longleftrightarrow> k \<in> fst ` set C \<union> fst ` set N" for k
    by (simp add: either_try_from_None map_of_eq_None_iff)
  then have "k \<in> fst ` set C \<union> fst ` set N" if "either_try_from (map_of C k, map_of N k) = Some tr" for k using that by (metis option.distinct(1))
  then show ?thesis
    using assms by (auto simp: transitions_of_def List.map_filter_def hash_iteration_def image_iff split: if_splits) (metis option.sel)
qed

lemma created_Some:
  "map_of (fold (create_entity X bl tf) bs N) k = Some e \<Longrightarrow> map_of N k = Some e \<or> env_ref X e = k \<and> (\<exists>bx \<in> set bs. tf bx = Some e)"
proof (induction bs arbitrary: N)
  case (Cons b bs)
  from Cons.IH [of "create_entity X bl tf b N"] Cons.prems
  have "map_of (create_entity X bl tf b N) k = Some e \<or> env_ref X e = k \<and> (\<exists>bx \<in> set bs. tf bx = Some e)" by simp
  then show ?case by (auto simp: create_entity_def update_conv' split: if_splits option.splits)
qed simp

lemma transitions_keys:
  assumes "hash_iteration ho"
  obtains ks where "transitions_of ho C N = List.map_filter (\<lambda>k. either_try_from (map_of C k, map_of N k)) ks" "distinct ks"
    "\<And>k. k \<notin> set ks \<Longrightarrow> map_of C k = None \<and> map_of N k = None"
proof
  let ?ks = "ho (remdups (map fst C @ map fst N))"
  show "transitions_of ho C N = List.map_filter (\<lambda>k. either_try_from (map_of C k, map_of N k)) ?ks" by (simp add: transitions_of_def)
  show "distinct ?ks" using assms distinct_remdups by (metis hash_iteration_def)
  show "map_of C k = None \<and> map_of N k = None" if "k \<notin> set ?ks" for k
    using that assms by (simp add: hash_iteration_def map_of_eq_None_iff)
qed

context entity_repo
begin

lemma may_exist_state: "get_state X db s = Some e \<Longrightarrow> may_exist X db s"
  using rocksdb_laws.may_exist [OF db_laws] by (auto simp: get_state_def may_exist_def split: bind_split_asm)

lemma consume_known:
  "consume_entity X bl sid_of db i C = (case get_state X db (sid_of (in_box i)) of
      Some e \<Rightarrow> if env_ref X e \<notin> set bl then AList.update (env_ref X e) e C else C | None \<Rightarrow> C)"
  using may_exist_state [of db "sid_of (in_box i)"] by (auto simp: consume_entity_def Let_def split: option.split)

lemma consumed_cong:
  assumes "\<forall>i \<in> set is. get_state X db (sid_of (in_box i)) = get_state X db' (sid_of (in_box i))"
  shows "fold (consume_entity X bl sid_of db) is C = fold (consume_entity X bl sid_of db') is C"
  using assms by (induction "is" arbitrary: C) (simp_all add: consume_known)

lemma consumed_Some:
  "map_of (fold (consume_entity X bl sid_of db) is C) k = Some e \<Longrightarrow>
   map_of C k = Some e \<or> env_ref X e = k \<and> (\<exists>i \<in> set is. get_state X db (sid_of (in_box i)) = Some e)"
proof (induction "is" arbitrary: C)
  case (Cons i "is")
  from Cons.IH [of "consume_entity X bl sid_of db i C"] Cons.prems
  have "map_of (consume_entity X bl sid_of db i C) k = Some e \<or> env_ref X e = k \<and> (\<exists>i \<in> set is. get_state X db (sid_of (in_box i)) = Some e)" by simp
  then show ?case by (auto simp: consume_known update_conv' split: if_splits option.splits)
qed simp

lemma track_wf: "repo_wf X db \<Longrightarrow> repo_wf X (entity_tracking_step X db u)"
  by (cases "(X, db, u)" rule: entity_tracking_step.cases) (simp_all add: repo_wf_ops)

lemma track_all_wf: "repo_wf X db \<Longrightarrow> repo_wf X (track_all X us db)"
  by (induction us arbitrary: db) (simp_all add: track_all_def track_wf)

lemma track_links: "ar_links (abs_of X db) s = None \<Longrightarrow> ar_links (abs_of X (entity_tracking_step X db u)) s = None"
  by (cases "(X, db, u)" rule: entity_tracking_step.cases) (simp_all add: abs_put_confirmed abs_eliminate abs_invalidate)

lemma track_all_links: "ar_links (abs_of X db) s = None \<Longrightarrow> ar_links (abs_of X (track_all X us db)) s = None"
  by (induction us arbitrary: db) (simp_all add: track_all_def track_links)

lemma track_transitions_confirmed:
  assumes "distinct ks" "\<And>k e. C k = Some e \<Longrightarrow> env_ref X e = k" "\<And>k e. N k = Some e \<Longrightarrow> env_ref X e = k"
  shows "ar_confirmed (abs_of X (track_all X (map (\<lambda>tr. Confirmed (Transition tr)) (List.map_filter (\<lambda>k. either_try_from (C k, N k)) ks)) db)) k =
    (if k \<in> set ks then (case N k of Some e \<Rightarrow> Some (env_state_ref X e) | None \<Rightarrow> if C k = None then ar_confirmed (abs_of X db) k else None)
     else ar_confirmed (abs_of X db) k)"
  using assms(1)
proof (induction ks arbitrary: db)
  case (Cons j ks)
  then show ?case using assms(2) [of j] assms(3) [of j]
    by (cases "k = j"; cases "C k"; cases "N k"; cases "(C j, N j)" rule: either_try_from.cases) (simp_all add: track_all_def abs_put_confirmed abs_eliminate)
qed (simp add: track_all_def)

lemma track_transitions_states:
  assumes "\<And>k e. N k = Some e \<Longrightarrow> env_state_ref X e \<noteq> s"
  shows "ar_states (abs_of X (track_all X (map (\<lambda>tr. Confirmed (Transition tr)) (List.map_filter (\<lambda>k. either_try_from (C k, N k)) ks)) db)) s =
    ar_states (abs_of X db) s"
proof (induction ks arbitrary: db)
  case (Cons j ks)
  then show ?case using assms
    by (cases "(C j, N j)" rule: either_try_from.cases) (auto simp: track_all_def abs_put_confirmed abs_eliminate)
qed (simp add: track_all_def)

lemma track_rollbacks_confirmed:
  assumes "distinct ks" "\<And>k e. C k = Some e \<Longrightarrow> env_ref X e = k" "\<And>k e. N k = Some e \<Longrightarrow> env_ref X e = k"
    and "\<forall>k e. C k = None \<and> N k = Some e \<longrightarrow> ar_links (abs_of X db) (env_state_ref X e) = None"
  shows "ar_confirmed (abs_of X (track_all X (map (\<lambda>tr. Confirmed (TransitionRollback (either_swap tr))) (List.map_filter (\<lambda>k. either_try_from (C k, N k)) ks)) db)) k =
    (if k \<in> set ks then (case C k of Some e \<Rightarrow> Some (env_state_ref X e) | None \<Rightarrow> if N k = None then ar_confirmed (abs_of X db) k else None)
     else ar_confirmed (abs_of X db) k)"
  using assms(1,4)
proof (induction ks arbitrary: db)
  case (Cons j ks)
  let ?us = "\<lambda>ks. map (\<lambda>tr. Confirmed (TransitionRollback (either_swap tr))) (List.map_filter (\<lambda>k. either_try_from (C k, N k)) ks)"
  have l: "\<forall>k e. C k = None \<and> N k = Some e \<longrightarrow> ar_links (abs_of X (entity_tracking_step X db u)) (env_state_ref X e) = None" for u
    using Cons.prems(2) track_links by blast
  have d: "distinct ks" "j \<notin> set ks" using Cons.prems(1) by simp_all
  show ?case
  proof (cases "either_try_from (C j, N j)")
    case None
    then have "C j = None" "N j = None" by (simp_all add: either_try_from_None)
    then show ?thesis using Cons.IH [OF d(1) Cons.prems(2)] d(2) by (simp add: None)
  next
    case (Some tr)
    then have "track_all X (?us (j # ks)) db = track_all X (?us ks) (entity_tracking_step X db (Confirmed (TransitionRollback (either_swap tr))))"
      by (simp add: track_all_def)
    then show ?thesis using Cons.IH [OF d(1) l, of "Confirmed (TransitionRollback (either_swap tr))"] Some d(2) assms(2) [of j] assms(3) [of j] Cons.prems(2)
      by (cases "k = j"; cases "C k"; cases "N k"; cases "(C j, N j)" rule: either_try_from.cases) (auto simp: abs_put_confirmed abs_invalidate)
  qed
qed (simp add: track_all_def)

lemma track_rollbacks_states:
  assumes "\<And>k e. C k = Some e \<Longrightarrow> ar_states (abs_of X db) (env_state_ref X e) = Some e"
  shows "ar_states (abs_of X (track_all X (map (\<lambda>tr. Confirmed (TransitionRollback (either_swap tr))) (List.map_filter (\<lambda>k. either_try_from (C k, N k)) ks)) db)) =
    ar_states (abs_of X db)"
  using assms
proof (induction ks arbitrary: db)
  case (Cons j ks)
  then show ?case
    by (cases "(C j, N j)" rule: either_try_from.cases) (auto simp: track_all_def abs_put_confirmed abs_invalidate fun_upd_idem)
qed (simp add: track_all_def)

text \<open>
  A transaction that fits the confirmed states: a known input is the last confirmed state of its entity, an entity
  without a known input has no confirmed state and its new state no prediction behind it, and no output has the
  identifier of an input.
\<close>

end

definition track_event :: "('e, 'eid, 'sid, 'db) entity_env \<Rightarrow> 'eid list \<Rightarrow> (box_id \<Rightarrow> 'sid) \<Rightarrow> (ergo_box \<Rightarrow> 'e option) \<Rightarrow> ('eid list \<Rightarrow> 'eid list)
    \<Rightarrow> ledger_tx_event \<Rightarrow> 'db \<Rightarrow> 'db" where
  "track_event X bl sid_of tf ho ev db = track_all X (fst (confirmed_update_handle X bl sid_of tf ho db ev)) db"

definition consumed_by :: "('e, 'eid, 'sid, 'db) entity_env \<Rightarrow> 'eid list \<Rightarrow> (box_id \<Rightarrow> 'sid) \<Rightarrow> 'db \<Rightarrow> transaction \<Rightarrow> 'eid \<Rightarrow> 'e option" where
  "consumed_by X bl sid_of db tx = map_of (fold (consume_entity X bl sid_of db) (tx_inputs tx) [])"

definition created_by :: "('e, 'eid, 'sid, 'db) entity_env \<Rightarrow> 'eid list \<Rightarrow> (ergo_box \<Rightarrow> 'e option) \<Rightarrow> transaction \<Rightarrow> 'eid \<Rightarrow> 'e option" where
  "created_by X bl tf tx = map_of (fold (create_entity X bl tf) (tx_outputs tx) [])"

definition tx_fits :: "('e, 'eid, 'sid, 'db) entity_env \<Rightarrow> 'eid list \<Rightarrow> (box_id \<Rightarrow> 'sid) \<Rightarrow> (ergo_box \<Rightarrow> 'e option) \<Rightarrow> 'db \<Rightarrow> transaction \<Rightarrow> bool" where
  "tx_fits X bl sid_of tf db tx \<longleftrightarrow>
     (\<forall>k e. consumed_by X bl sid_of db tx k = Some e \<longrightarrow> ar_confirmed (abs_of X db) k = Some (env_state_ref X e)) \<and>
     (\<forall>k e. consumed_by X bl sid_of db tx k = None \<and> created_by X bl tf tx k = Some e \<longrightarrow>
        ar_confirmed (abs_of X db) k = None \<and> ar_links (abs_of X db) (env_state_ref X e) = None)"

definition output_ids :: "transaction list \<Rightarrow> box_id set" where
  "output_ids txs = (\<Union>tx \<in> set txs. box_id ` set (tx_outputs tx))"

definition input_ids :: "transaction \<Rightarrow> box_id set" where
  "input_ids tx = in_box ` set (tx_inputs tx)"

text \<open>A list of transactions that fit one after the other, none of which spends a box that it or a later one creates.\<close>

primrec block_fits :: "('e, 'eid, 'sid, 'db) entity_env \<Rightarrow> 'eid list \<Rightarrow> (box_id \<Rightarrow> 'sid) \<Rightarrow> (ergo_box \<Rightarrow> 'e option) \<Rightarrow> ('eid list \<Rightarrow> 'eid list)
    \<Rightarrow> i64 \<Rightarrow> 'db \<Rightarrow> transaction list \<Rightarrow> bool" where
  "block_fits X bl sid_of tf ho ts db [] \<longleftrightarrow> True"
| "block_fits X bl sid_of tf ho ts db (tx # txs) \<longleftrightarrow> tx_fits X bl sid_of tf db tx \<and> input_ids tx \<inter> output_ids (tx # txs) = {} \<and>
     block_fits X bl sid_of tf ho ts (track_event X bl sid_of tf ho (AppliedTx ts tx) db) txs"

locale entity_events = entity_repo X for X :: "('e, 'eid, 'sid, 'db) entity_env" +
  fixes bl :: "'eid list" and sid_of :: "box_id \<Rightarrow> 'sid" and tf :: "ergo_box \<Rightarrow> 'e option" and ho :: "'eid list \<Rightarrow> 'eid list"
  assumes sid_of_inject: "sid_of i = sid_of j \<longleftrightarrow> i = j"
    and tf_state: "tf bx = Some e \<Longrightarrow> env_state_ref X e = sid_of (box_id bx)"
    and ho_iterates: "hash_iteration ho"
begin

lemma consumed_by_Some:
  assumes "repo_wf X db" "consumed_by X bl sid_of db tx k = Some e"
  shows "env_ref X e = k" "get_state X db (env_state_ref X e) = Some e" "\<exists>i \<in> input_ids tx. env_state_ref X e = sid_of i"
proof -
  obtain i where i: "env_ref X e = k" "i \<in> set (tx_inputs tx)" "get_state X db (sid_of (in_box i)) = Some e"
    using consumed_Some [of bl sid_of db "tx_inputs tx" "[]" k e] assms(2) by (auto simp: consumed_by_def)
  moreover have "env_state_ref X e = sid_of (in_box i)" using assms(1) i(3) by (auto simp: repo_wf_def)
  ultimately show "env_ref X e = k" "get_state X db (env_state_ref X e) = Some e" "\<exists>i \<in> input_ids tx. env_state_ref X e = sid_of i"
    by (auto simp: input_ids_def)
qed

lemma created_by_Some:
  assumes "created_by X bl tf tx k = Some e"
  shows "env_ref X e = k" "\<exists>i \<in> output_ids [tx]. env_state_ref X e = sid_of i"
  using created_Some [of X bl tf "tx_outputs tx" "[]" k e] assms tf_state by (auto simp: created_by_def output_ids_def)

lemma handled_keys:
  obtains ks where "distinct ks" "\<And>k. k \<notin> set ks \<Longrightarrow> consumed_by X bl sid_of db tx k = None \<and> created_by X bl tf tx k = None"
    "extract_transitions X bl sid_of tf ho db tx = List.map_filter (\<lambda>k. either_try_from (consumed_by X bl sid_of db tx k, created_by X bl tf tx k)) ks"
  by (rule transitions_keys [OF ho_iterates, of "fold (consume_entity X bl sid_of db) (tx_inputs tx) []" "fold (create_entity X bl tf) (tx_outputs tx) []"])
    (rule that, simp_all add: extract_transitions_def consumed_by_def created_by_def)

lemma applied:
  assumes "repo_wf X db"
  shows "repo_wf X (track_event X bl sid_of tf ho (AppliedTx ts tx) db)"
    and "ar_confirmed (abs_of X (track_event X bl sid_of tf ho (AppliedTx ts tx) db)) k = (case created_by X bl tf tx k of Some e \<Rightarrow> Some (env_state_ref X e)
      | None \<Rightarrow> if consumed_by X bl sid_of db tx k = None then ar_confirmed (abs_of X db) k else None)"
    and "i \<notin> output_ids [tx] \<Longrightarrow> ar_states (abs_of X (track_event X bl sid_of tf ho (AppliedTx ts tx) db)) (sid_of i) = ar_states (abs_of X db) (sid_of i)"
    and "ar_links (abs_of X db) s = None \<Longrightarrow> ar_links (abs_of X (track_event X bl sid_of tf ho (AppliedTx ts tx) db)) s = None"
proof -
  obtain ks where ks: "distinct ks" "\<And>k. k \<notin> set ks \<Longrightarrow> consumed_by X bl sid_of db tx k = None \<and> created_by X bl tf tx k = None"
    "extract_transitions X bl sid_of tf ho db tx = List.map_filter (\<lambda>k. either_try_from (consumed_by X bl sid_of db tx k, created_by X bl tf tx k)) ks"
    by (rule handled_keys [where db = db and tx = tx]) (rule that)
  have e: "track_event X bl sid_of tf ho (AppliedTx ts tx) db = track_all X (map (\<lambda>tr. Confirmed (Transition tr))
      (List.map_filter (\<lambda>k. either_try_from (consumed_by X bl sid_of db tx k, created_by X bl tf tx k)) ks)) db"
    by (simp add: track_event_def ks(3) Let_def)
  show "repo_wf X (track_event X bl sid_of tf ho (AppliedTx ts tx) db)" unfolding e by (rule track_all_wf [OF assms])
  show "ar_links (abs_of X db) s = None \<Longrightarrow> ar_links (abs_of X (track_event X bl sid_of tf ho (AppliedTx ts tx) db)) s = None"
    unfolding e by (rule track_all_links)
  show "ar_confirmed (abs_of X (track_event X bl sid_of tf ho (AppliedTx ts tx) db)) k = (case created_by X bl tf tx k of Some e \<Rightarrow> Some (env_state_ref X e)
      | None \<Rightarrow> if consumed_by X bl sid_of db tx k = None then ar_confirmed (abs_of X db) k else None)"
    unfolding e using ks(2) by (subst track_transitions_confirmed [OF ks(1) consumed_by_Some(1) [OF assms] created_by_Some(1)]) auto
  show "ar_states (abs_of X (track_event X bl sid_of tf ho (AppliedTx ts tx) db)) (sid_of i) = ar_states (abs_of X db) (sid_of i)" if "i \<notin> output_ids [tx]"
    unfolding e
  proof (rule track_transitions_states)
    fix k e assume "created_by X bl tf tx k = Some e"
    from created_by_Some(2) [OF this] that show "env_state_ref X e \<noteq> sid_of i" using sid_of_inject by auto
  qed
qed

lemma unapplied:
  assumes "repo_wf X db" and links: "\<forall>k e. consumed_by X bl sid_of db tx k = None \<and> created_by X bl tf tx k = Some e \<longrightarrow>
      ar_links (abs_of X db) (env_state_ref X e) = None"
  shows "repo_wf X (track_event X bl sid_of tf ho (UnappliedTx tx) db)"
    and "ar_confirmed (abs_of X (track_event X bl sid_of tf ho (UnappliedTx tx) db)) k = (case consumed_by X bl sid_of db tx k of Some e \<Rightarrow> Some (env_state_ref X e)
      | None \<Rightarrow> if created_by X bl tf tx k = None then ar_confirmed (abs_of X db) k else None)"
    and "ar_states (abs_of X (track_event X bl sid_of tf ho (UnappliedTx tx) db)) = ar_states (abs_of X db)"
    and "ar_links (abs_of X db) s = None \<Longrightarrow> ar_links (abs_of X (track_event X bl sid_of tf ho (UnappliedTx tx) db)) s = None"
proof -
  obtain ks where ks: "distinct ks" "\<And>k. k \<notin> set ks \<Longrightarrow> consumed_by X bl sid_of db tx k = None \<and> created_by X bl tf tx k = None"
    "extract_transitions X bl sid_of tf ho db tx = List.map_filter (\<lambda>k. either_try_from (consumed_by X bl sid_of db tx k, created_by X bl tf tx k)) ks"
    by (rule handled_keys [where db = db and tx = tx]) (rule that)
  have e: "track_event X bl sid_of tf ho (UnappliedTx tx) db = track_all X (map (\<lambda>tr. Confirmed (TransitionRollback (either_swap tr)))
      (List.map_filter (\<lambda>k. either_try_from (consumed_by X bl sid_of db tx k, created_by X bl tf tx k)) ks)) db"
    by (simp add: track_event_def ks(3) Let_def)
  show "repo_wf X (track_event X bl sid_of tf ho (UnappliedTx tx) db)" unfolding e by (rule track_all_wf [OF assms(1)])
  show "ar_links (abs_of X db) s = None \<Longrightarrow> ar_links (abs_of X (track_event X bl sid_of tf ho (UnappliedTx tx) db)) s = None"
    unfolding e by (rule track_all_links)
  show "ar_confirmed (abs_of X (track_event X bl sid_of tf ho (UnappliedTx tx) db)) k = (case consumed_by X bl sid_of db tx k of Some e \<Rightarrow> Some (env_state_ref X e)
      | None \<Rightarrow> if created_by X bl tf tx k = None then ar_confirmed (abs_of X db) k else None)"
    unfolding e using ks(2) by (subst track_rollbacks_confirmed [OF ks(1) consumed_by_Some(1) [OF assms(1)] created_by_Some(1) links]) auto
  show "ar_states (abs_of X (track_event X bl sid_of tf ho (UnappliedTx tx) db)) = ar_states (abs_of X db)"
    unfolding e
  proof (rule track_rollbacks_states)
    fix k e assume "consumed_by X bl sid_of db tx k = Some e"
    from consumed_by_Some(2) [OF assms(1) this] show "ar_states (abs_of X db) (env_state_ref X e) = Some e" by (simp add: abs_of_def)
  qed
qed

lemma consumed_by_cong:
  assumes "\<forall>i \<in> input_ids tx. ar_states (abs_of X db) (sid_of i) = ar_states (abs_of X db') (sid_of i)"
  shows "consumed_by X bl sid_of db tx = consumed_by X bl sid_of db' tx"
  using assms consumed_cong [of "tx_inputs tx" db sid_of db'] by (simp add: consumed_by_def input_ids_def abs_of_def)

text \<open>The states the tracking of a list of transactions and of its reversal leaves as they are.\<close>

lemma block_round_trip:
  assumes "repo_wf X db" "block_fits X bl sid_of tf ho ts db txs"
    and "db' = fold (track_event X bl sid_of tf ho) (map (AppliedTx ts) txs @ map UnappliedTx (rev txs)) db"
  shows "repo_wf X db' \<and> ar_confirmed (abs_of X db') = ar_confirmed (abs_of X db) \<and>
    (\<forall>i. i \<notin> output_ids txs \<longrightarrow> ar_states (abs_of X db') (sid_of i) = ar_states (abs_of X db) (sid_of i)) \<and>
    (\<forall>s. ar_links (abs_of X db) s = None \<longrightarrow> ar_links (abs_of X db') s = None)"
  using assms
proof (induction txs arbitrary: db db')
  case (Cons tx txs)
  define db1 where "db1 = track_event X bl sid_of tf ho (AppliedTx ts tx) db"
  define db2 where "db2 = fold (track_event X bl sid_of tf ho) (map (AppliedTx ts) txs @ map UnappliedTx (rev txs)) db1"
  have fits: "tx_fits X bl sid_of tf db tx" "input_ids tx \<inter> output_ids (tx # txs) = {}" "block_fits X bl sid_of tf ho ts db1 txs"
    using Cons.prems(2) by (simp_all add: db1_def)
  note ap = applied [OF Cons.prems(1), where ts = ts and tx = tx, folded db1_def]
  note ih = Cons.IH [OF ap(1) fits(3) db2_def]
  have outs: "output_ids (tx # txs) = output_ids [tx] \<union> output_ids txs" by (simp add: output_ids_def)
  have st: "ar_states (abs_of X db2) (sid_of i) = ar_states (abs_of X db) (sid_of i)" if "i \<notin> output_ids (tx # txs)" for i
    using that ih ap(3) [of i] by (simp add: outs)
  then have cons: "consumed_by X bl sid_of db2 tx = consumed_by X bl sid_of db tx" using fits(2) by (intro consumed_by_cong) blast
  have ln: "ar_links (abs_of X db2) s = None" if "ar_links (abs_of X db) s = None" for s using that ih ap(4) by simp
  have links: "\<forall>k e. consumed_by X bl sid_of db2 tx k = None \<and> created_by X bl tf tx k = Some e \<longrightarrow> ar_links (abs_of X db2) (env_state_ref X e) = None"
    using fits(1) ln by (simp add: cons tx_fits_def)
  have wf2: "repo_wf X db2" using ih by blast
  note un = unapplied [OF wf2 links]
  have db': "db' = track_event X bl sid_of tf ho (UnappliedTx tx) db2" using Cons.prems(3) by (simp add: db2_def db1_def)
  have "ar_confirmed (abs_of X db') k = ar_confirmed (abs_of X db) k" for k
    using fits(1) ih ap(2) [of k] un(2) [of k] by (auto simp: db' cons tx_fits_def split: option.split)
  then show ?case using un st ln by (auto simp: db')
qed simp

end

section \<open>Instance\<close>

text \<open>The entity of the repository's tests: a token and the box that holds it.\<close>

definition test_try_from_box :: "ergo_box \<Rightarrow> (digest32 \<times> digest32) option" where
  "test_try_from_box bx = (case bx_tokens bx of Some (t # _) \<Rightarrow> Some (tok_id t, box_id bx) | _ \<Rightarrow> None)"

interpretation test_events: entity_events test_env "[]" "\<lambda>i. i" test_try_from_box "\<lambda>ks. ks"
  by unfold_locales (auto simp: test_try_from_box_def hash_iteration_def split: option.splits list.splits)

definition box_with_token :: "box_id \<Rightarrow> token_id \<Rightarrow> ergo_box" where
  "box_with_token i t = \<lparr> bx_value = 1, bx_tree = [], bx_tokens = Some [\<lparr> tok_id = t, tok_amount = 1 \<rparr>], bx_regs = [], bx_height = 1, box_id = i \<rparr>"

definition spending_tx :: "box_id list \<Rightarrow> ergo_box list \<Rightarrow> transaction" where
  "spending_tx is bs = \<lparr> tx_id = 0, tx_inputs = map (\<lambda>i. \<lparr> in_box = i, in_ext = [] \<rparr>) is, tx_data_inputs = None, tx_outputs = bs \<rparr>"

section \<open>Properties\<close>

text \<open>C35: Applying a block and rolling it back leaves the confirmed state of every entity as it was: when the
  transactions of a block fit the confirmed states one after the other, handling and tracking the events of the block and
  then those of its rollback, last transaction first, restores the index of last confirmed states, whether the block
  created, moved or destroyed the entity, and whatever the order in which the transitions of a transaction are fed.\<close>

theorem block_rollback_restores:
  assumes "entity_events X sid_of tf ho" "repo_wf X db" "block_fits X bl sid_of tf ho (blk_timestamp blk) db (blk_transactions blk)"
  shows "ar_confirmed (abs_of X (fold (track_event X bl sid_of tf ho) (process_upgrade (RollForward blk) @ process_upgrade (RollBackward blk)) db))
    = ar_confirmed (abs_of X db)"
  using entity_events.block_round_trip [OF assms refl] by simp

lemma test_moves:
  defines "db \<equiv> put_confirmed test_env RBT.empty (Confirmed (7, 1))"
  shows "repo_wf test_env db"
    and "consumed_by test_env [] (\<lambda>i. i) db (spending_tx [1] [box_with_token 2 7, box_with_token 3 8]) = [7 \<mapsto> (7, 1)]"
    and "created_by test_env [] test_try_from_box (spending_tx [1] [box_with_token 2 7, box_with_token 3 8]) = [7 \<mapsto> (7, 2), 8 \<mapsto> (8, 3)]"
    and "ar_confirmed (abs_of test_env db) = [7 \<mapsto> 1]" "ar_links (abs_of test_env db) = Map.empty"
proof -
  show "repo_wf test_env db" unfolding db_def by (rule test_repo.repo_wf_put_confirmed [OF empty_repo(1)])
  have a: "abs_of test_env db = (abs_of test_env RBT.empty) \<lparr> ar_states := (ar_states (abs_of test_env RBT.empty))(1 \<mapsto> (7, 1)),
      ar_confirmed := (ar_confirmed (abs_of test_env RBT.empty))(7 \<mapsto> 1) \<rparr>"
    unfolding db_def by (simp add: test_repo.abs_put_confirmed)
  have e: "ar_confirmed (abs_of test_env RBT.empty) = Map.empty" "ar_links (abs_of test_env RBT.empty) = Map.empty"
    by (simp_all add: fun_eq_iff abs_of_def get_prediction_predecessor_def test_env_def mem_rocksdb_def)
  show "ar_confirmed (abs_of test_env db) = [7 \<mapsto> 1]" "ar_links (abs_of test_env db) = Map.empty" by (simp_all add: a e)
  have "get_state test_env db 1 = Some (7, 1)" using arg_cong [OF a, of ar_states] by (simp add: abs_of_def)
  then show "consumed_by test_env [] (\<lambda>i. i) db (spending_tx [1] [box_with_token 2 7, box_with_token 3 8]) = [7 \<mapsto> (7, 1)]"
    by (simp add: consumed_by_def spending_tx_def test_repo.consume_known)
  show "created_by test_env [] test_try_from_box (spending_tx [1] [box_with_token 2 7, box_with_token 3 8]) = [7 \<mapsto> (7, 2), 8 \<mapsto> (8, 3)]"
    by (auto simp: created_by_def spending_tx_def create_entity_def test_try_from_box_def box_with_token_def fun_eq_iff)
qed

theorem block_rollback_restores_witness:
  "ar_confirmed (abs_of test_env (fold (track_event test_env [] (\<lambda>i. i) test_try_from_box (\<lambda>ks. ks))
     (process_upgrade (RollForward \<lparr> blk_id = 1, blk_parent_id = 0, blk_height = 1, blk_timestamp = 0,
        blk_transactions = [spending_tx [1] [box_with_token 2 7, box_with_token 3 8]] \<rparr>) @
      process_upgrade (RollBackward \<lparr> blk_id = 1, blk_parent_id = 0, blk_height = 1, blk_timestamp = 0,
        blk_transactions = [spending_tx [1] [box_with_token 2 7, box_with_token 3 8]] \<rparr>))
     (put_confirmed test_env RBT.empty (Confirmed (7, 1))))) = [7 \<mapsto> 1]"
proof -
  let ?tx = "spending_tx [1] [box_with_token 2 7, box_with_token 3 8]" and ?db = "put_confirmed test_env RBT.empty (Confirmed (7, 1))"
  have "tx_fits test_env [] (\<lambda>i. i) test_try_from_box ?db ?tx" by (auto simp: tx_fits_def test_moves split: if_splits)
  moreover have "input_ids ?tx \<inter> output_ids [?tx] = {}" by (simp add: input_ids_def output_ids_def spending_tx_def box_with_token_def)
  ultimately show ?thesis
    using block_rollback_restores [OF test_events.entity_events_axioms test_moves(1),
        of "[]" "\<lparr> blk_id = 1, blk_parent_id = 0, blk_height = 1, blk_timestamp = 0, blk_transactions = [?tx] \<rparr>"]
    by (simp add: test_moves(4))
qed

text \<open>The age limit for orders found in a block compares seconds with milliseconds: the present is read
  in seconds while the timestamp of a block is in milliseconds, so every order in a block mined at any time before the present is
  taken as new, however old, whenever the present in seconds is below the timestamp in milliseconds.\<close>

theorem order_age_not_limited:
  assumes "0 \<le> sint ts_ms" "0 \<le> sint (clock 0)" "sint (clock 0) \<le> sint ts_ms" "0 \<le> lifespan_ms" "parse_orders tf tx = Some ords" "ord \<in> set ords"
  shows "\<exists>upds ret ts. order_ledger_handle exists oid_of tf get_id lifespan_ms clock (AppliedTx ts_ms tx) = Some (upds, ret) \<and>
    NewOrder \<lparr> po_order = ord, po_timestamp = ts \<rparr> \<in> set upds"
proof -
  have b: "- (2 ^ 63) \<le> sint (clock 0)" "sint (clock 0) < 2 ^ 63" "- (2 ^ 63) \<le> sint ts_ms" "sint ts_ms < 2 ^ 63"
    using sint_range_size [of "clock 0"] sint_range_size [of ts_ms] by (simp_all add: word_size)
  have "sint (clock 0 - ts_ms) = sint (clock 0) - sint ts_ms"
    using assms(1-3) b by (simp add: sint_word_ariths signed_take_bit_int_eq_self)
  then have young: "sint (clock 0 - ts_ms) \<le> lifespan_ms" using assms(3,4) by simp
  obtain j where "j < length ords" "ords ! j = ord" using assms(6) by (auto simp: in_set_conv_nth)
  then have "NewOrder \<lparr> po_order = ord, po_timestamp = clock (Suc j) \<rparr> \<in> set (new_orders (\<lambda>j. clock (Suc j)) ords)"
    by (force simp: new_orders_def in_set_enumerate_eq)
  then show ?thesis using young assms(5) by (auto simp: Let_def)
qed

theorem order_age_not_limited_witness:
  "\<exists>upds ret ts. order_ledger_handle (\<lambda>_. False) (\<lambda>i. i) (\<lambda>bx. Some (test_try_from_box bx)) snd (86400 * 1000) (\<lambda>_. 1700000000)
     (AppliedTx 1560000000000 (spending_tx [] [box_with_token 2 7])) = Some (upds, ret) \<and>
     NewOrder \<lparr> po_order = (7, 2), po_timestamp = ts \<rparr> \<in> set upds"
  by (rule order_age_not_limited [where ords = "[(7, 2)]"])
    (simp_all add: parse_orders_def spending_tx_def test_try_from_box_def box_with_token_def)

end
