(* ===== verification/LM_Handlers.thy ===== *)
theory LM_Handlers
  imports Event_Handlers Bundle_Repo Funding_Repo Schedule
begin

text \<open>
  The event handlers of the liquidity-mining node (\<open>spectrum-offchain-lm/src/event_sink/handlers/\<close>: \<open>bundle.rs\<close>,
  \<open>funding.rs\<close>, \<open>program.rs\<close>, \<open>schedule.rs\<close>) and the conversion of parsed orders (\<open>backlog_stream.rs\<close>).

  The handlers of bundles and funding feed updates into topics; those of programs and schedules write their
  repositories themselves.  \<open>None\<close> is a panic: a division by zero in the index of a bundle or in the schedule of a pool.
\<close>

section \<open>Bundles (handlers/bundle.rs)\<close>

definition consume_bundle :: "'r bundle_repo_ops \<Rightarrow> 'r \<Rightarrow> tx_input \<Rightarrow> (bundle_id \<times> bundle_box) list \<Rightarrow> (bundle_id \<times> bundle_box) list" where
  "consume_bundle R repo i consumed =
     (let state_id = in_box i
      in if bro_may_exist R repo state_id
         then (case bro_get_state R repo state_id of
             Some indexed_bundle \<Rightarrow> AList.update (indexed_self_ref (as_val indexed_bundle)) indexed_bundle consumed
           | None \<Rightarrow> consumed)
         else consumed)"

fun create_bundles :: "ergo_lib \<Rightarrow> (pool_id \<Rightarrow> program_config option) \<Rightarrow> ergo_box list \<Rightarrow> (bundle_id \<times> bundle_box) list
    \<Rightarrow> (bundle_id \<times> bundle_box) list panics" where
  "create_bundles L programs [] created = Some created"
| "create_bundles L programs (bx # bs) created = (case bundle_try_from_box L bx of
      Some bundle \<Rightarrow> do {
        indexed_bundle \<leftarrow> (case programs (sb_pool_id bundle) of
            Some prog \<Rightarrow> indexed_bundle_new bundle prog
          | None \<Rightarrow> Some (indexed_bundle_init bundle));
        create_bundles L programs bs (AList.update (indexed_self_ref indexed_bundle) (AsBox bx indexed_bundle) created) }
    | None \<Rightarrow> create_bundles L programs bs created)"

definition bundle_transitions :: "ergo_lib \<Rightarrow> 'r bundle_repo_ops \<Rightarrow> (pool_id \<Rightarrow> program_config option) \<Rightarrow> (bundle_id list \<Rightarrow> bundle_id list)
    \<Rightarrow> 'r \<Rightarrow> transaction \<Rightarrow> (bundle_box, bundle_box) either_or_both list panics" where
  "bundle_transitions L R programs hash_order repo tx =
     map_option (transitions_of hash_order (fold (consume_bundle R repo) (tx_inputs tx) [])) (create_bundles L programs (tx_outputs tx) [])"

text \<open>A transaction with transitions is handed back, one without is not.\<close>

fun bundle_handle :: "ergo_lib \<Rightarrow> 'r bundle_repo_ops \<Rightarrow> (pool_id \<Rightarrow> program_config option) \<Rightarrow> (bundle_id list \<Rightarrow> bundle_id list)
    \<Rightarrow> 'r \<Rightarrow> ledger_tx_event \<Rightarrow> (bundle_box state_update confirmed list \<times> ledger_tx_event option) panics" where
  "bundle_handle L R programs hash_order repo (AppliedTx ts tx) = do {
     transitions \<leftarrow> bundle_transitions L R programs hash_order repo tx;
     Some (map (\<lambda>tr. Confirmed (Transition tr)) transitions, if transitions \<noteq> [] then Some (AppliedTx ts tx) else None) }"
| "bundle_handle L R programs hash_order repo (UnappliedTx tx) = do {
     transitions \<leftarrow> bundle_transitions L R programs hash_order repo tx;
     Some (map (\<lambda>tr. Confirmed (TransitionRollback (either_swap tr))) transitions, if transitions \<noteq> [] then Some (UnappliedTx tx) else None) }"

section \<open>Funding (handlers/funding.rs)\<close>

fun funding_handle :: "'r funding_repo_ops \<Rightarrow> ergo_tree \<Rightarrow> 'r \<Rightarrow> ledger_tx_event \<Rightarrow> funding_update confirmed list \<times> ledger_tx_event option" where
  "funding_handle R wallet repo (AppliedTx ts tx) =
     (let eliminated = map (\<lambda>fid. Confirmed (FundingEliminated fid)) (filter (fro_may_exist R repo) (map in_box (tx_inputs tx)));
          created = List.map_filter (\<lambda>bx. map_option (\<lambda>funding. Confirmed (FundingCreated (AsBox bx funding))) (funding_try_from_box bx wallet)) (tx_outputs tx);
          upds = eliminated @ created
      in (upds, if upds \<noteq> [] then None else Some (AppliedTx ts tx)))"
| "funding_handle R wallet repo (UnappliedTx tx) =
     (let upds = List.map_filter (\<lambda>bx. map_option (\<lambda>funding. Confirmed (FundingEliminated (df_id funding))) (funding_try_from_box bx wallet)) (tx_outputs tx)
      in (upds, if upds \<noteq> [] then None else Some (UnappliedTx tx)))"

section \<open>Programs (handlers/program.rs)\<close>

definition register_program :: "ergo_lib \<Rightarrow> 'g program_repo_ops \<Rightarrow> ergo_box \<Rightarrow> bool \<times> 'g \<Rightarrow> bool \<times> 'g" where
  "register_program L P bx st = (case pool_try_from_box L bx of
      Some pool \<Rightarrow> if \<not> pro_exists P (snd st) (pl_pool_id pool) then (True, pro_put P (snd st) (pl_pool_id pool) (conf pool)) else st
    | None \<Rightarrow> st)"

fun program_handle :: "ergo_lib \<Rightarrow> 'g program_repo_ops \<Rightarrow> 'g \<Rightarrow> ledger_tx_event \<Rightarrow> ledger_tx_event option \<times> 'g" where
  "program_handle L P repo (AppliedTx ts tx) =
     (let (is_success, repo) = fold (register_program L P) (tx_outputs tx) (False, repo)
      in (if is_success then None else Some (AppliedTx ts tx), repo))"
| "program_handle L P repo (UnappliedTx tx) = (Some (UnappliedTx tx), repo)"

section \<open>Schedules (handlers/schedule.rs)\<close>

definition schedule_pool :: "'s schedule_repo_ops \<Rightarrow> 's \<Rightarrow> pool \<Rightarrow> 's panics" where
  "schedule_pool S repo pool = do {
     schedule \<leftarrow> schedule_from_pool pool;
     (case sro_update_schedule S repo schedule of
        (Inl exhausted, repo) \<Rightarrow> Some (sro_clean S repo (pl_pool_id pool))
      | (Inr _, repo) \<Rightarrow> Some repo) }"

fun schedule_pools :: "'s schedule_repo_ops \<Rightarrow> pool option list \<Rightarrow> 's \<Rightarrow> (bool \<times> 's) panics" where
  "schedule_pools S [] repo = Some (False, repo)"
| "schedule_pools S (None # ps) repo = schedule_pools S ps repo"
| "schedule_pools S (Some pool # ps) repo = do {
     repo \<leftarrow> schedule_pool S repo pool;
     map_option (\<lambda>(_, repo). (True, repo)) (schedule_pools S ps repo) }"

definition known_pool :: "('e as_box, 'eid, pool_state_id, 'db) entity_env \<Rightarrow> 'db \<Rightarrow> tx_input \<Rightarrow> 'e option" where
  "known_pool X db i = (let sid = in_box i in if may_exist X db sid then map_option as_val (get_state X db sid) else None)"

fun schedule_handle :: "ergo_lib \<Rightarrow> 's schedule_repo_ops \<Rightarrow> (pool as_box, pool_id, pool_state_id, 'db) entity_env \<Rightarrow> 'db \<Rightarrow> 's \<Rightarrow> ledger_tx_event
    \<Rightarrow> (ledger_tx_event option \<times> 's) panics" where
  "schedule_handle L S X db repo (AppliedTx ts tx) = do {
     (is_success, repo) \<leftarrow> schedule_pools S (map (pool_try_from_box L) (tx_outputs tx)) repo;
     Some (if is_success then None else Some (AppliedTx ts tx), repo) }"
| "schedule_handle L S X db repo (UnappliedTx tx) = do {
     (is_success, repo) \<leftarrow> schedule_pools S (map (known_pool X db) (tx_inputs tx)) repo;
     Some (if is_success then None else Some (UnappliedTx tx), repo) }"

section \<open>Orders (backlog\_stream.rs)\<close>

text \<open>A redeem needs the pool of its bundle; without a confirmed bundle the update is dropped.\<close>

fun convert_order_proto :: "'r bundle_repo_ops \<Rightarrow> 'r \<Rightarrow> (order_proto, order_id) order_update \<Rightarrow> (order, order_id) order_update option" where
  "convert_order_proto R repo (NewOrder pending_order) = do {
     ord \<leftarrow> (case po_order pending_order of
         ProtoDeposit d \<Rightarrow> Some (OrdDeposit d)
       | ProtoRedeem r \<Rightarrow> do {
           bundle \<leftarrow> bro_get_last_confirmed R repo (asset_id (rp_bundle_key (as_val r)));
           Some (OrdRedeem (AsBox (as_bx r) (redeem_finalize (as_val r) (sb_pool_id (as_val (the_confirmed bundle)))))) }
       | ProtoCompound c \<Rightarrow> Some (OrdCompound c));
     Some (NewOrder \<lparr> po_order = ord, po_timestamp = po_timestamp pending_order \<rparr>) }"
| "convert_order_proto R repo (OrderEliminated elim_oid) = Some (OrderEliminated elim_oid)"

section \<open>Schedules follow the pools\<close>

text \<open>The pools an event brings to the schedules: those it creates, or those it gives back.\<close>

fun event_pools :: "ergo_lib \<Rightarrow> (pool as_box, pool_id, pool_state_id, 'db) entity_env \<Rightarrow> 'db \<Rightarrow> ledger_tx_event \<Rightarrow> pool list" where
  "event_pools L X db (AppliedTx ts tx) = List.map_filter (pool_try_from_box L) (tx_outputs tx)"
| "event_pools L X db (UnappliedTx tx) = List.map_filter (known_pool X db) (tx_inputs tx)"

definition ticks_at :: "abs_schedule \<Rightarrow> pool_id \<Rightarrow> u32 set" where
  "ticks_at A pid = {h. (pid, h) \<in> as_pending A \<or> as_deferred A (pid, h) \<noteq> None}"

lemma map_filter_id: "List.map_filter (\<lambda>x. x) (map f xs) = List.map_filter f xs"
  by (simp add: List.map_filter_def comp_def filter_map)

lemma schedule_pools_none: "List.map_filter (\<lambda>x. x) ps = [] \<Longrightarrow> schedule_pools S ps repo = Some (False, repo)"
  by (induction S ps repo rule: schedule_pools.induct) simp_all

lemma schedule_pools_one: "List.map_filter (\<lambda>x. x) ps = [p] \<Longrightarrow> schedule_pools S ps repo = map_option (Pair True) (schedule_pool S repo p)"
  by (induction S ps repo rule: schedule_pools.induct) (auto simp: schedule_pools_none map_option_case split: bind_split option.split)

lemma schedule_handle_one:
  "event_pools L P db ev = [p] \<Longrightarrow> schedule_handle L S P db repo ev = map_option (Pair None) (schedule_pool S repo p)"
  by (cases ev) (auto simp: schedule_pools_one map_filter_id map_option_case split: bind_split option.split)

lemma schedule_pool_ops:
  assumes "schedule_pool (schedule_repo_rocksdb X) repo p = Some repo'"
  obtains sc where "schedule_from_pool p = Some sc" "ps_pool_id sc = pl_pool_id p"
    "repo' = fold (apply_schedule_op X) (if next_compounding_at sc = None then [OpUpdate sc, OpClean (pl_pool_id p)] else [OpUpdate sc]) repo"
proof -
  obtain sc where sc: "schedule_from_pool p = Some sc" using assms by (auto simp: schedule_pool_def split: bind_split_asm)
  then have "ps_pool_id sc = pl_pool_id p" by (auto simp: schedule_from_pool_def split: bind_split_asm)
  then show ?thesis using assms sc
    by (intro that [OF sc]) (auto simp: schedule_pool_def schedule_repo_rocksdb_def update_schedule_def Let_def split: option.split_asm)
qed

lemma update_ticks:
  assumes "one_tick A" "op_fits A (OpUpdate sc)" "next_compounding_at sc = Some h" "0 < ps_epoch_len sc" "0 < h"
  shows "ticks_at (abs_schedule_op (OpUpdate sc) A) pid = (if pid = ps_pool_id sc then {h} else ticks_at A pid)"
proof -
  let ?l = "ps_epoch_len sc"
  have near: "h0 = h \<or> h0 = saturating_sub h ?l \<or> h0 = h + ?l" if "h0 \<in> ticks_at A (ps_pool_id sc)" for h0
    using adjacent_cases [OF _ assms(3), of h0] that assms(2) by (auto simp: ticks_at_def)
  have one: "h0 = h1" if "h0 \<in> ticks_at A (ps_pool_id sc)" "h1 \<in> ticks_at A (ps_pool_id sc)" for h0 h1
  proof -
    have "\<exists>sc'. as_sched A (ps_pool_id sc) = Some sc' \<and> next_compounding_at sc' = Some h2" if "h2 \<in> ticks_at A (ps_pool_id sc)" for h2
      using assms(1) that unfolding one_tick_def ticks_at_def by blast
    from this [OF that(1)] this [OF that(2)] show ?thesis by auto
  qed
  have "unat (saturating_sub h ?l) = unat h - unat ?l" by (rule unat_saturating_sub)
  then have "saturating_sub h ?l \<noteq> h" using assms(4,5) by (auto simp: word_less_nat_alt)
  moreover have "h + ?l \<noteq> h" using assms(4) by simp
  ultimately show ?thesis using near one assms(3) by (auto simp: ticks_at_def Let_def)
qed

lemma schedule_follows:
  assumes "schedule_repo X" "schedule_keys_wf X repo" "one_tick (abs_schedule_of X repo)"
    and "schedule_handle L (schedule_repo_rocksdb X) P db repo ev = Some (ret, repo')" "event_pools L P db ev = [p]"
    and "\<forall>sc. schedule_from_pool p = Some sc \<longrightarrow> op_fits (abs_schedule_of X repo) (OpUpdate sc) \<and> next_compounding_at sc \<noteq> Some 0"
    and "0 < epoch_len (conf p)"
  shows "\<exists>sc. schedule_from_pool p = Some sc \<and> ret = None \<and> schedule_keys_wf X repo' \<and> one_tick (abs_schedule_of X repo') \<and>
    (\<forall>pid. ticks_at (abs_schedule_of X repo') pid =
      (if pid = pl_pool_id p then set_option (next_compounding_at sc) else ticks_at (abs_schedule_of X repo) pid))"
proof -
  have r: "ret = None" "schedule_pool (schedule_repo_rocksdb X) repo p = Some repo'"
    using assms(4) schedule_handle_one [OF assms(5), of "schedule_repo_rocksdb X" repo] by auto
  let ?A = "abs_schedule_of X repo"
  obtain sc where sc: "schedule_from_pool p = Some sc" "ps_pool_id sc = pl_pool_id p"
    "repo' = fold (apply_schedule_op X) (if next_compounding_at sc = None then [OpUpdate sc, OpClean (pl_pool_id p)] else [OpUpdate sc]) repo"
    by (rule schedule_pool_ops [OF r(2)])
  have fits: "op_fits ?A (OpUpdate sc)" "next_compounding_at sc \<noteq> Some 0" using assms(6) sc(1) by blast+
  have len: "0 < ps_epoch_len sc" using sc(1) assms(7) by (auto simp: schedule_from_pool_def split: bind_split_asm)
  have wf: "schedule_keys_wf X repo'" unfolding sc(3) using schedule_repo.schedule_run [OF assms(1,2)] by blast
  have abs: "abs_schedule_of X repo' = fold abs_schedule_op (if next_compounding_at sc = None then [OpUpdate sc, OpClean (pl_pool_id p)] else [OpUpdate sc]) ?A"
    unfolding sc(3) using schedule_repo.schedule_run [OF assms(1,2)] by blast
  have "ops_fit ?A (if next_compounding_at sc = None then [OpUpdate sc, OpClean (pl_pool_id p)] else [OpUpdate sc])"
    using fits(1) by (simp del: op_fits.simps(1))
  then have one: "one_tick (abs_schedule_of X repo')" unfolding abs by (rule one_tick_run [OF assms(3)])
  have ticks: "ticks_at (abs_schedule_of X repo') pid = (if pid = pl_pool_id p then set_option (next_compounding_at sc) else ticks_at ?A pid)" for pid
  proof (cases "next_compounding_at sc")
    case (Some h)
    then have "0 < h" using fits(2) by (auto simp: word_gt_0)
    from update_ticks [OF assms(3) fits(1) Some len this] show ?thesis by (simp add: abs Some sc(2) del: abs_schedule_op.simps)
  qed (simp add: abs ticks_at_def)
  show ?thesis using sc(1) r(1) wf one ticks by blast
qed

text \<open>C34: The schedules follow the pools, on the way forward and on the way back.  When a transaction that creates one pool is
  applied, or one that spends a known pool is rolled back, that pool is left with exactly one tick, at the height of its next
  compounding, or with none when its program is exhausted; the ticks of the other pools stay.  The pool
  moves by at most one epoch.\<close>

theorem schedule_follows_pool:
  assumes "schedule_repo X" "schedule_keys_wf X repo" "one_tick (abs_schedule_of X repo)"
    and "schedule_handle L (schedule_repo_rocksdb X) P db repo ev = Some (ret, repo')" "event_pools L P db ev = [p]"
    and "\<forall>sc. schedule_from_pool p = Some sc \<longrightarrow> op_fits (abs_schedule_of X repo) (OpUpdate sc) \<and> next_compounding_at sc \<noteq> Some 0"
    and "0 < epoch_len (conf p)"
  shows "\<exists>sc. schedule_from_pool p = Some sc \<and> ret = None \<and> schedule_keys_wf X repo' \<and> one_tick (abs_schedule_of X repo') \<and>
    (\<forall>pid. ticks_at (abs_schedule_of X repo') pid =
      (if pid = pl_pool_id p then set_option (next_compounding_at sc) else ticks_at (abs_schedule_of X repo) pid))"
  by (rule schedule_follows [OF assms])

lemma sample_schedule: "schedule_from_pool sample_pool = Some \<lparr> ps_pool_id = 1, ps_epoch_len = 10, ps_epoch_num = 10, ps_program_start = 10, ps_last_completed_epoch_ix = 0 \<rparr>"
proof -
  obtain k where k: "epochs_left_to_process sample_pool = Some k" "unat k = 10"
    using epochs_left_exact_aux [OF sample_f64_safe sample_epoch_alloc] by (auto simp: sample_defs)
  have "k = 10" using k(2) by (simp add: word_unat_eq_iff)
  then show ?thesis using k(1) by (simp add: schedule_from_pool_def) (simp add: sample_defs)
qed

theorem schedule_follows_pool_witness:
  "\<forall>(P :: (pool as_box, pool_id, pool_state_id, mem_db) entity_env) db. \<exists>c repo'. schedule_handle sample_lib (schedule_repo_rocksdb sample_schedules) P db RBT.empty
       (AppliedTx 0 \<lparr> tx_id = 0, tx_inputs = [], tx_data_inputs = None, tx_outputs = [box_of_candidate c 6] \<rparr>) = Some (None, repo') \<and>
     ticks_at (abs_schedule_of sample_schedules repo') 1 = {20}"
proof (intro allI)
  fix P :: "(pool as_box, pool_id, pool_state_id, mem_db) entity_env" and db
  obtain c where c: "pool_into_candidate sample_lib sample_pool 5 = Some c"
    by (simp add: pool_into_candidate_def token_try_from_def box_value_of_def sample_lib_def positive_long_def
        sample_pool_def pool_nft_def UNIT_VALUE_def)
  let ?ev = "AppliedTx 0 \<lparr> tx_id = 0, tx_inputs = [], tx_data_inputs = None, tx_outputs = [box_of_candidate c 6] \<rparr>"
  let ?sc = "\<lparr> ps_pool_id = 1, ps_epoch_len = 10, ps_epoch_num = 10, ps_program_start = 10, ps_last_completed_epoch_ix = 0 \<rparr> :: pool_schedule"
  have ev: "event_pools sample_lib P db ?ev = [sample_pool]" using pool_box_read_back [OF c, of 6] by (simp add: sample_defs)
  have nx: "next_compounding_at ?sc = Some 20" by (simp add: next_compounding_at_def schedule_program_end_def)
  have "schedule_pool (schedule_repo_rocksdb sample_schedules) RBT.empty sample_pool = Some (snd (update_schedule sample_schedules RBT.empty ?sc))"
    by (simp add: schedule_pool_def sample_schedule schedule_repo_rocksdb_def update_schedule_def nx Let_def)
  then have h: "schedule_handle sample_lib (schedule_repo_rocksdb sample_schedules) P db RBT.empty ?ev = Some (None, snd (update_schedule sample_schedules RBT.empty ?sc))"
    using schedule_handle_one [OF ev, of "schedule_repo_rocksdb sample_schedules" RBT.empty] by simp
  have "one_tick (abs_schedule_of sample_schedules RBT.empty)" by (simp add: no_schedules one_tick_def)
  moreover have "\<forall>sc. schedule_from_pool sample_pool = Some sc \<longrightarrow>
      op_fits (abs_schedule_of sample_schedules RBT.empty) (OpUpdate sc) \<and> next_compounding_at sc \<noteq> Some 0"
    by (simp add: sample_schedule nx no_schedules)
  moreover have "0 < epoch_len (conf sample_pool)" "pl_pool_id sample_pool = 1" by (simp_all add: sample_defs)
  ultimately have "ticks_at (abs_schedule_of sample_schedules (snd (update_schedule sample_schedules RBT.empty ?sc))) 1 = set_option (next_compounding_at ?sc)"
    using schedule_follows_pool [OF sample_schedules.schedule_repo_axioms no_schedules(1) _ h ev] sample_schedule by auto
  then show "\<exists>c repo'. schedule_handle sample_lib (schedule_repo_rocksdb sample_schedules) P db RBT.empty
       (AppliedTx 0 \<lparr> tx_id = 0, tx_inputs = [], tx_data_inputs = None, tx_outputs = [box_of_candidate c 6] \<rparr>) = Some (None, repo') \<and>
     ticks_at (abs_schedule_of sample_schedules repo') 1 = {20}"
    using h by (auto simp: nx)
qed

end
