(* ===== verification/LM_Node.thy ===== *)
theory LM_Node
  imports LM_Handlers LM_Executor Network Generic_Executor
begin

text \<open>
  The liquidity-mining node, \<open>spectrum-offchain-lm/src/main.rs\<close>: the repositories, the topics between the streams, the
  six event handlers in the order in which they are registered, and the seven streams \<open>main\<close> polls.  \<open>select_all\<close>
  takes the next element of any stream that is ready, so the node is a step relation in which every
  stream may move in every state.  An element of a stream is one step here; \<open>LM_Streams\<close> and \<open>LM_Concurrent\<close>
  take the elements apart at their locks, where the code may switch streams in the middle of an element.  The invariants shown
  here are kept by every single operation on the repositories.

  The chain and the network are inputs of the steps: the events of the ledger, the readings of an attempt of the
  executor, the height and the clock of the scheduler.
\<close>

section \<open>Environment and state\<close>

record ('b, 'p, 'r, 'f, 's, 'g) node_env =
  ne_executor :: "('b, 'p, 'r, 'f) executor_env"
  ne_schedules :: "'s schedule_repo_ops"
  ne_programs :: "'g program_repo_ops"
  ne_blacklist :: "pool_id list"
  ne_wallet :: ergo_tree
  ne_order_lifespan :: int

record ('b, 'p, 'r, 'f, 's, 'g) node_state =
  ns_executor :: "('b, 'p, 'r, 'f) executor_state"
  ns_schedules :: 's
  ns_programs :: 'g
  ns_pool_topic :: "pool as_box state_update confirmed list"
  ns_bundle_topic :: "bundle_box state_update confirmed list"
  ns_order_topic :: "(order_proto, order_id) order_update list"
  ns_funding_topic :: "funding_update confirmed list"
  ns_tip_reached :: bool

record event_readings =
  ev_pool_order :: "pool_id list \<Rightarrow> pool_id list"
  ev_bundle_order :: "bundle_id list \<Rightarrow> bundle_id list"
  ev_clock :: "nat \<Rightarrow> i64"

definition BLACKLISTED_ENTITIES :: "string list" where
  "BLACKLISTED_ENTITIES = [
     ''f61da4f7d651fc7a1c1bb586c91ec1fcea1ef9611461fd437176c49d9db37bb2'',
     ''8a82a413c451fec826c8d39e87b95b6104d7de30e5d883a3c5ba4236d44b5837'',
     ''8d49ef70ab015d79cb9ab523adf3ccb0b7d05534c598e4ddf8acb8b2b420b463'',
     ''1b3d37d78650dd8527fa02f8783d9b98490df3b464dd44af0e0593ceb4717702'',
     ''af629d8e63d08a9770bc543f807bdb82dcda942d4e21d506771f975dc2b3fd3a'',
     ''24e9f9a3e0aa89092d8690941900323dea2ee3603ca7368c0c35175259df6930'']"

definition generate_pool_blacklist :: "ergo_lib \<Rightarrow> string list \<Rightarrow> pool_id list panics" where
  "generate_pool_blacklist L base16_encodings =
     those (map (\<lambda>encoding. Option.bind (base16_decode L encoding) digest_of_bytes) base16_encodings)"

section \<open>The handlers on the state of the node\<close>

definition pool_try_from_box_as :: "ergo_lib \<Rightarrow> ergo_box \<Rightarrow> pool as_box option" where
  "pool_try_from_box_as L bx = map_option (AsBox bx) (pool_try_from_box L bx)"

type_synonym ('b, 'p, 'r, 'f, 's, 'g) node_handler =
  "ledger_tx_event \<Rightarrow> ('b, 'p, 'r, 'f, 's, 'g) node_state \<Rightarrow> (ledger_tx_event option \<times> ('b, 'p, 'r, 'f, 's, 'g) node_state) panics"

definition pool_han :: "('b, 'p, 'r, 'f, 's, 'g) node_env \<Rightarrow> event_readings \<Rightarrow> ('b, 'p, 'r, 'f, 's, 'g) node_handler" where
  "pool_han N rd ev st =
     (let (upds, ret) = confirmed_update_handle (xe_pools (ne_executor N)) (ne_blacklist N) (\<lambda>i. i) (pool_try_from_box_as (xe_lib (ne_executor N)))
            (ev_pool_order rd) (xs_pools (ns_executor st)) ev
      in Some (ret, st \<lparr> ns_pool_topic := ns_pool_topic st @ upds \<rparr>))"

definition order_han :: "('b, 'p, 'r, 'f, 's, 'g) node_env \<Rightarrow> event_readings \<Rightarrow> ('b, 'p, 'r, 'f, 's, 'g) node_handler" where
  "order_han N rd ev st = do {
     (upds, ret) \<leftarrow> order_ledger_handle (blo_exists (xe_backlog (ne_executor N)) (xs_backlog (ns_executor st))) (\<lambda>i. i)
       (order_proto_try_from_box (xe_lib (ne_executor N))) (order_proto_id (xe_lib (ne_executor N))) (1000 * ne_order_lifespan N) (ev_clock rd) ev;
     Some (ret, st \<lparr> ns_order_topic := ns_order_topic st @ upds \<rparr>) }"

definition bundle_han :: "('b, 'p, 'r, 'f, 's, 'g) node_env \<Rightarrow> event_readings \<Rightarrow> ('b, 'p, 'r, 'f, 's, 'g) node_handler" where
  "bundle_han N rd ev st = do {
     (upds, ret) \<leftarrow> bundle_handle (xe_lib (ne_executor N)) (xe_bundles (ne_executor N)) (pro_get (ne_programs N) (ns_programs st)) (ev_bundle_order rd)
       (xs_bundles (ns_executor st)) ev;
     Some (ret, st \<lparr> ns_bundle_topic := ns_bundle_topic st @ upds \<rparr>) }"

definition funding_han :: "('b, 'p, 'r, 'f, 's, 'g) node_env \<Rightarrow> ('b, 'p, 'r, 'f, 's, 'g) node_handler" where
  "funding_han N ev st =
     (let (upds, ret) = funding_handle (xe_funding (ne_executor N)) (ne_wallet N) (xs_funding (ns_executor st)) ev
      in Some (ret, st \<lparr> ns_funding_topic := ns_funding_topic st @ upds \<rparr>))"

definition schedule_han :: "('b, 'p, 'r, 'f, 's, 'g) node_env \<Rightarrow> ('b, 'p, 'r, 'f, 's, 'g) node_handler" where
  "schedule_han N ev st = do {
     (ret, repo) \<leftarrow> schedule_handle (xe_lib (ne_executor N)) (ne_schedules N) (xe_pools (ne_executor N)) (xs_pools (ns_executor st)) (ns_schedules st) ev;
     Some (ret, st \<lparr> ns_schedules := repo \<rparr>) }"

definition program_han :: "('b, 'p, 'r, 'f, 's, 'g) node_env \<Rightarrow> ('b, 'p, 'r, 'f, 's, 'g) node_handler" where
  "program_han N ev st =
     (let (ret, repo) = program_handle (xe_lib (ne_executor N)) (ne_programs N) (ns_programs st) ev
      in Some (ret, st \<lparr> ns_programs := repo \<rparr>))"

definition node_handlers :: "('b, 'p, 'r, 'f, 's, 'g) node_env \<Rightarrow> event_readings \<Rightarrow> ('b, 'p, 'r, 'f, 's, 'g) node_handler list" where
  "node_handlers N rd = [pool_han N rd, order_han N rd, bundle_han N rd, funding_han N, schedule_han N, program_han N]"

section \<open>The streams\<close>

definition BATCH_SIZE :: nat where "BATCH_SIZE = 10"

definition process_events_step :: "('b, 'p, 'r, 'f, 's, 'g) node_env \<Rightarrow> event_readings \<Rightarrow> ledger_tx_event
    \<Rightarrow> ('b, 'p, 'r, 'f, 's, 'g) node_state \<Rightarrow> ('b, 'p, 'r, 'f, 's, 'g) node_state panics" where
  "process_events_step N rd ev st = process_event (node_handlers N rd) noop_handle ev st"

definition executor_step :: "('b, 'p, 'r, 'f, 's, 'g) node_env \<Rightarrow> executor_readings
    \<Rightarrow> ('b, 'p, 'r, 'f, 's, 'g) node_state \<Rightarrow> ('b, 'p, 'r, 'f, 's, 'g) node_state panics" where
  "executor_step N rd st =
     map_option (\<lambda>(_, x). st \<lparr> ns_executor := x \<rparr>) (executor_stream_step (try_execute_next (ne_executor N) rd) (ns_tip_reached st) (ns_executor st))"

definition pool_update_step :: "('b, 'p, 'r, 'f, 's, 'g) node_env \<Rightarrow> ('b, 'p, 'r, 'f, 's, 'g) node_state \<Rightarrow> ('b, 'p, 'r, 'f, 's, 'g) node_state" where
  "pool_update_step N st = (case ns_pool_topic st of
      u # us \<Rightarrow> st \<lparr> ns_pool_topic := us, ns_executor := (ns_executor st) \<lparr> xs_pools := entity_tracking_step (xe_pools (ne_executor N)) (xs_pools (ns_executor st)) u \<rparr> \<rparr>
    | [] \<Rightarrow> st)"

definition bundle_stream_step :: "('b, 'p, 'r, 'f, 's, 'g) node_env \<Rightarrow> ('b, 'p, 'r, 'f, 's, 'g) node_state \<Rightarrow> ('b, 'p, 'r, 'f, 's, 'g) node_state" where
  "bundle_stream_step N st = (case ns_bundle_topic st of
      u # us \<Rightarrow> st \<lparr> ns_bundle_topic := us, ns_executor := (ns_executor st) \<lparr> xs_bundles := bundle_update_step (xe_bundles (ne_executor N)) (xs_bundles (ns_executor st)) u \<rparr> \<rparr>
    | [] \<Rightarrow> st)"

definition funding_stream_step :: "('b, 'p, 'r, 'f, 's, 'g) node_env \<Rightarrow> ('b, 'p, 'r, 'f, 's, 'g) node_state \<Rightarrow> ('b, 'p, 'r, 'f, 's, 'g) node_state" where
  "funding_stream_step N st = (case ns_funding_topic st of
      u # us \<Rightarrow> st \<lparr> ns_funding_topic := us, ns_executor := (ns_executor st) \<lparr> xs_funding := funding_update_step (xe_funding (ne_executor N)) (xs_funding (ns_executor st)) u \<rparr> \<rparr>
    | [] \<Rightarrow> st)"

fun apply_order_update :: "(order, order_id, 'b) backlog_ops \<Rightarrow> (order, order_id) order_update \<Rightarrow> 'b \<Rightarrow> 'b" where
  "apply_order_update B (NewOrder pending_order) b = blo_put B b pending_order"
| "apply_order_update B (OrderEliminated elim_oid) b = blo_remove B b elim_oid"

definition order_stream_step :: "('b, 'p, 'r, 'f, 's, 'g) node_env \<Rightarrow> ('b, 'p, 'r, 'f, 's, 'g) node_state \<Rightarrow> ('b, 'p, 'r, 'f, 's, 'g) node_state" where
  "order_stream_step N st = (case ns_order_topic st of
      u # us \<Rightarrow>
        let x = ns_executor st;
            x = (case convert_order_proto (xe_bundles (ne_executor N)) (xs_bundles x) u of
                Some upd \<Rightarrow> x \<lparr> xs_backlog := apply_order_update (xe_backlog (ne_executor N)) upd (xs_backlog x) \<rparr>
              | None \<Rightarrow> x)
        in st \<lparr> ns_order_topic := us, ns_executor := x \<rparr>
    | [] \<Rightarrow> st)"

definition scheduler_step :: "('b, 'p, 'r, 'f, 's, 'g) node_env \<Rightarrow> i64 \<Rightarrow> u32 \<Rightarrow> i64
    \<Rightarrow> ('b, 'p, 'r, 'f, 's, 'g) node_state \<Rightarrow> ('b, 'p, 'r, 'f, 's, 'g) node_state panics" where
  "scheduler_step N ts_peek height_now ts_now st =
     (let D = \<lparr> de_lib = xe_lib (ne_executor N), de_backlog = xe_backlog (ne_executor N), de_schedules = ne_schedules N, de_bundles = xe_bundles (ne_executor N) \<rparr>;
          x = ns_executor st
      in map_option (\<lambda>d. st \<lparr> ns_executor := x \<lparr> xs_backlog := ds_backlog d, xs_bundles := ds_bundles d \<rparr>, ns_schedules := ds_schedules d \<rparr>)
           (distribution_step D BATCH_SIZE (ns_tip_reached st) ts_peek height_now ts_now
             \<lparr> ds_backlog = xs_backlog x, ds_schedules = ns_schedules st, ds_bundles = xs_bundles x \<rparr>))"

text \<open>
  The interleavings of the streams; the tip flag is set by the synchroniser when it reaches the tip of the chain.
  The label of a step is the order the executor acquires in it.
\<close>

definition acquired :: "('b, 'p, 'r, 'f, 's, 'g) node_env \<Rightarrow> executor_readings \<Rightarrow> ('b, 'p, 'r, 'f, 's, 'g) node_state \<Rightarrow> order option" where
  "acquired N rd st =
     (if ns_tip_reached st
      then (case blo_try_pop (xe_backlog (ne_executor N)) (er_now rd) (er_rng rd) (er_now' rd) (xs_backlog (ns_executor st)) of
          Some (ord, _) \<Rightarrow> ord
        | None \<Rightarrow> None)
      else None)"

inductive node_step :: "('b, 'p, 'r, 'f, 's, 'g) node_env \<Rightarrow> ('b, 'p, 'r, 'f, 's, 'g) node_state \<Rightarrow> order option \<Rightarrow> ('b, 'p, 'r, 'f, 's, 'g) node_state \<Rightarrow> bool" for N where
  on_event: "process_events_step N rd ev st = Some st' \<Longrightarrow> node_step N st None st'"
| on_executor: "executor_step N rd' st = Some st' \<Longrightarrow> node_step N st (acquired N rd' st) st'"
| on_pool: "node_step N st None (pool_update_step N st)"
| on_order: "node_step N st None (order_stream_step N st)"
| on_bundle: "node_step N st None (bundle_stream_step N st)"
| on_funding: "node_step N st None (funding_stream_step N st)"
| on_scheduler: "scheduler_step N ts_peek height_now ts_now st = Some st' \<Longrightarrow> node_step N st None st'"
| on_tip: "node_step N st None (st \<lparr> ns_tip_reached := True \<rparr>)"

inductive node_reach :: "('b, 'p, 'r, 'f, 's, 'g) node_env \<Rightarrow> ('b, 'p, 'r, 'f, 's, 'g) node_state \<Rightarrow> order set \<Rightarrow> ('b, 'p, 'r, 'f, 's, 'g) node_state \<Rightarrow> bool" for N st0 where
  at_start: "node_reach N st0 {} st0"
| after_step: "node_reach N st0 P st \<Longrightarrow> node_step N st acq st' \<Longrightarrow> node_reach N st0 (P \<union> set_option acq) st'"

section \<open>What an attempt of the executor does to the repositories\<close>

definition repos_moved :: "('b, 'p, 'r, 'f) executor_env \<Rightarrow> ('b, 'p, 'r, 'f) executor_state \<Rightarrow> ('b, 'p, 'r, 'f) executor_state \<Rightarrow> bool" where
  "repos_moved X st st' \<longleftrightarrow> (\<exists>ops. xs_pools st' = fold (apply_repo_op (xe_pools X)) ops (xs_pools st)) \<and>
     (\<exists>ops. xs_bundles st' = fold (apply_bundle_op (xe_bundles X)) ops (xs_bundles st))"

lemma moved_refl: "xs_pools st' = xs_pools st \<Longrightarrow> xs_bundles st' = xs_bundles st \<Longrightarrow> repos_moved X st st'"
  unfolding repos_moved_def by (intro conjI exI [of _ "[]"]) simp_all

lemma moved_trans:
  assumes "repos_moved X st st1" "repos_moved X st1 st2"
  shows "repos_moved X st st2"
proof -
  obtain p b where a: "xs_pools st1 = fold (apply_repo_op (xe_pools X)) p (xs_pools st)" "xs_bundles st1 = fold (apply_bundle_op (xe_bundles X)) b (xs_bundles st)"
    using assms(1) unfolding repos_moved_def by blast
  obtain p' b' where c: "xs_pools st2 = fold (apply_repo_op (xe_pools X)) p' (xs_pools st1)" "xs_bundles st2 = fold (apply_bundle_op (xe_bundles X)) b' (xs_bundles st1)"
    using assms(2) unfolding repos_moved_def by blast
  show ?thesis unfolding repos_moved_def
    by (intro conjI exI [of _ "p @ p'"] exI [of _ "b @ b'"]) (simp_all add: a c)
qed

lemma moved_suspend: "suspend_order X ord st = Some st' \<Longrightarrow> repos_moved X st st'"
  by (auto simp: suspend_order_def intro!: moved_refl)

lemma moved_remove: "repos_moved X st (remove_order X ord st)"
  by (simp add: remove_order_def moved_refl)

lemma moved_invalidate: "repos_moved X st (invalidate_pool X pool st)"
  unfolding repos_moved_def invalidate_pool_def
  by (intro conjI exI [of _ "[OpInvalidate (env_state_ref (xe_pools X) pool) (env_ref (xe_pools X) pool)]"] exI [of _ "[]"]) simp_all

lemma invalidate_ops: "fold (\<lambda>i r. bro_invalidate R r i) ids r = fold (apply_bundle_op R) (map BundleInvalidate ids) r"
  by (induction ids arbitrary: r) simp_all

lemma moved_invalidation: "apply_invalidation X tx ord pool iv st = Some st' \<Longrightarrow> repos_moved X st st'"
proof (cases iv)
  case (InvStakingBundles ixs)
  assume a: "apply_invalidation X tx ord pool iv st = Some st'"
  then obtain ids where st': "st' = st \<lparr> xs_bundles := fold (\<lambda>i r. bro_invalidate (xe_bundles X) r i) ids (xs_bundles st) \<rparr>"
    by (auto simp: InvStakingBundles split: bind_split_asm)
  note invalidate_ops [of "xe_bundles X" ids "xs_bundles st"]
  then show ?thesis unfolding repos_moved_def by (intro conjI exI [of _ "[]"] exI [of _ "map BundleInvalidate ids"]) (simp_all add: st')
next
  case InvPool
  assume "apply_invalidation X tx ord pool iv st = Some st'"
  then show ?thesis using moved_trans [OF moved_invalidate moved_suspend] by (simp add: InvPool)
next
  case (InvFunding ixs)
  assume "apply_invalidation X tx ord pool iv st = Some st'"
  then obtain f where "suspend_order X ord (st \<lparr> xs_funding := f \<rparr>) = Some st'" by (auto simp: InvFunding split: bind_split_asm)
  from moved_suspend [OF this] show ?thesis by (rule moved_trans [rotated]) (simp add: moved_refl)
qed (auto simp: moved_remove)

lemma moved_invalidations: "apply_invalidations X tx ord pool ivs st = Some st' \<Longrightarrow> repos_moved X st st'"
proof (induction ivs arbitrary: st)
  case (Cons iv ivs)
  then obtain st1 where "apply_invalidation X tx ord pool iv st = Some st1" "apply_invalidations X tx ord pool ivs st1 = Some st'"
    by (auto split: bind_split_asm)
  then show ?case using moved_trans [OF moved_invalidation Cons.IH] by blast
qed (simp add: moved_refl)

lemma moved_check: "repos_moved X st (check_utxo X rd pool ot st)"
proof -
  let ?st = "if \<not> net_box_in_utxo (er_network rd) (box_id (as_bx pool)) then invalidate_pool X pool st else st"
  have "repos_moved X st ?st" by (simp add: moved_invalidate moved_refl)
  moreover have "repos_moved X ?st (check_utxo X rd pool ot st)" by (rule moved_refl) (simp_all add: check_utxo_def Let_def split: order_type.split)
  ultimately show ?thesis by (rule moved_trans)
qed

lemma moved_failed: "submission_failed X rd tx ord pool ot err st = Some st' \<Longrightarrow> repos_moved X st st'"
  by (auto simp: submission_failed_def moved_check moved_refl intro: moved_invalidations moved_suspend
      split: bind_split_asm node_submit_tx_error.split_asm)

lemma predict_ops: "predict_bundles R cfg nexts prevs repo = Some repo' \<Longrightarrow> \<exists>ops. repo' = fold (apply_bundle_op R) ops repo"
proof (induction nexts arbitrary: prevs repo)
  case (Cons n nexts)
  obtain t where "predict_bundles R cfg nexts (tl prevs) (bro_put_predicted R repo t) = Some repo'"
    using Cons.prems by (cases n) (auto split: bind_split_asm)
  from Cons.IH [OF this] obtain ops where "repo' = fold (apply_bundle_op R) ops (bro_put_predicted R repo t)" by blast
  then show ?case by (intro exI [of _ "BundlePredicted t # ops"]) simp
qed (simp add: exI [of _ "[]"])

lemma moved_accepted:
  assumes "submission_accepted X rd ord pool bundles res st = Some st'"
  shows "repos_moved X st st'"
proof -
  obtain tx np nb rf ot where res: "res = (tx, np, nb, rf, ot)" by (cases res)
  obtain r where r: "predict_bundles (xe_bundles X) (conf (as_val pool)) nb bundles (xs_bundles st) = Some r"
    "xs_bundles st' = r" "xs_pools st' = put_predicted (xe_pools X) (xs_pools st) \<lparr> tr_state = np, tr_prev_state_id = Some (env_state_ref (xe_pools X) pool) \<rparr>"
    using assms by (auto simp: submission_accepted_def res Let_def split: option.splits)
  have "\<exists>ops. xs_pools st' = fold (apply_repo_op (xe_pools X)) ops (xs_pools st)"
    by (intro exI [of _ "[OpPredicted \<lparr> tr_state = np, tr_prev_state_id = Some (env_state_ref (xe_pools X) pool) \<rparr>]"]) (simp add: r(3))
  then show ?thesis using predict_ops [OF r(1)] r(2) by (simp add: repos_moved_def)
qed

lemma moved_result: "handle_run_result X rd ord pool bundles res st = Some st' \<Longrightarrow> repos_moved X st st'"
  by (auto simp: handle_run_result_def moved_refl moved_remove intro: moved_failed moved_accepted moved_suspend
      split: sum.split_asm prod.split_asm run_order_error.split_asm)

lemma moved_no_pool: "no_pool X rd ord st = Some st' \<Longrightarrow> repos_moved X st st'"
  by (auto simp: no_pool_def Let_def moved_remove intro: moved_suspend split: order.split_asm as_box.split_asm if_split_asm)

lemma moved_attempt:
  assumes "try_execute_next X rd st = Some (res, st')"
  shows "repos_moved X st st'"
proof -
  obtain nxt b where pop: "blo_try_pop (xe_backlog X) (er_now rd) (er_rng rd) (er_now' rd) (xs_backlog st) = Some (nxt, b)"
    using assms by (auto simp: try_execute_next_def split: bind_split_asm)
  let ?st = "st \<lparr> xs_backlog := b \<rparr>"
  have m: "repos_moved X st ?st" by (simp add: moved_refl)
  show ?thesis
  proof (cases nxt)
    case None
    then show ?thesis using assms m by (auto simp: try_execute_next_def pop)
  next
    case (Some ord)
    obtain entity where ent: "resolve_entity_state (xe_pools X) (xs_pools st) (order_entity_ref ord) = Some entity"
      using assms by (auto simp: try_execute_next_def pop Some Let_def split: bind_split_asm)
    show ?thesis
    proof (cases entity)
      case None
      then have "no_pool X rd ord ?st = Some st'" using assms by (auto simp: try_execute_next_def pop Some ent Let_def)
      from moved_trans [OF m moved_no_pool [OF this]] show ?thesis .
    next
      case (Some pool)
      then obtain bundles r f c where r: "run_order X rd ord pool bundles (fst (make_context (xe_executor_prop X) rd (xs_context_cache st) (box_id (as_bx pool)))) (xs_funding st) = Some (r, f)"
        "(case r of None \<Rightarrow> Some (Inl (), ?st \<lparr> xs_context_cache := c, xs_funding := f \<rparr>)
          | Some res \<Rightarrow> map_option (Pair (Inr ())) (handle_run_result X rd ord pool bundles res (?st \<lparr> xs_context_cache := c, xs_funding := f \<rparr>))) = Some (res, st')"
        using assms \<open>nxt = Some ord\<close> by (auto simp: try_execute_next_def pop ent Let_def split: bind_split_asm prod.split_asm)
      have m': "repos_moved X st (?st \<lparr> xs_context_cache := c, xs_funding := f \<rparr>)" by (simp add: moved_refl)
      show ?thesis using r(2) moved_trans [OF m' moved_result] m' by (cases r) auto
    qed
  qed
qed

section \<open>Invariants of the node\<close>

lemma tracing_same [simp]: "bundle_repo_tracing R = R" "schedule_repo_tracing S = S"
  by (cases R, simp add: bundle_repo_tracing_def) (cases S, simp add: schedule_repo_tracing_def)

lemma event_keeps_executor:
  assumes "process_events_step N rd ev st = Some st'"
  shows "ns_executor st' = ns_executor st"
    and "\<exists>ret. schedule_handle (xe_lib (ne_executor N)) (ne_schedules N) (xe_pools (ne_executor N)) (xs_pools (ns_executor st)) (ns_schedules st) ev = Some (ret, ns_schedules st')"
  using assms
  by (auto simp: process_events_step_def process_event_noop node_handlers_def pool_han_def order_han_def bundle_han_def funding_han_def
      schedule_han_def program_han_def Let_def split: bind_split_asm prod.split_asm)

lemma bundle_update_op: "\<exists>op. bundle_update_step R repo u = apply_bundle_op R op repo"
  by (cases "(R, repo, u)" rule: bundle_update_step.cases) (auto intro: apply_bundle_op.simps [symmetric])

locale lm_node = executor E content ok X + pools: entity_repo "xe_pools X" + schedules: schedule_repo XS + bundles: bundle_repo XB
  for E :: "(order, order_id, 's, 'q) backlog_env" and content ok and X :: "((order_id, 's, 'q) backlog_service, 'p, 'r, 'f) executor_env"
    and XS :: "'sdb schedule_env" and XB :: "'r bundle_env" +
  fixes N :: "((order_id, 's, 'q) backlog_service, 'p, 'r, 'f, 'sdb, 'g) node_env"
  assumes executor_env: "ne_executor N = X" and schedules_env: "ne_schedules N = schedule_repo_tracing (schedule_repo_rocksdb XS)"
    and bundles_env: "xe_bundles X = bundle_repo_tracing (bundle_repo_rocksdb XB)"
begin

definition "node_inv s0 bc P st \<longleftrightarrow> reaches s0 bc (be_ref E ` P) (xs_backlog (ns_executor st)) \<and> repo_wf (xe_pools X) (xs_pools (ns_executor st)) \<and>
  bundle_index_wf XB (xs_bundles (ns_executor st)) \<and> schedule_keys_wf XS (ns_schedules st)"

lemma schedule_pool_wf:
  assumes "schedule_keys_wf XS repo" "schedule_pool (schedule_repo_rocksdb XS) repo p = Some repo'"
  shows "schedule_keys_wf XS repo'"
proof -
  obtain sc where sc: "schedule_from_pool p = Some sc" using assms(2) by (auto simp: schedule_pool_def split: bind_split_asm)
  have u: "schedule_keys_wf XS (snd (update_schedule XS repo sc))" using schedules.keys_wf_apply [OF assms(1), of "OpUpdate sc"] by simp
  have "schedule_keys_wf XS (schedule_clean XS (snd (update_schedule XS repo sc)) (pl_pool_id p))" using schedules.keys_wf_apply [OF u, of "OpClean (pl_pool_id p)"] by simp
  then show ?thesis using assms(2) sc u by (auto simp: schedule_pool_def schedule_repo_rocksdb_def split: prod.split_asm sum.split_asm)
qed

lemma schedule_pools_wf:
  "schedule_keys_wf XS repo \<Longrightarrow> schedule_pools (schedule_repo_rocksdb XS) ps repo = Some (b, repo') \<Longrightarrow> schedule_keys_wf XS repo'"
proof (induction ps arbitrary: repo b)
  case (Cons q ps)
  then show ?case by (cases q) (auto split: bind_split_asm dest: schedule_pool_wf)
qed simp

lemma inv_event:
  assumes "node_inv s0 bc P st" "process_events_step N rd ev st = Some st'"
  shows "node_inv s0 bc P st'"
proof -
  obtain ret where "schedule_handle (xe_lib X) (schedule_repo_rocksdb XS) (xe_pools X) (xs_pools (ns_executor st)) (ns_schedules st) ev = Some (ret, ns_schedules st')"
    using event_keeps_executor(2) [OF assms(2)] by (auto simp: executor_env schedules_env)
  then have "schedule_keys_wf XS (ns_schedules st')"
    using assms(1) by (cases ev) (auto simp: node_inv_def split: bind_split_asm dest: schedule_pools_wf)
  then show ?thesis using assms(1) event_keeps_executor(1) [OF assms(2)] by (simp add: node_inv_def)
qed

lemma inv_executor:
  assumes "node_inv s0 bc P st" "executor_step N rd st = Some st'"
  shows "node_inv s0 bc (P \<union> set_option (acquired N rd st)) st'"
proof (cases "ns_tip_reached st")
  case False
  then have "ns_executor st' = ns_executor st" "ns_schedules st' = ns_schedules st" using assms(2) by (auto simp: executor_step_def executor_stream_step_def)
  then show ?thesis using assms(1) False by (simp add: node_inv_def acquired_def)
next
  case True
  obtain res x where x: "try_execute_next X rd (ns_executor st) = Some (res, x)" "st' = st \<lparr> ns_executor := x \<rparr>"
    using assms(2) True by (auto simp: executor_step_def executor_stream_step_def executor_env split: bind_split_asm)
  obtain fl where fl: "fl \<subseteq> be_ref E ` P" "backlog_reach E s0 bc (xs_backlog (ns_executor st), fl)" using assms(1) by (auto simp: node_inv_def reaches_def)
  obtain popped b where pop: "backlog_try_pop E (er_now rd) (er_rng rd) (er_now' rd) (xs_backlog (ns_executor st)) = Some (popped, b)"
    "reaches s0 bc (fl \<union> be_ref E ` set_option popped) (xs_backlog x)" using attempt_reaches [OF fl(2) x(1)] by blast
  have "acquired N rd st = popped" using True pop(1) by (simp add: acquired_def executor_env service_ops)
  then have r: "reaches s0 bc (be_ref E ` (P \<union> set_option (acquired N rd st))) (xs_backlog x)"
    using pop(2) fl(1) unfolding reaches_def image_Un by (elim exE conjE) (meson Un_mono order_refl order_trans)
  obtain ops bops where m: "xs_pools x = fold (apply_repo_op (xe_pools X)) ops (xs_pools (ns_executor st))"
    "xs_bundles x = fold (apply_bundle_op (bundle_repo_rocksdb XB)) bops (xs_bundles (ns_executor st))"
    using moved_attempt [OF x(1)] by (auto simp: repos_moved_def bundles_env)
  show ?thesis using assms(1) r pools.repo_wf_run [of "xs_pools (ns_executor st)" ops] bundles.index_wf_run [of "xs_bundles (ns_executor st)" bops]
    by (simp add: node_inv_def x(2) m)
qed

lemma reaches_event: "reaches s0 bc fl b \<Longrightarrow> reaches s0 bc fl (backlog_stream_step E b upd)"
  unfolding reaches_def by (meson backlog_reach.event)

lemma inv_order: "node_inv s0 bc P st \<Longrightarrow> node_inv s0 bc P (order_stream_step N st)"
proof (cases "ns_order_topic st")
  case (Cons u us)
  assume inv: "node_inv s0 bc P st"
  have "apply_order_update (xe_backlog X) upd b = backlog_stream_step E b upd" for upd b by (cases upd) (simp_all add: service_ops)
  then show ?thesis using inv reaches_event
    by (simp add: order_stream_step_def Cons Let_def node_inv_def executor_env split: option.split)
qed (simp add: order_stream_step_def)

lemma inv_pool: "node_inv s0 bc P st \<Longrightarrow> node_inv s0 bc P (pool_update_step N st)"
  by (simp add: pool_update_step_def node_inv_def executor_env pools.track_wf split: list.split)

lemma inv_funding: "node_inv s0 bc P st \<Longrightarrow> node_inv s0 bc P (funding_stream_step N st)"
  by (simp add: funding_stream_step_def node_inv_def split: list.split)

lemma inv_bundle: "node_inv s0 bc P st \<Longrightarrow> node_inv s0 bc P (bundle_stream_step N st)"
proof (cases "ns_bundle_topic st")
  case (Cons u us)
  assume inv: "node_inv s0 bc P st"
  obtain op where "bundle_update_step (bundle_repo_rocksdb XB) (xs_bundles (ns_executor st)) u = apply_bundle_op (bundle_repo_rocksdb XB) op (xs_bundles (ns_executor st))"
    using bundle_update_op [of "bundle_repo_rocksdb XB" "xs_bundles (ns_executor st)" u] by (rule exE)
  then show ?thesis using inv bundles.index_wf_apply
    by (simp add: bundle_stream_step_def Cons node_inv_def executor_env bundles_env)
qed (simp add: bundle_stream_step_def)

lemma reaches_puts: "reaches s0 bc fl b \<Longrightarrow> reaches s0 bc fl (fold (\<lambda>c b. backlog_put E b (po c)) cs b)"
proof (induction cs arbitrary: b)
  case (Cons c cs)
  from Cons.IH [OF reaches_event [OF Cons.prems, of "NewOrder (po c)"]] show ?case by simp
qed simp

lemma reaches_removes: "reaches s0 bc fl b \<Longrightarrow> reaches s0 bc fl (fold (\<lambda>c b. backlog_remove E b (oref c)) cs b)"
proof (induction cs arbitrary: b)
  case (Cons c cs)
  from Cons.IH [OF reaches_event [OF Cons.prems, of "OrderEliminated (oref c)"]] show ?case by simp
qed simp

abbreviation "D \<equiv> \<lparr> de_lib = xe_lib X, de_backlog = xe_backlog X, de_schedules = ne_schedules N, de_bundles = xe_bundles X \<rparr>"

lemma distribution_keeps:
  assumes "distribution_step D BATCH_SIZE tip ts_peek height_now ts_now d = Some d'"
  shows "ds_bundles d' = ds_bundles d" "reaches s0 bc fl (ds_backlog d) \<Longrightarrow> reaches s0 bc fl (ds_backlog d')"
    "schedule_keys_wf XS (ds_schedules d) \<Longrightarrow> schedule_keys_wf XS (ds_schedules d')"
proof -
  consider "d' = d"
    | (queue) tick cs where "d' = d \<lparr> ds_backlog := fold (\<lambda>c b. backlog_put E b \<lparr> po_order = OrdCompound c, po_timestamp = ts_now \<rparr>) cs (ds_backlog d),
        ds_schedules := schedule_defer XS (ds_schedules d) tick (ts_now + TICK_SUSPENSION_DURATION) \<rparr>"
    | (close) tick cs where "d' = d \<lparr> ds_backlog := fold (\<lambda>c b. backlog_remove E b (order_self_ref (xe_lib X) c)) cs (ds_backlog d),
        ds_schedules := schedule_remove XS (schedule_defer XS (ds_schedules d) tick (ts_now + TICK_SUSPENSION_DURATION)) tick \<rparr>"
    using assms by (fastforce simp: distribution_step_def queue_batches_def close_epoch_def service_ops schedules_env schedule_repo_rocksdb_def Let_def
        split: if_split_asm option.split_asm bind_split_asm)
  note cases = this
  show "ds_bundles d' = ds_bundles d" by (cases rule: cases) simp_all
  show "reaches s0 bc fl (ds_backlog d) \<Longrightarrow> reaches s0 bc fl (ds_backlog d')" by (cases rule: cases) (simp_all add: reaches_puts reaches_removes)
  have dfr: "schedule_keys_wf XS (schedule_defer XS db t u)" if "schedule_keys_wf XS db" for db t u
    using schedules.keys_wf_apply [OF that, of "OpDefer t u"] by simp
  have rem: "schedule_keys_wf XS (schedule_remove XS db t)" if "schedule_keys_wf XS db" for db t
    using schedules.keys_wf_apply [OF that, of "OpRemove t"] by simp
  show "schedule_keys_wf XS (ds_schedules d) \<Longrightarrow> schedule_keys_wf XS (ds_schedules d')" by (cases rule: cases) (simp_all add: dfr rem)
qed

lemma inv_scheduler:
  assumes "node_inv s0 bc P st" "scheduler_step N ts_peek height_now ts_now st = Some st'"
  shows "node_inv s0 bc P st'"
proof -
  obtain d where d: "distribution_step D BATCH_SIZE (ns_tip_reached st) ts_peek height_now ts_now
      \<lparr> ds_backlog = xs_backlog (ns_executor st), ds_schedules = ns_schedules st, ds_bundles = xs_bundles (ns_executor st) \<rparr> = Some d"
    "st' = st \<lparr> ns_executor := (ns_executor st) \<lparr> xs_backlog := ds_backlog d, xs_bundles := ds_bundles d \<rparr>, ns_schedules := ds_schedules d \<rparr>"
    using assms(2) by (auto simp: scheduler_step_def Let_def executor_env)
  show ?thesis using assms(1) distribution_keeps [OF d(1)] by (simp add: node_inv_def d(2))
qed

lemma scheduler_total:
  assumes "node_inv s0 bc P st"
  shows "scheduler_step N ts_peek height_now ts_now st \<noteq> None"
proof -
  have sel: "(bro_select (xe_bundles X) (xs_bundles (ns_executor st)) p e = None) = False" for p e
    using bundles.select_exact [of "xs_bundles (ns_executor st)" p e] assms by (auto simp: node_inv_def bundles_env bundle_repo_rocksdb_def)
  have "scheduler_step N ts_peek height_now ts_now st = None \<Longrightarrow> False"
    by (auto simp: scheduler_step_def executor_env Let_def distribution_step_def queue_batches_def BATCH_SIZE_def sel split: option.split_asm bind_split_asm prod.split_asm if_split_asm)
  then show ?thesis by blast
qed

lemma inv_step: "node_step N st acq st' \<Longrightarrow> node_inv s0 bc P st \<Longrightarrow> node_inv s0 bc (P \<union> set_option acq) st'"
proof (induction rule: node_step.induct)
  case (on_event rd ev st st')
  then show ?case using inv_event by simp
next
  case (on_executor rd st st')
  then show ?case using inv_executor by blast
next
  case (on_pool st)
  then show ?case using inv_pool by simp
next
  case (on_order st)
  then show ?case using inv_order by simp
next
  case (on_bundle st)
  then show ?case using inv_bundle by simp
next
  case (on_funding st)
  then show ?case using inv_funding by simp
next
  case (on_scheduler ts_peek height_now ts_now st st')
  then show ?case using inv_scheduler by simp
next
  case (on_tip st)
  then show ?case by (simp add: node_inv_def)
qed

lemma inv_reach: "node_reach N st0 P st \<Longrightarrow> node_inv s0 bc {} st0 \<Longrightarrow> node_inv s0 bc P st"
  by (induction rule: node_reach.induct) (auto intro: inv_step)

end

section \<open>Instance\<close>

definition sample_node :: "((order_id, mem_db, (order_id weighted_order \<times> u64) list) backlog_service, mem_db, mem_db, mem_db, mem_db, mem_db) node_env" where
  "sample_node = \<lparr> ne_executor = sample_executor, ne_schedules = schedule_repo_tracing (schedule_repo_rocksdb sample_schedules),
     ne_programs = program_repo_rocksdb \<lparr> pe_db = mem_rocksdb, pe_pid = digest_codec, pe_conf = codec_of config_sd \<rparr>,
     ne_blacklist = [], ne_wallet = [5], ne_order_lifespan = 100 \<rparr>"

interpretation sample_node: lm_node order_env orders_content orders_ok sample_executor sample_schedules sample_bundles sample_node
proof (intro lm_node.intro sample_executor.executor_axioms sample_schedules.schedule_repo_axioms sample_bundles.bundle_repo_axioms lm_node_axioms.intro)
  show "entity_repo (xe_pools sample_executor)" using sample_pools.entity_repo_axioms by (simp add: sample_executor_def)
qed (simp_all add: sample_node_def sample_executor_def)

definition sample_node_state :: "((order_id, mem_db, (order_id weighted_order \<times> u64) list) backlog_service, mem_db, mem_db, mem_db, mem_db, mem_db) node_state" where
  "sample_node_state = \<lparr> ns_executor = sample_executor_state, ns_schedules = RBT.empty, ns_programs = RBT.empty,
     ns_pool_topic = [Confirmed (Transition (ERight (AsBox (sample_box 100000000000) sample_pool)))], ns_bundle_topic = [], ns_order_topic = [],
     ns_funding_topic = [], ns_tip_reached = False \<rparr>"

section \<open>Property\<close>

text \<open>The node keeps its books however its streams are interleaved.  In every state it reaches, whatever the chain, the network and the
  clock do, each stored order waits in a queue of the backlog or has been acquired by the executor; the
  pools, the index of the staking bundles and the keys of the schedules are well-formed; and the scheduler can take its next step: it
  never panics.\<close>

theorem node_keeps_invariants:
  assumes "lm_node E content ok X XS XB N" "node_reach N st0 P st"
    and "xs_backlog (ns_executor st0) = backlog_new E s0 bc" "ok s0"
    and "repo_wf (xe_pools X) (xs_pools (ns_executor st0))" "bundle_index_wf XB (xs_bundles (ns_executor st0))" "schedule_keys_wf XS (ns_schedules st0)"
  shows "(\<forall>i. backlog_exists E (xs_backlog (ns_executor st)) i \<longrightarrow> i \<in> tracked E (xs_backlog (ns_executor st)) \<union> be_ref E ` P) \<and>
    repo_wf (xe_pools X) (xs_pools (ns_executor st)) \<and> bundle_index_wf XB (xs_bundles (ns_executor st)) \<and> schedule_keys_wf XS (ns_schedules st) \<and>
    (\<exists>st'. scheduler_step N ts_peek height_now ts_now st = Some st')"
proof -
  have ex: "executor E content ok X" using assms(1) by (rule lm_node.axioms(1))
  then have b: "backlog E content ok" by (rule executor.axioms(1))
  have "backlog_reach E s0 bc (xs_backlog (ns_executor st0), {})" unfolding assms(3) by (rule backlog_reach.start)
  then have "lm_node.node_inv E X XS XB s0 bc {} st0"
    using assms(5-7) unfolding lm_node.node_inv_def [OF assms(1)] executor.reaches_def [OF ex] by blast
  from lm_node.inv_reach [OF assms(1,2) this] have inv: "lm_node.node_inv E X XS XB s0 bc P st" .
  then obtain fl where fl: "fl \<subseteq> be_ref E ` P" "backlog_reach E s0 bc (xs_backlog (ns_executor st), fl)"
    unfolding lm_node.node_inv_def [OF assms(1)] executor.reaches_def [OF ex] by blast
  have t: "ok (bl_store (xs_backlog (ns_executor st)))" "dom (content (bl_store (xs_backlog (ns_executor st)))) \<subseteq> tracked E (xs_backlog (ns_executor st)) \<union> fl"
    using backlog.reach_tracked [OF b assms(4) fl(2)] by simp_all
  have "i \<in> tracked E (xs_backlog (ns_executor st)) \<union> be_ref E ` P" if "backlog_exists E (xs_backlog (ns_executor st)) i" for i
    using that t fl(1) backlog_store.exists_iff [OF backlog.axioms(2) [OF b] t(1)] by (auto simp: backlog_exists_def)
  then show ?thesis
    using inv lm_node.scheduler_total [OF assms(1) inv, of ts_peek height_now ts_now] unfolding lm_node.node_inv_def [OF assms(1)] by blast
qed

theorem node_keeps_invariants_witness:
  "\<exists>st. node_reach sample_node sample_node_state {} st \<and> ns_tip_reached st \<and> repo_wf sample_pools (xs_pools (ns_executor st)) \<and>
     (\<exists>st'. scheduler_step sample_node 0 100 0 st = Some st')"
proof -
  let ?st = "pool_update_step sample_node (sample_node_state \<lparr> ns_tip_reached := True \<rparr>)"
  have r: "node_reach sample_node sample_node_state {} ?st"
    using node_reach.after_step [OF node_reach.after_step [OF node_reach.at_start node_step.on_tip] node_step.on_pool] by simp
  have "repo_wf sample_pools RBT.empty" by (simp add: repo_wf_def sample_pools_def get_state_def mem_rocksdb_def)
  then have p: "repo_wf (xe_pools sample_executor) (xs_pools (ns_executor sample_node_state))"
    using sample_pools.repo_wf_put_confirmed by (simp add: sample_node_state_def sample_executor_state_def sample_executor_def)
  have s: "xs_backlog (ns_executor sample_node_state) = backlog_new order_env RBT.empty \<lparr> order_lifespan = 100, order_exec_time = 10, retry_suspended_prob = 5 \<rparr>"
    "bundle_index_wf sample_bundles (xs_bundles (ns_executor sample_node_state))" "schedule_keys_wf sample_schedules (ns_schedules sample_node_state)"
    by (simp_all add: sample_node_state_def sample_executor_state_def no_bundles no_schedules)
  have "ns_tip_reached ?st" "xe_pools sample_executor = sample_pools" by (simp_all add: pool_update_step_def sample_node_state_def sample_executor_def)
  then show ?thesis using r node_keeps_invariants [OF sample_node.lm_node_axioms r s(1) sample_backlog_ok(1) p s(2,3), of 0 100 0] by metis
qed

end
