(* ===== verification/Concurrency.thy ===== *)
theory Concurrency
  imports "HOL-Library.Multiset"
begin

text \<open>
  Streams that share their state under locks, as \<open>futures\<close> and \<open>tokio\<close> run them: one thread polls the streams, a stream
  that awaits lets the others go on, and a \<open>Mutex\<close> that is held keeps the others waiting.  What one element of a stream does
  is a tree of atomic actions and of acquisitions and releases of locks; an action may panic (\<open>None\<close>).

  Results, once for all processes that take their locks in the order of a rank: two streams never hold the same lock,
  the streams never wait for each other for ever, and every run in which no new element begins is finite.
\<close>

section \<open>Processes\<close>

text \<open>An action is labelled with the set of the events it shows to the outside.\<close>

datatype ('r, 's, 'l) proc =
    Done
  | Acquire 'r "('r, 's, 'l) proc"
  | Release 'r "('r, 's, 'l) proc"
  | Act "'s \<Rightarrow> ('l set \<times> 's \<times> ('r, 's, 'l) proc) option"

definition act :: "('s \<Rightarrow> ('v \<times> 's) option) \<Rightarrow> ('v \<Rightarrow> ('r, 's, 'l) proc) \<Rightarrow> ('r, 's, 'l) proc" where
  "act f k = Act (\<lambda>s. map_option (\<lambda>(v, s'). ({}, s', k v)) (f s))"

definition locked :: "'r \<Rightarrow> ('s \<Rightarrow> ('v \<times> 's) option) \<Rightarrow> ('v \<Rightarrow> ('r, 's, 'l) proc) \<Rightarrow> ('r, 's, 'l) proc" where
  "locked r f k = Acquire r (act f (\<lambda>v. Release r (k v)))"

text \<open>The run of a process on its own.\<close>

primrec run_proc :: "('r, 's, 'l) proc \<Rightarrow> 's \<Rightarrow> ('l set \<times> 's) option" where
  "run_proc Done = (\<lambda>s. Some ({}, s))"
| "run_proc (Acquire r p) = run_proc p"
| "run_proc (Release r p) = run_proc p"
| "run_proc (Act f) = (\<lambda>s. case (map_option (map_prod id (map_prod id run_proc)) \<circ> f) s of
      Some (ls, s', g) \<Rightarrow> map_option (\<lambda>(ls', t). (ls \<union> ls', t)) (g s')
    | None \<Rightarrow> None)"

lemma run_Act: "run_proc (Act f) s = (case f s of
    Some (ls, s', p) \<Rightarrow> map_option (\<lambda>(ls', t). (ls \<union> ls', t)) (run_proc p s')
  | None \<Rightarrow> None)"
  by (simp split: option.split)

lemma run_act [simp]: "run_proc (act f k) s = (case f s of Some (v, s') \<Rightarrow> run_proc (k v) s' | None \<Rightarrow> None)"
  unfolding act_def run_Act by (auto simp: map_option.id split: option.split)

lemma run_locked [simp]: "run_proc (locked r f k) s = (case f s of Some (v, s') \<Rightarrow> run_proc (k v) s' | None \<Rightarrow> None)"
  by (simp add: locked_def split: option.split)

declare run_proc.simps(4) [simp del]

section \<open>Locks in order\<close>

text \<open>A process takes its locks in the order of their ranks, releases what it holds and ends with no lock.\<close>

inductive disciplined :: "('r \<Rightarrow> nat) \<Rightarrow> 'r set \<Rightarrow> ('r, 's, 'l) proc \<Rightarrow> bool" for rank where
  ends: "disciplined rank {} Done"
| acquires: "(\<And>h. h \<in> H \<Longrightarrow> rank h < rank r) \<Longrightarrow> disciplined rank (insert r H) p \<Longrightarrow> disciplined rank H (Acquire r p)"
| releases: "r \<in> H \<Longrightarrow> disciplined rank (H - {r}) p \<Longrightarrow> disciplined rank H (Release r p)"
| acts: "(\<And>s ls s' p. f s = Some (ls, s', p) \<Longrightarrow> disciplined rank H p) \<Longrightarrow> disciplined rank H (Act f)"

inductive_simps disciplined_simps [simp]:
  "disciplined rank H Done" "disciplined rank H (Acquire r p)" "disciplined rank H (Release r p)"

inductive_simps disciplined_Act: "disciplined rank H (Act f)"

lemma disciplined_act: "(\<And>s v s'. f s = Some (v, s') \<Longrightarrow> disciplined rank H (k v)) \<Longrightarrow> disciplined rank H (act f k)"
  unfolding act_def by (rule acts) auto

lemma disciplined_locked:
  assumes "\<And>h. h \<in> H \<Longrightarrow> rank h < rank r" "\<And>s v s'. f s = Some (v, s') \<Longrightarrow> disciplined rank H (k v)"
  shows "disciplined rank H (locked r f k)"
proof -
  have "insert r H - {r} = H" using assms(1) by fastforce
  then show ?thesis unfolding locked_def using assms by (intro acquires disciplined_act) (auto intro: disciplined_act)
qed

section \<open>Streams\<close>

record ('i, 'r, 's, 'l) streams_state =
  sh_state :: 's
  sh_procs :: "'i \<Rightarrow> ('r, 's, 'l) proc"
  sh_held :: "'i \<Rightarrow> 'r set"

definition quiet :: "'s \<Rightarrow> ('i, 'r, 's, 'l) streams_state" where
  "quiet s = \<lparr> sh_state = s, sh_procs = (\<lambda>_. Done), sh_held = (\<lambda>_. {}) \<rparr>"

text \<open>One stream goes on with its element.\<close>

inductive advance :: "('i, 'r, 's, 'l) streams_state \<Rightarrow> 'l set \<Rightarrow> ('i, 'r, 's, 'l) streams_state \<Rightarrow> bool" where
  lock: "sh_procs c i = Acquire r p \<Longrightarrow> (\<And>j. r \<notin> sh_held c j) \<Longrightarrow>
    advance c {} (c \<lparr> sh_procs := (sh_procs c)(i := p), sh_held := (sh_held c)(i := insert r (sh_held c i)) \<rparr>)"
| unlock: "sh_procs c i = Release r p \<Longrightarrow>
    advance c {} (c \<lparr> sh_procs := (sh_procs c)(i := p), sh_held := (sh_held c)(i := sh_held c i - {r}) \<rparr>)"
| action: "sh_procs c i = Act f \<Longrightarrow> f (sh_state c) = Some (ls, s', p) \<Longrightarrow>
    advance c ls (c \<lparr> sh_state := s', sh_procs := (sh_procs c)(i := p) \<rparr>)"

text \<open>A stream that has ended its element may begin any of its elements.\<close>

inductive streams_step :: "('i \<Rightarrow> ('r, 's, 'l) proc set) \<Rightarrow> ('i, 'r, 's, 'l) streams_state \<Rightarrow> 'l set \<Rightarrow> ('i, 'r, 's, 'l) streams_state \<Rightarrow> bool" for elements where
  begins: "sh_procs c i = Done \<Longrightarrow> p \<in> elements i \<Longrightarrow> streams_step elements c {} (c \<lparr> sh_procs := (sh_procs c)(i := p) \<rparr>)"
| goes_on: "advance c ls c' \<Longrightarrow> streams_step elements c ls c'"

inductive streams_run :: "('i \<Rightarrow> ('r, 's, 'l) proc set) \<Rightarrow> ('i, 'r, 's, 'l) streams_state \<Rightarrow> 'l set \<Rightarrow> ('i, 'r, 's, 'l) streams_state \<Rightarrow> bool" for elements where
  none: "streams_run elements c {} c"
| more: "streams_run elements c P c' \<Longrightarrow> streams_step elements c' ls c'' \<Longrightarrow> streams_run elements c (P \<union> ls) c''"

lemma run_trans: "streams_run E c' P' c'' \<Longrightarrow> streams_run E c P c' \<Longrightarrow> streams_run E c (P \<union> P') c''"
proof (induction rule: streams_run.induct)
  case (more c' P' c1 ls c'')
  then show ?case using streams_run.more [of E c "P \<union> P'" c1 ls c''] by (simp add: Un_assoc)
qed simp

lemma run_one: "streams_step E c ls c' \<Longrightarrow> streams_run E c ls c'"
  using streams_run.more [OF streams_run.none] by fastforce

text \<open>An action that panics ends the program.\<close>

definition panicked :: "('i, 'r, 's, 'l) streams_state \<Rightarrow> bool" where
  "panicked c \<longleftrightarrow> (\<exists>i f. sh_procs c i = Act f \<and> f (sh_state c) = None)"

definition all_done :: "('i, 'r, 's, 'l) streams_state \<Rightarrow> bool" where
  "all_done c \<longleftrightarrow> (\<forall>i. sh_procs c i = Done)"

section \<open>A process that runs alone\<close>

lemma alone:
  assumes "run_proc p (sh_state c) = Some (ls, s')" "disciplined rank (sh_held c i) p" "sh_procs c i = p" "\<And>j. j \<noteq> i \<Longrightarrow> sh_held c j = {}"
  shows "streams_run E c ls (c \<lparr> sh_state := s', sh_procs := (sh_procs c)(i := Done), sh_held := (sh_held c)(i := {}) \<rparr>)"
  using assms
proof (induction p arbitrary: c ls s')
  case Done
  then have "c \<lparr> sh_state := s', sh_procs := (sh_procs c)(i := Done), sh_held := (sh_held c)(i := {}) \<rparr> = c" "ls = {}"
    using fun_upd_triv [of "sh_procs c" i] fun_upd_triv [of "sh_held c" i] by simp_all
  then show ?case by (simp only: streams_run.none)
next
  case (Acquire r p)
  have free: "r \<notin> sh_held c j" for j using Acquire.prems(2,4) by (cases "j = i") auto
  let ?c = "c \<lparr> sh_procs := (sh_procs c)(i := p), sh_held := (sh_held c)(i := insert r (sh_held c i)) \<rparr>"
  have "streams_run E ?c ls (?c \<lparr> sh_state := s', sh_procs := (sh_procs ?c)(i := Done), sh_held := (sh_held ?c)(i := {}) \<rparr>)"
    by (rule Acquire.IH) (use Acquire.prems in auto)
  from run_trans [OF this run_one [OF goes_on [OF lock [OF Acquire.prems(3) free]]]] show ?case by (simp add: fun_upd_def cong: if_cong)
next
  case (Release r p)
  let ?c = "c \<lparr> sh_procs := (sh_procs c)(i := p), sh_held := (sh_held c)(i := sh_held c i - {r}) \<rparr>"
  have "streams_run E ?c ls (?c \<lparr> sh_state := s', sh_procs := (sh_procs ?c)(i := Done), sh_held := (sh_held ?c)(i := {}) \<rparr>)"
    by (rule Release.IH) (use Release.prems in auto)
  from run_trans [OF this run_one [OF goes_on [OF unlock [OF Release.prems(3)]]]] show ?case by (simp add: fun_upd_def cong: if_cong)
next
  case (Act f)
  obtain l0 s0 p l1 where f: "f (sh_state c) = Some (l0, s0, p)" "run_proc p s0 = Some (l1, s')" "ls = l0 \<union> l1"
    using Act.prems(1) unfolding run_Act by (auto split: option.split_asm)
  let ?c = "c \<lparr> sh_state := s0, sh_procs := (sh_procs c)(i := p) \<rparr>"
  have "streams_run E ?c l1 (?c \<lparr> sh_state := s', sh_procs := (sh_procs ?c)(i := Done), sh_held := (sh_held ?c)(i := {}) \<rparr>)"
  proof (rule Act.IH [of "Some (l0, s0, p)" "(l0, s0, p)" "(s0, p)"])
    show "disciplined rank (sh_held ?c i) p" using Act.prems(2) f(1) by (auto simp: disciplined_Act)
    show "Some (l0, s0, p) \<in> range f" using f(1) by (metis rangeI)
  qed (use Act.prems f in simp_all)
  from run_trans [OF this run_one [OF goes_on [OF action [OF Act.prems(3) f(1)]]]] show ?case by (simp add: f(3) fun_upd_def cong: if_cong)
qed

lemma alone_quiet:
  assumes "run_proc p s = Some (ls, s')" "disciplined rank {} p" "p \<in> E i"
  shows "streams_run E (quiet s) ls (quiet s')"
proof -
  let ?c = "(quiet s) \<lparr> sh_procs := (sh_procs (quiet s))(i := p) \<rparr>"
  have "streams_run E ?c ls (?c \<lparr> sh_state := s', sh_procs := (sh_procs ?c)(i := Done), sh_held := (sh_held ?c)(i := {}) \<rparr>)"
    by (rule alone [where rank = rank]) (use assms(1,2) in \<open>simp_all add: quiet_def\<close>)
  moreover have "?c \<lparr> sh_state := s', sh_procs := (sh_procs ?c)(i := Done), sh_held := (sh_held ?c)(i := {}) \<rparr> = quiet s'"
    by (simp add: quiet_def fun_eq_iff)
  moreover have "streams_step E (quiet s) {} ?c" by (rule begins) (simp_all add: quiet_def assms(3))
  ultimately show ?thesis using run_trans [OF _ run_one] by fastforce
qed

section \<open>Mutual exclusion and deadlocks\<close>

locale streams =
  fixes rank :: "'r \<Rightarrow> nat" and elements :: "'i::finite \<Rightarrow> ('r, 's, 'l) proc set"
  assumes elements_disciplined: "p \<in> elements i \<Longrightarrow> disciplined rank {} p"
begin

definition "locks_wf (c :: ('i, 'r, 's, 'l) streams_state) \<longleftrightarrow> (\<forall>i. disciplined rank (sh_held c i) (sh_procs c i)) \<and> (\<forall>i j. i \<noteq> j \<longrightarrow> sh_held c i \<inter> sh_held c j = {})"

lemma locks_wf_quiet: "locks_wf (quiet s)"
  by (simp add: locks_wf_def quiet_def)

lemma locks_wf_advance: "advance c ls c' \<Longrightarrow> locks_wf c \<Longrightarrow> locks_wf c'"
proof (induction rule: advance.induct)
  case (lock c i r p)
  then have "disciplined rank (insert r (sh_held c i)) p" unfolding locks_wf_def by (metis disciplined_simps(2))
  then show ?case using lock by (auto simp: locks_wf_def)
next
  case (unlock c i r p)
  then have "disciplined rank (sh_held c i - {r}) p" unfolding locks_wf_def by (metis disciplined_simps(3))
  then show ?case using unlock by (auto simp: locks_wf_def)
next
  case (action c i f ls s' p)
  then have "disciplined rank (sh_held c i) p" unfolding locks_wf_def by (metis disciplined_Act)
  then show ?case using action by (auto simp: locks_wf_def)
qed

lemma locks_wf_step: "streams_step elements c ls c' \<Longrightarrow> locks_wf c \<Longrightarrow> locks_wf c'"
proof (induction rule: streams_step.induct)
  case (begins c i p)
  then have "sh_held c i = {}" unfolding locks_wf_def by (metis disciplined_simps(1))
  then show ?case using begins elements_disciplined [of p i] by (auto simp: locks_wf_def)
next
  case (goes_on c ls c')
  then show ?case by (blast intro: locks_wf_advance)
qed

lemma locks_wf_run: "streams_run elements c P c' \<Longrightarrow> locks_wf c \<Longrightarrow> locks_wf c'"
  by (induction rule: streams_run.induct) (auto intro: locks_wf_step)

definition "waits (c :: ('i, 'r, 's, 'l) streams_state) i r \<longleftrightarrow> (\<exists>p. sh_procs c i = Acquire r p) \<and> (\<exists>j. r \<in> sh_held c j)"

text \<open>Among the streams that wait, the one that waits for the lock of the highest rank waits for a stream that goes on.\<close>

lemma advances_or_waits:
  assumes "\<not> panicked c" "locks_wf c" "sh_procs c i \<noteq> Done"
  shows "(\<exists>ls c'. advance c ls c') \<or> (\<exists>r. waits c i r)"
proof (cases "sh_procs c i")
  case (Acquire r p)
  then show ?thesis using advance.lock [OF Acquire] by (auto simp: waits_def)
next
  case (Release r p)
  from advance.unlock [OF this] show ?thesis by blast
next
  case (Act f)
  then obtain ls s' p where "f (sh_state c) = Some (ls, s', p)" using assms(1) unfolding panicked_def by fastforce
  then show ?thesis using advance.action [OF Act] by blast
qed (use assms(3) in simp)

lemma holder_rank:
  assumes "locks_wf c" "waits c i r"
  obtains j where "r \<in> sh_held c j" "sh_procs c j \<noteq> Done" "\<And>r'. waits c j r' \<Longrightarrow> rank r < rank r'"
proof -
  obtain j where j: "r \<in> sh_held c j" using assms(2) by (auto simp: waits_def)
  have d: "disciplined rank (sh_held c j) (sh_procs c j)" using assms(1) by (simp add: locks_wf_def)
  have "rank r < rank r'" if "waits c j r'" for r' using that d j by (auto simp: waits_def)
  moreover have "sh_procs c j \<noteq> Done" using d j by (metis disciplined_simps(1) empty_iff)
  ultimately show thesis using that j by blast
qed

lemma no_deadlock:
  assumes "locks_wf c" "\<not> panicked c" "\<not> all_done c"
  shows "\<exists>ls c'. advance c ls c'"
proof (rule ccontr)
  assume stuck: "\<not> ?thesis"
  let ?R = "{rank r | r i. waits c i r}"
  obtain i where i: "sh_procs c i \<noteq> Done" using assms(3) by (auto simp: all_done_def)
  have one: "r = r'" if "waits c j r" "waits c j r'" for j r r' using that by (auto simp: waits_def)
  have "rank r = rank (SOME r. waits c i r)" if "waits c i r" for r i using one [OF that someI [of "waits c i", OF that]] by simp
  then have "?R \<subseteq> range (\<lambda>i. rank (SOME r. waits c i r))" by blast
  then have fin: "finite ?R" by (rule finite_subset) simp
  have ne: "?R \<noteq> {}" using advances_or_waits [OF assms(2,1) i] stuck by blast
  obtain r i where m: "waits c i r" "rank r = Max ?R" using Max_in [OF fin ne] by auto
  obtain j where j: "sh_procs c j \<noteq> Done" "\<And>r'. waits c j r' \<Longrightarrow> rank r < rank r'" using holder_rank [OF assms(1) m(1)] by blast
  obtain r' where r': "waits c j r'" using advances_or_waits [OF assms(2,1) j(1)] stuck by blast
  then have "rank r' \<le> Max ?R" using fin by (intro Max_ge) auto
  then show False using j(2) [OF r'] m(2) by simp
qed

end

section \<open>Runs without new elements\<close>

inductive_set next_proc :: "(('r, 's, 'l) proc \<times> ('r, 's, 'l) proc) set" where
  "(p, Acquire r p) \<in> next_proc"
| "(p, Release r p) \<in> next_proc"
| "f s = Some (ls, s', p) \<Longrightarrow> (p, Act f) \<in> next_proc"

inductive_cases next_procE [elim!]: "(p, Done) \<in> next_proc" "(p, Acquire r q) \<in> next_proc" "(p, Release r q) \<in> next_proc"

inductive_cases next_ActE: "(p, Act f) \<in> next_proc"

lemma wf_next_proc: "wf next_proc"
proof (rule wfUNIVI)
  fix P :: "('a, 'b, 'c) proc \<Rightarrow> bool" and p
  assume "\<forall>x. (\<forall>y. (y, x) \<in> next_proc \<longrightarrow> P y) \<longrightarrow> P x"
  then have *: "(\<And>y. (y, x) \<in> next_proc \<Longrightarrow> P y) \<Longrightarrow> P x" for x by blast
  show "P p"
  proof (induction p)
    case (Act f)
    show ?case by (rule *) (auto elim!: next_ActE intro: Act.IH [OF range_eqI])
  qed (rule *; auto)+
qed

definition procs_of :: "('i::finite, 'r, 's, 'l) streams_state \<Rightarrow> ('r, 's, 'l) proc multiset" where
  "procs_of c = image_mset (sh_procs c) (mset_set UNIV)"

lemma next_decreases:
  assumes "(q, g i) \<in> next_proc"
  shows "(image_mset (g(i := q)) (mset_set UNIV), image_mset g (mset_set (UNIV :: 'i::finite set))) \<in> mult next_proc"
proof -
  let ?M = "image_mset g (mset_set (UNIV - {i}))"
  have U: "mset_set UNIV = add_mset i (mset_set (UNIV - {i}))" by (rule mset_set.remove) simp_all
  have "image_mset (g(i := q)) (mset_set (UNIV - {i})) = ?M" by (rule image_mset_cong) simp
  then have e: "image_mset (g(i := q)) (mset_set UNIV) = ?M + {#q#}" "image_mset g (mset_set UNIV) = ?M + {#g i#}"
    unfolding U image_mset_add_mset fun_upd_same by simp_all
  have "(?M + {#q#}, ?M + {#g i#}) \<in> mult next_proc" by (rule one_step_implies_mult) (use assms in simp_all)
  then show ?thesis unfolding e .
qed

lemma advance_decreases: "advance c ls c' \<Longrightarrow> (procs_of c', procs_of c) \<in> mult next_proc"
proof (induction rule: advance.induct)
  case (lock c i r p)
  then show ?case using next_decreases [of p "sh_procs c" i] by (simp add: procs_of_def next_proc.intros)
next
  case (unlock c i r p)
  then show ?case using next_decreases [of p "sh_procs c" i] by (simp add: procs_of_def next_proc.intros)
next
  case (action c i f ls s' p)
  then show ?case using next_decreases [of p "sh_procs c" i] next_proc.intros(3) [of f "sh_state c" ls s' p] by (simp add: procs_of_def)
qed

lemma wf_advance: "wf {(c', c :: ('i::finite, 'r, 's, 'l) streams_state). \<exists>ls. advance c ls c'}"
proof (rule wf_subset [OF wf_inv_image [OF wf_mult [OF wf_next_proc], of procs_of]])
  show "{(c', c). \<exists>ls. advance c ls c'} \<subseteq> inv_image (mult next_proc) procs_of"
    using advance_decreases by (auto simp: inv_image_def)
qed

context streams
begin

text \<open>Whatever the streams are doing, they can end it: every way of going on ends, and it ends with nothing left to do, unless an action panics.\<close>

lemma drains: "locks_wf c \<Longrightarrow> \<exists>P c'. streams_run (\<lambda>_. {}) c P c' \<and> (all_done c' \<or> panicked c')"
proof (induction c rule: wf_induct_rule [OF wf_advance])
  case (1 c)
  show ?case
  proof (cases "all_done c \<or> panicked c")
    case True
    then show ?thesis using streams_run.none by blast
  next
    case False
    then obtain ls c' where a: "advance c ls c'" using no_deadlock [OF 1(2)] by blast
    then obtain P c'' where "streams_run (\<lambda>_. {}) c' P c''" "all_done c'' \<or> panicked c''" using 1 locks_wf_advance by blast
    then show ?thesis using run_trans [OF _ run_one [OF goes_on [OF a]]] by blast
  qed
qed

end

section \<open>Invariants\<close>

text \<open>Every action of a process keeps an invariant of the state and of the events shown so far.\<close>

inductive keeps :: "('l set \<Rightarrow> 's \<Rightarrow> bool) \<Rightarrow> ('r, 's, 'l) proc \<Rightarrow> bool" for J where
  keeps_Done: "keeps J Done"
| keeps_Acquire: "keeps J p \<Longrightarrow> keeps J (Acquire r p)"
| keeps_Release: "keeps J p \<Longrightarrow> keeps J (Release r p)"
| keeps_Act: "(\<And>P s ls s' p. J P s \<Longrightarrow> f s = Some (ls, s', p) \<Longrightarrow> J (P \<union> ls) s') \<Longrightarrow>
    (\<And>P s ls s' p. J P s \<Longrightarrow> f s = Some (ls, s', p) \<Longrightarrow> keeps J p) \<Longrightarrow> keeps J (Act f)"

inductive_simps keeps_simps [simp]: "keeps J Done" "keeps J (Acquire r p)" "keeps J (Release r p)"

inductive_cases keeps_ActE: "keeps J (Act f)"

lemma keeps_act: "(\<And>P s v s'. J P s \<Longrightarrow> f s = Some (v, s') \<Longrightarrow> J P s' \<and> keeps J (k v)) \<Longrightarrow> keeps J (act f k)"
  unfolding act_def by (rule keeps_Act) fastforce+

lemma keeps_locked: "(\<And>P s v s'. J P s \<Longrightarrow> f s = Some (v, s') \<Longrightarrow> J P s' \<and> keeps J (k v)) \<Longrightarrow> keeps J (locked r f k)"
  unfolding locked_def by (auto intro!: keeps_act)

inductive never_panics :: "('l set \<Rightarrow> 's \<Rightarrow> bool) \<Rightarrow> ('r, 's, 'l) proc \<Rightarrow> bool" for J where
  safe_Done: "never_panics J Done"
| safe_Acquire: "never_panics J p \<Longrightarrow> never_panics J (Acquire r p)"
| safe_Release: "never_panics J p \<Longrightarrow> never_panics J (Release r p)"
| safe_Act: "(\<And>P s. J P s \<Longrightarrow> f s \<noteq> None) \<Longrightarrow> (\<And>P s ls s' p. J P s \<Longrightarrow> f s = Some (ls, s', p) \<Longrightarrow> never_panics J p) \<Longrightarrow> never_panics J (Act f)"

inductive_simps never_panics_simps [simp]: "never_panics J Done" "never_panics J (Acquire r p)" "never_panics J (Release r p)"

inductive_cases never_panics_ActE: "never_panics J (Act f)"

lemma never_panics_act: "(\<And>P s. J P s \<Longrightarrow> \<exists>v s'. f s = Some (v, s') \<and> never_panics J (k v)) \<Longrightarrow> never_panics J (act f k)"
  unfolding act_def by (rule safe_Act) fastforce+

lemma never_panics_locked: "(\<And>P s. J P s \<Longrightarrow> \<exists>v s'. f s = Some (v, s') \<and> never_panics J (k v)) \<Longrightarrow> never_panics J (locked r f k)"
  unfolding locked_def by (auto intro!: never_panics_act)

locale streams_inv = streams rank elements
  for rank :: "'r \<Rightarrow> nat" and elements :: "'i::finite \<Rightarrow> ('r, 's, 'l) proc set" +
  fixes J :: "'l set \<Rightarrow> 's \<Rightarrow> bool" and safe :: "'i set"
  assumes elements_keep: "p \<in> elements i \<Longrightarrow> keeps J p" and elements_safe: "i \<in> safe \<Longrightarrow> p \<in> elements i \<Longrightarrow> never_panics J p"
begin

definition "procs_inv P (c :: ('i, 'r, 's, 'l) streams_state) \<longleftrightarrow> J P (sh_state c) \<and> (\<forall>i. keeps J (sh_procs c i)) \<and> (\<forall>i \<in> safe. never_panics J (sh_procs c i))"

lemma inv_quiet: "J P s \<Longrightarrow> procs_inv P (quiet s)"
  by (simp add: procs_inv_def quiet_def)

lemma inv_advance: "advance c ls c' \<Longrightarrow> procs_inv P c \<Longrightarrow> procs_inv (P \<union> ls) c'"
proof (induction rule: advance.induct)
  case (lock c i r p)
  then have "keeps J p" "i \<in> safe \<Longrightarrow> never_panics J p" unfolding procs_inv_def by (metis keeps_simps(2), metis never_panics_simps(2))
  then show ?case using lock by (simp add: procs_inv_def)
next
  case (unlock c i r p)
  then have "keeps J p" "i \<in> safe \<Longrightarrow> never_panics J p" unfolding procs_inv_def by (metis keeps_simps(3), metis never_panics_simps(3))
  then show ?case using unlock by (simp add: procs_inv_def)
next
  case (action c i f ls s' p)
  then have k: "keeps J (Act f)" "i \<in> safe \<Longrightarrow> never_panics J (Act f)" "J P (sh_state c)" unfolding procs_inv_def by metis+
  have "J (P \<union> ls) s'" "keeps J p" using k(1,3) action(2) by (auto elim!: keeps_ActE)
  moreover have "i \<in> safe \<Longrightarrow> never_panics J p" using k(2,3) action(2) by (auto elim!: never_panics_ActE)
  ultimately show ?case using action by (simp add: procs_inv_def)
qed

lemma inv_run: "streams_run elements c P' c' \<Longrightarrow> procs_inv P c \<Longrightarrow> procs_inv (P \<union> P') c'"
proof (induction rule: streams_run.induct)
  case (more c P' c' ls c'')
  then have inv: "procs_inv (P \<union> P') c'" by simp
  from more(2) show ?case
  proof cases
    case (begins i p)
    then show ?thesis using inv elements_keep elements_safe by (simp add: procs_inv_def)
  next
    case goes_on
    then show ?thesis using inv_advance [OF _ inv] by (simp add: Un_assoc)
  qed
qed simp

lemma safe_goes_on:
  assumes "procs_inv P c" "i \<in> safe" "sh_procs c i = Act f"
  shows "f (sh_state c) \<noteq> None"
proof -
  have "never_panics J (Act f)" "J P (sh_state c)" using assms unfolding procs_inv_def by (metis, simp)
  then show ?thesis by (cases rule: never_panics.cases) blast+
qed

end

end
