(* ===== verification/LM_Streams.thy ===== *)
theory LM_Streams
  imports LM_Node Concurrency
begin

text \<open>
  The seven streams of the node as processes over the shared state and its locks: every \<open>lock().await\<close> of the handlers, of the
  executor (\<open>executor.rs\<close>), of the scheduler (\<open>scheduler/process.rs\<close>) and of the update streams is an acquisition, the end of the scope of the
  guard the release, and what is done in between one action.  A stream may be overtaken by the others wherever it takes a lock,
  so in the middle of an attempt of the executor pools and bundles may move and the popped order may be eliminated.

  Results: a process run on its own is the step of \<open>LM_Node\<close>; the books of the node are kept however the
  processes are interleaved; the locks are always taken in one order, so the node never deadlocks.
\<close>

section \<open>Locks\<close>

datatype node_lock = Handlers_lock | Default_lock | Backlog_lock | Pools_lock | Bundles_lock | Funding_lock | Programs_lock | Schedules_lock

text \<open>
  Two locks are held together in four places: the event stream holds its handlers all along, the schedule handler
  takes the schedules under the pools, the scheduler takes the schedules under the backlog, and the default handler is called under the handlers.
\<close>

fun lock_rank :: "node_lock \<Rightarrow> nat" where
  "lock_rank Handlers_lock = 0"
| "lock_rank Schedules_lock = 2"
| "lock_rank _ = 1"

type_synonym ('b, 'p, 'r, 'f, 's, 'g) node_proc = "(node_lock, ('b, 'p, 'r, 'f, 's, 'g) node_state, order) proc"

text \<open>Operations of the executor, as operations of the node.\<close>

definition on_exec :: "(('b, 'p, 'r, 'f) executor_state \<Rightarrow> ('v \<times> ('b, 'p, 'r, 'f) executor_state) option)
    \<Rightarrow> ('b, 'p, 'r, 'f, 's, 'g) node_state \<Rightarrow> ('v \<times> ('b, 'p, 'r, 'f, 's, 'g) node_state) option" where
  "on_exec f st = map_option (\<lambda>(v, x). (v, st \<lparr> ns_executor := x \<rparr>)) (f (ns_executor st))"

definition read_exec :: "(('b, 'p, 'r, 'f) executor_state \<Rightarrow> 'v option)
    \<Rightarrow> ('b, 'p, 'r, 'f, 's, 'g) node_state \<Rightarrow> ('v \<times> ('b, 'p, 'r, 'f, 's, 'g) node_state) option" where
  "read_exec f st = map_option (\<lambda>v. (v, st)) (f (ns_executor st))"

definition exec_op :: "node_lock \<Rightarrow> (('b, 'p, 'r, 'f) executor_state \<Rightarrow> ('b, 'p, 'r, 'f) executor_state option)
    \<Rightarrow> ('b, 'p, 'r, 'f, 's, 'g) node_proc \<Rightarrow> ('b, 'p, 'r, 'f, 's, 'g) node_proc" where
  "exec_op l f p = locked l (on_exec (\<lambda>x. map_option (Pair ()) (f x))) (\<lambda>_. p)"

section \<open>The executor (executor.rs)\<close>

definition resolve_pool_proc :: "('b, 'p, 'r, 'f) executor_env \<Rightarrow> pool_id \<Rightarrow> (pool as_box option \<Rightarrow> ('b, 'p, 'r, 'f, 's, 'g) node_proc)
    \<Rightarrow> ('b, 'p, 'r, 'f, 's, 'g) node_proc" where
  "resolve_pool_proc X i k =
     locked Pools_lock (read_exec (\<lambda>x. Some (get_last_confirmed (xe_pools X) (xs_pools x) i, get_last_unconfirmed (xe_pools X) (xs_pools x) i,
         get_last_predicted (xe_pools X) (xs_pools x) i)))
       (\<lambda>states. (case states of
          (Some (Confirmed cnf), unconf, Some (Predicted pred)) \<Rightarrow>
            let anchoring_point = (case unconf of Some (Unconfirmed e) \<Rightarrow> e | None \<Rightarrow> cnf);
                anchoring_sid = env_state_ref (xe_pools X) anchoring_point;
                predicted_sid = env_state_ref (xe_pools X) pred
            in (if predicted_sid = anchoring_sid then k (Some pred)
                else locked Pools_lock (read_exec (\<lambda>x. is_linking (xe_pools X) (xs_pools x) predicted_sid anchoring_sid))
                       (\<lambda>valid. k (Some (if valid then pred else anchoring_point))))
        | (_, Some (Unconfirmed unconf), None) \<Rightarrow> k (Some unconf)
        | (Some (Confirmed cnf), _, _) \<Rightarrow> k (Some cnf)
        | _ \<Rightarrow> k None))"

definition resolve_bundle_proc :: "('b, 'p, 'r, 'f) executor_env \<Rightarrow> bundle_id \<Rightarrow> (staking_bundle as_box option \<Rightarrow> ('b, 'p, 'r, 'f, 's, 'g) node_proc)
    \<Rightarrow> ('b, 'p, 'r, 'f, 's, 'g) node_proc" where
  "resolve_bundle_proc X i k =
     locked Bundles_lock (read_exec (\<lambda>x. Some (bro_get_last_confirmed (xe_bundles X) (xs_bundles x) i, bro_get_last_predicted (xe_bundles X) (xs_bundles x) i)))
       (\<lambda>states. (case states of
          (Some (Confirmed cnf), Some (Predicted pred)) \<Rightarrow>
            let anchoring_sid = bundle_self_state_ref (as_val cnf); predicted_sid = bundle_self_state_ref (as_val pred)
            in (if predicted_sid = anchoring_sid then k (Some pred)
                else locked Bundles_lock (read_exec (\<lambda>x. bundle_is_linking (xe_bundles X) (xs_bundles x) predicted_sid anchoring_sid))
                       (\<lambda>valid. k (Some (if valid then pred else cnf))))
        | (Some (Confirmed cnf), None) \<Rightarrow> k (Some cnf)
        | (None, Some _) \<Rightarrow> k None
        | (None, None) \<Rightarrow> k None))"

fun resolve_bundles_proc :: "('b, 'p, 'r, 'f) executor_env \<Rightarrow> bundle_id list \<Rightarrow> (staking_bundle as_box list \<Rightarrow> ('b, 'p, 'r, 'f, 's, 'g) node_proc)
    \<Rightarrow> ('b, 'p, 'r, 'f, 's, 'g) node_proc" where
  "resolve_bundles_proc X [] k = k []"
| "resolve_bundles_proc X (i # is) k =
     resolve_bundle_proc X i (\<lambda>b. resolve_bundles_proc X is (\<lambda>bs. k (case b of Some x \<Rightarrow> x # bs | None \<Rightarrow> bs)))"

text \<open>Only a compound with bundles takes a lock to run, that of the funding; the context cache belongs to the executor alone.\<close>

definition make_context_proc :: "('b, 'p, 'r, 'f) executor_env \<Rightarrow> executor_readings \<Rightarrow> pool as_box \<Rightarrow> (execution_context \<Rightarrow> ('b, 'p, 'r, 'f, 's, 'g) node_proc)
    \<Rightarrow> ('b, 'p, 'r, 'f, 's, 'g) node_proc" where
  "make_context_proc X rd pool k =
     act (on_exec (\<lambda>x. let (ctx, cache) = make_context (xe_executor_prop X) rd (xs_context_cache x) (box_id (as_bx pool))
                      in Some (ctx, x \<lparr> xs_context_cache := cache \<rparr>))) k"

definition run_order_proc :: "('b, 'p, 'r, 'f) executor_env \<Rightarrow> executor_readings \<Rightarrow> order \<Rightarrow> pool as_box \<Rightarrow> staking_bundle as_box list \<Rightarrow> execution_context
    \<Rightarrow> ((order run_order_error + run_ok) option \<Rightarrow> ('b, 'p, 'r, 'f, 's, 'g) node_proc) \<Rightarrow> ('b, 'p, 'r, 'f, 's, 'g) node_proc" where
  "run_order_proc X rd ord pool bundles ctx k =
     (let run = on_exec (\<lambda>x. map_option (\<lambda>(r, f). (r, x \<lparr> xs_funding := f \<rparr>)) (run_order X rd ord pool bundles ctx (xs_funding x)))
      in (case ord of
            OrdCompound _ \<Rightarrow> if bundles \<noteq> [] then locked Funding_lock run k else act run k
          | _ \<Rightarrow> act run k))"

fun remove_fundings_proc :: "('b, 'p, 'r, 'f) executor_env \<Rightarrow> transaction \<Rightarrow> nat list \<Rightarrow> ('b, 'p, 'r, 'f, 's, 'g) node_proc \<Rightarrow> ('b, 'p, 'r, 'f, 's, 'g) node_proc" where
  "remove_fundings_proc X tx [] p = p"
| "remove_fundings_proc X tx (i # is) p =
     exec_op Funding_lock (\<lambda>x. map_option (\<lambda>inp. x \<lparr> xs_funding := fro_remove (xe_funding X) (xs_funding x) (in_box inp) \<rparr>) (nth_opt (tx_inputs tx) i))
       (remove_fundings_proc X tx is p)"

fun invalidate_bundles_proc :: "('b, 'p, 'r, 'f) executor_env \<Rightarrow> transaction \<Rightarrow> nat list \<Rightarrow> ('b, 'p, 'r, 'f, 's, 'g) node_proc \<Rightarrow> ('b, 'p, 'r, 'f, 's, 'g) node_proc" where
  "invalidate_bundles_proc X tx [] p = p"
| "invalidate_bundles_proc X tx (i # is) p =
     exec_op Bundles_lock (\<lambda>x. map_option (\<lambda>inp. x \<lparr> xs_bundles := bro_invalidate (xe_bundles X) (xs_bundles x) (in_box inp) \<rparr>) (nth_opt (tx_inputs tx) i))
       (invalidate_bundles_proc X tx is p)"

fun invalidation_proc :: "('b, 'p, 'r, 'f) executor_env \<Rightarrow> transaction \<Rightarrow> order \<Rightarrow> pool as_box \<Rightarrow> invalidation
    \<Rightarrow> ('b, 'p, 'r, 'f, 's, 'g) node_proc \<Rightarrow> ('b, 'p, 'r, 'f, 's, 'g) node_proc" where
  "invalidation_proc X tx ord pool InvPool p =
     exec_op Pools_lock (\<lambda>x. Some (invalidate_pool X pool x)) (exec_op Backlog_lock (suspend_order X ord) p)"
| "invalidation_proc X tx ord pool (InvFunding ixs) p = remove_fundings_proc X tx ixs (exec_op Backlog_lock (suspend_order X ord) p)"
| "invalidation_proc X tx ord pool InvOrder p = exec_op Backlog_lock (\<lambda>x. Some (remove_order X ord x)) p"
| "invalidation_proc X tx ord pool (InvStakingBundles ixs) p = invalidate_bundles_proc X tx ixs p"

fun check_fundings_proc :: "('b, 'p, 'r, 'f) executor_env \<Rightarrow> executor_readings \<Rightarrow> box_id list \<Rightarrow> ('b, 'p, 'r, 'f, 's, 'g) node_proc \<Rightarrow> ('b, 'p, 'r, 'f, 's, 'g) node_proc" where
  "check_fundings_proc X rd [] p = p"
| "check_fundings_proc X rd (i # is) p =
     (if \<not> net_box_in_utxo (er_network rd) i
      then exec_op Funding_lock (\<lambda>x. Some (x \<lparr> xs_funding := fro_remove (xe_funding X) (xs_funding x) i \<rparr>)) (check_fundings_proc X rd is p)
      else check_fundings_proc X rd is p)"

definition check_utxo_proc :: "('b, 'p, 'r, 'f) executor_env \<Rightarrow> executor_readings \<Rightarrow> pool as_box \<Rightarrow> box_id order_type
    \<Rightarrow> ('b, 'p, 'r, 'f, 's, 'g) node_proc \<Rightarrow> ('b, 'p, 'r, 'f, 's, 'g) node_proc" where
  "check_utxo_proc X rd pool order_type p =
     (let rest = (case order_type of OCompound ids \<Rightarrow> check_fundings_proc X rd ids p | _ \<Rightarrow> p)
      in if \<not> net_box_in_utxo (er_network rd) (box_id (as_bx pool)) then exec_op Pools_lock (\<lambda>x. Some (invalidate_pool X pool x)) rest else rest)"

definition submission_failed_proc :: "('b, 'p, 'r, 'f) executor_env \<Rightarrow> executor_readings \<Rightarrow> transaction \<Rightarrow> order \<Rightarrow> pool as_box \<Rightarrow> box_id order_type \<Rightarrow> string
    \<Rightarrow> ('b, 'p, 'r, 'f, 's, 'g) node_proc" where
  "submission_failed_proc X rd tx ord pool order_type client_err =
     act (\<lambda>s. map_option (\<lambda>err. (err, s)) (parse_err client_err)) (\<lambda>err. (case err of
         MissingInputs missing_indices \<Rightarrow>
           foldr (invalidation_proc X tx ord pool) (generate_invalidations order_type missing_indices) Done
       | DoubleSpend \<Rightarrow> exec_op Backlog_lock (suspend_order X ord) Done
       | ScriptsOfInputsDontPassVerification \<Rightarrow> check_utxo_proc X rd pool order_type Done
       | Unhandled \<Rightarrow> Done))"

fun predict_bundles_proc :: "('b, 'p, 'r, 'f) executor_env \<Rightarrow> program_config \<Rightarrow> staking_bundle as_box predicted list \<Rightarrow> staking_bundle as_box list
    \<Rightarrow> ('b, 'p, 'r, 'f, 's, 'g) node_proc" where
  "predict_bundles_proc X cfg [] prevs = Done"
| "predict_bundles_proc X cfg (Predicted next # nexts) prevs =
     exec_op Bundles_lock (\<lambda>x. map_option (\<lambda>ib. x \<lparr> xs_bundles := bro_put_predicted (xe_bundles X) (xs_bundles x)
            \<lparr> tr_state = Predicted (AsBox (as_bx next) ib),
              tr_prev_state_id = (case prevs of prev # _ \<Rightarrow> Some (bundle_self_state_ref (as_val prev)) | [] \<Rightarrow> None) \<rparr> \<rparr>)
          (indexed_bundle_new (as_val next) cfg))
       (predict_bundles_proc X cfg nexts (tl prevs))"

definition submission_accepted_proc :: "('b, 'p, 'r, 'f) executor_env \<Rightarrow> executor_readings \<Rightarrow> order \<Rightarrow> pool as_box \<Rightarrow> staking_bundle as_box list \<Rightarrow> run_ok
    \<Rightarrow> ('b, 'p, 'r, 'f, 's, 'g) node_proc" where
  "submission_accepted_proc X rd ord pool bundles ok = (case ok of (_, next_pool, next_bundles, residual_funding, _) \<Rightarrow>
     let rest = predict_bundles_proc X (conf (as_val pool)) next_bundles bundles
     in exec_op Backlog_lock (\<lambda>x. Some (x \<lparr> xs_backlog := snd (blo_check_later (xe_backlog X) (xs_backlog x) \<lparr> pr_order = ord, pr_timestamp = er_ts_later rd \<rparr>) \<rparr>))
       (exec_op Pools_lock (\<lambda>x. Some (x \<lparr> xs_pools := put_predicted (xe_pools X) (xs_pools x)
            \<lparr> tr_state = next_pool, tr_prev_state_id = Some (env_state_ref (xe_pools X) pool) \<rparr> \<rparr>))
         (case residual_funding of
            Some f \<Rightarrow> exec_op Funding_lock (\<lambda>x. Some (x \<lparr> xs_funding := fro_put_predicted (xe_funding X) (xs_funding x) f \<rparr>)) rest
          | None \<Rightarrow> rest)))"

definition handle_run_result_proc :: "('b, 'p, 'r, 'f) executor_env \<Rightarrow> executor_readings \<Rightarrow> order \<Rightarrow> pool as_box \<Rightarrow> staking_bundle as_box list
    \<Rightarrow> order run_order_error + run_ok \<Rightarrow> ('b, 'p, 'r, 'f, 's, 'g) node_proc" where
  "handle_run_result_proc X rd ord pool bundles res = (case res of
      Inr (tx, next_pool, next_bundles, residual_funding, order_type) \<Rightarrow>
        (case er_sign rd tx of
           Inr tx' \<Rightarrow> (case net_submit_tx (er_network rd) tx' of
               Inl client_err \<Rightarrow> submission_failed_proc X rd tx' ord pool order_type client_err
             | Inr _ \<Rightarrow> submission_accepted_proc X rd ord pool bundles (tx, next_pool, next_bundles, residual_funding, order_type))
         | Inl signing_err \<Rightarrow> Done)
    | Inl (NonFatal err ord') \<Rightarrow> exec_op Backlog_lock (suspend_order X ord') Done
    | Inl (Fatal err ord') \<Rightarrow> exec_op Backlog_lock (\<lambda>x. Some (remove_order X ord' x)) Done)"

definition attempt_proc :: "('b, 'p, 'r, 'f) executor_env \<Rightarrow> executor_readings \<Rightarrow> order \<Rightarrow> ('b, 'p, 'r, 'f, 's, 'g) node_proc" where
  "attempt_proc X rd ord =
     resolve_pool_proc X (order_entity_ref ord) (\<lambda>entity. (case entity of
         Some pool \<Rightarrow>
           resolve_bundles_proc X (order_bundles ord) (\<lambda>bundles.
           make_context_proc X rd pool (\<lambda>ctx.
           run_order_proc X rd ord pool bundles ctx (\<lambda>run_result. (case run_result of
               None \<Rightarrow> Done
             | Some res \<Rightarrow> handle_run_result_proc X rd ord pool bundles res))))
       | None \<Rightarrow> exec_op Backlog_lock (no_pool X rd ord) Done))"

text \<open>The action that pops an order is the one the outside sees.\<close>

definition executor_proc :: "('b, 'p, 'r, 'f, 's, 'g) node_env \<Rightarrow> executor_readings \<Rightarrow> ('b, 'p, 'r, 'f, 's, 'g) node_proc" where
  "executor_proc N rd =
     (let X = ne_executor N
      in act (\<lambda>st. Some (ns_tip_reached st, st)) (\<lambda>tip_reached.
        if tip_reached
        then Acquire Backlog_lock (Act (\<lambda>st.
            map_option (\<lambda>(next_ord, backlog). (set_option next_ord, st \<lparr> ns_executor := (ns_executor st) \<lparr> xs_backlog := backlog \<rparr> \<rparr>,
                Release Backlog_lock (case next_ord of Some ord \<Rightarrow> attempt_proc X rd ord | None \<Rightarrow> Done)))
              (blo_try_pop (xe_backlog X) (er_now rd) (er_rng rd) (er_now' rd) (xs_backlog (ns_executor st)))))
        else Done))"

section \<open>An attempt that is not interrupted\<close>

lemma run_exec_op [simp]:
  "run_proc (exec_op l f p) st = (case f (ns_executor st) of Some x \<Rightarrow> run_proc p (st \<lparr> ns_executor := x \<rparr>) | None \<Rightarrow> None)"
  by (simp add: exec_op_def on_exec_def split: option.split)

lemma run_resolve_pool:
  "run_proc (resolve_pool_proc X i k) st = Option.bind (resolve_entity_state (xe_pools X) (xs_pools (ns_executor st)) i) (\<lambda>e. run_proc (k e) st)"
  by (simp add: resolve_pool_proc_def resolve_entity_state_def read_exec_def Let_def split: option.split confirmed.split unconfirmed.split predicted.split)

lemma run_resolve_bundle:
  "run_proc (resolve_bundle_proc X i k) st = Option.bind (resolve_bundle_state (xe_bundles X) (xs_bundles (ns_executor st)) i) (\<lambda>e. run_proc (k e) st)"
  by (simp add: resolve_bundle_proc_def resolve_bundle_state_def read_exec_def Let_def split: option.split confirmed.split predicted.split)

lemma run_resolve_bundles:
  "run_proc (resolve_bundles_proc X is k) st = Option.bind (resolve_bundles (xe_bundles X) (xs_bundles (ns_executor st)) is) (\<lambda>bs. run_proc (k bs) st)"
  by (induction "is" arbitrary: k) (simp_all add: run_resolve_bundle split: bind_split)

lemma run_make_context:
  "run_proc (make_context_proc X rd pool k) st =
     (let (ctx, cache) = make_context (xe_executor_prop X) rd (xs_context_cache (ns_executor st)) (box_id (as_bx pool))
      in run_proc (k ctx) (st \<lparr> ns_executor := (ns_executor st) \<lparr> xs_context_cache := cache \<rparr> \<rparr>))"
  by (simp add: make_context_proc_def on_exec_def Let_def split: prod.split)

lemma run_run_order:
  "run_proc (run_order_proc X rd ord pool bundles ctx k) st = (case run_order X rd ord pool bundles ctx (xs_funding (ns_executor st)) of
      Some (r, f) \<Rightarrow> run_proc (k r) (st \<lparr> ns_executor := (ns_executor st) \<lparr> xs_funding := f \<rparr> \<rparr>)
    | None \<Rightarrow> None)"
  by (simp add: run_order_proc_def on_exec_def Let_def split: order.split option.split prod.split)

text \<open>What a process of the executor does when it runs alone, given what the operation does.\<close>

definition runs_as :: "('b, 'p, 'r, 'f, 's, 'g) node_proc \<Rightarrow> ('b, 'p, 'r, 'f, 's, 'g) node_proc
    \<Rightarrow> (('b, 'p, 'r, 'f) executor_state \<Rightarrow> ('b, 'p, 'r, 'f) executor_state option) \<Rightarrow> bool" where
  "runs_as q p f \<longleftrightarrow> (\<forall>st. run_proc q st = (case f (ns_executor st) of Some x \<Rightarrow> run_proc p (st \<lparr> ns_executor := x \<rparr>) | None \<Rightarrow> None))"

lemma runs_as_op: "runs_as (exec_op l f p) p f"
  by (simp add: runs_as_def)

lemma runs_as_done: "runs_as p p Some"
  by (simp add: runs_as_def)

lemma runs_as_trans: "runs_as q p f \<Longrightarrow> runs_as p r g \<Longrightarrow> runs_as q r (\<lambda>x. Option.bind (f x) g)"
  unfolding runs_as_def by (simp split: option.split bind_split)

lemma runs_as_eq: "runs_as q p f \<Longrightarrow> (\<And>x. f x = g x) \<Longrightarrow> runs_as q p g"
  unfolding runs_as_def by simp

lemma run_remove_fundings:
  "runs_as (remove_fundings_proc X tx ixs p) p (\<lambda>x. do {
     ids \<leftarrow> those (map (\<lambda>i. map_option in_box (nth_opt (tx_inputs tx) i)) ixs);
     Some (x \<lparr> xs_funding := fold (\<lambda>i f. fro_remove (xe_funding X) f i) ids (xs_funding x) \<rparr>) })"
proof (induction ixs)
  case Nil
  show ?case unfolding remove_fundings_proc.simps by (rule runs_as_eq [OF runs_as_done]) simp
next
  case (Cons i ixs)
  show ?case unfolding remove_fundings_proc.simps
    by (rule runs_as_eq [OF runs_as_trans [OF runs_as_op Cons.IH]]) (simp split: option.split bind_split)
qed

lemma run_invalidate_bundles:
  "runs_as (invalidate_bundles_proc X tx ixs p) p (\<lambda>x. do {
     ids \<leftarrow> those (map (\<lambda>i. map_option in_box (nth_opt (tx_inputs tx) i)) ixs);
     Some (x \<lparr> xs_bundles := fold (\<lambda>i r. bro_invalidate (xe_bundles X) r i) ids (xs_bundles x) \<rparr>) })"
proof (induction ixs)
  case Nil
  show ?case unfolding invalidate_bundles_proc.simps by (rule runs_as_eq [OF runs_as_done]) simp
next
  case (Cons i ixs)
  show ?case unfolding invalidate_bundles_proc.simps
    by (rule runs_as_eq [OF runs_as_trans [OF runs_as_op Cons.IH]]) (simp split: option.split bind_split)
qed

lemma run_invalidation: "runs_as (invalidation_proc X tx ord pool iv p) p (apply_invalidation X tx ord pool iv)"
proof (cases iv)
  case InvPool
  show ?thesis unfolding InvPool invalidation_proc.simps by (rule runs_as_eq [OF runs_as_trans [OF runs_as_op runs_as_op]]) simp
next
  case (InvFunding ixs)
  show ?thesis unfolding InvFunding invalidation_proc.simps by (rule runs_as_eq [OF runs_as_trans [OF run_remove_fundings runs_as_op]]) simp
next
  case InvOrder
  show ?thesis unfolding InvOrder invalidation_proc.simps by (rule runs_as_eq [OF runs_as_op]) simp
next
  case (InvStakingBundles ixs)
  show ?thesis unfolding InvStakingBundles invalidation_proc.simps by (rule runs_as_eq [OF run_invalidate_bundles]) simp
qed

lemma run_invalidations: "runs_as (foldr (invalidation_proc X tx ord pool) ivs p) p (apply_invalidations X tx ord pool ivs)"
proof (induction ivs)
  case (Cons iv ivs)
  show ?case unfolding foldr_Cons o_apply by (rule runs_as_eq [OF runs_as_trans [OF run_invalidation Cons.IH]]) simp
qed (simp add: runs_as_def)

lemma run_check_fundings:
  "runs_as (check_fundings_proc X rd ids p) p (\<lambda>x. Some (x \<lparr> xs_funding :=
     fold (\<lambda>i f. if \<not> net_box_in_utxo (er_network rd) i then fro_remove (xe_funding X) f i else f) ids (xs_funding x) \<rparr>))"
proof (induction ids)
  case (Cons i ids)
  show ?case
  proof (cases "net_box_in_utxo (er_network rd) i")
    case False
    then have e: "check_fundings_proc X rd (i # ids) p =
        exec_op Funding_lock (\<lambda>x. Some (x \<lparr> xs_funding := fro_remove (xe_funding X) (xs_funding x) i \<rparr>)) (check_fundings_proc X rd ids p)" by simp
    show ?thesis unfolding e by (rule runs_as_eq [OF runs_as_trans [OF runs_as_op Cons.IH]]) (simp add: False)
  qed (use Cons.IH in simp)
qed (simp add: runs_as_def)

lemma run_check_utxo: "runs_as (check_utxo_proc X rd pool ot p) p (\<lambda>x. Some (check_utxo X rd pool ot x))"
proof -
  let ?rest = "case ot of OCompound ids \<Rightarrow> check_fundings_proc X rd ids p | _ \<Rightarrow> p"
  let ?f = "\<lambda>x. Some (case ot of OCompound ids \<Rightarrow> x \<lparr> xs_funding :=
     fold (\<lambda>i f. if \<not> net_box_in_utxo (er_network rd) i then fro_remove (xe_funding X) f i else f) ids (xs_funding x) \<rparr> | _ \<Rightarrow> x)"
  have rest: "runs_as ?rest p ?f" by (cases ot) (simp_all add: run_check_fundings runs_as_done)
  show ?thesis
  proof (cases "net_box_in_utxo (er_network rd) (box_id (as_bx pool))")
    case True
    then have "check_utxo_proc X rd pool ot p = ?rest" by (simp add: check_utxo_proc_def Let_def)
    then show ?thesis using rest by (auto intro: runs_as_eq simp: True check_utxo_def Let_def split: order_type.split)
  next
    case False
    then have e: "check_utxo_proc X rd pool ot p = exec_op Pools_lock (\<lambda>x. Some (invalidate_pool X pool x)) ?rest" by (simp add: check_utxo_proc_def Let_def)
    show ?thesis unfolding e by (rule runs_as_eq [OF runs_as_trans [OF runs_as_op rest]]) (simp add: False check_utxo_def Let_def split: order_type.split)
  qed
qed

lemma run_predict_bundles:
  "runs_as (predict_bundles_proc X cfg nexts prevs) Done (\<lambda>x. map_option (\<lambda>r. x \<lparr> xs_bundles := r \<rparr>) (predict_bundles (xe_bundles X) cfg nexts prevs (xs_bundles x)))"
proof (induction nexts arbitrary: prevs)
  case (Cons n nexts)
  obtain nx where n: "n = Predicted nx" by (cases n)
  show ?case unfolding n predict_bundles_proc.simps
    by (rule runs_as_eq [OF runs_as_trans [OF runs_as_op Cons.IH]]) (simp split: option.split bind_split)
qed (simp add: runs_as_def)

lemma run_accepted: "runs_as (submission_accepted_proc X rd ord pool bundles ok) Done (submission_accepted X rd ord pool bundles ok)"
proof -
  obtain tx np nb rf ot where ok: "ok = (tx, np, nb, rf, ot)" by (cases ok)
  show ?thesis
    by (cases rf) (simp_all add: ok submission_accepted_proc_def submission_accepted_def Let_def runs_as_eq [OF runs_as_trans [OF runs_as_op runs_as_trans [OF runs_as_op run_predict_bundles]]]
      runs_as_eq [OF runs_as_trans [OF runs_as_op runs_as_trans [OF runs_as_op runs_as_trans [OF runs_as_op run_predict_bundles]]]])
qed

lemma runs_as_act: "runs_as (act (\<lambda>s. map_option (\<lambda>v. (v, s)) r) k) p (\<lambda>x. Option.bind r (\<lambda>v. f v x)) \<longleftrightarrow> (\<forall>v. r = Some v \<longrightarrow> runs_as (k v) p (f v))"
  by (cases r) (simp_all add: runs_as_def)

lemma run_failed: "runs_as (submission_failed_proc X rd tx ord pool ot err) Done (submission_failed X rd tx ord pool ot err)"
  unfolding submission_failed_proc_def submission_failed_def runs_as_act
  by (simp add: run_invalidations run_check_utxo runs_as_op runs_as_done split: node_submit_tx_error.split)

lemma run_handle_result: "runs_as (handle_run_result_proc X rd ord pool bundles res) Done (handle_run_result X rd ord pool bundles res)"
  unfolding handle_run_result_proc_def handle_run_result_def
  by (auto simp: runs_as_op runs_as_done run_failed run_accepted split: sum.split prod.split run_order_error.split)

lemma run_result:
  "run_proc (handle_run_result_proc X rd ord pool bundles res) st =
     map_option (\<lambda>x. ({}, st \<lparr> ns_executor := x \<rparr>)) (handle_run_result X rd ord pool bundles res (ns_executor st))"
  using run_handle_result [of X rd ord pool bundles res, unfolded runs_as_def, rule_format, of st] by (simp split: option.split)

lemma run_attempt:
  "run_proc (attempt_proc X rd ord) st = do {
     entity \<leftarrow> resolve_entity_state (xe_pools X) (xs_pools (ns_executor st)) (order_entity_ref ord);
     (case entity of
        Some pool \<Rightarrow> do {
          bundles \<leftarrow> resolve_bundles (xe_bundles X) (xs_bundles (ns_executor st)) (order_bundles ord);
          let (ctx, cache) = make_context (xe_executor_prop X) rd (xs_context_cache (ns_executor st)) (box_id (as_bx pool));
          (r, f) \<leftarrow> run_order X rd ord pool bundles ctx (xs_funding (ns_executor st));
          let x = (ns_executor st) \<lparr> xs_context_cache := cache, xs_funding := f \<rparr>;
          map_option (\<lambda>x. ({}, st \<lparr> ns_executor := x \<rparr>)) (case r of None \<Rightarrow> Some x | Some res \<Rightarrow> handle_run_result X rd ord pool bundles res x) }
      | None \<Rightarrow> map_option (\<lambda>x. ({}, st \<lparr> ns_executor := x \<rparr>)) (no_pool X rd ord (ns_executor st))) }"
  unfolding attempt_proc_def run_resolve_pool
  by (auto simp: run_resolve_bundles run_make_context run_run_order run_result Let_def split: option.split prod.split bind_split)

lemma run_executor:
  "run_proc (executor_proc N rd) st = map_option (\<lambda>st'. (set_option (acquired N rd st), st')) (executor_step N rd st)"
  by (auto simp: executor_proc_def executor_step_def executor_stream_step_def acquired_def try_execute_next_def run_attempt run_Act Let_def
      split: option.split prod.split bind_split)

section \<open>The update streams\<close>

definition pool_proc :: "('b, 'p, 'r, 'f, 's, 'g) node_env \<Rightarrow> ('b, 'p, 'r, 'f, 's, 'g) node_proc" where
  "pool_proc N =
     act (\<lambda>st. case ns_pool_topic st of u # us \<Rightarrow> Some (Some u, st \<lparr> ns_pool_topic := us \<rparr>) | [] \<Rightarrow> Some (None, st))
       (\<lambda>next. (case next of
          Some upd \<Rightarrow> exec_op Pools_lock (\<lambda>x. Some (x \<lparr> xs_pools := entity_tracking_step (xe_pools (ne_executor N)) (xs_pools x) upd \<rparr>)) Done
        | None \<Rightarrow> Done))"

definition bundle_proc :: "('b, 'p, 'r, 'f, 's, 'g) node_env \<Rightarrow> ('b, 'p, 'r, 'f, 's, 'g) node_proc" where
  "bundle_proc N =
     act (\<lambda>st. case ns_bundle_topic st of u # us \<Rightarrow> Some (Some u, st \<lparr> ns_bundle_topic := us \<rparr>) | [] \<Rightarrow> Some (None, st))
       (\<lambda>next. (case next of
          Some upd \<Rightarrow> exec_op Bundles_lock (\<lambda>x. Some (x \<lparr> xs_bundles := bundle_update_step (xe_bundles (ne_executor N)) (xs_bundles x) upd \<rparr>)) Done
        | None \<Rightarrow> Done))"

definition funding_proc :: "('b, 'p, 'r, 'f, 's, 'g) node_env \<Rightarrow> ('b, 'p, 'r, 'f, 's, 'g) node_proc" where
  "funding_proc N =
     act (\<lambda>st. case ns_funding_topic st of u # us \<Rightarrow> Some (Some u, st \<lparr> ns_funding_topic := us \<rparr>) | [] \<Rightarrow> Some (None, st))
       (\<lambda>next. (case next of
          Some upd \<Rightarrow> exec_op Funding_lock (\<lambda>x. Some (x \<lparr> xs_funding := funding_update_step (xe_funding (ne_executor N)) (xs_funding x) upd \<rparr>)) Done
        | None \<Rightarrow> Done))"

text \<open>The conversion of a parsed order takes the bundles for a redeem only, and releases them before the backlog is taken.\<close>

fun asks_bundle :: "(order_proto, order_id) order_update \<Rightarrow> bool" where
  "asks_bundle (NewOrder pending_order) = (case po_order pending_order of ProtoRedeem _ \<Rightarrow> True | _ \<Rightarrow> False)"
| "asks_bundle (OrderEliminated _) = False"

definition order_proc :: "('b, 'p, 'r, 'f, 's, 'g) node_env \<Rightarrow> ('b, 'p, 'r, 'f, 's, 'g) node_proc" where
  "order_proc N =
     act (\<lambda>st. case ns_order_topic st of u # us \<Rightarrow> Some (Some u, st \<lparr> ns_order_topic := us \<rparr>) | [] \<Rightarrow> Some (None, st))
       (\<lambda>next. (case next of
          Some upd \<Rightarrow>
            let convert = read_exec (\<lambda>x. Some (convert_order_proto (xe_bundles (ne_executor N)) (xs_bundles x) upd));
                apply_upd = (\<lambda>converted. (case converted of
                  Some upd \<Rightarrow> exec_op Backlog_lock (\<lambda>x. Some (x \<lparr> xs_backlog := apply_order_update (xe_backlog (ne_executor N)) upd (xs_backlog x) \<rparr>)) Done
                | None \<Rightarrow> Done))
            in if asks_bundle upd then locked Bundles_lock convert apply_upd else act convert apply_upd
        | None \<Rightarrow> Done))"

lemma run_pool: "run_proc (pool_proc N) st = Some ({}, pool_update_step N st)"
  by (simp add: pool_proc_def pool_update_step_def split: list.split)

lemma run_bundle: "run_proc (bundle_proc N) st = Some ({}, bundle_stream_step N st)"
  by (simp add: bundle_proc_def bundle_stream_step_def split: list.split)

lemma run_funding: "run_proc (funding_proc N) st = Some ({}, funding_stream_step N st)"
  by (simp add: funding_proc_def funding_stream_step_def split: list.split)

lemma run_order_stream: "run_proc (order_proc N) st = Some ({}, order_stream_step N st)"
  by (simp add: order_proc_def order_stream_step_def read_exec_def Let_def split: list.split option.split)

section \<open>The scheduler (scheduler/process.rs)\<close>

definition on_schedules :: "('s \<Rightarrow> 's) \<Rightarrow> ('b, 'p, 'r, 'f, 's, 'g) node_state \<Rightarrow> (unit \<times> ('b, 'p, 'r, 'f, 's, 'g) node_state) option" where
  "on_schedules f st = Some ((), st \<lparr> ns_schedules := f (ns_schedules st) \<rparr>)"

definition close_epoch_proc :: "('b, 'p, 'r, 'f, 's, 'g) node_env \<Rightarrow> i64 \<Rightarrow> tick \<Rightarrow> ('b, 'p, 'r, 'f, 's, 'g) node_proc" where
  "close_epoch_proc N ts_now tick = (let B = xe_backlog (ne_executor N); S = ne_schedules N
     in Acquire Backlog_lock
       (act (on_exec (\<lambda>x. Some ((), x \<lparr> xs_backlog :=
            fold (\<lambda>c b. blo_remove B b (order_self_ref (xe_lib (ne_executor N)) c)) (blo_find_orders B (xs_backlog x) (of_epoch tick)) (xs_backlog x) \<rparr>)))
         (\<lambda>_. locked Schedules_lock (on_schedules (\<lambda>s. sro_remove S (sro_defer S s tick (ts_now + TICK_SUSPENSION_DURATION)) tick))
           (\<lambda>_. Release Backlog_lock Done))))"

fun put_orders_proc :: "('b, 'p, 'r, 'f, 's, 'g) node_env \<Rightarrow> i64 \<Rightarrow> compound list \<Rightarrow> ('b, 'p, 'r, 'f, 's, 'g) node_proc \<Rightarrow> ('b, 'p, 'r, 'f, 's, 'g) node_proc" where
  "put_orders_proc N ts_now [] p = p"
| "put_orders_proc N ts_now (c # cs) p =
     exec_op Backlog_lock (\<lambda>x. Some (x \<lparr> xs_backlog := blo_put (xe_backlog (ne_executor N)) (xs_backlog x) \<lparr> po_order = OrdCompound c, po_timestamp = ts_now \<rparr> \<rparr>))
       (put_orders_proc N ts_now cs p)"

definition scheduler_proc :: "('b, 'p, 'r, 'f, 's, 'g) node_env \<Rightarrow> i64 \<Rightarrow> u32 \<Rightarrow> i64 \<Rightarrow> ('b, 'p, 'r, 'f, 's, 'g) node_proc" where
  "scheduler_proc N ts_peek height_now ts_now =
     act (\<lambda>st. Some (ns_tip_reached st, st)) (\<lambda>tip_reached.
       if tip_reached
       then locked Schedules_lock (\<lambda>st. Some (sro_peek (ne_schedules N) ts_peek (ns_schedules st), st)) (\<lambda>peek_result. (case peek_result of
           Some tick \<Rightarrow>
             if tk_height tick \<le> height_now
             then locked Bundles_lock (read_exec (\<lambda>x. bro_select (xe_bundles (ne_executor N)) (xs_bundles x) (tk_pool_id tick) (tk_epoch_ix tick)))
               (\<lambda>stakers. let stakers = sort stakers
                  in if stakers = [] then close_epoch_proc N ts_now tick
                     else put_orders_proc N ts_now (compound_orders tick BATCH_SIZE stakers)
                       (locked Schedules_lock (on_schedules (\<lambda>s. sro_defer (ne_schedules N) s tick (ts_now + TICK_SUSPENSION_DURATION))) (\<lambda>_. Done)))
             else Done
         | None \<Rightarrow> Done))
       else Done)"

lemma run_put_orders:
  "runs_as (put_orders_proc N ts_now cs p) p (\<lambda>x. Some (x \<lparr> xs_backlog :=
     fold (\<lambda>c b. blo_put (xe_backlog (ne_executor N)) b \<lparr> po_order = OrdCompound c, po_timestamp = ts_now \<rparr>) cs (xs_backlog x) \<rparr>))"
proof (induction cs)
  case Nil
  show ?case unfolding put_orders_proc.simps by (rule runs_as_eq [OF runs_as_done]) simp
next
  case (Cons c cs)
  show ?case unfolding put_orders_proc.simps by (rule runs_as_eq [OF runs_as_trans [OF runs_as_op Cons.IH]]) simp
qed

lemma run_puts: "run_proc (put_orders_proc N ts_now cs p) st = run_proc p (st \<lparr> ns_executor := (ns_executor st) \<lparr> xs_backlog :=
     fold (\<lambda>c b. blo_put (xe_backlog (ne_executor N)) b \<lparr> po_order = OrdCompound c, po_timestamp = ts_now \<rparr>) cs (xs_backlog (ns_executor st)) \<rparr> \<rparr>)"
  using run_put_orders [of N ts_now cs p, unfolded runs_as_def, rule_format, of st] by simp

lemma run_close_epoch:
  "run_proc (close_epoch_proc N ts_now tick) st =
    (let d = close_epoch \<lparr> de_lib = xe_lib (ne_executor N), de_backlog = xe_backlog (ne_executor N), de_schedules = ne_schedules N, de_bundles = xe_bundles (ne_executor N) \<rparr>
        ts_now tick \<lparr> ds_backlog = xs_backlog (ns_executor st), ds_schedules = ns_schedules st, ds_bundles = xs_bundles (ns_executor st) \<rparr>
     in Some ({}, st \<lparr> ns_executor := (ns_executor st) \<lparr> xs_backlog := ds_backlog d, xs_bundles := ds_bundles d \<rparr>, ns_schedules := ds_schedules d \<rparr>))"
  by (simp add: close_epoch_proc_def close_epoch_def on_exec_def on_schedules_def Let_def)

lemma run_scheduler:
  "run_proc (scheduler_proc N ts_peek height_now ts_now) st = map_option (Pair {}) (scheduler_step N ts_peek height_now ts_now st)"
  by (auto simp: scheduler_proc_def scheduler_step_def distribution_step_def queue_batches_def run_puts run_close_epoch read_exec_def on_schedules_def BATCH_SIZE_def Let_def
      split: option.split bind_split)

section \<open>The event handlers\<close>

fun event_tx :: "ledger_tx_event \<Rightarrow> transaction" where
  "event_tx (AppliedTx ts tx) = tx"
| "event_tx (UnappliedTx tx) = tx"

fun event_update :: "ledger_tx_event \<Rightarrow> ('e, 'e) either_or_both \<Rightarrow> 'e state_update confirmed" where
  "event_update (AppliedTx ts tx) tr = Confirmed (Transition tr)"
| "event_update (UnappliedTx tx) tr = Confirmed (TransitionRollback (either_swap tr))"

lemma event_updates:
  "event_update (AppliedTx ts tx) = (\<lambda>tr. Confirmed (Transition tr))"
  "event_update (UnappliedTx tx) = (\<lambda>tr. Confirmed (TransitionRollback (either_swap tr)))"
  by (simp_all add: fun_eq_iff)

text \<open>A handler gets the event and goes on with what it hands back.\<close>

type_synonym ('b, 'p, 'r, 'f, 's, 'g) handler_proc =
  "ledger_tx_event \<Rightarrow> (ledger_tx_event option \<Rightarrow> ('b, 'p, 'r, 'f, 's, 'g) node_proc) \<Rightarrow> ('b, 'p, 'r, 'f, 's, 'g) node_proc"

fun consume_pools_proc :: "('b, 'p, 'r, 'f, 's, 'g) node_env \<Rightarrow> tx_input list \<Rightarrow> (pool_id \<times> pool as_box) list
    \<Rightarrow> ((pool_id \<times> pool as_box) list \<Rightarrow> ('b, 'p, 'r, 'f, 's, 'g) node_proc) \<Rightarrow> ('b, 'p, 'r, 'f, 's, 'g) node_proc" where
  "consume_pools_proc N [] consumed k = k consumed"
| "consume_pools_proc N (i # is) consumed k =
     locked Pools_lock (read_exec (\<lambda>x. Some (consume_entity (xe_pools (ne_executor N)) (ne_blacklist N) (\<lambda>i. i) (xs_pools x) i consumed)))
       (\<lambda>consumed. consume_pools_proc N is consumed k)"

definition pool_han_proc :: "('b, 'p, 'r, 'f, 's, 'g) node_env \<Rightarrow> event_readings \<Rightarrow> ('b, 'p, 'r, 'f, 's, 'g) handler_proc" where
  "pool_han_proc N rd ev k =
     consume_pools_proc N (tx_inputs (event_tx ev)) [] (\<lambda>consumed.
       let created = fold (create_entity (xe_pools (ne_executor N)) (ne_blacklist N) (pool_try_from_box_as (xe_lib (ne_executor N)))) (tx_outputs (event_tx ev)) [];
           transitions = transitions_of (ev_pool_order rd) consumed created
       in act (\<lambda>st. Some ((), st \<lparr> ns_pool_topic := ns_pool_topic st @ map (event_update ev) transitions \<rparr>))
            (\<lambda>_. k (if 0 < length transitions then None else Some ev)))"

fun eliminate_orders_proc :: "('b, 'p, 'r, 'f, 's, 'g) node_env \<Rightarrow> tx_input list \<Rightarrow> bool \<Rightarrow> (bool \<Rightarrow> ('b, 'p, 'r, 'f, 's, 'g) node_proc) \<Rightarrow> ('b, 'p, 'r, 'f, 's, 'g) node_proc" where
  "eliminate_orders_proc N [] handled k = k handled"
| "eliminate_orders_proc N (i # is) handled k =
     locked Backlog_lock (read_exec (\<lambda>x. Some (blo_exists (xe_backlog (ne_executor N)) (xs_backlog x) (in_box i))))
       (\<lambda>known. if known
          then act (\<lambda>st. Some ((), st \<lparr> ns_order_topic := ns_order_topic st @ [OrderEliminated (in_box i)] \<rparr>)) (\<lambda>_. eliminate_orders_proc N is True k)
          else eliminate_orders_proc N is handled k)"

fun order_han_proc :: "('b, 'p, 'r, 'f, 's, 'g) node_env \<Rightarrow> event_readings \<Rightarrow> ('b, 'p, 'r, 'f, 's, 'g) handler_proc" where
  "order_han_proc N rd (AppliedTx timestamp tx) k =
     eliminate_orders_proc N (tx_inputs tx) False (\<lambda>handled.
       act (\<lambda>st. map_option (\<lambda>ords. (ords, st \<lparr> ns_order_topic := ns_order_topic st @ new_orders (\<lambda>j. ev_clock rd (Suc j)) ords \<rparr>))
             (if sint (ev_clock rd 0 - timestamp) \<le> 1000 * ne_order_lifespan N then parse_orders (order_proto_try_from_box (xe_lib (ne_executor N))) tx else Some []))
         (\<lambda>ords. k (if handled \<or> ords \<noteq> [] then None else Some (AppliedTx timestamp tx))))"
| "order_han_proc N rd (UnappliedTx tx) k =
     act (\<lambda>st. map_option (\<lambda>ords. (ords, st \<lparr> ns_order_topic := ns_order_topic st @ map (\<lambda>ord. OrderEliminated (order_proto_id (xe_lib (ne_executor N)) ord)) ords \<rparr>))
           (parse_orders (order_proto_try_from_box (xe_lib (ne_executor N))) tx))
       (\<lambda>ords. k (if ords \<noteq> [] then None else Some (UnappliedTx tx)))"

definition bundle_han_proc :: "('b, 'p, 'r, 'f, 's, 'g) node_env \<Rightarrow> event_readings \<Rightarrow> ('b, 'p, 'r, 'f, 's, 'g) handler_proc" where
  "bundle_han_proc N rd ev k =
     locked Bundles_lock (read_exec (\<lambda>x. Some (fold (consume_bundle (xe_bundles (ne_executor N)) (xs_bundles x)) (tx_inputs (event_tx ev)) []))) (\<lambda>consumed.
       locked Programs_lock (\<lambda>st. map_option (\<lambda>created. (created, st))
           (create_bundles (xe_lib (ne_executor N)) (pro_get (ne_programs N) (ns_programs st)) (tx_outputs (event_tx ev)) [])) (\<lambda>created.
         let transitions = transitions_of (ev_bundle_order rd) consumed created
         in act (\<lambda>st. Some ((), st \<lparr> ns_bundle_topic := ns_bundle_topic st @ map (event_update ev) transitions \<rparr>))
              (\<lambda>_. k (if transitions \<noteq> [] then Some ev else None))))"

text \<open>The eliminated fundings are fed while the funding is locked.\<close>

fun funding_han_proc :: "('b, 'p, 'r, 'f, 's, 'g) node_env \<Rightarrow> ('b, 'p, 'r, 'f, 's, 'g) handler_proc" where
  "funding_han_proc N (AppliedTx ts tx) k =
     locked Funding_lock (\<lambda>st.
         let eliminated = filter (fro_may_exist (xe_funding (ne_executor N)) (xs_funding (ns_executor st))) (map in_box (tx_inputs tx))
         in Some (eliminated, st \<lparr> ns_funding_topic := ns_funding_topic st @ map (\<lambda>fid. Confirmed (FundingEliminated fid)) eliminated \<rparr>)) (\<lambda>eliminated.
       let created = List.map_filter (\<lambda>bx. map_option (\<lambda>funding. Confirmed (FundingCreated (AsBox bx funding))) (funding_try_from_box bx (ne_wallet N))) (tx_outputs tx)
       in act (\<lambda>st. Some ((), st \<lparr> ns_funding_topic := ns_funding_topic st @ created \<rparr>))
            (\<lambda>_. k (if eliminated \<noteq> [] \<or> created \<noteq> [] then None else Some (AppliedTx ts tx))))"
| "funding_han_proc N (UnappliedTx tx) k =
     (let upds = List.map_filter (\<lambda>bx. map_option (\<lambda>funding. Confirmed (FundingEliminated (df_id funding))) (funding_try_from_box bx (ne_wallet N))) (tx_outputs tx)
      in act (\<lambda>st. Some ((), st \<lparr> ns_funding_topic := ns_funding_topic st @ upds \<rparr>)) (\<lambda>_. k (if upds \<noteq> [] then None else Some (UnappliedTx tx))))"

definition schedule_pool_op :: "('b, 'p, 'r, 'f, 's, 'g) node_env \<Rightarrow> pool \<Rightarrow> ('b, 'p, 'r, 'f, 's, 'g) node_state \<Rightarrow> (unit \<times> ('b, 'p, 'r, 'f, 's, 'g) node_state) option" where
  "schedule_pool_op N pool st = map_option (\<lambda>s. ((), st \<lparr> ns_schedules := s \<rparr>)) (schedule_pool (ne_schedules N) (ns_schedules st) pool)"

fun schedule_outputs_proc :: "('b, 'p, 'r, 'f, 's, 'g) node_env \<Rightarrow> ergo_box list \<Rightarrow> bool \<Rightarrow> (bool \<Rightarrow> ('b, 'p, 'r, 'f, 's, 'g) node_proc) \<Rightarrow> ('b, 'p, 'r, 'f, 's, 'g) node_proc" where
  "schedule_outputs_proc N [] handled k = k handled"
| "schedule_outputs_proc N (bx # bs) handled k = (case pool_try_from_box (xe_lib (ne_executor N)) bx of
      Some pool \<Rightarrow> locked Schedules_lock (schedule_pool_op N pool) (\<lambda>_. schedule_outputs_proc N bs True k)
    | None \<Rightarrow> schedule_outputs_proc N bs handled k)"

fun schedule_inputs_proc :: "('b, 'p, 'r, 'f, 's, 'g) node_env \<Rightarrow> tx_input list \<Rightarrow> bool \<Rightarrow> (bool \<Rightarrow> ('b, 'p, 'r, 'f, 's, 'g) node_proc) \<Rightarrow> ('b, 'p, 'r, 'f, 's, 'g) node_proc" where
  "schedule_inputs_proc N [] handled k = k handled"
| "schedule_inputs_proc N (i # is) handled k =
     Acquire Pools_lock (act (read_exec (\<lambda>x. Some (known_pool (xe_pools (ne_executor N)) (xs_pools x) i))) (\<lambda>known. (case known of
         Some pool \<Rightarrow> locked Schedules_lock (schedule_pool_op N pool) (\<lambda>_. Release Pools_lock (schedule_inputs_proc N is True k))
       | None \<Rightarrow> Release Pools_lock (schedule_inputs_proc N is handled k))))"

fun schedule_han_proc :: "('b, 'p, 'r, 'f, 's, 'g) node_env \<Rightarrow> ('b, 'p, 'r, 'f, 's, 'g) handler_proc" where
  "schedule_han_proc N (AppliedTx ts tx) k = schedule_outputs_proc N (tx_outputs tx) False (\<lambda>handled. k (if handled then None else Some (AppliedTx ts tx)))"
| "schedule_han_proc N (UnappliedTx tx) k = schedule_inputs_proc N (tx_inputs tx) False (\<lambda>handled. k (if handled then None else Some (UnappliedTx tx)))"

fun program_outputs_proc :: "('b, 'p, 'r, 'f, 's, 'g) node_env \<Rightarrow> ergo_box list \<Rightarrow> bool \<Rightarrow> (bool \<Rightarrow> ('b, 'p, 'r, 'f, 's, 'g) node_proc) \<Rightarrow> ('b, 'p, 'r, 'f, 's, 'g) node_proc" where
  "program_outputs_proc N [] handled k = k handled"
| "program_outputs_proc N (bx # bs) handled k = (case pool_try_from_box (xe_lib (ne_executor N)) bx of
      Some _ \<Rightarrow> locked Programs_lock (\<lambda>st. let (s, g) = register_program (xe_lib (ne_executor N)) (ne_programs N) bx (handled, ns_programs st)
              in Some (s, st \<lparr> ns_programs := g \<rparr>)) (\<lambda>handled. program_outputs_proc N bs handled k)
    | None \<Rightarrow> program_outputs_proc N bs handled k)"

fun program_han_proc :: "('b, 'p, 'r, 'f, 's, 'g) node_env \<Rightarrow> ('b, 'p, 'r, 'f, 's, 'g) handler_proc" where
  "program_han_proc N (AppliedTx ts tx) k = program_outputs_proc N (tx_outputs tx) False (\<lambda>handled. k (if handled then None else Some (AppliedTx ts tx)))"
| "program_han_proc N (UnappliedTx tx) k = k (Some (UnappliedTx tx))"

definition node_handler_procs :: "('b, 'p, 'r, 'f, 's, 'g) node_env \<Rightarrow> event_readings \<Rightarrow> ('b, 'p, 'r, 'f, 's, 'g) handler_proc list" where
  "node_handler_procs N rd = [pool_han_proc N rd, order_han_proc N rd, bundle_han_proc N rd, funding_han_proc N, schedule_han_proc N, program_han_proc N]"

fun try_handlers_proc :: "('b, 'p, 'r, 'f, 's, 'g) handler_proc list \<Rightarrow> ledger_tx_event \<Rightarrow> ledger_tx_event option
    \<Rightarrow> (ledger_tx_event option \<Rightarrow> ('b, 'p, 'r, 'f, 's, 'g) node_proc) \<Rightarrow> ('b, 'p, 'r, 'f, 's, 'g) node_proc" where
  "try_handlers_proc [] ev unhandled_ev k = k unhandled_ev"
| "try_handlers_proc (han # hans) ev unhandled_ev k =
     han ev (\<lambda>maybe_unhandled_ev. try_handlers_proc hans ev (if unhandled_ev \<noteq> None then maybe_unhandled_ev else unhandled_ev) k)"

definition event_proc :: "('b, 'p, 'r, 'f, 's, 'g) node_env \<Rightarrow> event_readings \<Rightarrow> ledger_tx_event \<Rightarrow> ('b, 'p, 'r, 'f, 's, 'g) node_proc" where
  "event_proc N rd ev =
     Acquire Handlers_lock (try_handlers_proc (node_handler_procs N rd) ev (Some ev) (\<lambda>unhandled_ev. (case unhandled_ev of
         Some unhandled_ev \<Rightarrow> locked Default_lock (\<lambda>st. Some ((), noop_handle unhandled_ev st)) (\<lambda>_. Release Handlers_lock Done)
       | None \<Rightarrow> Release Handlers_lock Done)))"

definition runs_handler :: "('b, 'p, 'r, 'f, 's, 'g) handler_proc \<Rightarrow> ('b, 'p, 'r, 'f, 's, 'g) node_handler \<Rightarrow> bool" where
  "runs_handler q h \<longleftrightarrow> (\<forall>ev k st. run_proc (q ev k) st = (case h ev st of Some (ret, st') \<Rightarrow> run_proc (k ret) st' | None \<Rightarrow> None))"

lemma run_consume_pools:
  "run_proc (consume_pools_proc N is consumed k) st =
     run_proc (k (fold (consume_entity (xe_pools (ne_executor N)) (ne_blacklist N) (\<lambda>i. i) (xs_pools (ns_executor st))) is consumed)) st"
  by (induction "is" arbitrary: consumed) (simp_all add: read_exec_def)

lemma run_pool_han: "runs_handler (pool_han_proc N rd) (pool_han N rd)"
  unfolding runs_handler_def
proof (intro allI)
  fix ev k st
  show "run_proc (pool_han_proc N rd ev k) st = (case pool_han N rd ev st of Some (ret, st') \<Rightarrow> run_proc (k ret) st' | None \<Rightarrow> None)"
    by (cases ev) (simp_all add: pool_han_proc_def pool_han_def run_consume_pools event_updates extract_transitions_def Let_def)
qed

lemma run_eliminate_orders:
  "run_proc (eliminate_orders_proc N is s k) st =
     (let elim = filter (blo_exists (xe_backlog (ne_executor N)) (xs_backlog (ns_executor st))) (map in_box is)
      in run_proc (k (s \<or> elim \<noteq> [])) (st \<lparr> ns_order_topic := ns_order_topic st @ map OrderEliminated elim \<rparr>))"
proof (induction "is" arbitrary: s st)
  case (Cons i "is")
  then show ?case by (simp add: read_exec_def Let_def)
qed simp

lemma run_order_han: "runs_handler (order_han_proc N rd) (order_han N rd)"
  unfolding runs_handler_def
proof (intro allI)
  fix ev k st
  show "run_proc (order_han_proc N rd ev k) st = (case order_han N rd ev st of Some (ret, st') \<Rightarrow> run_proc (k ret) st' | None \<Rightarrow> None)"
    by (cases ev) (auto simp: order_han_def run_eliminate_orders eliminated_inputs_def new_orders_def o_def enumerate_eq_zip Let_def split: option.split bind_split)
qed

lemma run_bundle_han: "runs_handler (bundle_han_proc N rd) (bundle_han N rd)"
  unfolding runs_handler_def
proof (intro allI)
  fix ev k st
  show "run_proc (bundle_han_proc N rd ev k) st = (case bundle_han N rd ev st of Some (ret, st') \<Rightarrow> run_proc (k ret) st' | None \<Rightarrow> None)"
    by (cases ev) (simp_all add: bundle_han_proc_def bundle_han_def bundle_transitions_def event_updates read_exec_def Let_def split: option.split)
qed

lemma run_funding_han: "runs_handler (funding_han_proc N) (funding_han N)"
  unfolding runs_handler_def
proof (intro allI)
  fix ev k st
  show "run_proc (funding_han_proc N ev k) st = (case funding_han N ev st of Some (ret, st') \<Rightarrow> run_proc (k ret) st' | None \<Rightarrow> None)"
    by (cases ev) (simp_all add: funding_han_def Let_def)
qed

lemma run_schedule_outputs:
  "run_proc (schedule_outputs_proc N bs s k) st = (case schedule_pools (ne_schedules N) (map (pool_try_from_box (xe_lib (ne_executor N))) bs) (ns_schedules st) of
      Some (b, repo) \<Rightarrow> run_proc (k (s \<or> b)) (st \<lparr> ns_schedules := repo \<rparr>) | None \<Rightarrow> None)"
proof (induction bs arbitrary: s st)
  case (Cons bx bs)
  then show ?case by (cases "pool_try_from_box (xe_lib (ne_executor N)) bx") (simp_all add: schedule_pool_op_def split: option.split prod.split bind_split)
qed simp

lemma run_schedule_inputs:
  "run_proc (schedule_inputs_proc N is s k) st = (case schedule_pools (ne_schedules N) (map (known_pool (xe_pools (ne_executor N)) (xs_pools (ns_executor st))) is) (ns_schedules st) of
      Some (b, repo) \<Rightarrow> run_proc (k (s \<or> b)) (st \<lparr> ns_schedules := repo \<rparr>) | None \<Rightarrow> None)"
proof (induction "is" arbitrary: s st)
  case (Cons i "is")
  then show ?case by (cases "known_pool (xe_pools (ne_executor N)) (xs_pools (ns_executor st)) i") (simp_all add: read_exec_def schedule_pool_op_def split: option.split prod.split bind_split)
qed simp

lemma run_schedule_han: "runs_handler (schedule_han_proc N) (schedule_han N)"
  unfolding runs_handler_def
proof (intro allI)
  fix ev k st
  show "run_proc (schedule_han_proc N ev k) st = (case schedule_han N ev st of Some (ret, st') \<Rightarrow> run_proc (k ret) st' | None \<Rightarrow> None)"
    by (cases ev) (simp_all add: schedule_han_def run_schedule_outputs run_schedule_inputs split: option.split prod.split bind_split)
qed

lemma run_program_outputs:
  "run_proc (program_outputs_proc N bs s k) st =
     (let (s, g) = fold (register_program (xe_lib (ne_executor N)) (ne_programs N)) bs (s, ns_programs st) in run_proc (k s) (st \<lparr> ns_programs := g \<rparr>))"
proof (induction bs arbitrary: s st)
  case (Cons bx bs)
  then show ?case
    by (cases "pool_try_from_box (xe_lib (ne_executor N)) bx") (simp_all add: Let_def register_program_def split: prod.split)
qed simp

lemma run_program_han: "runs_handler (program_han_proc N) (program_han N)"
  unfolding runs_handler_def
proof (intro allI)
  fix ev k st
  show "run_proc (program_han_proc N ev k) st = (case program_han N ev st of Some (ret, st') \<Rightarrow> run_proc (k ret) st' | None \<Rightarrow> None)"
    by (cases ev) (simp_all add: program_han_def run_program_outputs Let_def split: prod.split)
qed

lemma run_try_handlers:
  "list_all2 runs_handler qs hs \<Longrightarrow> run_proc (try_handlers_proc qs ev u k) st = (case try_handlers hs ev u st of
      Some (u', st') \<Rightarrow> run_proc (k u') st' | None \<Rightarrow> None)"
proof (induction qs hs arbitrary: u st rule: list_all2_induct)
  case (Cons q qs h hs)
  from Cons(1) show ?case unfolding runs_handler_def by (simp add: Cons(3) split: option.split prod.split bind_split)
qed simp

lemma run_event: "run_proc (event_proc N rd ev) st = map_option (Pair {}) (process_events_step N rd ev st)"
proof -
  have "list_all2 runs_handler (node_handler_procs N rd) (node_handlers N rd)"
    by (simp add: node_handler_procs_def node_handlers_def run_pool_han run_order_han run_bundle_han run_funding_han run_schedule_han run_program_han)
  note r = run_try_handlers [OF this]
  show ?thesis by (auto simp: event_proc_def process_events_step_def process_event_def r noop_handle_def split: option.split bind_split)
qed

end
