(* ===== verification/LM_Concurrent.thy ===== *)
theory LM_Concurrent
  imports LM_Streams
begin

text \<open>
  The node with its streams interleaved at every lock: the processes of \<open>LM_Streams\<close> under the scheduling of
  \<open>Concurrency\<close>.

  Results: the locks are taken in one order, so no two streams wait for each other and whatever is in progress can be ended;
  the steps of \<open>LM_Node\<close>, in which an element is never interrupted, are runs of the interleaved node; and the books
  of the node are kept in every state between two actions.
\<close>

section \<open>The streams of the node\<close>

datatype node_stream = Events_stream | Executor_stream | Pools_stream | Orders_stream | Bundles_stream | Funding_stream | Scheduler_stream

instantiation node_stream :: finite
begin

instance
proof
  have "(UNIV :: node_stream set) = {Events_stream, Executor_stream, Pools_stream, Orders_stream, Bundles_stream, Funding_stream, Scheduler_stream}"
    using node_stream.exhaust by blast
  then show "finite (UNIV :: node_stream set)" by (rule ssubst) simp
qed

end

text \<open>
  The elements a stream may begin: the event, the readings of the network and of the clocks are arbitrary.  The stream of
  the events also sets the flag of the tip, in the synchroniser it draws its blocks from.
\<close>

definition tip_proc :: "('b, 'p, 'r, 'f, 's, 'g) node_proc" where
  "tip_proc = act (\<lambda>st. Some ((), st \<lparr> ns_tip_reached := True \<rparr>)) (\<lambda>_. Done)"

fun node_elements :: "('b, 'p, 'r, 'f, 's, 'g) node_env \<Rightarrow> node_stream \<Rightarrow> ('b, 'p, 'r, 'f, 's, 'g) node_proc set" where
  "node_elements N Events_stream = insert tip_proc {event_proc N rd ev | rd ev. True}"
| "node_elements N Executor_stream = {executor_proc N rd | rd. True}"
| "node_elements N Pools_stream = {pool_proc N}"
| "node_elements N Orders_stream = {order_proc N}"
| "node_elements N Bundles_stream = {bundle_proc N}"
| "node_elements N Funding_stream = {funding_proc N}"
| "node_elements N Scheduler_stream = {scheduler_proc N ts_peek height_now ts_now | ts_peek height_now ts_now. True}"

type_synonym ('b, 'p, 'r, 'f, 's, 'g) node_streams_state = "(node_stream, node_lock, ('b, 'p, 'r, 'f, 's, 'g) node_state, order) streams_state"

section \<open>The order of the locks\<close>

lemma disc_locked:
  "H \<subseteq> {Handlers_lock} \<Longrightarrow> l \<noteq> Handlers_lock \<Longrightarrow> (\<And>v. disciplined lock_rank H (k v)) \<Longrightarrow> disciplined lock_rank H (locked l f k)"
  by (rule disciplined_locked) (cases l; auto)+

lemma disc_op: "disciplined lock_rank {} p \<Longrightarrow> l \<noteq> Handlers_lock \<Longrightarrow> disciplined lock_rank {} (exec_op l f p)"
  unfolding exec_op_def by (rule disc_locked) simp_all

lemma disc_act: "(\<And>v. disciplined rank H (k v)) \<Longrightarrow> disciplined rank H (act f k)"
  by (rule disciplined_act)

lemma disc_under:
  assumes "H \<subseteq> {Handlers_lock}" "l \<in> {Pools_lock, Backlog_lock}" "\<And>v. disciplined lock_rank H (k v)"
  shows "disciplined lock_rank (insert l H) (locked Schedules_lock f (\<lambda>v. Release l (k v)))"
proof (rule disciplined_locked)
  have "insert l H - {l} = H" using assms(1,2) by auto
  then show "disciplined lock_rank (insert l H) (Release l (k v))" for v using assms(3) by simp
qed (use assms(1,2) in auto)

lemma disc_resolve_pool: "(\<And>e. disciplined lock_rank {} (k e)) \<Longrightarrow> disciplined lock_rank {} (resolve_pool_proc X i k)"
  unfolding resolve_pool_proc_def by (rule disc_locked) (auto simp: Let_def intro!: disc_locked split: option.split confirmed.split unconfirmed.split predicted.split)

lemma disc_resolve_bundle: "(\<And>e. disciplined lock_rank {} (k e)) \<Longrightarrow> disciplined lock_rank {} (resolve_bundle_proc X i k)"
  unfolding resolve_bundle_proc_def by (rule disc_locked) (auto simp: Let_def intro!: disc_locked split: option.split confirmed.split predicted.split)

lemma disc_resolve_bundles: "(\<And>bs. disciplined lock_rank {} (k bs)) \<Longrightarrow> disciplined lock_rank {} (resolve_bundles_proc X is k)"
  by (induction "is" arbitrary: k) (auto intro: disc_resolve_bundle)

lemma disc_run_order: "(\<And>r. disciplined lock_rank {} (k r)) \<Longrightarrow> disciplined lock_rank {} (run_order_proc X rd ord pool bundles ctx k)"
  unfolding run_order_proc_def Let_def by (auto intro: disc_act disc_locked split: order.split)

lemma disc_remove_fundings: "disciplined lock_rank {} p \<Longrightarrow> disciplined lock_rank {} (remove_fundings_proc X tx ixs p)"
  by (induction ixs) (simp_all add: disc_op)

lemma disc_invalidate_bundles: "disciplined lock_rank {} p \<Longrightarrow> disciplined lock_rank {} (invalidate_bundles_proc X tx ixs p)"
  by (induction ixs) (simp_all add: disc_op)

lemma disc_invalidation: "disciplined lock_rank {} p \<Longrightarrow> disciplined lock_rank {} (invalidation_proc X tx ord pool iv p)"
  by (cases iv) (simp_all add: disc_op disc_remove_fundings disc_invalidate_bundles)

lemma disc_invalidations: "disciplined lock_rank {} p \<Longrightarrow> disciplined lock_rank {} (foldr (invalidation_proc X tx ord pool) ivs p)"
  by (induction ivs) (simp_all add: disc_invalidation)

lemma disc_check_fundings: "disciplined lock_rank {} p \<Longrightarrow> disciplined lock_rank {} (check_fundings_proc X rd ids p)"
  by (induction ids) (simp_all add: disc_op)

lemma disc_check_utxo: "disciplined lock_rank {} p \<Longrightarrow> disciplined lock_rank {} (check_utxo_proc X rd pool ot p)"
  by (cases ot) (simp_all add: check_utxo_proc_def Let_def disc_op disc_check_fundings)

lemma disc_predict_bundles: "disciplined lock_rank {} (predict_bundles_proc X cfg nexts prevs)"
  by (induction X cfg nexts prevs rule: predict_bundles_proc.induct) (simp_all add: disc_op)

lemma disc_result: "disciplined lock_rank {} (handle_run_result_proc X rd ord pool bundles res)"
  unfolding handle_run_result_proc_def submission_failed_proc_def submission_accepted_proc_def Let_def
  by (auto simp: disc_op disc_predict_bundles disc_invalidations disc_check_utxo intro!: disc_act
      split: sum.split prod.split run_order_error.split node_submit_tx_error.split option.split)

lemma disc_attempt: "disciplined lock_rank {} (attempt_proc X rd ord)"
  unfolding attempt_proc_def make_context_proc_def
  by (auto simp: disc_op disc_result intro!: disc_resolve_pool disc_resolve_bundles disc_act disc_run_order split: option.split)

lemma disc_executor: "disciplined lock_rank {} (executor_proc N rd)"
  unfolding executor_proc_def Let_def
  by (auto simp: disc_attempt intro!: disc_act disciplined.acts split: option.split)

lemma disc_updates:
  "disciplined lock_rank {} (pool_proc N)" "disciplined lock_rank {} (bundle_proc N)" "disciplined lock_rank {} (funding_proc N)" "disciplined lock_rank {} (order_proc N)"
  unfolding pool_proc_def bundle_proc_def funding_proc_def order_proc_def Let_def
  by (auto simp: disc_op intro!: disc_act disc_locked split: option.split)

lemma disc_put_orders: "disciplined lock_rank {} p \<Longrightarrow> disciplined lock_rank {} (put_orders_proc N ts_now cs p)"
  by (induction cs) (simp_all add: disc_op)

lemma disc_close_epoch: "disciplined lock_rank {} (close_epoch_proc N ts_now tick)"
  unfolding close_epoch_proc_def Let_def
  by (intro disciplined.acquires disc_act disc_under) simp_all

lemma disc_scheduler: "disciplined lock_rank {} (scheduler_proc N ts_peek height_now ts_now)"
  unfolding scheduler_proc_def Let_def
  by (auto simp: disc_close_epoch intro!: disc_act disc_locked disc_put_orders split: option.split)

text \<open>The handlers run under the lock of the handlers.\<close>

definition disc_handler :: "('b, 'p, 'r, 'f, 's, 'g) handler_proc \<Rightarrow> bool" where
  "disc_handler q \<longleftrightarrow> (\<forall>ev k. (\<forall>ret. disciplined lock_rank {Handlers_lock} (k ret)) \<longrightarrow> disciplined lock_rank {Handlers_lock} (q ev k))"

lemma disc_consume_pools:
  "(\<And>c. disciplined lock_rank {Handlers_lock} (k c)) \<Longrightarrow> disciplined lock_rank {Handlers_lock} (consume_pools_proc N is c k)"
  by (induction "is" arbitrary: c) (auto intro: disc_locked)

lemma disc_eliminate_orders:
  "(\<And>b. disciplined lock_rank {Handlers_lock} (k b)) \<Longrightarrow> disciplined lock_rank {Handlers_lock} (eliminate_orders_proc N is b k)"
  by (induction "is" arbitrary: b) (auto intro!: disc_locked disc_act)

lemma disc_schedule_outputs:
  "(\<And>b. disciplined lock_rank {Handlers_lock} (k b)) \<Longrightarrow> disciplined lock_rank {Handlers_lock} (schedule_outputs_proc N bs b k)"
  by (induction bs arbitrary: b) (auto intro!: disc_locked split: option.split)

lemma disc_schedule_inputs:
  "(\<And>b. disciplined lock_rank {Handlers_lock} (k b)) \<Longrightarrow> disciplined lock_rank {Handlers_lock} (schedule_inputs_proc N is b k)"
proof (induction "is" arbitrary: b)
  case (Cons i "is")
  have "insert Pools_lock {Handlers_lock} - {Pools_lock} = {Handlers_lock}" by auto
  then show ?case using Cons by (auto intro!: disc_act disc_under split: option.split)
qed simp

lemma disc_program_outputs:
  "(\<And>b. disciplined lock_rank {Handlers_lock} (k b)) \<Longrightarrow> disciplined lock_rank {Handlers_lock} (program_outputs_proc N bs b k)"
  by (induction bs arbitrary: b) (auto intro!: disc_locked split: option.split)

lemma disc_order_han: "(\<And>ret. disciplined lock_rank {Handlers_lock} (k ret)) \<Longrightarrow> disciplined lock_rank {Handlers_lock} (order_han_proc N rd ev k)"
  by (cases ev) (auto intro!: disc_eliminate_orders disc_act)

lemma disc_funding_han: "(\<And>ret. disciplined lock_rank {Handlers_lock} (k ret)) \<Longrightarrow> disciplined lock_rank {Handlers_lock} (funding_han_proc N ev k)"
  by (cases ev) (auto simp: Let_def intro!: disc_locked disc_act)

lemma disc_schedule_han: "(\<And>ret. disciplined lock_rank {Handlers_lock} (k ret)) \<Longrightarrow> disciplined lock_rank {Handlers_lock} (schedule_han_proc N ev k)"
  by (cases ev) (auto intro!: disc_schedule_outputs disc_schedule_inputs)

lemma disc_program_han: "(\<And>ret. disciplined lock_rank {Handlers_lock} (k ret)) \<Longrightarrow> disciplined lock_rank {Handlers_lock} (program_han_proc N ev k)"
  by (cases ev) (auto intro!: disc_program_outputs)

lemma disc_handlers: "list_all disc_handler (node_handler_procs N rd)"
  unfolding node_handler_procs_def disc_handler_def pool_han_proc_def bundle_han_proc_def Let_def
  by (auto intro!: disc_consume_pools disc_act disc_locked disc_order_han disc_funding_han disc_schedule_han disc_program_han)

lemma disc_try_handlers:
  "list_all disc_handler qs \<Longrightarrow> (\<And>u. disciplined lock_rank {Handlers_lock} (k u)) \<Longrightarrow> disciplined lock_rank {Handlers_lock} (try_handlers_proc qs ev u k)"
  by (induction qs arbitrary: u) (simp_all add: disc_handler_def)

lemma disc_event: "disciplined lock_rank {} (event_proc N rd ev)"
  unfolding event_proc_def
  by (intro disciplined.acquires disc_try_handlers disc_handlers) (auto intro!: disc_locked split: option.split)

lemma elements_disciplined: "p \<in> node_elements N i \<Longrightarrow> disciplined lock_rank {} p"
  by (cases i) (auto simp: disc_event disc_executor disc_updates disc_scheduler tip_proc_def disc_act)

interpretation node_streams: streams lock_rank "node_elements N" for N
  by unfold_locales (rule elements_disciplined)

section \<open>The books of the node\<close>

context lm_node
begin

definition "books s0 bc fl x \<longleftrightarrow> reaches s0 bc fl (xs_backlog x) \<and> repo_wf (xe_pools X) (xs_pools x) \<and> bundle_index_wf XB (xs_bundles x)"

definition "op_keeps (f :: ((order_id, 's, 'q) backlog_service, 'p, 'r, 'f) executor_state \<Rightarrow> ((order_id, 's, 'q) backlog_service, 'p, 'r, 'f) executor_state option) \<longleftrightarrow> (\<forall>s0 bc fl x x'. books s0 bc fl x \<longrightarrow> f x = Some x' \<longrightarrow> books s0 bc fl x')"

lemma node_inv_books: "node_inv s0 bc P st \<longleftrightarrow> books s0 bc (be_ref E ` P) (ns_executor st) \<and> schedule_keys_wf XS (ns_schedules st)"
  by (simp add: node_inv_def books_def)

lemma keeps_op: "op_keeps f \<Longrightarrow> keeps (node_inv s0 bc) p \<Longrightarrow> keeps (node_inv s0 bc) (exec_op l f p)"
  unfolding exec_op_def op_keeps_def by (rule keeps_locked) (auto simp: on_exec_def node_inv_books)

lemma keeps_read: "(\<And>v. keeps (node_inv s0 bc) (k v)) \<Longrightarrow> keeps (node_inv s0 bc) (locked l (read_exec f) k)"
  by (rule keeps_locked) (auto simp: read_exec_def)

lemma op_keeps_backlog:
  assumes "\<And>x x'. f x = Some x' \<Longrightarrow> xs_pools x' = xs_pools x \<and> xs_bundles x' = xs_bundles x"
    and "\<And>s0 bc fl x x'. reaches s0 bc fl (xs_backlog x) \<Longrightarrow> f x = Some x' \<Longrightarrow> reaches s0 bc fl (xs_backlog x')"
  shows "op_keeps f"
  unfolding op_keeps_def books_def by (metis assms)

lemma op_keeps_same:
  assumes "\<And>x x'. f x = Some x' \<Longrightarrow> xs_backlog x' = xs_backlog x \<and> xs_pools x' = xs_pools x \<and> xs_bundles x' = xs_bundles x"
  shows "op_keeps f"
  unfolding op_keeps_def books_def by (metis assms)

lemma op_keeps_pools: "op_keeps (\<lambda>x. Some (x \<lparr> xs_pools := apply_repo_op (xe_pools X) op (xs_pools x) \<rparr>))"
  using pools.repo_wf_run [of _ "[op]"] by (simp add: op_keeps_def books_def)

lemma op_keeps_bundles: "op_keeps (\<lambda>x. map_option (\<lambda>v. x \<lparr> xs_bundles := apply_bundle_op (xe_bundles X) (op v) (xs_bundles x) \<rparr>) r)"
  using bundles.index_wf_apply by (auto simp: op_keeps_def books_def bundles_env)

lemma op_keeps_suspend: "op_keeps (suspend_order X ord)"
proof (rule op_keeps_backlog)
  show "xs_pools x' = xs_pools x \<and> xs_bundles x' = xs_bundles x" if "suspend_order X ord x = Some x'" for x x'
    using that by (auto simp: suspend_order_def)
qed (rule suspend_reaches)

lemma op_keeps_remove: "op_keeps (\<lambda>x. Some (remove_order X ord x))"
  by (rule op_keeps_backlog) (auto simp: remove_order_def intro: remove_reaches [unfolded remove_order_def])

lemma op_keeps_no_pool: "op_keeps (no_pool X rd ord)"
proof (rule op_keeps_backlog)
  show "xs_pools x' = xs_pools x \<and> xs_bundles x' = xs_bundles x" if "no_pool X rd ord x = Some x'" for x x'
    using that by (auto simp: no_pool_def Let_def remove_order_def suspend_order_def split: order.split_asm as_box.split_asm if_split_asm)
qed (rule no_pool_reaches)

lemma op_keeps_invalidate: "op_keeps (\<lambda>x. Some (invalidate_pool X pool x))"
  using op_keeps_pools [of "OpInvalidate (env_state_ref (xe_pools X) pool) (env_ref (xe_pools X) pool)"] by (simp add: invalidate_pool_def)

lemma op_keeps_predict: "op_keeps (\<lambda>x. Some (x \<lparr> xs_pools := put_predicted (xe_pools X) (xs_pools x) t \<rparr>))"
  using op_keeps_pools [of "OpPredicted t"] by simp

lemma op_keeps_check_later:
  "op_keeps (\<lambda>x. Some (x \<lparr> xs_backlog := snd (blo_check_later (xe_backlog X) (xs_backlog x) pr) \<rparr>))"
proof (rule op_keeps_backlog)
  fix s0 bc fl x x' assume a: "reaches s0 bc fl (xs_backlog x)" "Some (x \<lparr> xs_backlog := snd (blo_check_later (xe_backlog X) (xs_backlog x) pr) \<rparr>) = Some x'"
  obtain fl' where fl: "fl' \<subseteq> fl" "backlog_reach E s0 bc (xs_backlog x, fl')" using a(1) by (auto simp: reaches_def)
  obtain r b where "backlog_check_later E (xs_backlog x) pr = (r, b)" by fastforce
  from reachesI [OF backlog_reach.check_later [OF fl(2) this] fl(1)] this show "reaches s0 bc fl (xs_backlog x')" using a(2) by (auto simp: service_ops)
qed auto

lemma op_keeps_update: "op_keeps (\<lambda>x. Some (x \<lparr> xs_backlog := apply_order_update (xe_backlog X) upd (xs_backlog x) \<rparr>))"
proof (rule op_keeps_backlog)
  have "apply_order_update (xe_backlog X) upd b = backlog_stream_step E b upd" for b by (cases upd) (simp_all add: service_ops)
  then show "reaches s0 bc fl (xs_backlog x')" if "reaches s0 bc fl (xs_backlog x)"
    "Some (x \<lparr> xs_backlog := apply_order_update (xe_backlog X) upd (xs_backlog x) \<rparr>) = Some x'" for s0 bc fl x x'
    using that reaches_event by auto
qed auto

lemma op_keeps_fundings:
  "op_keeps (\<lambda>x. map_option (\<lambda>v. x \<lparr> xs_funding := g v (xs_funding x) \<rparr>) r)" "op_keeps (\<lambda>x. Some (x \<lparr> xs_funding := h (xs_funding x) \<rparr>))"
  by (rule op_keeps_same, auto)+

lemmas op_keeps_rules = op_keeps_suspend op_keeps_remove op_keeps_no_pool op_keeps_invalidate op_keeps_predict op_keeps_check_later op_keeps_update op_keeps_fundings

section \<open>The executor keeps the books\<close>

lemma keeps_resolve_pool: "(\<And>e. keeps (node_inv s0 bc) (k e)) \<Longrightarrow> keeps (node_inv s0 bc) (resolve_pool_proc X i k)"
  unfolding resolve_pool_proc_def by (rule keeps_read) (auto simp: Let_def intro!: keeps_read split: option.split confirmed.split unconfirmed.split predicted.split)

lemma keeps_resolve_bundle: "(\<And>e. keeps (node_inv s0 bc) (k e)) \<Longrightarrow> keeps (node_inv s0 bc) (resolve_bundle_proc X i k)"
  unfolding resolve_bundle_proc_def by (rule keeps_read) (auto simp: Let_def intro!: keeps_read split: option.split confirmed.split predicted.split)

lemma keeps_resolve_bundles: "(\<And>bs. keeps (node_inv s0 bc) (k bs)) \<Longrightarrow> keeps (node_inv s0 bc) (resolve_bundles_proc X is k)"
  by (induction "is" arbitrary: k) (auto intro: keeps_resolve_bundle)

lemma keeps_make_context: "(\<And>c. keeps (node_inv s0 bc) (k c)) \<Longrightarrow> keeps (node_inv s0 bc) (make_context_proc X rd pool k)"
  unfolding make_context_proc_def by (rule keeps_act) (auto simp: on_exec_def node_inv_books books_def Let_def split: prod.split_asm)

lemma keeps_run_order: "(\<And>r. keeps (node_inv s0 bc) (k r)) \<Longrightarrow> keeps (node_inv s0 bc) (run_order_proc X rd ord pool bundles ctx k)"
  unfolding run_order_proc_def Let_def
  by (auto simp: on_exec_def node_inv_books books_def intro!: keeps_act keeps_locked split: order.split)

lemma keeps_remove_fundings: "keeps (node_inv s0 bc) p \<Longrightarrow> keeps (node_inv s0 bc) (remove_fundings_proc X tx ixs p)"
  by (induction ixs) (auto intro!: keeps_op op_keeps_fundings)

lemma keeps_invalidate_bundles: "keeps (node_inv s0 bc) p \<Longrightarrow> keeps (node_inv s0 bc) (invalidate_bundles_proc X tx ixs p)"
  using op_keeps_bundles [of "\<lambda>inp. BundleInvalidate (in_box inp)"] by (induction ixs) (auto intro!: keeps_op)

lemma keeps_invalidation: "keeps (node_inv s0 bc) p \<Longrightarrow> keeps (node_inv s0 bc) (invalidation_proc X tx ord pool iv p)"
  by (cases iv) (auto intro!: keeps_op op_keeps_rules keeps_remove_fundings keeps_invalidate_bundles)

lemma keeps_invalidations: "keeps (node_inv s0 bc) p \<Longrightarrow> keeps (node_inv s0 bc) (foldr (invalidation_proc X tx ord pool) ivs p)"
  by (induction ivs) (simp_all add: keeps_invalidation)

lemma keeps_check_fundings: "keeps (node_inv s0 bc) p \<Longrightarrow> keeps (node_inv s0 bc) (check_fundings_proc X rd ids p)"
  by (induction ids) (auto intro!: keeps_op op_keeps_same)

lemma keeps_check_utxo: "keeps (node_inv s0 bc) p \<Longrightarrow> keeps (node_inv s0 bc) (check_utxo_proc X rd pool ot p)"
  by (cases ot) (auto simp: check_utxo_proc_def Let_def intro!: keeps_op op_keeps_invalidate keeps_check_fundings)

lemma keeps_predict_bundles: "keeps (node_inv s0 bc) (predict_bundles_proc X cfg nexts prevs)"
proof (induction nexts arbitrary: prevs)
  case (Cons n nexts)
  obtain nx where n: "n = Predicted nx" by (cases n)
  let ?prev = "case prevs of prev # _ \<Rightarrow> Some (bundle_self_state_ref (as_val prev)) | [] \<Rightarrow> None"
  show ?case unfolding n predict_bundles_proc.simps
    by (rule keeps_op [OF op_keeps_bundles [of "\<lambda>ib. BundlePredicted \<lparr> tr_state = Predicted (AsBox (as_bx nx) ib), tr_prev_state_id = ?prev \<rparr>", unfolded apply_bundle_op.simps] Cons.IH])
qed simp

lemma keeps_result: "keeps (node_inv s0 bc) (handle_run_result_proc X rd ord pool bundles res)"
proof -
  have failed: "keeps (node_inv s0 bc) (submission_failed_proc X rd tx ord pool ot err)" for tx ot err
    unfolding submission_failed_proc_def
    by (rule keeps_act) (auto intro!: keeps_op op_keeps_suspend keeps_invalidations keeps_check_utxo split: node_submit_tx_error.split)
  have accepted: "keeps (node_inv s0 bc) (submission_accepted_proc X rd ord pool bundles ok)" for ok
    unfolding submission_accepted_proc_def Let_def
    by (auto intro!: keeps_op op_keeps_check_later op_keeps_predict op_keeps_same keeps_predict_bundles split: prod.split option.split)
  show ?thesis unfolding handle_run_result_proc_def
    by (auto simp: failed accepted intro!: keeps_op op_keeps_suspend op_keeps_remove split: sum.split prod.split run_order_error.split)
qed

lemma keeps_attempt: "keeps (node_inv s0 bc) (attempt_proc X rd ord)"
  unfolding attempt_proc_def
  by (auto intro!: keeps_resolve_pool keeps_resolve_bundles keeps_make_context keeps_run_order keeps_result keeps_op op_keeps_no_pool split: option.split)

lemma pop_keeps:
  assumes "node_inv s0 bc P st" "blo_try_pop (xe_backlog X) now rng now' (xs_backlog (ns_executor st)) = Some (o1, b)"
  shows "node_inv s0 bc (P \<union> set_option o1) (st \<lparr> ns_executor := (ns_executor st) \<lparr> xs_backlog := b \<rparr> \<rparr>)"
proof -
  obtain fl where fl: "fl \<subseteq> be_ref E ` P" "backlog_reach E s0 bc (xs_backlog (ns_executor st), fl)" using assms(1) by (auto simp: node_inv_def reaches_def)
  have "backlog_reach E s0 bc (b, fl \<union> be_ref E ` set_option o1)" using assms(2) by (intro backlog_reach.pop [OF fl(2)]) (simp add: service_ops)
  moreover have "fl \<union> be_ref E ` set_option o1 \<subseteq> be_ref E ` (P \<union> set_option o1)" using fl(1) by auto
  ultimately have "reaches s0 bc (be_ref E ` (P \<union> set_option o1)) b" unfolding reaches_def by (intro exI conjI)
  then show ?thesis using assms(1) by (simp add: node_inv_def)
qed

lemma keeps_pop:
  assumes "\<And>o1. keeps (node_inv s0 bc) (k o1)"
  shows "keeps (node_inv s0 bc) (Act (\<lambda>st. map_option (\<lambda>(o1, b). (set_option o1, st \<lparr> ns_executor := (ns_executor st) \<lparr> xs_backlog := b \<rparr> \<rparr>, k o1))
    (blo_try_pop (xe_backlog X) now rng now' (xs_backlog (ns_executor st)))))" (is "keeps _ (Act ?f)")
proof (rule keeps_Act)
  have f: "\<exists>o1 b. blo_try_pop (xe_backlog X) now rng now' (xs_backlog (ns_executor s)) = Some (o1, b) \<and> ls = set_option o1 \<and>
      s' = s \<lparr> ns_executor := (ns_executor s) \<lparr> xs_backlog := b \<rparr> \<rparr> \<and> p = k o1" if "?f s = Some (ls, s', p)" for s ls s' p
    using that by (cases "blo_try_pop (xe_backlog X) now rng now' (xs_backlog (ns_executor s))") auto
  show "node_inv s0 bc (P \<union> ls) s'" if "node_inv s0 bc P s" "?f s = Some (ls, s', p)" for P s ls s' p
    using f [OF that(2)] pop_keeps [OF that(1)] by blast
  show "keeps (node_inv s0 bc) p" if "?f s = Some (ls, s', p)" for s ls s' p
    using f [OF that] assms by blast
qed

lemma keeps_executor: "keeps (node_inv s0 bc) (executor_proc N rd)"
  unfolding executor_proc_def executor_env Let_def
  by (rule keeps_act) (auto simp: keeps_attempt intro!: keeps_pop split: option.split)

section \<open>The other streams keep the books\<close>

lemma keeps_sched:
  assumes "\<And>s v s'. schedule_keys_wf XS (ns_schedules s) \<Longrightarrow> f s = Some (v, s') \<Longrightarrow> ns_executor s' = ns_executor s \<and> schedule_keys_wf XS (ns_schedules s')"
    and "\<And>v. keeps (node_inv s0 bc) (k v)"
  shows "keeps (node_inv s0 bc) (act f k)" "keeps (node_inv s0 bc) (locked l f k)"
proof -
  have k: "node_inv s0 bc P s' \<and> keeps (node_inv s0 bc) (k v)" if "node_inv s0 bc P s" "f s = Some (v, s')" for P s v s'
    using that(1) assms(1) [OF _ that(2)] assms(2) by (simp add: node_inv_books)
  show "keeps (node_inv s0 bc) (act f k)" by (rule keeps_act) (fact k)
  show "keeps (node_inv s0 bc) (locked l f k)" by (rule keeps_locked) (fact k)
qed

lemma keeps_topic:
  assumes "\<And>s v s'. f s = Some (v, s') \<Longrightarrow> ns_executor s' = ns_executor s \<and> ns_schedules s' = ns_schedules s"
    and "\<And>v. keeps (node_inv s0 bc) (k v)"
  shows "keeps (node_inv s0 bc) (act f k)" "keeps (node_inv s0 bc) (locked l f k)"
proof -
  have same: "ns_executor s' = ns_executor s \<and> schedule_keys_wf XS (ns_schedules s')" if "schedule_keys_wf XS (ns_schedules s)" "f s = Some (v, s')" for s v s'
    using that(1) assms(1) [OF that(2)] by simp
  show "keeps (node_inv s0 bc) (act f k)" by (rule keeps_sched(1)) (fact same, fact assms(2))
  show "keeps (node_inv s0 bc) (locked l f k)" by (rule keeps_sched(2)) (fact same, fact assms(2))
qed

lemma op_keeps_track: "op_keeps (\<lambda>x. Some (x \<lparr> xs_pools := entity_tracking_step (xe_pools X) (xs_pools x) upd \<rparr>))"
  by (simp add: op_keeps_def books_def pools.track_wf)

lemma op_keeps_bundle_update: "op_keeps (\<lambda>x. Some (x \<lparr> xs_bundles := bundle_update_step (xe_bundles X) (xs_bundles x) upd \<rparr>))"
proof -
  have "bundle_index_wf XB (bundle_update_step (xe_bundles X) r upd)" if "bundle_index_wf XB r" for r
    using that bundle_update_op [of "xe_bundles X" r upd] bundles.index_wf_apply by (auto simp: bundles_env)
  then show ?thesis by (simp add: op_keeps_def books_def)
qed

lemma keeps_updates:
  "keeps (node_inv s0 bc) (pool_proc N)" "keeps (node_inv s0 bc) (bundle_proc N)" "keeps (node_inv s0 bc) (funding_proc N)" "keeps (node_inv s0 bc) (order_proc N)"
  unfolding pool_proc_def bundle_proc_def funding_proc_def order_proc_def Let_def executor_env
  by (auto simp: read_exec_def intro!: keeps_topic keeps_op op_keeps_track op_keeps_bundle_update op_keeps_same op_keeps_update split: option.split list.split_asm)

lemma op_keeps_put: "op_keeps (\<lambda>x. Some (x \<lparr> xs_backlog := blo_put (xe_backlog X) (xs_backlog x) po \<rparr>))"
  using op_keeps_update [of "NewOrder po"] by simp

lemma keeps_put_orders: "keeps (node_inv s0 bc) p \<Longrightarrow> keeps (node_inv s0 bc) (put_orders_proc N ts_now cs p)"
  by (induction cs) (auto simp: executor_env intro!: keeps_op op_keeps_put)

lemma schedule_ops_wf:
  assumes "schedule_keys_wf XS db"
  shows "schedule_keys_wf XS (sro_defer (ne_schedules N) db t u)" "schedule_keys_wf XS (sro_remove (ne_schedules N) db t)"
  using schedules.keys_wf_apply [OF assms, of "OpDefer t u"] schedules.keys_wf_apply [OF assms, of "OpRemove t"] by (simp_all add: schedules_env schedule_repo_rocksdb_def)

lemma keeps_on_schedules:
  "(\<And>db. schedule_keys_wf XS db \<Longrightarrow> schedule_keys_wf XS (g db)) \<Longrightarrow> (\<And>v. keeps (node_inv s0 bc) (k v)) \<Longrightarrow> keeps (node_inv s0 bc) (locked l (on_schedules g) k)"
  by (rule keeps_sched) (auto simp: on_schedules_def)

lemma keeps_close_epoch: "keeps (node_inv s0 bc) (close_epoch_proc N ts_now tick)"
proof -
  have del: "reaches s0 bc fl b \<Longrightarrow> reaches s0 bc fl (fold (\<lambda>c b. blo_remove (xe_backlog X) b (order_self_ref (xe_lib X) c)) cs b)" for fl b cs
    using reaches_removes [of s0 bc fl b "order_self_ref (xe_lib X)" cs] by (simp add: service_ops)
  show ?thesis unfolding close_epoch_proc_def Let_def executor_env
    by (auto simp: on_exec_def node_inv_books books_def del schedule_ops_wf intro!: keeps_act keeps_on_schedules)
qed

lemma keeps_scheduler: "keeps (node_inv s0 bc) (scheduler_proc N ts_peek height_now ts_now)"
  unfolding scheduler_proc_def Let_def
  by (auto simp: schedule_ops_wf intro!: keeps_topic keeps_read keeps_close_epoch keeps_put_orders keeps_on_schedules split: option.split)

definition "handler_keeps q \<longleftrightarrow> (\<forall>s0 bc ev k. (\<forall>ret. keeps (node_inv s0 bc) (k ret)) \<longrightarrow> keeps (node_inv s0 bc) (q ev k))"

lemma keeps_consume_pools: "(\<And>c. keeps (node_inv s0 bc) (k c)) \<Longrightarrow> keeps (node_inv s0 bc) (consume_pools_proc N is c k)"
  by (induction "is" arbitrary: c) (auto intro: keeps_read)

lemma keeps_eliminate_orders: "(\<And>b. keeps (node_inv s0 bc) (k b)) \<Longrightarrow> keeps (node_inv s0 bc) (eliminate_orders_proc N is b k)"
  by (induction "is" arbitrary: b) (auto intro!: keeps_read keeps_topic)

lemma keeps_schedule_pool: "(\<And>v. keeps (node_inv s0 bc) (k v)) \<Longrightarrow> keeps (node_inv s0 bc) (locked l (schedule_pool_op N pool) k)"
  by (rule keeps_sched) (auto simp: schedule_pool_op_def schedules_env dest: schedule_pool_wf)

lemma keeps_schedule_outputs: "(\<And>b. keeps (node_inv s0 bc) (k b)) \<Longrightarrow> keeps (node_inv s0 bc) (schedule_outputs_proc N bs b k)"
  by (induction bs arbitrary: b) (auto intro!: keeps_schedule_pool split: option.split)

lemma keeps_schedule_inputs: "(\<And>b. keeps (node_inv s0 bc) (k b)) \<Longrightarrow> keeps (node_inv s0 bc) (schedule_inputs_proc N is b k)"
  by (induction "is" arbitrary: b) (auto simp: read_exec_def intro!: keeps_topic keeps_schedule_pool split: option.split)

lemma keeps_program_outputs: "(\<And>b. keeps (node_inv s0 bc) (k b)) \<Longrightarrow> keeps (node_inv s0 bc) (program_outputs_proc N bs b k)"
  by (induction bs arbitrary: b) (auto simp: Let_def intro!: keeps_topic split: option.split prod.split_asm)

lemma keeps_order_han: "(\<And>ret. keeps (node_inv s0 bc) (k ret)) \<Longrightarrow> keeps (node_inv s0 bc) (order_han_proc N rd ev k)"
  by (cases ev) (auto intro!: keeps_eliminate_orders keeps_topic)

lemma keeps_funding_han: "(\<And>ret. keeps (node_inv s0 bc) (k ret)) \<Longrightarrow> keeps (node_inv s0 bc) (funding_han_proc N ev k)"
  by (cases ev) (auto simp: Let_def intro!: keeps_topic)

lemma keeps_schedule_han: "(\<And>ret. keeps (node_inv s0 bc) (k ret)) \<Longrightarrow> keeps (node_inv s0 bc) (schedule_han_proc N ev k)"
  by (cases ev) (auto intro!: keeps_schedule_outputs keeps_schedule_inputs)

lemma keeps_program_han: "(\<And>ret. keeps (node_inv s0 bc) (k ret)) \<Longrightarrow> keeps (node_inv s0 bc) (program_han_proc N ev k)"
  by (cases ev) (auto intro!: keeps_program_outputs)

lemma keeps_handlers: "list_all handler_keeps (node_handler_procs N rd)"
  unfolding node_handler_procs_def handler_keeps_def pool_han_proc_def bundle_han_proc_def Let_def
  by (auto intro!: keeps_consume_pools keeps_topic keeps_read keeps_order_han keeps_funding_han keeps_schedule_han keeps_program_han)

lemma keeps_try_handlers:
  "list_all handler_keeps qs \<Longrightarrow> (\<And>u. keeps (node_inv s0 bc) (k u)) \<Longrightarrow> keeps (node_inv s0 bc) (try_handlers_proc qs ev u k)"
  by (induction qs arbitrary: u) (simp_all add: handler_keeps_def)

lemma keeps_event: "keeps (node_inv s0 bc) (event_proc N rd ev)"
  unfolding event_proc_def
  by (auto simp: noop_handle_def intro!: keeps_try_handlers keeps_handlers keeps_topic split: option.split)

lemma keeps_tip: "keeps (node_inv s0 bc) tip_proc"
  unfolding tip_proc_def by (rule keeps_topic) auto

lemma elements_keep: "p \<in> node_elements N i \<Longrightarrow> keeps (node_inv s0 bc) p"
  by (cases i) (auto simp: keeps_event keeps_executor keeps_updates keeps_scheduler keeps_tip)

section \<open>Streams that do not panic\<close>

lemma safe_op: "(\<And>x. f x \<noteq> None) \<Longrightarrow> never_panics J p \<Longrightarrow> never_panics J (exec_op l f p)"
  unfolding exec_op_def by (rule never_panics_locked) (auto simp: on_exec_def)

lemma safe_read: "(\<And>v. never_panics J (k v)) \<Longrightarrow> never_panics J (locked l (read_exec (\<lambda>x. Some (g x))) k)"
  by (rule never_panics_locked) (simp add: read_exec_def)

lemma safe_act: "(\<And>s. f s \<noteq> None) \<Longrightarrow> (\<And>v. never_panics J (k v)) \<Longrightarrow> never_panics J (act f k)"
  by (rule never_panics_act) fastforce

lemma safe_updates:
  "never_panics (node_inv s0 bc) (pool_proc N)" "never_panics (node_inv s0 bc) (bundle_proc N)" "never_panics (node_inv s0 bc) (funding_proc N)"
  "never_panics (node_inv s0 bc) (order_proc N)"
  unfolding pool_proc_def bundle_proc_def funding_proc_def order_proc_def Let_def
  by (auto simp: read_exec_def intro!: safe_act safe_op safe_read split: option.split list.split)

lemma safe_put_orders: "never_panics J p \<Longrightarrow> never_panics J (put_orders_proc N ts_now cs p)"
  by (induction cs) (auto intro!: safe_op)

lemma safe_on_schedules: "(\<And>v. never_panics J (k v)) \<Longrightarrow> never_panics J (locked l (on_schedules g) k)"
  by (rule never_panics_locked) (simp add: on_schedules_def)

lemma safe_close_epoch: "never_panics J (close_epoch_proc N ts_now tick)"
  unfolding close_epoch_proc_def Let_def by (auto simp: on_exec_def intro!: safe_act safe_on_schedules)

lemma select_total: "node_inv s0 bc P s \<Longrightarrow> \<exists>r. bro_select (xe_bundles (ne_executor N)) (xs_bundles (ns_executor s)) p e = Some r"
  using bundles.select_exact [of "xs_bundles (ns_executor s)" p e] by (auto simp: node_inv_def executor_env bundles_env bundle_repo_rocksdb_def)

lemma safe_select:
  "(\<And>v. never_panics (node_inv s0 bc) (k v)) \<Longrightarrow>
    never_panics (node_inv s0 bc) (locked l (read_exec (\<lambda>x. bro_select (xe_bundles (ne_executor N)) (xs_bundles x) p e)) k)"
  by (rule never_panics_locked) (auto simp: read_exec_def dest!: select_total [of s0 bc _ _ p e])

lemma safe_peek: "(\<And>v. never_panics J (k v)) \<Longrightarrow> never_panics J (locked l (\<lambda>st. Some (g st, st)) k)"
  by (rule never_panics_locked) simp

lemma safe_scheduler: "never_panics (node_inv s0 bc) (scheduler_proc N ts_peek height_now ts_now)"
  unfolding scheduler_proc_def Let_def
  by (auto intro!: safe_act safe_peek safe_select safe_close_epoch safe_put_orders safe_on_schedules split: option.split)

lemma elements_safe: "i \<in> - {Events_stream, Executor_stream} \<Longrightarrow> p \<in> node_elements N i \<Longrightarrow> never_panics (node_inv s0 bc) p"
  by (cases i) (auto simp: safe_updates safe_scheduler)

lemma streams_of_node: "streams_inv lock_rank (node_elements N) (node_inv s0 bc) (- {Events_stream, Executor_stream})"
  by unfold_locales (fact elements_disciplined, fact elements_keep, fact elements_safe)

lemma books_of_inv:
  assumes "node_inv s0 bc P st" "ok s0"
  shows "\<forall>i. backlog_exists E (xs_backlog (ns_executor st)) i \<longrightarrow> i \<in> tracked E (xs_backlog (ns_executor st)) \<union> be_ref E ` P"
proof -
  obtain fl where fl: "fl \<subseteq> be_ref E ` P" "backlog_reach E s0 bc (xs_backlog (ns_executor st), fl)"
    using assms(1) unfolding node_inv_def reaches_def by blast
  have t: "ok (bl_store (xs_backlog (ns_executor st)))" "dom (content (bl_store (xs_backlog (ns_executor st)))) \<subseteq> tracked E (xs_backlog (ns_executor st)) \<union> fl"
    using reach_tracked [OF assms(2) fl(2)] by simp_all
  then show ?thesis using fl(1) exists_iff [OF t(1)] by (auto simp: backlog_exists_def)
qed

end

sublocale lm_node \<subseteq> running: streams_inv lock_rank "node_elements N" "node_inv s0 bc" "- {Events_stream, Executor_stream}" for s0 bc
  by (rule streams_of_node)

section \<open>Instance\<close>

lemma sample_node_starts:
  "xs_backlog (ns_executor sample_node_state) = backlog_new order_env RBT.empty \<lparr> order_lifespan = 100, order_exec_time = 10, retry_suspended_prob = 5 \<rparr>"
  "repo_wf (xe_pools sample_executor) (xs_pools (ns_executor sample_node_state))"
  "bundle_index_wf sample_bundles (xs_bundles (ns_executor sample_node_state))" "schedule_keys_wf sample_schedules (ns_schedules sample_node_state)"
proof -
  have "repo_wf sample_pools RBT.empty" by (simp add: repo_wf_def sample_pools_def get_state_def mem_rocksdb_def)
  then show "repo_wf (xe_pools sample_executor) (xs_pools (ns_executor sample_node_state))"
    using sample_pools.repo_wf_put_confirmed by (simp add: sample_node_state_def sample_executor_state_def sample_executor_def)
qed (simp_all add: sample_node_state_def sample_executor_state_def no_bundles no_schedules)

section \<open>Properties\<close>

text \<open>C6: The node keeps its books between any two actions of its streams.  Wherever one stream overtakes another, in the
  middle of an attempt of the executor too, each stored order waits in a queue of the backlog or has been acquired by the
  executor; the pools, the index of the bundles and the keys of the schedules are well-formed; and the streams of
  updates and the scheduler never panic at their next action.\<close>

theorem interleaved_node_keeps_books:
  assumes "lm_node E content ok X XS XB N" "streams_run (node_elements N) (quiet st0) P c"
    and "xs_backlog (ns_executor st0) = backlog_new E s0 bc" "ok s0"
    and "repo_wf (xe_pools X) (xs_pools (ns_executor st0))" "bundle_index_wf XB (xs_bundles (ns_executor st0))" "schedule_keys_wf XS (ns_schedules st0)"
  shows "(\<forall>i. backlog_exists E (xs_backlog (ns_executor (sh_state c))) i \<longrightarrow> i \<in> tracked E (xs_backlog (ns_executor (sh_state c))) \<union> be_ref E ` P) \<and>
    repo_wf (xe_pools X) (xs_pools (ns_executor (sh_state c))) \<and> bundle_index_wf XB (xs_bundles (ns_executor (sh_state c))) \<and>
    schedule_keys_wf XS (ns_schedules (sh_state c)) \<and>
    (\<forall>i f. i \<notin> {Events_stream, Executor_stream} \<longrightarrow> sh_procs c i = Act f \<longrightarrow> f (sh_state c) \<noteq> None)"
proof -
  have ex: "executor E content ok X" using assms(1) by (rule lm_node.axioms(1))
  then have b: "backlog E content ok" by (rule executor.axioms(1))
  have "backlog_reach E s0 bc (xs_backlog (ns_executor st0), {})" unfolding assms(3) by (rule backlog_reach.start)
  then have start: "lm_node.node_inv E X XS XB s0 bc {} st0"
    using assms(5-7) unfolding lm_node.node_inv_def [OF assms(1)] executor.reaches_def [OF ex] by blast
  have all: "streams_inv.procs_inv (lm_node.node_inv E X XS XB s0 bc) (- {Events_stream, Executor_stream}) P c"
    using streams_inv.inv_run [OF lm_node.streams_of_node [OF assms(1)] assms(2) streams_inv.inv_quiet [OF lm_node.streams_of_node [OF assms(1)] start]] by simp
  note inv = all [unfolded streams_inv.procs_inv_def [OF lm_node.streams_of_node [OF assms(1)]], THEN conjunct1]
  have safe: "f (sh_state c) \<noteq> None" if "i \<notin> {Events_stream, Executor_stream}" "sh_procs c i = Act f" for i f
    using streams_inv.safe_goes_on [OF lm_node.streams_of_node [OF assms(1)] all _ that(2)] that(1) by simp
  show ?thesis
    using lm_node.books_of_inv [OF assms(1) inv assms(4)] inv safe unfolding lm_node.node_inv_def [OF assms(1)] by blast
qed

text \<open>C8: The node whose streams are never overtaken in the middle of an element is one way of running the interleaved node:
  each process run on its own does what the step of its stream does.\<close>

theorem atomic_steps_are_runs:
  assumes "node_reach N st0 P st"
  shows "streams_run (node_elements N) (quiet st0) P (quiet st)"
  using assms
proof (induction rule: node_reach.induct)
  case at_start
  show ?case by (rule streams_run.none)
next
  case (after_step P st acq st')
  have "streams_run (node_elements N) (quiet st) (set_option acq) (quiet st')"
    using after_step.hyps(2)
  proof cases
    case (on_event rd ev)
    then show ?thesis by (intro alone_quiet [of "event_proc N rd ev" _ _ _ lock_rank _ Events_stream]) (auto simp: run_event disc_event)
  next
    case (on_executor rd)
    then show ?thesis by (intro alone_quiet [of "executor_proc N rd" _ _ _ lock_rank _ Executor_stream]) (auto simp: run_executor disc_executor)
  next
    case on_pool
    then show ?thesis by (intro alone_quiet [of "pool_proc N" _ _ _ lock_rank _ Pools_stream]) (auto simp: run_pool disc_updates)
  next
    case on_order
    then show ?thesis by (intro alone_quiet [of "order_proc N" _ _ _ lock_rank _ Orders_stream]) (auto simp: run_order_stream disc_updates)
  next
    case on_bundle
    then show ?thesis by (intro alone_quiet [of "bundle_proc N" _ _ _ lock_rank _ Bundles_stream]) (auto simp: run_bundle disc_updates)
  next
    case on_funding
    then show ?thesis by (intro alone_quiet [of "funding_proc N" _ _ _ lock_rank _ Funding_stream]) (auto simp: run_funding disc_updates)
  next
    case (on_scheduler ts_peek height_now ts_now)
    then show ?thesis by (intro alone_quiet [of "scheduler_proc N ts_peek height_now ts_now" _ _ _ lock_rank _ Scheduler_stream]) (auto simp: run_scheduler disc_scheduler)
  next
    case on_tip
    then show ?thesis by (intro alone_quiet [of tip_proc _ _ _ lock_rank _ Events_stream]) (auto simp: tip_proc_def disc_act)
  qed
  from run_trans [OF this after_step.IH] show ?case .
qed

text \<open>C7: The node never deadlocks.  In every state of the interleaved node a lock has one holder; as long as an
  element is in progress some stream can go on, unless an action panics; the streams cannot go on for ever without
  beginning new elements; so everything in progress can be brought to its end.\<close>

theorem node_never_deadlocks:
  assumes "streams_run (node_elements N) (quiet st0) P c"
  shows "(\<forall>i j. i \<noteq> j \<longrightarrow> sh_held c i \<inter> sh_held c j = {}) \<and>
    (\<not> all_done c \<and> \<not> panicked c \<longrightarrow> (\<exists>ls c'. advance c ls c')) \<and>
    (\<nexists>g. g 0 = c \<and> (\<forall>n. \<exists>ls. advance (g n) ls (g (Suc n)))) \<and>
    (\<exists>P' c'. streams_run (\<lambda>_. {}) c P' c' \<and> (all_done c' \<or> panicked c'))"
proof (intro conjI)
  have wf: "node_streams.locks_wf c" by (rule node_streams.locks_wf_run [OF assms node_streams.locks_wf_quiet])
  then show "\<forall>i j. i \<noteq> j \<longrightarrow> sh_held c i \<inter> sh_held c j = {}" by (simp add: node_streams.locks_wf_def)
  show "\<not> all_done c \<and> \<not> panicked c \<longrightarrow> (\<exists>ls c'. advance c ls c')" using node_streams.no_deadlock [OF wf] by blast
  show "\<nexists>g. g 0 = c \<and> (\<forall>n. \<exists>ls. advance (g n) ls (g (Suc n)))"
    using wf_advance [unfolded wf_iff_no_infinite_down_chain] by blast
  show "\<exists>P' c'. streams_run (\<lambda>_. {}) c P' c' \<and> (all_done c' \<or> panicked c')" by (rule node_streams.drains [OF wf])
qed

text \<open>The stream of the pools in the middle of an element: it has taken the update from its topic and holds the pools.\<close>

lemma sample_in_progress:
  obtains c f where "streams_run (node_elements sample_node) (quiet sample_node_state) {} c" "sh_held c = (\<lambda>_. {})(Pools_stream := {Pools_lock})"
    "sh_procs c = (\<lambda>_. Done)(Pools_stream := Act f)"
proof -
  let ?E = "node_elements sample_node" and ?c0 = "quiet sample_node_state :: (_, _, _, _, _, _) node_streams_state"
  let ?c1 = "?c0 \<lparr> sh_procs := (sh_procs ?c0)(Pools_stream := pool_proc sample_node) \<rparr>"
  have s1: "streams_step ?E ?c0 {} ?c1" by (rule streams_step.begins) (simp_all add: quiet_def)
  obtain s p where a: "pool_proc sample_node = Act s" "s sample_node_state = Some ({}, sample_node_state \<lparr> ns_pool_topic := [] \<rparr>, Acquire Pools_lock (Act p))"
    unfolding pool_proc_def act_def exec_op_def locked_def by (simp add: sample_node_state_def)
  let ?c2 = "?c1 \<lparr> sh_state := sample_node_state \<lparr> ns_pool_topic := [] \<rparr>, sh_procs := (sh_procs ?c1)(Pools_stream := Acquire Pools_lock (Act p)) \<rparr>"
  have s2: "streams_step ?E ?c1 {} ?c2" by (rule streams_step.goes_on, rule advance.action [of _ Pools_stream s]) (simp_all add: a quiet_def)
  let ?c3 = "?c2 \<lparr> sh_procs := (sh_procs ?c2)(Pools_stream := Act p), sh_held := (sh_held ?c2)(Pools_stream := insert Pools_lock (sh_held ?c2 Pools_stream)) \<rparr>"
  have s3: "streams_step ?E ?c2 {} ?c3" by (rule streams_step.goes_on, rule advance.lock) (simp_all add: quiet_def)
  have "streams_run ?E ?c0 {} ?c3" using streams_run.more [OF streams_run.more [OF streams_run.more [OF streams_run.none s1] s2] s3] by simp
  then show thesis by (rule that [of _ p]) (simp_all add: quiet_def fun_eq_iff)
qed

theorem interleaved_node_keeps_books_witness:
  "\<exists>c f. streams_run (node_elements sample_node) (quiet sample_node_state) {} c \<and> sh_held c Pools_stream = {Pools_lock} \<and>
     repo_wf sample_pools (xs_pools (ns_executor (sh_state c))) \<and> sh_procs c Pools_stream = Act f \<and> f (sh_state c) \<noteq> None"
proof -
  obtain c f where c: "streams_run (node_elements sample_node) (quiet sample_node_state) {} c" "sh_held c = (\<lambda>_. {})(Pools_stream := {Pools_lock})"
    "sh_procs c = (\<lambda>_. Done)(Pools_stream := Act f)" by (rule sample_in_progress)
  note start = sample_node_starts
  have "xe_pools sample_executor = sample_pools" by (simp add: sample_executor_def)
  then show ?thesis
    using c interleaved_node_keeps_books [OF sample_node.lm_node_axioms c(1) start(1) sample_backlog_ok(1) start(2-4)]
    by (intro exI [of _ c] exI [of _ f]) auto
qed

theorem atomic_steps_are_runs_witness:
  "streams_run (node_elements sample_node) (quiet sample_node_state) {} (quiet (pool_update_step sample_node (sample_node_state \<lparr> ns_tip_reached := True \<rparr>)))"
proof -
  have "node_reach sample_node sample_node_state {} (pool_update_step sample_node (sample_node_state \<lparr> ns_tip_reached := True \<rparr>))"
    using node_reach.after_step [OF node_reach.after_step [OF node_reach.at_start node_step.on_tip] node_step.on_pool] by simp
  from atomic_steps_are_runs [OF this] show ?thesis .
qed

theorem node_never_deadlocks_witness:
  "\<exists>c. streams_run (node_elements sample_node) (quiet sample_node_state) {} c \<and> \<not> all_done c \<and> sh_held c Pools_stream = {Pools_lock} \<and>
     (\<exists>P' c'. streams_run (\<lambda>_. {}) c P' c' \<and> (all_done c' \<or> panicked c'))"
proof -
  obtain c f where c: "streams_run (node_elements sample_node) (quiet sample_node_state) {} c" "sh_held c = (\<lambda>_. {})(Pools_stream := {Pools_lock})"
    "sh_procs c = (\<lambda>_. Done)(Pools_stream := Act f)" by (rule sample_in_progress)
  then have "\<not> all_done c" "sh_held c Pools_stream = {Pools_lock}" by (auto simp: all_done_def intro!: exI [of _ Pools_stream])
  then show ?thesis using c(1) node_never_deadlocks [OF c(1)] by blast
qed

end
