(* ===== verification/LM_Types.thy ===== *)
theory LM_Types
  imports LM_System
begin

text \<open>
  The kinds of the tokens and the identity of a pool and of its outstanding bundles along the steps of \<open>LM_System\<close>.
\<close>

section \<open>Tokens and identity\<close>

text \<open>The identity, the configuration and the kinds of tokens of a pool, and the bundles that belong to it.\<close>

definition pool_types :: "pool \<Rightarrow> pool_id \<times> program_config \<times> token_id list" where
  "pool_types p = (pl_pool_id p, conf p, map asset_id [budget_rem p, reserves_lq p, reserves_vlq p, reserves_tmp p])"

definition belongs :: "pool \<Rightarrow> staking_bundle \<Rightarrow> bool" where
  "belongs p b \<longleftrightarrow> sb_pool_id b = pl_pool_id p \<and> asset_id (sb_vlq b) = asset_id (reserves_vlq p) \<and>
    (\<forall>t. sb_tmp b = Some t \<longrightarrow> asset_id t = asset_id (reserves_tmp p))"

definition well_typed :: "lm_state \<Rightarrow> bool" where
  "well_typed s \<longleftrightarrow> (\<forall>b\<in>#lm_bundles s. belongs (lm_pool s) b)"

lemma belongs_cong: "pool_types p = pool_types q \<Longrightarrow> belongs p = belongs q"
  by (simp add: pool_types_def belongs_def fun_eq_iff)

lemma distribute_step_types:
  "distribute_step p er b np cost = Some (Inr (np', cost', b', out)) \<Longrightarrow>
   pool_types np' = pool_types np \<and> (belongs q b \<longrightarrow> belongs q b')"
  by (auto simp: distribute_step_def bind_eq_Some_conv Let_def pool_types_def belongs_def split: if_split_asm option.split_asm)

lemma distribute_loop_types:
  "distribute_loop p er bs np cost = Some (Inr (np', cost', bs', outs)) \<Longrightarrow>
   pool_types np' = pool_types np \<and> (list_all (belongs q) bs \<longrightarrow> list_all (belongs q) bs')"
proof (induction bs arbitrary: np cost bs' outs)
  case (Cons b bs)
  from Cons.prems obtain np1 c1 b1 o1 bs1 outs1 where s: "distribute_step p er b np cost = Some (Inr (np1, c1, b1, o1))"
    "distribute_loop p er bs np1 c1 = Some (Inr (np', cost', bs1, outs1))" "bs' = b1 # bs1"
    by (rule distribute_loop_ConsE)
  show ?case using Cons.IH [OF s(2)] distribute_step_types [OF s(1), of q] s(3) by simp
qed simp

lemma deposit_types:
  assumes "deposit_try_run E (AsBox ob d) (AsBox pb p) td ctx = Some (Inr (tx, Predicted (AsBox pb' p'), Predicted (AsBox bb b)))"
  shows "pool_types p' = pool_types p" "belongs p b"
proof -
  from assms obtain bp u e m where run: "apply_deposit p d td ctx = Some (Inr (p', bp, u, e, m))" and b: "b = bundle_finalize bp (box_id bb)"
    by (rule deposit_try_run_InrD)
  show "pool_types p' = pool_types p" by (rule apply_deposit_InrD [OF run]) (simp add: pool_types_def)
  show "belongs p b" by (rule apply_deposit_InrD [OF run]) (simp add: belongs_def b bundle_finalize_def)
qed

lemma redeem_types:
  assumes "redeem_try_run E (AsBox ob r) (AsBox pb p) (AsBox bb b) ctx = Some (Inr (tx, Predicted (AsBox pb' p'), x))"
  shows "pool_types p' = pool_types p"
proof -
  from assms obtain u e m where run: "apply_redeem p r b ctx = Some (Inr (p', u, e, m))" by (rule redeem_try_run_InrD)
  show ?thesis by (simp add: apply_redeem_InrD(3) [OF run] pool_types_def split: option.split)
qed

lemma compound_types:
  assumes "compound_try_run E c (AsBox pb p) (bundles, f, fs) ctx = Some (Inr (tx, Predicted (AsBox pb' p'), (bs', nfb)))"
  shows "pool_types p' = pool_types p" "list_all (belongs p) (map as_val bundles) \<Longrightarrow> list_all (belongs p) (map (as_val \<circ> the_predicted) bs')"
proof -
  obtain er np cost ix nb rw ids where c: "distribute_loop p er (map as_val bundles) p 0 = Some (Inr (np, cost, nb, rw))"
    "p' = np \<lparr> pl_epoch_ix := Some ix \<rparr>" "length ids = length nb" "map (as_val \<circ> the_predicted) bs' = restate nb ids"
    using compound_parts [OF assms] .
  note t = distribute_loop_types [OF c(1), of p]
  show "pool_types p' = pool_types p" using t by (simp add: c(2) pool_types_def)
  show "list_all (belongs p) (map (as_val \<circ> the_predicted) bs')" if "list_all (belongs p) (map as_val bundles)"
    unfolding c(4) using t that by (subst restate_all) (simp_all add: c(3) belongs_def)
qed

lemma step_types: "lm_step E s s' \<Longrightarrow> well_typed s \<Longrightarrow> well_typed s' \<and> pool_types (lm_pool s') = pool_types (lm_pool s)"
proof (induction rule: lm_step.induct)
  case (step_deposit ob d pb p td ctx tx pb' p' bb b M)
  then show ?case using deposit_types [OF step_deposit.hyps(1)] belongs_cong [of p' p] by (simp add: well_typed_def)
next
  case (step_redeem ob r pb p bb b ctx tx pb' p' M)
  then show ?case using redeem_types [OF step_redeem.hyps(1)] belongs_cong [of p' p] by (simp add: well_typed_def)
next
  case (step_compound c pb p bundles f fs ctx tx pb' p' bs' nfb M)
  then show ?case using compound_types [OF step_compound.hyps(1)] belongs_cong [of p' p] by (auto simp: well_typed_def list_all_iff)
qed

text \<open>C15: whatever orders run against a pool, it keeps its identity, its program and the kinds of its tokens, and every
  outstanding bundle, those of new deposits included, is a bundle of this pool with virtual-liquidity and temporal tokens of the pool's kinds.\<close>

theorem pool_types_kept:
  assumes "(lm_step E)\<^sup>*\<^sup>* s s'" "well_typed s"
  shows "well_typed s' \<and> pool_types (lm_pool s') = pool_types (lm_pool s)"
  using assms by (induction rule: rtranclp_induct) (auto dest: step_types)

lemma staked_well_typed: "well_typed \<lparr> lm_pool = staked_pool, lm_bundles = mset [sample_bundle] + {#} \<rparr>"
  by (simp add: well_typed_def belongs_def sample_bundle_def staked_pool_def sample_pool_def)

theorem pool_types_kept_witness:
  "\<exists>s'. lm_step sample_lib \<lparr> lm_pool = staked_pool, lm_bundles = mset [sample_bundle] + {#} \<rparr> s' \<and> well_typed s' \<and>
    pool_types (lm_pool s') = pool_types staked_pool"
proof -
  obtain tx pb' bs' nfb where run: "compound_try_run sample_lib sample_compound (AsBox (sample_box 1) staked_pool)
     ([AsBox (sample_box 2) sample_bundle], AsBox (sample_box 3) sample_funding, []) sample_ctx
     = Some (Inr (tx, Predicted (AsBox pb' rewarded_pool), (bs', nfb)))"
    using sample_compound_run by blast
  from step_compound [OF run, of "{#}"] obtain s' where
    s: "lm_step sample_lib \<lparr> lm_pool = staked_pool, lm_bundles = mset [sample_bundle] + {#} \<rparr> s'" by auto
  from pool_types_kept [OF r_into_rtranclp [of "lm_step sample_lib", OF s] staked_well_typed] s show ?thesis by auto
qed

text \<open>
  A deposit is credited whatever its token: no branch of \<open>apply_deposit\<close> compares it with the token of the pool's
  liquidity, which the contract of the pool leaves to the validation on the chain.
\<close>

lemma deposit_token_unchecked: "apply_deposit p (d \<lparr> dep_lq := typed_amount i (amount (dep_lq d)) \<rparr>) td ctx = apply_deposit p d td ctx"
  by (simp add: apply_deposit_def asset_add_def Let_def cong: if_cong)

end
