(* ===== verification/Prover.thy ===== *)
theory Prover
  imports Ergo
begin

text \<open>
  Signing transactions, \<open>spectrum-offchain-lm/src/prover.rs\<close>.  The wallet proves the inputs that pay to a public key and passes
  the others with an empty proof.  The transaction context, the recognition of addresses and the prover itself are
  of \<open>ergo-lib\<close> and are parameters; of a proof only the context extension it carries is kept, since inputs are
  modelled without their proofs.
\<close>

section \<open>Failing and panicking computations\<close>

text \<open>The operator \<open>?\<close> of a function that returns a \<open>Result\<close> and may panic.\<close>

definition try_bind :: "('e + 'a) panics \<Rightarrow> ('a \<Rightarrow> ('e + 'b) panics) \<Rightarrow> ('e + 'b) panics" where
  "try_bind m f = Option.bind m (\<lambda>r. case r of Inl e \<Rightarrow> Some (Inl e) | Inr x \<Rightarrow> f x)"

lemma try_bind_simps [simp]:
  "try_bind None f = None" "try_bind (Some (Inl e)) f = Some (Inl e)" "try_bind (Some (Inr x)) f = f x"
  by (simp_all add: try_bind_def)

lemma try_bind_Inr: "try_bind m f = Some (Inr y) \<longleftrightarrow> (\<exists>x. m = Some (Inr x) \<and> f x = Some (Inr y))"
  by (auto simp: try_bind_def split: bind_split sum.split)

definition map_err :: "('e \<Rightarrow> 'f) \<Rightarrow> 'e + 'a \<Rightarrow> 'f + 'a" where
  "map_err g r = (case r of Inl e \<Rightarrow> Inl (g e) | Inr x \<Rightarrow> Inr x)"

lemma map_err_Inr [simp]: "map_err g r = Inr x \<longleftrightarrow> r = Inr x"
  by (cases r) (simp_all add: map_err_def)

section \<open>The wallet\<close>

text \<open>
  A wallet holds secrets and a state context, which the code fills with an arbitrary value: it is enough for inputs that pay
  to a public key.  The derivation of a key from a seed phrase and the address of a key are parameters.
\<close>

record ('k, 'c) wallet =
  wl_secrets :: "'k list"
  wl_state_context :: 'c

definition wallet_from_seed :: "(string \<Rightarrow> string + 'x) \<Rightarrow> ('x \<Rightarrow> 'k option) \<Rightarrow> ('x \<Rightarrow> 'a) \<Rightarrow> 'c \<Rightarrow> string \<Rightarrow> (('k, 'c) wallet \<times> 'a) option" where
  "wallet_from_seed derive_master dlog_secret_key p2pk any_val seed = (case derive_master seed of
      Inl _ \<Rightarrow> None
    | Inr sk \<Rightarrow> (case dlog_secret_key sk of
        Some dpi \<Rightarrow> Some (\<lparr> wl_secrets = [dpi], wl_state_context = any_val \<rparr>, p2pk sk)
      | None \<Rightarrow> None))"

definition wallet_trivial :: "'c \<Rightarrow> 'k list \<Rightarrow> ('k, 'c) wallet" where
  "wallet_trivial any_val secrets = \<lparr> wl_secrets = secrets, wl_state_context = any_val \<rparr>"

definition wallet_append_secret :: "'k \<Rightarrow> ('k, 'c) wallet \<Rightarrow> ('k, 'c) wallet" where
  "wallet_append_secret input w = w \<lparr> wl_secrets := wl_secrets w @ [input] \<rparr>"

section \<open>Signing\<close>

type_synonym signing_error = string

record prover_env =
  pv_lib :: ergo_lib
  pv_context_new :: "transaction_candidate \<Rightarrow> signing_error + unit"
  pv_bytes_to_sign :: "transaction_candidate \<Rightarrow> signing_error + bytes"
  pv_get_input_box :: "transaction_candidate \<Rightarrow> box_id \<Rightarrow> ergo_box option"
  pv_is_p2pk :: "ergo_tree \<Rightarrow> bool panics"
  pv_make_context :: "transaction_candidate \<Rightarrow> nat \<Rightarrow> signing_error + unit"
  pv_prove :: "ergo_tree \<Rightarrow> transaction_candidate \<Rightarrow> nat \<Rightarrow> bytes \<Rightarrow> signing_error + context_ext"
  pv_transaction_new :: "tx_input list \<Rightarrow> transaction_candidate \<Rightarrow> signing_error + unit"

definition sign_input :: "prover_env \<Rightarrow> transaction_candidate \<Rightarrow> bytes \<Rightarrow> nat \<Rightarrow> tx_input \<Rightarrow> (signing_error + tx_input) panics" where
  "sign_input W tc message_to_sign idx input = (case pv_get_input_box W tc (in_box input) of
      None \<Rightarrow> Some (Inl ''InputBoxNotFound'')
    | Some input_box \<Rightarrow> do {
        p2pk \<leftarrow> pv_is_p2pk W (bx_tree input_box);
        if p2pk
        then try_bind (Some (pv_make_context W tc idx)) (\<lambda>_.
             try_bind (Some (pv_prove W (bx_tree input_box) tc idx message_to_sign)) (\<lambda>ext.
             Some (Inr \<lparr> in_box = in_box input, in_ext = ext \<rparr>)))
        else Some (Inr \<lparr> in_box = box_id input_box, in_ext = in_ext input \<rparr>) })"

fun sign_inputs :: "prover_env \<Rightarrow> transaction_candidate \<Rightarrow> bytes \<Rightarrow> nat \<Rightarrow> tx_input list \<Rightarrow> (signing_error + tx_input list) panics" where
  "sign_inputs W tc msg idx [] = Some (Inr [])"
| "sign_inputs W tc msg idx (i # is) =
     try_bind (sign_input W tc msg idx i) (\<lambda>i. try_bind (sign_inputs W tc msg (Suc idx) is) (\<lambda>is. Some (Inr (i # is))))"

text \<open>An empty list of data inputs is none.\<close>

definition wallet_sign :: "prover_env \<Rightarrow> transaction_candidate \<Rightarrow> (signing_error + transaction) panics" where
  "wallet_sign W tc = do {
     unsigned_inputs \<leftarrow> tx_io_vec (pv_lib W) (map (\<lambda>(bx, ext). \<lparr> in_box = box_id bx, in_ext = ext \<rparr>) (tc_inputs tc));
     output_candidates \<leftarrow> tx_io_vec (pv_lib W) (tc_outputs tc);
     let data_inputs = (case tc_data_inputs tc of Some (b # bs) \<Rightarrow> Some (map box_id (b # bs)) | _ \<Rightarrow> None);
     try_bind (Some (pv_context_new W tc)) (\<lambda>_.
     try_bind (Some (pv_bytes_to_sign W tc)) (\<lambda>message_to_sign.
     try_bind (sign_inputs W tc message_to_sign 0 unsigned_inputs) (\<lambda>signed_inputs.
     try_bind (Some (pv_transaction_new W signed_inputs tc)) (\<lambda>_.
     Some (Inr (transaction_new (pv_lib W) signed_inputs data_inputs output_candidates)))))) }"

definition noop_sign :: "ergo_lib \<Rightarrow> transaction_candidate \<Rightarrow> (signing_error + transaction) panics" where
  "noop_sign E tc = Some (Inr (into_tx_without_proofs E tc))"

section \<open>What signing keeps\<close>

text \<open>What a client needs of a prover: a signed transaction spends the boxes and has the outputs of the candidate.\<close>

locale signer =
  fixes E :: ergo_lib and sign :: "transaction_candidate \<Rightarrow> (signing_error + transaction) panics"
  assumes sign_tx: "sign tc = Some (Inr tx) \<Longrightarrow> \<exists>ins dins. map in_box ins = map (box_id \<circ> fst) (tc_inputs tc) \<and> tx = transaction_new E ins dins (tc_outputs tc)"
begin

lemma sign_inputs_kept: "sign tc = Some (Inr tx) \<Longrightarrow> map in_box (tx_inputs tx) = map (box_id \<circ> fst) (tc_inputs tc)"
  using sign_tx by (fastforce simp: transaction_new_def Let_def)

lemma sign_outputs: "sign tc = Some (Inr tx) \<Longrightarrow> length (tx_outputs tx) = length (tc_outputs tc) \<and>
    (\<forall>i < length (tc_outputs tc). \<exists>b. tx_outputs tx ! i = box_of_candidate (tc_outputs tc ! i) b)"
  using sign_tx [of tc tx] by (auto simp: transaction_new_def Let_def nth_enumerate_eq)

lemma sign_values: "sign tc = Some (Inr tx) \<Longrightarrow> map bx_value (tx_outputs tx) = map bx_value (tc_outputs tc)"
proof -
  assume "sign tc = Some (Inr tx)"
  note o = sign_outputs [OF this]
  show ?thesis using o by (intro nth_equalityI) (simp, metis box_of_candidate_fields(1) length_map nth_map)
qed

end

lemma sign_inputs_Inr:
  assumes "\<forall>i b. pv_get_input_box W tc i = Some b \<longrightarrow> box_id b = i" "sign_inputs W tc msg k ins = Some (Inr ins')"
  shows "map in_box ins' = map in_box ins"
  using assms(2)
proof (induction ins arbitrary: k ins')
  case (Cons i ins)
  obtain j js where j: "sign_input W tc msg k i = Some (Inr j)" "sign_inputs W tc msg (Suc k) ins = Some (Inr js)" "ins' = j # js"
    using Cons.prems by (auto simp: try_bind_Inr)
  have "in_box j = in_box i" using j(1) assms(1) by (auto simp: sign_input_def try_bind_Inr split: option.split_asm bind_split_asm if_split_asm)
  then show ?case using j(3) Cons.IH [OF j(2)] by simp
qed simp

lemma wallet_signer:
  assumes "\<forall>tc i b. pv_get_input_box W tc i = Some b \<longrightarrow> box_id b = i"
  shows "signer (pv_lib W) (wallet_sign W)"
proof
  fix tc tx
  assume s: "wallet_sign W tc = Some (Inr tx)"
  let ?ins = "map (\<lambda>(bx, ext). \<lparr> in_box = box_id bx, in_ext = ext \<rparr>) (tc_inputs tc)"
  obtain msg ins' dins where r: "sign_inputs W tc msg 0 ?ins = Some (Inr ins')" "tx = transaction_new (pv_lib W) ins' dins (tc_outputs tc)"
    using s by (auto simp: wallet_sign_def try_bind_Inr tx_io_vec_Some Let_def split: bind_split_asm)
  have "map in_box ins' = map (box_id \<circ> fst) (tc_inputs tc)"
    using sign_inputs_Inr [OF _ r(1)] assms by (auto simp: case_prod_beta)
  then show "\<exists>ins dins. map in_box ins = map (box_id \<circ> fst) (tc_inputs tc) \<and> tx = transaction_new (pv_lib W) ins dins (tc_outputs tc)"
    using r(2) by blast
qed

text \<open>A wallet that proves every input.\<close>

definition sample_wallet :: "ergo_lib \<Rightarrow> prover_env" where
  "sample_wallet E = \<lparr> pv_lib = E, pv_context_new = (\<lambda>_. Inr ()), pv_bytes_to_sign = (\<lambda>_. Inr []),
     pv_get_input_box = (\<lambda>tc i. map_option fst (find (\<lambda>(b, _). box_id b = i) (tc_inputs tc))), pv_is_p2pk = (\<lambda>_. Some True),
     pv_make_context = (\<lambda>_ _. Inr ()), pv_prove = (\<lambda>_ _ _ _. Inr []), pv_transaction_new = (\<lambda>_ _. Inr ()) \<rparr>"

interpretation sample_wallet: signer sample_lib "wallet_sign (sample_wallet sample_lib)"
proof -
  have "\<forall>tc i b. pv_get_input_box (sample_wallet sample_lib) tc i = Some b \<longrightarrow> box_id b = i"
    by (auto simp: sample_wallet_def find_Some_iff case_prod_beta) (metis fst_conv)
  moreover have "pv_lib (sample_wallet sample_lib) = sample_lib" by (simp add: sample_wallet_def)
  ultimately show "signer sample_lib (wallet_sign (sample_wallet sample_lib))" using wallet_signer [of "sample_wallet sample_lib"] by (simp only:)
qed

lemma noop_signer: "signer E (noop_sign E)"
proof
  fix tc tx
  assume "noop_sign E tc = Some (Inr tx)"
  then show "\<exists>ins dins. map in_box ins = map (box_id \<circ> fst) (tc_inputs tc) \<and> tx = transaction_new E ins dins (tc_outputs tc)"
    by (intro exI [of _ "map (\<lambda>(bx, ext). \<lparr> in_box = box_id bx, in_ext = ext \<rparr>) (tc_inputs tc)"] exI [of _ "map_option (map box_id) (tc_data_inputs tc)"])
      (simp add: noop_sign_def into_tx_without_proofs_def case_prod_beta)
qed

interpretation noop: signer sample_lib "noop_sign sample_lib"
  by (rule noop_signer)

end
