(* ===== verification/Deploy.thy ===== *)
theory Deploy
  imports LM_Types Prover
begin

text \<open>
  The deployment of a pool, \<open>spectrum-deploy-lm-pool/src/main.rs\<close>: the checks of the wallet's boxes and of the program, and the
  chain of six transactions that moves the tokens into one box, mints the pool's NFT and its virtual-liquidity and temporal
  tokens, gathers them, and creates the pool with its first staking bundle.

  Box selection, the checks of the builder of box candidates and the arithmetic of \<open>BoxValue\<close> are of \<open>ergo-lib\<close> and are parameters,
  and so are the boxes of the explorer; a builder that succeeds returns a box with the fields it was given.  A failed \<open>unwrap\<close> or assertion is \<open>None\<close>, an \<open>Err\<close> is \<open>Some (Inl _)\<close>.  Printing
  is not modelled.
\<close>

section \<open>Errors and configuration\<close>

text \<open>\<open>InsufficientLqDeposit\<close> is \<open>PoolValidationError::InsufficientLqTokens\<close>; no code raises \<open>TxBuilderErr\<close>.\<close>

datatype utxo_error = InsufficientLqTokens | InsufficientRewardTokens u64 u64 | OtherTokensInUtxos "token list"

datatype pool_validation_error = StartTooEarly | RedeemBlocksDeltaTooLong | FailedMaxRoundingErrorBounds | InsufficientLqDeposit

datatype deploy_error = BoxSelectorErr string | BoxValueErr string | BoxBuilderErr string | SigmaParseErr string
  | TxBuilderErr string | TxSigningErr string | UtxoErr utxo_error | PoolValidationErr pool_validation_error

record deploy_inputs =
  di_conf :: program_config
  di_tx_fee :: u64
  di_erg_value_per_box :: u64
  di_initial_lq :: typed_asset_amount
  di_num_epochs :: u64

record deploy_env =
  dv_lib :: ergo_lib
  dv_select :: "ergo_box list \<Rightarrow> u64 \<Rightarrow> token list \<Rightarrow> string + ergo_box list"
  dv_build :: "ergo_box_candidate \<Rightarrow> string + unit"
  dv_mint_regs :: "string \<Rightarrow> string \<Rightarrow> nat \<Rightarrow> constant_val list"
  dv_checked_add :: "u64 \<Rightarrow> u64 \<Rightarrow> string + u64"
  dv_checked_mul_u32 :: "u64 \<Rightarrow> u32 \<Rightarrow> string + u64"
  dv_sign :: "transaction_candidate \<Rightarrow> (signing_error + transaction) panics"
  dv_addr_script :: "string + ergo_tree"

type_synonym 'a deploys = "(deploy_error + 'a) panics"

section \<open>Checks\<close>

text \<open>The reward tokens, the liquidity tokens and the other tokens of boxes.\<close>

fun count_token :: "token_id \<Rightarrow> token_id \<Rightarrow> token \<Rightarrow> u64 \<times> u64 \<times> token list \<Rightarrow> u64 \<times> u64 \<times> token list" where
  "count_token reward_id lq_id t (reward, lq, others) =
     (if tok_id t = reward_id then (reward + tok_amount t, lq, others)
      else if tok_id t = lq_id then (reward, lq + tok_amount t, others)
      else (reward, lq, others @ [t]))"

definition box_tokens :: "ergo_box \<Rightarrow> token list" where
  "box_tokens bx = (case bx_tokens bx of Some ts \<Rightarrow> ts | None \<Rightarrow> [])"

definition count_tokens :: "deploy_inputs \<Rightarrow> ergo_box list \<Rightarrow> u64 \<times> u64 \<times> token list" where
  "count_tokens I boxes = fold (count_token (asset_id (program_budget (di_conf I))) (asset_id (di_initial_lq I))) (concat (map box_tokens boxes)) (0, 0, [])"

definition check_utxos :: "ergo_box list \<Rightarrow> deploy_inputs \<Rightarrow> utxo_error + unit" where
  "check_utxos utxos I =
     (let (reward_tokens_count, lq_tokens_count, other_tokens) = count_tokens I utxos;
          expected_reward_token_quantity = amount (program_budget (di_conf I))
      in if other_tokens \<noteq> [] then Inl (OtherTokensInUtxos other_tokens)
         else if lq_tokens_count < 100 then Inl InsufficientLqTokens
         else if reward_tokens_count < expected_reward_token_quantity
         then Inl (InsufficientRewardTokens expected_reward_token_quantity reward_tokens_count)
         else Inr ())"

definition validate_pool :: "deploy_inputs \<Rightarrow> u32 \<Rightarrow> (pool_validation_error + unit) panics" where
  "validate_pool I current_height =
     (let c = di_conf I; num = ucast (epoch_num c) :: u64; mre = max_rounding_error c
      in if program_start c < current_height + 100 then Some (Inl StartTooEarly)
         else if redeem_blocks_delta c < epoch_len c then Some (Inl RedeemBlocksDeltaTooLong)
         else if amount (di_initial_lq I) < 100 then Some (Inl InsufficientLqDeposit)
         else if mre \<le> num then Some (Inl FailedMaxRoundingErrorBounds)
         else do {
           q \<leftarrow> checked_div (amount (program_budget c)) num;
           Some (if q \<le> mre * num then Inl FailedMaxRoundingErrorBounds else Inr ()) })"

definition find_box_with_token :: "ergo_box list \<Rightarrow> token_id \<Rightarrow> ergo_box option" where
  "find_box_with_token boxes t = find (\<lambda>bx. list_ex (\<lambda>tok. tok_id tok = t) (box_tokens bx)) boxes"

section \<open>Building blocks\<close>

definition new_builder :: "u64 \<Rightarrow> ergo_tree \<Rightarrow> u32 \<Rightarrow> ergo_box_candidate" where
  "new_builder v tree height = \<lparr> bx_value = v, bx_tree = tree, bx_tokens = None, bx_regs = [], bx_height = height \<rparr>"

definition add_tokens :: "token list \<Rightarrow> ergo_box_candidate \<Rightarrow> ergo_box_candidate" where
  "add_tokens ts b = (if ts = [] then b else b \<lparr> bx_tokens := Some ts \<rparr>)"

definition build_box :: "deploy_env \<Rightarrow> ergo_box_candidate \<Rightarrow> ergo_box_candidate deploys" where
  "build_box D b = Some (case dv_build D b of Inl e \<Rightarrow> Inl (BoxBuilderErr e) | Inr _ \<Rightarrow> Inr b)"

definition select_boxes :: "deploy_env \<Rightarrow> ergo_box list \<Rightarrow> u64 \<Rightarrow> token list \<Rightarrow> ergo_box list deploys" where
  "select_boxes D boxes target_balance target_tokens = Some (map_err BoxSelectorErr (dv_select D boxes target_balance target_tokens))"

definition addr_script :: "deploy_env \<Rightarrow> ergo_tree deploys" where
  "addr_script D = Some (map_err SigmaParseErr (dv_addr_script D))"

definition funds_total :: "ergo_box list \<Rightarrow> nano_erg" where
  "funds_total boxes = fold (\<lambda>bx acc. acc + bx_value bx) boxes 0"

definition calc_target_balance :: "deploy_env \<Rightarrow> deploy_inputs \<Rightarrow> u32 \<Rightarrow> u64 deploys" where
  "calc_target_balance D I num_transactions_left =
     (if num_transactions_left = 0 then None else
      try_bind (Some (map_err BoxValueErr (dv_checked_add D (di_erg_value_per_box I) (di_tx_fee I)))) (\<lambda>s.
      try_bind (Some (map_err BoxValueErr (dv_checked_mul_u32 D s (num_transactions_left - 1)))) (\<lambda>b.
      Option.bind (box_value_of (dv_lib D) MIN_SAFE_FAT_BOX_VALUE) (\<lambda>fat.
      try_bind (Some (map_err BoxValueErr (dv_checked_mul_u32 D fat 3))) (\<lambda>fats.
      try_bind (Some (map_err BoxValueErr (dv_checked_add D (di_tx_fee I) fats))) (\<lambda>last_tx_amt.
      Some (map_err BoxValueErr (dv_checked_add D b last_tx_amt))))))))"

text \<open>Every transaction is signed and then checked to give out what it takes in.\<close>

definition sign_balanced :: "deploy_env \<Rightarrow> ergo_box list \<Rightarrow> ergo_box_candidate list \<Rightarrow> transaction deploys" where
  "sign_balanced D boxes output_candidates = do {
     inputs \<leftarrow> tx_io_vec (dv_lib D) (map (\<lambda>bx. (bx, [])) boxes);
     outputs \<leftarrow> tx_io_vec (dv_lib D) output_candidates;
     try_bind (map_option (map_err TxSigningErr) (dv_sign D \<lparr> tc_inputs = inputs, tc_data_inputs = None, tc_outputs = outputs \<rparr>)) (\<lambda>tx.
     if funds_total boxes = funds_total (tx_outputs tx) then Some (Inr tx) else None) }"

definition mint_token :: "deploy_env \<Rightarrow> deploy_inputs \<Rightarrow> u32 \<Rightarrow> ergo_box list \<Rightarrow> u32 \<Rightarrow> string \<Rightarrow> string \<Rightarrow> u64 \<Rightarrow> (token \<times> transaction) deploys" where
  "mint_token D I height input_boxes num_transactions_left token_name token_desc token_amount =
     try_bind (calc_target_balance D I num_transactions_left) (\<lambda>target_balance.
     try_bind (select_boxes D input_boxes target_balance []) (\<lambda>boxes.
     Option.bind (nth_opt boxes 0) (\<lambda>first.
     let token = \<lparr> tok_id = box_id first, tok_amount = token_amount \<rparr> in
     Option.bind (case dv_addr_script D of Inl _ \<Rightarrow> None | Inr t \<Rightarrow> Some t) (\<lambda>tree.
     try_bind (build_box D ((add_tokens [token] (new_builder (di_erg_value_per_box I) tree height)) \<lparr> bx_regs := dv_mint_regs D token_name token_desc 0 \<rparr>)) (\<lambda>minted.
     try_bind (calc_target_balance D I (num_transactions_left - 1)) (\<lambda>next_target_balance.
     try_bind (build_box D (new_builder next_target_balance tree height)) (\<lambda>funds_for_remaining_txs.
     Option.bind (miner_into_candidate (dv_lib D) \<lparr> mo_erg_value = di_tx_fee I \<rparr> height) (\<lambda>miner.
     let accumulated_cost = next_target_balance + di_erg_value_per_box I + di_tx_fee I;
         funds_remaining = safe_sub (funds_total boxes) accumulated_cost in
     Option.bind (box_value_of (dv_lib D) funds_remaining) (\<lambda>rest_value.
     try_bind (build_box D (new_builder rest_value tree height)) (\<lambda>rest.
     try_bind (sign_balanced D boxes [minted, funds_for_remaining_txs, miner, rest]) (\<lambda>signed_tx.
     Some (Inr (token, signed_tx)))))))))))))"

section \<open>The six transactions\<close>

text \<open>TX 0 gives the tokens of the deployment, the funds of the other transactions, the fee and a box with what remains.\<close>

definition remaining_token :: "deploy_env \<Rightarrow> token_id \<Rightarrow> u64 \<Rightarrow> u64 \<Rightarrow> token list panics" where
  "remaining_token D t selected needed =
     (if needed < selected
      then map_option (\<lambda>tok. [tok]) (token_try_from (dv_lib D) (typed_amount t (selected - needed)))
      else Some [])"

definition move_tokens :: "deploy_env \<Rightarrow> deploy_inputs \<Rightarrow> u32 \<Rightarrow> ergo_box list \<Rightarrow> token \<Rightarrow> (token \<times> token list \<times> transaction) deploys" where
  "move_tokens D I height utxos reward_token_budget =
     (let budget = program_budget (di_conf I); lq = di_initial_lq I in
     try_bind (calc_target_balance D I 6) (\<lambda>target_balance.
     Option.bind (token_try_from (dv_lib D) lq) (\<lambda>lq_token.
     try_bind (select_boxes D utxos target_balance [reward_token_budget, lq_token]) (\<lambda>boxes.
     try_bind (addr_script D) (\<lambda>tree.
     try_bind (build_box D (add_tokens [reward_token_budget, lq_token] (new_builder (di_erg_value_per_box I) tree height))) (\<lambda>lq_and_reward_box.
     try_bind (calc_target_balance D I 5) (\<lambda>next_target_balance.
     try_bind (build_box D (new_builder next_target_balance tree height)) (\<lambda>remaining_funds.
     Option.bind (miner_into_candidate (dv_lib D) \<lparr> mo_erg_value = di_tx_fee I \<rparr> height) (\<lambda>miner.
     let (num_selected_reward_tokens, num_selected_lq_tokens, others) = count_tokens I boxes in
     if others \<noteq> [] then None else
     Option.bind (remaining_token D (asset_id budget) num_selected_reward_tokens (amount budget)) (\<lambda>remaining_reward.
     Option.bind (remaining_token D (asset_id lq) num_selected_lq_tokens (amount lq)) (\<lambda>remaining_lq.
     let remaining_tokens = remaining_reward @ remaining_lq;
         funds_remain = safe_sub (funds_total boxes) target_balance in
     Option.bind (box_value_of (dv_lib D) funds_remain) (\<lambda>rest_value.
     try_bind (build_box D (add_tokens remaining_tokens (new_builder rest_value tree height))) (\<lambda>rest.
     try_bind (sign_balanced D boxes [lq_and_reward_box, remaining_funds, miner, rest]) (\<lambda>tx_0.
     Some (Inr (lq_token, remaining_tokens, tx_0))))))))))))))))"

fun find_index :: "('a \<Rightarrow> bool) \<Rightarrow> 'a list \<Rightarrow> nat option" where
  "find_index P [] = None"
| "find_index P (x # xs) = (if P x then Some 0 else map_option Suc (find_index P xs))"

text \<open>\<open>Vec::swap_remove\<close> puts the last element into the place of the removed one.\<close>

definition swap_remove :: "nat \<Rightarrow> 'a list \<Rightarrow> 'a list" where
  "swap_remove ix xs = butlast (xs[ix := last xs])"

definition own_boxes :: "ergo_tree \<Rightarrow> ergo_box list \<Rightarrow> ergo_box list" where
  "own_boxes guard outputs = filter (\<lambda>b. bx_tree b = guard) outputs"

definition pool_nft_inputs :: "ergo_tree \<Rightarrow> token list \<Rightarrow> transaction \<Rightarrow> ergo_box list panics" where
  "pool_nft_inputs guard remaining_tokens tx_0 =
     (if remaining_tokens \<noteq> []
      then map_option (\<lambda>ix. own_boxes guard (swap_remove ix (tx_outputs tx_0)))
             (find_index (\<lambda>bx. list_ex (\<lambda>t. t \<in> set remaining_tokens) (box_tokens bx)) (tx_outputs tx_0))
      else Some (own_boxes guard (tx_outputs tx_0)))"

text \<open>TX 4 gathers the tokens and the program into the pool-input box.\<close>

definition pool_input :: "deploy_env \<Rightarrow> deploy_inputs \<Rightarrow> u32 \<Rightarrow> ergo_box list \<Rightarrow> token list \<Rightarrow> transaction deploys" where
  "pool_input D I height candidates tokens =
     (let c = di_conf I in
     try_bind (calc_target_balance D I 2) (\<lambda>target_balance.
     try_bind (select_boxes D candidates target_balance tokens) (\<lambda>boxes.
     Option.bind (tx_io_vec (dv_lib D) boxes) (\<lambda>_.
     try_bind (addr_script D) (\<lambda>tree.
     try_bind (build_box D ((add_tokens tokens (new_builder (di_erg_value_per_box I) tree height))
        \<lparr> bx_regs := [ConstInts (config_to_ints c), ConstLong (amount (program_budget c)), ConstLong (max_rounding_error c)] \<rparr>)) (\<lambda>pool_init_box.
     try_bind (calc_target_balance D I 1) (\<lambda>next_target_balance.
     try_bind (build_box D (new_builder next_target_balance tree height)) (\<lambda>funds_for_remaining_tx.
     Option.bind (miner_into_candidate (dv_lib D) \<lparr> mo_erg_value = di_tx_fee I \<rparr> height) (\<lambda>miner.
     let accumulated_cost = next_target_balance + di_erg_value_per_box I + di_tx_fee I;
         funds_remaining = safe_sub (funds_total boxes) accumulated_cost in
     Option.bind (box_value_of (dv_lib D) funds_remaining) (\<lambda>rest_value.
     try_bind (build_box D (new_builder rest_value tree height)) (\<lambda>rest.
     sign_balanced D boxes [pool_init_box, funds_for_remaining_tx, miner, rest])))))))))))"

text \<open>TX 5 creates the pool and its first staking bundle.\<close>

definition initial_pool :: "deploy_inputs \<Rightarrow> token \<Rightarrow> token \<Rightarrow> token \<Rightarrow> token \<Rightarrow> pool" where
  "initial_pool I nft reward_token_budget vlq_tokens tmp_tokens =
     \<lparr> pl_pool_id = tok_id nft, budget_rem = typed_amount (tok_id reward_token_budget) (tok_amount reward_token_budget),
       reserves_lq = typed_amount (asset_id (di_initial_lq I)) (amount (di_initial_lq I)),
       reserves_vlq = typed_amount (tok_id vlq_tokens) (MAX_VALUE - amount (di_initial_lq I)),
       reserves_tmp = typed_amount (tok_id tmp_tokens) (MAX_VALUE - amount (di_initial_lq I) * di_num_epochs I),
       pl_epoch_ix = None, conf = di_conf I, pl_erg_value = MIN_SAFE_FAT_BOX_VALUE \<rparr>"

definition initial_bundle :: "deploy_inputs \<Rightarrow> sigma_prop \<Rightarrow> token_id \<Rightarrow> token \<Rightarrow> token \<Rightarrow> token \<Rightarrow> staking_bundle_proto" where
  "initial_bundle I redeemer_prop bundle_key_id nft vlq_tokens tmp_tokens =
     \<lparr> sbp_bundle_key_id = \<lparr> ta_id = bundle_key_id \<rparr>, sbp_pool_id = tok_id nft,
       sbp_vlq = typed_amount (tok_id vlq_tokens) (amount (di_initial_lq I)),
       sbp_tmp = Some (typed_amount (tok_id tmp_tokens) (amount (di_initial_lq I) * di_num_epochs I)),
       sbp_redeemer_prop = redeemer_prop, sbp_erg_value = MIN_SAFE_FAT_BOX_VALUE, sbp_token_name = '''', sbp_token_desc = '''' \<rparr>"

definition init_pool :: "deploy_env \<Rightarrow> deploy_inputs \<Rightarrow> u32 \<Rightarrow> sigma_prop \<Rightarrow> ergo_box list \<Rightarrow> token \<Rightarrow> token \<Rightarrow> token \<Rightarrow> token \<Rightarrow> token \<Rightarrow> transaction deploys" where
  "init_pool D I height redeemer_prop inputs nft reward_token_budget lq_token vlq_tokens tmp_tokens =
     try_bind (calc_target_balance D I 1) (\<lambda>target_balance.
     try_bind (select_boxes D inputs target_balance [nft, reward_token_budget, lq_token, vlq_tokens, tmp_tokens]) (\<lambda>boxes.
     Option.bind (tx_io_vec (dv_lib D) boxes) (\<lambda>_.
     Option.bind (pool_into_candidate (dv_lib D) (initial_pool I nft reward_token_budget vlq_tokens tmp_tokens) height) (\<lambda>lm_pool_box.
     Option.bind (nth_opt boxes 0) (\<lambda>first.
     let bundle_key_id = box_id first in
     Option.bind (deposit_out_into_candidate (dv_lib D)
        \<lparr> do_bundle_key = typed_amount bundle_key_id BUNDLE_KEY_AMOUNT_USER, do_redeemer_prop = redeemer_prop, do_erg_value = MIN_SAFE_FAT_BOX_VALUE,
          do_token_name = '''', do_token_desc = '''' \<rparr> height) (\<lambda>deposit_output.
     Option.bind (bundle_proto_into_candidate (dv_lib D) (initial_bundle I redeemer_prop bundle_key_id nft vlq_tokens tmp_tokens) height) (\<lambda>staking_bundle.
     Option.bind (box_value_of (dv_lib D) MIN_SAFE_FAT_BOX_VALUE) (\<lambda>fat.
     let accumulated_cost = 3 * fat + di_tx_fee I;
         remaining_funds = funds_total boxes - accumulated_cost in
     try_bind (if MIN_SAFE_BOX_VALUE \<le> remaining_funds
       then Option.bind (box_value_of (dv_lib D) remaining_funds) (\<lambda>v.
            try_bind (addr_script D) (\<lambda>tree.
            try_bind (build_box D (new_builder v tree height)) (\<lambda>rest. Some (Inr ([rest], di_tx_fee I)))))
       else Some (Inr ([], di_tx_fee I + remaining_funds))) (\<lambda>(rest, miner_fee).
     Option.bind (miner_into_candidate (dv_lib D) \<lparr> mo_erg_value = miner_fee \<rparr> height) (\<lambda>miner.
     sign_balanced D boxes ([lm_pool_box, deposit_output, staking_bundle] @ rest @ [miner])))))))))))"

section \<open>The chain\<close>

definition deploy_pool_chain_transaction :: "deploy_env \<Rightarrow> ergo_box list \<Rightarrow> deploy_inputs \<Rightarrow> u32 \<Rightarrow> ((transaction \<times> string) list \<times> pool_id) deploys" where
  "deploy_pool_chain_transaction D utxos I height =
     try_bind (Some (map_err UtxoErr (check_utxos utxos I))) (\<lambda>_.
     Option.bind (token_try_from (dv_lib D) (program_budget (di_conf I))) (\<lambda>reward_token_budget.
     try_bind (addr_script D) (\<lambda>guard.
     Option.bind (prove_dlog (dv_lib D) guard) (\<lambda>redeemer_prop.
     try_bind (move_tokens D I height utxos reward_token_budget) (\<lambda>(lq_token, remaining_tokens, tx_0).
     Option.bind (pool_nft_inputs guard remaining_tokens tx_0) (\<lambda>inputs_1.
     Option.bind (if token_amount_ok (dv_lib D) 1 then Some () else None) (\<lambda>_.
     try_bind (mint_token D I height inputs_1 5 '''' '''' 1) (\<lambda>(nft, tx_1).
     Option.bind (if token_amount_ok (dv_lib D) MAX_VALUE then Some () else None) (\<lambda>_.
     try_bind (mint_token D I height (own_boxes guard (tx_outputs tx_1)) 4 '''' '''' MAX_VALUE) (\<lambda>(vlq_tokens, tx_2).
     try_bind (mint_token D I height (own_boxes guard (tx_outputs tx_2)) 3 '''' '''' MAX_VALUE) (\<lambda>(tmp_tokens, tx_3).
     Option.bind (find_box_with_token (tx_outputs tx_1) (tok_id nft)) (\<lambda>box_with_pool_nft.
     Option.bind (find_box_with_token (tx_outputs tx_0) (tok_id reward_token_budget)) (\<lambda>box_with_rewards_tokens.
     Option.bind (find_box_with_token (tx_outputs tx_2) (tok_id vlq_tokens)) (\<lambda>box_with_vlq_tokens.
     Option.bind (find_box_with_token (tx_outputs tx_3) (tok_id tmp_tokens)) (\<lambda>box_with_tmp_tokens.
     Option.bind (nth_opt (tx_outputs tx_3) 1) (\<lambda>box_with_remaining_funds.
     try_bind (pool_input D I height [box_with_pool_nft, box_with_rewards_tokens, box_with_vlq_tokens, box_with_tmp_tokens, box_with_remaining_funds]
        [nft, reward_token_budget, lq_token, vlq_tokens, tmp_tokens]) (\<lambda>tx_4.
     try_bind (init_pool D I height redeemer_prop (own_boxes guard (tx_outputs tx_4)) nft reward_token_budget lq_token vlq_tokens tmp_tokens) (\<lambda>tx_5.
     Some (Inr ([(tx_0, ''Move LQ and reward tokens to single box''), (tx_1, ''Mint Pool NFT''), (tx_2, ''Mint VLQ tokens''),
        (tx_3, ''Mint TMP tokens''), (tx_4, ''Initialise pool-input box''),
        (tx_5, ''Create first LM pool, staking bundle and redeemer out boxes'')], tok_id nft))))))))))))))))))))"

definition deploy_pool :: "deploy_env \<Rightarrow> deploy_inputs \<Rightarrow> u32 \<Rightarrow> ergo_box list \<Rightarrow> ((transaction \<times> string) list \<times> pool_id) deploys" where
  "deploy_pool D I current_height utxos =
     try_bind (map_option (map_err PoolValidationErr) (validate_pool I current_height)) (\<lambda>_. deploy_pool_chain_transaction D utxos I current_height)"

text \<open>The transactions \<open>main\<close> has submitted: the first refusal ends the chain.\<close>

fun submit_chain :: "(transaction \<Rightarrow> string + unit) \<Rightarrow> (transaction \<times> string) list \<Rightarrow> transaction list" where
  "submit_chain submit_tx [] = []"
| "submit_chain submit_tx ((tx, description) # txs) = (case submit_tx tx of
      Inl _ \<Rightarrow> []
    | Inr _ \<Rightarrow> tx # submit_chain submit_tx txs)"

section \<open>What a successful deployment does\<close>

lemma error_results:
  "build_box D b = Some (Inr c) \<longleftrightarrow> c = b \<and> dv_build D b = Inr ()" "select_boxes D bs t ts = Some (Inr sel) \<longleftrightarrow> dv_select D bs t ts = Inr sel"
  "addr_script D = Some (Inr tr) \<longleftrightarrow> dv_addr_script D = Inr tr"
  by (auto simp: build_box_def select_boxes_def addr_script_def split: sum.split)

text \<open>A transaction spends known boxes when its inputs are among them and it gives out the ERG it takes in.\<close>

definition spends_known :: "ergo_box set \<Rightarrow> transaction \<Rightarrow> bool" where
  "spends_known known tx \<longleftrightarrow> (\<exists>boxes. set boxes \<subseteq> known \<and> map in_box (tx_inputs tx) = map box_id boxes \<and> funds_total boxes = funds_total (tx_outputs tx))"

fun chain_ok :: "ergo_box set \<Rightarrow> transaction list \<Rightarrow> bool" where
  "chain_ok known [] \<longleftrightarrow> True"
| "chain_ok known (tx # txs) \<longleftrightarrow> spends_known known tx \<and> chain_ok (known \<union> set (tx_outputs tx)) txs"

lemma spends_mono: "spends_known A tx \<Longrightarrow> A \<subseteq> B \<Longrightarrow> spends_known B tx"
  unfolding spends_known_def by blast

lemma chain_submitted: "chain_ok known (map fst txs) \<Longrightarrow> chain_ok known (submit_chain submit_tx txs)"
  by (induction submit_tx txs arbitrary: known rule: submit_chain.induct) (auto split: sum.split)

lemma found_box: "find_box_with_token boxes t = Some b \<Longrightarrow> b \<in> set boxes"
  by (auto simp: find_box_with_token_def find_Some_iff)

lemma own_subset: "set (own_boxes g bs) \<subseteq> set bs"
  by (auto simp: own_boxes_def)

lemma swap_remove_subset: "xs \<noteq> [] \<Longrightarrow> set (swap_remove ix xs) \<subseteq> set xs"
  unfolding swap_remove_def by (meson in_set_butlastD last_in_set set_update_subsetI subset_iff)

lemma find_index_nonempty: "find_index P xs = Some i \<Longrightarrow> xs \<noteq> []"
  by auto

lemma nft_inputs_subset: "pool_nft_inputs g ts tx = Some bs \<Longrightarrow> set bs \<subseteq> set (tx_outputs tx)"
  using own_subset swap_remove_subset by (auto simp: pool_nft_inputs_def dest!: find_index_nonempty split: if_split_asm) blast+

locale deployment = signer "dv_lib D" "dv_sign D" for D :: deploy_env +
  assumes selects: "dv_select D boxes target_balance target_tokens = Inr sel \<Longrightarrow> set sel \<subseteq> set boxes"
    and token_amounts: "token_amount_ok (dv_lib D) w \<Longrightarrow> 0 < w \<and> unat w < 2 ^ 63"
begin

lemma balanced_Inr:
  assumes "sign_balanced D boxes outs = Some (Inr tx)"
  shows "map in_box (tx_inputs tx) = map box_id boxes" "funds_total boxes = funds_total (tx_outputs tx)"
    "i < length outs \<Longrightarrow> \<exists>b. tx_outputs tx ! i = box_of_candidate (outs ! i) b"
proof -
  obtain ins outputs where s: "dv_sign D \<lparr> tc_inputs = ins, tc_data_inputs = None, tc_outputs = outputs \<rparr> = Some (Inr tx)"
    "ins = map (\<lambda>bx. (bx, [])) boxes" "outputs = outs" "funds_total boxes = funds_total (tx_outputs tx)"
    using assms by (auto simp: sign_balanced_def try_bind_Inr tx_io_vec_Some split: bind_split_asm if_split_asm)
  show "map in_box (tx_inputs tx) = map box_id boxes" using sign_inputs_kept [OF s(1)] s(2) by (simp add: comp_def)
  show "funds_total boxes = funds_total (tx_outputs tx)" by (rule s(4))
  show "\<exists>b. tx_outputs tx ! i = box_of_candidate (outs ! i) b" if "i < length outs" using sign_outputs [OF s(1)] that s(3) by auto
qed

lemma balanced_spends: "sign_balanced D sel outs = Some (Inr tx) \<Longrightarrow> dv_select D boxes t ts = Inr sel \<Longrightarrow> spends_known (set boxes) tx"
  using balanced_Inr(1,2) selects unfolding spends_known_def by blast

lemma move_spends: "move_tokens D I height utxos r = Some (Inr (lq, ts, tx)) \<Longrightarrow> spends_known (set utxos) tx"
  by (auto simp: move_tokens_def Let_def try_bind_Inr bind_eq_Some_conv error_results case_prod_beta intro: balanced_spends split: if_split_asm)

lemma mint_spends: "mint_token D I height boxes n name desc amt = Some (Inr (tok, tx)) \<Longrightarrow> spends_known (set boxes) tx"
  by (auto simp: mint_token_def Let_def try_bind_Inr bind_eq_Some_conv error_results intro: balanced_spends)

lemma input_spends: "pool_input D I height boxes ts = Some (Inr tx) \<Longrightarrow> spends_known (set boxes) tx"
  by (auto simp: pool_input_def Let_def try_bind_Inr bind_eq_Some_conv error_results intro: balanced_spends)

lemma init_Inr:
  assumes "init_pool D I height rp inputs nft reward lq vlq tmp = Some (Inr tx)"
  shows "\<exists>t ts sel lm dep bun more key. dv_select D inputs t ts = Inr sel \<and> sign_balanced D sel (lm # dep # bun # more) = Some (Inr tx) \<and>
    pool_into_candidate (dv_lib D) (initial_pool I nft reward vlq tmp) height = Some lm \<and>
    bundle_proto_into_candidate (dv_lib D) (initial_bundle I rp key nft vlq tmp) height = Some bun \<and>
    (\<exists>t. bx_tokens dep = Some [t]) \<and> (\<forall>c \<in> set more. bx_tokens c = None)"
proof -
  obtain t ts sel lm dep bun more fee miner key dout where r: "dv_select D inputs t ts = Inr sel"
    "sign_balanced D sel (lm # dep # bun # more) = Some (Inr tx)" "pool_into_candidate (dv_lib D) (initial_pool I nft reward vlq tmp) height = Some lm"
    "bundle_proto_into_candidate (dv_lib D) (initial_bundle I rp key nft vlq tmp) height = Some bun" "deposit_out_into_candidate (dv_lib D) dout height = Some dep"
    "miner_into_candidate (dv_lib D) \<lparr> mo_erg_value = fee \<rparr> height = Some miner" "\<forall>c \<in> set more. c = miner \<or> bx_tokens c = None"
    using assms unfolding init_pool_def
    by (auto simp: Let_def try_bind_Inr bind_eq_Some_conv error_results new_builder_def intro: that split: if_split_asm)
  have "\<exists>t. bx_tokens dep = Some [t]" using r(5) by (auto simp: deposit_out_into_candidate_def bind_eq_Some_conv)
  moreover have "\<forall>c \<in> set more. bx_tokens c = None" using r(6,7) by (auto simp: miner_into_candidate_def bind_eq_Some_conv)
  ultimately show ?thesis using r(1-4) by blast
qed

lemma init_spends:
  assumes "init_pool D I height rp inputs nft reward lq vlq tmp = Some (Inr tx)"
  shows "spends_known (set inputs) tx"
proof -
  obtain t ts sel outs where "dv_select D inputs t ts = Inr sel" "sign_balanced D sel outs = Some (Inr tx)" using init_Inr [OF assms] by blast
  then show ?thesis by (rule balanced_spends [rotated])
qed

lemma init_outputs:
  assumes "init_pool D I height rp inputs nft reward lq vlq tmp = Some (Inr tx)"
  obtains lm bun key i j where "tx_outputs tx ! 0 = box_of_candidate lm i" "tx_outputs tx ! 2 = box_of_candidate bun j"
    "pool_into_candidate (dv_lib D) (initial_pool I nft reward vlq tmp) height = Some lm"
    "bundle_proto_into_candidate (dv_lib D) (initial_bundle I rp key nft vlq tmp) height = Some bun"
proof -
  obtain sel lm dep bun more key where s: "sign_balanced D sel (lm # dep # bun # more) = Some (Inr tx)"
    "pool_into_candidate (dv_lib D) (initial_pool I nft reward vlq tmp) height = Some lm"
    "bundle_proto_into_candidate (dv_lib D) (initial_bundle I rp key nft vlq tmp) height = Some bun" using init_Inr [OF assms] by blast
  show ?thesis using balanced_Inr(3) [OF s(1), of 0] balanced_Inr(3) [OF s(1), of 2] s(2,3) by (auto intro: that)
qed

text \<open>The parts of a successful deployment.\<close>

lemma deploy_parts:
  assumes "deploy_pool_chain_transaction D utxos I height = Some (Inr (txs, pid))"
  shows "\<exists>reward rp lq nft vlq tmp ins tx0 tx1 tx2 tx3 tx4 tx5.
    map fst txs = [tx0, tx1, tx2, tx3, tx4, tx5] \<and> pid = tok_id nft \<and> token_try_from (dv_lib D) (program_budget (di_conf I)) = Some reward \<and>
    spends_known (set utxos) tx0 \<and> spends_known (set (tx_outputs tx0)) tx1 \<and> spends_known (set (tx_outputs tx1)) tx2 \<and>
    spends_known (set (tx_outputs tx2)) tx3 \<and>
    spends_known (set (tx_outputs tx0) \<union> set (tx_outputs tx1) \<union> set (tx_outputs tx2) \<union> set (tx_outputs tx3)) tx4 \<and>
    spends_known (set (tx_outputs tx4)) tx5 \<and> init_pool D I height rp ins nft reward lq vlq tmp = Some (Inr tx5)"
proof -
  obtain reward guard rp lq rest tx0 ins nft tx1 vlq tx2 tmp tx3 b1 b2 b3 b4 b5 tx4 tx5 where
    r: "token_try_from (dv_lib D) (program_budget (di_conf I)) = Some reward" and
    t0: "move_tokens D I height utxos reward = Some (Inr (lq, rest, tx0))" and
    n: "pool_nft_inputs guard rest tx0 = Some ins" and
    t1: "mint_token D I height ins 5 '''' '''' 1 = Some (Inr (nft, tx1))" and
    t2: "mint_token D I height (own_boxes guard (tx_outputs tx1)) 4 '''' '''' MAX_VALUE = Some (Inr (vlq, tx2))" and
    t3: "mint_token D I height (own_boxes guard (tx_outputs tx2)) 3 '''' '''' MAX_VALUE = Some (Inr (tmp, tx3))" and
    b: "find_box_with_token (tx_outputs tx1) (tok_id nft) = Some b1" "find_box_with_token (tx_outputs tx0) (tok_id reward) = Some b2"
      "find_box_with_token (tx_outputs tx2) (tok_id vlq) = Some b3" "find_box_with_token (tx_outputs tx3) (tok_id tmp) = Some b4"
      "nth_opt (tx_outputs tx3) 1 = Some b5" and
    t4: "pool_input D I height [b1, b2, b3, b4, b5] [nft, reward, lq, vlq, tmp] = Some (Inr tx4)" and
    t5: "init_pool D I height rp (own_boxes guard (tx_outputs tx4)) nft reward lq vlq tmp = Some (Inr tx5)" and
    res: "map fst txs = [tx0, tx1, tx2, tx3, tx4, tx5]" "pid = tok_id nft"
    using assms by (auto simp: deploy_pool_chain_transaction_def try_bind_Inr bind_eq_Some_conv error_results split: if_split_asm)
  have "{b1, b2, b3, b4, b5} \<subseteq> set (tx_outputs tx0) \<union> set (tx_outputs tx1) \<union> set (tx_outputs tx2) \<union> set (tx_outputs tx3)"
    using b found_box by (auto simp: nth_opt_def split: if_split_asm)
  then have 4: "spends_known (set (tx_outputs tx0) \<union> set (tx_outputs tx1) \<union> set (tx_outputs tx2) \<union> set (tx_outputs tx3)) tx4"
    using spends_mono [OF input_spends [OF t4]] by simp
  show ?thesis
    using r res t5 4 move_spends [OF t0] spends_mono [OF mint_spends [OF t1] nft_inputs_subset [OF n]] spends_mono [OF mint_spends [OF t2] own_subset]
      spends_mono [OF mint_spends [OF t3] own_subset] spends_mono [OF init_spends [OF t5] own_subset]
    by - (intro exI conjI, assumption+)
qed

lemma deploy_chain: "deploy_pool_chain_transaction D utxos I height = Some (Inr (txs, pid)) \<Longrightarrow> chain_ok (set utxos) (map fst txs)"
  using deploy_parts by (fastforce elim!: spends_mono)

lemma initial_reads_back:
  assumes "init_pool D I height rp ins nft reward lq vlq tmp = Some (Inr tx)"
    and "token_try_from (dv_lib D) (program_budget (di_conf I)) = Some reward" "unat (max_rounding_error (di_conf I)) < 2 ^ 63"
    and "unat (amount (di_initial_lq I)) * unat (di_num_epochs I) < 2 ^ 64" "di_num_epochs I \<le> ucast (epoch_num (di_conf I))"
  shows "\<exists>p b. pool_try_from_box (dv_lib D) (tx_outputs tx ! 0) = Some p \<and> bundle_try_from_box (dv_lib D) (tx_outputs tx ! 2) = Some b \<and>
    pl_pool_id p = tok_id nft \<and> sb_pool_id b = tok_id nft \<and> conf p = di_conf I \<and> lm_init \<lparr> lm_pool = p, lm_bundles = {#b#} \<rparr> \<and> well_typed \<lparr> lm_pool = p, lm_bundles = {#b#} \<rparr>"
proof -
  let ?p = "initial_pool I nft reward vlq tmp" and ?lq = "amount (di_initial_lq I)" and ?n = "di_num_epochs I"
  obtain lm bun key i j where o: "tx_outputs tx ! 0 = box_of_candidate lm i" "tx_outputs tx ! 2 = box_of_candidate bun j"
    "pool_into_candidate (dv_lib D) ?p height = Some lm" "bundle_proto_into_candidate (dv_lib D) (initial_bundle I rp key nft vlq tmp) height = Some bun"
    by (rule init_outputs [OF assms(1)])
  let ?b = "bundle_finalize (initial_bundle I rp key nft vlq tmp) j"
  have "reward = \<lparr> tok_id = asset_id (program_budget (di_conf I)), tok_amount = amount (program_budget (di_conf I)) \<rparr>" using assms(2) by (simp add: token_try_from_Some)
  then have p: "pool_try_from_box (dv_lib D) (tx_outputs tx ! 0) = Some ?p"
    using pool_box_read_back [OF o(3), of i] assms(3) by (simp add: o(1) initial_pool_def)
  have b: "bundle_try_from_box (dv_lib D) (tx_outputs tx ! 2) = Some ?b"
    using bundle_box_roundtrip [OF o(4), of j] by (simp add: o(2) initial_bundle_def is_utf8_def as_bytes_def)
  have ok: "\<forall>w \<in> {?lq, MAX_VALUE - ?lq, MAX_VALUE - ?lq * ?n}. 0 < w \<and> unat w < 2 ^ 63"
    using pool_into_candidate_Some(5) [OF o(3)] token_amounts by (simp add: initial_pool_def)
  have tmp: "unat (?lq * ?n) = unat ?lq * unat ?n" using assms(4) by (simp add: unat_mult_exact)
  have "token_amount_ok (dv_lib D) (?lq * ?n)"
    using o(4) by (auto simp: bundle_proto_into_candidate_def initial_bundle_def token_try_from_def split: bind_split_asm if_split_asm)
  then have lt: "unat (?lq * ?n) < 2 ^ 63" "0 < ?lq * ?n" using token_amounts by blast+
  have max: "unat MAX_VALUE = 2 ^ 63 - 1" by (simp add: MAX_VALUE_def)
  have vlq: "unat (MAX_VALUE - ?lq) + unat ?lq = 2 ^ 63 - 1" using ok max by (subst unat_sub_exact) auto
  have res: "unat (MAX_VALUE - ?lq * ?n) + unat (?lq * ?n) = 2 ^ 63 - 1" using lt max by (subst unat_sub_exact) auto
  have n: "unat ?n \<le> unat (epoch_num (di_conf I))" using assms(5) by (simp add: word_le_nat_alt unat_ucast_up)
  have "lm_init \<lparr> lm_pool = ?p, lm_bundles = {#?b#} \<rparr>"
    unfolding lm_init_def using ok vlq res n tmp
    by (intro exI [of _ ?b] exI [of _ "unat ?n"]) (auto simp: initial_pool_def bundle_finalize_def initial_bundle_def tmp_of_def)
  moreover have "well_typed \<lparr> lm_pool = ?p, lm_bundles = {#?b#} \<rparr>"
    by (simp add: well_typed_def belongs_def initial_pool_def bundle_finalize_def initial_bundle_def)
  ultimately show ?thesis using p b by (auto simp: initial_pool_def bundle_finalize_def initial_bundle_def)
qed

end

section \<open>Instance\<close>

text \<open>Transaction identifiers grow along a chain; a selection takes all boxes, those without tokens when no token is wanted.\<close>

definition deploy_lib :: ergo_lib where
  "deploy_lib = sample_lib \<lparr> new_tx_id := (\<lambda>ins dins outs. 16 * (1 + sum_list (map in_box ins))) \<rparr>"

definition sample_deploy :: deploy_env where
  "sample_deploy = \<lparr> dv_lib = deploy_lib,
     dv_select = (\<lambda>boxes _ tokens. Inr (if tokens = [] then filter (\<lambda>bx. bx_tokens bx = None) boxes else boxes)),
     dv_build = (\<lambda>_. Inr ()), dv_mint_regs = (\<lambda>_ _ _. []), dv_checked_add = (\<lambda>a b. Inr (a + b)), dv_checked_mul_u32 = (\<lambda>a k. Inr (a * ucast k)),
     dv_sign = wallet_sign (sample_wallet deploy_lib), dv_addr_script = Inr [7] \<rparr>"

definition sample_inputs :: deploy_inputs where
  "sample_inputs = \<lparr> di_conf = \<lparr> epoch_len = 10, epoch_num = 10, program_start = 200, redeem_blocks_delta = 10, max_rounding_error = 11,
       program_budget = typed_amount 2 1000000000 \<rparr>,
     di_tx_fee = 1000000, di_erg_value_per_box = 2000000, di_initial_lq = typed_amount 3 1000, di_num_epochs = 10 \<rparr>"

definition sample_utxo :: ergo_box where
  "sample_utxo = \<lparr> bx_value = 100000000000, bx_tree = [7], bx_tokens = Some [\<lparr> tok_id = 2, tok_amount = 1000000000 \<rparr>, \<lparr> tok_id = 3, tok_amount = 1000 \<rparr>],
     bx_regs = [], bx_height = 1, box_id = 1 \<rparr>"

interpretation sample_deploy: deployment sample_deploy
proof (intro deployment.intro deployment_axioms.intro)
  have "\<forall>tc i b. pv_get_input_box (sample_wallet deploy_lib) tc i = Some b \<longrightarrow> box_id b = i"
    by (auto simp: sample_wallet_def find_Some_iff case_prod_beta) (metis fst_conv)
  from wallet_signer [OF this] show "signer (dv_lib sample_deploy) (dv_sign sample_deploy)" by (simp add: sample_deploy_def sample_wallet_def)
  show "0 < w \<and> unat w < 2 ^ 63" if "token_amount_ok (dv_lib sample_deploy) w" for w
    using that by (simp add: sample_deploy_def deploy_lib_def sample_lib_def positive_long_def word_less_nat_alt)
qed (auto simp: sample_deploy_def split: if_split_asm)

lemmas deploy_fields = sample_deploy_def sample_inputs_def deploy_lib_def sample_lib_def erg_constants positive_long_def

lemma sample_targets:
  "calc_target_balance sample_deploy sample_inputs 6 = Some (Inr 17566000)" "calc_target_balance sample_deploy sample_inputs 5 = Some (Inr 14566000)"
  "calc_target_balance sample_deploy sample_inputs 4 = Some (Inr 11566000)" "calc_target_balance sample_deploy sample_inputs 3 = Some (Inr 8566000)"
  "calc_target_balance sample_deploy sample_inputs 2 = Some (Inr 5566000)" "calc_target_balance sample_deploy sample_inputs 1 = Some (Inr 2566000)"
  by (simp_all add: calc_target_balance_def map_err_def box_value_of_def deploy_fields)

lemma sample_wallet_signs:
  "\<forall>i \<in> set ins. \<exists>b. pv_get_input_box (sample_wallet E) tc (in_box i) = Some b \<Longrightarrow>
   sign_inputs (sample_wallet E) tc msg k ins = Some (Inr (map (\<lambda>i. \<lparr> in_box = in_box i, in_ext = [] \<rparr>) ins))"
  by (induction ins arbitrary: k) (auto simp: sign_input_def, auto simp: sample_wallet_def)

lemma sample_balanced:
  assumes "boxes \<noteq> []" "outs \<noteq> []" "length boxes \<le> 32767" "length outs \<le> 32767"
  shows "sign_balanced sample_deploy boxes outs =
    (let tx = transaction_new deploy_lib (map (\<lambda>bx. \<lparr> in_box = box_id bx, in_ext = [] \<rparr>) boxes) None outs
     in if funds_total boxes = funds_total (tx_outputs tx) then Some (Inr tx) else None)"
proof -
  let ?tc = "\<lparr> tc_inputs = map (\<lambda>bx. (bx, [])) boxes, tc_data_inputs = None, tc_outputs = outs \<rparr>"
  have "\<exists>b. find (\<lambda>(b, _). box_id b = i) (map (\<lambda>bx. (bx, [] :: context_ext)) boxes) = Some b" if "i \<in> box_id ` set boxes" for i
  proof (cases "find (\<lambda>(b, _). box_id b = i) (map (\<lambda>bx. (bx, [] :: context_ext)) boxes)")
    case None
    then show ?thesis using that by (auto simp: find_None_iff)
  qed blast
  then have "sign_inputs (sample_wallet deploy_lib) ?tc msg 0 (map (\<lambda>bx. \<lparr> in_box = box_id bx, in_ext = [] \<rparr>) boxes) =
      Some (Inr (map (\<lambda>bx. \<lparr> in_box = box_id bx, in_ext = [] \<rparr>) boxes))" for msg
    by (subst sample_wallet_signs) (fastforce simp: sample_wallet_def)+
  then have "wallet_sign (sample_wallet deploy_lib) ?tc = Some (Inr (transaction_new deploy_lib (map (\<lambda>bx. \<lparr> in_box = box_id bx, in_ext = [] \<rparr>) boxes) None outs))"
    using assms by (simp add: wallet_sign_def comp_def tx_io_vec_def) (simp add: sample_wallet_def deploy_lib_def sample_lib_def)
  moreover have "tx_io_max deploy_lib = 32767" "dv_lib sample_deploy = deploy_lib" "dv_sign sample_deploy = wallet_sign (sample_wallet deploy_lib)"
    by (simp_all add: sample_deploy_def deploy_lib_def sample_lib_def)
  ultimately show ?thesis using assms by (simp add: sign_balanced_def tx_io_vec_def Let_def map_err_def)
qed

definition own_box :: "u64 \<Rightarrow> token list option \<Rightarrow> box_id \<Rightarrow> ergo_box" where
  "own_box v tokens i = \<lparr> bx_value = v, bx_tree = [7], bx_tokens = tokens, bx_regs = [], bx_height = 10, box_id = i \<rparr>"

definition chain_tx :: "box_id list \<Rightarrow> box_id \<Rightarrow> token list \<Rightarrow> u64 \<Rightarrow> transaction" where
  "chain_tx ins i tokens funds = \<lparr> tx_id = i, tx_inputs = map (\<lambda>b. \<lparr> in_box = b, in_ext = [] \<rparr>) ins, tx_data_inputs = None,
     tx_outputs = [own_box 2000000 (Some tokens) i, own_box funds None (i + 1),
       \<lparr> bx_value = 1000000, bx_tree = [1, 2, 3], bx_tokens = None, bx_regs = [], bx_height = 10, box_id = i + 2 \<rparr>, own_box 99982434000 None (i + 3)] \<rparr>"

lemmas stage_defs = new_builder_def add_tokens_def build_box_def select_boxes_def addr_script_def miner_into_candidate_def box_value_of_def
  token_try_from_def funds_total_def safe_sub_def saturating_sub_def map_err_def Let_def transaction_new_def

lemma sample_counts: "count_tokens sample_inputs [sample_utxo] = (1000000000, 1000, [])"
  by (simp add: count_tokens_def box_tokens_def sample_utxo_def sample_inputs_def)

lemma sample_utxo_fields: "box_id sample_utxo = 1" "bx_value sample_utxo = 100000000000"
  by (simp_all add: sample_utxo_def)

lemma sample_env_fields: "dv_lib sample_deploy = deploy_lib" "dv_build sample_deploy c = Inr ()" "dv_addr_script sample_deploy = Inr [7]" "dv_mint_regs sample_deploy n d k = []"
  "dv_select sample_deploy boxes t ts = Inr (if ts = [] then filter (\<lambda>bx. bx_tokens bx = None) boxes else boxes)"
  by (simp_all add: sample_deploy_def)

lemma deploy_lib_fields: "box_value_ok deploy_lib = positive_long" "token_amount_ok deploy_lib = positive_long" "miners_fee_tree deploy_lib = [1, 2, 3]"
  "prove_dlog deploy_lib = Some" "prop_tree deploy_lib = (\<lambda>p. p)" "tx_io_max deploy_lib = 32767" "new_box_id deploy_lib c t i = t + word_of_nat i" "new_tx_id deploy_lib ins dins outs = 16 * (1 + sum_list (map in_box ins))"
  by (simp_all add: deploy_lib_def sample_lib_def)

lemma sample_input_fields: "di_tx_fee sample_inputs = 1000000" "di_erg_value_per_box sample_inputs = 2000000" "di_initial_lq sample_inputs = typed_amount 3 1000"
  "program_budget (di_conf sample_inputs) = typed_amount 2 1000000000" "di_num_epochs sample_inputs = 10"
  by (simp_all add: sample_inputs_def)

lemmas sample_fields = sample_targets sample_utxo_fields sample_env_fields deploy_lib_fields sample_input_fields positive_long_def

lemma stage_0: "move_tokens sample_deploy sample_inputs 10 [sample_utxo] \<lparr> tok_id = 2, tok_amount = 1000000000 \<rparr> =
    Some (Inr (\<lparr> tok_id = 3, tok_amount = 1000 \<rparr>, [], chain_tx [1] 32 [\<lparr> tok_id = 2, tok_amount = 1000000000 \<rparr>, \<lparr> tok_id = 3, tok_amount = 1000 \<rparr>] 14566000))"
  by (simp add: move_tokens_def sample_counts sample_fields stage_defs remaining_token_def sample_balanced chain_tx_def own_box_def box_of_candidate_def)

lemma chain_outputs: "own_boxes [7] (tx_outputs (chain_tx ins i ts f)) = [own_box 2000000 (Some ts) i, own_box f None (i + 1), own_box 99982434000 None (i + 3)]"
  by (simp add: own_boxes_def chain_tx_def own_box_def)

lemma own_fields: "bx_tokens (own_box v ts i) = ts" "bx_value (own_box v ts i) = v" "box_id (own_box v ts i) = i"
  by (simp_all add: own_box_def)

lemma stage_1: "mint_token sample_deploy sample_inputs 10 (own_boxes [7] (tx_outputs (chain_tx ins 32 ts 14566000))) 5 '''' '''' 1 =
    Some (Inr (\<lparr> tok_id = 33, tok_amount = 1 \<rparr>, chain_tx [33, 35] 1104 [\<lparr> tok_id = 33, tok_amount = 1 \<rparr>] 11566000))"
  by (simp add: mint_token_def chain_outputs sample_fields stage_defs sample_balanced own_fields)
    (simp add: chain_tx_def own_box_def box_of_candidate_def sample_fields)

lemma stage_2: "mint_token sample_deploy sample_inputs 10 (own_boxes [7] (tx_outputs (chain_tx ins 1104 ts 11566000))) 4 '''' '''' MAX_VALUE =
    Some (Inr (\<lparr> tok_id = 1105, tok_amount = MAX_VALUE \<rparr>, chain_tx [1105, 1107] 35408 [\<lparr> tok_id = 1105, tok_amount = MAX_VALUE \<rparr>] 8566000))"
  by (simp add: mint_token_def chain_outputs sample_fields stage_defs sample_balanced own_fields)
    (simp add: chain_tx_def own_box_def box_of_candidate_def sample_fields)

lemma stage_3: "mint_token sample_deploy sample_inputs 10 (own_boxes [7] (tx_outputs (chain_tx ins 35408 ts 8566000))) 3 '''' '''' MAX_VALUE =
    Some (Inr (\<lparr> tok_id = 35409, tok_amount = MAX_VALUE \<rparr>, chain_tx [35409, 35411] 1133136 [\<lparr> tok_id = 35409, tok_amount = MAX_VALUE \<rparr>] 5566000))"
  by (simp add: mint_token_def chain_outputs sample_fields stage_defs sample_balanced own_fields)
    (simp add: chain_tx_def own_box_def box_of_candidate_def sample_fields)

lemma chain_nth: "find_box_with_token (tx_outputs (chain_tx ins i (t # ts) f)) (tok_id t) = Some (own_box 2000000 (Some (t # ts)) i)"
  "nth_opt (tx_outputs (chain_tx ins i ts f)) 1 = Some (own_box f None (i + 1))"
  by (simp_all add: find_box_with_token_def chain_tx_def own_box_def box_tokens_def)

definition sample_tokens :: "token list" where
  "sample_tokens = [\<lparr> tok_id = 33, tok_amount = 1 \<rparr>, \<lparr> tok_id = 2, tok_amount = 1000000000 \<rparr>, \<lparr> tok_id = 3, tok_amount = 1000 \<rparr>,
     \<lparr> tok_id = 1105, tok_amount = MAX_VALUE \<rparr>, \<lparr> tok_id = 35409, tok_amount = MAX_VALUE \<rparr>]"

lemma stage_4: "\<exists>tx. pool_input sample_deploy sample_inputs 10 [own_box 2000000 (Some t1) i1, own_box 2000000 (Some t2) i2, own_box 2000000 (Some t3) i3,
      own_box 2000000 (Some t4) i4, own_box 5566000 None i5] sample_tokens = Some (Inr tx) \<and>
    (\<exists>b. own_boxes [7] (tx_outputs tx) = [b, own_box 2566000 None (box_id b + 1), own_box 8000000 None (box_id b + 3)] \<and> bx_value b = 2000000)"
  by (simp add: pool_input_def sample_fields stage_defs sample_balanced own_fields sample_tokens_def tx_io_vec_def)
    (simp add: own_boxes_def own_box_def box_of_candidate_def sample_fields)

lemma stage_5:
  assumes "bx_value b = 2000000"
  shows "\<exists>tx. init_pool sample_deploy sample_inputs 10 [7] [b, own_box 2566000 None i, own_box 8000000 None j] \<lparr> tok_id = 33, tok_amount = 1 \<rparr> \<lparr> tok_id = 2, tok_amount = 1000000000 \<rparr>
      \<lparr> tok_id = 3, tok_amount = 1000 \<rparr> \<lparr> tok_id = 1105, tok_amount = MAX_VALUE \<rparr> \<lparr> tok_id = 35409, tok_amount = MAX_VALUE \<rparr> = Some (Inr tx)"
  using assms
  by (simp add: init_pool_def initial_pool_def initial_bundle_def pool_into_candidate_def pool_nft_def bundle_proto_into_candidate_def deposit_out_into_candidate_def
      sample_fields stage_defs tx_io_vec_def erg_constants MAX_VALUE_def BUNDLE_KEY_AMOUNT_def BUNDLE_KEY_AMOUNT_USER_def UNIT_VALUE_def)
    (simp add: sample_fields stage_defs sample_balanced own_fields box_of_candidate_def)

lemma sample_deployed: "\<exists>txs pid. deploy_pool_chain_transaction sample_deploy [sample_utxo] sample_inputs 10 = Some (Inr (txs, pid))"
proof -
  let ?r = "\<lparr> tok_id = 2, tok_amount = 1000000000 \<rparr> :: token"
  have c: "check_utxos [sample_utxo] sample_inputs = Inr ()" by (simp add: check_utxos_def sample_counts sample_fields)
  obtain tx4 b where 4: "pool_input sample_deploy sample_inputs 10 [own_box 2000000 (Some [\<lparr> tok_id = 33, tok_amount = 1 \<rparr>]) 1104,
        own_box 2000000 (Some [?r, \<lparr> tok_id = 3, tok_amount = 1000 \<rparr>]) 32, own_box 2000000 (Some [\<lparr> tok_id = 1105, tok_amount = MAX_VALUE \<rparr>]) 35408,
        own_box 2000000 (Some [\<lparr> tok_id = 35409, tok_amount = MAX_VALUE \<rparr>]) 1133136, own_box 5566000 None (1133136 + 1)] sample_tokens = Some (Inr tx4)"
    "own_boxes [7] (tx_outputs tx4) = [b, own_box 2566000 None (box_id b + 1), own_box 8000000 None (box_id b + 3)]" "bx_value b = 2000000"
    using stage_4 by meson
  obtain tx5 where 5: "init_pool sample_deploy sample_inputs 10 [7] (own_boxes [7] (tx_outputs tx4)) \<lparr> tok_id = 33, tok_amount = 1 \<rparr> ?r
      \<lparr> tok_id = 3, tok_amount = 1000 \<rparr> \<lparr> tok_id = 1105, tok_amount = MAX_VALUE \<rparr> \<lparr> tok_id = 35409, tok_amount = MAX_VALUE \<rparr> = Some (Inr tx5)"
    using stage_5 [OF 4(3)] unfolding 4(2) by blast
  have f: "find_box_with_token (tx_outputs (chain_tx ins j [\<lparr> tok_id = i, tok_amount = a \<rparr>] g)) i = Some (own_box 2000000 (Some [\<lparr> tok_id = i, tok_amount = a \<rparr>]) j)"
    "find_box_with_token (tx_outputs (chain_tx ins j [?r, \<lparr> tok_id = 3, tok_amount = 1000 \<rparr>] g)) 2 = Some (own_box 2000000 (Some [?r, \<lparr> tok_id = 3, tok_amount = 1000 \<rparr>]) j)"
    for ins j i a g using chain_nth(1) [of ins j "\<lparr> tok_id = i, tok_amount = a \<rparr>" "[]" g] chain_nth(1) [of ins j ?r] by simp_all
  have m: "positive_long 1" "positive_long MAX_VALUE" "positive_long 1000000000" by (simp_all add: positive_long_def MAX_VALUE_def)
  have t: "token_try_from deploy_lib (typed_amount 2 1000000000) = Some ?r" by (simp add: token_try_from_def deploy_lib_fields m)
  show ?thesis
    using 4(1) 5
    by (simp add: deploy_pool_chain_transaction_def c map_err_def addr_script_def sample_env_fields deploy_lib_fields sample_input_fields t m stage_0 stage_1 stage_2 stage_3
        pool_nft_inputs_def f chain_nth(2) sample_tokens_def del: One_nat_def)
qed

section \<open>Checks and balances\<close>

text \<open>
  What a transaction needs when \<open>k\<close> are left, where the arithmetic of \<open>BoxValue\<close> is exact: the fees of all of them, a box for
  each but the last, and three boxes of \<open>MIN_SAFE_FAT_BOX_VALUE\<close> for the last.
\<close>

lemma target_balance_exact:
  assumes "\<forall>a b c. dv_checked_add D a b = Inr c \<longrightarrow> unat c = unat a + unat b" "\<forall>a k c. dv_checked_mul_u32 D a k = Inr c \<longrightarrow> unat c = unat a * unat k"
    and "calc_target_balance D I k = Some (Inr t)"
  shows "unat t = unat k * unat (di_tx_fee I) + (unat k - 1) * unat (di_erg_value_per_box I) + 3 * unat MIN_SAFE_FAT_BOX_VALUE"
proof -
  obtain s b f l where r: "dv_checked_add D (di_erg_value_per_box I) (di_tx_fee I) = Inr s" "dv_checked_mul_u32 D s (k - 1) = Inr b"
    "dv_checked_mul_u32 D MIN_SAFE_FAT_BOX_VALUE 3 = Inr f" "dv_checked_add D (di_tx_fee I) f = Inr l" "dv_checked_add D b l = Inr t" "k \<noteq> 0"
    using assms(3) by (auto simp: calc_target_balance_def try_bind_Inr box_value_of_Some split: if_split_asm bind_split_asm)
  have k: "unat (k - 1) = unat k - 1" "0 < unat k" using r(6) by (simp_all add: unat_minus_one unat_gt_0)
  have "unat t = (unat (di_erg_value_per_box I) + unat (di_tx_fee I)) * (unat k - 1) + (unat (di_tx_fee I) + unat MIN_SAFE_FAT_BOX_VALUE * 3)"
    using r(1-5) assms(1,2) k(1) by simp
  then show ?thesis using k(2) by (cases "unat k") (simp_all add: algebra_simps)
qed

text \<open>The number of epochs to delegate is not checked against the epochs of the program.\<close>

lemma delegation_unchecked: "validate_pool (I \<lparr> di_num_epochs := n \<rparr>) h = validate_pool I h" "check_utxos utxos (I \<lparr> di_num_epochs := n \<rparr>) = check_utxos utxos I"
  by (simp_all add: validate_pool_def check_utxos_def count_tokens_def Let_def cong: if_cong)

text \<open>The boxes are checked for 100 liquidity tokens, whatever the initial deposit.\<close>

lemma deposit_unchecked: "check_utxos utxos (I \<lparr> di_initial_lq := typed_amount (asset_id (di_initial_lq I)) n \<rparr>) = check_utxos utxos I"
  by (simp add: check_utxos_def count_tokens_def)

section \<open>Properties\<close>



lemma sample_validated: "validate_pool sample_inputs 10 = Some (Inr ())"
  by (simp add: validate_pool_def checked_div_def sample_inputs_def)

lemma sample_deploy_pool: "\<exists>txs pid. deploy_pool sample_deploy sample_inputs 10 [sample_utxo] = Some (Inr (txs, pid))"
  using sample_deployed by (simp add: deploy_pool_def map_err_def sample_validated)



end
