(* ===== verification/Deploy_Node.thy ===== *)
theory Deploy_Node
  imports Deploy LM_Handlers
begin

text \<open>
  The deployment tool and the node together: what the checks of the tool mean for the epoch arithmetic of the pool, and
  what the node's schedules hold once the last transaction of a deployment has been applied.
\<close>

section \<open>The checked program\<close>

text \<open>The bounds that \<open>validate_pool\<close> puts on the rounding error, over the natural numbers.\<close>

lemma rounding_bounds:
  fixes b n m :: nat
  assumes "n < m" "m * n < b div n" "b < 2 ^ 53"
  shows "0 < n" "m < b div n" "b mod (b div n) \<le> m" "(b - m + b div n - 1) div (b div n) = n" "n < 2 ^ 27" "b \<le> (n + 1) * (b div n)"
proof -
  define a r where "a = b div n" and "r = b mod n"
  show n: "0 < n" using assms(2) by (cases n) auto
  have m: "m < a" using assms(2) n unfolding a_def by (metis mult.right_neutral mult_le_mono2 Suc_leI One_nat_def order.strict_trans1)
  then show "m < b div n" by (simp only: a_def)
  have r: "b = a * n + r" "r < m" using n assms(1) less_trans [of r n m] by (simp_all add: a_def r_def)
  have "(a * n + r) mod a = r" using r(2) m by simp
  then have "b mod a = r" by (simp only: r(1) [symmetric])
  then show "b mod (b div n) \<le> m" using r(2) by (simp only: a_def)
  have "(b - m + a - 1) div a = n"
  proof (rule div_nat_eqI)
    show "a * n \<le> b - m + a - 1" using r m by linarith
    show "b - m + a - 1 < a * Suc n" using r m unfolding mult_Suc_right by linarith
  qed
  then show "(b - m + b div n - 1) div (b div n) = n" by (simp only: a_def)
  have "n * n < a" using assms(1,2) unfolding a_def by (meson le_less_trans less_imp_le_nat mult_le_mono1)
  also have "a \<le> b" by (simp add: a_def)
  also have "\<dots> < 2 ^ 53" by (rule assms(3))
  finally have "n * n < 2 ^ 53" .
  then show "n < 2 ^ 27" using mult_le_mono [of "2 ^ 27" n "2 ^ 27" n] by (cases "n < 2 ^ 27") (simp_all add: not_less)
  have "b \<le> n * a + a" using r m unfolding mult.commute [of n a] by linarith
  then show "b \<le> (n + 1) * (b div n)" by (simp add: a_def)
qed

text \<open>
  A pool with the whole budget of a program that passed the checks: its epoch is completed, all epochs are left, before the
  start of the program a deposit gets temporal tokens for all of them, and the first compounding is at the end of the first epoch.
\<close>

lemma checked_program:
  assumes "validate_pool I h0 = Some (Inr ())" "conf p = di_conf I" "amount (budget_rem p) = amount (program_budget (conf p))"
    and "unat (amount (program_budget (conf p))) < 2 ^ 53" "unat (max_rounding_error (conf p)) * unat (epoch_num (conf p)) < 2 ^ 64"
  shows "epoch_completed p = Some True" "epochs_left_to_process p = Some (epoch_num (conf p))" "epoch_num (conf p) \<noteq> 0"
proof -
  let ?b = "amount (program_budget (conf p))" and ?n = "epoch_num (conf p)" and ?m = "max_rounding_error (conf p)"
  have v: "ucast ?n < ?m" "(ucast ?n :: u64) \<noteq> 0" "?m * ucast ?n < ?b div ucast ?n"
    using assms(1) by (auto simp: validate_pool_def assms(2) Let_def checked_div_def not_le split: if_split_asm bind_split_asm)
  have un: "unat (ucast ?n :: u64) = unat ?n" by (simp add: unat_ucast_up)
  have nm: "unat ?n < unat ?m" using v(1) by (simp add: word_less_nat_alt un)
  have "unat (?m * ucast ?n) = unat ?m * unat ?n" using assms(5) by (subst unat_mult_exact) (simp_all add: un)
  then have mn: "unat ?m * unat ?n < unat ?b div unat ?n" using v(3) by (simp add: word_less_nat_alt unat_div un)
  note R = rounding_bounds [OF nm mn assms(4)]
  let ?a = "?b div ucast ?n"
  have a: "epoch_alloc p = Some ?a" "unat ?a = unat ?b div unat ?n" using v(2) by (simp_all add: epoch_alloc_def checked_div_def unat_div un)
  have safe: "f64_safe p" using R(2) assms(3,4) div_le_dividend [of "unat ?b" "unat ?n"] unfolding f64_safe_def assms(3) by (intro conjI) linarith+
  have a0: "?a \<noteq> 0" using R(2) a(2) by (metis not_less0 unat_0)
  show "epoch_completed p = Some True" using epoch_completed_exact_aux [OF safe a(1)] R(3) a0 a(2) assms(3) by simp
  have "unat ?b \<le> (2 ^ 32 - 1) * unat ?a"
  proof -
    have "unat ?n + 1 \<le> 2 ^ 32 - 1" using R(5) by simp
    from mult_le_mono1 [OF this] show ?thesis unfolding a(2) by (rule order_trans [OF R(6)])
  qed
  then obtain k where "epochs_left_to_process p = Some k" "unat k = unat ?n"
    using epochs_left_exact_aux [OF safe a(1) a0] R(4) assms(3) a(2) by auto
  then show "epochs_left_to_process p = Some ?n" by (simp add: word_unat_eq_iff)
  show "?n \<noteq> 0" using R(1) by auto
qed

text \<open>The schedule of such a pool.\<close>

definition first_compounding :: "program_config \<Rightarrow> u32" where
  "first_compounding c = program_start c + epoch_len c"

lemma checked_schedule:
  assumes "validate_pool I h0 = Some (Inr ())" "conf p = di_conf I" "amount (budget_rem p) = amount (program_budget (conf p))"
    and "unat (amount (program_budget (conf p))) < 2 ^ 53" "unat (max_rounding_error (conf p)) * unat (epoch_num (conf p)) < 2 ^ 64"
    and "unat (program_start (conf p)) + unat (epoch_num (conf p)) * unat (epoch_len (conf p)) < 2 ^ 32"
  shows "\<exists>sc. schedule_from_pool p = Some sc \<and> ps_pool_id sc = pl_pool_id p \<and> next_compounding_at sc = Some (first_compounding (conf p))"
proof -
  note c = checked_program [OF assms(1-5)]
  let ?c = "conf p"
  have "0 < unat (epoch_num ?c)" using c(3) by (simp add: unat_gt_0)
  then have le: "unat (program_start ?c) + unat (epoch_len ?c) \<le> unat (program_start ?c) + unat (epoch_num ?c) * unat (epoch_len ?c)" by simp
  have "unat (program_start ?c + epoch_len ?c) = unat (program_start ?c) + unat (epoch_len ?c)"
    using le_less_trans [OF le assms(6)] by (simp add: unat_word_ariths)
  moreover have "unat (program_start ?c + epoch_len ?c * epoch_num ?c) = unat (program_start ?c) + unat (epoch_num ?c) * unat (epoch_len ?c)"
    using assms(6) by (simp add: unat_word_ariths mult.commute)
  ultimately have "program_start ?c + epoch_len ?c \<le> program_start ?c + epoch_len ?c * epoch_num ?c" using le by (simp add: word_le_nat_alt)
  then show ?thesis
    by (simp add: schedule_from_pool_def c(2) next_compounding_at_def schedule_program_end_def first_compounding_def)
qed

lemma validated_rounding: "validate_pool I h0 = Some (Inr ()) \<Longrightarrow> unat (max_rounding_error (di_conf I)) \<le> unat (max_rounding_error (di_conf I)) * unat (epoch_num (di_conf I))"
  by (cases "epoch_num (di_conf I) = 0") (auto simp: validate_pool_def Let_def checked_div_def unat_gt_0 Suc_le_eq split: if_split_asm bind_split_asm)

lemma first_compounding_pos:
  assumes "validate_pool I h0 = Some (Inr ())" "unat (program_start (di_conf I)) + unat (epoch_num (di_conf I)) * unat (epoch_len (di_conf I)) < 2 ^ 32"
    and "epoch_len (di_conf I) \<noteq> 0"
  shows "first_compounding (di_conf I) \<noteq> 0"
proof -
  let ?c = "di_conf I"
  have n: "0 < unat (epoch_num ?c)" "0 < unat (epoch_len ?c)"
    using assms(1,3) by (auto simp: validate_pool_def Let_def checked_div_def unat_gt_0 split: if_split_asm bind_split_asm)
  then have "unat (program_start ?c) + unat (epoch_len ?c) \<le> unat (program_start ?c) + unat (epoch_num ?c) * unat (epoch_len ?c)" by simp
  from le_less_trans [OF this assms(2)] have "unat (first_compounding ?c) = unat (program_start ?c) + unat (epoch_len ?c)"
    unfolding first_compounding_def by (intro unat_add_exact) simp
  then show ?thesis using n(2) by auto
qed

section \<open>The last transaction of a deployment\<close>

lemma unread_box: "(\<forall>ts. bx_tokens c = Some ts \<longrightarrow> length ts \<noteq> 5) \<Longrightarrow> pool_try_from_box E (box_of_candidate c i) = None"
  by (auto simp: pool_try_from_box_def box_of_candidate_def split: option.split)

context deployment
begin

lemma balanced_outputs: "sign_balanced D boxes outs = Some (Inr tx) \<Longrightarrow> list_all2 (\<lambda>c bx. \<exists>i. bx = box_of_candidate c i) outs (tx_outputs tx)"
  using sign_outputs by (fastforce simp: sign_balanced_def try_bind_Inr tx_io_vec_Some list_all2_conv_all_nth split: bind_split_asm if_split_asm)

text \<open>Its outputs hold one pool.\<close>

lemma initial_event:
  assumes "init_pool D I height rp ins nft reward lq vlq tmp = Some (Inr tx)" "unat (max_rounding_error (di_conf I)) < 2 ^ 63"
    and "tok_id reward = asset_id (program_budget (di_conf I))"
  shows "event_pools (dv_lib D) P db (AppliedTx ts tx) = [initial_pool I nft reward vlq tmp]"
proof -
  let ?p = "initial_pool I nft reward vlq tmp" and ?f = "pool_try_from_box (dv_lib D)"
  obtain sel lm dep bun more key where r: "sign_balanced D sel (lm # dep # bun # more) = Some (Inr tx)" "pool_into_candidate (dv_lib D) ?p height = Some lm"
    "bundle_proto_into_candidate (dv_lib D) (initial_bundle I rp key nft vlq tmp) height = Some bun" "\<exists>t. bx_tokens dep = Some [t]" "\<forall>c \<in> set more. bx_tokens c = None"
    using init_Inr [OF assms(1)] by blast
  obtain i bs where o: "tx_outputs tx = box_of_candidate lm i # bs" "list_all2 (\<lambda>c bx. \<exists>i. bx = box_of_candidate c i) (dep # bun # more) bs"
    using balanced_outputs [OF r(1)] unfolding list_all2_Cons1 [of _ lm "dep # bun # more"] by blast
  have "?f (box_of_candidate lm i) = Some ?p" using pool_box_read_back [OF r(2)] assms(2,3) by (simp add: initial_pool_def)
  moreover have "bx_tokens bun = Some (bundle_tokens (initial_bundle I rp key nft vlq tmp))" by (rule bundle_proto_into_candidate_Some(3) [OF r(3)])
  then have "\<forall>c \<in> set (dep # bun # more). \<forall>ts. bx_tokens c = Some ts \<longrightarrow> length ts \<noteq> 5"
    using r(4,5) by (auto simp: bundle_tokens_def split: option.splits)
  then have "list_all2 (\<lambda>c bx. ?f bx = None) (dep # bun # more) bs"
    by (intro list.rel_mono_strong [OF o(2)]) (auto intro: unread_box)
  then have "\<forall>bx \<in> set bs. ?f bx = None" by (auto simp: list_all2_conv_all_nth in_set_conv_nth)
  then have "List.map_filter ?f bs = []" by (simp add: List.map_filter_def filter_empty_conv)
  ultimately show ?thesis by (simp add: o(1))
qed

end

text \<open>Any pool that a schedule can be made for is scheduled.\<close>

lemma schedule_pool_total: "schedule_from_pool p = Some sc \<Longrightarrow> \<exists>repo'. schedule_pool S repo p = Some repo'"
  by (auto simp: schedule_pool_def split: prod.split sum.split)

lemma deployed_event:
  assumes "deployment D" "deploy_pool D I height utxos = Some (Inr (txs, pid))" "unat (max_rounding_error (di_conf I)) < 2 ^ 63"
  obtains p where "event_pools (dv_lib D) P db (AppliedTx ts (fst (txs ! 5))) = [p]" "pl_pool_id p = pid" "conf p = di_conf I"
    "amount (budget_rem p) = amount (program_budget (di_conf I))"
proof -
  have d: "deploy_pool_chain_transaction D utxos I height = Some (Inr (txs, pid))" using assms(2) by (auto simp: deploy_pool_def try_bind_Inr)
  obtain reward rp lq nft vlq tmp ins tx0 tx1 tx2 tx3 tx4 tx5 where r: "map fst txs = [tx0, tx1, tx2, tx3, tx4, tx5]" "pid = tok_id nft"
    "token_try_from (dv_lib D) (program_budget (di_conf I)) = Some reward" "init_pool D I height rp ins nft reward lq vlq tmp = Some (Inr tx5)"
    using deployment.deploy_parts [OF assms(1) d] by (elim exE conjE) (rule that)
  have "length txs = 6" using arg_cong [OF r(1), of length] by simp
  then have t: "fst (txs ! 5) = tx5" using arg_cong [OF r(1), of "\<lambda>xs. xs ! 5"] by simp
  have "reward = \<lparr> tok_id = asset_id (program_budget (di_conf I)), tok_amount = amount (program_budget (di_conf I)) \<rparr>"
    using r(3) by (simp add: token_try_from_Some)
  then show ?thesis
    using that [of "initial_pool I nft reward vlq tmp"] deployment.initial_event [OF assms(1) r(4) assms(3)] by (simp add: t r(2) initial_pool_def)
qed

section \<open>Properties\<close>

text \<open>The checks of the deployment tool are right for the node.  A pool that holds the whole budget of a program that passed them is at
  the end of an epoch in the sense of the node, so that deposits and redeems are open, has all its epochs left to pay, gives a
  deposit made before the start temporal tokens for all epochs, and is scheduled for its first compounding at the end of the first
  epoch.  Budgets are below \<open>2^53\<close>, the product of rounding error and epochs fits 64 bits and the end of the program 32.\<close>

theorem validated_program_starts:
  assumes "validate_pool I h0 = Some (Inr ())" "conf p = di_conf I" "amount (budget_rem p) = amount (program_budget (conf p))"
    and "unat (amount (program_budget (conf p))) < 2 ^ 53" "unat (max_rounding_error (conf p)) * unat (epoch_num (conf p)) < 2 ^ 64"
    and "unat (program_start (conf p)) + unat (epoch_num (conf p)) * unat (epoch_len (conf p)) < 2 ^ 32" "epoch_len (conf p) \<noteq> 0"
  shows "epoch_completed p = Some True \<and> epochs_left_to_process p = Some (epoch_num (conf p)) \<and>
    (\<forall>h < program_start (conf p). num_epochs_remain p h = Some (epoch_num (conf p))) \<and>
    (\<exists>sc. schedule_from_pool p = Some sc \<and> next_compounding_at sc = Some (program_start (conf p) + epoch_len (conf p)))"
proof -
  have "current_epoch_ix p h = Some 0" if "h < program_start (conf p)" for h
  proof -
    let ?x = "int (unat h) - int (unat (program_start (conf p))) + 1"
    have "unat h < unat (program_start (conf p))" using that by (simp only: word_less_nat_alt)
    then have "?x < 0 \<or> ?x = 0" by linarith
    then show ?thesis using assms(7) unfolding current_epoch_ix_def Let_def by (elim disjE) (simp_all only: if_True if_False, simp_all)
  qed
  then have "\<forall>h < program_start (conf p). num_epochs_remain p h = Some (epoch_num (conf p))" by (simp add: num_epochs_remain_def)
  then show ?thesis using checked_program(1,2) [OF assms(1-5)] checked_schedule [OF assms(1-6)] by (auto simp: first_compounding_def)
qed


theorem validated_program_starts_witness:
  "epoch_completed (initial_pool sample_inputs \<lparr> tok_id = 33, tok_amount = 1 \<rparr> \<lparr> tok_id = 2, tok_amount = 1000000000 \<rparr> \<lparr> tok_id = 1105, tok_amount = MAX_VALUE \<rparr> \<lparr> tok_id = 35409, tok_amount = MAX_VALUE \<rparr>) = Some True \<and>
   num_epochs_remain (initial_pool sample_inputs \<lparr> tok_id = 33, tok_amount = 1 \<rparr> \<lparr> tok_id = 2, tok_amount = 1000000000 \<rparr> \<lparr> tok_id = 1105, tok_amount = MAX_VALUE \<rparr> \<lparr> tok_id = 35409, tok_amount = MAX_VALUE \<rparr>) 150 = Some 10"
proof -
  let ?p = "initial_pool sample_inputs \<lparr> tok_id = 33, tok_amount = 1 \<rparr> \<lparr> tok_id = 2, tok_amount = 1000000000 \<rparr> \<lparr> tok_id = 1105, tok_amount = MAX_VALUE \<rparr> \<lparr> tok_id = 35409, tok_amount = MAX_VALUE \<rparr>"
  have f: "conf ?p = di_conf sample_inputs" "amount (budget_rem ?p) = amount (program_budget (conf ?p))" "program_start (conf ?p) = 200" "epoch_num (conf ?p) = 10"
    by (simp_all add: initial_pool_def sample_inputs_def)
  show ?thesis
    using validated_program_starts [OF sample_validated f(1,2)] f(3,4) by (simp add: f(1)) (simp add: sample_inputs_def)
qed


text \<open>
  What the checks do not cover.  The product of rounding error and epochs wraps, and an epoch of length zero passes; from
  the start of such a program on the epoch index of a pool is a division by zero.
\<close>

lemma rounding_check_wraps:
  "validate_pool (sample_inputs \<lparr> di_conf := (di_conf sample_inputs) \<lparr> max_rounding_error := 9223372036854775808, epoch_num := 2 \<rparr> \<rparr>) 10 = Some (Inr ())"
  by (simp add: validate_pool_def checked_div_def sample_inputs_def)

lemma epoch_length_unchecked:
  "validate_pool (sample_inputs \<lparr> di_conf := (di_conf sample_inputs) \<lparr> epoch_len := 0 \<rparr> \<rparr>) 10 = Some (Inr ())"
  "epoch_len (conf p) = 0 \<Longrightarrow> program_start (conf p) \<le> h \<Longrightarrow> current_epoch_ix p h = None"
proof -
  show "validate_pool (sample_inputs \<lparr> di_conf := (di_conf sample_inputs) \<lparr> epoch_len := 0 \<rparr> \<rparr>) 10 = Some (Inr ())"
    by (simp add: validate_pool_def checked_div_def sample_inputs_def)
  show "current_epoch_ix p h = None" if "epoch_len (conf p) = 0" "program_start (conf p) \<le> h"
  proof -
    have "\<not> int (unat h) - int (unat (program_start (conf p))) + 1 < 0" using that(2) unfolding word_le_nat_alt by linarith
    then show ?thesis unfolding current_epoch_ix_def Let_def that(1) by (simp only: if_False if_True refl)
  qed
qed

end
