(* ===== verification/Identifiers.thy ===== *)
theory Identifiers
  imports LM_Data Entity_Data
begin

text \<open>
  The identifiers of \<open>spectrum-offchain-lm/src/data.rs\<close> and the entity \<open>AsBox\<close>.  An identifier is a 256-bit word; the byte arrays it is
  stored as and the order of bundle identifiers are written out here.  The serde implementation of \<open>AsBox\<close> is modelled by
  the fields it hands to the serializer and by its visitor; the serialisation of a box is of \<open>ergo-lib\<close>, a parameter.
\<close>

section \<open>Identifiers as bytes\<close>

text \<open>\<open>PoolIdBytes\<close>, \<open>PoolStateIdBytes\<close> and \<open>BundleIdBytes\<close> hold 32 bytes.\<close>

definition pool_id_to_bytes :: "pool_id \<Rightarrow> bytes" where "pool_id_to_bytes pid = digest_bytes pid"
definition pool_id_of_bytes :: "bytes \<Rightarrow> pool_id option" where "pool_id_of_bytes xs = digest_of_bytes xs"
definition pool_state_id_to_bytes :: "pool_state_id \<Rightarrow> bytes" where "pool_state_id_to_bytes sid = digest_bytes sid"
definition pool_state_id_of_bytes :: "bytes \<Rightarrow> pool_state_id option" where "pool_state_id_of_bytes xs = digest_of_bytes xs"
definition bundle_id_to_bytes :: "bundle_id \<Rightarrow> bytes" where "bundle_id_to_bytes bid = digest_bytes bid"
definition bundle_id_of_bytes :: "bytes \<Rightarrow> bundle_id option" where "bundle_id_of_bytes xs = digest_of_bytes xs"

lemma id_round_trips [simp]:
  "pool_id_of_bytes (pool_id_to_bytes p) = Some p" "pool_state_id_of_bytes (pool_state_id_to_bytes s) = Some s" "bundle_id_of_bytes (bundle_id_to_bytes b) = Some b"
  by (simp_all add: pool_id_of_bytes_def pool_id_to_bytes_def pool_state_id_of_bytes_def pool_state_id_to_bytes_def bundle_id_of_bytes_def bundle_id_to_bytes_def)

datatype ordering = Less | Equal | Greater

definition bundle_id_cmp :: "bundle_id \<Rightarrow> bundle_id \<Rightarrow> ordering" where
  "bundle_id_cmp a b = (let xs = bundle_id_to_bytes a; ys = bundle_id_to_bytes b in if xs = ys then Equal else if xs < ys then Less else Greater)"

text \<open>The lexicographic order of the bytes is the order of the words, by which the models sort bundle identifiers.\<close>

lemma bundle_id_cmp_word: "bundle_id_cmp a b = (if a = b then Equal else if a < b then Less else Greater)"
proof -
  have "bundle_id_to_bytes a < bundle_id_to_bytes b \<longleftrightarrow> a < b"
    unfolding bundle_id_to_bytes_def digest_bytes_def by (simp add: to_be_bytes_less)
  then show ?thesis by (simp add: bundle_id_cmp_def bundle_id_to_bytes_def)
qed

section \<open>\<open>AsBox\<close>\<close>

definition as_box_id :: "'a as_box \<Rightarrow> box_id" where "as_box_id b = box_id (as_bx b)"
definition as_box_self_ref :: "('a \<Rightarrow> 'i) \<Rightarrow> 'a as_box \<Rightarrow> 'i" where "as_box_self_ref get_self_ref b = get_self_ref (as_val b)"
definition as_box_self_state_ref :: "('a \<Rightarrow> 's) \<Rightarrow> 'a as_box \<Rightarrow> 's" where "as_box_self_state_ref get_self_state_ref b = get_self_state_ref (as_val b)"
definition as_box_order_ref :: "('a \<Rightarrow> 'i) \<Rightarrow> 'a as_box \<Rightarrow> 'i" where "as_box_order_ref get_self_ref b = get_self_ref (as_val b)"
definition as_box_entity_ref :: "('a \<Rightarrow> 'e) \<Rightarrow> 'a as_box \<Rightarrow> 'e" where "as_box_entity_ref get_entity_ref b = get_entity_ref (as_val b)"
definition as_box_try_from_box :: "(ergo_box \<Rightarrow> 'a option) \<Rightarrow> ergo_box \<Rightarrow> 'a as_box option" where
  "as_box_try_from_box try_from_box bx = map_option (AsBox bx) (try_from_box bx)"

record box_bytes =
  bb_serialize :: "ergo_box \<Rightarrow> bytes option"
  bb_parse :: "bytes \<Rightarrow> ergo_box option"

datatype 'a as_box_item = ItemBox bytes | ItemVal 'a | ItemBad

definition as_box_serialize :: "box_bytes \<Rightarrow> 'a as_box \<Rightarrow> 'a as_box_item list panics" where
  "as_box_serialize B b = map_option (\<lambda>bs. [ItemBox bs, ItemVal (as_val b)]) (bb_serialize B (as_bx b))"

fun as_box_visit_seq :: "box_bytes \<Rightarrow> 'a as_box_item list \<Rightarrow> (de_error + 'a as_box) panics" where
  "as_box_visit_seq B [] = Some (Inl (InvalidLength 0))"
| "as_box_visit_seq B [ItemBox field0] = Some (Inl (InvalidLength 1))"
| "as_box_visit_seq B (ItemBox field0 # ItemVal field1 # _) = map_option (\<lambda>bx. Inr (AsBox bx field1)) (bb_parse B field0)"
| "as_box_visit_seq B _ = Some (Inl InvalidType)"

text \<open>What is serialised is read back, and a shorter sequence is refused with the number of fields it has.\<close>

lemma as_box_serde:
  assumes "bb_serialize B (as_bx b) = Some bs" "bb_parse B bs = Some (as_bx b)" "as_box_serialize B b = Some items"
  shows "as_box_visit_seq B items = Some (Inr b)" "n < 2 \<Longrightarrow> as_box_visit_seq B (take n items) = Some (Inl (InvalidLength n))"
proof -
  have i: "items = [ItemBox bs, ItemVal (as_val b)]" using assms(1,3) by (simp add: as_box_serialize_def)
  show "as_box_visit_seq B items = Some (Inr b)" using assms(2) by (simp add: i)
  show "as_box_visit_seq B (take n items) = Some (Inl (InvalidLength n))" if "n < 2"
    using that by (cases n) (simp_all add: i)
qed

end
