(* ===== verification/Adapters.thy ===== *)
theory Adapters
  imports Prelude
begin

text \<open>
  Small adapters: the URLs of the clients (\<open>ergo-chain-sync/src/client/types.rs\<close>), the sink over a channel
  (\<open>spectrum-offchain-lm/src/sink.rs\<close>) and the phrase of a new wallet (\<open>spectrum-deploy-lm-pool/src/generate_wallet.rs\<close>).
  Parsing and building of a \<open>Uri\<close>, the channel and the random number generator are parameters; the word list is an argument, which \<open>Mnemonic\<close> supplies.
\<close>

section \<open>URLs\<close>

record 'u uri_lib =
  ul_from_str :: "string \<Rightarrow> string + 'u"
  ul_scheme :: "'u \<Rightarrow> string option"
  ul_authority :: "'u \<Rightarrow> string option"
  ul_build :: "string \<Rightarrow> string \<Rightarrow> string \<Rightarrow> string + 'u"

datatype invalid_url = InvalidUri string | NoScheme

definition url_from_str :: "'u uri_lib \<Rightarrow> string \<Rightarrow> invalid_url + 'u" where
  "url_from_str U s = (case ul_from_str U s of
      Inl e \<Rightarrow> Inl (InvalidUri e)
    | Inr uri \<Rightarrow> if ul_scheme U uri = None then Inl NoScheme else Inr uri)"

definition url_try_from :: "'u uri_lib \<Rightarrow> string \<Rightarrow> invalid_url + 'u" where
  "url_try_from U = url_from_str U"

definition with_path :: "'u uri_lib \<Rightarrow> 'u \<Rightarrow> string \<Rightarrow> 'u panics" where
  "with_path U uri path = do {
     scheme \<leftarrow> ul_scheme U uri;
     authority \<leftarrow> ul_authority U uri;
     (case ul_build U scheme authority path of Inl _ \<Rightarrow> None | Inr u \<Rightarrow> Some u) }"

text \<open>A parsed URL has a scheme; appending a path panics only without an authority or for a path the builder refuses.\<close>

lemma with_path_panics:
  "url_from_str U s = Inr uri \<Longrightarrow> with_path U uri path = None \<longleftrightarrow>
     ul_authority U uri = None \<or> (\<exists>e. ul_build U (the (ul_scheme U uri)) (the (ul_authority U uri)) path = Inl e)"
  by (auto simp: url_from_str_def with_path_def bind_eq_None_conv split: sum.split_asm if_split_asm sum.split)

section \<open>The sink of a channel\<close>

datatype sink_err = SinkClosed | SinkFull

datatype 'm try_send_error = ChannelFull 'm | ChannelClosed 'm

record ('m, 'c) channel_ops =
  ch_is_full :: "'c \<Rightarrow> bool"
  ch_is_closed :: "'c \<Rightarrow> bool"
  ch_try_send :: "'m \<Rightarrow> 'c \<Rightarrow> ('m try_send_error + unit) \<times> 'c"
  ch_close :: "'c \<Rightarrow> 'c"

definition poll_ready :: "('m, 'c) channel_ops \<Rightarrow> 'c \<Rightarrow> sink_err + unit" where
  "poll_ready C ch = (if ch_is_full C ch then Inl SinkFull else if ch_is_closed C ch then Inl SinkClosed else Inr ())"

definition start_send :: "('m, 'c) channel_ops \<Rightarrow> 'm \<Rightarrow> 'c \<Rightarrow> (sink_err + unit) \<times> 'c" where
  "start_send C msg ch = (case ch_try_send C msg ch of
      (Inl (ChannelFull _), ch) \<Rightarrow> (Inl SinkFull, ch)
    | (Inl (ChannelClosed _), ch) \<Rightarrow> (Inl SinkClosed, ch)
    | (Inr u, ch) \<Rightarrow> (Inr u, ch))"

definition poll_flush :: "'c \<Rightarrow> sink_err + unit" where
  "poll_flush ch = Inr ()"

definition poll_close :: "('m, 'c) channel_ops \<Rightarrow> 'c \<Rightarrow> (sink_err + unit) \<times> 'c" where
  "poll_close C ch = (Inr (), ch_close C ch)"

text \<open>A channel accepts a message unless it is closed or full, and a closed channel says so first.\<close>

locale channel =
  fixes C :: "('m, 'c) channel_ops"
  assumes try_send_closed: "ch_is_closed C ch \<Longrightarrow> ch_try_send C msg ch = (Inl (ChannelClosed msg), ch)"
    and try_send_full: "\<not> ch_is_closed C ch \<Longrightarrow> ch_is_full C ch \<Longrightarrow> ch_try_send C msg ch = (Inl (ChannelFull msg), ch)"
    and try_send_ok: "\<not> ch_is_closed C ch \<Longrightarrow> \<not> ch_is_full C ch \<Longrightarrow> fst (ch_try_send C msg ch) = Inr ()"
    and close_closes: "ch_is_closed C (ch_close C ch)"
begin

lemma ready_sends: "fst (start_send C msg ch) = Inr () \<longleftrightarrow> poll_ready C ch = Inr ()"
  using try_send_closed [of ch msg] try_send_full [of ch msg] try_send_ok [of ch msg]
  by (cases "ch_is_closed C ch"; cases "ch_is_full C ch") (auto simp: start_send_def poll_ready_def split: prod.splits sum.splits try_send_error.splits)

lemma closed_refuses: "start_send C msg (snd (poll_close C ch)) = (Inl SinkClosed, ch_close C ch)"
  by (simp add: poll_close_def start_send_def try_send_closed [OF close_closes])

end

text \<open>A bounded channel.\<close>

definition list_channel :: "nat \<Rightarrow> ('m, 'm list \<times> bool) channel_ops" where
  "list_channel cap = \<lparr> ch_is_full = (\<lambda>(ms, _). cap \<le> length ms), ch_is_closed = snd,
     ch_try_send = (\<lambda>m (ms, closed). if closed then (Inl (ChannelClosed m), (ms, closed)) else if cap \<le> length ms then (Inl (ChannelFull m), (ms, closed))
        else (Inr (), (ms @ [m], closed))),
     ch_close = (\<lambda>(ms, _). (ms, True)) \<rparr>"

interpretation list_channel: channel "list_channel cap"
  by unfold_locales (auto simp: list_channel_def)

section \<open>A new wallet\<close>

fun join_words :: "string list \<Rightarrow> string" where
  "join_words [] = []"
| "join_words [w] = w"
| "join_words (w # ws) = w @ '' '' @ join_words ws"

text \<open>The generator gives the 24 indices.\<close>

definition generate_bip39_mnemonic :: "string list \<Rightarrow> (nat \<Rightarrow> nat) \<Rightarrow> string panics" where
  "generate_bip39_mnemonic WORDS gen_range =
     (if WORDS = [] then None else map_option join_words (those (map (\<lambda>i. if gen_range i < length WORDS then Some (WORDS ! gen_range i) else None) [0..<24])))"

text \<open>Any 24 words come out for some indices: the last word is as free as the others, while BIP-39 makes it carry a checksum.\<close>

lemma mnemonic_unconstrained:
  assumes "length ws = 24" "set ws \<subseteq> set WORDS"
  shows "\<exists>g. (\<forall>i. g i < length WORDS) \<and> generate_bip39_mnemonic WORDS g = Some (join_words ws)"
proof -
  have ne: "WORDS \<noteq> []" using assms by auto
  have "\<forall>i. \<exists>k. k < length WORDS \<and> (i < 24 \<longrightarrow> WORDS ! k = ws ! i)"
  proof
    fix i show "\<exists>k. k < length WORDS \<and> (i < 24 \<longrightarrow> WORDS ! k = ws ! i)"
      using assms ne by (cases "i < 24") (metis in_set_conv_nth nth_mem subsetD, auto)
  qed
  then obtain g where g: "\<And>i. g i < length WORDS" "\<And>i. i < 24 \<Longrightarrow> WORDS ! g i = ws ! i" by metis
  have "map (\<lambda>i. if g i < length WORDS then Some (WORDS ! g i) else None) [0..<24] = map Some ws"
    by (rule nth_equalityI) (simp_all add: assms(1) g)
  then have "generate_bip39_mnemonic WORDS g = Some (join_words ws)" by (simp add: generate_bip39_mnemonic_def ne)
  then show ?thesis using g(1) by blast
qed

end
