(* ===== verification/Mnemonic.thy ===== *)
theory Mnemonic
  imports Adapters Node_Errors
begin

text \<open>
  The words of the phrases of a new wallet (\<open>spectrum-deploy-lm-pool/src/bip39_words.rs\<close>, \<open>generate_wallet.rs\<close>): the table, in
  pieces of some thirty lines of the source.

  Results: the table has 2048 words, in alphabetical order of their first four letters, as BIP-39 asks; so a phrase can be generated
  for every reading of the random number generator, and the readings can be recovered from the first four letters of its words.
\<close>

section \<open>The table\<close>

definition words_1 :: "string list" where
  "words_1 = [
    ''abandon'', ''ability'', ''able'', ''about'', ''above'', ''absent'', ''absorb'', ''abstract'', ''absurd'', ''abuse'',
    ''access'', ''accident'', ''account'', ''accuse'', ''achieve'', ''acid'', ''acoustic'', ''acquire'', ''across'', ''act'',
    ''action'', ''actor'', ''actress'', ''actual'', ''adapt'', ''add'', ''addict'', ''address'', ''adjust'', ''admit'', ''adult'',
    ''advance'', ''advice'', ''aerobic'', ''affair'', ''afford'', ''afraid'', ''again'', ''age'', ''agent'', ''agree'', ''ahead'',
    ''aim'', ''air'', ''airport'', ''aisle'', ''alarm'', ''album'', ''alcohol'', ''alert'', ''alien'', ''all'', ''alley'', ''allow'',
    ''almost'', ''alone'', ''alpha'', ''already'', ''also'', ''alter'', ''always'', ''amateur'', ''amazing'', ''among'',
    ''amount'', ''amused'', ''analyst'', ''anchor'', ''ancient'', ''anger'', ''angle'', ''angry'', ''animal'', ''ankle'',
    ''announce'', ''annual'', ''another'', ''answer'', ''antenna'', ''antique'', ''anxiety'', ''any'', ''apart'', ''apology'',
    ''appear'', ''apple'', ''approve'', ''april'', ''arch'', ''arctic'', ''area'', ''arena'', ''argue'', ''arm'', ''armed'',
    ''armor'', ''army'', ''around'', ''arrange'', ''arrest'', ''arrive'', ''arrow'', ''art'', ''artefact'', ''artist'',
    ''artwork'', ''ask'', ''aspect'', ''assault'', ''asset'', ''assist'', ''assume'', ''asthma'', ''athlete'', ''atom'',
    ''attack'', ''attend'', ''attitude'', ''attract'', ''auction'', ''audit'', ''august'', ''aunt'', ''author'', ''auto'',
    ''autumn'', ''average'', ''avocado'', ''avoid'', ''awake'', ''aware'', ''away'', ''awesome'', ''awful'', ''awkward'', ''axis'',
    ''baby'', ''bachelor'', ''bacon'', ''badge'', ''bag'', ''balance'', ''balcony'', ''ball'', ''bamboo'', ''banana'', ''banner'',
    ''bar'', ''barely'', ''bargain'', ''barrel'', ''base'', ''basic'', ''basket'', ''battle'', ''beach'', ''bean'', ''beauty'',
    ''because'', ''become'', ''beef'', ''before'', ''begin'', ''behave'', ''behind'', ''believe'', ''below'', ''belt'', ''bench'',
    ''benefit'', ''best'', ''betray'', ''better'', ''between'', ''beyond'', ''bicycle'', ''bid'', ''bike'', ''bind'', ''biology'',
    ''bird'', ''birth'', ''bitter'', ''black'', ''blade'', ''blame'', ''blanket'', ''blast'', ''bleak'', ''bless'', ''blind'',
    ''blood'', ''blossom'', ''blouse'', ''blue'', ''blur'', ''blush'', ''board'', ''boat'', ''body'', ''boil'', ''bomb'', ''bone'',
    ''bonus'', ''book'', ''boost'', ''border'', ''boring'', ''borrow'', ''boss'', ''bottom'', ''bounce'', ''box'', ''boy'',
    ''bracket'', ''brain'', ''brand'', ''brass'', ''brave'', ''bread'', ''breeze'', ''brick'', ''bridge'', ''brief'', ''bright'',
    ''bring'', ''brisk'', ''broccoli'', ''broken'', ''bronze'', ''broom'', ''brother'', ''brown'', ''brush'', ''bubble'',
    ''buddy'', ''budget'', ''buffalo'', ''build'', ''bulb'', ''bulk'', ''bullet'', ''bundle'', ''bunker'', ''burden'', ''burger'',
    ''burst'', ''bus'', ''business'', ''busy'', ''butter'', ''buyer'', ''buzz'', ''cabbage'', ''cabin'', ''cable'', ''cactus'']"

definition words_2 :: "string list" where
  "words_2 = [
    ''cage'', ''cake'', ''call'', ''calm'', ''camera'', ''camp'', ''can'', ''canal'', ''cancel'', ''candy'', ''cannon'', ''canoe'',
    ''canvas'', ''canyon'', ''capable'', ''capital'', ''captain'', ''car'', ''carbon'', ''card'', ''cargo'', ''carpet'', ''carry'',
    ''cart'', ''case'', ''cash'', ''casino'', ''castle'', ''casual'', ''cat'', ''catalog'', ''catch'', ''category'', ''cattle'',
    ''caught'', ''cause'', ''caution'', ''cave'', ''ceiling'', ''celery'', ''cement'', ''census'', ''century'', ''cereal'',
    ''certain'', ''chair'', ''chalk'', ''champion'', ''change'', ''chaos'', ''chapter'', ''charge'', ''chase'', ''chat'',
    ''cheap'', ''check'', ''cheese'', ''chef'', ''cherry'', ''chest'', ''chicken'', ''chief'', ''child'', ''chimney'', ''choice'',
    ''choose'', ''chronic'', ''chuckle'', ''chunk'', ''churn'', ''cigar'', ''cinnamon'', ''circle'', ''citizen'', ''city'',
    ''civil'', ''claim'', ''clap'', ''clarify'', ''claw'', ''clay'', ''clean'', ''clerk'', ''clever'', ''click'', ''client'',
    ''cliff'', ''climb'', ''clinic'', ''clip'', ''clock'', ''clog'', ''close'', ''cloth'', ''cloud'', ''clown'', ''club'', ''clump'',
    ''cluster'', ''clutch'', ''coach'', ''coast'', ''coconut'', ''code'', ''coffee'', ''coil'', ''coin'', ''collect'', ''color'',
    ''column'', ''combine'', ''come'', ''comfort'', ''comic'', ''common'', ''company'', ''concert'', ''conduct'', ''confirm'',
    ''congress'', ''connect'', ''consider'', ''control'', ''convince'', ''cook'', ''cool'', ''copper'', ''copy'', ''coral'',
    ''core'', ''corn'', ''correct'', ''cost'', ''cotton'', ''couch'', ''country'', ''couple'', ''course'', ''cousin'', ''cover'',
    ''coyote'', ''crack'', ''cradle'', ''craft'', ''cram'', ''crane'', ''crash'', ''crater'', ''crawl'', ''crazy'', ''cream'',
    ''credit'', ''creek'', ''crew'', ''cricket'', ''crime'', ''crisp'', ''critic'', ''crop'', ''cross'', ''crouch'', ''crowd'',
    ''crucial'', ''cruel'', ''cruise'', ''crumble'', ''crunch'', ''crush'', ''cry'', ''crystal'', ''cube'', ''culture'', ''cup'',
    ''cupboard'', ''curious'', ''current'', ''curtain'', ''curve'', ''cushion'', ''custom'', ''cute'', ''cycle'', ''dad'',
    ''damage'', ''damp'', ''dance'', ''danger'', ''daring'', ''dash'', ''daughter'', ''dawn'', ''day'', ''deal'', ''debate'',
    ''debris'', ''decade'', ''december'', ''decide'', ''decline'', ''decorate'', ''decrease'', ''deer'', ''defense'', ''define'',
    ''defy'', ''degree'', ''delay'', ''deliver'', ''demand'', ''demise'', ''denial'', ''dentist'', ''deny'', ''depart'',
    ''depend'', ''deposit'', ''depth'', ''deputy'', ''derive'', ''describe'', ''desert'', ''design'', ''desk'', ''despair'',
    ''destroy'', ''detail'', ''detect'', ''develop'', ''device'', ''devote'', ''diagram'', ''dial'', ''diamond'', ''diary'',
    ''dice'', ''diesel'', ''diet'', ''differ'', ''digital'', ''dignity'', ''dilemma'', ''dinner'', ''dinosaur'', ''direct'',
    ''dirt'', ''disagree'', ''discover'', ''disease'', ''dish'', ''dismiss'', ''disorder'', ''display'', ''distance'']"

definition words_3 :: "string list" where
  "words_3 = [
    ''divert'', ''divide'', ''divorce'', ''dizzy'', ''doctor'', ''document'', ''dog'', ''doll'', ''dolphin'', ''domain'',
    ''donate'', ''donkey'', ''donor'', ''door'', ''dose'', ''double'', ''dove'', ''draft'', ''dragon'', ''drama'', ''drastic'',
    ''draw'', ''dream'', ''dress'', ''drift'', ''drill'', ''drink'', ''drip'', ''drive'', ''drop'', ''drum'', ''dry'', ''duck'',
    ''dumb'', ''dune'', ''during'', ''dust'', ''dutch'', ''duty'', ''dwarf'', ''dynamic'', ''eager'', ''eagle'', ''early'', ''earn'',
    ''earth'', ''easily'', ''east'', ''easy'', ''echo'', ''ecology'', ''economy'', ''edge'', ''edit'', ''educate'', ''effort'',
    ''egg'', ''eight'', ''either'', ''elbow'', ''elder'', ''electric'', ''elegant'', ''element'', ''elephant'', ''elevator'',
    ''elite'', ''else'', ''embark'', ''embody'', ''embrace'', ''emerge'', ''emotion'', ''employ'', ''empower'', ''empty'',
    ''enable'', ''enact'', ''end'', ''endless'', ''endorse'', ''enemy'', ''energy'', ''enforce'', ''engage'', ''engine'',
    ''enhance'', ''enjoy'', ''enlist'', ''enough'', ''enrich'', ''enroll'', ''ensure'', ''enter'', ''entire'', ''entry'',
    ''envelope'', ''episode'', ''equal'', ''equip'', ''era'', ''erase'', ''erode'', ''erosion'', ''error'', ''erupt'', ''escape'',
    ''essay'', ''essence'', ''estate'', ''eternal'', ''ethics'', ''evidence'', ''evil'', ''evoke'', ''evolve'', ''exact'',
    ''example'', ''excess'', ''exchange'', ''excite'', ''exclude'', ''excuse'', ''execute'', ''exercise'', ''exhaust'',
    ''exhibit'', ''exile'', ''exist'', ''exit'', ''exotic'', ''expand'', ''expect'', ''expire'', ''explain'', ''expose'',
    ''express'', ''extend'', ''extra'', ''eye'', ''eyebrow'', ''fabric'', ''face'', ''faculty'', ''fade'', ''faint'', ''faith'',
    ''fall'', ''false'', ''fame'', ''family'', ''famous'', ''fan'', ''fancy'', ''fantasy'', ''farm'', ''fashion'', ''fat'',
    ''fatal'', ''father'', ''fatigue'', ''fault'', ''favorite'', ''feature'', ''february'', ''federal'', ''fee'', ''feed'',
    ''feel'', ''female'', ''fence'', ''festival'', ''fetch'', ''fever'', ''few'', ''fiber'', ''fiction'', ''field'', ''figure'',
    ''file'', ''film'', ''filter'', ''final'', ''find'', ''fine'', ''finger'', ''finish'', ''fire'', ''firm'', ''first'', ''fiscal'',
    ''fish'', ''fit'', ''fitness'', ''fix'', ''flag'', ''flame'', ''flash'', ''flat'', ''flavor'', ''flee'', ''flight'', ''flip'',
    ''float'', ''flock'', ''floor'', ''flower'', ''fluid'', ''flush'', ''fly'', ''foam'', ''focus'', ''fog'', ''foil'', ''fold'',
    ''follow'', ''food'', ''foot'', ''force'', ''forest'', ''forget'', ''fork'', ''fortune'', ''forum'', ''forward'', ''fossil'',
    ''foster'', ''found'', ''fox'', ''fragile'', ''frame'', ''frequent'', ''fresh'', ''friend'', ''fringe'', ''frog'', ''front'',
    ''frost'', ''frown'', ''frozen'', ''fruit'', ''fuel'', ''fun'', ''funny'', ''furnace'', ''fury'', ''future'', ''gadget'',
    ''gain'', ''galaxy'', ''gallery'', ''game'', ''gap'', ''garage'', ''garbage'', ''garden'', ''garlic'', ''garment'', ''gas'']"

definition words_4 :: "string list" where
  "words_4 = [
    ''gasp'', ''gate'', ''gather'', ''gauge'', ''gaze'', ''general'', ''genius'', ''genre'', ''gentle'', ''genuine'', ''gesture'',
    ''ghost'', ''giant'', ''gift'', ''giggle'', ''ginger'', ''giraffe'', ''girl'', ''give'', ''glad'', ''glance'', ''glare'',
    ''glass'', ''glide'', ''glimpse'', ''globe'', ''gloom'', ''glory'', ''glove'', ''glow'', ''glue'', ''goat'', ''goddess'',
    ''gold'', ''good'', ''goose'', ''gorilla'', ''gospel'', ''gossip'', ''govern'', ''gown'', ''grab'', ''grace'', ''grain'',
    ''grant'', ''grape'', ''grass'', ''gravity'', ''great'', ''green'', ''grid'', ''grief'', ''grit'', ''grocery'', ''group'',
    ''grow'', ''grunt'', ''guard'', ''guess'', ''guide'', ''guilt'', ''guitar'', ''gun'', ''gym'', ''habit'', ''hair'', ''half'',
    ''hammer'', ''hamster'', ''hand'', ''happy'', ''harbor'', ''hard'', ''harsh'', ''harvest'', ''hat'', ''have'', ''hawk'',
    ''hazard'', ''head'', ''health'', ''heart'', ''heavy'', ''hedgehog'', ''height'', ''hello'', ''helmet'', ''help'', ''hen'',
    ''hero'', ''hidden'', ''high'', ''hill'', ''hint'', ''hip'', ''hire'', ''history'', ''hobby'', ''hockey'', ''hold'', ''hole'',
    ''holiday'', ''hollow'', ''home'', ''honey'', ''hood'', ''hope'', ''horn'', ''horror'', ''horse'', ''hospital'', ''host'',
    ''hotel'', ''hour'', ''hover'', ''hub'', ''huge'', ''human'', ''humble'', ''humor'', ''hundred'', ''hungry'', ''hunt'',
    ''hurdle'', ''hurry'', ''hurt'', ''husband'', ''hybrid'', ''ice'', ''icon'', ''idea'', ''identify'', ''idle'', ''ignore'',
    ''ill'', ''illegal'', ''illness'', ''image'', ''imitate'', ''immense'', ''immune'', ''impact'', ''impose'', ''improve'',
    ''impulse'', ''inch'', ''include'', ''income'', ''increase'', ''index'', ''indicate'', ''indoor'', ''industry'', ''infant'',
    ''inflict'', ''inform'', ''inhale'', ''inherit'', ''initial'', ''inject'', ''injury'', ''inmate'', ''inner'', ''innocent'',
    ''input'', ''inquiry'', ''insane'', ''insect'', ''inside'', ''inspire'', ''install'', ''intact'', ''interest'', ''into'',
    ''invest'', ''invite'', ''involve'', ''iron'', ''island'', ''isolate'', ''issue'', ''item'', ''ivory'', ''jacket'', ''jaguar'',
    ''jar'', ''jazz'', ''jealous'', ''jeans'', ''jelly'', ''jewel'', ''job'', ''join'', ''joke'', ''journey'', ''joy'', ''judge'',
    ''juice'', ''jump'', ''jungle'', ''junior'', ''junk'', ''just'', ''kangaroo'', ''keen'', ''keep'', ''ketchup'', ''key'',
    ''kick'', ''kid'', ''kidney'', ''kind'', ''kingdom'', ''kiss'', ''kit'', ''kitchen'', ''kite'', ''kitten'', ''kiwi'', ''knee'',
    ''knife'', ''knock'', ''know'', ''lab'', ''label'', ''labor'', ''ladder'', ''lady'', ''lake'', ''lamp'', ''language'',
    ''laptop'', ''large'', ''later'', ''latin'', ''laugh'', ''laundry'', ''lava'', ''law'', ''lawn'', ''lawsuit'', ''layer'',
    ''lazy'', ''leader'', ''leaf'', ''learn'', ''leave'', ''lecture'', ''left'', ''leg'', ''legal'', ''legend'', ''leisure'',
    ''lemon'', ''lend'', ''length'', ''lens'', ''leopard'', ''lesson'', ''letter'', ''level'', ''liar'', ''liberty'', ''library'']"

definition words_5 :: "string list" where
  "words_5 = [
    ''license'', ''life'', ''lift'', ''light'', ''like'', ''limb'', ''limit'', ''link'', ''lion'', ''liquid'', ''list'', ''little'',
    ''live'', ''lizard'', ''load'', ''loan'', ''lobster'', ''local'', ''lock'', ''logic'', ''lonely'', ''long'', ''loop'',
    ''lottery'', ''loud'', ''lounge'', ''love'', ''loyal'', ''lucky'', ''luggage'', ''lumber'', ''lunar'', ''lunch'', ''luxury'',
    ''lyrics'', ''machine'', ''mad'', ''magic'', ''magnet'', ''maid'', ''mail'', ''main'', ''major'', ''make'', ''mammal'', ''man'',
    ''manage'', ''mandate'', ''mango'', ''mansion'', ''manual'', ''maple'', ''marble'', ''march'', ''margin'', ''marine'',
    ''market'', ''marriage'', ''mask'', ''mass'', ''master'', ''match'', ''material'', ''math'', ''matrix'', ''matter'',
    ''maximum'', ''maze'', ''meadow'', ''mean'', ''measure'', ''meat'', ''mechanic'', ''medal'', ''media'', ''melody'', ''melt'',
    ''member'', ''memory'', ''mention'', ''menu'', ''mercy'', ''merge'', ''merit'', ''merry'', ''mesh'', ''message'', ''metal'',
    ''method'', ''middle'', ''midnight'', ''milk'', ''million'', ''mimic'', ''mind'', ''minimum'', ''minor'', ''minute'',
    ''miracle'', ''mirror'', ''misery'', ''miss'', ''mistake'', ''mix'', ''mixed'', ''mixture'', ''mobile'', ''model'', ''modify'',
    ''mom'', ''moment'', ''monitor'', ''monkey'', ''monster'', ''month'', ''moon'', ''moral'', ''more'', ''morning'', ''mosquito'',
    ''mother'', ''motion'', ''motor'', ''mountain'', ''mouse'', ''move'', ''movie'', ''much'', ''muffin'', ''mule'', ''multiply'',
    ''muscle'', ''museum'', ''mushroom'', ''music'', ''must'', ''mutual'', ''myself'', ''mystery'', ''myth'', ''naive'', ''name'',
    ''napkin'', ''narrow'', ''nasty'', ''nation'', ''nature'', ''near'', ''neck'', ''need'', ''negative'', ''neglect'',
    ''neither'', ''nephew'', ''nerve'', ''nest'', ''net'', ''network'', ''neutral'', ''never'', ''news'', ''next'', ''nice'',
    ''night'', ''noble'', ''noise'', ''nominee'', ''noodle'', ''normal'', ''north'', ''nose'', ''notable'', ''note'', ''nothing'',
    ''notice'', ''novel'', ''now'', ''nuclear'', ''number'', ''nurse'', ''nut'', ''oak'', ''obey'', ''object'', ''oblige'',
    ''obscure'', ''observe'', ''obtain'', ''obvious'', ''occur'', ''ocean'', ''october'', ''odor'', ''off'', ''offer'', ''office'',
    ''often'', ''oil'', ''okay'', ''old'', ''olive'', ''olympic'', ''omit'', ''once'', ''one'', ''onion'', ''online'', ''only'',
    ''open'', ''opera'', ''opinion'', ''oppose'', ''option'', ''orange'', ''orbit'', ''orchard'', ''order'', ''ordinary'',
    ''organ'', ''orient'', ''original'', ''orphan'', ''ostrich'', ''other'', ''outdoor'', ''outer'', ''output'', ''outside'',
    ''oval'', ''oven'', ''over'', ''own'', ''owner'', ''oxygen'', ''oyster'', ''ozone'', ''pact'', ''paddle'', ''page'', ''pair'',
    ''palace'', ''palm'', ''panda'', ''panel'', ''panic'', ''panther'', ''paper'', ''parade'', ''parent'', ''park'', ''parrot'',
    ''party'', ''pass'', ''patch'', ''path'', ''patient'', ''patrol'', ''pattern'', ''pause'', ''pave'', ''payment'', ''peace'']"

definition words_6 :: "string list" where
  "words_6 = [
    ''peanut'', ''pear'', ''peasant'', ''pelican'', ''pen'', ''penalty'', ''pencil'', ''people'', ''pepper'', ''perfect'',
    ''permit'', ''person'', ''pet'', ''phone'', ''photo'', ''phrase'', ''physical'', ''piano'', ''picnic'', ''picture'', ''piece'',
    ''pig'', ''pigeon'', ''pill'', ''pilot'', ''pink'', ''pioneer'', ''pipe'', ''pistol'', ''pitch'', ''pizza'', ''place'',
    ''planet'', ''plastic'', ''plate'', ''play'', ''please'', ''pledge'', ''pluck'', ''plug'', ''plunge'', ''poem'', ''poet'',
    ''point'', ''polar'', ''pole'', ''police'', ''pond'', ''pony'', ''pool'', ''popular'', ''portion'', ''position'', ''possible'',
    ''post'', ''potato'', ''pottery'', ''poverty'', ''powder'', ''power'', ''practice'', ''praise'', ''predict'', ''prefer'',
    ''prepare'', ''present'', ''pretty'', ''prevent'', ''price'', ''pride'', ''primary'', ''print'', ''priority'', ''prison'',
    ''private'', ''prize'', ''problem'', ''process'', ''produce'', ''profit'', ''program'', ''project'', ''promote'', ''proof'',
    ''property'', ''prosper'', ''protect'', ''proud'', ''provide'', ''public'', ''pudding'', ''pull'', ''pulp'', ''pulse'',
    ''pumpkin'', ''punch'', ''pupil'', ''puppy'', ''purchase'', ''purity'', ''purpose'', ''purse'', ''push'', ''put'', ''puzzle'',
    ''pyramid'', ''quality'', ''quantum'', ''quarter'', ''question'', ''quick'', ''quit'', ''quiz'', ''quote'', ''rabbit'',
    ''raccoon'', ''race'', ''rack'', ''radar'', ''radio'', ''rail'', ''rain'', ''raise'', ''rally'', ''ramp'', ''ranch'', ''random'',
    ''range'', ''rapid'', ''rare'', ''rate'', ''rather'', ''raven'', ''raw'', ''razor'', ''ready'', ''real'', ''reason'', ''rebel'',
    ''rebuild'', ''recall'', ''receive'', ''recipe'', ''record'', ''recycle'', ''reduce'', ''reflect'', ''reform'', ''refuse'',
    ''region'', ''regret'', ''regular'', ''reject'', ''relax'', ''release'', ''relief'', ''rely'', ''remain'', ''remember'',
    ''remind'', ''remove'', ''render'', ''renew'', ''rent'', ''reopen'', ''repair'', ''repeat'', ''replace'', ''report'',
    ''require'', ''rescue'', ''resemble'', ''resist'', ''resource'', ''response'', ''result'', ''retire'', ''retreat'',
    ''return'', ''reunion'', ''reveal'', ''review'', ''reward'', ''rhythm'', ''rib'', ''ribbon'', ''rice'', ''rich'', ''ride'',
    ''ridge'', ''rifle'', ''right'', ''rigid'', ''ring'', ''riot'', ''ripple'', ''risk'', ''ritual'', ''rival'', ''river'', ''road'',
    ''roast'', ''robot'', ''robust'', ''rocket'', ''romance'', ''roof'', ''rookie'', ''room'', ''rose'', ''rotate'', ''rough'',
    ''round'', ''route'', ''royal'', ''rubber'', ''rude'', ''rug'', ''rule'', ''run'', ''runway'', ''rural'', ''sad'', ''saddle'',
    ''sadness'', ''safe'', ''sail'', ''salad'', ''salmon'', ''salon'', ''salt'', ''salute'', ''same'', ''sample'', ''sand'',
    ''satisfy'', ''satoshi'', ''sauce'', ''sausage'', ''save'', ''say'', ''scale'', ''scan'', ''scare'', ''scatter'', ''scene'',
    ''scheme'', ''school'', ''science'', ''scissors'', ''scorpion'', ''scout'', ''scrap'', ''screen'', ''script'', ''scrub'']"

definition words_7 :: "string list" where
  "words_7 = [
    ''sea'', ''search'', ''season'', ''seat'', ''second'', ''secret'', ''section'', ''security'', ''seed'', ''seek'', ''segment'',
    ''select'', ''sell'', ''seminar'', ''senior'', ''sense'', ''sentence'', ''series'', ''service'', ''session'', ''settle'',
    ''setup'', ''seven'', ''shadow'', ''shaft'', ''shallow'', ''share'', ''shed'', ''shell'', ''sheriff'', ''shield'', ''shift'',
    ''shine'', ''ship'', ''shiver'', ''shock'', ''shoe'', ''shoot'', ''shop'', ''short'', ''shoulder'', ''shove'', ''shrimp'',
    ''shrug'', ''shuffle'', ''shy'', ''sibling'', ''sick'', ''side'', ''siege'', ''sight'', ''sign'', ''silent'', ''silk'',
    ''silly'', ''silver'', ''similar'', ''simple'', ''since'', ''sing'', ''siren'', ''sister'', ''situate'', ''six'', ''size'',
    ''skate'', ''sketch'', ''ski'', ''skill'', ''skin'', ''skirt'', ''skull'', ''slab'', ''slam'', ''sleep'', ''slender'', ''slice'',
    ''slide'', ''slight'', ''slim'', ''slogan'', ''slot'', ''slow'', ''slush'', ''small'', ''smart'', ''smile'', ''smoke'',
    ''smooth'', ''snack'', ''snake'', ''snap'', ''sniff'', ''snow'', ''soap'', ''soccer'', ''social'', ''sock'', ''soda'', ''soft'',
    ''solar'', ''soldier'', ''solid'', ''solution'', ''solve'', ''someone'', ''song'', ''soon'', ''sorry'', ''sort'', ''soul'',
    ''sound'', ''soup'', ''source'', ''south'', ''space'', ''spare'', ''spatial'', ''spawn'', ''speak'', ''special'', ''speed'',
    ''spell'', ''spend'', ''sphere'', ''spice'', ''spider'', ''spike'', ''spin'', ''spirit'', ''split'', ''spoil'', ''sponsor'',
    ''spoon'', ''sport'', ''spot'', ''spray'', ''spread'', ''spring'', ''spy'', ''square'', ''squeeze'', ''squirrel'', ''stable'',
    ''stadium'', ''staff'', ''stage'', ''stairs'', ''stamp'', ''stand'', ''start'', ''state'', ''stay'', ''steak'', ''steel'',
    ''stem'', ''step'', ''stereo'', ''stick'', ''still'', ''sting'', ''stock'', ''stomach'', ''stone'', ''stool'', ''story'',
    ''stove'', ''strategy'', ''street'', ''strike'', ''strong'', ''struggle'', ''student'', ''stuff'', ''stumble'', ''style'',
    ''subject'', ''submit'', ''subway'', ''success'', ''such'', ''sudden'', ''suffer'', ''sugar'', ''suggest'', ''suit'',
    ''summer'', ''sun'', ''sunny'', ''sunset'', ''super'', ''supply'', ''supreme'', ''sure'', ''surface'', ''surge'', ''surprise'',
    ''surround'', ''survey'', ''suspect'', ''sustain'', ''swallow'', ''swamp'', ''swap'', ''swarm'', ''swear'', ''sweet'',
    ''swift'', ''swim'', ''swing'', ''switch'', ''sword'', ''symbol'', ''symptom'', ''syrup'', ''system'', ''table'', ''tackle'',
    ''tag'', ''tail'', ''talent'', ''talk'', ''tank'', ''tape'', ''target'', ''task'', ''taste'', ''tattoo'', ''taxi'', ''teach'',
    ''team'', ''tell'', ''ten'', ''tenant'', ''tennis'', ''tent'', ''term'', ''test'', ''text'', ''thank'', ''that'', ''theme'',
    ''then'', ''theory'', ''there'', ''they'', ''thing'', ''this'', ''thought'', ''three'', ''thrive'', ''throw'', ''thumb'',
    ''thunder'', ''ticket'', ''tide'', ''tiger'', ''tilt'', ''timber'', ''time'', ''tiny'', ''tip'', ''tired'', ''tissue'']"

definition words_8 :: "string list" where
  "words_8 = [
    ''title'', ''toast'', ''tobacco'', ''today'', ''toddler'', ''toe'', ''together'', ''toilet'', ''token'', ''tomato'',
    ''tomorrow'', ''tone'', ''tongue'', ''tonight'', ''tool'', ''tooth'', ''top'', ''topic'', ''topple'', ''torch'', ''tornado'',
    ''tortoise'', ''toss'', ''total'', ''tourist'', ''toward'', ''tower'', ''town'', ''toy'', ''track'', ''trade'', ''traffic'',
    ''tragic'', ''train'', ''transfer'', ''trap'', ''trash'', ''travel'', ''tray'', ''treat'', ''tree'', ''trend'', ''trial'',
    ''tribe'', ''trick'', ''trigger'', ''trim'', ''trip'', ''trophy'', ''trouble'', ''truck'', ''true'', ''truly'', ''trumpet'',
    ''trust'', ''truth'', ''try'', ''tube'', ''tuition'', ''tumble'', ''tuna'', ''tunnel'', ''turkey'', ''turn'', ''turtle'',
    ''twelve'', ''twenty'', ''twice'', ''twin'', ''twist'', ''two'', ''type'', ''typical'', ''ugly'', ''umbrella'', ''unable'',
    ''unaware'', ''uncle'', ''uncover'', ''under'', ''undo'', ''unfair'', ''unfold'', ''unhappy'', ''uniform'', ''unique'',
    ''unit'', ''universe'', ''unknown'', ''unlock'', ''until'', ''unusual'', ''unveil'', ''update'', ''upgrade'', ''uphold'',
    ''upon'', ''upper'', ''upset'', ''urban'', ''urge'', ''usage'', ''use'', ''used'', ''useful'', ''useless'', ''usual'',
    ''utility'', ''vacant'', ''vacuum'', ''vague'', ''valid'', ''valley'', ''valve'', ''van'', ''vanish'', ''vapor'', ''various'',
    ''vast'', ''vault'', ''vehicle'', ''velvet'', ''vendor'', ''venture'', ''venue'', ''verb'', ''verify'', ''version'', ''very'',
    ''vessel'', ''veteran'', ''viable'', ''vibrant'', ''vicious'', ''victory'', ''video'', ''view'', ''village'', ''vintage'',
    ''violin'', ''virtual'', ''virus'', ''visa'', ''visit'', ''visual'', ''vital'', ''vivid'', ''vocal'', ''voice'', ''void'',
    ''volcano'', ''volume'', ''vote'', ''voyage'', ''wage'', ''wagon'', ''wait'', ''walk'', ''wall'', ''walnut'', ''want'',
    ''warfare'', ''warm'', ''warrior'', ''wash'', ''wasp'', ''waste'', ''water'', ''wave'', ''way'', ''wealth'', ''weapon'',
    ''wear'', ''weasel'', ''weather'', ''web'', ''wedding'', ''weekend'', ''weird'', ''welcome'', ''west'', ''wet'', ''whale'',
    ''what'', ''wheat'', ''wheel'', ''when'', ''where'', ''whip'', ''whisper'', ''wide'', ''width'', ''wife'', ''wild'', ''will'',
    ''win'', ''window'', ''wine'', ''wing'', ''wink'', ''winner'', ''winter'', ''wire'', ''wisdom'', ''wise'', ''wish'', ''witness'',
    ''wolf'', ''woman'', ''wonder'', ''wood'', ''wool'', ''word'', ''work'', ''world'', ''worry'', ''worth'', ''wrap'', ''wreck'',
    ''wrestle'', ''wrist'', ''write'', ''wrong'', ''yard'', ''year'', ''yellow'', ''you'', ''young'', ''youth'', ''zebra'', ''zero'',
    ''zone'', ''zoo'']"

definition WORDS :: "string list" where
  "WORDS = words_1 @ words_2 @ words_3 @ words_4 @ words_5 @ words_6 @ words_7 @ words_8"

section \<open>The order of the table\<close>

fun word_less :: "string \<Rightarrow> string \<Rightarrow> bool" where
  "word_less _ [] = False"
| "word_less [] (_ # _) = True"
| "word_less (c # cs) (d # ds) = (if c = d then word_less cs ds else (of_char c :: nat) < of_char d)"

fun increasing :: "string list \<Rightarrow> bool" where
  "increasing (a # b # ws) = (word_less a b \<and> increasing (b # ws))"
| "increasing _ = True"

lemma word_less_trans: "word_less a b \<Longrightarrow> word_less b c \<Longrightarrow> word_less a c"
proof (induction a b arbitrary: c rule: word_less.induct)
  case (3 x xs y ys)
  then show ?case by (cases c) (auto split: if_splits dest: order_less_trans)
qed (auto elim: word_less.elims)

lemma word_less_irrefl [simp]: "\<not> word_less a a"
  by (induction a) auto

lemma increasing_append: "increasing xs \<Longrightarrow> increasing ys \<Longrightarrow> xs = [] \<or> ys = [] \<or> word_less (last xs) (hd ys) \<Longrightarrow> increasing (xs @ ys)"
  by (induction xs rule: increasing.induct) (auto, cases ys, auto)

lemma increasing_sorted: "increasing ws \<Longrightarrow> sorted_wrt word_less ws"
  by (induction ws rule: increasing.induct) (auto dest: word_less_trans)

text \<open>What a table of words needs: lower-case words in the order of their first four letters.\<close>

definition fit :: "string list \<Rightarrow> bool" where
  "fit ws \<longleftrightarrow> increasing (map (take 4) ws) \<and> list_all (\<lambda>w. w \<noteq> [] \<and> CHR '' '' \<notin> set w) ws"

lemma fit_append: "fit xs \<Longrightarrow> fit ys \<Longrightarrow> word_less (take 4 (last xs)) (take 4 (hd ys)) \<Longrightarrow> fit (xs @ ys)"
  unfolding fit_def by (cases "xs = [] \<or> ys = []") (auto simp: last_map hd_map intro!: increasing_append)

lemma pieces_fit: "fit words_1" "fit words_2" "fit words_3" "fit words_4" "fit words_5" "fit words_6" "fit words_7" "fit words_8"
  subgoal by (simp add: fit_def words_1_def)
  subgoal by (simp add: fit_def words_2_def)
  subgoal by (simp add: fit_def words_3_def)
  subgoal by (simp add: fit_def words_4_def)
  subgoal by (simp add: fit_def words_5_def)
  subgoal by (simp add: fit_def words_6_def)
  subgoal by (simp add: fit_def words_7_def)
  subgoal by (simp add: fit_def words_8_def)
  done

lemma words_length:
  "length words_1 = 257" "length words_2 = 253" "length words_3 = 259" "length words_4 = 264"
  "length words_5 = 262" "length words_6 = 256" "length words_7 = 264" "length words_8 = 233"
  subgoal by (simp add: words_1_def)
  subgoal by (simp add: words_2_def)
  subgoal by (simp add: words_3_def)
  subgoal by (simp add: words_4_def)
  subgoal by (simp add: words_5_def)
  subgoal by (simp add: words_6_def)
  subgoal by (simp add: words_7_def)
  subgoal by (simp add: words_8_def)
  done

lemma words_ends:
  "hd words_1 = ''abandon''" "words_1 ! 256 = ''cactus''"
  "hd words_2 = ''cage''" "words_2 ! 252 = ''distance''"
  "hd words_3 = ''divert''" "words_3 ! 258 = ''gas''"
  "hd words_4 = ''gasp''" "words_4 ! 263 = ''library''"
  "hd words_5 = ''license''" "words_5 ! 261 = ''peace''"
  "hd words_6 = ''peanut''" "words_6 ! 255 = ''scrub''"
  "hd words_7 = ''sea''" "words_7 ! 263 = ''tissue''"
  "hd words_8 = ''title''" "words_8 ! 232 = ''zoo''"
  subgoal by (simp add: words_1_def)
  subgoal by (simp add: words_1_def)
  subgoal by (simp add: words_2_def)
  subgoal by (simp add: words_2_def)
  subgoal by (simp add: words_3_def)
  subgoal by (simp add: words_3_def)
  subgoal by (simp add: words_4_def)
  subgoal by (simp add: words_4_def)
  subgoal by (simp add: words_5_def)
  subgoal by (simp add: words_5_def)
  subgoal by (simp add: words_6_def)
  subgoal by (simp add: words_6_def)
  subgoal by (simp add: words_7_def)
  subgoal by (simp add: words_7_def)
  subgoal by (simp add: words_8_def)
  subgoal by (simp add: words_8_def)
  done

lemma words_last: "length ws = Suc n \<Longrightarrow> last (ws :: string list) = ws ! n"
  by (cases ws) (auto simp: last_conv_nth)

lemma length_WORDS: "length WORDS = 2048"
  by (simp add: WORDS_def words_length)

lemma WORDS_fit: "fit WORDS"
proof -
  have hd: "length ws \<noteq> 0 \<Longrightarrow> hd (ws @ vs) = hd ws" for ws vs :: "string list" by (cases ws) auto
  have last: "last words_1 = ''cactus''" "last words_2 = ''distance''" "last words_3 = ''gas''" "last words_4 = ''library''"
    "last words_5 = ''peace''" "last words_6 = ''scrub''" "last words_7 = ''tissue''"
    using words_last [of words_1 256] words_last [of words_2 252] words_last [of words_3 258] words_last [of words_4 263]
      words_last [of words_5 261] words_last [of words_6 255] words_last [of words_7 263] by (simp_all add: words_length words_ends)
  show ?thesis unfolding WORDS_def
    by (intro fit_append pieces_fit) (simp_all add: hd words_length words_ends last)
qed

section \<open>Reading a phrase\<close>

text \<open>The reader of a wallet: the position of each word by its first four letters.\<close>

definition recover_indices :: "string \<Rightarrow> nat list" where
  "recover_indices phrase = map (\<lambda>w. length (takeWhile (\<lambda>v. take 4 v \<noteq> take 4 w) WORDS)) (split_char CHR '' '' phrase)"

lemma split_join_words: "ws \<noteq> [] \<Longrightarrow> \<forall>w \<in> set ws. CHR '' '' \<notin> set w \<Longrightarrow> split_char CHR '' '' (join_words ws) = ws"
  by (induction ws rule: join_words.induct) (simp_all add: split_char_none split_char_append del: split_char.simps)

lemma WORDS_position:
  assumes "i < length WORDS"
  shows "length (takeWhile (\<lambda>v. take 4 v \<noteq> take 4 (WORDS ! i)) WORDS) = i"
proof -
  have "sorted_wrt word_less (map (take 4) WORDS)" using WORDS_fit increasing_sorted by (auto simp: fit_def)
  then have "take 4 (WORDS ! j) \<noteq> take 4 (WORDS ! i)" if "j < i" for j
    using assms that word_less_irrefl [of "take 4 (WORDS ! i)"] by (fastforce simp: sorted_wrt_iff_nth_less)
  then have "takeWhile (\<lambda>v. take 4 v \<noteq> take 4 (WORDS ! i)) WORDS = take i WORDS"
    using assms by (intro takeWhile_eq_take_P_nth) auto
  then show ?thesis using assms by simp
qed

definition generate_mnemonic :: "(nat \<Rightarrow> nat) \<Rightarrow> string panics" where
  "generate_mnemonic gen_range = generate_bip39_mnemonic WORDS gen_range"

text \<open>Every reading below the length of the table gives a phrase, from which the reading is recovered.\<close>

theorem mnemonic_recovered:
  assumes "\<forall>i < 24. g i < 2048"
  shows "\<exists>phrase. generate_mnemonic g = Some phrase \<and> recover_indices phrase = map g [0..<24]"
proof -
  let ?ws = "map (\<lambda>i. WORDS ! g i) [0..<24]"
  have "map (\<lambda>i. if g i < length WORDS then Some (WORDS ! g i) else None) [0..<24] = map Some ?ws"
    using assms by (simp add: length_WORDS)
  moreover have "WORDS \<noteq> []" using length_WORDS by auto
  ultimately have gen: "generate_mnemonic g = Some (join_words ?ws)"
    unfolding generate_mnemonic_def generate_bip39_mnemonic_def by (simp only: if_False those_map_Some option.map)
  have blank: "\<forall>w \<in> set ?ws. CHR '' '' \<notin> set w"
    using WORDS_fit assms length_WORDS by (auto simp: fit_def list_all_iff)
  have "recover_indices (join_words ?ws) = map g [0..<24]"
    unfolding recover_indices_def by (subst split_join_words [OF _ blank]) (use assms WORDS_position in \<open>auto simp: length_WORDS\<close>)
  then show ?thesis using gen by blast
qed

end
