(* ===== verification/Rocks_Cache.thy ===== *)
theory Rocks_Cache
  imports Chain_Sync
begin

text \<open>
  The RocksDB cache over a whole chain: it keeps the newest \<open>max_rollback_depth\<close> blocks and forgets the
  older ones (\<open>append_block\<close> with \<open>drop_oldest\<close> of \<open>ergo-chain-sync/src/cache/rocksdb.rs\<close>), and it gives the
  kept blocks back newest first.  The locale \<open>recent_cache\<close> is that contract; the RocksDB cache
  provides it, and every cache with the contract \<open>chain_cache\<close> does, forgetting nothing.
\<close>

section \<open>The contract of a cache that keeps the recent blocks\<close>

text \<open>Appending a list of blocks, the oldest first, and taking blocks until there are none.\<close>

fun append_blocks :: "('c, 'tx) chain_cache \<Rightarrow> 'tx block list \<Rightarrow> 'c \<Rightarrow> 'c panics" where
  "append_blocks C [] c = Some c"
| "append_blocks C (b # bs) c = do { c \<leftarrow> cc_append_block C c b; append_blocks C bs c }"

fun take_blocks :: "('c, 'tx) chain_cache \<Rightarrow> nat \<Rightarrow> 'c \<Rightarrow> ('tx block list \<times> 'c) panics" where
  "take_blocks C 0 c = Some ([], c)"
| "take_blocks C (Suc n) c = do {
     (b, c) \<leftarrow> cc_take_best_block C c;
     (case b of
        None \<Rightarrow> Some ([], c)
      | Some b \<Rightarrow> do { (bs, c) \<leftarrow> take_blocks C n c; Some (b # bs, c) }) }"

text \<open>
  \<open>live c st\<close>: \<open>c\<close> got the blocks \<open>st\<close> appended, the newest first, and was not read out yet.
  \<open>stack c st\<close>: what is still to be read out is \<open>st\<close>.  \<open>kept\<close> says which blocks stay, \<open>stored\<close> what
  of a block comes back.
\<close>

locale recent_cache =
  fixes C :: "('c, 'tx) chain_cache" and live stack :: "'c \<Rightarrow> 'tx block list \<Rightarrow> bool"
    and extends :: "'tx block \<Rightarrow> 'tx block list \<Rightarrow> bool" and kept :: "'tx block list \<Rightarrow> 'tx block list"
    and stored :: "'tx block \<Rightarrow> 'tx block"
  assumes append_live: "live c st \<Longrightarrow> extends b st \<Longrightarrow> \<exists>c'. cc_append_block C c b = Some c' \<and> live c' (b # st)"
    and exists_kept: "live c st \<Longrightarrow> cc_exists C c i \<longleftrightarrow> i \<in> blk_id ` set (kept st)"
    and best_kept: "live c st \<Longrightarrow> cc_get_best_block C c =
      (case kept st of [] \<Rightarrow> None | b # _ \<Rightarrow> Some \<lparr> br_id = blk_id b, br_height = blk_height b \<rparr>)"
    and live_stack: "live c st \<Longrightarrow> stack c (kept st)"
    and pop_stack: "stack c (b # st) \<Longrightarrow> \<exists>c'. cc_take_best_block C c = Some (Some (stored b), c') \<and> stack c' st"
    and pop_nothing: "stack c [] \<Longrightarrow> \<exists>c'. cc_take_best_block C c = Some (None, c') \<and> stack c' []"
begin

lemma append_blocks_live:
  assumes "live c st" "\<And>us b vs. bs = us @ b # vs \<Longrightarrow> extends b (rev us @ st)"
  shows "\<exists>c'. append_blocks C bs c = Some c' \<and> live c' (rev bs @ st)"
  using assms
proof (induction bs arbitrary: c st)
  case (Cons b bs)
  obtain c1 where c1: "cc_append_block C c b = Some c1" "live c1 (b # st)"
    using append_live [OF Cons.prems(1)] Cons.prems(2) [of "[]"] by auto
  have "extends x (rev us @ b # st)" if "bs = us @ x # vs" for us x vs using Cons.prems(2) [of "b # us" x vs] that by simp
  then obtain c2 where "append_blocks C bs c1 = Some c2" "live c2 (rev bs @ b # st)" using Cons.IH [OF c1(2)] by blast
  then show ?case using c1(1) by simp
qed simp

lemma take_blocks_stack: "stack c st \<Longrightarrow> \<exists>c'. take_blocks C n c = Some (map stored (take n st), c')"
proof (induction n arbitrary: c st)
  case (Suc n)
  show ?case
  proof (cases st)
    case Nil
    then show ?thesis using pop_nothing Suc.prems by fastforce
  next
    case (Cons b st')
    then obtain c1 where "cc_take_best_block C c = Some (Some (stored b), c1)" "stack c1 st'" using pop_stack Suc.prems by blast
    then show ?thesis using Suc.IH [of c1 st'] Cons by auto
  qed
qed simp

lemma window:
  assumes "live c []" "\<And>us b vs. bs = us @ b # vs \<Longrightarrow> extends b (rev us)"
  shows "\<exists>c' c''. append_blocks C bs c = Some c' \<and> (\<forall>i. cc_exists C c' i \<longleftrightarrow> i \<in> blk_id ` set (kept (rev bs))) \<and>
    cc_get_best_block C c' = (case kept (rev bs) of [] \<Rightarrow> None | b # _ \<Rightarrow> Some \<lparr> br_id = blk_id b, br_height = blk_height b \<rparr>) \<and>
    take_blocks C n c' = Some (map stored (take n (kept (rev bs))), c'')"
proof -
  obtain c' where c': "append_blocks C bs c = Some c'" "live c' (rev bs)" using append_blocks_live [of c "[]" bs] assms by auto
  obtain c'' where "take_blocks C n c' = Some (map stored (take n (kept (rev bs))), c'')" using take_blocks_stack [OF live_stack [OF c'(2)]] by blast
  then show ?thesis using c'(1) exists_kept [OF c'(2)] best_kept [OF c'(2)] by simp
qed

end

text \<open>A cache that forgets nothing keeps the recent blocks.\<close>

sublocale chain_cache \<subseteq> recent: recent_cache C rep rep "\<lambda>b st. proper_chain (b # st)" "\<lambda>st. st" "\<lambda>b. b"
  by unfold_locales (use append_push exists_mem best_top take_pop take_empty in auto)

section \<open>Chains the RocksDB cache can hold\<close>

definition tx_ids :: "('tx, 'db) cache_env \<Rightarrow> 'tx block \<Rightarrow> digest32 list" where
  "tx_ids E b = map (ce_tx_id E) (blk_transactions b)"

definition ledger_chain :: "('tx, 'db) cache_env \<Rightarrow> u32 \<Rightarrow> 'tx block list \<Rightarrow> bool" where
  "ledger_chain E h st \<longleftrightarrow> proper_chain st \<and> heights_from h st \<and> length st < 2 ^ 32 \<and>
     distinct (concat (map (tx_ids E) st)) \<and>
     (\<forall>b \<in> set st. \<forall>t \<in> set (blk_transactions b). ce_tx_bytes E t \<noteq> None)"

abbreviation record_of :: "'tx block \<Rightarrow> block_record" where
  "record_of b \<equiv> \<lparr> br_id = blk_id b, br_height = blk_height b \<rparr>"

text \<open>The record of a block under an identifier, when the block is in the list.\<close>

definition block_of :: "'tx block list \<Rightarrow> digest32 \<Rightarrow> 'tx block option" where
  "block_of st i = find (\<lambda>b. blk_id b = i) st"

lemma block_of_Cons: "block_of (b # st) i = (if i = blk_id b then Some b else block_of st i)"
  by (auto simp: block_of_def)

lemma block_of_Nil [simp]: "block_of [] i = None"
  by (simp add: block_of_def)

lemma block_of_None: "block_of st i = None \<longleftrightarrow> i \<notin> blk_id ` set st"
  by (auto simp: block_of_def find_None_iff)

lemma block_of_mem: "distinct (map blk_id st) \<Longrightarrow> b \<in> set st \<Longrightarrow> block_of st (blk_id b) = Some b"
  by (induction st) (auto simp: block_of_Cons, metis imageI)

lemma block_of_snoc: "block_of (st @ [b]) i = (case block_of st i of Some x \<Rightarrow> Some x | None \<Rightarrow> if i = blk_id b then Some b else None)"
  by (induction st) (auto simp: block_of_Cons)

lemma proper_tl: "proper_chain (b # st) \<Longrightarrow> proper_chain st"
  by (rule proper_chain_tl)

lemma linked_butlast: "linked_chain (st @ [b]) \<longleftrightarrow> linked_chain st \<and> (st \<noteq> [] \<longrightarrow> blk_parent_id (last st) = blk_id b)"
  by (induction st rule: linked_chain.induct) auto

lemma linked_parent_mem: "linked_chain st \<Longrightarrow> b \<in> set (butlast st) \<Longrightarrow> blk_parent_id b \<in> blk_id ` set st"
  by (induction st rule: linked_chain.induct) auto

lemma linked_append: "linked_chain (xs @ y # ys) \<longleftrightarrow> linked_chain xs \<and> (xs \<noteq> [] \<longrightarrow> blk_parent_id (last xs) = blk_id y) \<and> linked_chain (y # ys)"
  by (induction xs rule: linked_chain.induct) auto

lemma proper_prefix: "proper_chain (xs @ ys) \<Longrightarrow> proper_chain xs"
  by (cases ys) (auto simp: proper_chain_def linked_append)

lemma proper_take: "proper_chain st \<Longrightarrow> proper_chain (take n st)"
  using proper_prefix [of "take n st" "drop n st"] by simp

lemma heights_append: "heights_from h (xs @ ys) \<longleftrightarrow> heights_from (h + of_nat (length ys)) xs \<and> heights_from h ys"
  by (induction xs) (auto simp: ac_simps)

lemma window_heights:
  assumes "heights_from h (b # st)" "w = take n st" "w \<noteq> []"
  shows "blk_height b - blk_height (last w) = of_nat (length w)" "blk_height (last (b # butlast w)) = blk_height (last w) + 1"
proof -
  have st: "b # st = (b # w) @ drop n st" using assms(2) by simp
  then have h: "heights_from (h + of_nat (length (drop n st))) (b # w)" using assms(1) by (metis heights_append)
  then show "blk_height b - blk_height (last w) = of_nat (length w)" using heights_last [of "h + of_nat (length (drop n st))" w] assms(3) by auto
  have "b # w = (b # butlast w) @ [last w]" using assms(3) by simp
  then have "heights_from (h + of_nat (length (drop n st))) ((b # butlast w) @ [last w])" using h by metis
  then have "heights_from (h + of_nat (length (drop n st)) + 1) (b # butlast w)" "blk_height (last w) = h + of_nat (length (drop n st))"
    unfolding heights_append by simp_all
  then show "blk_height (last (b # butlast w)) = blk_height (last w) + 1" using heights_last by (metis list.distinct(1))
qed

lemma linked_parent_tl: "linked_chain (y # ys) \<Longrightarrow> x \<in> set (butlast (y # ys)) \<Longrightarrow> blk_parent_id x \<in> blk_id ` set ys"
  by (induction ys arbitrary: y) (auto split: if_splits)

text \<open>No two blocks of a chain have one parent.\<close>

lemma parents_apart:
  assumes "proper_chain (b # w)" "x \<in> set (butlast w)"
  shows "blk_parent_id x \<noteq> blk_parent_id b"
proof (cases w)
  case (Cons y ys)
  then have "linked_chain (y # ys)" "blk_id y \<notin> blk_id ` set ys" "blk_parent_id b = blk_id y"
    using assms(1) by (auto simp: proper_chain_def)
  then show ?thesis using linked_parent_tl [of y ys x] assms(2) Cons by auto
qed (use assms(2) in simp)

lemma ledger_tl: "ledger_chain E h (b # st) \<Longrightarrow> ledger_chain E h st"
  unfolding ledger_chain_def using proper_chain_tl [of b st] by auto

lemma ledger_suffix: "ledger_chain E h (xs @ ys) \<Longrightarrow> ledger_chain E h ys"
  by (induction xs) (auto dest: ledger_tl)

lemma distinct_concat_snoc: "distinct (concat (map f (xs @ [y]))) \<Longrightarrow> set (f y) \<inter> (\<Union>x \<in> set xs. set (f x)) = {}"
  by auto

definition rocks_cache_of :: "('tx, 'db) cache_env \<Rightarrow> u32 \<Rightarrow> ('db, 'tx) chain_cache" where
  "rocks_cache_of E m = \<lparr> cc_append_block = rocks_append_block E m, cc_exists = rocks_exists E,
     cc_get_best_block = rocks_get_best_block E, cc_take_best_block = rocks_take_best_block E \<rparr>"

lemma rocks_cache_of_sel:
  "cc_exists (rocks_cache_of E m) = rocks_exists E" "cc_get_best_block (rocks_cache_of E m) = rocks_get_best_block E"
  by (simp_all add: rocks_cache_of_def)

context rocks_store
begin

text \<open>What the store holds of the blocks \<open>st\<close>, exactly.\<close>

definition holds :: "'db \<Rightarrow> 'tx block list \<Rightarrow> bool" where
  "holds db st \<longleftrightarrow>
     (\<forall>i. db_get (ce_db E) db (postfixed_key E i PARENT_POSTFIX) = map_option (\<lambda>b. tx_key (blk_parent_id b)) (block_of st i)) \<and>
     (\<forall>i. db_get (ce_db E) db (postfixed_key E i HEIGHT_POSTFIX) = map_option (\<lambda>b. ser (ce_height E) (blk_height b)) (block_of st i)) \<and>
     (\<forall>i. db_get (ce_db E) db (postfixed_key E i TRANSACTION_POSTFIX) = map_option (\<lambda>b. ser (ce_ids E) (tx_ids E b)) (block_of st i)) \<and>
     (\<forall>b \<in> set (butlast st). db_get (ce_db E) db (postfixed_key E (blk_parent_id b) CHILD_POSTFIX) = Some (tx_key (blk_id b))) \<and>
     (\<forall>b \<in> set st. \<forall>t \<in> set (blk_transactions b). db_get (ce_db E) db (tx_key (ce_tx_id E t)) = ce_tx_bytes E t) \<and>
     db_get (ce_db E) db best_key = (case st of [] \<Rightarrow> None | b # _ \<Rightarrow> Some (ser (ce_rec E) (record_of b)))"

lemma drop_oldest_holds:
  assumes h: "holds db (st @ [old])" and p: "proper_chain (st @ [old])" "st \<noteq> []"
    and t: "set (tx_ids E old) \<inter> (\<Union>b \<in> set st. set (tx_ids E b)) = {}"
  shows "\<exists>db'. drop_oldest E (record_of old) db = Some db' \<and> holds db' st \<and>
    db_get (ce_db E) db' oldest_key = Some (ser (ce_rec E) \<lparr> br_id = blk_id (last st), br_height = blk_height old + 1 \<rparr>)"
proof -
  let ?D = "ce_db E"
  have link: "blk_parent_id (last st) = blk_id old" using p by (auto simp: proper_chain_def linked_butlast)
  have child: "db_get ?D db (postfixed_key E (blk_id old) CHILD_POSTFIX) = Some (tx_key (blk_id (last st)))"
    using h p(2) link by (metis (no_types, lifting) butlast_snoc holds_def last_in_set)
  have new: "block_of st (blk_id old) = None" using p(1) by (auto simp: proper_chain_def block_of_None)
  have txs: "db_get ?D db (postfixed_key E (blk_id old) TRANSACTION_POSTFIX) = Some (ser (ce_ids E) (tx_ids E old))"
    using h new by (simp add: holds_def block_of_snoc)
  define d1 where "d1 = db_put ?D db oldest_key (ser (ce_rec E) \<lparr> br_id = blk_id (last st), br_height = blk_height old + 1 \<rparr>)"
  define d2 where "d2 = fold (\<lambda>i tx. db_delete ?D tx (tx_key i)) (tx_ids E old) d1"
  define d3 where "d3 = fold (\<lambda>s tx. db_delete ?D tx (postfixed_key E (blk_id old) s)) [TRANSACTION_POSTFIX, HEIGHT_POSTFIX, PARENT_POSTFIX, CHILD_POSTFIX] d2"
  have g2: "db_get ?D d2 k = (if k \<in> tx_key ` set (tx_ids E old) then None else db_get ?D d1 k)" for k
  proof -
    have "db_get ?D (fold (\<lambda>i tx. db_delete ?D tx (tx_key i)) is d) k = (if k \<in> tx_key ` set is then None else db_get ?D d k)" for "is" d
      by (induction "is" arbitrary: d) auto
    then show ?thesis by (simp add: d2_def)
  qed
  have res: "drop_oldest E (record_of old) db = Some d3"
    using child txs by (simp add: drop_oldest_def Let_def d3_def d2_def d1_def)
  have "db_get ?D d3 oldest_key = Some (ser (ce_rec E) \<lparr> br_id = blk_id (last st), br_height = blk_height old + 1 \<rparr>)"
    by (auto simp: d3_def g2 d1_def)
  moreover have "holds d3 st"
  proof -
    have linked: "linked_chain st" using p(1) by (simp add: proper_chain_def linked_butlast)
    have parents: "blk_parent_id b \<noteq> blk_id old" if "b \<in> set (butlast st)" for b
      using linked_parent_mem [OF linked that] new by (auto simp: block_of_None)
    have other: "ce_tx_id E t \<notin> set (tx_ids E old)" if "b \<in> set st" "t \<in> set (blk_transactions b)" for b t
      using t that by (auto simp: tx_ids_def)
    have fields: "db_get ?D d3 (postfixed_key E i s) = (if i = blk_id old then None else db_get ?D db (postfixed_key E i s))"
      if "s \<in> {TRANSACTION_POSTFIX, HEIGHT_POSTFIX, PARENT_POSTFIX, CHILD_POSTFIX}" for i s
      using that by (auto simp: d3_def g2 d1_def postfixed_eq)
    have snoc: "i \<noteq> blk_id old \<Longrightarrow> block_of (st @ [old]) i = block_of st i" for i by (simp add: block_of_snoc split: option.split)
    have txk: "db_get ?D d3 (tx_key (ce_tx_id E t)) = ce_tx_bytes E t" if "b \<in> set st" "t \<in> set (blk_transactions b)" for b t
    proof -
      have "db_get ?D d3 (tx_key (ce_tx_id E t)) = db_get ?D d2 (tx_key (ce_tx_id E t))" by (simp add: d3_def)
      also have "\<dots> = db_get ?D db (tx_key (ce_tx_id E t))" using other [OF that] by (auto simp: g2 d1_def)
      finally show ?thesis using h that by (auto simp: holds_def)
    qed
    have best: "db_get ?D d3 best_key = db_get ?D db best_key" by (auto simp: d3_def g2 d1_def)
    show ?thesis unfolding holds_def
    proof (intro conjI ballI allI)
      show "db_get ?D d3 (postfixed_key E i PARENT_POSTFIX) = map_option (\<lambda>b. tx_key (blk_parent_id b)) (block_of st i)" for i
        using h new snoc [of i] by (cases "i = blk_id old") (simp_all add: fields holds_def)
      show "db_get ?D d3 (postfixed_key E i HEIGHT_POSTFIX) = map_option (\<lambda>b. ser (ce_height E) (blk_height b)) (block_of st i)" for i
        using h new snoc [of i] by (cases "i = blk_id old") (simp_all add: fields holds_def)
      show "db_get ?D d3 (postfixed_key E i TRANSACTION_POSTFIX) = map_option (\<lambda>b. ser (ce_ids E) (tx_ids E b)) (block_of st i)" for i
        using h new snoc [of i] by (cases "i = blk_id old") (simp_all add: fields holds_def)
      show "db_get ?D d3 (postfixed_key E (blk_parent_id b) CHILD_POSTFIX) = Some (tx_key (blk_id b))" if "b \<in> set (butlast st)" for b
        using h parents [OF that] in_set_butlastD [OF that] by (simp add: fields holds_def)
      show "db_get ?D d3 best_key = (case st of [] \<Rightarrow> None | b # _ \<Rightarrow> Some (ser (ce_rec E) (record_of b)))"
        using h p(2) by (cases st) (simp_all add: best holds_def)
    qed (rule txk)
  qed
  ultimately show ?thesis using res by blast
qed

text \<open>Appending a block to the kept blocks \<open>w\<close>, before the oldest is dropped.\<close>

lemma append_holds:
  assumes h: "holds db w" and p: "proper_chain (b # w)"
    and old: "db_get (ce_db E) db oldest_key = (if w = [] then None else Some (ser (ce_rec E) (record_of (last w))))"
    and t: "distinct (tx_ids E b)" "set (tx_ids E b) \<inter> (\<Union>x \<in> set w. set (tx_ids E x)) = {}" "\<forall>t \<in> set (blk_transactions b). ce_tx_bytes E t \<noteq> None"
  shows "\<exists>db'. holds db' (b # w) \<and> db_get (ce_db E) db' oldest_key = Some (ser (ce_rec E) (record_of (last (b # w)))) \<and>
    rocks_append_block E m db b = (if w \<noteq> [] \<and> blk_height b - blk_height (last w) = m then drop_oldest E (record_of (last w)) db' else Some db')"
proof -
  let ?D = "ce_db E"
  define tx0 where "tx0 = db_put ?D (db_put ?D (db_put ?D (db_put ?D db
      (postfixed_key E (blk_id b) PARENT_POSTFIX) (tx_key (blk_parent_id b)))
      (postfixed_key E (blk_parent_id b) CHILD_POSTFIX) (tx_key (blk_id b)))
      (postfixed_key E (blk_id b) HEIGHT_POSTFIX) (ser (ce_height E) (blk_height b)))
      (postfixed_key E (blk_id b) TRANSACTION_POSTFIX) (ser (ce_ids E) (tx_ids E b))"
  obtain tx1 where st: "store_transactions E (blk_transactions b) tx0 = Some tx1"
    "\<And>k. k \<notin> tx_key ` ce_tx_id E ` set (blk_transactions b) \<Longrightarrow> db_get ?D tx1 k = db_get ?D tx0 k"
    "\<And>t. t \<in> set (blk_transactions b) \<Longrightarrow> db_get ?D tx1 (tx_key (ce_tx_id E t)) = ce_tx_bytes E t"
    using store_transactions_view [of "blk_transactions b" tx0] t(1,3) by (auto simp: tx_ids_def)
  define d where "d = db_put ?D tx1 best_key (ser (ce_rec E) (record_of b))"
  define db' where "db' = (if w = [] then db_put ?D d oldest_key (ser (ce_rec E) (record_of b)) else d)"
  have P: "s \<in> {PARENT_POSTFIX, CHILD_POSTFIX, HEIGHT_POSTFIX, TRANSACTION_POSTFIX} \<Longrightarrow>
    db_get ?D db' (postfixed_key E i s) = db_get ?D tx0 (postfixed_key E i s)" for i s
    by (auto simp: db'_def d_def intro!: st(2))
  have old1: "db_get ?D tx1 oldest_key = db_get ?D db oldest_key"
    by (subst st(2)) (auto simp: tx0_def)
  have res: "rocks_append_block E m db b = (if w \<noteq> [] \<and> blk_height b - blk_height (last w) = m then drop_oldest E (record_of (last w)) db' else Some db')"
    unfolding rocks_append_block_def Let_def tx_ids_def [symmetric] tx0_def [symmetric] using st(1) old
    by (simp add: old1 d_def [symmetric] db'_def)
  have parent: "blk_parent_id x \<noteq> blk_parent_id b" if "x \<in> set (butlast w)" for x
    using parents_apart [OF p that] .
  have own: "ce_tx_id E t \<notin> ce_tx_id E ` set (blk_transactions b)" if "x \<in> set w" "t \<in> set (blk_transactions x)" for x t
    using t(2) that by (auto simp: tx_ids_def)
  have txk: "db_get ?D db' (tx_key (ce_tx_id E t)) = ce_tx_bytes E t" if "x \<in> set (b # w)" "t \<in> set (blk_transactions x)" for x t
  proof -
    have "db_get ?D db' (tx_key (ce_tx_id E t)) = db_get ?D tx1 (tx_key (ce_tx_id E t))" by (simp add: db'_def d_def)
    also have "\<dots> = ce_tx_bytes E t"
    proof (cases "x = b")
      case False
      then have x: "x \<in> set w" using that(1) by simp
      have "db_get ?D tx1 (tx_key (ce_tx_id E t)) = db_get ?D tx0 (tx_key (ce_tx_id E t))"
        by (rule st(2)) (use own [OF x that(2)] in auto)
      then show ?thesis using h x that(2) by (simp add: tx0_def holds_def)
    qed (use st(3) that(2) in simp)
    finally show ?thesis .
  qed
  have "holds db' (b # w)" unfolding holds_def
  proof (intro conjI ballI allI)
    show "db_get ?D db' (postfixed_key E i PARENT_POSTFIX) = map_option (\<lambda>b. tx_key (blk_parent_id b)) (block_of (b # w) i)" for i
      using h by (auto simp: P tx0_def postfixed_eq holds_def block_of_Cons)
    show "db_get ?D db' (postfixed_key E i HEIGHT_POSTFIX) = map_option (\<lambda>b. ser (ce_height E) (blk_height b)) (block_of (b # w) i)" for i
      using h by (auto simp: P tx0_def postfixed_eq holds_def block_of_Cons)
    show "db_get ?D db' (postfixed_key E i TRANSACTION_POSTFIX) = map_option (\<lambda>b. ser (ce_ids E) (tx_ids E b)) (block_of (b # w) i)" for i
      using h by (auto simp: P tx0_def postfixed_eq holds_def block_of_Cons)
    show "db_get ?D db' (postfixed_key E (blk_parent_id x) CHILD_POSTFIX) = Some (tx_key (blk_id x))" if "x \<in> set (butlast (b # w))" for x
      using h parent that by (auto simp: P tx0_def postfixed_eq holds_def split: if_splits)
    show "db_get ?D db' best_key = (case b # w of [] \<Rightarrow> None | b # _ \<Rightarrow> Some (ser (ce_rec E) (record_of b)))"
      by (simp add: db'_def d_def)
  qed (rule txk)
  moreover have "db_get ?D db' oldest_key = Some (ser (ce_rec E) (record_of (last (b # w))))"
    using old old1 by (simp add: db'_def d_def)
  ultimately show ?thesis using res by blast
qed

text \<open>The states of the cache after appending \<open>st\<close>, the newest first.\<close>

definition live_cache :: "u32 \<Rightarrow> u32 \<Rightarrow> 'db \<Rightarrow> 'tx block list \<Rightarrow> bool" where
  "live_cache m h db st \<longleftrightarrow> ledger_chain E h st \<and> holds db (take (unat m) st) \<and>
     db_get (ce_db E) db oldest_key = (if st = [] then None else Some (ser (ce_rec E) (record_of (last (take (unat m) st)))))"

lemma append_window:
  assumes "live_cache m h db st" "0 < m" "ledger_chain E h (b # st)"
  shows "\<exists>db'. rocks_append_block E m db b = Some db' \<and> live_cache m h db' (b # st)"
proof -
  define w where "w = take (unat m) st"
  have m: "0 < unat m" using assms(2) by (simp add: word_less_nat_alt)
  then have w_nil: "w = [] \<longleftrightarrow> st = []" by (simp add: w_def)
  have p: "proper_chain (b # w)" using assms(3) proper_take [of "b # st" "Suc (unat m)"] by (simp add: ledger_chain_def w_def)
  have dis: "distinct (tx_ids E b)" "set (tx_ids E b) \<inter> (\<Union>x \<in> set st. set (tx_ids E x)) = {}"
    "\<forall>t \<in> set (blk_transactions b). ce_tx_bytes E t \<noteq> None"
    using assms(3) by (auto simp: ledger_chain_def tx_ids_def)
  have sub: "set w \<subseteq> set st" by (simp add: w_def set_take_subset)
  then have disw: "set (tx_ids E b) \<inter> (\<Union>x \<in> set w. set (tx_ids E x)) = {}" using dis(2) by blast
  have hold: "holds db w" "db_get (ce_db E) db oldest_key = (if w = [] then None else Some (ser (ce_rec E) (record_of (last w))))"
    using assms(1) w_nil by (simp_all add: live_cache_def w_def)
  obtain d where d: "holds d (b # w)" "db_get (ce_db E) d oldest_key = Some (ser (ce_rec E) (record_of (last (b # w))))"
    "rocks_append_block E m db b = (if w \<noteq> [] \<and> blk_height b - blk_height (last w) = m then drop_oldest E (record_of (last w)) d else Some d)"
    using append_holds [OF hold(1) p hold(2) dis(1) disw dis(3), of m] by blast
  have len: "length st < 2 ^ 32" using assms(3) by (simp add: ledger_chain_def)
  show ?thesis
  proof (cases "unat m \<le> length st")
    case True
    then have lw: "length w = unat m" "w \<noteq> []" using m by (auto simp: w_def)
    have hts: "blk_height b - blk_height (last w) = m" "blk_height (last (b # butlast w)) = blk_height (last w) + 1"
      using window_heights [of h b st w "unat m"] assms(3) lw by (simp_all add: ledger_chain_def w_def)
    have split: "b # w = (b # butlast w) @ [last w]" using lw(2) by simp
    have apart: "set (tx_ids E (last w)) \<inter> (\<Union>x \<in> set (b # butlast w). set (tx_ids E x)) = {}"
    proof -
      have "distinct (concat (map (tx_ids E) ((b # w) @ drop (unat m) st)))" using assms(3) by (simp add: ledger_chain_def w_def)
      then have "distinct (concat (map (tx_ids E) (b # w)))" by (simp only: map_append concat_append distinct_append)
      then have "distinct (concat (map (tx_ids E) ((b # butlast w) @ [last w])))" using split by metis
      then show ?thesis by (rule distinct_concat_snoc)
    qed
    obtain d' where d': "drop_oldest E (record_of (last w)) d = Some d'" "holds d' (b # butlast w)"
      "db_get (ce_db E) d' oldest_key = Some (ser (ce_rec E) \<lparr> br_id = blk_id (last (b # butlast w)), br_height = blk_height (last w) + 1 \<rparr>)"
      using drop_oldest_holds [OF d(1) [unfolded split] p [unfolded split] _ apart] by auto
    have "take (unat m) (b # st) = b # butlast w" using True m by (simp add: w_def take_Cons' butlast_take)
    then show ?thesis using d' d(3) lw(2) hts assms(3) by (simp add: live_cache_def)
  next
    case False
    then have w: "w = st" by (simp add: w_def)
    have "blk_height b - blk_height (last w) \<noteq> m" if "w \<noteq> []"
    proof -
      have "blk_height b - blk_height (last w) = of_nat (length w)" using window_heights [of h b st w "unat m"] assms(3) that by (simp add: ledger_chain_def w_def)
      moreover have "of_nat (length w) \<noteq> m" using False w len by (auto simp: unsigned_of_nat take_bit_nat_eq_self)
      ultimately show ?thesis by simp
    qed
    then show ?thesis using d False w assms(3) m by (auto simp: live_cache_def take_Cons')
  qed
qed

text \<open>What can still be taken out.\<close>

definition stack_cache :: "'db \<Rightarrow> 'tx block list \<Rightarrow> bool" where
  "stack_cache db st \<longleftrightarrow> linked_chain st \<and> distinct (concat (map (tx_ids E) st)) \<and>
     (\<forall>b \<in> set st. db_get (ce_db E) db (postfixed_key E (blk_id b) PARENT_POSTFIX) = Some (tx_key (blk_parent_id b)) \<and>
        db_get (ce_db E) db (postfixed_key E (blk_id b) HEIGHT_POSTFIX) = Some (ser (ce_height E) (blk_height b)) \<and>
        db_get (ce_db E) db (postfixed_key E (blk_id b) TRANSACTION_POSTFIX) = Some (ser (ce_ids E) (tx_ids E b)) \<and>
        (\<forall>t \<in> set (blk_transactions b). \<exists>bs. ce_tx_bytes E t = Some bs \<and> db_get (ce_db E) db (tx_key (ce_tx_id E t)) = Some bs)) \<and>
     (st \<noteq> [] \<longrightarrow> db_get (ce_db E) db (postfixed_key E (blk_parent_id (last st)) PARENT_POSTFIX) = None) \<and>
     db_get (ce_db E) db best_key = (case st of [] \<Rightarrow> None | b # _ \<Rightarrow> Some (ser (ce_rec E) (record_of b)))"

lemma live_stack_cache:
  assumes "live_cache m h db st"
  shows "stack_cache db (take (unat m) st)"
proof -
  define w where "w = take (unat m) st"
  have h: "holds db w" and l: "ledger_chain E h st" using assms by (simp_all add: live_cache_def w_def)
  have p: "proper_chain w" using l proper_take by (auto simp: ledger_chain_def w_def)
  have "distinct (concat (map (tx_ids E) (w @ drop (unat m) st)))" using l by (simp add: ledger_chain_def w_def)
  then have dis: "distinct (concat (map (tx_ids E) w))" by (simp only: map_append concat_append distinct_append)
  have sub: "set w \<subseteq> set st" by (simp add: w_def set_take_subset)
  have ser: "ce_tx_bytes E t \<noteq> None" if "b \<in> set w" "t \<in> set (blk_transactions b)" for b t
    using l that sub by (auto simp: ledger_chain_def)
  have mem: "block_of w (blk_id b) = Some b" if "b \<in> set w" for b using block_of_mem [OF _ that] p by (simp add: proper_chain_def)
  have out: "block_of w (blk_parent_id (last w)) = None" if "w \<noteq> []" using p that by (simp add: proper_chain_def block_of_None)
  have "stack_cache db w" using h p dis ser mem out by (auto simp: stack_cache_def holds_def proper_chain_def)
  then show ?thesis by (simp add: w_def)
qed

lemma take_frame:
  assumes "rocks_take_best_block E db = Some (Some b, db')"
    "db_get (ce_db E) db (postfixed_key E (blk_id b) TRANSACTION_POSTFIX) = Some (ser (ce_ids E) is)" "k \<noteq> best_key" "k \<notin> tx_key ` set is"
  shows "db_get (ce_db E) db' k = db_get (ce_db E) db k"
  using assms take_transactions_frame [of "is" db _ _ k]
  by (auto simp: rocks_take_best_block_def Let_def bind_eq_Some_conv split: option.splits if_splits prod.splits)

lemma pop_stack_cache:
  assumes s: "stack_cache db (b # st)"
  shows "\<exists>db'. rocks_take_best_block E db = Some (Some (b \<lparr> blk_timestamp := 0 \<rparr>), db') \<and> stack_cache db' st"
proof -
  let ?D = "ce_db E"
  have b: "db_get ?D db (postfixed_key E (blk_id b) PARENT_POSTFIX) = Some (tx_key (blk_parent_id b))"
    "db_get ?D db (postfixed_key E (blk_id b) TRANSACTION_POSTFIX) = Some (ser (ce_ids E) (tx_ids E b))"
    "db_get ?D db best_key = Some (ser (ce_rec E) (record_of b))"
    "\<forall>t \<in> set (blk_transactions b). \<exists>bs. ce_tx_bytes E t = Some bs \<and> db_get ?D db (tx_key (ce_tx_id E t)) = Some bs"
    using s by (simp_all add: stack_cache_def)
  have dis: "distinct (tx_ids E b)" "set (tx_ids E b) \<inter> (\<Union>x \<in> set st. set (tx_ids E x)) = {}" using s by (auto simp: stack_cache_def)
  have parent: "db_get ?D db (postfixed_key E (blk_parent_id b) PARENT_POSTFIX) = (case st of [] \<Rightarrow> None | x # _ \<Rightarrow> Some (tx_key (blk_parent_id x)))"
    "st \<noteq> [] \<Longrightarrow> db_get ?D db (postfixed_key E (blk_parent_id b) HEIGHT_POSTFIX) = Some (ser (ce_height E) (blk_height (hd st)))"
    "st \<noteq> [] \<Longrightarrow> blk_parent_id b = blk_id (hd st)"
    using s by (cases st; simp add: stack_cache_def)+
  obtain db' where db': "rocks_take_best_block E db = Some (Some (b \<lparr> blk_timestamp := 0 \<rparr>), db')"
    "db_get ?D db' best_key = (if st = [] then None else Some (ser (ce_rec E) \<lparr> br_id = blk_parent_id b, br_height = blk_height (hd st) \<rparr>))"
    using take_view [of db b "blk_height (hd st)", OF b(3) _ b(1) _ b(4)] b(2) dis(1) parent by (cases st) (auto simp: tx_ids_def)
  have frame: "k \<noteq> best_key \<Longrightarrow> k \<notin> tx_key ` set (tx_ids E b) \<Longrightarrow> db_get ?D db' k = db_get ?D db k" for k
    using take_frame [OF db'(1)] b(2) by simp
  have fields: "db_get ?D db' (postfixed_key E i s) = db_get ?D db (postfixed_key E i s)" if "s \<in> {PARENT_POSTFIX, HEIGHT_POSTFIX, TRANSACTION_POSTFIX}" for i s
    using that by (intro frame) auto
  have txs: "db_get ?D db' (tx_key (ce_tx_id E t)) = db_get ?D db (tx_key (ce_tx_id E t))" if "x \<in> set st" "t \<in> set (blk_transactions x)" for x t
  proof (rule frame)
    have "ce_tx_id E t \<in> (\<Union>x \<in> set st. set (tx_ids E x))" using that by (auto simp: tx_ids_def)
    then have "ce_tx_id E t \<notin> set (tx_ids E b)" using dis(2) by blast
    then show "tx_key (ce_tx_id E t) \<notin> tx_key ` set (tx_ids E b)" by auto
  qed simp
  have "stack_cache db' st" unfolding stack_cache_def
  proof (intro conjI ballI impI)
    show "linked_chain st" using s by (cases st) (simp_all add: stack_cache_def)
    show "distinct (concat (map (tx_ids E) st))" using s by (simp add: stack_cache_def)
    show "db_get ?D db' best_key = (case st of [] \<Rightarrow> None | b # _ \<Rightarrow> Some (ser (ce_rec E) (record_of b)))"
      using db'(2) parent(3) by (cases st) simp_all
    show "db_get ?D db' (postfixed_key E (blk_parent_id (last st)) PARENT_POSTFIX) = None" if "st \<noteq> []"
      using s that by (simp add: stack_cache_def fields)
  qed (use s in \<open>auto simp: stack_cache_def fields txs\<close>)
  then show ?thesis using db'(1) by blast
qed

lemma pop_empty_cache: "stack_cache db [] \<Longrightarrow> rocks_take_best_block E db = Some (None, db)"
  by (simp add: stack_cache_def rocks_take_best_block_def)

text \<open>The cache with its depth \<open>m\<close> as a structure field, as a \<open>ChainCache\<close>.\<close>

lemma recent_cache_rocks:
  assumes "0 < m"
  shows "recent_cache (rocks_cache_of E m) (live_cache m h) stack_cache (\<lambda>b st. ledger_chain E h (b # st)) (take (unat m)) (\<lambda>b. b \<lparr> blk_timestamp := 0 \<rparr>)"
proof
  fix c st
  assume l: "live_cache m h c st"
  show "ledger_chain E h (b # st) \<Longrightarrow> \<exists>c'. cc_append_block (rocks_cache_of E m) c b = Some c' \<and> live_cache m h c' (b # st)" for b
    using append_window [OF l assms] by (simp add: rocks_cache_of_def)
  show "cc_exists (rocks_cache_of E m) c i \<longleftrightarrow> i \<in> blk_id ` set (take (unat m) st)" for i
    using l block_of_None [of "take (unat m) st" i] by (auto simp: rocks_cache_of_def rocks_exists_def live_cache_def holds_def)
  show "cc_get_best_block (rocks_cache_of E m) c = (case take (unat m) st of [] \<Rightarrow> None | b # _ \<Rightarrow> Some (record_of b))"
    using l by (auto simp: rocks_cache_of_def rocks_get_best_block_def live_cache_def holds_def split: list.splits)
  show "stack_cache c (take (unat m) st)" using live_stack_cache [OF l] .
qed (simp_all add: rocks_cache_of_def pop_stack_cache pop_empty_cache)

lemma fresh_live: "(\<And>k. db_get (ce_db E) db k = None) \<Longrightarrow> live_cache m h db []"
  by (simp add: live_cache_def ledger_chain_def proper_chain_def holds_def)

end

interpretation recent_sample: recent_cache "rocks_cache_of sample_cache 10" "sample_cache.live_cache 10 h" sample_cache.stack_cache
    "\<lambda>b st. ledger_chain sample_cache h (b # st)" "take (unat (10 :: u32))" "\<lambda>b. b \<lparr> blk_timestamp := 0 \<rparr>" for h
  by (rule sample_cache.recent_cache_rocks) simp

text \<open>The cache of the node is the one with the depth of the ledger's rollbacks.\<close>

lemma rocks_cache_node: "rocks_cache E = rocks_cache_of E ERGO_MAX_ROLLBACK_DEPTH"
  by (simp add: rocks_cache_def rocks_cache_of_def)

section \<open>Properties\<close>

text \<open>C29: A RocksDB cache that gets the blocks of a chain one after the other never panics; it then knows exactly the newest
  \<open>max_rollback_depth\<close> of them, the last one is the best, and \<open>take_best_block\<close> gives them back newest first with
  their transactions (and no timestamp), then nothing.\<close>

theorem rocksdb_keeps_recent_blocks:
  assumes "rocks_store E" "\<forall>k. db_get (ce_db E) db k = None" "0 < m" "ledger_chain E h (rev bs)"
  shows "\<exists>db1 db2. append_blocks (rocks_cache_of E m) bs db = Some db1 \<and>
    (\<forall>i. rocks_exists E db1 i \<longleftrightarrow> i \<in> blk_id ` set (take (unat m) (rev bs))) \<and>
    rocks_get_best_block E db1 = (if bs = [] then None else Some \<lparr> br_id = blk_id (last bs), br_height = blk_height (last bs) \<rparr>) \<and>
    take_blocks (rocks_cache_of E m) n db1 = Some (map (\<lambda>b. b \<lparr> blk_timestamp := 0 \<rparr>) (take n (take (unat m) (rev bs))), db2)"
proof -
  have ext: "ledger_chain E h (b # rev us)" if "bs = us @ b # vs" for us b vs
    using assms(4) ledger_suffix [of E h "rev vs" "b # rev us"] that by simp
  have live: "rocks_store.live_cache E m h db []" using rocks_store.fresh_live [OF assms(1)] assms(2) by blast
  have best: "(case take (unat m) (rev bs) of [] \<Rightarrow> None | b # _ \<Rightarrow> Some \<lparr> br_id = blk_id b, br_height = blk_height b \<rparr>) =
      (if bs = [] then None else Some \<lparr> br_id = blk_id (last bs), br_height = blk_height (last bs) \<rparr>)"
    using assms(3) by (cases bs rule: rev_cases) (simp_all add: word_less_nat_alt take_Cons')
  show ?thesis
    using recent_cache.window [OF rocks_store.recent_cache_rocks [OF assms(1,3)] live, of bs n, OF ext]
    unfolding best by (simp add: rocks_cache_of_sel)
qed

theorem rocksdb_keeps_recent_blocks_witness:
  "\<exists>db1 db2. append_blocks (rocks_cache_of sample_cache 2)
      [plain_block 1 9 5, (plain_block 2 1 6) \<lparr> blk_transactions := [21, 22] \<rparr>, plain_block 3 2 7] RBT.empty = Some db1 \<and>
    \<not> rocks_exists sample_cache db1 1 \<and> rocks_exists sample_cache db1 2 \<and>
    take_blocks (rocks_cache_of sample_cache 2) 3 db1 = Some ([plain_block 3 2 7, (plain_block 2 1 6) \<lparr> blk_transactions := [21, 22] \<rparr>], db2)"
proof -
  have none: "\<forall>k. db_get (ce_db sample_cache) RBT.empty k = None" by (simp add: sample_cache_def mem_rocksdb_def)
  have chain: "ledger_chain sample_cache 5 (rev [plain_block 1 9 5, (plain_block 2 1 6) \<lparr> blk_transactions := [21, 22] \<rparr>, plain_block 3 2 7])"
    by (simp add: ledger_chain_def proper_chain_def plain_block_def tx_ids_def sample_cache_def)
  show ?thesis
    using rocksdb_keeps_recent_blocks [OF sample_cache.rocks_store_axioms none _ chain, of 2 3]
    by (auto simp: plain_block_def simp del: append_blocks.simps)
qed

end
