(* ===== verification/Test_Support.thy ===== *)
theory Test_Support
  imports Ergo
begin

text \<open>
  What the tests of the repository are written with: assertions and loops.  A test is a function of the data it draws at
  random whose result is \<open>Some ()\<close> when it passes and \<open>None\<close> when an assertion fails or an \<open>unwrap\<close> panics.
  \<open>for_each_invariant\<close> is the rule for the loops.
\<close>

definition assert_that :: "bool \<Rightarrow> unit panics" where
  "assert_that b = (if b then Some () else None)"

fun for_each :: "'i list \<Rightarrow> ('i \<Rightarrow> 's \<Rightarrow> 's panics) \<Rightarrow> 's \<Rightarrow> 's panics" where
  "for_each [] f s = Some s"
| "for_each (i # is) f s = do { s \<leftarrow> f i s; for_each is f s }"

definition check_each :: "'i list \<Rightarrow> ('i \<Rightarrow> unit panics) \<Rightarrow> unit panics" where
  "check_each is f = for_each is (\<lambda>i _. f i) ()"

lemma assert_that_passes [simp]: "assert_that b = Some u \<longleftrightarrow> b"
  by (simp add: assert_that_def)

lemma assert_that_True [simp]: "assert_that True = Some ()"
  by (simp add: assert_that_def)

lemma for_each_append: "for_each (is @ js) f s = do { s \<leftarrow> for_each is f s; for_each js f s }"
  by (induction "is" arbitrary: s) (auto split: bind_split)

lemma for_each_invariant:
  assumes "I a s" "a \<le> n" "\<And>i s. a \<le> i \<Longrightarrow> i < n \<Longrightarrow> I i s \<Longrightarrow> \<exists>s'. f i s = Some s' \<and> I (Suc i) s'"
  shows "\<exists>s'. for_each [a..<n] f s = Some s' \<and> I n s'"
  using assms(2)
proof (induction n rule: dec_induct)
  case base
  then show ?case using assms(1) by simp
next
  case (step m)
  obtain s1 where "for_each [a..<m] f s = Some s1" "I m s1" using step.IH by blast
  moreover obtain s2 where "f m s1 = Some s2" "I (Suc m) s2" using assms(3) [OF step.hyps calculation(2)] by blast
  ultimately show ?case using step.hyps by (simp add: for_each_append)
qed

lemma for_each_elements:
  assumes "I s" "\<And>i s. i \<in> set is \<Longrightarrow> I s \<Longrightarrow> \<exists>s'. f i s = Some s' \<and> I s'"
  shows "\<exists>s'. for_each is f s = Some s' \<and> I s'"
  using assms
proof (induction "is" arbitrary: s)
  case (Cons i "is")
  obtain s1 where "f i s = Some s1" "I s1" using Cons.prems(2) [OF _ Cons.prems(1), of i] by auto
  then show ?case using Cons.IH [of s1] Cons.prems(2) by simp
qed simp

lemma for_each_map: "for_each (map g is) f s = for_each is (\<lambda>i. f (g i)) s"
  by (induction "is" arbitrary: s) (auto split: bind_split)

lemma for_each_list:
  assumes "I 0 s" "\<And>k s. k < length xs \<Longrightarrow> I k s \<Longrightarrow> \<exists>s'. f (xs ! k) s = Some s' \<and> I (Suc k) s'"
  shows "\<exists>s'. for_each xs f s = Some s' \<and> I (length xs) s'"
proof -
  have "\<exists>s'. for_each [0..<length xs] (\<lambda>i. f (xs ! i)) s = Some s' \<and> I (length xs) s'"
    using assms by (intro for_each_invariant) simp_all
  then show ?thesis using for_each_map [of "(!) xs" "[0..<length xs]" f s] by (simp add: map_nth)
qed

lemma for_each_fold: "for_each xs (\<lambda>x s. Some (f x s)) s = Some (fold f xs s)"
  by (induction xs arbitrary: s) simp_all

lemma for_each_collect:
  assumes "\<And>d. d \<in> set ds \<Longrightarrow> \<exists>b. (\<forall>res. f d res = Some (res @ [b])) \<and> P d b"
  shows "\<exists>bs. for_each ds f res = Some (res @ bs) \<and> list_all2 P ds bs"
  using assms
proof (induction ds arbitrary: res)
  case (Cons d ds)
  obtain b where b: "\<And>res. f d res = Some (res @ [b])" "P d b" using Cons.prems [of d] by auto
  obtain bs where "for_each ds f (res @ [b]) = Some ((res @ [b]) @ bs)" "list_all2 P ds bs" using Cons.IH [of "res @ [b]"] Cons.prems by auto
  then show ?case using b by (intro exI [of _ "b # bs"]) simp
qed simp

lemma check_each_passes: "(\<And>i. i \<in> set is \<Longrightarrow> f i = Some ()) \<Longrightarrow> check_each is f = Some ()"
  unfolding check_each_def by (induction "is") auto

lemma nth_opt_in: "i < length xs \<Longrightarrow> nth_opt xs i = Some (xs ! i)"
  by (simp add: nth_opt_def)

text \<open>\<open>Digest32::from([b; 32])\<close> of the tests.\<close>

lemma replicated_digest: "(from_be_bytes (replicate 32 a) :: digest32) = from_be_bytes (replicate 32 b) \<longleftrightarrow> a = b"
proof
  assume eq: "(from_be_bytes (replicate 32 a) :: digest32) = from_be_bytes (replicate 32 b)"
  have "unat (from_be_bytes (replicate 32 c) :: digest32) = nat_be (replicate 32 c)" for c
    using nat_be_lt [of "replicate 32 c"] by (simp add: from_be_bytes_def unsigned_of_nat take_bit_nat_eq_self)
  then have "nat_be (replicate 32 a) = nat_be (replicate 32 b)" using eq by metis
  then show "a = b" using be_nat_nat_be [of "replicate 32 a" 32] be_nat_nat_be [of "replicate 32 b" 32]
    by (metis length_replicate replicate_eq_replicate zero_neq_numeral)
qed simp

end
