(* ===== verification/Test_Entities.thy ===== *)
theory Test_Entities
  imports Entity_Repo Test_Support Codecs
begin

text \<open>
  The tests of the entity repository (\<open>spectrum-offchain/src/box_resolver/persistence.rs\<close> and \<open>box_resolver.rs\<close>), as functions of the
  repository under test and of the identifiers the tests draw at random.

  Results: over every store that keeps the documented laws the tests pass whenever the random identifiers they rely on are
  pairwise different, and the rollback to a confirmed state that one of them asserts reads the state of another entity.
\<close>

section \<open>The tests\<close>

record ergo_entity =
  ee_token_id :: token_id
  ee_box_id :: box_id

definition test_entity :: "token_id list \<Rightarrow> box_id list \<Rightarrow> nat \<Rightarrow> ergo_entity panics" where
  "test_entity token_ids box_ids i = do {
     t \<leftarrow> nth_opt token_ids i;
     b \<leftarrow> nth_opt box_ids i;
     Some \<lparr> ee_token_id = t, ee_box_id = b \<rparr> }"

definition gen_box_and_token_ids :: "digest32 list \<Rightarrow> digest32 list \<Rightarrow> box_id list \<times> token_id list \<times> nat" where
  "gen_box_and_token_ids boxes tokens = (boxes, tokens, 30)"

definition traced_entity :: "token_id list \<Rightarrow> box_id list \<Rightarrow> nat \<Rightarrow> (ergo_entity predicted, box_id) traced panics" where
  "traced_entity token_ids box_ids i = do {
     e \<leftarrow> test_entity token_ids box_ids i;
     Some \<lparr> tr_state = Predicted e, tr_prev_state_id = nth_opt box_ids (i - 1) \<rparr> }"

type_synonym 'r entity_test = "(ergo_entity, token_id, box_id, 'r) entity_repo_ops \<Rightarrow> 'r \<Rightarrow> box_id list \<times> token_id list \<times> nat \<Rightarrow> unit panics"

definition test_entity_repo_may_exist :: "'r entity_test" where
  "test_entity_repo_may_exist R client ids = (case ids of (box_ids, token_ids, n) \<Rightarrow> do {
     client \<leftarrow> for_each [1..<n] (\<lambda>i client. do {
       entity \<leftarrow> traced_entity token_ids box_ids i;
       Some (ero_put_predicted R client entity) }) client;
     check_each [1..<n] (\<lambda>i. do { b \<leftarrow> nth_opt box_ids i; assert_that (ero_may_exist R client b) }) })"

definition test_entity_repo_predicted :: "'r entity_test" where
  "test_entity_repo_predicted R client ids = (case ids of (box_ids, token_ids, n) \<Rightarrow> do {
     client \<leftarrow> for_each [1..<n] (\<lambda>i client. do {
       entity \<leftarrow> traced_entity token_ids box_ids i;
       Some (ero_put_predicted R client entity) }) client;
     check_each [1..<n] (\<lambda>i. do { b \<leftarrow> nth_opt box_ids i; assert_that (ero_get_prediction_predecessor R client b = nth_opt box_ids (i - 1)) }) })"

definition test_entity_repo_confirmed :: "'r entity_test" where
  "test_entity_repo_confirmed R client ids = (case ids of (box_ids, token_ids, n) \<Rightarrow> do {
     (client, entities) \<leftarrow> for_each [0..<n] (\<lambda>i (client, entities). do {
       e \<leftarrow> test_entity token_ids box_ids i;
       Some (ero_put_confirmed R client (Confirmed e), entities @ [e]) }) (client, []);
     check_each [0..<n] (\<lambda>i. do {
       t \<leftarrow> nth_opt token_ids i;
       e \<leftarrow> ero_get_last_confirmed R client t;
       e' \<leftarrow> nth_opt entities i;
       assert_that (e = Confirmed e') }) })"

definition test_entity_repo_unconfirmed :: "'r entity_test" where
  "test_entity_repo_unconfirmed R client ids = (case ids of (box_ids, token_ids, n) \<Rightarrow> do {
     (client, entities) \<leftarrow> for_each [0..<n] (\<lambda>i (client, entities). do {
       e \<leftarrow> test_entity token_ids box_ids i;
       Some (ero_put_unconfirmed R client (Unconfirmed e), entities @ [e]) }) (client, []);
     check_each [0..<n] (\<lambda>i. do {
       t \<leftarrow> nth_opt token_ids i;
       e \<leftarrow> ero_get_last_unconfirmed R client t;
       e' \<leftarrow> nth_opt entities i;
       assert_that (e = Unconfirmed e') }) })"

definition test_entity_repo_invalidate :: "'r entity_test" where
  "test_entity_repo_invalidate R client ids = (case ids of (box_ids, token_ids, n) \<Rightarrow>
     map_option (\<lambda>_. ()) (for_each [1..<n] (\<lambda>i client. do {
       ee \<leftarrow> test_entity token_ids box_ids i;
       entity \<leftarrow> traced_entity token_ids box_ids i;
       let client = ero_put_predicted R client entity;
       let client = ero_put_unconfirmed R client (Unconfirmed ee);
       let client = ero_put_confirmed R client (Confirmed ee);
       let client = ero_invalidate R client (ee_box_id ee) (ee_token_id ee);
       assert_that (ero_get_last_predicted R client (ee_token_id ee) = None);
       assert_that (ero_get_last_unconfirmed R client (ee_token_id ee) = None);
       (if i = 1 then assert_that (ero_get_last_confirmed R client (ee_token_id ee) = None)
        else assert_that (ero_get_last_confirmed R client (ee_token_id ee) \<noteq> None));
       Some client }) client))"

definition test_entity_repo_eliminate :: "'r entity_test" where
  "test_entity_repo_eliminate R client ids = (case ids of (box_ids, token_ids, n) \<Rightarrow>
     map_option (\<lambda>_. ()) (for_each [1..<n] (\<lambda>i client. do {
       ee \<leftarrow> test_entity token_ids box_ids i;
       entity \<leftarrow> traced_entity token_ids box_ids i;
       let client = ero_put_predicted R client entity;
       let client = ero_put_unconfirmed R client (Unconfirmed ee);
       let client = ero_eliminate R client ee;
       assert_that (ero_get_last_predicted R client (ee_token_id ee) = None);
       assert_that (ero_get_last_unconfirmed R client (ee_token_id ee) = None);
       Some client }) client))"

definition test_resolve_state_trivial :: "(ergo_entity, token_id, box_id, 'db) entity_env \<Rightarrow> 'db \<Rightarrow> token_id \<Rightarrow> box_id \<Rightarrow> unit panics" where
  "test_resolve_state_trivial X client t b = do {
     let entity = \<lparr> ee_token_id = t, ee_box_id = b \<rparr>;
     let client = put_confirmed X client (Confirmed entity);
     resolved \<leftarrow> resolve_entity_state X client (ee_token_id entity);
     assert_that (resolved = Some entity) }"

section \<open>The tests pass\<close>

locale entity_tests = entity_repo X for X :: "(ergo_entity, token_id, box_id, 'db) entity_env" +
  fixes db :: 'db and box_ids :: "box_id list" and token_ids :: "token_id list" and n :: nat
  assumes refs: "env_ref X = ee_token_id" "env_state_ref X = ee_box_id"
    and fresh: "abs_of X db = \<lparr> ar_states = Map.empty, ar_links = Map.empty, ar_predicted = Map.empty, ar_confirmed = Map.empty, ar_unconfirmed = Map.empty \<rparr>"
      "repo_wf X db"
    and ids: "length box_ids = n" "length token_ids = n" "distinct box_ids" "distinct token_ids"
begin

abbreviation "R \<equiv> entity_repo_tracing (entity_repo_rocksdb X)"

lemmas repo_ops = entity_repo_tracing_def entity_repo_rocksdb_def

lemma entities: "i < n \<Longrightarrow> test_entity token_ids box_ids i = Some \<lparr> ee_token_id = token_ids ! i, ee_box_id = box_ids ! i \<rparr>"
  "i < n \<Longrightarrow> traced_entity token_ids box_ids i = Some \<lparr> tr_state = Predicted \<lparr> ee_token_id = token_ids ! i, ee_box_id = box_ids ! i \<rparr>,
     tr_prev_state_id = Some (box_ids ! (i - Suc 0)) \<rparr>"
  using ids by (simp_all add: test_entity_def traced_entity_def nth_opt_def)

lemma boxes_eq: "i < n \<Longrightarrow> j < n \<Longrightarrow> box_ids ! i = box_ids ! j \<longleftrightarrow> i = j" "i < n \<Longrightarrow> j < n \<Longrightarrow> token_ids ! i = token_ids ! j \<longleftrightarrow> i = j"
  using ids by (simp_all add: nth_eq_iff_index_eq)

lemma predicted_loop:
  assumes "1 \<le> n"
  shows "\<exists>c. for_each [1..<n] (\<lambda>i client. do { entity \<leftarrow> traced_entity token_ids box_ids i; Some (put_predicted X client entity) }) db = Some c \<and>
    (\<forall>i. 1 \<le> i \<and> i < n \<longrightarrow> get_state X c (box_ids ! i) \<noteq> None \<and> get_prediction_predecessor X c (box_ids ! i) = Some (box_ids ! (i - Suc 0)))"
proof (rule for_each_invariant [where I = "\<lambda>j c. \<forall>i. 1 \<le> i \<and> i < j \<longrightarrow> get_state X c (box_ids ! i) \<noteq> None \<and> get_prediction_predecessor X c (box_ids ! i) = Some (box_ids ! (i - Suc 0))"])
  fix i c assume i: "1 \<le> i" "i < n" and I: "\<forall>k. 1 \<le> k \<and> k < i \<longrightarrow> get_state X c (box_ids ! k) \<noteq> None \<and> get_prediction_predecessor X c (box_ids ! k) = Some (box_ids ! (k - Suc 0))"
  let ?e = "\<lparr> ee_token_id = token_ids ! i, ee_box_id = box_ids ! i \<rparr>"
  let ?c = "put_predicted X c \<lparr> tr_state = Predicted ?e, tr_prev_state_id = Some (box_ids ! (i - Suc 0)) \<rparr>"
  have a: "get_state X ?c = (get_state X c)(box_ids ! i \<mapsto> ?e)"
    "get_prediction_predecessor X ?c = (get_prediction_predecessor X c)(box_ids ! i \<mapsto> box_ids ! (i - Suc 0))"
    using arg_cong [OF abs_put_predicted [of c ?e "Some (box_ids ! (i - Suc 0))"], of ar_states] arg_cong [OF abs_put_predicted [of c ?e "Some (box_ids ! (i - Suc 0))"], of ar_links]
    by (simp_all add: abs_of_def refs)
  have "\<forall>k. 1 \<le> k \<and> k < Suc i \<longrightarrow> get_state X ?c (box_ids ! k) \<noteq> None \<and> get_prediction_predecessor X ?c (box_ids ! k) = Some (box_ids ! (k - Suc 0))"
    using I i by (auto simp: a boxes_eq less_Suc_eq)
  then show "\<exists>c'. (do { entity \<leftarrow> traced_entity token_ids box_ids i; Some (put_predicted X c entity) }) = Some c' \<and>
      (\<forall>k. 1 \<le> k \<and> k < Suc i \<longrightarrow> get_state X c' (box_ids ! k) \<noteq> None \<and> get_prediction_predecessor X c' (box_ids ! k) = Some (box_ids ! (k - Suc 0)))"
    using i by (simp add: entities)
qed (use assms in simp_all)

lemma may_exist_passes: "1 \<le> n \<Longrightarrow> test_entity_repo_may_exist R db (box_ids, token_ids, n) = Some ()"
proof -
  assume n: "1 \<le> n"
  obtain c where c: "for_each [1..<n] (\<lambda>i client. do { entity \<leftarrow> traced_entity token_ids box_ids i; Some (put_predicted X client entity) }) db = Some c"
    "\<And>i. 1 \<le> i \<Longrightarrow> i < n \<Longrightarrow> get_state X c (box_ids ! i) \<noteq> None" using predicted_loop [OF n] by blast
  have "may_exist X c b" if "get_state X c b \<noteq> None" for b
    using that rocksdb_laws.may_exist [OF db_laws] by (auto simp: get_state_def may_exist_def split: bind_split_asm)
  then show ?thesis using c ids by (auto simp: test_entity_repo_may_exist_def repo_ops nth_opt_in intro!: check_each_passes)
qed

lemma predicted_passes: "1 \<le> n \<Longrightarrow> test_entity_repo_predicted R db (box_ids, token_ids, n) = Some ()"
proof -
  assume n: "1 \<le> n"
  obtain c where c: "for_each [1..<n] (\<lambda>i client. do { entity \<leftarrow> traced_entity token_ids box_ids i; Some (put_predicted X client entity) }) db = Some c"
    "\<And>i. 1 \<le> i \<Longrightarrow> i < n \<Longrightarrow> get_prediction_predecessor X c (box_ids ! i) = Some (box_ids ! (i - Suc 0))" using predicted_loop [OF n] by blast
  then show ?thesis using ids by (auto simp: test_entity_repo_predicted_def repo_ops nth_opt_in intro!: check_each_passes)
qed


lemma confirmed_passes: "test_entity_repo_confirmed R db (box_ids, token_ids, n) = Some ()"
proof -
  let ?e = "\<lambda>i. \<lparr> ee_token_id = token_ids ! i, ee_box_id = box_ids ! i \<rparr>"
  let ?I = "\<lambda>j (c, es). es = map ?e [0..<j] \<and> (\<forall>i < j. ar_states (abs_of X c) (box_ids ! i) = Some (?e i) \<and> ar_confirmed (abs_of X c) (token_ids ! i) = Some (box_ids ! i))"
  let ?f = "\<lambda>i (client, entities). do { e \<leftarrow> test_entity token_ids box_ids i; Some (put_confirmed X client (Confirmed e), entities @ [e]) }"
  have "\<exists>s. for_each [0..<n] ?f (db, []) = Some s \<and> ?I n s"
  proof (rule for_each_invariant)
    fix i s assume "0 \<le> i" and i: "i < n" and I: "?I i s"
    then show "\<exists>s'. ?f i s = Some s' \<and> ?I (Suc i) s'" by (auto simp: entities abs_put_confirmed refs boxes_eq less_Suc_eq split: prod.split_asm)
  qed simp_all
  then obtain c where c: "for_each [0..<n] ?f (db, []) = Some (c, map ?e [0..<n])"
    "\<And>i. i < n \<Longrightarrow> ar_states (abs_of X c) (box_ids ! i) = Some (?e i)" "\<And>i. i < n \<Longrightarrow> ar_confirmed (abs_of X c) (token_ids ! i) = Some (box_ids ! i)" by auto
  then show ?thesis using ids
    by (auto simp: test_entity_repo_confirmed_def repo_ops nth_opt_in get_last_confirmed_abs intro!: check_each_passes)
qed

lemma unconfirmed_passes: "test_entity_repo_unconfirmed R db (box_ids, token_ids, n) = Some ()"
proof -
  let ?e = "\<lambda>i. \<lparr> ee_token_id = token_ids ! i, ee_box_id = box_ids ! i \<rparr>"
  let ?I = "\<lambda>j (c, es). es = map ?e [0..<j] \<and> (\<forall>i < j. ar_states (abs_of X c) (box_ids ! i) = Some (?e i) \<and> ar_unconfirmed (abs_of X c) (token_ids ! i) = Some (box_ids ! i))"
  let ?f = "\<lambda>i (client, entities). do { e \<leftarrow> test_entity token_ids box_ids i; Some (put_unconfirmed X client (Unconfirmed e), entities @ [e]) }"
  have "\<exists>s. for_each [0..<n] ?f (db, []) = Some s \<and> ?I n s"
  proof (rule for_each_invariant)
    fix i s assume "0 \<le> i" and i: "i < n" and I: "?I i s"
    then show "\<exists>s'. ?f i s = Some s' \<and> ?I (Suc i) s'" by (auto simp: entities abs_put_unconfirmed refs boxes_eq less_Suc_eq split: prod.split_asm)
  qed simp_all
  then obtain c where c: "for_each [0..<n] ?f (db, []) = Some (c, map ?e [0..<n])"
    "\<And>i. i < n \<Longrightarrow> ar_states (abs_of X c) (box_ids ! i) = Some (?e i)" "\<And>i. i < n \<Longrightarrow> ar_unconfirmed (abs_of X c) (token_ids ! i) = Some (box_ids ! i)" by auto
  then show ?thesis using ids
    by (auto simp: test_entity_repo_unconfirmed_def repo_ops nth_opt_in get_last_unconfirmed_abs intro!: check_each_passes)
qed

text \<open>
  Every entity of the test has a token of its own, so the state the invalidated one is rolled back to is that of the
  entity before it: it is there from the second round on.
\<close>

definition "round_inv j c \<longleftrightarrow> repo_wf X c \<and> (\<forall>i < n. ar_states (abs_of X c) (box_ids ! i) = (if 1 \<le> i \<and> i < j then Some \<lparr> ee_token_id = token_ids ! i, ee_box_id = box_ids ! i \<rparr> else None)) \<and>
  (\<forall>i < n. j \<le> i \<longrightarrow> ar_confirmed (abs_of X c) (token_ids ! i) = None)"

lemma invalidate_passes: "1 \<le> n \<Longrightarrow> test_entity_repo_invalidate R db (box_ids, token_ids, n) = Some ()"
proof -
  assume n: "1 \<le> n"
  let ?f = "\<lambda>i client. do {
       ee \<leftarrow> test_entity token_ids box_ids i;
       entity \<leftarrow> traced_entity token_ids box_ids i;
       let client = put_predicted X client entity;
       let client = put_unconfirmed X client (Unconfirmed ee);
       let client = put_confirmed X client (Confirmed ee);
       let client = invalidate X client (ee_box_id ee) (ee_token_id ee);
       assert_that (get_last_predicted X client (ee_token_id ee) = None);
       assert_that (get_last_unconfirmed X client (ee_token_id ee) = None);
       (if i = 1 then assert_that (get_last_confirmed X client (ee_token_id ee) = None)
        else assert_that (get_last_confirmed X client (ee_token_id ee) \<noteq> None));
       Some client }"
  have "\<exists>c. for_each [1..<n] ?f db = Some c \<and> round_inv n c"
  proof (rule for_each_invariant [where I = round_inv])
    fix i c assume i: "1 \<le> i" "i < n" and I: "round_inv i c"
    let ?e = "\<lparr> ee_token_id = token_ids ! i, ee_box_id = box_ids ! i \<rparr>" and ?prev = "box_ids ! (i - Suc 0)"
    let ?c = "invalidate X (put_confirmed X (put_unconfirmed X (put_predicted X c \<lparr> tr_state = Predicted ?e, tr_prev_state_id = Some ?prev \<rparr>) (Unconfirmed ?e)) (Confirmed ?e)) (box_ids ! i) (token_ids ! i)"
    have wf: "repo_wf X ?c" using I by (simp add: round_inv_def repo_wf_ops)
    have st: "ar_states (abs_of X ?c) = (ar_states (abs_of X c))(box_ids ! i \<mapsto> ?e)" "ar_links (abs_of X ?c) (box_ids ! i) = None"
      "ar_predicted (abs_of X ?c) (token_ids ! i) = Some (box_ids ! i)" "ar_unconfirmed (abs_of X ?c) (token_ids ! i) = None"
      "ar_confirmed (abs_of X ?c) = (ar_confirmed (abs_of X c))(token_ids ! i \<mapsto> ?prev)"
      by (simp_all add: abs_invalidate abs_put_confirmed abs_put_unconfirmed abs_put_predicted refs)
    have "get_last_predicted X ?c (token_ids ! i) = None" using st by (simp add: get_last_predicted_abs [OF wf] abs_prediction_def)
    moreover have "get_last_unconfirmed X ?c (token_ids ! i) = None" using st by (simp add: get_last_unconfirmed_abs)
    moreover have "get_last_confirmed X ?c (token_ids ! i) = None \<longleftrightarrow> i = 1"
      using st i I by (cases "i = 1") (auto simp: get_last_confirmed_abs round_inv_def boxes_eq)
    moreover have "round_inv (Suc i) ?c" using I i wf by (auto simp: round_inv_def st boxes_eq less_Suc_eq)
    ultimately show "\<exists>c'. ?f i c = Some c' \<and> round_inv (Suc i) c'" using i by (auto simp: entities Let_def assert_that_def)
  qed (use n fresh in \<open>simp_all add: round_inv_def\<close>)
  then obtain c where c: "for_each [1..<n] ?f db = Some c" by blast
  show ?thesis unfolding test_entity_repo_invalidate_def repo_ops entity_repo_ops.simps prod.case c by simp
qed

lemma eliminate_passes: "1 \<le> n \<Longrightarrow> test_entity_repo_eliminate R db (box_ids, token_ids, n) = Some ()"
proof -
  assume n: "1 \<le> n"
  let ?f = "\<lambda>i client. do {
       ee \<leftarrow> test_entity token_ids box_ids i;
       entity \<leftarrow> traced_entity token_ids box_ids i;
       let client = put_predicted X client entity;
       let client = put_unconfirmed X client (Unconfirmed ee);
       let client = eliminate X client ee;
       assert_that (get_last_predicted X client (ee_token_id ee) = None);
       assert_that (get_last_unconfirmed X client (ee_token_id ee) = None);
       Some client }"
  have "\<exists>c. for_each [1..<n] ?f db = Some c \<and> repo_wf X c"
  proof (rule for_each_invariant)
    show "repo_wf X db" using fresh by simp
  next
    fix i c assume i: "1 \<le> i" "i < n" and wf: "repo_wf X c"
    let ?e = "\<lparr> ee_token_id = token_ids ! i, ee_box_id = box_ids ! i \<rparr>"
    let ?c = "eliminate X (put_unconfirmed X (put_predicted X c \<lparr> tr_state = Predicted ?e, tr_prev_state_id = Some (box_ids ! (i - Suc 0)) \<rparr>) (Unconfirmed ?e)) ?e"
    have wf': "repo_wf X ?c" using wf by (simp add: repo_wf_ops)
    have "get_last_predicted X ?c (token_ids ! i) = None" "get_last_unconfirmed X ?c (token_ids ! i) = None"
      by (simp_all add: get_last_predicted_abs [OF wf'] get_last_unconfirmed_abs abs_prediction_def abs_eliminate refs)
    then show "\<exists>c'. ?f i c = Some c' \<and> repo_wf X c'" using i wf' by (simp add: entities Let_def assert_that_def)
  qed (use n in simp)
  then show ?thesis by (auto simp: test_entity_repo_eliminate_def repo_ops Let_def)
qed

lemma trivial_passes: "test_resolve_state_trivial X db t b = Some ()"
proof -
  let ?e = "\<lparr> ee_token_id = t, ee_box_id = b \<rparr>" and ?c = "put_confirmed X db (Confirmed \<lparr> ee_token_id = t, ee_box_id = b \<rparr>)"
  have "abs_prediction (abs_of X ?c) t = None" "abs_anchor (abs_of X ?c) t = Some ?e" using fresh(1)
    by (simp_all add: abs_put_confirmed refs abs_prediction_def abs_anchor_def)
  then have "resolve_entity_state X ?c t = Some (Some ?e)" using resolve_no_prediction [OF repo_wf_put_confirmed [OF fresh(2)], of ?e t] by simp
  then show ?thesis by (simp add: test_resolve_state_trivial_def Let_def)
qed

end

section \<open>Instance\<close>

definition ergo_entity_sd :: "ergo_entity sd_codec" where
  "ergo_entity_sd = iso_sd (\<lambda>e. (ee_token_id e, ee_box_id e)) (\<lambda>(t, b). \<lparr> ee_token_id = t, ee_box_id = b \<rparr>) (pair_sd (word_sd 32) (word_sd 32))"

interpretation ergo_entity_bytes: self_delimiting ergo_entity_sd
  unfolding ergo_entity_sd_def by (rule iso_sd_laws) (simp_all add: sd_laws word_sd_laws)

definition entity_test_env :: "(ergo_entity, token_id, box_id, mem_db) entity_env" where
  "entity_test_env = \<lparr> env_db = mem_rocksdb, env_str = bincode_str, env_eid = digest_codec, env_sid = digest_codec,
     env_entity = codec_of ergo_entity_sd, env_ref = ee_token_id, env_state_ref = ee_box_id \<rparr>"

lemma entity_test_instance: "length bs = n \<Longrightarrow> length ts = n \<Longrightarrow> distinct bs \<Longrightarrow> distinct ts \<Longrightarrow> entity_tests entity_test_env RBT.empty bs ts n"
proof (intro entity_tests.intro entity_repo.intro entity_tests_axioms.intro)
  show "abs_of entity_test_env RBT.empty = \<lparr> ar_states = Map.empty, ar_links = Map.empty, ar_predicted = Map.empty, ar_confirmed = Map.empty, ar_unconfirmed = Map.empty \<rparr>"
    "repo_wf entity_test_env RBT.empty"
    by (simp_all add: repo_wf_def abs_of_def get_state_def get_prediction_predecessor_def entity_test_env_def mem_rocksdb_def fun_eq_iff)
qed (simp_all add: entity_test_env_def mem.rocksdb_laws_axioms bin.bincode_strings_axioms digest.codec_laws_axioms ergo_entity_bytes.codec_of_laws)

interpretation entity_suite: entity_tests entity_test_env RBT.empty "[1, 2, 3]" "[4, 5, 6]" 3
  by (rule entity_test_instance) simp_all

section \<open>Result\<close>

text \<open>The tests of the entity repository pass over every store that keeps the documented laws, for every choice of the random
  boxes and tokens in which no identifier occurs twice, with the tracing wrapper around the repository.\<close>

theorem entity_repo_tests_pass:
  assumes "entity_repo X" "env_ref X = ee_token_id" "env_state_ref X = ee_box_id"
    and "abs_of X db = \<lparr> ar_states = Map.empty, ar_links = Map.empty, ar_predicted = Map.empty, ar_confirmed = Map.empty, ar_unconfirmed = Map.empty \<rparr>" "repo_wf X db"
    and "length box_ids = 30" "length token_ids = 30" "distinct box_ids" "distinct token_ids"
    and "R = entity_repo_tracing (entity_repo_rocksdb X)" "ids = gen_box_and_token_ids box_ids token_ids"
  shows "test_entity_repo_may_exist R db ids = Some () \<and> test_entity_repo_predicted R db ids = Some () \<and> test_entity_repo_confirmed R db ids = Some () \<and>
    test_entity_repo_unconfirmed R db ids = Some () \<and> test_entity_repo_invalidate R db ids = Some () \<and> test_entity_repo_eliminate R db ids = Some () \<and>
    test_resolve_state_trivial X db t b = Some ()"
proof -
  have T: "entity_tests X db box_ids token_ids 30"
    using assms by (intro entity_tests.intro entity_tests_axioms.intro) simp_all
  note passes = entity_tests.may_exist_passes [OF T] entity_tests.predicted_passes [OF T] entity_tests.confirmed_passes [OF T] entity_tests.unconfirmed_passes [OF T]
    entity_tests.invalidate_passes [OF T] entity_tests.eliminate_passes [OF T] entity_tests.trivial_passes [OF T]
  show ?thesis unfolding assms(10,11) gen_box_and_token_ids_def using passes by simp
qed

theorem entity_repo_tests_pass_witness:
  "\<exists>box_ids token_ids. length box_ids = 30 \<and> test_entity_repo_invalidate (entity_repo_tracing (entity_repo_rocksdb entity_test_env)) RBT.empty
     (gen_box_and_token_ids box_ids token_ids) = Some ()"
proof -
  let ?ids = "map word_of_nat [0..<30] :: digest32 list"
  have d: "distinct ?ids" by (simp add: distinct_map inj_on_def word_of_nat_eq_iff take_bit_nat_eq_self)
  have T: "entity_tests entity_test_env RBT.empty ?ids ?ids 30" by (rule entity_test_instance) (use d in simp_all)
  note L = T [unfolded entity_tests_def entity_tests_axioms_def]
  have "test_entity_repo_invalidate (entity_repo_tracing (entity_repo_rocksdb entity_test_env)) RBT.empty (gen_box_and_token_ids ?ids ?ids) = Some ()"
    using entity_repo_tests_pass [of entity_test_env RBT.empty ?ids ?ids, OF _ _ _ _ _ _ _ _ _ refl refl] L by blast
  then show ?thesis by (intro exI [of _ ?ids]) simp
qed

end
