(* ===== verification/Test_Pool.thy ===== *)
theory Test_Pool
  imports Pool Test_Support
begin

text \<open>
  The tests of the pool (\<open>spectrum-offchain-lm/src/data/pool.rs\<close>), run on its model: a deposit before the program, a deposit and
  its redeem, the compounding of two deposits, and reading a pool from a box.  A test is a function of the digests it draws
  at random (\<open>rnd 0\<close>, \<open>rnd 1\<close>, \<dots>, in the order in which they are drawn), of \<open>trivial_prop\<close> and of the crate \<open>ergo-lib\<close>.

  Results: the tests pass for every choice of the digests; the rewards of the compounding test together exceed the allocation of
  the epoch, which the test does not compare.
\<close>

section \<open>The tests\<close>

definition make_pool :: "(nat \<Rightarrow> digest32) \<Rightarrow> u32 \<Rightarrow> u32 \<Rightarrow> u32 \<Rightarrow> u64 \<Rightarrow> pool" where
  "make_pool rnd len num start budget =
     \<lparr> pl_pool_id = rnd 0, budget_rem = typed_amount (rnd 1) budget, reserves_lq = typed_amount (rnd 2) 1,
       reserves_vlq = typed_amount (rnd 3) MAX_VALUE, reserves_tmp = typed_amount (rnd 4) MAX_VALUE, pl_epoch_ix = None,
       conf = \<lparr> epoch_len = len, epoch_num = num, program_start = start, redeem_blocks_delta = 0,
                max_rounding_error = 1, program_budget = typed_amount (rnd 5) budget \<rparr>,
       pl_erg_value = 100000000000 \<rparr>"

definition trivial_sigma_prop :: "ergo_lib \<Rightarrow> sigma_prop panics" where
  "trivial_sigma_prop E = do {
     bs \<leftarrow> base16_decode E ''0008cd03171b64b4b185c2581d421ae0ec1f4ef2a60cf849b0f51de99f97e4c89f2500e3'';
     tree \<leftarrow> parse_tree E bs;
     prove_dlog E tree }"

definition make_staking_bundle_prop_hash :: "ergo_lib \<Rightarrow> digest32" where
  "make_staking_bundle_prop_hash E = blake2b256 E (BUNDLE_VALIDATOR E)"

text \<open>\<open>Result::unwrap\<close>\<close>

definition unwrap_result :: "('e + 'a) panics \<Rightarrow> 'a panics" where
  "unwrap_result r = Option.bind r (\<lambda>x. case x of Inl _ \<Rightarrow> None | Inr a \<Rightarrow> Some a)"

definition early_deposit :: "ergo_lib \<Rightarrow> ergo_tree \<Rightarrow> (nat \<Rightarrow> digest32) \<Rightarrow> unit panics" where
  "early_deposit E trivial_prop rnd = do {
     let pool = make_pool rnd 10 10 10 1000000000;
     let deposit_lq = typed_amount (asset_id (reserves_lq pool)) 1000;
     redeemer_prop \<leftarrow> trivial_sigma_prop E;
     let deposit = \<lparr> dep_order_id = rnd 6, dep_pool_id = pl_pool_id pool, dep_redeemer_prop = redeemer_prop,
       dep_bundle_prop_hash = make_staking_bundle_prop_hash E, dep_max_miner_fee = 10000000, dep_lq = deposit_lq,
       dep_erg_value = 100000000000, dep_expected_num_epochs = 10 \<rparr>;
     let ctx = \<lparr> ctx_height = 9, ctx_mintable_token_id = rnd 7, ctx_executor_prop = trivial_prop \<rparr>;
     let token_details = \<lparr> td_name = '''', td_description = '''' \<rparr>;
     (pool2, bundle, output, rew, miner) \<leftarrow> unwrap_result (apply_deposit pool deposit token_details ctx);
     assert_that (amount (sbp_vlq bundle) = amount (dep_lq deposit));
     tmp \<leftarrow> sbp_tmp bundle;
     assert_that (amount tmp = ucast (epoch_num (conf pool)) * amount deposit_lq);
     assert_that (asset_sub (reserves_lq pool2) (reserves_lq pool) = dep_lq deposit);
     assert_that (reserves_vlq pool2 = asset_sub (reserves_vlq pool) (sbp_vlq bundle));
     assert_that (reserves_tmp pool2 = asset_sub (reserves_tmp pool) tmp) }"

definition deposit_redeem :: "ergo_lib \<Rightarrow> ergo_tree \<Rightarrow> (nat \<Rightarrow> digest32) \<Rightarrow> unit panics" where
  "deposit_redeem E trivial_prop rnd = do {
     let pool = make_pool rnd 10 10 10 1000000000;
     redeemer_prop \<leftarrow> trivial_sigma_prop E;
     let deposit = \<lparr> dep_order_id = rnd 6, dep_pool_id = pl_pool_id pool, dep_redeemer_prop = redeemer_prop,
       dep_bundle_prop_hash = make_staking_bundle_prop_hash E, dep_max_miner_fee = 10000000,
       dep_lq = typed_amount (asset_id (reserves_lq pool)) 1000, dep_erg_value = 100000000000, dep_expected_num_epochs = 9 \<rparr>;
     let ctx = \<lparr> ctx_height = 10, ctx_mintable_token_id = rnd 7, ctx_executor_prop = trivial_prop \<rparr>;
     let token_details = \<lparr> td_name = '''', td_description = '''' \<rparr>;
     (pool2, bundle, output, rew, miner) \<leftarrow> unwrap_result (apply_deposit pool deposit token_details ctx);
     let redeem = \<lparr> red_order_id = rnd 8, red_pool_id = pl_pool_id pool2, red_redeemer_prop = trivial_prop,
       red_bundle_key = do_bundle_key output, red_expected_lq = dep_lq deposit, red_max_miner_fee = 10000000,
       red_erg_value = 100000000000 \<rparr>;
     (pool3, output, rew, miner) \<leftarrow> unwrap_result (apply_redeem pool2 redeem (bundle_from_proto bundle (rnd 9)) ctx);
     assert_that (reserves_lq pool = reserves_lq pool3);
     assert_that (reserves_vlq pool = reserves_vlq pool3);
     assert_that (reserves_tmp pool = reserves_tmp pool3);
     assert_that (rdo_lq output = dep_lq deposit) }"

text \<open>The compounding test runs two deposits; \<open>compounding_setup\<close> is the part before the assertions.\<close>

definition compounding_setup :: "ergo_lib \<Rightarrow> ergo_tree \<Rightarrow> (nat \<Rightarrow> digest32) \<Rightarrow>
    (pool \<times> staking_bundle_proto \<times> staking_bundle_proto \<times> staking_bundle list \<times> reward_output list) panics" where
  "compounding_setup E trivial_prop rnd = do {
     let pool = make_pool rnd 10 10 10 1000000000;
     prop_a \<leftarrow> trivial_sigma_prop E;
     let deposit_amt_a = typed_amount (asset_id (reserves_lq pool)) 1000;
     let deposit_a = \<lparr> dep_order_id = rnd 6, dep_pool_id = pl_pool_id pool, dep_redeemer_prop = prop_a,
       dep_bundle_prop_hash = make_staking_bundle_prop_hash E, dep_max_miner_fee = 10000000,
       dep_lq = deposit_amt_a, dep_erg_value = 100000000000, dep_expected_num_epochs = 10 \<rparr>;
     let deposit_disproportion = 2;
     let deposit_amt_b = typed_amount (asset_id (reserves_lq pool)) (amount deposit_amt_a * deposit_disproportion);
     prop_b \<leftarrow> trivial_sigma_prop E;
     let deposit_b = \<lparr> dep_order_id = rnd 7, dep_pool_id = pl_pool_id pool, dep_redeemer_prop = prop_b,
       dep_bundle_prop_hash = make_staking_bundle_prop_hash E, dep_max_miner_fee = 10000000,
       dep_lq = deposit_amt_b, dep_erg_value = 100000000000, dep_expected_num_epochs = 10 \<rparr>;
     let ctx_1 = \<lparr> ctx_height = 9, ctx_mintable_token_id = rnd 8, ctx_executor_prop = trivial_prop \<rparr>;
     let token_details = \<lparr> td_name = '''', td_description = '''' \<rparr>;
     (pool_2, bundle_a, output_a, rew, miner) \<leftarrow> unwrap_result (apply_deposit pool deposit_a token_details ctx_1);
     (pool_3, bundle_b, output_b, rew, miner) \<leftarrow> unwrap_result (apply_deposit pool_2 deposit_b token_details ctx_1);
     let funding = \<lparr> df_id = rnd 9, df_prop = trivial_prop, df_erg_value = 2000000000 \<rparr>;
     (pool_4, bundles, next_funding, rewards, miner) \<leftarrow> unwrap_result
       (distribute_rewards pool_3 [bundle_from_proto bundle_a (rnd 10), bundle_from_proto bundle_b (rnd 11)] funding []);
     Some (pool_4, bundle_a, bundle_b, bundles, rewards) }"

definition abs_diff :: "u64 \<Rightarrow> u64 \<Rightarrow> u64" where
  "abs_diff a b = (if a < b then b - a else a - b)"

definition test_distribute_rewards :: "ergo_lib \<Rightarrow> ergo_tree \<Rightarrow> (nat \<Rightarrow> digest32) \<Rightarrow> unit panics" where
  "test_distribute_rewards E trivial_prop rnd = do {
     (pool_4, bundle_a, bundle_b, bundles, rewards) \<leftarrow> compounding_setup E trivial_prop rnd;
     out_0 \<leftarrow> nth_opt rewards 0;
     out_1 \<leftarrow> nth_opt rewards 1;
     reward_0 \<leftarrow> ro_reward out_0;
     reward_1 \<leftarrow> ro_reward out_1;
     alloc \<leftarrow> epoch_alloc pool_4;
     assert_that (amount reward_0 \<le> alloc);
     assert_that (amount reward_1 \<le> alloc);
     assert_that (abs_diff (amount reward_1) (amount reward_0 * 2) \<le> 1);
     next_0 \<leftarrow> nth_opt bundles 0;
     next_1 \<leftarrow> nth_opt bundles 1;
     tmp_0 \<leftarrow> sb_tmp next_0;
     tmp_1 \<leftarrow> sb_tmp next_1;
     tmp_a \<leftarrow> sbp_tmp bundle_a;
     tmp_b \<leftarrow> sbp_tmp bundle_b;
     assert_that (tmp_0 = asset_sub tmp_a (coerce_amount (sbp_vlq bundle_a)));
     assert_that (tmp_1 = asset_sub tmp_b (coerce_amount (sbp_vlq bundle_b))) }"

section \<open>Boxes of the tests\<close>

text \<open>
  The boxes that the tests read from JSON, as \<open>serde_json\<close> and \<open>ergo-lib\<close> deliver them: the registers are the constants that the
  hexadecimal strings denote, and the \<open>ergoTree\<close> strings are those of \<open>POOL_VALIDATOR_BYTES\<close> and \<open>BUNDLE_VALIDATOR_BYTES\<close>.
\<close>

definition POOL_JSON :: "ergo_lib \<Rightarrow> ergo_box" where
  "POOL_JSON E = \<lparr> bx_value = 1250000, bx_tree = static_tree E POOL_VALIDATOR_BYTES,
     bx_tokens = Some
       [\<lparr> tok_id = 0x48ad28d9bb55e1da36d27c655a84279ff25d889063255d3f774ff926a3704370, tok_amount = 1 \<rparr>,
        \<lparr> tok_id = 0x0779ec04f2fae64e87418a1ad917639d4668f78484f45df962b0dec14a2591d2, tok_amount = 300000 \<rparr>,
        \<lparr> tok_id = 0x98da76cecb772029cfec3d53727d5ff37d5875691825fbba743464af0c89ce45, tok_amount = 1 \<rparr>,
        \<lparr> tok_id = 0x3fdce3da8d364f13bca60998c20660c79c19923f44e141df01349d2e63651e86, tok_amount = 100000000 \<rparr>,
        \<lparr> tok_id = 0xc256908dd9fd477bde350be6a41c0884713a1b1d589357ae731763455ef28c10, tok_amount = 1500000000 \<rparr>],
     bx_regs = [ConstInts [200, 15, 921685, 100], ConstLong 299999, ConstLong 1000], bx_height = 921585,
     box_id = 0x6eeb78dacf40d75ea9421206ab6ff71df9e67b80212d47766ea3c648957d7802 \<rparr>"

definition FRESH_POOL_JSON :: "ergo_lib \<Rightarrow> ergo_box" where
  "FRESH_POOL_JSON E = \<lparr> bx_value = 1250000, bx_tree = static_tree E POOL_VALIDATOR_BYTES,
     bx_tokens = Some
       [\<lparr> tok_id = 0x7956620de75192984d639cab2c989269d9a5310ad870ad547426952a9e660699, tok_amount = 1 \<rparr>,
        \<lparr> tok_id = 0x0779ec04f2fae64e87418a1ad917639d4668f78484f45df962b0dec14a2591d2, tok_amount = 299993 \<rparr>,
        \<lparr> tok_id = 0x98da76cecb772029cfec3d53727d5ff37d5875691825fbba743464af0c89ce45, tok_amount = 283146 \<rparr>,
        \<lparr> tok_id = 0x3fdce3da8d364f13bca60998c20660c79c19923f44e141df01349d2e63651e86, tok_amount = 99716855 \<rparr>,
        \<lparr> tok_id = 0xc256908dd9fd477bde350be6a41c0884713a1b1d589357ae731763455ef28c10, tok_amount = 1496035970 \<rparr>],
     bx_regs = [ConstInts [200, 15, 922295, 100], ConstLong 299999, ConstLong 1000, ConstInt 1], bx_height = 923467,
     box_id = 0x93e9d7b0fc0af70f433cd071961b41579a39285e14a86d460a04e02dee5ae20a \<rparr>"

definition MATURE_POOL_JSON :: "ergo_lib \<Rightarrow> ergo_box" where
  "MATURE_POOL_JSON E = \<lparr> bx_value = 1250000, bx_tree = static_tree E POOL_VALIDATOR_BYTES,
     bx_tokens = Some
       [\<lparr> tok_id = 0x48e744055c9e49b26d1c70eca3c848afc8f50eddf8962a33f3d4b5df3d771ac2, tok_amount = 1 \<rparr>,
        \<lparr> tok_id = 0x00bd762484086cf560d3127eb53f0769d76244d9737636b2699d55c56cd470bf, tok_amount = 1000003 \<rparr>,
        \<lparr> tok_id = 0xe7021bda9872a7eb2aa69dd704e6a997dae9d1b40d1ff7a50e426ef78c6f6f87, tok_amount = 30001 \<rparr>,
        \<lparr> tok_id = 0x81f307da6c294bb9ee1c8789dfeff5b97c2399451e099ab6c9985a55551e41dd, tok_amount = 9223372036854745807 \<rparr>,
        \<lparr> tok_id = 0xb19b810cc4dbc4bfaca74f88bb3797dcd8bab766ab360c275f3bc5b0476a50a9, tok_amount = 9223372036854745807 \<rparr>],
     bx_regs = [ConstInts [250, 5, 935443, 100], ConstLong 4999999, ConstLong 1000, ConstInt 4], bx_height = 936662,
     box_id = 0xe3a3e78b8f820b10f48d2b1728ea6ee454c4a2bbc2664cb405cdeeb01b40cda7 \<rparr>"

text \<open>The proposition in \<open>R6\<close> of the bundle's box is an argument.\<close>

definition BUNDLE_JSON :: "ergo_lib \<Rightarrow> sigma_prop \<Rightarrow> ergo_box" where
  "BUNDLE_JSON E redeemer = \<lparr> bx_value = 1250000, bx_tree = static_tree E BUNDLE_VALIDATOR_BYTES,
     bx_tokens = Some
       [\<lparr> tok_id = 0x3fdce3da8d364f13bca60998c20660c79c19923f44e141df01349d2e63651e86, tok_amount = 100 \<rparr>,
        \<lparr> tok_id = 0xc256908dd9fd477bde350be6a41c0884713a1b1d589357ae731763455ef28c10, tok_amount = 1400 \<rparr>,
        \<lparr> tok_id = 0x251177a50ed3d4df8fc8575b3d9e03a0ba81f506a329a3ba7d8bb20994303794, tok_amount = 1 \<rparr>],
     bx_regs = [ConstBytes [], ConstBytes [], ConstProp redeemer,
       ConstBytes (digest_bytes 0x7956620de75192984d639cab2c989269d9a5310ad870ad547426952a9e660699)], bx_height = 923467,
     box_id = 0xba0523ee39c880276a513cb912c0cd70018ae560dc307e3538159c1024a9027b \<rparr>"

definition parse_pool :: "ergo_lib \<Rightarrow> unit panics" where
  "parse_pool E = (let res = pool_try_from_box E (POOL_JSON E) in assert_that (res \<noteq> None))"

definition bundle_compatible_with_pool :: "ergo_lib \<Rightarrow> sigma_prop \<Rightarrow> unit panics" where
  "bundle_compatible_with_pool E redeemer = do {
     pool \<leftarrow> pool_try_from_box E (FRESH_POOL_JSON E);
     bundle \<leftarrow> bundle_try_from_box E (BUNDLE_JSON E redeemer);
     indexed_bundle \<leftarrow> indexed_bundle_new bundle (conf pool);
     epochs_left \<leftarrow> epochs_left_to_process pool;
     Some () }"

section \<open>They pass\<close>

definition test_pool :: "(nat \<Rightarrow> digest32) \<Rightarrow> u64 \<Rightarrow> u64 \<Rightarrow> pool" where
  "test_pool rnd l t = make_pool rnd 10 10 10 1000000000 \<lparr> reserves_lq := typed_amount (rnd 2) l, reserves_vlq := typed_amount (rnd 3) (MAX_VALUE - (l - 1)),
     reserves_tmp := typed_amount (rnd 4) (MAX_VALUE - t) \<rparr>"

lemma make_pool_test: "make_pool rnd 10 10 10 1000000000 = test_pool rnd 1 0"
  by (simp add: test_pool_def make_pool_def)

lemma test_pool_fields [simp]:
  "epoch_num (conf (test_pool rnd l t)) = 10" "epoch_len (conf (test_pool rnd l t)) = 10" "program_start (conf (test_pool rnd l t)) = 10"
  "max_rounding_error (conf (test_pool rnd l t)) = 1" "amount (program_budget (conf (test_pool rnd l t))) = 1000000000"
  "budget_rem (test_pool rnd l t) = typed_amount (rnd 1) 1000000000" "reserves_lq (test_pool rnd l t) = typed_amount (rnd 2) l"
  "reserves_vlq (test_pool rnd l t) = typed_amount (rnd 3) (MAX_VALUE - (l - 1))" "reserves_tmp (test_pool rnd l t) = typed_amount (rnd 4) (MAX_VALUE - t)"
  "pl_pool_id (test_pool rnd l t) = rnd 0"
  by (simp_all add: test_pool_def make_pool_def)

lemma test_pool_alloc [simp]: "epoch_alloc (test_pool rnd l t) = Some 100000000"
  by (simp add: epoch_alloc_def checked_div_def)

lemma test_pool_completed [simp]: "epoch_completed (test_pool rnd l t) = Some True"
  by (subst epoch_completed_exact_aux [of _ 100000000]) (simp_all add: f64_safe_def)

lemma test_pool_remain [simp]: "num_epochs_remain (test_pool rnd l t) 9 = Some 10" "num_epochs_remain (test_pool rnd l t) 10 = Some 9"
  by (simp_all add: num_epochs_remain_def current_epoch_ix_def saturating_sub_def)

lemma apply_deposit_test:
  assumes "num_epochs_remain (test_pool rnd l t) (ctx_height ctx) = Some n" "1 \<le> n" "dep_expected_num_epochs d = n"
    and "dep_erg_value d = 100000000000" "dep_lq d = typed_amount (rnd 2) a"
  shows "\<exists>u e m. apply_deposit (test_pool rnd l t) d td ctx = Some (Inr (test_pool rnd (l + a) (t + ucast n * a),
     \<lparr> sbp_bundle_key_id = \<lparr> ta_id = ctx_mintable_token_id ctx \<rparr>, sbp_pool_id = rnd 0, sbp_vlq = typed_amount (rnd 3) a,
       sbp_tmp = Some (typed_amount (rnd 4) (ucast n * a)), sbp_redeemer_prop = dep_redeemer_prop d, sbp_erg_value = MIN_SAFE_FAT_BOX_VALUE,
       sbp_token_name = td_name td, sbp_token_desc = td_description td \<rparr>, u, e, m)) \<and>
     do_bundle_key u = typed_amount (ctx_mintable_token_id ctx) BUNDLE_KEY_AMOUNT_USER"
proof -
  have "\<not> n < 1" "n \<noteq> 0" using assms(2) by auto
  then show ?thesis
    unfolding apply_deposit_def assms(1,3) bind.bind_lunit if_False
    by (simp add: assms(4,5) Let_def safe_sub_def saturating_sub_def erg_constants to_asset_def)
      (simp add: test_pool_def make_pool_def pool_sample_eq_iff asset_eq_iff algebra_simps)
qed

lemma early_deposit_passes:
  assumes "trivial_sigma_prop E = Some sp"
  shows "early_deposit E prop rnd = Some ()"
proof -
  let ?d = "\<lparr> dep_order_id = rnd 6, dep_pool_id = rnd 0, dep_redeemer_prop = sp,
       dep_bundle_prop_hash = make_staking_bundle_prop_hash E, dep_max_miner_fee = 10000000, dep_lq = typed_amount (rnd 2) 1000,
       dep_erg_value = 100000000000, dep_expected_num_epochs = 10 \<rparr>"
    and ?td = "\<lparr> td_name = '''', td_description = '''' \<rparr>" and ?ctx = "\<lparr> ctx_height = 9, ctx_mintable_token_id = rnd 7, ctx_executor_prop = prop \<rparr>"
  note run = apply_deposit_test [of rnd 1 0 ?ctx 10 ?d 1000 ?td]
  show ?thesis using run
    by (auto simp: early_deposit_def assms make_pool_test unwrap_result_def Let_def asset_eq_iff)
qed

lemma compare_test: "test_pool rnd l t = test_pool rnd l' t' \<longleftrightarrow> l = l' \<and> t = t'"
  by (auto simp: test_pool_def make_pool_def pool_sample_eq_iff asset_eq_iff)

lemma deposit_redeem_passes:
  assumes "trivial_sigma_prop E = Some sp"
  shows "deposit_redeem E prop rnd = Some ()"
proof -
  let ?d = "\<lparr> dep_order_id = rnd 6, dep_pool_id = rnd 0, dep_redeemer_prop = sp,
       dep_bundle_prop_hash = make_staking_bundle_prop_hash E, dep_max_miner_fee = 10000000, dep_lq = typed_amount (rnd 2) 1000,
       dep_erg_value = 100000000000, dep_expected_num_epochs = 9 \<rparr>"
    and ?td = "\<lparr> td_name = '''', td_description = '''' \<rparr>" and ?ctx = "\<lparr> ctx_height = 10, ctx_mintable_token_id = rnd 7, ctx_executor_prop = prop \<rparr>"
  note run = apply_deposit_test [of rnd 1 0 ?ctx 9 ?d 1000 ?td]
  show ?thesis using run
    by (auto simp: deposit_redeem_def assms make_pool_test unwrap_result_def Let_def asset_eq_iff apply_redeem_def bundle_from_proto_def
      safe_sub_def saturating_sub_def erg_constants)
qed

text \<open>The pool after both deposits has 3001 liquidity tokens and has released 30000 temporary ones.\<close>

lemma test_pool_compounding: "compounding_epoch_ix (test_pool rnd l t) = Some 1" "alloc_rem (test_pool rnd l t) 9 = Some 99999999"
  "actual_tmp (test_pool rnd 3001 30000) 9 = 2991"
  by (simp_all add: compounding_epoch_ix_def checked_div_def alloc_rem_def actual_tmp_def saturating_sub_def MAX_VALUE_def)

lemma compounding_step:
  assumes "np = test_pool rnd 3001 t \<lparr> budget_rem := typed_amount (rnd 1) b \<rparr>" "sb_vlq B = typed_amount (rnd 3) a" "sb_tmp B = Some (typed_amount (rnd 4) (10 * a))"
    and "a = 1000 \<or> a = 2000" "r = (if a = 1000 then 33433633 else 66867267)" "b \<noteq> r"
  shows "\<exists>out. distribute_step (test_pool rnd 3001 30000) 9 B np cost =
     Some (Inr (test_pool rnd 3001 (t - a) \<lparr> budget_rem := typed_amount (rnd 1) (b - r) \<rparr>, cost + MIN_SAFE_BOX_VALUE,
       B \<lparr> sb_tmp := Some (typed_amount (rnd 4) (9 * a)) \<rparr>, out)) \<and> ro_reward out = Some (typed_amount (rnd 1) r)"
proof -
  have burned: "epochs_burned 9 B = Some 1" using assms(2-4) by (auto simp: epochs_burned_def checked_div_def saturating_sub_def)
  have amt: "reward_amt (test_pool rnd 3001 30000) 9 B 1 = Some r"
    using assms(2,4,5) by (auto simp: reward_amt_def test_pool_compounding)
  have r: "0 < r" "b - r \<noteq> 0" and a: "0 < 9 * a" "10 * a - 9 * a = a" "10 * a - a = 9 * a" using assms(4-6) by auto
  show ?thesis
    unfolding distribute_step_def burned
    by (simp add: amt assms(1-3) Let_def asset_eq_iff r a assms(6), simp add: test_pool_def make_pool_def asset_eq_iff assms(6))
qed

lemma compounding_setup_result:
  assumes "trivial_sigma_prop E = Some sp"
  shows "\<exists>bundle_a bundle_b na nb out_0 out_1. compounding_setup E prop rnd = Some
      (test_pool rnd 3001 27000 \<lparr> budget_rem := typed_amount (rnd 1) 899699100, pl_epoch_ix := Some 1 \<rparr>, bundle_a, bundle_b, [na, nb], [out_0, out_1]) \<and>
    sbp_vlq bundle_a = typed_amount (rnd 3) 1000 \<and> sbp_tmp bundle_a = Some (typed_amount (rnd 4) 10000) \<and>
    sbp_vlq bundle_b = typed_amount (rnd 3) 2000 \<and> sbp_tmp bundle_b = Some (typed_amount (rnd 4) 20000) \<and>
    sb_tmp na = Some (typed_amount (rnd 4) 9000) \<and> sb_tmp nb = Some (typed_amount (rnd 4) 18000) \<and>
    ro_reward out_0 = Some (typed_amount (rnd 1) 33433633) \<and> ro_reward out_1 = Some (typed_amount (rnd 1) 66867267)"
proof -
  let ?d = "\<lambda>i a. \<lparr> dep_order_id = rnd i, dep_pool_id = rnd 0, dep_redeemer_prop = sp,
       dep_bundle_prop_hash = make_staking_bundle_prop_hash E, dep_max_miner_fee = 10000000, dep_lq = typed_amount (rnd 2) a,
       dep_erg_value = 100000000000, dep_expected_num_epochs = 10 \<rparr>"
    and ?td = "\<lparr> td_name = '''', td_description = '''' \<rparr>" and ?ctx = "\<lparr> ctx_height = 9, ctx_mintable_token_id = rnd 8, ctx_executor_prop = prop \<rparr>"
  let ?b = "\<lambda>a. \<lparr> sbp_bundle_key_id = \<lparr> ta_id = rnd 8 \<rparr>, sbp_pool_id = rnd 0, sbp_vlq = typed_amount (rnd 3) a,
       sbp_tmp = Some (typed_amount (rnd 4) (10 * a)), sbp_redeemer_prop = sp, sbp_erg_value = MIN_SAFE_FAT_BOX_VALUE,
       sbp_token_name = '''', sbp_token_desc = '''' \<rparr>"
  let ?B = "\<lambda>a i. bundle_from_proto (?b a) (rnd i)"
  obtain u1 e1 m1 where d1: "apply_deposit (test_pool rnd 1 0) (?d 6 1000) ?td ?ctx = Some (Inr (test_pool rnd 1001 10000, ?b 1000, u1, e1, m1))"
    using apply_deposit_test [of rnd 1 0 ?ctx 10 "?d 6 1000" 1000 ?td] by auto
  obtain u2 e2 m2 where d2: "apply_deposit (test_pool rnd 1001 10000) (?d 7 2000) ?td ?ctx = Some (Inr (test_pool rnd 3001 30000, ?b 2000, u2, e2, m2))"
    using apply_deposit_test [of rnd 1001 10000 ?ctx 10 "?d 7 2000" 2000 ?td] by auto
  let ?p = "test_pool rnd 3001 30000"
  have p: "?p = test_pool rnd 3001 30000 \<lparr> budget_rem := typed_amount (rnd 1) 1000000000 \<rparr>" by (simp add: test_pool_def make_pool_def)
  obtain o1 where s1: "distribute_step ?p 9 (?B 1000 10) ?p 0 = Some (Inr (test_pool rnd 3001 29000 \<lparr> budget_rem := typed_amount (rnd 1) 966566367 \<rparr>,
      MIN_SAFE_BOX_VALUE, (?B 1000 10) \<lparr> sb_tmp := Some (typed_amount (rnd 4) 9000) \<rparr>, o1))" "ro_reward o1 = Some (typed_amount (rnd 1) 33433633)"
    using compounding_step [OF p, of "?B 1000 10" 1000 33433633 0] by (auto simp: bundle_from_proto_def)
  obtain o2 where s2: "distribute_step ?p 9 (?B 2000 11) (test_pool rnd 3001 29000 \<lparr> budget_rem := typed_amount (rnd 1) 966566367 \<rparr>) MIN_SAFE_BOX_VALUE =
      Some (Inr (test_pool rnd 3001 27000 \<lparr> budget_rem := typed_amount (rnd 1) 899699100 \<rparr>,
      MIN_SAFE_BOX_VALUE + MIN_SAFE_BOX_VALUE, (?B 2000 11) \<lparr> sb_tmp := Some (typed_amount (rnd 4) 18000) \<rparr>, o2))" "ro_reward o2 = Some (typed_amount (rnd 1) 66867267)"
    using compounding_step [OF refl, of "?B 2000 11" rnd 2000 66867267 966566367 29000 MIN_SAFE_BOX_VALUE] by (auto simp: bundle_from_proto_def)
  have er: "saturating_sub (10 :: u32) 1 = 9" by (simp add: saturating_sub_def)
  obtain nf m where "distribute_rewards ?p [?B 1000 10, ?B 2000 11] \<lparr> df_id = rnd 9, df_prop = prop, df_erg_value = 2000000000 \<rparr> [] =
      Some (Inr (test_pool rnd 3001 27000 \<lparr> budget_rem := typed_amount (rnd 1) 899699100, pl_epoch_ix := Some 1 \<rparr>,
        [(?B 1000 10) \<lparr> sb_tmp := Some (typed_amount (rnd 4) 9000) \<rparr>, (?B 2000 11) \<lparr> sb_tmp := Some (typed_amount (rnd 4) 18000) \<rparr>], nf, [o1, o2], m))"
    using s1(1) s2(1) by (simp add: distribute_rewards_def test_pool_compounding er Let_def safe_sub_def saturating_sub_def erg_constants)
  then show ?thesis using d1 d2 s1(2) s2(2)
    by (simp add: compounding_setup_def assms make_pool_test unwrap_result_def Let_def)
qed

lemma distribute_rewards_passes:
  assumes "trivial_sigma_prop E = Some sp"
  shows "test_distribute_rewards E prop rnd = Some ()"
proof -
  have "epoch_alloc (test_pool rnd 3001 27000 \<lparr> budget_rem := typed_amount (rnd 1) 899699100, pl_epoch_ix := Some 1 \<rparr>) = Some 100000000"
    by (simp add: epoch_alloc_def test_pool_def make_pool_def checked_div_def)
  then show ?thesis using compounding_setup_result [OF assms, of "prop" rnd]
    by (auto simp: test_distribute_rewards_def nth_opt_def abs_diff_def coerce_amount_def asset_eq_iff asset_sub_def typed_amount_def)
qed


text \<open>What the boxes hold.\<close>

definition json_pool :: "ergo_box \<Rightarrow> u32 option \<Rightarrow> program_config \<Rightarrow> pool" where
  "json_pool bx ix c = (let t = \<lambda>i. from_token (the (bx_tokens bx) ! i) in
     \<lparr> pl_pool_id = asset_id (t 0), budget_rem = t 1, reserves_lq = t 2, reserves_vlq = t 3, reserves_tmp = t 4,
       pl_epoch_ix = ix, conf = c, pl_erg_value = bx_value bx \<rparr>)"

definition json_conf :: "u32 \<Rightarrow> u32 \<Rightarrow> u32 \<Rightarrow> token_id \<Rightarrow> u64 \<Rightarrow> program_config" where
  "json_conf len num start budget_id budget = \<lparr> epoch_len = len, epoch_num = num, program_start = start, redeem_blocks_delta = 100,
     max_rounding_error = 1000, program_budget = typed_amount budget_id budget \<rparr>"

lemma json_pools:
  "pool_try_from_box E (POOL_JSON E) = Some (json_pool (POOL_JSON E) None
     (json_conf 200 15 921685 0x0779ec04f2fae64e87418a1ad917639d4668f78484f45df962b0dec14a2591d2 299999))"
  "pool_try_from_box E (FRESH_POOL_JSON E) = Some (json_pool (FRESH_POOL_JSON E) (Some 1)
     (json_conf 200 15 922295 0x0779ec04f2fae64e87418a1ad917639d4668f78484f45df962b0dec14a2591d2 299999))"
  "pool_try_from_box E (MATURE_POOL_JSON E) = Some (json_pool (MATURE_POOL_JSON E) (Some 4)
     (json_conf 250 5 935443 0x00bd762484086cf560d3127eb53f0769d76244d9737636b2699d55c56cd470bf 4999999))"
  by (simp_all add: pool_try_from_box_def POOL_JSON_def FRESH_POOL_JSON_def MATURE_POOL_JSON_def POOL_VALIDATOR_def nth_opt_def get_register_nth_opt
      u64_of_i64_def u32_of_i32_def json_pool_def json_conf_def Let_def from_token_def)

lemma json_pool_fields [simp]:
  "conf (json_pool bx ix c) = c" "budget_rem (json_pool bx ix c) = from_token (the (bx_tokens bx) ! 1)" "pl_pool_id (json_pool bx ix c) = tok_id (the (bx_tokens bx) ! 0)"
  "epoch_len (json_conf len num start i b) = len" "epoch_num (json_conf len num start i b) = num" "program_start (json_conf len num start i b) = start"
  "max_rounding_error (json_conf len num start i b) = 1000" "amount (program_budget (json_conf len num start i b)) = b"
  by (simp_all add: json_pool_def json_conf_def Let_def from_token_def)

lemma json_budgets [simp]:
  "amount (from_token (the (bx_tokens (POOL_JSON E)) ! Suc 0)) = 300000"
  "amount (from_token (the (bx_tokens (FRESH_POOL_JSON E)) ! Suc 0)) = 299993"
  "amount (from_token (the (bx_tokens (MATURE_POOL_JSON E)) ! Suc 0)) = 1000003"
  by (simp_all add: POOL_JSON_def FRESH_POOL_JSON_def MATURE_POOL_JSON_def from_token_def)

lemma json_allocs:
  "epoch_alloc (json_pool bx ix (json_conf 200 15 s i 299999)) = Some 19999"
  "epoch_alloc (json_pool bx ix (json_conf 250 5 s i 4999999)) = Some 999999"
  by (simp_all add: epoch_alloc_def checked_div_def)

lemma json_pools_epochs:
  "epochs_left_to_process (json_pool (POOL_JSON E) ix (json_conf 200 15 s i 299999)) = Some 15"
  "epochs_left_to_process (json_pool (FRESH_POOL_JSON E) ix (json_conf 200 15 s i 299999)) = Some 15"
  "epochs_left_to_process (json_pool (MATURE_POOL_JSON E) ix (json_conf 250 5 s i 4999999)) = Some 1"
  using epochs_left_exact_aux [of "json_pool (POOL_JSON E) ix (json_conf 200 15 s i 299999)", OF _ json_allocs(1)]
    epochs_left_exact_aux [of "json_pool (FRESH_POOL_JSON E) ix (json_conf 200 15 s i 299999)", OF _ json_allocs(1)]
    epochs_left_exact_aux [of "json_pool (MATURE_POOL_JSON E) ix (json_conf 250 5 s i 4999999)", OF _ json_allocs(2)]
  by (auto simp: f64_safe_def word_unat_eq_iff)

lemma json_bundle: "\<exists>b. bundle_try_from_box E (BUNDLE_JSON E r) = Some b \<and> sb_vlq b = typed_amount 0x3fdce3da8d364f13bca60998c20660c79c19923f44e141df01349d2e63651e86 100 \<and>
   sb_tmp b = Some (typed_amount 0xc256908dd9fd477bde350be6a41c0884713a1b1d589357ae731763455ef28c10 1400)"
  by (simp add: bundle_try_from_box_def BUNDLE_JSON_def BUNDLE_VALIDATOR_def nth_opt_def get_register_nth_opt from_utf8_def from_token_def Let_def)

lemma bundle_compatible_passes: "bundle_compatible_with_pool E r = Some ()"
  using json_bundle [of E r] by (auto simp: bundle_compatible_with_pool_def json_pools json_pools_epochs indexed_bundle_new_def checked_div_def)

section \<open>Properties\<close>

text \<open>The tests of the pool pass, whatever digests they draw: a deposit before the start of the program releases temporary tokens
  for every epoch, a redeem after a deposit restores the reserves, a compounding of two deposits rewards them in
  proportion to within one token, and the box of the test is read as a pool.\<close>

theorem pool_tests_pass:
  assumes "trivial_sigma_prop E = Some sp"
  shows "early_deposit E p rnd = Some () \<and> deposit_redeem E p rnd = Some () \<and> test_distribute_rewards E p rnd = Some () \<and>
    parse_pool E = Some () \<and> bundle_compatible_with_pool E sp = Some ()"
  by (simp add: early_deposit_passes [OF assms] deposit_redeem_passes [OF assms] distribute_rewards_passes [OF assms] parse_pool_def json_pools
      bundle_compatible_passes)

theorem pool_tests_pass_witness:
  "test_distribute_rewards sample_lib [1] word_of_nat = Some ()"
proof -
  have "\<exists>sp. trivial_sigma_prop sample_lib = Some sp" by (simp add: trivial_sigma_prop_def sample_lib_def)
  then show ?thesis using pool_tests_pass [of sample_lib _ "[1]" word_of_nat] by blast
qed

text \<open>The rewards of the compounding test exceed, together, what the program allots to an epoch: the one liquidity token of the
  test's pool that nobody has staked counts as staked when the temporary tokens in circulation are computed.\<close>

theorem test_rewards_exceed_allocation:
  assumes "trivial_sigma_prop E = Some sp"
  shows "\<exists>pool a b bundles o1 o2 r1 r2. compounding_setup E p rnd = Some (pool, a, b, bundles, [o1, o2]) \<and> ro_reward o1 = Some r1 \<and> ro_reward o2 = Some r2 \<and>
    epoch_alloc pool = Some 100000000 \<and> unat (amount r1) + unat (amount r2) = 100300900"
proof -
  have "epoch_alloc (test_pool rnd 3001 27000 \<lparr> budget_rem := typed_amount (rnd 1) 899699100, pl_epoch_ix := Some 1 \<rparr>) = Some 100000000"
    by (simp add: epoch_alloc_def test_pool_def make_pool_def checked_div_def)
  then show ?thesis using compounding_setup_result [OF assms, of p rnd] by fastforce
qed

end
