(* ===== verification/Test_Schedules.thy ===== *)
theory Test_Schedules
  imports Schedule Test_Support Test_Pool
begin

text \<open>
  The tests of the schedules (\<open>spectrum-offchain-lm/src/scheduler.rs\<close> and \<open>scheduler/data.rs\<close>), as functions of the database under
  test, the identifiers drawn at random and the clock.

  Results: over every database that keeps the documented laws they pass, at every time that \<open>i64\<close> can tell from the latest one.
\<close>

section \<open>The tests\<close>

definition tick_index_serialization_roundtrip :: "'db schedule_env \<Rightarrow> pool_id \<Rightarrow> unit panics" where
  "tick_index_serialization_roundtrip X pool_id = (let
     height = 10000;
     index = tick_key X TICKS_PREFIX pool_id height;
     pool_id_extracted = destructure_tick_key X index
   in assert_that (pool_id_extracted = Some pool_id))"

definition tried_tick_index_serialization_roundtrip :: "'db schedule_env \<Rightarrow> pool_id \<Rightarrow> unit panics" where
  "tried_tick_index_serialization_roundtrip X pool_id = (let
     height = 10000;
     index = tick_key X DEFERRED_TICKS_PREFIX pool_id height;
     pool_id_extracted = destructure_deferred_tick_key X index
   in assert_that (pool_id_extracted = Some pool_id))"

definition extract_pool_id_from_any_key :: "'db schedule_env \<Rightarrow> pool_id \<Rightarrow> unit panics" where
  "extract_pool_id_from_any_key X pool_id = (let
     height = 10000;
     tick_index = tick_key X TICKS_PREFIX pool_id height;
     def_tick_index = tick_key X DEFERRED_TICKS_PREFIX pool_id height;
     schedule_key = prefixed_key (se_str X) SCHEDULE_PREFIX (se_pid X) pool_id;
     pool_id_extracted_1 = extract_pool_id X tick_index;
     pool_id_extracted_2 = extract_pool_id X def_tick_index;
     pool_id_extracted_3 = extract_pool_id X schedule_key
   in do {
     assert_that (pool_id_extracted_1 = Some pool_id);
     assert_that (pool_id_extracted_2 = Some pool_id);
     assert_that (pool_id_extracted_3 = Some pool_id) })"

text \<open>
  The loop \<open>while let Some(tick) = client.peek().await\<close> that the tests share: it collects the ticks and defers each of them to the
  latest time.  \<open>now\<close> is the clock of the call; a loop that does not end has no result.
\<close>

definition I64_MAX :: i64 where "I64_MAX = 0x7fffffffffffffff"

partial_function (option) collect_ticks :: "'r schedule_repo_ops \<Rightarrow> (nat \<Rightarrow> i64) \<Rightarrow> nat \<Rightarrow> 'r \<Rightarrow> tick list \<Rightarrow> tick list option" where
  "collect_ticks R now i client ticks = (case sro_peek R (now i) client of
      Some tick \<Rightarrow> collect_ticks R now (Suc i) (sro_defer R client tick I64_MAX) (ticks @ [tick])
    | None \<Rightarrow> Some ticks)"

definition put_schedule :: "'r schedule_repo_ops \<Rightarrow> 'r \<Rightarrow> pool_schedule \<Rightarrow> 'r panics" where
  "put_schedule R client schedule = (case sro_update_schedule R client schedule of (Inl e, c) \<Rightarrow> None | (Inr u, c) \<Rightarrow> Some c)"

definition put_real_schedule_peek_ticks :: "'r schedule_repo_ops \<Rightarrow> ergo_lib \<Rightarrow> (nat \<Rightarrow> i64) \<Rightarrow> 'r \<Rightarrow> unit panics" where
  "put_real_schedule_peek_ticks R E now client = do {
     pool \<leftarrow> pool_try_from_box E (POOL_JSON E);
     schedule \<leftarrow> schedule_from_pool pool;
     client \<leftarrow> put_schedule R client schedule;
     ticks \<leftarrow> collect_ticks R now 0 client [];
     tick_0 \<leftarrow> nth_opt ticks 0;
     h \<leftarrow> next_compounding_at schedule;
     assert_that (tk_height tick_0 = h) }"

definition interfering_1 :: pool_schedule where
  "interfering_1 = \<lparr> ps_pool_id = from_be_bytes (replicate 32 0), ps_epoch_len = 10, ps_epoch_num = 10, ps_program_start = 100,
     ps_last_completed_epoch_ix = 0 \<rparr>"

definition interfering_2 :: pool_schedule where
  "interfering_2 = \<lparr> ps_pool_id = from_be_bytes (replicate 32 1), ps_epoch_len = 15, ps_epoch_num = 15, ps_program_start = 110,
     ps_last_completed_epoch_ix = 0 \<rparr>"

definition put_interfering_schedules_peek_ticks :: "'r schedule_repo_ops \<Rightarrow> (nat \<Rightarrow> i64) \<Rightarrow> 'r \<Rightarrow> unit panics" where
  "put_interfering_schedules_peek_ticks R now client = do {
     client \<leftarrow> put_schedule R client interfering_1;
     client \<leftarrow> put_schedule R client interfering_2;
     ticks \<leftarrow> collect_ticks R now 0 client [];
     tick_0 \<leftarrow> nth_opt ticks 0;
     h_0 \<leftarrow> next_compounding_at interfering_1;
     assert_that (tk_height tick_0 = h_0);
     tick_1 \<leftarrow> nth_opt ticks 1;
     h_1 \<leftarrow> next_compounding_at interfering_2;
     assert_that (tk_height tick_1 = h_1) }"

definition peek_defer_remove :: "'r schedule_repo_ops \<Rightarrow> (nat \<Rightarrow> i64) \<Rightarrow> 'r \<Rightarrow> unit panics" where
  "peek_defer_remove R now client = do {
     client \<leftarrow> put_schedule R client interfering_1;
     let tick = sro_peek R (now 0) client;
     assert_that (tick \<noteq> None);
     t \<leftarrow> tick;
     let client = sro_defer R client t 0;
     let deferred_tick = sro_peek R (now 1) client;
     assert_that (deferred_tick \<noteq> None);
     assert_that (deferred_tick = tick);
     d \<leftarrow> deferred_tick;
     let client = sro_remove R client d;
     assert_that (sro_peek R (now 2) client = None) }"

definition schedule_from_pool_test :: "ergo_lib \<Rightarrow> unit panics" where
  "schedule_from_pool_test E = do {
     pool \<leftarrow> pool_try_from_box E (FRESH_POOL_JSON E);
     schedule \<leftarrow> schedule_from_pool pool;
     assert_that (program_start (conf pool) = ps_program_start schedule);
     assert_that (epoch_len (conf pool) = ps_epoch_len schedule);
     assert_that (epoch_num (conf pool) = ps_epoch_num schedule) }"

definition program_end_matches_last_compounding_height :: "ergo_lib \<Rightarrow> unit panics" where
  "program_end_matches_last_compounding_height E = do {
     pool \<leftarrow> pool_try_from_box E (MATURE_POOL_JSON E);
     schedule \<leftarrow> schedule_from_pool pool;
     assert_that (Some (program_end pool) = next_compounding_at schedule) }"

section \<open>They pass\<close>

lemma I64_MAX_latest: "sint I64_MAX = 2 ^ 63 - 1"
  by (simp add: I64_MAX_def)

definition no_ticks :: abs_schedule where
  "no_ticks = \<lparr> as_sched = (\<lambda>_. None), as_pending = {}, as_deferred = (\<lambda>_. None) \<rparr>"

context schedule_repo
begin

abbreviation "R \<equiv> schedule_repo_rocksdb X"

lemma put_schedule_abs:
  assumes "schedule_keys_wf X db" "next_compounding_at sc = Some h"
  shows "\<exists>db'. put_schedule R db sc = Some db' \<and> schedule_keys_wf X db' \<and> abs_schedule_of X db' = abs_schedule_op (OpUpdate sc) (abs_schedule_of X db)"
  using keys_wf_apply [OF assms(1), of "OpUpdate sc"] abs_update [OF assms(1), of sc] assms(2)
  by (auto simp: put_schedule_def schedule_repo_rocksdb_def update_schedule_def Let_def)

text \<open>While no deferred tick is due, the lowest pending tick is returned.\<close>

lemma peek_waiting:
  assumes "schedule_keys_wf X db" "one_tick (abs_schedule_of X db)" "\<And>t u. as_deferred (abs_schedule_of X db) t = Some u \<Longrightarrow> sint now < sint u"
  shows "case peek X now db of None \<Rightarrow> as_pending (abs_schedule_of X db) = {}
    | Some t \<Rightarrow> (tk_pool_id t, tk_height t) \<in> as_pending (abs_schedule_of X db) \<and> (\<forall>(p, h) \<in> as_pending (abs_schedule_of X db). tk_height t \<le> h)"
proof -
  have "deferred_loop X db now (db_scan (se_db X) db (se_str X DEFERRED_TICKS_PREFIX)) = None"
  proof (rule ccontr)
    assume "deferred_loop X db now (db_scan (se_db X) db (se_str X DEFERRED_TICKS_PREFIX)) \<noteq> None"
    then obtain t where "deferred_loop X db now (db_scan (se_db X) db (se_str X DEFERRED_TICKS_PREFIX)) = Some t" by blast
    then show False using deferred_due [OF assms(1,2)] assms(3) by fastforce
  qed
  then show ?thesis using pending_lowest [OF assms(1,2)] by (auto simp: peek_def split: option.splits)
qed

lemma peek_single_deferred:
  assumes "schedule_keys_wf X db" "one_tick (abs_schedule_of X db)" "as_pending (abs_schedule_of X db) = {}"
    and "as_deferred (abs_schedule_of X db) = [(p, h) \<mapsto> u]" "sint u \<le> sint now"
  shows "peek X now db = tick_of_pool X db p \<and> tick_of_pool X db p \<noteq> None"
proof -
  obtain t where t: "tick_of_pool X db p = Some t" using one_tick_tick [OF assms(2), of p h] assms(4) by auto
  have "deferred_loop X db now (db_scan (se_db X) db (se_str X DEFERRED_TICKS_PREFIX)) = Some t"
  proof (cases "db_scan (se_db X) db (se_str X DEFERRED_TICKS_PREFIX)")
    case Nil
    have "db_get (se_db X) db (def_key p h) \<noteq> None" using deferred_None [OF assms(1)] assms(4) by simp
    moreover have "db_get (se_db X) db (def_key p h) = None" using Nil rocksdb_laws.scan_Nil [OF db_laws, of db "se_str X DEFERRED_TICKS_PREFIX"] by simp
    ultimately show ?thesis by simp
  next
    case (Cons e es)
    then obtain q k v where e: "fst e = def_key q k" "de (se_i64 X) (snd e) = Some v" "as_deferred (abs_schedule_of X db) (q, k) = Some v"
      using deferred_scan [OF assms(1), of e] by auto
    then show ?thesis using Cons assms(4,5) t by (cases e) (auto split: if_splits)
  qed
  moreover have "pending_loop X db (db_scan (se_db X) db (se_str X TICKS_PREFIX)) = None"
    using pending_lowest [OF assms(1,2)] assms(3) by (auto split: option.splits)
  ultimately show ?thesis using t by (simp add: peek_def)
qed

lemma collect_sorted:
  assumes "schedule_keys_wf X db" "one_tick (abs_schedule_of X db)" "\<And>t u. as_deferred (abs_schedule_of X db) t = Some u \<Longrightarrow> u = I64_MAX"
    and "as_pending (abs_schedule_of X db) = set L" "sorted_wrt (\<lambda>a b. snd a < snd b) L" "\<And>j. sint (now j) < 2 ^ 63 - 1"
  shows "\<exists>ts. collect_ticks R now i db acc = Some (acc @ ts) \<and> map (\<lambda>t. (tk_pool_id t, tk_height t)) ts = L"
  using assms(1-5)
proof (induction L arbitrary: i db acc)
  case Nil
  have "sint (now i) < sint u" if "as_deferred (abs_schedule_of X db) t = Some u" for t u
    using Nil.prems(3) [OF that] assms(6) I64_MAX_latest by simp
  then have "peek X (now i) db = None" using peek_waiting [OF Nil.prems(1,2), of "now i"] Nil.prems(4) by (auto split: option.split_asm)
  then show ?case by (subst collect_ticks.simps) (simp add: schedule_repo_rocksdb_def)
next
  case (Cons e L)
  have "sint (now i) < sint u" if "as_deferred (abs_schedule_of X db) t = Some u" for t u
    using Cons.prems(3) [OF that] assms(6) I64_MAX_latest by simp
  note found = peek_waiting [OF Cons.prems(1,2) this]
  obtain t where t: "peek X (now i) db = Some t" "(tk_pool_id t, tk_height t) \<in> set (e # L)" "\<And>p h. (p, h) \<in> set (e # L) \<Longrightarrow> tk_height t \<le> h"
    using found Cons.prems(4) by (fastforce split: option.split_asm)
  have "tk_height t \<le> snd e" using t(3) [of "fst e" "snd e"] by simp
  then have e: "e = (tk_pool_id t, tk_height t)" using t(2) Cons.prems(5) by (auto simp: not_le)
  let ?op = "OpDefer t I64_MAX"
  have abs: "abs_schedule_of X (apply_schedule_op X ?op db) = abs_schedule_op ?op (abs_schedule_of X db)" by (rule abs_defer)
  have "e \<notin> set L" using Cons.prems(5) by auto
  then have "\<exists>ts. collect_ticks R now (Suc i) (apply_schedule_op X ?op db) (acc @ [t]) = Some ((acc @ [t]) @ ts) \<and> map (\<lambda>t. (tk_pool_id t, tk_height t)) ts = L"
    using Cons.prems keys_wf_apply [OF Cons.prems(1), of ?op] one_tick_op [OF Cons.prems(2), of ?op]
    by (intro Cons.IH) (auto simp: abs [simplified] e split: if_splits)
  then obtain ts where "collect_ticks R now (Suc i) (schedule_defer X db t I64_MAX) (acc @ [t]) = Some ((acc @ [t]) @ ts)" "map (\<lambda>t. (tk_pool_id t, tk_height t)) ts = L"
    by auto
  then show ?case using t(1) e by (subst collect_ticks.simps) (auto simp: schedule_repo_rocksdb_def intro!: exI [of _ "t # ts"])
qed

lemma fresh_one: "one_tick no_ticks"
  by (simp add: no_ticks_def one_tick_def)

lemma put_first:
  assumes "schedule_keys_wf X db" "abs_schedule_of X db = no_ticks" "next_compounding_at sc = Some h" "ps_pool_id sc = p" "0 < unat (ps_epoch_len sc)" "unat (ps_epoch_len sc) \<le> unat h"
    "unat h + unat (ps_epoch_len sc) < 2 ^ 32"
  shows "\<exists>db'. put_schedule R db sc = Some db' \<and> schedule_keys_wf X db' \<and> abs_schedule_of X db' = \<lparr> as_sched = [p \<mapsto> sc], as_pending = {(p, h)}, as_deferred = Map.empty \<rparr>"
proof -
  have "h \<noteq> saturating_sub h (ps_epoch_len sc)" using assms(5-7) unat_saturating_sub [of h "ps_epoch_len sc"] by auto
  moreover have "h \<noteq> h + ps_epoch_len sc" using assms(5) by auto
  ultimately show ?thesis using put_schedule_abs [OF assms(1,3)] assms(2-4) by (auto simp: no_ticks_def Let_def fun_eq_iff)
qed

lemma put_second:
  assumes "schedule_keys_wf X db" "abs_schedule_of X db = \<lparr> as_sched = [q \<mapsto> sq], as_pending = {(q, k)}, as_deferred = Map.empty \<rparr>"
    and "next_compounding_at sc = Some h" "ps_pool_id sc = p" "p \<noteq> q" "0 < unat (ps_epoch_len sc)" "unat (ps_epoch_len sc) \<le> unat h" "unat h + unat (ps_epoch_len sc) < 2 ^ 32"
  shows "\<exists>db'. put_schedule R db sc = Some db' \<and> schedule_keys_wf X db' \<and>
    abs_schedule_of X db' = \<lparr> as_sched = [q \<mapsto> sq, p \<mapsto> sc], as_pending = {(q, k), (p, h)}, as_deferred = Map.empty \<rparr>"
proof -
  have "h \<noteq> saturating_sub h (ps_epoch_len sc)" using assms(6-8) unat_saturating_sub [of h "ps_epoch_len sc"] by auto
  moreover have "h \<noteq> h + ps_epoch_len sc" using assms(6) by auto
  ultimately show ?thesis using put_schedule_abs [OF assms(1,3)] assms(2-5) by (auto simp: Let_def fun_eq_iff)
qed

lemma interfering_next: "next_compounding_at interfering_1 = Some 110" "next_compounding_at interfering_2 = Some 125"
  "ps_epoch_len interfering_1 = 10" "ps_epoch_len interfering_2 = 15"
  by (simp_all add: next_compounding_at_def schedule_program_end_def interfering_1_def interfering_2_def)

lemma interfering_pools: "ps_pool_id interfering_2 \<noteq> ps_pool_id interfering_1"
  by (simp add: interfering_1_def interfering_2_def replicated_digest)

lemma interfering_passes:
  assumes "schedule_keys_wf X db" "abs_schedule_of X db = no_ticks" "\<And>j. sint (now j) < 2 ^ 63 - 1"
  shows "put_interfering_schedules_peek_ticks R now db = Some ()"
proof -
  let ?p = "ps_pool_id interfering_1" and ?q = "ps_pool_id interfering_2"
  obtain db1 where db1: "put_schedule R db interfering_1 = Some db1" "schedule_keys_wf X db1"
    "abs_schedule_of X db1 = \<lparr> as_sched = [?p \<mapsto> interfering_1], as_pending = {(?p, 110)}, as_deferred = Map.empty \<rparr>"
    using put_first [OF assms(1,2) interfering_next(1) refl] by (auto simp: interfering_next)
  obtain db2 where db2: "put_schedule R db1 interfering_2 = Some db2" "schedule_keys_wf X db2"
    "abs_schedule_of X db2 = \<lparr> as_sched = [?p \<mapsto> interfering_1, ?q \<mapsto> interfering_2], as_pending = {(?p, 110), (?q, 125)}, as_deferred = Map.empty \<rparr>"
    using put_second [OF db1(2,3) interfering_next(2) refl interfering_pools] by (auto simp: interfering_next)
  have "one_tick (abs_schedule_of X db2)" using interfering_pools by (auto simp: db2(3) one_tick_def interfering_next)
  then obtain ts where "collect_ticks R now 0 db2 [] = Some ts" "map (\<lambda>t. (tk_pool_id t, tk_height t)) ts = [(?p, 110), (?q, 125)]"
    using collect_sorted [OF db2(2), of "[(?p, 110), (?q, 125)]" now 0 "[]"] assms(3) by (auto simp: db2(3))
  then show ?thesis
    by (auto simp: put_interfering_schedules_peek_ticks_def db1(1) db2(1) interfering_next nth_opt_def map_eq_Cons_conv)
qed

lemma peek_defer_remove_passes:
  assumes "schedule_keys_wf X db" "abs_schedule_of X db = no_ticks" "0 \<le> sint (now 1)"
  shows "peek_defer_remove R now db = Some ()"
proof -
  let ?p = "ps_pool_id interfering_1"
  obtain db1 where db1: "put_schedule R db interfering_1 = Some db1" "schedule_keys_wf X db1"
    "abs_schedule_of X db1 = \<lparr> as_sched = [?p \<mapsto> interfering_1], as_pending = {(?p, 110)}, as_deferred = Map.empty \<rparr>"
    using put_first [OF assms(1,2) interfering_next(1) refl] by (auto simp: interfering_next)
  have one: "one_tick (abs_schedule_of X db1)" by (auto simp: db1(3) one_tick_def interfering_next)
  obtain t where t: "peek X (now 0) db1 = Some t" "tk_pool_id t = ?p" "tk_height t = 110"
    using peek_waiting [OF db1(2) one, of "now 0"] by (auto simp: db1(3) split: option.split_asm)
  have tick: "tick_try_from interfering_1 = Some \<lparr> tk_pool_id = ?p, tk_epoch_ix = 1, tk_height = 110 \<rparr>"
    by (simp add: tick_try_from_def interfering_next) (simp add: interfering_1_def)
  have t_eq: "Some t = tick_of_pool X db1 ?p"
    using peek_returns_lowest [OF schedule_repo_axioms db1(2) one, of "now 0"] t by auto
  let ?db2 = "schedule_defer X db1 t 0"
  have db2: "schedule_keys_wf X ?db2" "abs_schedule_of X ?db2 = \<lparr> as_sched = [?p \<mapsto> interfering_1], as_pending = {}, as_deferred = [(?p, 110) \<mapsto> 0] \<rparr>"
    using keys_wf_apply [OF db1(2), of "OpDefer t 0"] abs_defer [of t 0 db1] t by (simp_all add: db1(3))
  have "one_tick (abs_schedule_of X ?db2)" by (auto simp: db2(2) one_tick_def interfering_next)
  then have peek2: "peek X (now 1) ?db2 = Some t"
    using peek_single_deferred [OF db2(1), of ?p 110 0 "now 1"] assms(3) t_eq by (simp add: db2(2) tick_of_pool_abs db1(3))
  let ?db3 = "schedule_remove X ?db2 t"
  have db3: "schedule_keys_wf X ?db3" "abs_schedule_of X ?db3 = \<lparr> as_sched = [?p \<mapsto> interfering_1], as_pending = {}, as_deferred = Map.empty \<rparr>"
    using keys_wf_apply [OF db2(1), of "OpRemove t"] abs_remove [of t ?db2] t by (simp_all add: db2(2))
  have "peek X (now 2) ?db3 = None"
    using peek_waiting [OF db3(1), of "now 2"] by (auto simp: db3(2) one_tick_def split: option.split_asm)
  then show ?thesis using t(1) peek2 db1(1) by (simp add: peek_defer_remove_def schedule_repo_rocksdb_def Let_def)
qed

lemma real_schedule: "\<exists>p sc. pool_try_from_box E (POOL_JSON E) = Some p \<and> schedule_from_pool p = Some sc \<and> next_compounding_at sc = Some 921885 \<and> ps_epoch_len sc = 200"
  by (simp add: json_pools schedule_from_pool_def json_pools_epochs next_compounding_at_def schedule_program_end_def)

lemma real_passes:
  assumes "schedule_keys_wf X db" "abs_schedule_of X db = no_ticks" "\<And>j. sint (now j) < 2 ^ 63 - 1"
  shows "put_real_schedule_peek_ticks R E now db = Some ()"
proof -
  obtain p sc where sc: "pool_try_from_box E (POOL_JSON E) = Some p" "schedule_from_pool p = Some sc" "next_compounding_at sc = Some 921885" "ps_epoch_len sc = 200"
    using real_schedule by blast
  obtain db1 where db1: "put_schedule R db sc = Some db1" "schedule_keys_wf X db1"
    "abs_schedule_of X db1 = \<lparr> as_sched = [ps_pool_id sc \<mapsto> sc], as_pending = {(ps_pool_id sc, 921885)}, as_deferred = Map.empty \<rparr>"
    using put_first [OF assms(1,2) sc(3) refl] by (auto simp: sc)
  have "one_tick (abs_schedule_of X db1)" by (auto simp: db1(3) one_tick_def sc)
  then obtain ts where "collect_ticks R now 0 db1 [] = Some ts" "map (\<lambda>t. (tk_pool_id t, tk_height t)) ts = [(ps_pool_id sc, 921885)]"
    using collect_sorted [OF db1(2), of "[(ps_pool_id sc, 921885)]" now 0 "[]"] assms(3) by (auto simp: db1(3))
  then show ?thesis by (auto simp: put_real_schedule_peek_ticks_def sc db1(1) nth_opt_def map_eq_Cons_conv)
qed

lemma key_tests_pass: "tick_index_serialization_roundtrip X p = Some ()" "tried_tick_index_serialization_roundtrip X p = Some ()"
  "extract_pool_id_from_any_key X p = Some ()"
  by (simp_all add: tick_index_serialization_roundtrip_def tried_tick_index_serialization_roundtrip_def extract_pool_id_from_any_key_def Let_def)

end

lemma schedule_data_tests_pass: "schedule_from_pool_test E = Some ()" "program_end_matches_last_compounding_height E = Some ()"
  by (simp_all add: schedule_from_pool_test_def program_end_matches_last_compounding_height_def json_pools schedule_from_pool_def json_pools_epochs
      next_compounding_at_def schedule_program_end_def program_end_def)

section \<open>Result\<close>

text \<open>The tests of the schedules pass over every database that keeps the documented laws and starts without schedules: the
  ticks of two pools are peeked in the order of their heights, a deferred tick comes back when it is due and is gone
  once removed, every key gives back its pool, and the schedule of a pool ends with its program.\<close>

theorem schedule_tests_pass:
  assumes "schedule_repo X" "schedule_keys_wf X db" "abs_schedule_of X db = no_ticks" "\<And>j. 0 \<le> sint (now j) \<and> sint (now j) < 2 ^ 63 - 1"
    and "R = schedule_repo_rocksdb X"
  shows "put_real_schedule_peek_ticks R E now db = Some () \<and> put_interfering_schedules_peek_ticks R now db = Some () \<and> peek_defer_remove R now db = Some () \<and>
    tick_index_serialization_roundtrip X p = Some () \<and> tried_tick_index_serialization_roundtrip X p = Some () \<and> extract_pool_id_from_any_key X p = Some () \<and>
    schedule_from_pool_test E = Some () \<and> program_end_matches_last_compounding_height E = Some ()"
  using assms schedule_repo.real_passes [OF assms(1-3)] schedule_repo.interfering_passes [OF assms(1-3)] schedule_repo.peek_defer_remove_passes [OF assms(1-3)]
  by (simp add: schedule_repo.key_tests_pass [OF assms(1)] schedule_data_tests_pass)

theorem schedule_tests_pass_witness:
  "put_interfering_schedules_peek_ticks (schedule_repo_rocksdb sample_schedules) (\<lambda>_. 0) RBT.empty = Some ()"
  using schedule_tests_pass [OF sample_schedules.schedule_repo_axioms no_schedules(1), of "\<lambda>_. 0"] no_schedules(2) by (simp add: no_ticks_def)

end
