(* ===== verification/Test_Backlog.thy ===== *)
theory Test_Backlog
  imports Backlog Test_Support Codecs
begin

text \<open>
  The tests of the backlog (\<open>spectrum-offchain/src/backlog.rs\<close>): the orders and the store they are written with, the service over any
  priority queue, and the store over any database.  \<open>clock\<close> gives the readings of \<open>Utc::now().timestamp()\<close>, in the order of the
  calls; the \<open>HashMap\<close> of the store is an association list, which fixes the order of its values.

  Results: the tests pass when all readings of the clock lie within the lifespan of an order.
\<close>

section \<open>Orders and store of the tests\<close>

record mock_order =
  mk_order_id :: i64
  mk_weight :: order_weight_t

definition mock_pending :: "mock_order backlog_order \<Rightarrow> mock_order pending_order" where
  "mock_pending x = \<lparr> po_order = bo_order x, po_timestamp = bo_timestamp x \<rparr>"

definition mock_progressing :: "mock_order backlog_order \<Rightarrow> mock_order progressing_order" where
  "mock_progressing x = \<lparr> pr_order = bo_order x, pr_timestamp = bo_timestamp x \<rparr>"

definition mock_suspended :: "mock_order backlog_order \<Rightarrow> mock_order suspended_order" where
  "mock_suspended x = \<lparr> so_order = bo_order x, so_timestamp = bo_timestamp x \<rparr>"

definition mock_weight :: "mock_order \<Rightarrow> order_weight_t" where
  "mock_weight ord = mk_weight ord"

definition mock_self_ref :: "mock_order \<Rightarrow> i64" where
  "mock_self_ref ord = mk_order_id ord"

definition mock_entity_ref :: "mock_order \<Rightarrow> unit" where
  "mock_entity_ref ord = ()"

type_synonym mock_store = "(i64 \<times> mock_order backlog_order) list"

definition mock_store_new :: mock_store where
  "mock_store_new = []"

definition mock_store_put :: "mock_store \<Rightarrow> mock_order backlog_order \<Rightarrow> mock_store" where
  "mock_store_put inner ord = AList.update (mk_order_id (bo_order ord)) ord inner"

definition mock_store_exists :: "mock_store \<Rightarrow> i64 \<Rightarrow> bool" where
  "mock_store_exists inner ord_id \<longleftrightarrow> map_of inner ord_id \<noteq> None"

definition mock_store_remove :: "mock_store \<Rightarrow> i64 \<Rightarrow> mock_store" where
  "mock_store_remove inner ord_id = AList.delete ord_id inner"

definition mock_store_get :: "mock_store \<Rightarrow> i64 \<Rightarrow> mock_order backlog_order option" where
  "mock_store_get inner ord_id = map_of inner ord_id"

definition mock_store_find :: "mock_store \<Rightarrow> (mock_order \<Rightarrow> bool) \<Rightarrow> mock_order backlog_order list" where
  "mock_store_find inner f = [b \<leftarrow> map snd inner. f (bo_order b)]"

definition mock_backlog_store :: "(mock_store, i64, mock_order) bstore" where
  "mock_backlog_store = \<lparr> bs_put = mock_store_put, bs_exists = mock_store_exists, bs_remove = mock_store_remove,
     bs_get = (\<lambda>s i. Some (mock_store_get s i)), bs_find_orders = mock_store_find \<rparr>"

definition suite_env :: "('q, i64 weighted_order) pqueue \<Rightarrow> (mock_order, i64, mock_store, 'q) backlog_env" where
  "suite_env P = \<lparr> be_store = mock_backlog_store, be_pq = P, be_ref = mock_self_ref, be_weight = mock_weight \<rparr>"

definition setup_backlog :: "('q, i64 weighted_order) pqueue \<Rightarrow> int \<Rightarrow> int \<Rightarrow> u8 \<Rightarrow> (i64, mock_store, 'q) backlog_service panics" where
  "setup_backlog P order_lifespan_secs order_exec_time_secs prob = do {
     let store = mock_store_new;
     prob \<leftarrow> (if prob \<le> 100 then Some prob else None);
     let conf = \<lparr> order_lifespan = order_lifespan_secs, order_exec_time = order_exec_time_secs, retry_suspended_prob = prob \<rparr>;
     Some (backlog_new (suite_env P) store conf) }"

definition make_order :: "i64 \<Rightarrow> i64 \<Rightarrow> u64 \<Rightarrow> mock_order backlog_order" where
  "make_order utc_now i weight = \<lparr> bo_order = \<lparr> mk_order_id = i, mk_weight = weight \<rparr>, bo_timestamp = utc_now \<rparr>"

section \<open>The tests\<close>

definition should_suspend_existing_order :: "('q, i64 weighted_order) pqueue \<Rightarrow> (nat \<Rightarrow> i64) \<Rightarrow> unit panics" where
  "should_suspend_existing_order P clock = do {
     backlog \<leftarrow> setup_backlog P 10 5 50;
     let ord = make_order (clock 0) 1 1;
     let backlog = backlog_put (suite_env P) backlog (mock_pending ord);
     (suspended, backlog) \<leftarrow> backlog_suspend (suite_env P) backlog (bo_order ord);
     assert_that suspended }"

definition should_check_later_existing_order :: "('q, i64 weighted_order) pqueue \<Rightarrow> (nat \<Rightarrow> i64) \<Rightarrow> unit panics" where
  "should_check_later_existing_order P clock = do {
     backlog \<leftarrow> setup_backlog P 10 5 50;
     let ord = make_order (clock 0) 1 1;
     let backlog = backlog_put (suite_env P) backlog (mock_pending ord);
     let (accepted, backlog) = backlog_check_later (suite_env P) backlog (mock_progressing ord);
     assert_that accepted }"

definition should_not_suspend_non_existent_order :: "('q, i64 weighted_order) pqueue \<Rightarrow> (nat \<Rightarrow> i64) \<Rightarrow> unit panics" where
  "should_not_suspend_non_existent_order P clock = do {
     backlog \<leftarrow> setup_backlog P 10 5 50;
     let ord = make_order (clock 0) 1 1;
     (suspended, backlog) \<leftarrow> backlog_suspend (suite_env P) backlog (bo_order ord);
     assert_that (\<not> suspended) }"

definition should_not_check_later_non_existent_order :: "('q, i64 weighted_order) pqueue \<Rightarrow> (nat \<Rightarrow> i64) \<Rightarrow> unit panics" where
  "should_not_check_later_non_existent_order P clock = do {
     backlog \<leftarrow> setup_backlog P 10 5 50;
     let ord = make_order (clock 0) 1 1;
     let (accepted, backlog) = backlog_check_later (suite_env P) backlog \<lparr> pr_order = bo_order ord, pr_timestamp = bo_timestamp ord \<rparr>;
     assert_that (\<not> accepted) }"

definition should_pop_best_order :: "('q, i64 weighted_order) pqueue \<Rightarrow> (nat \<Rightarrow> i64) \<Rightarrow> (nat \<Rightarrow> u8) \<Rightarrow> unit panics" where
  "should_pop_best_order P clock rng = do {
     backlog \<leftarrow> setup_backlog P 10 5 0;
     let ord1 = make_order (clock 0) 1 1;
     let ord2 = make_order (clock 1) 2 2;
     let ord3 = make_order (clock 2) 3 3;
     let backlog = backlog_put (suite_env P) backlog (mock_pending ord1);
     let backlog = backlog_put (suite_env P) backlog (mock_pending ord2);
     let backlog = backlog_put (suite_env P) backlog (mock_pending ord3);
     (res, backlog) \<leftarrow> backlog_try_pop (suite_env P) (\<lambda>k. clock (3 + k)) (rng 0) (\<lambda>k. clock (3 + k)) backlog;
     assert_that (res = Some (bo_order ord3)) }"

definition should_always_pop_suspended_order_when_pa_100 :: "('q, i64 weighted_order) pqueue \<Rightarrow> (nat \<Rightarrow> i64) \<Rightarrow> (nat \<Rightarrow> u8) \<Rightarrow> unit panics" where
  "should_always_pop_suspended_order_when_pa_100 P clock rng = do {
     backlog \<leftarrow> setup_backlog P 10 5 100;
     let ord1 = make_order (clock 0) 1 1;
     let ord2 = make_order (clock 1) 2 2;
     let ord3 = make_order (clock 2) 3 3;
     let backlog = backlog_put (suite_env P) backlog (mock_pending ord1);
     let backlog = backlog_put (suite_env P) backlog (mock_pending ord2);
     let backlog = backlog_put (suite_env P) backlog (mock_pending ord3);
     (_, backlog) \<leftarrow> backlog_try_pop (suite_env P) (\<lambda>k. clock (3 + k)) (rng 0) (\<lambda>k. clock (3 + k)) backlog;
     (_, backlog) \<leftarrow> backlog_suspend (suite_env P) backlog (bo_order ord3);
     (res, backlog) \<leftarrow> backlog_try_pop (suite_env P) (\<lambda>k. clock (6 + k)) (rng 1) (\<lambda>k. clock (6 + k)) backlog;
     assert_that (res = Some (bo_order ord3)) }"

definition should_not_pop_suspended_order_when_pa_0 :: "('q, i64 weighted_order) pqueue \<Rightarrow> (nat \<Rightarrow> i64) \<Rightarrow> (nat \<Rightarrow> u8) \<Rightarrow> unit panics" where
  "should_not_pop_suspended_order_when_pa_0 P clock rng = do {
     backlog \<leftarrow> setup_backlog P 10 5 0;
     let ord1 = make_order (clock 0) 1 1;
     let ord2 = make_order (clock 1) 2 2;
     let ord3 = make_order (clock 2) 3 3;
     let backlog = backlog_put (suite_env P) backlog (mock_pending ord1);
     let backlog = backlog_put (suite_env P) backlog (mock_pending ord2);
     let backlog = backlog_put (suite_env P) backlog (mock_pending ord3);
     (_, backlog) \<leftarrow> backlog_try_pop (suite_env P) (\<lambda>k. clock (3 + k)) (rng 0) (\<lambda>k. clock (3 + k)) backlog;
     (_, backlog) \<leftarrow> backlog_suspend (suite_env P) backlog (bo_order ord3);
     (res, backlog) \<leftarrow> backlog_try_pop (suite_env P) (\<lambda>k. clock (6 + k)) (rng 1) (\<lambda>k. clock (6 + k)) backlog;
     assert_that (res = Some (bo_order ord2)) }"

definition test_rocksdb_backlog :: "('s, i64, mock_order) bstore \<Rightarrow> 's \<Rightarrow> (nat \<Rightarrow> i64) \<Rightarrow> unit panics" where
  "test_rocksdb_backlog B store clock = do {
     let check_eq = (\<lambda>ord1 ord2. do {
       assert_that (bo_order ord1 = bo_order ord2);
       assert_that (\<bar>sint (bo_timestamp ord1) - sint (bo_timestamp ord2)\<bar> < 2) });
     store \<leftarrow> for_each [0..<30] (\<lambda>i store. Some (bs_put B store (make_order (clock i) (word_of_nat i) (word_of_nat i)))) store;
     check_each [0..<30] (\<lambda>i. do {
       assert_that (bs_exists B store (word_of_nat i));
       found \<leftarrow> bs_get B store (word_of_nat i);
       ord \<leftarrow> found;
       check_eq (make_order (clock (30 + i)) (word_of_nat i) (word_of_nat i)) ord });
     store \<leftarrow> for_each [0..<30] (\<lambda>i store. do {
       let store = bs_remove B store (word_of_nat i);
       assert_that (\<not> bs_exists B store (word_of_nat i));
       found \<leftarrow> bs_get B store (word_of_nat i);
       assert_that (found = None);
       Some store }) store;
     Some () }"

section \<open>The store of the tests is a backlog store\<close>

definition mock_store_ok :: "mock_store \<Rightarrow> bool" where
  "mock_store_ok s \<longleftrightarrow> distinct (map fst s) \<and> (\<forall>i bo. map_of s i = Some bo \<longrightarrow> mk_order_id (bo_order bo) = i)"

interpretation test_store: backlog_store mock_backlog_store mock_self_ref map_of mock_store_ok
proof
  fix s i bo f assume ok: "mock_store_ok s"
  show "bs_get mock_backlog_store s i = Some (map_of s i)" "bs_exists mock_backlog_store s i \<longleftrightarrow> map_of s i \<noteq> None"
    by (simp_all add: mock_backlog_store_def mock_store_get_def mock_store_exists_def)
  show "map_of (bs_put mock_backlog_store s bo) = (map_of s)(mock_self_ref (bo_order bo) \<mapsto> bo)"
    "map_of (bs_remove mock_backlog_store s i) = (map_of s)(i := None)"
    by (simp_all add: mock_backlog_store_def mock_store_put_def mock_store_remove_def mock_self_ref_def update_conv' delete_conv')
  show "mock_store_ok (bs_put mock_backlog_store s bo)"
    using ok distinct_update [of s "mk_order_id (bo_order bo)" bo]
    by (auto simp: mock_backlog_store_def mock_store_put_def mock_store_ok_def update_conv')
  show "mock_store_ok (bs_remove mock_backlog_store s i)"
    using ok distinct_delete [of s i] by (auto simp: mock_backlog_store_def mock_store_remove_def mock_store_ok_def delete_conv' split: if_splits)
  show "set (bs_find_orders mock_backlog_store s f) = {bo. f (bo_order bo) \<and> (\<exists>i. map_of s i = Some bo)}"
    using ok by (force simp: mock_backlog_store_def mock_store_find_def mock_store_ok_def)
  show "mock_self_ref (bo_order bo) = i" if "map_of s i = Some bo"
    using ok map_of_SomeD [OF that] by (auto simp: mock_self_ref_def mock_store_ok_def)
qed

section \<open>They pass\<close>

locale backlog_tests = priority_queue P for P :: "('q, i64 weighted_order) pqueue" +
  fixes clock :: "nat \<Rightarrow> i64" and rng :: "nat \<Rightarrow> u8"
  assumes quick: "elapsed_secs (clock i) (clock j) \<le> 10" and rng: "rng i < 100"
begin

sublocale service: backlog "suite_env P" map_of mock_store_ok
  by (intro backlog.intro) (simp_all add: suite_env_def priority_queue_axioms test_store.backlog_store_axioms)

lemma test_env_fields [simp]: "be_store (suite_env P) = mock_backlog_store" "be_pq (suite_env P) = P" "be_ref (suite_env P) = mk_order_id"
  "be_weight (suite_env P) = mk_weight"
  by (simp_all add: suite_env_def fun_eq_iff mock_self_ref_def mock_weight_def)

lemma setup_fresh: "prob \<le> 100 \<Longrightarrow> setup_backlog P l e prob = Some \<lparr> bl_store = [], bl_conf = \<lparr> order_lifespan = l, order_exec_time = e, retry_suspended_prob = prob \<rparr>,
    bl_pending = pq_new P, bl_suspended = pq_new P, bl_revisit = [] \<rparr>"
  by (simp add: setup_backlog_def backlog_new_def mock_store_new_def mock_backlog_store_def mock_store_find_def)

text \<open>A new order is stored and pending.\<close>

abbreviation "wo_of bo \<equiv> \<lparr> wo_order_id = mk_order_id (bo_order bo), wo_timestamp = bo_timestamp bo \<rparr>"

lemma put_new:
  assumes "bl_suspended b = pq_new P" "bl_revisit b = []" "mock_store_ok (bl_store b)" "map_of (bl_store b) (mk_order_id (bo_order bo)) = None"
    and "mk_order_id (bo_order bo) \<notin> pq_ids P (bl_pending b)"
  shows "backlog_put (suite_env P) b (mock_pending bo) = b \<lparr> bl_store := mock_store_put (bl_store b) bo,
    bl_pending := pq_push P (bl_pending b) (wo_of bo) (mk_weight (bo_order bo)) \<rparr>"
proof -
  have "\<not> list_ex (\<lambda>wo. wo_order_id (fst wo) = mk_order_id (bo_order bo)) (pq_iter P (bl_pending b))"
    using assms(5) by (force simp: pq_ids_def list_ex_iff)
  then show ?thesis
    using assms by (simp add: backlog_put_def mock_pending_def Let_def iter_new weighted_of_pending_def)
     (cases b; cases bo; simp add: mock_backlog_store_def mock_store_exists_def mock_store_put_def)
qed

lemma pop_best:
  assumes "mock_store_ok s" "map_of (pq_iter P q) = m" "m (wo_of bo) = Some w" "\<forall>k v. m k = Some v \<longrightarrow> k \<noteq> wo_of bo \<longrightarrow> v < w"
    and "map_of s (mk_order_id (bo_order bo)) = Some bo" "order_lifespan conf = 10" "\<And>k. elapsed_secs (now k) (bo_timestamp bo) \<le> 10"
  shows "\<exists>q'. try_pop_max_order (suite_env P) conf now 0 s q = Some (Some (bo_order bo), s, q') \<and> map_of (pq_iter P q') = m(wo_of bo := None)"
proof -
  obtain k v q' where pop: "pq_pop P q = Some ((k, v), q')"
    using pop_None [of q] assms(2,3) by (cases "pq_pop P q") auto
  have "w \<le> v" using pop_max [of q k v q'] pop assms(2,3) by simp
  moreover have "m k = Some v" using pop_entry [of q k v q'] pop assms(2) by simp
  ultimately have "k = wo_of bo" using assms(4) by (metis leD)
  moreover have "map_of (pq_iter P q') = m(k := None)" using pop_rest [of q k v q'] pop assms(2) by simp
  moreover have "bs_get mock_backlog_store s (mk_order_id (bo_order bo)) = Some (Some bo)" using service.get_ok [OF assms(1)] assms(5) by simp
  moreover have "\<not> 10 < elapsed_secs (now 0) (bo_timestamp bo)" using assms(7) [of 0] by simp
  ultimately show ?thesis using pop assms(6) by (subst try_pop_max_order.simps) simp
qed

abbreviation "ord i w \<equiv> make_order (clock i) w (ucast w)"

definition three_orders :: "u8 \<Rightarrow> (i64, mock_store, 'q) backlog_service" where
  "three_orders prob = \<lparr> bl_store = [(1, ord 0 1), (2, ord 1 2), (3, ord 2 3)],
     bl_conf = \<lparr> order_lifespan = 10, order_exec_time = 5, retry_suspended_prob = prob \<rparr>,
     bl_pending = pq_push P (pq_push P (pq_push P (pq_new P) (wo_of (ord 0 1)) 1) (wo_of (ord 1 2)) 2) (wo_of (ord 2 3)) 3,
     bl_suspended = pq_new P, bl_revisit = [] \<rparr>"

lemma make_order_fields [simp]: "mk_order_id (bo_order (make_order t i w)) = i" "mk_weight (bo_order (make_order t i w)) = w" "bo_timestamp (make_order t i w) = t"
  by (simp_all add: make_order_def)

lemma put_three:
  assumes "prob \<le> 100" "setup_backlog P 10 5 prob = Some b"
  shows "backlog_put (suite_env P) (backlog_put (suite_env P) (backlog_put (suite_env P) b (mock_pending (ord 0 1))) (mock_pending (ord 1 2))) (mock_pending (ord 2 3)) =
    three_orders prob"
proof -
  have b: "b = \<lparr> bl_store = [], bl_conf = \<lparr> order_lifespan = 10, order_exec_time = 5, retry_suspended_prob = prob \<rparr>,
    bl_pending = pq_new P, bl_suspended = pq_new P, bl_revisit = [] \<rparr>" using assms setup_fresh by simp
  have ids: "pq_ids P (pq_push P q k w) = insert (wo_order_id k) (pq_ids P q)" "pq_ids P (pq_new P) = {}" for q k w
    using service.ids_push [of q k w] service.ids_new by simp_all
  show ?thesis
    by (simp add: put_new b ids three_orders_def mock_store_put_def mock_store_ok_def)
qed

lemma store_ok: "mock_store_ok [(1, ord 0 1), (2, ord 1 2), (3, ord 2 3)]"
  by (simp add: mock_store_ok_def)

lemma pending_three: "map_of (pq_iter P (bl_pending (three_orders prob))) = [wo_of (ord 0 1) \<mapsto> 1, wo_of (ord 1 2) \<mapsto> 2, wo_of (ord 2 3) \<mapsto> 3]"
  by (simp add: three_orders_def iter_push iter_new)

lemma revisit_none: "bl_revisit b = [] \<Longrightarrow> revisit_progressing_orders E now b = Some b"
  by (cases b) (simp add: revisit_progressing_orders_def)

lemma three_fields [simp]: "bl_revisit (three_orders prob) = []" "bl_store (three_orders prob) = [(1, ord 0 1), (2, ord 1 2), (3, ord 2 3)]"
  "bl_suspended (three_orders prob) = pq_new P"
  "bl_conf (three_orders prob) = \<lparr> order_lifespan = 10, order_exec_time = 5, retry_suspended_prob = prob \<rparr>"
  by (simp_all add: three_orders_def)

lemma pop_pending_three: "\<exists>q'. backlog_try_pop (suite_env P) now (rng i) (\<lambda>k. clock (j + k)) (three_orders 0) = Some (Some (bo_order (ord 2 3)), three_orders 0 \<lparr> bl_pending := q' \<rparr>) \<and>
    map_of (pq_iter P q') = [wo_of (ord 0 1) \<mapsto> 1, wo_of (ord 1 2) \<mapsto> 2]"
proof -
  let ?m = "[wo_of (ord 0 1) \<mapsto> 1, wo_of (ord 1 2) \<mapsto> 2, wo_of (ord 2 3) \<mapsto> 3] :: i64 weighted_order \<rightharpoonup> u64"
  have less: "\<forall>k v. ?m k = Some v \<longrightarrow> k \<noteq> wo_of (ord 2 3) \<longrightarrow> v < 3" by (auto split: if_splits)
  have two: "?m(wo_of (ord 2 3) := None) = [wo_of (ord 0 1) \<mapsto> 1, wo_of (ord 1 2) \<mapsto> 2]" by (auto simp: fun_eq_iff)
  have "\<exists>q'. try_pop_max_order (suite_env P) (bl_conf (three_orders 0)) (\<lambda>k. clock (j + k)) 0 (bl_store (three_orders 0)) (bl_pending (three_orders 0)) =
      Some (Some (bo_order (ord 2 3)), bl_store (three_orders 0), q') \<and> map_of (pq_iter P q') = ?m(wo_of (ord 2 3) := None)"
    by (rule pop_best [OF _ pending_three [of 0] _ less]) (use store_ok quick in simp_all)
  then obtain q' where "try_pop_max_order (suite_env P) (bl_conf (three_orders 0)) (\<lambda>k. clock (j + k)) 0 (bl_store (three_orders 0)) (bl_pending (three_orders 0)) =
      Some (Some (bo_order (ord 2 3)), bl_store (three_orders 0), q')" "map_of (pq_iter P q') = [wo_of (ord 0 1) \<mapsto> 1, wo_of (ord 1 2) \<mapsto> 2]"
    unfolding two by blast
  then show ?thesis by (auto simp: backlog_try_pop_def revisit_none) (simp_all add: three_orders_def)
qed

lemma suspend_third:
  assumes "bl_store b = bl_store (three_orders prob)" "bl_suspended b = pq_new P"
  shows "backlog_suspend (suite_env P) b (bo_order (ord 2 3)) = Some (True, b \<lparr> bl_suspended := pq_push P (pq_new P) (wo_of (ord 2 3)) 3 \<rparr>)"
  using assms by (simp add: backlog_suspend_def) (simp add: mock_backlog_store_def mock_store_exists_def mock_store_get_def)

lemma pop_passes: "should_pop_best_order P clock rng = Some ()"
proof -
  obtain b where b: "setup_backlog P 10 5 0 = Some b" using setup_fresh [of 0] by simp
  show ?thesis
    using pop_pending_three [of "\<lambda>k. clock (3 + k)" 0 3] put_three [OF _ b]
    by (auto simp: should_pop_best_order_def b Let_def)
qed

lemma pa_0_passes: "should_not_pop_suspended_order_when_pa_0 P clock rng = Some ()"
proof -
  obtain b where b: "setup_backlog P 10 5 0 = Some b" using setup_fresh [of 0] by simp
  obtain q' where q: "backlog_try_pop (suite_env P) (\<lambda>k. clock (3 + k)) (rng 0) (\<lambda>k. clock (3 + k)) (three_orders 0) =
      Some (Some (bo_order (ord 2 3)), three_orders 0 \<lparr> bl_pending := q' \<rparr>)" "map_of (pq_iter P q') = [wo_of (ord 0 1) \<mapsto> 1, wo_of (ord 1 2) \<mapsto> 2]"
    using pop_pending_three by blast
  have less: "\<forall>k v. ([wo_of (ord 0 1) \<mapsto> 1, wo_of (ord 1 2) \<mapsto> 2] :: i64 weighted_order \<rightharpoonup> u64) k = Some v \<longrightarrow> k \<noteq> wo_of (ord 1 2) \<longrightarrow> v < 2"
    by (auto split: if_splits)
  let ?b = "three_orders 0 \<lparr> bl_pending := q', bl_suspended := pq_push P (pq_new P) (wo_of (ord 2 3)) 3 \<rparr>"
  obtain q2 where "try_pop_max_order (suite_env P) (bl_conf ?b) (\<lambda>k. clock (6 + k)) 0 (bl_store ?b) q' = Some (Some (bo_order (ord 1 2)), bl_store ?b, q2)"
    using pop_best [where bo = "ord 1 2" and s = "bl_store ?b" and conf = "bl_conf ?b" and now = "\<lambda>k. clock (6 + k)", OF _ q(2) _ less] store_ok quick by auto
  then have "\<exists>b'. backlog_try_pop (suite_env P) (\<lambda>k. clock (6 + k)) (rng 1) (\<lambda>k. clock (6 + k)) ?b = Some (Some (bo_order (ord 1 2)), b')"
    by (simp add: backlog_try_pop_def revisit_none)
  then show ?thesis using q(1) put_three [OF _ b] suspend_third [of "three_orders 0 \<lparr> bl_pending := q' \<rparr>" 0]
    by (auto simp: should_not_pop_suspended_order_when_pa_0_def b Let_def)
qed

lemma pa_100_passes: "should_always_pop_suspended_order_when_pa_100 P clock rng = Some ()"
proof -
  obtain b where b: "setup_backlog P 10 5 100 = Some b" using setup_fresh [of 100] by simp
  have r: "\<not> 100 \<le> rng i" for i using rng [of i] by (simp add: not_le)
  have "try_pop_max_order (suite_env P) conf now k s (pq_new P) = Some (None, s, pq_new P)" for conf now k s
    using pop_None [of "pq_new P"] iter_new by (subst try_pop_max_order.simps) simp
  then have pop1: "backlog_try_pop (suite_env P) (\<lambda>k. clock (3 + k)) (rng 0) (\<lambda>k. clock (3 + k)) (three_orders 100) = Some (None, three_orders 100)"
    by (simp add: backlog_try_pop_def revisit_none r)
  let ?q = "pq_push P (pq_new P) (wo_of (ord 2 3)) 3"
  let ?b = "three_orders 100 \<lparr> bl_suspended := ?q \<rparr>"
  have m: "map_of (pq_iter P ?q) = [wo_of (ord 2 3) \<mapsto> 3]" by (simp add: iter_push iter_new)
  have less: "\<forall>k v. ([wo_of (ord 2 3) \<mapsto> 3] :: i64 weighted_order \<rightharpoonup> u64) k = Some v \<longrightarrow> k \<noteq> wo_of (ord 2 3) \<longrightarrow> v < 3" by auto
  obtain q2 where "try_pop_max_order (suite_env P) (bl_conf ?b) (\<lambda>k. clock (6 + k)) 0 (bl_store ?b) ?q = Some (Some (bo_order (ord 2 3)), bl_store ?b, q2)"
    using pop_best [where bo = "ord 2 3" and s = "bl_store ?b" and conf = "bl_conf ?b" and now = "\<lambda>k. clock (6 + k)", OF _ m _ less] store_ok quick by auto
  then have "\<exists>b'. backlog_try_pop (suite_env P) (\<lambda>k. clock (6 + k)) (rng 1) (\<lambda>k. clock (6 + k)) ?b = Some (Some (bo_order (ord 2 3)), b')"
    by (simp add: backlog_try_pop_def revisit_none r)
  then show ?thesis using pop1 put_three [OF _ b] suspend_third [of "three_orders 100" 100]
    by (auto simp: should_always_pop_suspended_order_when_pa_100_def b Let_def)
qed

lemma single_passes: "should_suspend_existing_order P clock = Some ()" "should_check_later_existing_order P clock = Some ()"
  "should_not_suspend_non_existent_order P clock = Some ()" "should_not_check_later_non_existent_order P clock = Some ()"
proof -
  obtain b where b: "setup_backlog P 10 5 50 = Some b" "bl_store b = []" "bl_suspended b = pq_new P" "bl_revisit b = []" "bl_pending b = pq_new P"
    using setup_fresh [of 50] by simp
  have "backlog_put (suite_env P) b (mock_pending (ord 0 1)) = b \<lparr> bl_store := mock_store_put (bl_store b) (ord 0 1),
    bl_pending := pq_push P (bl_pending b) (wo_of (ord 0 1)) (mk_weight (bo_order (ord 0 1))) \<rparr>"
    by (rule put_new) (use b service.ids_new in \<open>simp_all add: mock_store_ok_def\<close>)
  then show "should_suspend_existing_order P clock = Some ()" "should_check_later_existing_order P clock = Some ()"
    by (simp_all add: should_suspend_existing_order_def should_check_later_existing_order_def b Let_def backlog_suspend_def backlog_check_later_def mock_progressing_def)
      (simp_all add: mock_backlog_store_def mock_store_exists_def mock_store_get_def mock_store_put_def)
  show "should_not_suspend_non_existent_order P clock = Some ()" "should_not_check_later_non_existent_order P clock = Some ()"
    by (simp_all add: should_not_suspend_non_existent_order_def should_not_check_later_non_existent_order_def b Let_def backlog_suspend_def backlog_check_later_def)
      (simp_all add: mock_backlog_store_def mock_store_exists_def b)
qed

end

section \<open>The store over a database\<close>

locale store_tests = rocks_backlog R ci co mock_self_ref for R :: "'db rocksdb" and ci :: "i64 codec" and co :: "mock_order backlog_order codec" +
  fixes store :: 'db and clock :: "nat \<Rightarrow> i64"
  assumes fresh: "rocks_ok R ci co mock_self_ref store" and close: "\<bar>sint (clock i) - sint (clock j)\<bar> < 2"
begin

abbreviation "B \<equiv> backlog_store_rocksdb R ci co mock_self_ref"
abbreviation "content \<equiv> rocks_content R ci co"
abbreviation "ok \<equiv> rocks_ok R ci co mock_self_ref"

lemma small_ids: "i < 30 \<Longrightarrow> j < 30 \<Longrightarrow> (word_of_nat i :: i64) = word_of_nat j \<longleftrightarrow> i = j"
  by (simp add: word_of_nat_eq_iff take_bit_nat_eq_self)

lemma rocksdb_passes: "test_rocksdb_backlog B store clock = Some ()"
proof -
  let ?o = "\<lambda>i. make_order (clock i) (word_of_nat i) (word_of_nat i)"
  have ref: "mock_self_ref (bo_order (make_order t i w)) = i" for t i w by (simp add: mock_self_ref_def make_order_def)
  have "\<exists>s. for_each [0..<30] (\<lambda>i store. Some (bs_put B store (?o i))) store = Some s \<and>
      (ok s \<and> (\<forall>i < 30. content s (word_of_nat i) = Some (?o i)))"
  proof (rule for_each_invariant [where I = "\<lambda>j s. ok s \<and> (\<forall>i < j. content s (word_of_nat i) = Some (?o i))"])
    fix j s assume "0 \<le> j" "j < 30" and I: "ok s \<and> (\<forall>i < j. content s (word_of_nat i) = Some (?o i))"
    then show "\<exists>s'. Some (bs_put B s (?o j)) = Some s' \<and> ok s' \<and> (\<forall>i < Suc j. content s' (word_of_nat i) = Some (?o i))"
      using put_ok [of s "?o j"] put_content [of s "?o j"] by (auto simp: less_Suc_eq ref small_ids)
  qed (use fresh in simp_all)
  then obtain s where s: "for_each [0..<30] (\<lambda>i store. Some (bs_put B store (?o i))) store = Some s" "ok s"
    "\<And>i. i < 30 \<Longrightarrow> content s (word_of_nat i) = Some (?o i)" by blast
  let ?check = "\<lambda>i. do {
       assert_that (bs_exists B s (word_of_nat i));
       found \<leftarrow> bs_get B s (word_of_nat i);
       ord \<leftarrow> found;
       assert_that (bo_order (make_order (clock (30 + i)) (word_of_nat i) (word_of_nat i)) = bo_order ord);
       assert_that (\<bar>sint (bo_timestamp (make_order (clock (30 + i)) (word_of_nat i) (word_of_nat i))) - sint (bo_timestamp ord)\<bar> < 2) }"
  have checks: "check_each [0..<30] ?check = Some ()"
    using s close by (intro check_each_passes) (simp add: exists_iff get_ok make_order_def)
  let ?f = "\<lambda>i store. do {
       let store = bs_remove B store (word_of_nat i);
       assert_that (\<not> bs_exists B store (word_of_nat i));
       found \<leftarrow> bs_get B store (word_of_nat i);
       assert_that (found = None);
       Some store }"
  have "\<exists>s'. for_each [0..<30] ?f s = Some s' \<and> ok s'"
  proof (rule for_each_elements)
    fix i c assume "ok c"
    then show "\<exists>c'. ?f i c = Some c' \<and> ok c'"
      using remove_ok [of c] by (simp add: exists_iff get_ok remove_content assert_that_def)
  qed (rule s(2))
  then show ?thesis using s(1) checks by (auto simp: test_rocksdb_backlog_def Let_def)
qed

end

section \<open>Instance\<close>

definition mock_backlog_order_sd :: "mock_order backlog_order sd_codec" where
  "mock_backlog_order_sd = iso_sd (\<lambda>b. (mk_order_id (bo_order b), mk_weight (bo_order b), bo_timestamp b))
     (\<lambda>(i, w, t). make_order t i w) (pair_sd (word_sd 8) (pair_sd (word_sd 8) (word_sd 8)))"

interpretation mock_backlog_order_bytes: self_delimiting mock_backlog_order_sd
  unfolding mock_backlog_order_sd_def by (rule iso_sd_laws) (simp_all add: sd_laws word_sd_laws make_order_def)

interpretation test_rocks: rocks_backlog mem_rocksdb "codec_of u64_sd" "codec_of mock_backlog_order_sd" mock_self_ref
  by (intro rocks_backlog.intro mem.rocksdb_laws_axioms self_delimiting.codec_of_laws [OF word_sds(2)] mock_backlog_order_bytes.codec_of_laws)

interpretation suite: backlog_tests list_pq "\<lambda>_. 5" "\<lambda>_. 7"
  by (intro backlog_tests.intro backlog_tests_axioms.intro list_pq.priority_queue_axioms) (simp_all add: elapsed_secs_def)

interpretation store_suite: store_tests mem_rocksdb "codec_of u64_sd" "codec_of mock_backlog_order_sd" RBT.empty "\<lambda>_. 5"
  by (intro store_tests.intro store_tests_axioms.intro test_rocks.rocks_backlog_axioms) (simp_all add: rocks_ok_def mem_rocksdb_def)

section \<open>Result\<close>

text \<open>The tests of the backlog pass over every priority queue and every database that keep their laws, while the readings of the
  clock lie within the lifespan of an order and, for the store, within two seconds: an existing order can be suspended or
  checked later and a missing one cannot, the best pending order is popped, the suspended one if and only if the
  probability is 100 per cent and not zero, and the store gives back and forgets what is put into it.\<close>

theorem backlog_tests_pass:
  assumes "priority_queue P" "\<And>i j. elapsed_secs (clock i) (clock j) \<le> 10" "\<And>i j. \<bar>sint (clock i) - sint (clock j)\<bar> < 2" "\<And>i. rng i < 100"
    and "rocks_backlog R ci co" "rocks_ok R ci co mock_self_ref store"
  shows "should_suspend_existing_order P clock = Some () \<and> should_check_later_existing_order P clock = Some () \<and>
    should_not_suspend_non_existent_order P clock = Some () \<and> should_not_check_later_non_existent_order P clock = Some () \<and>
    should_pop_best_order P clock rng = Some () \<and> should_always_pop_suspended_order_when_pa_100 P clock rng = Some () \<and>
    should_not_pop_suspended_order_when_pa_0 P clock rng = Some () \<and> test_rocksdb_backlog (backlog_store_rocksdb R ci co mock_self_ref) store clock = Some ()"
proof -
  have T: "backlog_tests P clock rng" using assms by (intro backlog_tests.intro backlog_tests_axioms.intro) simp_all
  have S: "store_tests R ci co store clock" using assms by (intro store_tests.intro store_tests_axioms.intro) simp_all
  show ?thesis
    by (simp add: backlog_tests.single_passes [OF T] backlog_tests.pop_passes [OF T] backlog_tests.pa_100_passes [OF T] backlog_tests.pa_0_passes [OF T]
        store_tests.rocksdb_passes [OF S])
qed

theorem backlog_tests_pass_witness: "should_always_pop_suspended_order_when_pa_100 list_pq (\<lambda>_. 5) (\<lambda>_. 7) = Some ()"
proof -
  have "rocks_ok mem_rocksdb (codec_of u64_sd) (codec_of mock_backlog_order_sd) mock_self_ref RBT.empty"
    by (simp add: rocks_ok_def rocks_content_def mem_rocksdb_def)
  from backlog_tests_pass [OF list_pq.priority_queue_axioms _ _ _ test_rocks.rocks_backlog_axioms this, of "\<lambda>_. 5" "\<lambda>_. 7"]
  show ?thesis by (simp add: elapsed_secs_def)
qed

end
