(* ===== verification/Test_Bundles.thy ===== *)
theory Test_Bundles
  imports Bundle_Repo Test_Support
begin

text \<open>
  The tests of the repository of bundles (\<open>spectrum-offchain-lm/src/bundle.rs\<close> and \<open>bundle/rocksdb.rs\<close>), as functions of the
  repository under test and of the values drawn for each generated bundle.  \<open>build\<close> is \<open>ErgoBoxCandidateBuilder::build\<close> of \<open>ergo-lib\<close>,
  which can refuse a candidate.

  Results: over every store that keeps the documented laws the tests pass whenever \<open>build\<close> accepts the drawn values and the
  bundles differ in their boxes and in their keys.
\<close>

section \<open>Generated bundles\<close>

text \<open>What is drawn at random for one bundle.\<close>

record bundle_draw =
  bd_value :: u64
  bd_height :: u32
  bd_vlq :: token
  bd_tmp :: token
  bd_key :: token
  bd_tx :: tx_id

definition gen_candidate :: "ergo_lib \<Rightarrow> pool_id \<Rightarrow> bundle_draw \<Rightarrow> ergo_box_candidate panics" where
  "gen_candidate E pool_id d = do {
     bs \<leftarrow> base16_decode E ''0008cd03b196b978d77488fba3138876a40a40b9a046c2fbb5ecfa13d4ecf8f1eec52aec'';
     tree \<leftarrow> parse_tree E bs;
     sigma_prop \<leftarrow> prove_dlog E tree;
     Some \<lparr> bx_value = bd_value d, bx_tree = BUNDLE_VALIDATOR E, bx_tokens = Some [bd_vlq d, bd_tmp d, bd_key d],
       bx_regs = [ConstBytes (as_bytes ''''), ConstBytes (as_bytes ''''), ConstProp sigma_prop, ConstBytes (digest_bytes pool_id)],
       bx_height = bd_height d \<rparr> }"

definition gen_bundles :: "ergo_lib \<Rightarrow> (ergo_box_candidate \<Rightarrow> ergo_box_candidate option) \<Rightarrow> pool_id \<Rightarrow> u32 \<Rightarrow> bundle_draw list \<Rightarrow> bundle_box list panics" where
  "gen_bundles E build pool_id epoch_ix draws = for_each draws (\<lambda>d res. do {
     c \<leftarrow> gen_candidate E pool_id d;
     candidate \<leftarrow> build c;
     let eb = box_of_candidate candidate (new_box_id E candidate (bd_tx d) 0);
     b \<leftarrow> bundle_try_from_box E eb;
     Some (res @ [AsBox eb \<lparr> ib_bundle = b, ib_lower_epoch_ix = epoch_ix \<rparr>]) }) []"

section \<open>The tests\<close>

type_synonym 'r bundle_test = "'r bundle_repo_ops \<Rightarrow> 'r \<Rightarrow> bundle_box list \<Rightarrow> unit panics"

definition test_bundle_repo_may_exist :: "'r bundle_test" where
  "test_bundle_repo_may_exist R client bundles = do {
     let box_ids = map (\<lambda>b. box_id (as_bx b)) bundles;
     client \<leftarrow> for_each bundles (\<lambda>bundle client. Some (bro_put_predicted R client \<lparr> tr_state = Predicted bundle, tr_prev_state_id = None \<rparr>)) client;
     check_each box_ids (\<lambda>b. assert_that (bro_may_exist R client b)) }"

definition test_bundle_repo_predicted :: "'r bundle_test" where
  "test_bundle_repo_predicted R client bundles = do {
     let box_ids = map (\<lambda>b. box_id (as_bx b)) bundles;
     client \<leftarrow> for_each [1..<length bundles] (\<lambda>i client. do {
       b \<leftarrow> nth_opt bundles i;
       prev \<leftarrow> nth_opt bundles (i - 1);
       Some (bro_put_predicted R client \<lparr> tr_state = Predicted b, tr_prev_state_id = Some (box_id (as_bx prev)) \<rparr>) }) client;
     check_each [1..<length bundles] (\<lambda>i. do {
       b \<leftarrow> nth_opt box_ids i;
       prev \<leftarrow> nth_opt box_ids (i - 1);
       assert_that (bro_get_prediction_predecessor R client b = Some prev) }) }"

definition test_bundle_repo_confirmed :: "'r bundle_test" where
  "test_bundle_repo_confirmed R client bundles = do {
     client \<leftarrow> for_each bundles (\<lambda>b client. Some (bro_put_confirmed R client (Confirmed b))) client;
     check_each bundles (\<lambda>i_bundle. do {
       pred \<leftarrow> bro_get_last_confirmed R client (bundle_id (ib_bundle (as_val i_bundle)));
       assert_that (as_bx (the_confirmed pred) = as_bx i_bundle) }) }"

definition test_bundle_repo_invalidate :: "'r bundle_test" where
  "test_bundle_repo_invalidate R client bundles = map_option (\<lambda>_. ()) (for_each [1..<length bundles] (\<lambda>i client. do {
     b \<leftarrow> nth_opt bundles i;
     prev \<leftarrow> nth_opt bundles (i - 1);
     let client = bro_put_predicted R client \<lparr> tr_state = Predicted b, tr_prev_state_id = Some (box_id (as_bx prev)) \<rparr>;
     let client = bro_invalidate R client (indexed_self_state_ref (as_val b));
     let predicted = bro_get_last_predicted R client (indexed_self_ref (as_val b));
     assert_that (predicted = None);
     Some client }) client)"

definition test_bundle_repo_select ::
  "'r bundle_repo_ops \<Rightarrow> 'r \<Rightarrow> pool_id \<Rightarrow> pool_id \<Rightarrow> bundle_box list \<Rightarrow> bundle_box list \<Rightarrow> bundle_box list \<Rightarrow> bundle_box list \<Rightarrow> unit panics" where
  "test_bundle_repo_select R client pool_id_0 pool_id_1 pool_0_epoch_1 pool_0_epoch_2 pool_1_epoch_1 pool_1_epoch_2 = do {
     let all_bundles = pool_0_epoch_1 @ pool_0_epoch_2 @ pool_1_epoch_1 @ pool_1_epoch_2;
     client \<leftarrow> for_each all_bundles (\<lambda>b client. Some (bro_put_confirmed R client (Confirmed b))) client;
     pool_0_ep_1_res \<leftarrow> bro_select R client pool_id_0 1;
     assert_that (pool_0_ep_1_res \<noteq> []);
     check_each pool_0_epoch_1 (\<lambda>bun. assert_that (list_ex (\<lambda>bid. bundle_id (ib_bundle (as_val bun)) = bid) pool_0_ep_1_res));
     pool_1_ep_2_res \<leftarrow> bro_select R client pool_id_1 2;
     assert_that (pool_1_ep_2_res \<noteq> []);
     check_each pool_1_epoch_2 (\<lambda>bun. assert_that (list_ex (\<lambda>bid. bundle_id (ib_bundle (as_val bun)) = bid) pool_1_ep_2_res)) }"

text \<open>The tests on generated bundles; the pools of \<open>select\<close> are those of the source.\<close>

definition bundle_suite :: "ergo_lib \<Rightarrow> (ergo_box_candidate \<Rightarrow> ergo_box_candidate option) \<Rightarrow> 'r bundle_test \<Rightarrow> 'r bundle_repo_ops \<Rightarrow> 'r \<Rightarrow> pool_id \<Rightarrow> bundle_draw list \<Rightarrow> unit panics" where
  "bundle_suite E build test R client pool_id_0 draws = do { bundles \<leftarrow> gen_bundles E build pool_id_0 0 draws; test R client bundles }"

definition select_suite :: "ergo_lib \<Rightarrow> (ergo_box_candidate \<Rightarrow> ergo_box_candidate option) \<Rightarrow> 'r bundle_repo_ops \<Rightarrow> 'r \<Rightarrow>
    bundle_draw list \<Rightarrow> bundle_draw list \<Rightarrow> bundle_draw list \<Rightarrow> bundle_draw list \<Rightarrow> unit panics" where
  "select_suite E build R client d01 d02 d11 d12 = do {
     let pool_id_0 = from_be_bytes (replicate 32 0);
     let pool_id_1 = from_be_bytes (replicate 32 1);
     pool_0_epoch_1 \<leftarrow> gen_bundles E build pool_id_0 1 d01;
     pool_0_epoch_2 \<leftarrow> gen_bundles E build pool_id_0 2 d02;
     pool_1_epoch_1 \<leftarrow> gen_bundles E build pool_id_1 1 d11;
     pool_1_epoch_2 \<leftarrow> gen_bundles E build pool_id_1 2 d12;
     test_bundle_repo_select R client pool_id_0 pool_id_1 pool_0_epoch_1 pool_0_epoch_2 pool_1_epoch_1 pool_1_epoch_2 }"

definition destructure_key :: "'db bundle_env \<Rightarrow> unit panics" where
  "destructure_key X = do {
     let pool_id = from_be_bytes (replicate 32 0);
     let bid = from_be_bytes (replicate 32 1);
     let epoch_ix = 99;
     let key = epoch_index_key X pool_id epoch_ix bid;
     (pool, bundle, epoch) \<leftarrow> destructure_epoch_index_key X key;
     assert_that (pool = pool_id);
     assert_that (bundle = bid);
     assert_that (epoch = epoch_ix) }"

section \<open>What is generated\<close>

definition drawn_as :: "ergo_lib \<Rightarrow> pool_id \<Rightarrow> u32 \<Rightarrow> bundle_draw \<Rightarrow> bundle_box \<Rightarrow> bool" where
  "drawn_as E p e d b \<longleftrightarrow> indexed_self_ref (as_val b) = tok_id (bd_key d) \<and> indexed_self_state_ref (as_val b) = box_id (as_bx b) \<and>
     box_id (as_bx b) = new_box_id E (the (gen_candidate E p d)) (bd_tx d) 0 \<and> index_entry (as_val b) = (p, e, tok_id (bd_key d))"

lemma gen_bundles_facts:
  assumes "\<And>d. d \<in> set draws \<Longrightarrow> \<exists>c. gen_candidate E p d = Some c \<and> build c = Some c"
  shows "\<exists>bundles. gen_bundles E build p e draws = Some bundles \<and> list_all2 (drawn_as E p e) draws bundles"
proof -
  let ?f = "\<lambda>d res. do {
       c \<leftarrow> gen_candidate E p d;
       candidate \<leftarrow> build c;
       let eb = box_of_candidate candidate (new_box_id E candidate (bd_tx d) 0);
       b \<leftarrow> bundle_try_from_box E eb;
       Some (res @ [AsBox eb \<lparr> ib_bundle = b, ib_lower_epoch_ix = e \<rparr>]) }"
  have step: "\<exists>b. (\<forall>res. ?f d res = Some (res @ [b])) \<and> drawn_as E p e d b"
    if "d \<in> set draws" for d
  proof -
    obtain c where c: "gen_candidate E p d = Some c" "build c = Some c" using assms [OF \<open>d \<in> set draws\<close>] by blast
    let ?eb = "box_of_candidate c (new_box_id E c (bd_tx d) 0)"
    have regs: "bx_tree c = BUNDLE_VALIDATOR E" "bx_tokens c = Some [bd_vlq d, bd_tmp d, bd_key d]"
      "\<exists>sp. bx_regs c = [ConstBytes [], ConstBytes [], ConstProp sp, ConstBytes (digest_bytes p)]"
      using c(1) by (auto simp: gen_candidate_def as_bytes_def bind_eq_Some_conv)
    have "\<exists>b. bundle_try_from_box E ?eb = Some b \<and> ta_id (sb_bundle_key_id b) = tok_id (bd_key d) \<and> sb_state_id b = box_id ?eb \<and> sb_pool_id b = p"
      using regs by (auto simp: bundle_try_from_box_def nth_opt_def get_register_nth_opt from_utf8_def Let_def)
    then show ?thesis using c
      by (auto simp: drawn_as_def indexed_self_ref_def indexed_self_state_ref_def bundle_self_ref_def bundle_self_state_ref_def bundle_id_def index_entry_def)
  qed
  have "\<exists>bs. for_each draws ?f [] = Some ([] @ bs) \<and> list_all2 (drawn_as E p e) draws bs" by (rule for_each_collect) (rule step)
  then show ?thesis by (simp add: gen_bundles_def)
qed

section \<open>They pass\<close>

locale bundle_tests = bundle_repo X for X :: "'db bundle_env" +
  fixes db :: 'db
  assumes fresh: "bundle_index_wf X db"
    "abs_bundles_of X db = \<lparr> ab_states = Map.empty, ab_links = Map.empty, ab_predicted = Map.empty, ab_confirmed = Map.empty, ab_index = {} \<rparr>"
begin

abbreviation "R \<equiv> bundle_repo_rocksdb X"
abbreviation "sid \<equiv> \<lambda>b :: bundle_box. indexed_self_state_ref (as_val b)"
abbreviation "ref \<equiv> \<lambda>b :: bundle_box. indexed_self_ref (as_val b)"

definition "fits bs \<longleftrightarrow> distinct (map sid bs) \<and> distinct (map ref bs) \<and> (\<forall>b \<in> set bs. sid b = box_id (as_bx b))" for bs :: "bundle_box list"

lemma fits_nth: "fits bs \<Longrightarrow> i < length bs \<Longrightarrow> j < length bs \<Longrightarrow> sid (bs ! i) = sid (bs ! j) \<longleftrightarrow> i = j"
  "fits bs \<Longrightarrow> i < length bs \<Longrightarrow> j < length bs \<Longrightarrow> ref (bs ! i) = ref (bs ! j) \<longleftrightarrow> i = j"
  "fits bs \<Longrightarrow> i < length bs \<Longrightarrow> box_id (as_bx (bs ! i)) = sid (bs ! i)"
  using nth_eq_iff_index_eq [of "map sid bs" i j] nth_eq_iff_index_eq [of "map ref bs" i j] by (simp_all add: fits_def)

lemma put_abs: "abs_bundles_of X (bro_put_predicted R c t) = abs_bundle_op (BundlePredicted t) (abs_bundles_of X c)"
  "abs_bundles_of X (bro_put_confirmed R c (Confirmed b)) = abs_bundle_op (BundleConfirmed b) (abs_bundles_of X c)"
  "abs_bundles_of X (bro_invalidate R c s) = abs_bundle_op (BundleInvalidate s) (abs_bundles_of X c)"
  using abs_apply [of "BundlePredicted t" c] abs_apply [of "BundleConfirmed b" c] abs_apply [of "BundleInvalidate s" c] by simp_all

lemma may_exist_stored: "ab_states (abs_bundles_of X c) s \<noteq> None \<Longrightarrow> bro_may_exist R c s"
  using rocksdb_laws.may_exist [OF db_laws] by (auto simp: abs_bundles_of_def bundle_get_state_def bundle_may_exist_def bundle_repo_rocksdb_def split: bind_split_asm)

lemma may_exist_passes:
  assumes "fits bs"
  shows "test_bundle_repo_may_exist R db bs = Some ()"
proof -
  have "\<exists>c. for_each bs (\<lambda>bundle client. Some (bro_put_predicted R client \<lparr> tr_state = Predicted bundle, tr_prev_state_id = None \<rparr>)) db = Some c \<and>
      (\<forall>j < length bs. ab_states (abs_bundles_of X c) (sid (bs ! j)) \<noteq> None)"
    by (rule for_each_list) (auto simp: put_abs Let_def less_Suc_eq)
  then show ?thesis using assms
    by (auto simp: test_bundle_repo_may_exist_def fits_nth(3) in_set_conv_nth intro!: check_each_passes may_exist_stored)
qed

lemma predicted_passes:
  assumes "fits bs" "bs \<noteq> []"
  shows "test_bundle_repo_predicted R db bs = Some ()"
proof -
  let ?f = "\<lambda>i client. do {
       b \<leftarrow> nth_opt bs i;
       prev \<leftarrow> nth_opt bs (i - 1);
       Some (bro_put_predicted R client \<lparr> tr_state = Predicted b, tr_prev_state_id = Some (box_id (as_bx prev)) \<rparr>) }"
  have "\<exists>c. for_each [1..<length bs] ?f db = Some c \<and>
      (\<forall>i. 1 \<le> i \<and> i < length bs \<longrightarrow> ab_links (abs_bundles_of X c) (sid (bs ! i)) = Some (sid (bs ! (i - Suc 0))))"
  proof (rule for_each_invariant [where I = "\<lambda>j c. \<forall>i. 1 \<le> i \<and> i < j \<longrightarrow> ab_links (abs_bundles_of X c) (sid (bs ! i)) = Some (sid (bs ! (i - Suc 0)))"])
    fix j c assume "1 \<le> j" "j < length bs" "\<forall>i. 1 \<le> i \<and> i < j \<longrightarrow> ab_links (abs_bundles_of X c) (sid (bs ! i)) = Some (sid (bs ! (i - Suc 0)))"
    then show "\<exists>c'. ?f j c = Some c' \<and> (\<forall>i. 1 \<le> i \<and> i < Suc j \<longrightarrow> ab_links (abs_bundles_of X c') (sid (bs ! i)) = Some (sid (bs ! (i - Suc 0))))"
      using fits_nth [OF assms(1)] by (auto simp: nth_opt_in put_abs Let_def less_Suc_eq)
  qed (use assms(2) in \<open>simp_all add: Suc_le_eq\<close>)
  then obtain c where c: "for_each [1..<length bs] ?f db = Some c"
    "\<And>i. 1 \<le> i \<Longrightarrow> i < length bs \<Longrightarrow> ab_links (abs_bundles_of X c) (sid (bs ! i)) = Some (sid (bs ! (i - Suc 0)))" by blast
  have "bro_get_prediction_predecessor R c s = ab_links (abs_bundles_of X c) s" for s by (simp add: abs_bundles_of_def bundle_repo_rocksdb_def)
  then show ?thesis using c fits_nth(3) [OF assms(1)]
    by (auto simp: test_bundle_repo_predicted_def Let_def nth_opt_in intro!: check_each_passes)
qed

lemma confirmed_passes:
  assumes "fits bs"
  shows "test_bundle_repo_confirmed R db bs = Some ()"
proof -
  have "\<exists>c. for_each bs (\<lambda>b client. Some (bro_put_confirmed R client (Confirmed b))) db = Some c \<and>
      (\<forall>j < length bs. ab_states (abs_bundles_of X c) (sid (bs ! j)) = Some (bs ! j) \<and> ab_confirmed (abs_bundles_of X c) (ref (bs ! j)) = Some (sid (bs ! j)))"
    by (rule for_each_list) (auto simp: put_abs Let_def less_Suc_eq fits_nth [OF assms])
  then obtain c where c: "for_each bs (\<lambda>b client. Some (bro_put_confirmed R client (Confirmed b))) db = Some c"
    "\<And>b. b \<in> set bs \<Longrightarrow> ab_states (abs_bundles_of X c) (sid b) = Some b \<and> ab_confirmed (abs_bundles_of X c) (ref b) = Some (sid b)"
    by (auto simp: in_set_conv_nth)
  have ref: "bundle_id (ib_bundle (as_val b)) = ref b" for b :: bundle_box by (simp add: indexed_self_ref_def bundle_self_ref_def)
  have "bro_get_last_confirmed R c (ref b) = Some (Confirmed (as_box_map ib_bundle b))" if "b \<in> set bs" for b
    using c(2) [OF that] get_last_confirmed_abs [of c "ref b"] by (simp add: bundle_repo_rocksdb_def)
  moreover have "as_bx (as_box_map ib_bundle b) = as_bx b" for b :: bundle_box by (cases b) (simp add: as_box_map_def)
  ultimately show ?thesis using c(1) by (auto simp: test_bundle_repo_confirmed_def ref intro!: check_each_passes)
qed

lemma invalidate_passes:
  assumes "fits bs" "bs \<noteq> []"
  shows "test_bundle_repo_invalidate R db bs = Some ()"
proof -
  let ?f = "\<lambda>i client. do {
     b \<leftarrow> nth_opt bs i;
     prev \<leftarrow> nth_opt bs (i - 1);
     let client = bro_put_predicted R client \<lparr> tr_state = Predicted b, tr_prev_state_id = Some (box_id (as_bx prev)) \<rparr>;
     let client = bro_invalidate R client (sid b);
     let predicted = bro_get_last_predicted R client (ref b);
     assert_that (predicted = None);
     Some client }"
  have "\<exists>c. for_each [1..<length bs] ?f db = Some c \<and> True"
  proof (rule for_each_elements)
    fix i c assume i: "i \<in> set [1..<length bs]"
    let ?c = "bro_invalidate R (bro_put_predicted R c \<lparr> tr_state = Predicted (bs ! i), tr_prev_state_id = Some (box_id (as_bx (bs ! (i - Suc 0)))) \<rparr>) (sid (bs ! i))"
    have "bro_get_last_predicted R ?c (ref (bs ! i)) = None"
      using get_last_predicted_abs [of ?c "ref (bs ! i)"] by (simp add: bundle_repo_rocksdb_def [THEN arg_cong, of bro_get_last_predicted] put_abs Let_def)
    then show "\<exists>c'. ?f i c = Some c' \<and> True"
    proof -
      have "i < length bs" "i - Suc 0 < length bs" using i by auto
      then show ?thesis using \<open>bro_get_last_predicted R ?c (ref (bs ! i)) = None\<close> by (simp add: nth_opt_in Let_def)
    qed
  qed simp
  then obtain c where "for_each [1..<length bs] ?f db = Some c" by blast
  then show ?thesis by (simp add: test_bundle_repo_invalidate_def)
qed

lemma select_passes:
  assumes "fits (b1 @ b2 @ b3 @ b4)" "b1 \<noteq> []" "b4 \<noteq> []"
    and "\<And>b. b \<in> set b1 \<Longrightarrow> index_entry (as_val b) = (p, 1, ref b)" "\<And>b. b \<in> set b2 \<Longrightarrow> index_entry (as_val b) = (p, 2, ref b)"
    and "\<And>b. b \<in> set b3 \<Longrightarrow> index_entry (as_val b) = (q, 1, ref b)" "\<And>b. b \<in> set b4 \<Longrightarrow> index_entry (as_val b) = (q, 2, ref b)"
  shows "test_bundle_repo_select R db p q b1 b2 b3 b4 = Some ()"
proof -
  let ?bs = "b1 @ b2 @ b3 @ b4"
  let ?I = "\<lambda>k c. bundle_index_wf X c \<and> (\<forall>j < k. index_entry (as_val (?bs ! j)) \<in> ab_index (abs_bundles_of X c))"
  have "\<exists>c. for_each ?bs (\<lambda>b client. Some (bro_put_confirmed R client (Confirmed b))) db = Some c \<and> ?I (length ?bs) c"
  proof (rule for_each_list)
    fix k c assume k: "k < length ?bs" and I: "?I k c"
    let ?b = "?bs ! k"
    have "?b \<in> set b1 \<union> set b2 \<union> set b3 \<union> set b4" using nth_mem [OF k] by auto
    then have "ib_lower_epoch_ix (as_val ?b) \<in> {1, 2}" using assms(4-7) by (auto simp: index_entry_def)
    then have "saturating_sub (ib_lower_epoch_ix (as_val ?b)) 1 \<noteq> ib_lower_epoch_ix (as_val ?b)" by (auto simp: saturating_sub_def)
    then have "index_entry (as_val (?bs ! j)) \<noteq> index_entry (as_val ?b \<lparr> ib_lower_epoch_ix := saturating_sub (ib_lower_epoch_ix (as_val ?b)) 1 \<rparr>)" if "j \<le> k" for j
      using that k fits_nth(2) [OF assms(1), of j k] by (cases "j = k") (auto simp: index_entry_def)
    then have "?I (Suc k) (bro_put_confirmed R c (Confirmed ?b))"
      using I index_wf_apply [of c "BundleConfirmed ?b"] by (auto simp: put_abs Let_def less_Suc_eq simp del: nth_append)
    then show "\<exists>c'. Some (bro_put_confirmed R c (Confirmed ?b)) = Some c' \<and> ?I (Suc k) c'" by blast
  qed (use fresh in simp)
  then obtain c where c: "for_each ?bs (\<lambda>b client. Some (bro_put_confirmed R client (Confirmed b))) db = Some c" "bundle_index_wf X c"
    "\<And>b. b \<in> set ?bs \<Longrightarrow> index_entry (as_val b) \<in> ab_index (abs_bundles_of X c)" by (metis in_set_conv_nth)
  have sel: "\<exists>ids. bro_select R c r e = Some ids \<and> ids \<noteq> [] \<and> (\<forall>b \<in> set bs. list_ex (\<lambda>bid. bundle_id (ib_bundle (as_val b)) = bid) ids)"
    if "bs \<noteq> []" "set bs \<subseteq> set ?bs" "\<And>b. b \<in> set bs \<Longrightarrow> index_entry (as_val b) = (r, e, ref b)" for r e bs
  proof -
    obtain ids where ids: "bundle_select X c r e = Some ids" "set ids = {i. (r, e, i) \<in> ab_index (abs_bundles_of X c)}"
      using select_exact [OF c(2)] by blast
    have "ref b \<in> set ids" if "b \<in> set bs" for b
      using c(3) [of b] that \<open>set bs \<subseteq> set ?bs\<close> \<open>\<And>b. b \<in> set bs \<Longrightarrow> index_entry (as_val b) = (r, e, ref b)\<close> by (auto simp: ids(2))
    moreover have "bundle_id (ib_bundle (as_val b)) = ref b" for b :: bundle_box by (simp add: indexed_self_ref_def bundle_self_ref_def)
    moreover have "ids \<noteq> []" using calculation(1) [of "hd bs"] that(1) by auto
    ultimately show ?thesis using ids(1) by (auto simp: bundle_repo_rocksdb_def list_ex_iff)
  qed
  obtain i1 where i1: "bro_select R c p 1 = Some i1" "i1 \<noteq> []" "\<forall>b \<in> set b1. list_ex (\<lambda>bid. bundle_id (ib_bundle (as_val b)) = bid) i1"
    using sel [OF assms(2), of p 1] assms(4) by auto
  obtain i2 where i2: "bro_select R c q 2 = Some i2" "i2 \<noteq> []" "\<forall>b \<in> set b4. list_ex (\<lambda>bid. bundle_id (ib_bundle (as_val b)) = bid) i2"
    using sel [OF assms(3), of q 2] assms(7) by auto
  have "check_each b1 (\<lambda>bun. assert_that (list_ex (\<lambda>bid. bundle_id (ib_bundle (as_val bun)) = bid) i1)) = Some ()"
    "check_each b4 (\<lambda>bun. assert_that (list_ex (\<lambda>bid. bundle_id (ib_bundle (as_val bun)) = bid) i2)) = Some ()"
    using i1(3) i2(3) by (auto intro!: check_each_passes)
  then show ?thesis using c(1) i1 i2 by (simp add: test_bundle_repo_select_def Let_def)
qed

lemma destructure_passes: "destructure_key X = Some ()"
  by (simp add: destructure_key_def Let_def)

end

section \<open>Generated bundles fit\<close>

definition drawn_id :: "ergo_lib \<Rightarrow> pool_id \<Rightarrow> bundle_draw \<Rightarrow> box_id" where
  "drawn_id E p d = new_box_id E (the (gen_candidate E p d)) (bd_tx d) 0"

lemma drawn_maps:
  assumes "list_all2 (drawn_as E p e) draws bs"
  shows "map (\<lambda>b. indexed_self_ref (as_val b)) bs = map (tok_id \<circ> bd_key) draws" "map (\<lambda>b. indexed_self_state_ref (as_val b)) bs = map (drawn_id E p) draws"
    "b \<in> set bs \<Longrightarrow> indexed_self_state_ref (as_val b) = box_id (as_bx b)" "b \<in> set bs \<Longrightarrow> index_entry (as_val b) = (p, e, indexed_self_ref (as_val b))"
    "bs = [] \<longleftrightarrow> draws = []"
  using assms by (induction rule: list_all2_induct) (auto simp: drawn_as_def drawn_id_def)

definition accepted :: "ergo_lib \<Rightarrow> (ergo_box_candidate \<Rightarrow> ergo_box_candidate option) \<Rightarrow> pool_id \<Rightarrow> bundle_draw list \<Rightarrow> bool" where
  "accepted E build p draws \<longleftrightarrow> (\<forall>d \<in> set draws. case gen_candidate E p d of None \<Rightarrow> False | Some c \<Rightarrow> build c = Some c)"

lemma gen_accepted: "accepted E build p draws \<Longrightarrow> \<exists>bs. gen_bundles E build p e draws = Some bs \<and> list_all2 (drawn_as E p e) draws bs"
  by (rule gen_bundles_facts) (auto simp: accepted_def split: option.split_asm)

abbreviation "zero_pool \<equiv> from_be_bytes (replicate 32 0) :: pool_id"
abbreviation "one_pool \<equiv> from_be_bytes (replicate 32 1) :: pool_id"

context bundle_tests
begin

lemma suites_pass:
  assumes "accepted E build p draws" "distinct (map (drawn_id E p) draws)" "distinct (map (tok_id \<circ> bd_key) draws)" "draws \<noteq> []"
  shows "bundle_suite E build test_bundle_repo_may_exist R db p draws = Some ()" "bundle_suite E build test_bundle_repo_predicted R db p draws = Some ()"
    "bundle_suite E build test_bundle_repo_confirmed R db p draws = Some ()" "bundle_suite E build test_bundle_repo_invalidate R db p draws = Some ()"
proof -
  obtain bs where bs: "gen_bundles E build p 0 draws = Some bs" "list_all2 (drawn_as E p 0) draws bs" using gen_accepted [OF assms(1)] by blast
  then have "fits bs" "bs \<noteq> []" using assms drawn_maps [OF bs(2)] by (simp_all add: fits_def)
  then show "bundle_suite E build test_bundle_repo_may_exist R db p draws = Some ()" "bundle_suite E build test_bundle_repo_predicted R db p draws = Some ()"
    "bundle_suite E build test_bundle_repo_confirmed R db p draws = Some ()" "bundle_suite E build test_bundle_repo_invalidate R db p draws = Some ()"
    by (simp_all add: bundle_suite_def bs(1) may_exist_passes predicted_passes confirmed_passes invalidate_passes)
qed

lemma select_suite_passes:
  assumes "accepted E build zero_pool (d01 @ d02)" "accepted E build one_pool (d11 @ d12)" "d01 \<noteq> []" "d12 \<noteq> []"
    and "distinct (map (drawn_id E zero_pool) (d01 @ d02) @ map (drawn_id E one_pool) (d11 @ d12))" "distinct (map (tok_id \<circ> bd_key) (d01 @ d02 @ d11 @ d12))"
  shows "select_suite E build R db d01 d02 d11 d12 = Some ()"
proof -
  have acc: "accepted E build zero_pool d01" "accepted E build zero_pool d02" "accepted E build one_pool d11" "accepted E build one_pool d12"
    using assms(1,2) by (auto simp: accepted_def)
  obtain b1 b2 b3 b4 where b: "gen_bundles E build zero_pool 1 d01 = Some b1" "gen_bundles E build zero_pool 2 d02 = Some b2"
      "gen_bundles E build one_pool 1 d11 = Some b3" "gen_bundles E build one_pool 2 d12 = Some b4"
    and d: "list_all2 (drawn_as E zero_pool 1) d01 b1" "list_all2 (drawn_as E zero_pool 2) d02 b2"
      "list_all2 (drawn_as E one_pool 1) d11 b3" "list_all2 (drawn_as E one_pool 2) d12 b4"
    using gen_accepted [OF acc(1)] gen_accepted [OF acc(2)] gen_accepted [OF acc(3)] gen_accepted [OF acc(4)] by metis
  note maps = drawn_maps [OF d(1)] drawn_maps [OF d(2)] drawn_maps [OF d(3)] drawn_maps [OF d(4)]
  have "map sid (b1 @ b2 @ b3 @ b4) = map (drawn_id E zero_pool) (d01 @ d02) @ map (drawn_id E one_pool) (d11 @ d12)"
    "map ref (b1 @ b2 @ b3 @ b4) = map (tok_id \<circ> bd_key) (d01 @ d02 @ d11 @ d12)" by (simp_all add: maps)
  then have "fits (b1 @ b2 @ b3 @ b4)" unfolding fits_def using assms(5,6) maps by (metis Un_iff set_append)
  then have "test_bundle_repo_select R db zero_pool one_pool b1 b2 b3 b4 = Some ()"
    using assms(3,4) maps by (intro select_passes) simp_all
  then show ?thesis by (simp add: select_suite_def Let_def b)
qed

end

section \<open>Instance\<close>

interpretation bundle_test_suite: bundle_tests sample_bundles RBT.empty
  by (intro bundle_tests.intro bundle_tests_axioms.intro sample_bundles.bundle_repo_axioms) (simp_all add: no_bundles)

definition sample_draw :: "nat \<Rightarrow> bundle_draw" where
  "sample_draw i = \<lparr> bd_value = 1000000, bd_height = 10, bd_vlq = \<lparr> tok_id = 1, tok_amount = 100 \<rparr>, bd_tmp = \<lparr> tok_id = 2, tok_amount = 500 \<rparr>,
     bd_key = \<lparr> tok_id = word_of_nat i, tok_amount = 1 \<rparr>, bd_tx = word_of_nat i \<rparr>"

section \<open>Result\<close>

text \<open>The tests of the repository of bundles pass over every store that keeps the documented laws and starts empty, for all drawn
  values that \<open>ergo-lib\<close> accepts and that give different boxes and keys: a stored bundle may exist, predictions link to
  their predecessors, confirmations can be read, an invalidated prediction is gone, and \<open>select\<close> finds the bundles of a pool and an epoch.\<close>

theorem bundle_repo_tests_pass:
  assumes "bundle_repo X" "bundle_index_wf X db"
    and "abs_bundles_of X db = \<lparr> ab_states = Map.empty, ab_links = Map.empty, ab_predicted = Map.empty, ab_confirmed = Map.empty, ab_index = {} \<rparr>"
    and "accepted E build p draws" "distinct (map (drawn_id E p) draws)" "distinct (map (tok_id \<circ> bd_key) draws)" "length draws = 3"
    and "accepted E build zero_pool (d01 @ d02)" "accepted E build one_pool (d11 @ d12)" "length d01 = 2" "length d02 = 4" "length d11 = 2" "length d12 = 3"
    and "distinct (map (drawn_id E zero_pool) (d01 @ d02) @ map (drawn_id E one_pool) (d11 @ d12))" "distinct (map (tok_id \<circ> bd_key) (d01 @ d02 @ d11 @ d12))"
    and "R = bundle_repo_rocksdb X"
  shows "bundle_suite E build test_bundle_repo_may_exist R db p draws = Some () \<and> bundle_suite E build test_bundle_repo_predicted R db p draws = Some () \<and>
    bundle_suite E build test_bundle_repo_confirmed R db p draws = Some () \<and> bundle_suite E build test_bundle_repo_invalidate R db p draws = Some () \<and>
    select_suite E build R db d01 d02 d11 d12 = Some () \<and> destructure_key X = Some ()"
proof -
  have T: "bundle_tests X db" using assms(1-3) by (intro bundle_tests.intro bundle_tests_axioms.intro)
  have ne: "draws \<noteq> []" "d01 \<noteq> []" "d12 \<noteq> []" using assms(7,10,13) by auto
  show ?thesis unfolding assms(16)
    using bundle_tests.suites_pass [OF T assms(4-6) ne(1)] bundle_tests.select_suite_passes [OF T assms(8,9) ne(2,3) assms(14,15)]
      bundle_tests.destructure_passes [OF T] by simp
qed

theorem bundle_repo_tests_pass_witness:
  "select_suite sample_lib Some (bundle_repo_rocksdb sample_bundles) RBT.empty (map sample_draw [0..<2]) (map sample_draw [2..<6])
     (map sample_draw [6..<8]) (map sample_draw [8..<11]) = Some ()"
proof -
  have cand: "\<exists>c. gen_candidate sample_lib p d = Some c" for p d by (simp add: gen_candidate_def sample_lib_def)
  then have acc: "accepted sample_lib Some p ds" for p ds by (auto simp: accepted_def split: option.split)
  have i: "drawn_id sample_lib p (sample_draw i) = word_of_nat i" for p i by (simp add: drawn_id_def sample_draw_def sample_lib_def)
  have k: "tok_id (bd_key (sample_draw i)) = word_of_nat i" for i by (simp add: sample_draw_def)
  have small: "(word_of_nat i :: digest32) = word_of_nat j \<longleftrightarrow> i = j" if "i < 11" "j < 11" for i j
    using that by (simp add: word_of_nat_eq_iff take_bit_nat_eq_self)
  have dist: "distinct (map (word_of_nat :: nat \<Rightarrow> digest32) xs)" if "distinct xs" "set xs \<subseteq> {..<11}" for xs
    using that small by (auto simp: distinct_map inj_on_def subset_iff)
  have ids: "distinct (map (drawn_id sample_lib p) (map sample_draw xs))" "distinct (map (tok_id \<circ> bd_key) (map sample_draw xs))"
    if "distinct xs" "set xs \<subseteq> {..<11}" for xs p
    using dist [OF that] by (simp_all add: comp_def i k)
  have all: "map (drawn_id sample_lib zero_pool) (map sample_draw [0..<2] @ map sample_draw [2..<6]) @ map (drawn_id sample_lib one_pool) (map sample_draw [6..<8] @ map sample_draw [8..<11]) =
      map word_of_nat [0..<11]"
    "map (tok_id \<circ> bd_key) (map sample_draw [0..<2] @ map sample_draw [2..<6] @ map sample_draw [6..<8] @ map sample_draw [8..<11]) = map word_of_nat [0..<11]"
    by (simp_all add: i k upt_rec)
  note run = bundle_repo_tests_pass [OF sample_bundles.bundle_repo_axioms no_bundles, of sample_lib Some 5 "map sample_draw [0..<3]" "map sample_draw [0..<2]"
      "map sample_draw [2..<6]" "map sample_draw [6..<8]" "map sample_draw [8..<11]", OF acc ids(1) ids(2) _ acc acc _ _ _ _ _ _ refl]
  have "distinct (map (word_of_nat :: nat \<Rightarrow> digest32) [0..<11])" by (rule dist) auto
  moreover have "{0..<3} \<subseteq> {..<(11 :: nat)}" by auto
  ultimately show ?thesis using run unfolding all by auto
qed

end
