(* ===== verification/Test_Funding.thy ===== *)
theory Test_Funding
  imports Funding_Repo Test_Support
begin

text \<open>
  The tests of the funding repository (\<open>spectrum-offchain-lm/src/funding.rs\<close>), over every database that keeps the documented laws.

  Results: they pass.  The last one fixes the order in which two boxes are collected: the smaller first, although the keys are
  made to put the greater value first, because their bytes are little-endian.
\<close>

section \<open>The tests\<close>

definition trivial_box :: "ergo_lib \<Rightarrow> ergo_tree \<Rightarrow> ergo_box" where
  "trivial_box E trivial_prop = (let c = \<lparr> bx_value = safe_user_min E, bx_tree = trivial_prop, bx_tokens = None, bx_regs = [], bx_height = 0 \<rparr>
     in box_of_candidate c (new_box_id E c 0 0))"

definition test_funding :: "ergo_lib \<Rightarrow> ergo_tree \<Rightarrow> u8 \<Rightarrow> u64 \<Rightarrow> distribution_funding as_box" where
  "test_funding E trivial_prop ix amt = AsBox (trivial_box E trivial_prop)
     \<lparr> df_id = from_be_bytes (replicate 32 ix), df_prop = trivial_prop, df_erg_value = amt \<rparr>"

type_synonym 'r funding_test = "'r funding_repo_ops \<Rightarrow> 'r \<Rightarrow> (u8 \<Rightarrow> u64 \<Rightarrow> distribution_funding as_box) \<Rightarrow> unit panics"

definition collect_sucess :: "'r funding_test" where
  "collect_sucess R client funding = do {
     let f1 = funding 0 1000000;
     let f2 = funding 1 2000000;
     let f3 = funding 2 4000000;
     client \<leftarrow> for_each [f2, f1, f3] (\<lambda>f client. Some (fro_put_confirmed R client (Confirmed f))) client;
     let target = 5000000;
     (res, client) \<leftarrow> fro_collect R client target;
     res \<leftarrow> (case res of Inl _ \<Rightarrow> None | Inr r \<Rightarrow> Some r);
     let collected = sum_list (map (\<lambda>f. df_erg_value (as_val f)) res);
     assert_that (target \<le> collected) }"

definition collect_not_enough_funds :: "'r funding_test" where
  "collect_not_enough_funds R client funding = do {
     let f1 = funding 0 1000000;
     let f2 = funding 1 2000000;
     let f3 = funding 2 4000000;
     client \<leftarrow> for_each [f2, f1, f3] (\<lambda>f client. Some (fro_put_confirmed R client (Confirmed f))) client;
     let target = 8000000;
     (res, client) \<leftarrow> fro_collect R client target;
     assert_that (res = Inl ()) }"

definition collect_confirmed_over_predicted :: "'r funding_test" where
  "collect_confirmed_over_predicted R client funding = do {
     let f1 = funding 0 1000000;
     let f2 = funding 1 2000000;
     let f3 = funding 2 4000000;
     let f4 = funding 3 8000000;
     client \<leftarrow> for_each [f1, f3] (\<lambda>f client. Some (fro_put_confirmed R client (Confirmed f))) client;
     client \<leftarrow> for_each [f2, f4] (\<lambda>f client. Some (fro_put_predicted R client (Predicted f))) client;
     let target = 5000000;
     (res, client) \<leftarrow> fro_collect R client target;
     assert_that (res = Inr [f1, f3]) }"

section \<open>They pass\<close>

text \<open>The bytes of the keys.\<close>

lemma be_nat_numeral: "be_nat (numeral n) k = be_nat (pred_numeral n) (k div 256) @ [word_of_nat k]"
  by (simp only: numeral_eq_Suc [of n] be_nat.simps)

lemma le_bytes:
  "to_le_bytes 8 (MAX_VALUE - 1000000) = [0xbf, 0xbd, 0xf0, 0xff, 0xff, 0xff, 0xff, 0x7f]"
  "to_le_bytes 8 (MAX_VALUE - 2000000) = [0x7f, 0x7b, 0xe1, 0xff, 0xff, 0xff, 0xff, 0x7f]"
  "to_le_bytes 8 (MAX_VALUE - 4000000) = [0xff, 0xf6, 0xc2, 0xff, 0xff, 0xff, 0xff, 0x7f]"
  "to_le_bytes 8 (MAX_VALUE - 8000000) = [0xff, 0xed, 0x85, 0xff, 0xff, 0xff, 0xff, 0x7f]"
  "to_le_bytes 8 CONFIRMED_PRIORITY = [0, 0, 0, 0, 0, 0, 0, 0]" "to_le_bytes 8 PREDICTED_PRIORITY = [5, 0, 0, 0, 0, 0, 0, 0]"
  by (simp_all add: to_le_bytes_def to_be_bytes_def be_nat_numeral MAX_VALUE_def CONFIRMED_PRIORITY_def PREDICTED_PRIORITY_def)

locale funding_tests = funding_repo X for X :: "'db funding_env" +
  fixes db :: 'db and p :: ergo_tree
  assumes empty: "db_scan (fe_db X) db (fe_str X FUNDING_KEY_PREFIX) = []"
    and parses: "parse_tree (fe_lib X) p = Some p"
begin

abbreviation "R \<equiv> funding_repo_rocksdb X"
abbreviation "f \<equiv> test_funding (fe_lib X) p"

lemma funding_fields [simp]: "df_erg_value (as_val (f i v)) = v" "df_prop (as_val (f i v)) = p"
  "df_id (as_val (f i v)) = df_id (as_val (f j w)) \<longleftrightarrow> i = j"
  "f i v = f j w \<longleftrightarrow> i = j \<and> v = w"
  by (auto simp: test_funding_def replicated_digest)

lemma confirmed_scan:
  "db_scan (fe_db X) (put_funding X CONFIRMED_PRIORITY (put_funding X CONFIRMED_PRIORITY (put_funding X CONFIRMED_PRIORITY db (f 1 2000000)) (f 0 1000000)) (f 2 4000000))
     (fe_str X FUNDING_KEY_PREFIX) =
   map (\<lambda>g. (key_of X CONFIRMED_PRIORITY g, stored_bytes X g)) [f 1 2000000, f 0 1000000, f 2 4000000]"
  using empty rocksdb_laws.scan_Nil [OF db_laws]
  by (intro rocksdb_laws.scan_eqI [OF db_laws])
    (simp add: key_of_def funding_key_def u64_bytes le_bytes append_less_same_length, auto simp: put_funding_get)

lemma predicted_scan:
  "db_scan (fe_db X) (put_funding X PREDICTED_PRIORITY (put_funding X PREDICTED_PRIORITY (put_funding X CONFIRMED_PRIORITY
       (put_funding X CONFIRMED_PRIORITY db (f 0 1000000)) (f 2 4000000)) (f 1 2000000)) (f 3 8000000))
     (fe_str X FUNDING_KEY_PREFIX) =
   [(key_of X CONFIRMED_PRIORITY (f 0 1000000), stored_bytes X (f 0 1000000)), (key_of X CONFIRMED_PRIORITY (f 2 4000000), stored_bytes X (f 2 4000000)),
    (key_of X PREDICTED_PRIORITY (f 1 2000000), stored_bytes X (f 1 2000000)), (key_of X PREDICTED_PRIORITY (f 3 8000000), stored_bytes X (f 3 8000000))]"
  using empty rocksdb_laws.scan_Nil [OF db_laws]
  by (intro rocksdb_laws.scan_eqI [OF db_laws])
    (simp add: key_of_def funding_key_def u64_bytes le_bytes append_less_same_length, auto simp: put_funding_get)

lemma reads [simp]: "funding_of_stored (fe_lib X) (stored_of_funding (as_val (f i v))) = Some (as_val (f i v))"
  using parses by simp

lemma sucess_passes: "collect_sucess R db f = Some ()"
  by (simp add: collect_sucess_def Let_def funding_repo_rocksdb_def funding_put_confirmed_def funding_collect_def confirmed_scan)

lemma not_enough_passes: "collect_not_enough_funds R db f = Some ()"
  by (simp add: collect_not_enough_funds_def Let_def funding_repo_rocksdb_def funding_put_confirmed_def funding_collect_def confirmed_scan)

lemma over_predicted_passes: "collect_confirmed_over_predicted R db f = Some ()"
  by (simp add: collect_confirmed_over_predicted_def Let_def funding_repo_rocksdb_def funding_put_confirmed_def funding_put_predicted_def funding_collect_def
      predicted_scan)

end

section \<open>Instance\<close>

interpretation funding_test_suite: funding_tests sample_fundings RBT.empty "[1]"
  by (intro funding_tests.intro funding_tests_axioms.intro sample_fundings.funding_repo_axioms no_fundings) (simp add: sample_fundings_def sample_lib_def)

section \<open>Result\<close>

text \<open>The tests of the funding repository pass over every database that keeps the documented laws and holds no funding: boxes that
  cover the target are collected, too small a total is an error, and confirmed boxes are collected before predicted ones,
  the smaller of the two confirmed ones first.\<close>

theorem funding_tests_pass:
  assumes "funding_repo X" "db_scan (fe_db X) db (fe_str X FUNDING_KEY_PREFIX) = []" "parse_tree (fe_lib X) p = Some p"
    and "R = funding_repo_rocksdb X" "funding = test_funding (fe_lib X) p"
  shows "collect_sucess R db funding = Some () \<and> collect_not_enough_funds R db funding = Some () \<and> collect_confirmed_over_predicted R db funding = Some ()"
proof -
  have T: "funding_tests X db p" using assms(1-3) by (intro funding_tests.intro funding_tests_axioms.intro)
  show ?thesis unfolding assms(4,5)
    by (simp add: funding_tests.sucess_passes [OF T] funding_tests.not_enough_passes [OF T] funding_tests.over_predicted_passes [OF T])
qed

theorem funding_tests_pass_witness:
  "collect_confirmed_over_predicted (funding_repo_rocksdb sample_fundings) RBT.empty (test_funding sample_lib [1]) = Some ()"
proof -
  have "fe_lib sample_fundings = sample_lib" "parse_tree sample_lib [1] = Some [1]" by (simp_all add: sample_fundings_def sample_lib_def)
  then show ?thesis using funding_tests_pass [OF sample_fundings.funding_repo_axioms no_fundings, of "[1]"] by simp
qed

end
