(* ===== verification/Test_Caches.thy ===== *)
theory Test_Caches
  imports Rocks_Cache Test_Support
begin

text \<open>
  The tests of the block caches (\<open>ergo-chain-sync/tests/cache_integration_tests.rs\<close> and the test module of
  \<open>ergo-chain-sync/src/cache/rocksdb.rs\<close>).  The identifiers, transactions and timestamps they draw are arguments.

  Results: they pass for identifiers that differ.  The test of the client is proved once for every cache with the contract
  \<open>recent_cache\<close>; over RocksDB its loop ends after the ten newest blocks.
\<close>

section \<open>The tests\<close>

text \<open>The loop \<open>while let Some(b0) = client.take_best_block()\<close>; \<open>blocks\<close> has the block to pop next first.\<close>

fun pop_best_blocks :: "('c, 'tx) chain_cache \<Rightarrow> ('tx \<Rightarrow> digest32) \<Rightarrow> 'tx block list \<Rightarrow> 'c \<Rightarrow> 'c panics" where
  "pop_best_blocks C tid blocks client = do {
     (b0, client) \<leftarrow> cc_take_best_block C client;
     (case b0 of
        None \<Rightarrow> Some client
      | Some b0 \<Rightarrow> (case blocks of
            [] \<Rightarrow> None
          | b1 # blocks \<Rightarrow> do {
              assert_that (blk_id b0 = blk_id b1);
              assert_that (blk_parent_id b0 = blk_parent_id b1);
              assert_that (blk_height b0 = blk_height b1);
              assert_that (length (blk_transactions b0) = length (blk_transactions b1));
              check_each (blk_transactions b0) (\<lambda>tx0. do {
                tx1 \<leftarrow> find (\<lambda>t. tid tx0 = tid t) (blk_transactions b1);
                assert_that (tx0 = tx1) });
              pop_best_blocks C tid blocks client })) }"

definition append_and_check :: "('c, 'tx) chain_cache \<Rightarrow> digest32 list \<Rightarrow> (nat \<Rightarrow> 'tx list) \<Rightarrow> (nat \<Rightarrow> u64) \<Rightarrow> nat \<Rightarrow>
    'c \<times> 'tx block list \<times> u32 \<Rightarrow> ('c \<times> 'tx block list \<times> u32) panics" where
  "append_and_check C block_ids any_transactions now i = (\<lambda>(client, blocks, height). do {
     let transactions = any_transactions i;
     parent_id \<leftarrow> nth_opt block_ids (i - 1);
     id' \<leftarrow> nth_opt block_ids i;
     let block = \<lparr> blk_id = id', blk_parent_id = parent_id, blk_height = height, blk_timestamp = now i, blk_transactions = transactions \<rparr>;
     let blocks = blocks @ [block];
     let height = height + 1;
     client \<leftarrow> cc_append_block C client block;
     assert_that (cc_exists C client id');
     Some (client, blocks, height) })"

definition test_client :: "('c, 'tx) chain_cache \<Rightarrow> ('tx \<Rightarrow> digest32) \<Rightarrow> digest32 list \<Rightarrow> (nat \<Rightarrow> 'tx list) \<Rightarrow> (nat \<Rightarrow> u64) \<Rightarrow> 'c \<Rightarrow> unit panics" where
  "test_client C tid block_ids any_transactions now client = do {
     let height = 1;
     first_id \<leftarrow> nth_opt block_ids 0;
     (client, blocks, height) \<leftarrow> for_each [1..<30] (append_and_check C block_ids any_transactions now) (client, [], height);
     assert_that (\<not> cc_exists C client first_id);
     client \<leftarrow> pop_best_blocks C tid (rev blocks) client;
     Some () }"

definition test_inmemory_cache :: "('tx \<Rightarrow> digest32) \<Rightarrow> digest32 list \<Rightarrow> (nat \<Rightarrow> 'tx list) \<Rightarrow> (nat \<Rightarrow> u64) \<Rightarrow> unit panics" where
  "test_inmemory_cache tid block_ids any_transactions now = test_client in_memory tid block_ids any_transactions now im_new"

definition test_rocksdb_cache :: "('tx, 'db) cache_env \<Rightarrow> 'db \<Rightarrow> digest32 list \<Rightarrow> (nat \<Rightarrow> 'tx list) \<Rightarrow> (nat \<Rightarrow> u64) \<Rightarrow> unit panics" where
  "test_rocksdb_cache E db block_ids any_transactions now = test_client (rocks_cache_of E 10) (ce_tx_id E) block_ids any_transactions now db"

definition verify_oldest_block :: "('tx, 'db) cache_env \<Rightarrow> digest32 \<Rightarrow> u32 \<Rightarrow> 'db \<Rightarrow> unit panics" where
  "verify_oldest_block E expected_block_id expected_height db = do {
     bytes \<leftarrow> db_get (ce_db E) db (ce_str E OLDEST_BLOCK);
     oldest \<leftarrow> de (ce_rec E) bytes;
     assert_that (br_id oldest = expected_block_id);
     assert_that (br_height oldest = expected_height);
     parent_bytes \<leftarrow> db_get (ce_db E) db (postfixed_key E (br_id oldest) PARENT_POSTFIX);
     parent_id \<leftarrow> de (ce_id E) parent_bytes;
     assert_that (db_get (ce_db E) db (postfixed_key E parent_id PARENT_POSTFIX) = None);
     assert_that (db_get (ce_db E) db (postfixed_key E parent_id HEIGHT_POSTFIX) = None);
     assert_that (db_get (ce_db E) db (postfixed_key E parent_id TRANSACTION_POSTFIX) = None) }"

definition append_and_verify :: "('tx, 'db) cache_env \<Rightarrow> u32 \<Rightarrow> digest32 list \<Rightarrow> (nat \<Rightarrow> 'tx list) \<Rightarrow> (nat \<Rightarrow> u64) \<Rightarrow> nat \<Rightarrow>
    'db \<times> u32 \<Rightarrow> ('db \<times> u32) panics" where
  "append_and_verify E max_rollback_depth block_ids any_transactions now i = (\<lambda>(client, height). do {
     let transactions = any_transactions i;
     parent_id \<leftarrow> nth_opt block_ids (i - 1);
     id' \<leftarrow> nth_opt block_ids i;
     let block = \<lparr> blk_id = id', blk_parent_id = parent_id, blk_height = height, blk_timestamp = now i, blk_transactions = transactions \<rparr>;
     client \<leftarrow> rocks_append_block E max_rollback_depth client block;
     assert_that (rocks_exists E client id');
     (if i < unat max_rollback_depth
      then do { first \<leftarrow> nth_opt block_ids 1; verify_oldest_block E first 1 client }
      else do {
        oldest \<leftarrow> nth_opt block_ids (i + 1 - unat max_rollback_depth);
        verify_oldest_block E oldest (height + 1 - max_rollback_depth) client });
     let height = height + 1;
     Some (client, height) })"

definition test_max_rollback_length :: "('tx, 'db) cache_env \<Rightarrow> 'db \<Rightarrow> digest32 list \<Rightarrow> (nat \<Rightarrow> 'tx list) \<Rightarrow> (nat \<Rightarrow> u64) \<Rightarrow> unit panics" where
  "test_max_rollback_length E db block_ids any_transactions now = do {
     let height = 1;
     let max_rollback_depth = 7;
     (client, height) \<leftarrow> for_each [1..<30] (append_and_verify E max_rollback_depth block_ids any_transactions now) (db, height);
     Some () }"

section \<open>They pass\<close>

text \<open>The block of the iteration \<open>i\<close>.\<close>

definition drawn_block :: "digest32 list \<Rightarrow> (nat \<Rightarrow> 'tx list) \<Rightarrow> (nat \<Rightarrow> u64) \<Rightarrow> nat \<Rightarrow> 'tx block" where
  "drawn_block ids txs now i = \<lparr> blk_id = ids ! i, blk_parent_id = ids ! (i - 1), blk_height = of_nat i, blk_timestamp = now i, blk_transactions = txs i \<rparr>"

lemma drawn_sel [simp]: "blk_id (drawn_block ids txs now i) = ids ! i" "blk_parent_id (drawn_block ids txs now i) = ids ! (i - 1)"
  "blk_height (drawn_block ids txs now i) = of_nat i" "blk_transactions (drawn_block ids txs now i) = txs i"
  by (simp_all add: drawn_block_def)

lemma drawn_chain:
  assumes "distinct ids" "n \<le> length ids" "0 < n"
  shows "proper_chain (rev (map (drawn_block ids txs now) [1..<n]))" "heights_from 1 (rev (map (drawn_block ids txs now) [1..<n]))"
proof -
  let ?b = "drawn_block ids txs now"
  have idx: "ids ! i = ids ! j \<longleftrightarrow> i = j" if "i < length ids" "j < length ids" for i j using assms(1) that by (simp add: nth_eq_iff_index_eq)
  have "linked_chain (rev (map ?b [1..<n])) \<and> heights_from 1 (rev (map ?b [1..<n]))"
    using assms(3)
  proof (induction n rule: nat_induct_non_zero)
    case (Suc n)
    then show ?case by (cases n) (auto simp: Suc_le_eq)
  qed simp
  then show "heights_from 1 (rev (map ?b [1..<n]))" by simp
  have "distinct (map blk_id (rev (map ?b [1..<n])))"
    using idx assms(2) by (auto simp: rev_map [symmetric] distinct_map comp_def inj_on_def)
  moreover have "blk_parent_id (last (rev (map ?b [1..<n]))) \<notin> blk_id ` set (rev (map ?b [1..<n]))" if "1 < n"
  proof -
    have oldest: "blk_parent_id (last (rev (map ?b [1..<n]))) = ids ! 0" using that by (simp add: last_rev hd_map)
    have "ids ! 0 \<noteq> ids ! i" if "1 \<le> i" "i < n" for i using idx [of 0 i] assms(2) that by (cases "ids = []") auto
    then have "ids ! 0 \<notin> (!) ids ` {1..<n}" by (simp add: image_iff)
    then have "ids ! 0 \<notin> blk_id ` set (rev (map ?b [1..<n]))" by (simp add: image_image)
    then show ?thesis unfolding oldest .
  qed
  ultimately show "proper_chain (rev (map ?b [1..<n]))" using \<open>linked_chain _ \<and> _\<close> by (auto simp: proper_chain_def)
qed

text \<open>The client test, over every cache that keeps the recent blocks.\<close>

context recent_cache
begin

lemma pop_best_blocks_stack:
  assumes "stack c st" "prefix st blocks" "\<And>b. b \<in> set st \<Longrightarrow> distinct (map tid (blk_transactions b))"
    and same: "\<And>b. blk_id (stored b) = blk_id b \<and> blk_parent_id (stored b) = blk_parent_id b \<and> blk_height (stored b) = blk_height b \<and>
      blk_transactions (stored b) = blk_transactions b"
  shows "\<exists>c'. pop_best_blocks C tid blocks c = Some c'"
  using assms(1-3)
proof (induction blocks arbitrary: c st)
  case Nil
  then show ?case using pop_nothing by fastforce
next
  case (Cons b1 blocks)
  show ?case
  proof (cases st)
    case Nil
    then show ?thesis using pop_nothing Cons.prems(1) by fastforce
  next
    case (Cons b st')
    have b: "b = b1" "prefix st' blocks" using Cons Cons.prems(2) by auto
    obtain c1 where c1: "cc_take_best_block C c = Some (Some (stored b), c1)" "stack c1 st'" using pop_stack Cons.prems(1) Cons by blast
    have found: "find (\<lambda>t. tid tx = tid t) ts = Some tx" if "tx \<in> set ts" "distinct (map tid ts)" for tx ts
      using that by (induction ts) (auto, metis imageI)
    have txs: "check_each (blk_transactions b1) (\<lambda>tx0. do { tx1 \<leftarrow> find (\<lambda>t. tid tx0 = tid t) (blk_transactions b1); assert_that (tx0 = tx1) }) = Some ()"
      using found Cons.prems(3) [of b] Cons b(1) by (intro check_each_passes) simp
    obtain c2 where "pop_best_blocks C tid blocks c1 = Some c2" using Cons.IH [OF c1(2) b(2)] Cons.prems(3) Cons by auto
    then show ?thesis using c1(1) same [of b] b(1) txs by simp
  qed
qed

lemma client_test_passes:
  assumes live: "live c []" and ids: "distinct ids" "length ids = 30"
    and ext: "\<And>i. 1 \<le> i \<Longrightarrow> i < 30 \<Longrightarrow> extends (drawn_block ids txs now i) (rev (map (drawn_block ids txs now) [1..<i]))"
    and tids: "\<And>i. distinct (map tid (txs i))" and newest: "\<And>b st. \<exists>st'. kept (b # st) = b # st'" and pre: "\<And>st. prefix (kept st) st"
    and same: "\<And>b. blk_id (stored b) = blk_id b \<and> blk_parent_id (stored b) = blk_parent_id b \<and> blk_height (stored b) = blk_height b \<and>
      blk_transactions (stored b) = blk_transactions b"
  shows "test_client C tid ids txs now c = Some ()"
proof -
  let ?b = "drawn_block ids txs now"
  let ?I = "\<lambda>i (client, blocks, height). live client (rev blocks) \<and> blocks = map ?b [1..<i] \<and> height = (of_nat i :: u32)"
  let ?step = "append_and_check C ids txs now"
  have "\<exists>s. for_each [1..<30] ?step (c, [], 1) = Some s \<and> ?I 30 s"
  proof (rule for_each_invariant)
    show "?I 1 (c, [], 1)" using live by simp
    fix i :: nat and s assume i: "1 \<le> i" "i < 30" and "?I i s"
    then obtain client where s: "s = (client, map ?b [1..<i], of_nat i)" "live client (rev (map ?b [1..<i]))" by (cases s) auto
    obtain client' where c': "cc_append_block C client (?b i) = Some client'" "live client' (?b i # rev (map ?b [1..<i]))"
      using append_live [OF s(2) ext [OF i]] by blast
    have "cc_exists C client' (ids ! i)"
      using exists_kept [OF c'(2)] newest [of "?b i" "rev (map ?b [1..<i])"] by (metis drawn_sel(1) imageI list.set_intros(1))
    moreover have "\<lparr> blk_id = ids ! i, blk_parent_id = ids ! (i - Suc 0), blk_height = of_nat i, blk_timestamp = now i, blk_transactions = txs i \<rparr> = ?b i"
      by (simp add: drawn_block_def)
    ultimately show "\<exists>s'. ?step i s = Some s' \<and> ?I (Suc i) s'"
      using c' i ids(2) by (simp add: append_and_check_def s(1) nth_opt_in Let_def add.commute)
  qed simp
  then obtain client blocks height where loop: "for_each [1..<30] ?step (c, [], 1) = Some (client, blocks, height)"
    "live client (rev blocks)" "blocks = map ?b [1..<30]" by (auto split: prod.splits)
  have absent: "\<not> cc_exists C client (ids ! 0)"
    using exists_kept [OF loop(2)] set_mono_prefix [OF pre [of "rev blocks"]] loop(3) ids by (auto simp: nth_eq_iff_index_eq)
  have "distinct (map tid (blk_transactions b))" if "b \<in> set (kept (rev blocks))" for b
    using set_mono_prefix [OF pre [of "rev blocks"]] that tids loop(3) by auto
  then obtain client' where "pop_best_blocks C tid (rev blocks) client = Some client'"
    using pop_best_blocks_stack [OF live_stack [OF loop(2)] pre _ same] by blast
  then show ?thesis using loop(1) absent ids(2) unfolding test_client_def Let_def by (simp add: nth_opt_in del: pop_best_blocks.simps)
qed

end

text \<open>The two caches.\<close>

lemma in_memory_client_test:
  assumes "distinct ids" "length ids = 30" "\<And>i. distinct (map tid (txs i))"
  shows "test_inmemory_cache tid ids txs now = Some ()"
  unfolding test_inmemory_cache_def
proof (rule in_memory.recent.client_test_passes)
  show "im_rep im_new []" by (simp add: im_rep_def im_new_def proper_chain_def)
  show "proper_chain (drawn_block ids txs now i # rev (map (drawn_block ids txs now) [1..<i]))" if "1 \<le> i" "i < 30" for i
    using drawn_chain(1) [of ids "Suc i" txs now] assms that by simp
qed (use assms in auto)

text \<open>The random data of the tests of the RocksDB cache: identifiers and transactions that differ.\<close>

definition drawn_apart :: "('tx, 'db) cache_env \<Rightarrow> digest32 list \<Rightarrow> (nat \<Rightarrow> 'tx list) \<Rightarrow> bool" where
  "drawn_apart E ids txs \<longleftrightarrow> distinct ids \<and> length ids = 30 \<and> distinct (concat (map (\<lambda>i. map (ce_tx_id E) (txs i)) [1..<30])) \<and>
     (\<forall>i. \<forall>t \<in> set (txs i). ce_tx_bytes E t \<noteq> None)"

lemma drawn_ledger_chain:
  assumes "drawn_apart E ids txs" "1 \<le> i" "i \<le> 30"
  shows "ledger_chain E 1 (rev (map (drawn_block ids txs now) [1..<i]))"
proof -
  have "[1..<30] = [1..<i] @ [i..<30]" using assms(2,3) by (metis le_add_diff_inverse upt_add_eq_append)
  then have "distinct (concat (map (\<lambda>i. map (ce_tx_id E) (txs i)) [1..<i]))" using assms(1) by (simp add: drawn_apart_def)
  moreover have "distinct (concat (rev xs)) \<longleftrightarrow> distinct (concat xs)" for xs :: "digest32 list list"
    by (induction xs) auto
  moreover have "map (tx_ids E) (rev (map (drawn_block ids txs now) [1..<i])) = rev (map (\<lambda>i. map (ce_tx_id E) (txs i)) [1..<i])"
    by (simp add: rev_map tx_ids_def)
  ultimately show ?thesis
    using assms drawn_chain [of ids i txs now] unfolding ledger_chain_def by (auto simp: drawn_apart_def)
qed

context rocks_store
begin

lemma rocksdb_client_test:
  assumes "drawn_apart E ids txs" "\<And>k. db_get (ce_db E) db k = None" "\<And>i. distinct (map (ce_tx_id E) (txs i))"
  shows "test_rocksdb_cache E db ids txs now = Some ()"
  unfolding test_rocksdb_cache_def
proof (rule recent_cache.client_test_passes [OF recent_cache_rocks])
  show "live_cache 10 1 db []" by (rule fresh_live) (rule assms(2))
  show "ledger_chain E 1 (drawn_block ids txs now i # rev (map (drawn_block ids txs now) [1..<i]))" if "1 \<le> i" "i < 30" for i
    using drawn_ledger_chain [OF assms(1), of "Suc i" now] that by simp
  show "\<exists>st'. take (unat (10 :: u32)) (b # st) = b # st'" for b and st :: "'tx block list" by simp
  show "prefix (take (unat (10 :: u32)) st) st" for st :: "'tx block list" by (rule take_is_prefix)
qed (use assms in \<open>simp_all add: drawn_apart_def\<close>)

lemma oldest_block_verified:
  assumes "live_cache m h db st" "0 < m" "st \<noteq> []" "b = last (take (unat m) st)"
  shows "verify_oldest_block E (blk_id b) (blk_height b) db = Some ()"
proof -
  define w where "w = take (unat m) st"
  have w: "w \<noteq> []" using assms(2,3) by (simp add: w_def word_less_nat_alt)
  have h: "holds db w" "db_get (ce_db E) db oldest_key = Some (ser (ce_rec E) (record_of b))" and p: "proper_chain w"
    using assms proper_take [of st "unat m"] by (simp_all add: live_cache_def w_def ledger_chain_def)
  have "block_of w (blk_id b) = Some b" using block_of_mem [of w b] p w assms(4) by (simp add: proper_chain_def w_def [symmetric])
  moreover have "block_of w (blk_parent_id b) = None" using p w assms(4) by (simp add: proper_chain_def block_of_None w_def [symmetric])
  ultimately show ?thesis using h by (simp add: verify_oldest_block_def holds_def)
qed

lemma max_rollback_test:
  assumes drawn: "drawn_apart E ids txs" and fresh: "\<And>k. db_get (ce_db E) db k = None"
  shows "test_max_rollback_length E db ids txs now = Some ()"
proof -
  let ?b = "drawn_block ids txs now"
  let ?I = "\<lambda>i (client, height). live_cache 7 1 client (rev (map ?b [1..<i])) \<and> height = (of_nat i :: u32)"
  have ids: "length ids = 30" using drawn by (simp add: drawn_apart_def)
  have "\<exists>s. for_each [1..<30] (append_and_verify E 7 ids txs now) (db, 1) = Some s \<and> ?I 30 s"
  proof (rule for_each_invariant)
    show "?I 1 (db, 1)" using fresh_live [OF fresh] by simp
    fix i :: nat and s assume i: "1 \<le> i" "i < 30" and "?I i s"
    then obtain client where s: "s = (client, of_nat i)" "live_cache 7 1 client (rev (map ?b [1..<i]))" by (cases s) auto
    define st where "st = ?b i # rev (map ?b [1..<i])"
    have st: "st = rev (map ?b [1..<Suc i])" using i by (simp add: st_def)
    obtain client' where c': "rocks_append_block E 7 client (?b i) = Some client'" "live_cache 7 1 client' st"
      using append_window [OF s(2)] drawn_ledger_chain [OF drawn, of "Suc i" now] i by (auto simp: st_def)
    have blk: "\<lparr> blk_id = ids ! i, blk_parent_id = ids ! (i - Suc 0), blk_height = of_nat i, blk_timestamp = now i, blk_transactions = txs i \<rparr> = ?b i"
      by (simp add: drawn_block_def)
    have known: "rocks_exists E client' (ids ! i)" using c'(2) by (auto simp: rocks_exists_def live_cache_def holds_def st_def block_of_Cons)
    have oldest: "last (take 7 st) = (if i < 7 then ?b 1 else ?b (i - 6))"
    proof (cases "i < 7")
      case True
      then show ?thesis using i by (simp add: st last_rev hd_map del: upt_Suc)
    next
      case False
      then have "last (take 7 st) = st ! 6" by (subst last_conv_nth) (auto simp: st simp del: upt_Suc)
      also have "\<dots> = ?b (i - 6)"
      proof -
        have "Suc (i - 7) = i - 6" using False by simp
        then show ?thesis using False by (simp add: st rev_nth del: upt_Suc)
      qed
      finally show ?thesis using False by simp
    qed
    have "verify_oldest_block E (blk_id (last (take 7 st))) (blk_height (last (take 7 st))) client' = Some ()"
      using oldest_block_verified [OF c'(2) _ _ refl] by (simp add: st_def)
    moreover have "of_nat (i - 6) = (of_nat i + 1 - 7 :: u32)" if "\<not> i < 7" using that by (simp add: of_nat_diff)
    ultimately have verified: "i < 7 \<Longrightarrow> verify_oldest_block E (ids ! 1) 1 client' = Some ()"
      "\<not> i < 7 \<Longrightarrow> verify_oldest_block E (ids ! (i - 6)) (of_nat i + 1 - 7) client' = Some ()"
      unfolding oldest by simp_all
    have depth: "unat (7 :: u32) = 7" by simp
    show "\<exists>s'. append_and_verify E 7 ids txs now i s = Some s' \<and> ?I (Suc i) s'"
      using c' known verified i ids unfolding st append_and_verify_def s(1) depth by (simp add: nth_opt_in blk Let_def add.commute)
  qed simp
  then show ?thesis by (auto simp: test_max_rollback_length_def)
qed

end

section \<open>Result\<close>

text \<open>The tests of the caches pass: the client test over the in-memory cache, over RocksDB with depth 10, and the test
  that the oldest block is the one the depth asks for, for all data in which block and transaction identifiers differ.\<close>

theorem cache_tests_pass:
  assumes "rocks_store E" "drawn_apart E ids txs" "\<And>i. distinct (map (ce_tx_id E) (txs i))" "\<And>k. db_get (ce_db E) db k = None"
  shows "test_inmemory_cache (ce_tx_id E) ids txs now = Some () \<and> test_rocksdb_cache E db ids txs now = Some () \<and>
    test_max_rollback_length E db ids txs now = Some ()"
  using in_memory_client_test [of ids "ce_tx_id E" txs now] rocks_store.rocksdb_client_test [OF assms(1,2,4,3)]
    rocks_store.max_rollback_test [OF assms(1,2,4)] assms(2,3) by (simp add: drawn_apart_def)

theorem cache_tests_pass_witness:
  "test_inmemory_cache (\<lambda>t. t) (map of_nat [0..<30]) (\<lambda>i. [of_nat i]) (\<lambda>_. 7) = Some () \<and>
   test_rocksdb_cache sample_cache RBT.empty (map of_nat [0..<30]) (\<lambda>i. [of_nat i]) (\<lambda>_. 7) = Some () \<and>
   test_max_rollback_length sample_cache RBT.empty (map of_nat [0..<30]) (\<lambda>i. [of_nat i]) (\<lambda>_. 7) = Some ()"
proof -
  have apart: "distinct (map of_nat [k..<30] :: digest32 list)" for k
  proof -
    have "inj_on (of_nat :: nat \<Rightarrow> digest32) (set [k..<30])"
      by (rule inj_onI) (auto simp: word_of_nat_eq_iff take_bit_nat_eq_self)
    then show ?thesis by (simp add: distinct_map)
  qed
  have "drawn_apart sample_cache (map of_nat [0..<30]) (\<lambda>i. [of_nat i])"
    using apart [of 0] apart [of 1] by (simp add: drawn_apart_def sample_cache_def concat_map_singleton)
  then show ?thesis
    using cache_tests_pass [OF sample_cache.rocks_store_axioms, of "map of_nat [0..<30]" "\<lambda>i. [of_nat i]" RBT.empty "\<lambda>_. 7"]
    by (simp add: sample_cache_def mem_rocksdb_def)
qed

end
