(* ===== verification/Test_Data.thy ===== *)
theory Test_Data
  imports Node_Errors Identifiers Test_Support
begin

text \<open>
  Two tests of data: of the parser of node errors (\<open>spectrum-offchain/src/executor.rs\<close>) and of the serialisation of \<open>AsBox\<close>
  (\<open>spectrum-offchain-lm/src/data.rs\<close>).  The box of the second is drawn at random.

  Results: they pass; the second for every box that \<open>ergo-lib\<close> reads back from its bytes.
\<close>

definition test_missing_indices :: "unit panics" where
  "test_missing_indices = do {
     err \<leftarrow> parse_err ''Missing inputs: 3, 4, 6]'';
     assert_that (err = MissingInputs [3, 4, 6]) }"

definition as_box_serialize_deserialize :: "box_bytes \<Rightarrow> ergo_box \<Rightarrow> unit panics" where
  "as_box_serialize_deserialize B bx = do {
     let as_box = AsBox bx (0 :: u8);
     bytes \<leftarrow> as_box_serialize B as_box;
     result \<leftarrow> as_box_visit_seq B bytes;
     result \<leftarrow> (case result of Inl _ \<Rightarrow> None | Inr b \<Rightarrow> Some b);
     assert_that (as_box = result) }"

lemma missing_indices_pass: "test_missing_indices = Some ()"
proof -
  have "parse_err ''Missing inputs: 3, 4, 6]'' = Some (MissingInputs [3, 4, 6])"
  proof -
    have "render_ixs [3, 4, 6] = ''3, 4, 6''" by code_simp
    then show ?thesis using parse_err_rendered [of "[3, 4, 6]" "[]"] by simp
  qed
  then show ?thesis by (simp add: test_missing_indices_def)
qed

theorem data_tests_pass:
  assumes "bb_serialize B bx = Some bs" "bb_parse B bs = Some bx"
  shows "test_missing_indices = Some () \<and> as_box_serialize_deserialize B bx = Some ()"
  using missing_indices_pass assms by (simp add: as_box_serialize_deserialize_def as_box_serialize_def)

end
