(* ===== verification/Spec2Isabelle.thy ===== *)
theory Spec2Isabelle
  imports LM_System Entity_Repo Node_Errors Chain_Sync Funding_Repo Network Distribution LM_Executor Generic_Executor
    Mempool_Sync LM_Handlers LM_Node LM_Concurrent Deploy_Node Identifiers Mnemonic Rocks_Cache
    Test_Entities Test_Schedules Test_Backlog Test_Bundles Test_Funding Test_Caches Test_Data
begin

text \<open>
  Verification of the off-chain services of the Spectrum liquidity-mining protocol on Ergo.

  The program.  The node of \<open>spectrum-offchain-lm/src/main.rs\<close> follows the chain, keeps books on the pools, staking
  bundles, funding boxes, orders and schedules it sees in transactions, runs deposits, redeems and compoundings
  against the pools and submits the resulting transactions.  It is assembled from the crates \<open>ergo-chain-sync\<close> (blocks from a
  node), \<open>ergo-mempool-sync\<close> (unconfirmed transactions) and \<open>spectrum-offchain\<close> (backlog, entity repository, event
  handlers, generic executor).  Events flow from the synchroniser through the handlers into topics; update
  streams move the topics into the repositories; the scheduler turns due ticks into compound orders; the executor pops
  orders, runs them against the resolved pool, submits, and records its predictions in the repositories.

  Theories and sources (below \<open>src/\<close>).
  Foundations: \<open>Prelude\<close> (words, byte strings, panics), \<open>Float64\<close> (the \<open>f64\<close> operations of the pool), \<open>Ergo\<close> (the data of
  \<open>ergo-lib\<close>, \<open>spectrum-offchain/src/domain.rs\<close> and \<open>transaction.rs\<close>), \<open>Storage\<close> (the key-value store, codecs, key prefixes of
  \<open>binary.rs\<close>) and \<open>Codecs\<close> (concrete codecs for the instances).
  Domain of liquidity mining (\<open>spectrum-offchain-lm/src/data/\<close>): \<open>LM_Data\<close> (outputs, \<open>ergo.rs\<close>, \<open>validators.rs\<close>), \<open>Bundle_Data\<close>
  (\<open>bundle.rs\<close>), \<open>Order_Data\<close> and \<open>LM_Order\<close> (\<open>order.rs\<close>), \<open>Pool\<close> (\<open>pool.rs\<close>); \<open>LM_System\<close> is the pool with its outstanding
  bundles as a state machine, \<open>LM_Types\<close> the kinds of its tokens, \<open>Identifiers\<close> the byte arrays and the order of the identifiers and
  the serialisation of \<open>AsBox\<close> (\<open>spectrum-offchain-lm/src/data.rs\<close>).
  Entities (\<open>spectrum-offchain\<close>): \<open>Entity_Data\<close> (\<open>data/unique_entity.rs\<close>, \<open>data/order.rs\<close>, \<open>combinators.rs\<close>), \<open>Entity_Repo\<close>
  (\<open>box_resolver.rs\<close> and \<open>box_resolver/\<close>), \<open>Event_Handlers\<close> (\<open>event_source.rs\<close>, \<open>event_sink.rs\<close>, \<open>event_sink/handlers/\<close>).
  Orders: \<open>Backlog\<close> (\<open>backlog.rs\<close> and \<open>backlog/\<close>), \<open>Node_Errors\<close> (the errors of \<open>executor.rs\<close>), \<open>Generic_Executor\<close>
  (\<open>executor.rs\<close>).
  Chain: \<open>Chain_Cache\<close>, \<open>Chain_Sync\<close> and \<open>Rocks_Cache\<close> (crate \<open>ergo-chain-sync\<close>), \<open>Mempool_Sync\<close> (crate \<open>ergo-mempool-sync\<close>), \<open>Network\<close>
  (\<open>network.rs\<close>, \<open>token_details.rs\<close>).
  Repositories of the node (\<open>spectrum-offchain-lm\<close>): \<open>Schedule\<close> (\<open>scheduler.rs\<close>, \<open>scheduler/data.rs\<close>), \<open>Bundle_Repo\<close>
  (\<open>bundle.rs\<close> and \<open>bundle/\<close>), \<open>Funding_Repo\<close> (\<open>funding.rs\<close>, \<open>program.rs\<close> and their directories).
  Node: \<open>LM_Handlers\<close> (\<open>event_sink/handlers/\<close>, \<open>backlog_stream.rs\<close>), \<open>Distribution\<close> (\<open>scheduler/process.rs\<close>), \<open>Prover\<close>
  (\<open>prover.rs\<close>), \<open>LM_Executor\<close> (\<open>executor.rs\<close>), \<open>LM_Node\<close> (\<open>main.rs\<close>, element by element), \<open>LM_Streams\<close> and
  \<open>LM_Concurrent\<close> (the streams of \<open>main.rs\<close> interleaved at their locks, over the processes of \<open>Concurrency\<close>).
  Deployment tool: \<open>Deploy\<close> (\<open>spectrum-deploy-lm-pool/src/main.rs\<close>), which creates the pool the node then serves;
  \<open>Deploy_Node\<close> puts the two together.  \<open>Adapters\<close>: URLs (\<open>client/types.rs\<close>), the sink over a channel (\<open>sink.rs\<close>) and the
  phrase of a new wallet (\<open>generate_wallet.rs\<close>), whose words are in \<open>Mnemonic\<close> (\<open>bip39_words.rs\<close>).
  Tests of the repository, over \<open>Test_Support\<close>: \<open>Test_Pool\<close>, \<open>Test_Schedules\<close>, \<open>Test_Backlog\<close>, \<open>Test_Entities\<close>,
  \<open>Test_Bundles\<close>, \<open>Test_Funding\<close>, \<open>Test_Caches\<close> and \<open>Test_Data\<close> hold the test modules of the files they are named after.

  Correspondence.  A struct is a record, an enum a datatype, a machine integer a word of its width: arithmetic wraps as in
  a release build, with saturating and checked operations written out.  \<open>'a panics\<close> is \<open>'a option\<close>: \<open>None\<close> is a panic
  (a failed \<open>unwrap\<close>, assertion or division by zero).  A \<open>Result\<close> is a sum, the error on the left.  A trait is a record of
  operations (\<open>entity_repo_ops\<close>, \<open>backlog_ops\<close>, \<open>chain_cache\<close>, \<open>schedule_repo_ops\<close>, \<open>bundle_repo_ops\<close>,
  \<open>funding_repo_ops\<close>, \<open>program_repo_ops\<close>, \<open>ergo_network\<close>), its implementations are values of it.  A method with
  \<open>&mut self\<close> returns the new state; a stream is the function of one of its elements, named \<open>..._step\<close>.

  Parameters.  What the repository does not contain is an argument: \<open>ergo_lib\<close> (boxes, tokens, hashes, signing data), the store
  (record \<open>rocksdb\<close>, with the laws of reading, writing and scanning in key order: locale \<open>rocksdb_laws\<close>), serialisation
  (record \<open>codec\<close>: reading back what was written; strings carry their length), the priority queue, HTTP and JSON, clocks,
  random numbers and the iteration order of hash maps.  Each law is a locale interpreted on a concrete
  instance (an ordered tree as the store, byte codecs), on which the witnesses evaluate.

  What is shown.
  Pool: the pool stays backed by its reserves through every sequence of orders; deposits,
  redeems and distributions conserve tokens and ERG; a deposit can be undone; rewards stay within the epoch and are
  not paid twice; the floating-point tests are exact below \<open>2^53\<close>; boxes and transactions agree with the model.
  Resolution and repositories: the key-value encodings refine finite maps, resolution follows its specification, predictions stack, roll
  back and end; schedules keep one tick per pool and follow the pools; indices of bundles and the funding collection
  return what they promise.
  Backlog and executor: no stored order leaves the queues unless it has been acquired; popping returns the best live
  order; which outcome of a run gives an order back.  Generic laws of the services are proved in locales (\<open>backlog\<close>, \<open>entity_repo\<close>,
  \<open>schedule_repo\<close>, \<open>bundle_repo\<close>, \<open>funding_repo\<close>, \<open>chain_cache\<close>, \<open>recent_cache\<close>, \<open>executor\<close>, \<open>distribution\<close>,
  \<open>entity_events\<close>, \<open>lm_node\<close>, \<open>streams\<close>, \<open>streams_inv\<close>) and the properties read them off.
  Chain: the synchroniser walks on linked chains over a cache that keeps its contract; the RocksDB cache does not once a
  block has been taken back, but keeps exactly the newest blocks while the chain grows; a block and its rollback cancel; the mempool feed replays to the projection and a poll ends.
  Deployment: the six transactions of a deployment can be submitted one after the other and balance; the pool and the bundle
  they create are read back by the node as an initial, backed and well-typed state; the checks of the tool imply that the node finds
  the pool open and with all epochs left, and its schedules hold one tick for it, at the end of the first epoch.
  Node: the invariants of the books hold in every state that any interleaving of the streams reaches, element by element
  (\<open>node_reach\<close>) and lock by lock; the streams never deadlock, and the steps without interruption are runs of the interleaved
  node.
  Tests: the tests of the repository pass on the model, whatever different identifiers they draw at random, so the model
  agrees with the examples of the authors of the code.

  Loops.  Loops over collections are structural recursions.  The search of a live order (\<open>try_pop_max_order\<close>), the walk along
  prediction links (\<open>link_loop\<close>) and the pages of the mempool (\<open>fetch_pool\<close>) are partial functions, whose \<open>None\<close> is
  a loop that never ends; that they end is proved: on a finite queue, on well-founded links (kept by predictions of new
  boxes) and when requests succeed again and again.  No fuel is used.  The synchroniser and the node are step relations or
  folds over any finite sequence of answers.

  Granularity.  In \<open>LM_Node\<close> an element of a stream is atomic.  In \<open>LM_Concurrent\<close> an element is a process: a tree of
  acquisitions and releases of the locks of \<open>main\<close> and of atomic actions between them, and another stream may run wherever a lock is
  taken.  What is done under a lock is one action; \<open>atomic_steps_are_runs\<close> relates the two views.

  Not modelled: command lines and configuration files, the HTTP request of the deployment tool to the explorer, logging, timers
  between rounds, the pinning of streams (\<open>streaming.rs\<close>), and the tests that parse serialised contracts of orders, sign a
  transaction or ask a live node.  The derived
  serialisation of the stored types is the codec parameter.  Of the sigma prover and the box selector of \<open>ergo-lib\<close> only what their
  documentation promises is used: a signed transaction has the inputs and outputs of its candidate, a selection is a part of what
  it selects from (locales \<open>signer\<close> and \<open>deployment\<close>).
\<close>

end
